(* ===== verification/Hiview_Prelude.thy ===== *)
theory Hiview_Prelude
  imports Main "HOL-Library.Word" "HOL-Library.Sublist"
begin

text \<open>
  Shared vocabulary of the development: the machine integers of the C++ sources as words, byte
  strings and their conversion to and from \<open>std::string\<close>, the little-endian memory image of an
  integer (the packed structures of the event codec are copied byte by byte with \<open>memcpy_s\<close>),
  decimal and hexadecimal printing, and the collections of rewrite rules the component
  theories fill.
\<close>

unbundle bit_operations_syntax

named_theorems codec_simps \<open>byte-level facts used by the codec round trips\<close>
named_theorems raw_intros \<open>preservation rules for the raw buffer and its writers\<close>
named_theorems trace_simps \<open>branch equations of the trace state machines\<close>
named_theorems quota_simps \<open>branch equations of the quota storages\<close>

section \<open>Types\<close>

type_synonym byte = "8 word"
type_synonym u8 = "8 word"
type_synonym u16 = "16 word"
type_synonym u32 = "32 word"
type_synonym u64 = "64 word"
type_synonym i32 = "32 word"
type_synonym i64 = "64 word"

text \<open>
  \<open>new (std::nothrow) uint8_t[n]\<close>: \<open>None\<close> is a null pointer, \<open>Some bs\<close> a fresh block with
  unspecified contents \<open>bs\<close>. The allocator is a parameter of every definition that allocates.
\<close>

type_synonym alloc = "nat \<Rightarrow> byte list option"

definition alloc_sized :: "alloc \<Rightarrow> bool" where
  "alloc_sized al \<longleftrightarrow> (\<forall>n bs. al n = Some bs \<longrightarrow> length bs = n)"

definition alloc_total :: "alloc \<Rightarrow> bool" where
  "alloc_total al \<longleftrightarrow> (\<forall>n. al n \<noteq> None)"

text \<open>An allocator that never fails and hands out zeroed memory, for concrete evaluations.\<close>

definition zero_alloc :: alloc where
  "zero_alloc n = Some (replicate n 0)"

section \<open>Characters and bytes\<close>

definition byte_of_char :: "char \<Rightarrow> byte" where
  "byte_of_char c = word_of_nat (of_char c)"

definition char_of_byte :: "byte \<Rightarrow> char" where
  "char_of_byte b = char_of (unat b)"

definition bytes_of_string :: "string \<Rightarrow> byte list" where
  "bytes_of_string = map byte_of_char"

definition string_of_bytes :: "byte list \<Rightarrow> string" where
  "string_of_bytes = map char_of_byte"

text \<open>The C string that starts a memory block: the bytes before the first NUL.\<close>

definition c_str :: "byte list \<Rightarrow> string" where
  "c_str bs = string_of_bytes (takeWhile (\<lambda>b. b \<noteq> 0) bs)"

section \<open>Little-endian images\<close>

fun le_bytes :: "nat \<Rightarrow> nat \<Rightarrow> byte list" where
  "le_bytes 0 x = []"
| "le_bytes (Suc n) x = word_of_nat (x mod 256) # le_bytes n (x div 256)"

fun le_nat :: "byte list \<Rightarrow> nat" where
  "le_nat [] = 0"
| "le_nat (b # bs) = unat b + 256 * le_nat bs"

definition u32_bytes :: "u32 \<Rightarrow> byte list" where
  "u32_bytes w = le_bytes 4 (unat w)"

definition u64_bytes :: "u64 \<Rightarrow> byte list" where
  "u64_bytes w = le_bytes 8 (unat w)"

definition u32_of_bytes :: "byte list \<Rightarrow> u32" where
  "u32_of_bytes bs = word_of_nat (le_nat (take 4 bs))"

definition u64_of_bytes :: "byte list \<Rightarrow> u64" where
  "u64_of_bytes bs = word_of_nat (le_nat (take 8 bs))"

text \<open>
  \<open>static_cast<size_t>\<close> of an \<open>int32_t\<close>: sign extension to 64 bits, read as unsigned.
\<close>

definition size_of_i32 :: "i32 \<Rightarrow> nat" where
  "size_of_i32 w = nat (sint w mod 2 ^ 64)"

text \<open>Addition of two \<open>size_t\<close> values wraps around at 64 bits.\<close>

definition size_add :: "nat \<Rightarrow> nat \<Rightarrow> nat" where
  "size_add a b = (a + b) mod 2 ^ 64"

section \<open>Number printing\<close>

definition digit_char :: "nat \<Rightarrow> char" where
  "digit_char d = ''0123456789abcdef'' ! d"

fun show_base :: "nat \<Rightarrow> nat \<Rightarrow> string" where
  "show_base b n = (if b < 2 \<or> n < b then [digit_char (n mod 16)]
     else show_base b (n div b) @ [digit_char (n mod b mod 16)])"

declare show_base.simps [simp del]

definition show_nat :: "nat \<Rightarrow> string" where
  "show_nat n = show_base 10 n"

definition show_int :: "int \<Rightarrow> string" where
  "show_int i = (if i < 0 then CHR ''-'' # show_nat (nat (- i)) else show_nat (nat i))"

definition show_hex :: "nat \<Rightarrow> string" where
  "show_hex n = show_base 16 n"

section \<open>Lemmas\<close>

lemma alloc_sizedD [raw_intros]: "alloc_sized al \<Longrightarrow> al n = Some bs \<Longrightarrow> length bs = n"
  by (simp add: alloc_sized_def)

lemma alloc_totalE:
  assumes "alloc_total al"
  obtains bs where "al n = Some bs"
  using assms by (auto simp: alloc_total_def)

lemma zero_alloc_sized [simp]: "alloc_sized zero_alloc"
  by (simp add: alloc_sized_def zero_alloc_def)

lemma zero_alloc_total [simp]: "alloc_total zero_alloc"
  by (simp add: alloc_total_def zero_alloc_def)

lemma unat_byte_lt [simp]: "unat (b :: byte) < 256"
  using unsigned_less [of b, where ?'a = nat] by simp

lemma char_of_byte_of_char [simp]: "char_of_byte (byte_of_char c) = c"
proof -
  have "of_char c mod (256 :: nat) = of_char c" by (rule of_char_mod_256)
  then have "unat (byte_of_char c) = of_char c"
    by (simp add: byte_of_char_def unat_of_nat)
  then show ?thesis by (simp add: char_of_byte_def)
qed

lemma byte_of_char_of_byte [simp]: "byte_of_char (char_of_byte b) = b"
  by (simp add: byte_of_char_def char_of_byte_def)

lemma string_of_bytes_of_string [simp]: "string_of_bytes (bytes_of_string s) = s"
  by (simp add: string_of_bytes_def bytes_of_string_def comp_def)

lemma bytes_of_string_of_bytes [simp]: "bytes_of_string (string_of_bytes bs) = bs"
  by (simp add: string_of_bytes_def bytes_of_string_def comp_def)

lemma length_bytes_of_string [simp]: "length (bytes_of_string s) = length s"
  by (simp add: bytes_of_string_def)

lemma length_string_of_bytes [simp]: "length (string_of_bytes bs) = length bs"
  by (simp add: string_of_bytes_def)

lemma length_le_bytes [simp]: "length (le_bytes n x) = n"
  by (induction n arbitrary: x) simp_all

lemma le_nat_le_bytes: "le_nat (le_bytes n x) = x mod 256 ^ n"
proof (induction n arbitrary: x)
  case 0
  show ?case by simp
next
  case (Suc n)
  have "le_nat (le_bytes (Suc n) x) = x mod 256 + 256 * (x div 256 mod 256 ^ n)"
    by (simp add: Suc unat_of_nat)
  also have "\<dots> = x mod 256 ^ Suc n"
    by (simp add: mod_mult2_eq)
  finally show ?case .
qed

lemma le_bytes_le_nat: "le_bytes (length bs) (le_nat bs) = bs"
  by (induction bs) simp_all

lemma length_u32_bytes [simp]: "length (u32_bytes w) = 4"
  by (simp add: u32_bytes_def)

lemma length_u64_bytes [simp]: "length (u64_bytes w) = 8"
  by (simp add: u64_bytes_def)

lemma u32_of_u32_bytes [simp, codec_simps]: "u32_of_bytes (u32_bytes w @ bs) = w"
proof -
  have "unat w < 256 ^ 4" using unsigned_less [of w, where ?'a = nat] by simp
  then show ?thesis
    by (simp add: u32_of_bytes_def u32_bytes_def le_nat_le_bytes)
qed

lemma u64_of_u64_bytes [simp, codec_simps]: "u64_of_bytes (u64_bytes w @ bs) = w"
proof -
  have "unat w < 256 ^ 8" using unsigned_less [of w, where ?'a = nat] by simp
  then show ?thesis
    by (simp add: u64_of_bytes_def u64_bytes_def le_nat_le_bytes)
qed

lemma u32_of_u32_bytes_Nil [simp, codec_simps]: "u32_of_bytes (u32_bytes w) = w"
  using u32_of_u32_bytes [of w "[]"] by simp

lemma u64_of_u64_bytes_Nil [simp, codec_simps]: "u64_of_bytes (u64_bytes w) = w"
  using u64_of_u64_bytes [of w "[]"] by simp

lemma size_of_i32_small: "n < 2 ^ 31 \<Longrightarrow> size_of_i32 (word_of_nat n) = n"
  by (simp add: size_of_i32_def sint_uint signed_take_bit_eq_if_positive
      bit_iff_odd uint_nat unat_of_nat take_bit_eq_mod)

lemma size_add_exact [simp]: "a + b < 2 ^ 64 \<Longrightarrow> size_add a b = a + b"
  by (simp add: size_add_def)

end
