(* ===== verification/Raw_Data.thy ===== *)
theory Raw_Data
  imports Hiview_Prelude
begin

text \<open>
  The growable byte buffer \<open>EventRaw::RawData\<close> (base/event_raw/base/raw_data.cpp). Every
  constructor and operation is a function of the allocator, so that a null pointer returned by
  \<open>new (std::nothrow)\<close> is a branch of the model. The lemmas show that the buffer always
  represents a byte string, that an update replaces exactly the bytes it names, that growing
  keeps the old contents, and that a failing operation leaves the buffer as it was.
\<close>

section \<open>Model\<close>

record raw_data =
  rdData :: "byte list option"
  rdLen :: nat
  rdCapacity :: nat

definition EXPAND_BUF_SIZE :: nat where
  "EXPAND_BUF_SIZE = 128"

text \<open>
  \<open>memcpy_s (buf + pos, destMax, src, length src)\<close> of C11 Annex K: the copy when it fits, and
  otherwise an error with the first \<open>destMax\<close> bytes of the destination zeroed.
\<close>

definition memcpy_s :: "byte list \<Rightarrow> nat \<Rightarrow> nat \<Rightarrow> byte list \<Rightarrow> byte list \<times> bool" where
  "memcpy_s buf pos destMax src =
     (if length src \<le> destMax
      then (take pos buf @ src @ drop (pos + length src) buf, True)
      else (take pos buf @ replicate destMax 0 @ drop (pos + destMax) buf, False))"

definition null_raw :: raw_data where
  "null_raw = \<lparr>rdData = None, rdLen = 0, rdCapacity = 0\<rparr>"

definition RawData_sized :: "alloc \<Rightarrow> nat \<Rightarrow> raw_data" where
  "RawData_sized al dataLen =
     (case al dataLen of
        None \<Rightarrow> null_raw
      | Some buf \<Rightarrow> \<lparr>rdData = Some buf, rdLen = 0, rdCapacity = dataLen\<rparr>)"

definition RawData_new :: "alloc \<Rightarrow> raw_data" where
  "RawData_new al =
     (case al EXPAND_BUF_SIZE of
        None \<Rightarrow> null_raw
      | Some buf \<Rightarrow> \<lparr>rdData = Some buf, rdLen = 0, rdCapacity = EXPAND_BUF_SIZE\<rparr>)"

text \<open>
  The constructor from a pointer and a length: \<open>data\<close> is the null pointer or the bytes it
  points to, of which the first \<open>dataLen\<close> are copied.
\<close>

definition RawData_from :: "alloc \<Rightarrow> byte list option \<Rightarrow> nat \<Rightarrow> raw_data" where
  "RawData_from al data dataLen =
     (if data = None \<or> dataLen = 0
      then (case al EXPAND_BUF_SIZE of
              None \<Rightarrow> null_raw
            | Some buf \<Rightarrow> \<lparr>rdData = Some buf, rdLen = 0, rdCapacity = EXPAND_BUF_SIZE\<rparr>)
      else (case al dataLen of
              None \<Rightarrow> null_raw
            | Some buf \<Rightarrow>
                (case memcpy_s buf 0 dataLen (take dataLen (the data)) of
                   (buf', True) \<Rightarrow> \<lparr>rdData = Some buf', rdLen = dataLen, rdCapacity = dataLen\<rparr>
                 | (buf', False) \<Rightarrow> \<lparr>rdData = Some buf', rdLen = 0, rdCapacity = 0\<rparr>)))"

definition RawData_GetData :: "raw_data \<Rightarrow> byte list option" where
  "RawData_GetData rd = rdData rd"

definition RawData_GetDataLength :: "raw_data \<Rightarrow> nat" where
  "RawData_GetDataLength rd = rdLen rd"

text \<open>The copy constructor; copying from a null pointer makes \<open>memcpy_s\<close> fail.\<close>

definition RawData_copy :: "alloc \<Rightarrow> raw_data \<Rightarrow> raw_data" where
  "RawData_copy al src =
     (let dataLen = RawData_GetDataLength src in
      if dataLen = 0 then null_raw
      else (case al dataLen of
              None \<Rightarrow> null_raw
            | Some buf \<Rightarrow>
                (case RawData_GetData src of
                   None \<Rightarrow> \<lparr>rdData = Some (replicate dataLen 0), rdLen = 0, rdCapacity = 0\<rparr>
                 | Some sbuf \<Rightarrow>
                     (case memcpy_s buf 0 dataLen (take dataLen sbuf) of
                        (buf', True) \<Rightarrow> \<lparr>rdData = Some buf', rdLen = dataLen, rdCapacity = dataLen\<rparr>
                      | (buf', False) \<Rightarrow> \<lparr>rdData = Some buf', rdLen = 0, rdCapacity = 0\<rparr>))))"

text \<open>\<open>operator=\<close> of two distinct objects.\<close>

definition RawData_assign :: "alloc \<Rightarrow> raw_data \<Rightarrow> raw_data \<Rightarrow> raw_data" where
  "RawData_assign al self src =
     (let dataLen = RawData_GetDataLength src in
      if dataLen = 0 then self
      else (case al dataLen of
              None \<Rightarrow> self
            | Some tmp \<Rightarrow>
                (case RawData_GetData src of
                   None \<Rightarrow> self
                 | Some sbuf \<Rightarrow>
                     (case memcpy_s tmp 0 dataLen (take dataLen sbuf) of
                        (tmp', True) \<Rightarrow> \<lparr>rdData = Some tmp', rdLen = dataLen, rdCapacity = dataLen\<rparr>
                      | (tmp', False) \<Rightarrow> self))))"

text \<open>\<open>Reset\<close> leaves the length and the capacity stale when the allocation fails.\<close>

definition RawData_Reset :: "alloc \<Rightarrow> raw_data \<Rightarrow> raw_data" where
  "RawData_Reset al rd =
     (case al EXPAND_BUF_SIZE of
        None \<Rightarrow> rd\<lparr>rdData := None\<rparr>
      | Some buf \<Rightarrow> rd\<lparr>rdData := Some buf, rdCapacity := EXPAND_BUF_SIZE, rdLen := 0\<rparr>)"

definition RawData_IsEmpty :: "raw_data \<Rightarrow> bool" where
  "RawData_IsEmpty rd \<longleftrightarrow> rdLen rd = 0 \<or> rdData rd = None"

text \<open>The copy at the end of \<open>Update\<close>, once the buffer is large enough.\<close>

definition raw_store :: "raw_data \<Rightarrow> byte list \<Rightarrow> byte list \<Rightarrow> nat \<Rightarrow> bool \<times> raw_data" where
  "raw_store rd buf src pos =
     (case memcpy_s buf pos (rdCapacity rd - pos) src of
        (buf', False) \<Rightarrow> (False, rd\<lparr>rdData := Some buf'\<rparr>)
      | (buf', True) \<Rightarrow>
          (True, rd\<lparr>rdData := Some buf',
                    rdLen := (if pos + length src > rdLen rd then pos + length src else rdLen rd)\<rparr>))"

definition RawData_Update ::
    "alloc \<Rightarrow> raw_data \<Rightarrow> byte list option \<Rightarrow> nat \<Rightarrow> nat \<Rightarrow> bool \<times> raw_data" where
  "RawData_Update al rd data len pos =
     (case data of
        None \<Rightarrow> (False, rd)
      | Some src \<Rightarrow>
          if pos > rdLen rd then (False, rd)
          else (case rdData rd of
                  None \<Rightarrow> (False, rd)
                | Some buf \<Rightarrow>
                    if pos + len > rdCapacity rd then
                      (let expandedSize = (if len > EXPAND_BUF_SIZE then len else EXPAND_BUF_SIZE);
                           expandedCapacity = rdCapacity rd + expandedSize
                       in case al expandedCapacity of
                            None \<Rightarrow> (False, rd)
                          | Some resized \<Rightarrow>
                              (case memcpy_s resized 0 expandedCapacity (take (rdLen rd) buf) of
                                 (resized', False) \<Rightarrow> (False, rd)
                               | (resized', True) \<Rightarrow>
                                   raw_store (rd\<lparr>rdCapacity := expandedCapacity,
                                                 rdData := Some resized'\<rparr>)
                                     resized' (take len src) pos))
                    else raw_store rd buf (take len src) pos))"

definition RawData_Append ::
    "alloc \<Rightarrow> raw_data \<Rightarrow> byte list option \<Rightarrow> nat \<Rightarrow> bool \<times> raw_data" where
  "RawData_Append al rd data len =
     (if len = 0 then (True, rd) else RawData_Update al rd data len (rdLen rd))"

section \<open>Representation\<close>

text \<open>
  The byte string a buffer stands for, and the class invariant: a null buffer, or a block of
  \<open>capacity\<close> bytes of which \<open>len\<close> are in use. \<open>raw_live\<close> is the invariant of a buffer whose
  allocation succeeded.
\<close>

definition rd_bytes :: "raw_data \<Rightarrow> byte list" where
  "rd_bytes rd = (case rdData rd of None \<Rightarrow> [] | Some buf \<Rightarrow> take (rdLen rd) buf)"

definition raw_live :: "raw_data \<Rightarrow> bool" where
  "raw_live rd \<longleftrightarrow>
     (\<exists>buf. rdData rd = Some buf \<and> length buf = rdCapacity rd) \<and> rdLen rd \<le> rdCapacity rd"

definition raw_ok :: "raw_data \<Rightarrow> bool" where
  "raw_ok rd \<longleftrightarrow> rdData rd = None \<and> rdLen rd = 0 \<or> raw_live rd"

text \<open>Appending a whole byte string, the only way the encoders use \<open>Append\<close>.\<close>

abbreviation append_bytes :: "alloc \<Rightarrow> byte list \<Rightarrow> raw_data \<Rightarrow> bool \<times> raw_data" where
  "append_bytes al bs rd \<equiv> RawData_Append al rd (Some bs) (length bs)"

section \<open>Lemmas\<close>

lemma raw_live_imp_ok [raw_intros]: "raw_live rd \<Longrightarrow> raw_ok rd"
  by (simp add: raw_ok_def)

lemma rd_bytes_length: "raw_live rd \<Longrightarrow> length (rd_bytes rd) = rdLen rd"
  by (auto simp: raw_live_def rd_bytes_def)

lemma null_raw_ok [simp, raw_intros]: "raw_ok null_raw"
  by (simp add: raw_ok_def null_raw_def)

lemma rd_bytes_null_raw [simp]: "rd_bytes null_raw = []"
  by (simp add: rd_bytes_def null_raw_def)

lemma RawData_new_live:
  "alloc_sized al \<Longrightarrow> alloc_total al \<Longrightarrow> raw_live (RawData_new al) \<and> rd_bytes (RawData_new al) = []"
  by (rule alloc_totalE [of al EXPAND_BUF_SIZE])
    (auto simp: RawData_new_def raw_live_def rd_bytes_def dest: alloc_sizedD)

lemma RawData_new_ok: "alloc_sized al \<Longrightarrow> raw_ok (RawData_new al) \<and> rd_bytes (RawData_new al) = []"
  by (auto simp: RawData_new_def raw_live_def raw_ok_def rd_bytes_def null_raw_def
      dest: alloc_sizedD split: option.splits)

text \<open>A store inside the capacity overwrites exactly the addressed bytes.\<close>

lemma raw_store_live:
  assumes "rdData rd = Some buf" "length buf = rdCapacity rd" "rdLen rd \<le> rdCapacity rd"
    and "pos \<le> rdLen rd" "pos + length src \<le> rdCapacity rd"
  obtains rd' where "raw_store rd buf src pos = (True, rd')" "raw_live rd'"
    "rd_bytes rd' = take pos (rd_bytes rd) @ src @ drop (pos + length src) (rd_bytes rd)"
    "rdCapacity rd' = rdCapacity rd"
proof
  let ?len = "if pos + length src > rdLen rd then pos + length src else rdLen rd"
  let ?rd = "rd\<lparr>rdData := Some (take pos buf @ src @ drop (pos + length src) buf), rdLen := ?len\<rparr>"
  show "raw_store rd buf src pos = (True, ?rd)"
    using assms by (simp add: raw_store_def memcpy_s_def)
  show "raw_live ?rd"
    using assms by (auto simp: raw_live_def)
  show "rd_bytes ?rd = take pos (rd_bytes rd) @ src @ drop (pos + length src) (rd_bytes rd)"
    using assms by (auto simp: rd_bytes_def min_def drop_take)
  show "rdCapacity ?rd = rdCapacity rd" by simp
qed

text \<open>
  One update: on success the named bytes are replaced and the rest kept, on failure nothing
  has changed, and it fails only for a null argument, a null buffer, a position behind the end
  or an exhausted allocator.
\<close>

lemma RawData_Update_cases:
  assumes al: "alloc_sized al" and live: "raw_live rd"
    and len: "length src = len" and pos: "pos \<le> rdLen rd"
  shows "(RawData_Update al rd (Some src) len pos = (False, rd) \<and> \<not> alloc_total al) \<or>
    (\<exists>rd'. RawData_Update al rd (Some src) len pos = (True, rd') \<and> raw_live rd' \<and>
       rd_bytes rd' = take pos (rd_bytes rd) @ src @ drop (pos + len) (rd_bytes rd))"
proof -
  from live obtain buf where buf: "rdData rd = Some buf" "length buf = rdCapacity rd"
    and le: "rdLen rd \<le> rdCapacity rd"
    by (auto simp: raw_live_def)
  define cap where "cap = rdCapacity rd + (if len > EXPAND_BUF_SIZE then len else EXPAND_BUF_SIZE)"
  show ?thesis
  proof (cases "pos + len > rdCapacity rd")
    case False
    with buf le pos len obtain rd' where
      "raw_store rd buf src pos = (True, rd')" "raw_live rd'"
      "rd_bytes rd' = take pos (rd_bytes rd) @ src @ drop (pos + len) (rd_bytes rd)"
      by (metis raw_store_live not_le)
    with False buf pos len show ?thesis
      by (simp add: RawData_Update_def)
  next
    case True
    show ?thesis
    proof (cases "al cap")
      case None
      with True buf pos show ?thesis
        by (auto simp: RawData_Update_def cap_def Let_def alloc_total_def)
    next
      case (Some fresh)
      let ?buf = "take (rdLen rd) buf @ drop (rdLen rd) fresh"
      let ?rd = "rd\<lparr>rdCapacity := cap, rdData := Some ?buf\<rparr>"
      have fresh: "length fresh = cap" using al Some by (rule alloc_sizedD)
      have cap: "rdLen rd \<le> cap" "pos + len \<le> cap"
        using le pos by (auto simp: cap_def EXPAND_BUF_SIZE_def)
      have bytes: "rd_bytes ?rd = rd_bytes rd"
        using buf le by (simp add: rd_bytes_def min_def)
      have "rdData ?rd = Some ?buf" "length ?buf = rdCapacity ?rd" "rdLen ?rd \<le> rdCapacity ?rd"
        "pos \<le> rdLen ?rd" "pos + length src \<le> rdCapacity ?rd"
        using buf le fresh cap pos len by (simp_all add: min_def)
      then obtain rd' where st: "raw_store ?rd ?buf src pos = (True, rd')" "raw_live rd'"
        "rd_bytes rd' = take pos (rd_bytes ?rd) @ src @ drop (pos + length src) (rd_bytes ?rd)"
        by (rule raw_store_live)
      have "RawData_Update al rd (Some src) len pos = raw_store ?rd ?buf src pos"
        using True buf pos len Some le cap(1)
        by (simp add: RawData_Update_def Let_def memcpy_s_def min_def
            flip: cap_def)
      with st len show ?thesis by (simp add: bytes)
    qed
  qed
qed

lemma append_bytes_cases:
  assumes "alloc_sized al" and "raw_live rd"
  shows "(append_bytes al bs rd = (False, rd) \<and> \<not> alloc_total al \<and> bs \<noteq> []) \<or>
    (\<exists>rd'. append_bytes al bs rd = (True, rd') \<and> raw_live rd' \<and> rd_bytes rd' = rd_bytes rd @ bs)"
  using RawData_Update_cases [OF assms refl, of "rdLen rd" bs] assms
  by (auto simp: RawData_Append_def rd_bytes_length)

lemma append_bytes_null:
  "rdData rd = None \<Longrightarrow> append_bytes al bs rd = (bs = [], rd)"
  by (simp add: RawData_Append_def RawData_Update_def)

lemma RawData_copy_live:
  assumes "alloc_sized al" "alloc_total al" "raw_live rd" "rd_bytes rd \<noteq> []"
  shows "raw_live (RawData_copy al rd) \<and> rd_bytes (RawData_copy al rd) = rd_bytes rd \<and>
    rdLen (RawData_copy al rd) = rdLen rd"
proof -
  from assms(2) obtain buf where buf: "al (rdLen rd) = Some buf"
    by (rule alloc_totalE)
  with assms(1) have "length buf = rdLen rd" by (rule alloc_sizedD)
  moreover from assms(3,4) have "rdLen rd \<noteq> 0"
    by (auto simp: rd_bytes_def split: option.splits)
  ultimately show ?thesis using assms(3) buf
    by (auto simp: RawData_copy_def RawData_GetData_def RawData_GetDataLength_def Let_def
        memcpy_s_def raw_live_def rd_bytes_def min_def)
qed

lemma RawData_from_live:
  assumes "alloc_sized al" "alloc_total al" "0 < n" "n \<le> length bs"
  shows "raw_live (RawData_from al (Some bs) n) \<and> rd_bytes (RawData_from al (Some bs) n) = take n bs"
proof -
  from assms(2) obtain buf where buf: "al n = Some buf"
    by (rule alloc_totalE)
  with assms(1) have "length buf = n" by (rule alloc_sizedD)
  with buf assms(3,4) show ?thesis
    by (auto simp: RawData_from_def memcpy_s_def raw_live_def rd_bytes_def min_def)
qed

end
