(* ===== verification/Raw_Base_Def.thy ===== *)
theory Raw_Base_Def
  imports Hiview_Prelude
begin

text \<open>
  The constants, enumerations and packed structures of the raw event format
  (base/event_raw/include/base/raw_data_base_def.h, value_param.h and
  base/event_raw/base/raw_data_base_def.cpp), each structure with its memory image: the
  structures are packed, so a copy of the object is the concatenation of its members, integers
  in little-endian order and bit fields from the low bit upwards (the ABI of the targets).
\<close>

section \<open>Constants\<close>

definition MAX_DOMAIN_LENGTH :: nat where "MAX_DOMAIN_LENGTH = 16"

definition MAX_EVENT_NAME_LENGTH :: nat where "MAX_EVENT_NAME_LENGTH = 32"

definition MAX_ARRAY_SIZE :: nat where "MAX_ARRAY_SIZE = 100"

definition TAG_BYTE_OFFSET :: nat where "TAG_BYTE_OFFSET = 5"

definition TAG_BYTE_BOUND :: nat where "TAG_BYTE_BOUND = 2 ^ TAG_BYTE_OFFSET"

definition TAG_BYTE_MASK :: nat where "TAG_BYTE_MASK = TAG_BYTE_BOUND - 1"

definition NON_TAG_BYTE_OFFSET :: nat where "NON_TAG_BYTE_OFFSET = 7"

definition NON_TAG_BYTE_BOUND :: nat where "NON_TAG_BYTE_BOUND = 2 ^ NON_TAG_BYTE_OFFSET"

definition NON_TAG_BYTE_MASK :: nat where "NON_TAG_BYTE_MASK = NON_TAG_BYTE_BOUND - 1"

lemmas tag_const_defs =
  TAG_BYTE_OFFSET_def TAG_BYTE_BOUND_def TAG_BYTE_MASK_def
  NON_TAG_BYTE_OFFSET_def NON_TAG_BYTE_BOUND_def NON_TAG_BYTE_MASK_def

text \<open>The keys of the base information, in the order of the header file.\<close>

definition BASE_INFO_KEYS :: "string list" where
  "BASE_INFO_KEYS = [''domain_'', ''name_'', ''type_'', ''time_'', ''tz_'', ''id_'', ''pid_'',
     ''tid_'', ''uid_'', ''log_'', ''traceid_'', ''spanid_'', ''pspanid_'', ''trace_flag_'']"

section \<open>Enumerations\<close>

datatype value_type = UNKNOWN | BOOL | INT8 | UINT8 | INT16 | UINT16 | INT32 | UINT32
  | INT64 | UINT64 | FLOAT | DOUBLE | STRING

fun value_type_code :: "value_type \<Rightarrow> nat" where
  "value_type_code UNKNOWN = 0"
| "value_type_code BOOL = 1"
| "value_type_code INT8 = 2"
| "value_type_code UINT8 = 3"
| "value_type_code INT16 = 4"
| "value_type_code UINT16 = 5"
| "value_type_code INT32 = 6"
| "value_type_code UINT32 = 7"
| "value_type_code INT64 = 8"
| "value_type_code UINT64 = 9"
| "value_type_code FLOAT = 10"
| "value_type_code DOUBLE = 11"
| "value_type_code STRING = 12"

datatype encode_type = VARINT | LENGTH_DELIMITED | INVALID

fun encode_type_code :: "encode_type \<Rightarrow> u8" where
  "encode_type_code VARINT = 0"
| "encode_type_code LENGTH_DELIMITED = 1"
| "encode_type_code INVALID = 4"

datatype data_coded_type = UNSIGNED_VARINT | UNSIGNED_VARINT_ARRAY | SIGNED_VARINT
  | SIGNED_VARINT_ARRAY | FLOATING | FLOATING_ARRAY | DSTRING | DSTRING_ARRAY

section \<open>Structures\<close>

record hisysevent_header =
  hdDomain :: "byte list"
  hdName :: "byte list"
  hdTimestamp :: u64
  hdTimeZone :: u8
  hdUid :: u32
  hdPid :: u32
  hdTid :: u32
  hdId :: u64
  hdType :: "2 word"
  hdIsTraceOpened :: "1 word"
  hdLog :: u8

record trace_info =
  tiTraceFlag :: u8
  tiTraceId :: u64
  tiSpanId :: u32
  tiPSpanId :: u32

record param_value_type =
  pvIsArray :: "1 word"
  pvValueType :: "4 word"
  pvValueByteCnt :: "3 word"

definition header_ok :: "hisysevent_header \<Rightarrow> bool" where
  "header_ok h \<longleftrightarrow> length (hdDomain h) = MAX_DOMAIN_LENGTH + 1 \<and>
     length (hdName h) = MAX_EVENT_NAME_LENGTH + 1"

definition SIZEOF_HEADER :: nat where "SIZEOF_HEADER = 81"

definition SIZEOF_TRACE_INFO :: nat where "SIZEOF_TRACE_INFO = 17"

definition flag_byte :: "2 word \<Rightarrow> 1 word \<Rightarrow> byte" where
  "flag_byte ty tr = ucast ty OR push_bit 2 (ucast tr)"

definition header_bytes :: "hisysevent_header \<Rightarrow> byte list" where
  "header_bytes h = hdDomain h @ hdName h @ u64_bytes (hdTimestamp h) @ [hdTimeZone h] @
     u32_bytes (hdUid h) @ u32_bytes (hdPid h) @ u32_bytes (hdTid h) @ u64_bytes (hdId h) @
     [flag_byte (hdType h) (hdIsTraceOpened h), hdLog h]"

definition header_of_bytes :: "byte list \<Rightarrow> hisysevent_header" where
  "header_of_bytes bs =
     \<lparr>hdDomain = take 17 bs, hdName = take 33 (drop 17 bs),
      hdTimestamp = u64_of_bytes (drop 50 bs), hdTimeZone = bs ! 58,
      hdUid = u32_of_bytes (drop 59 bs), hdPid = u32_of_bytes (drop 63 bs),
      hdTid = u32_of_bytes (drop 67 bs), hdId = u64_of_bytes (drop 71 bs),
      hdType = ucast (bs ! 79), hdIsTraceOpened = ucast (drop_bit 2 (bs ! 79)),
      hdLog = bs ! 80\<rparr>"

definition trace_bytes :: "trace_info \<Rightarrow> byte list" where
  "trace_bytes t = [tiTraceFlag t] @ u64_bytes (tiTraceId t) @ u32_bytes (tiSpanId t) @
     u32_bytes (tiPSpanId t)"

definition trace_of_bytes :: "byte list \<Rightarrow> trace_info" where
  "trace_of_bytes bs =
     \<lparr>tiTraceFlag = bs ! 0, tiTraceId = u64_of_bytes (drop 1 bs),
      tiSpanId = u32_of_bytes (drop 9 bs), tiPSpanId = u32_of_bytes (drop 13 bs)\<rparr>"

definition value_type_byte :: "param_value_type \<Rightarrow> byte" where
  "value_type_byte p = ucast (pvIsArray p) OR push_bit 1 (ucast (pvValueType p)) OR
     push_bit 5 (ucast (pvValueByteCnt p))"

definition value_type_of_byte :: "byte \<Rightarrow> param_value_type" where
  "value_type_of_byte b =
     \<lparr>pvIsArray = ucast b, pvValueType = ucast (drop_bit 1 b), pvValueByteCnt = ucast (drop_bit 5 b)\<rparr>"

text \<open>Offsets inside the header that other components patch in place.\<close>

definition POS_OF_UID_IN_HEADER :: nat where
  "POS_OF_UID_IN_HEADER = (MAX_DOMAIN_LENGTH + 1) + (MAX_EVENT_NAME_LENGTH + 1) + 8 + 1"

definition POS_OF_PID_IN_HEADER :: nat where
  "POS_OF_PID_IN_HEADER = POS_OF_UID_IN_HEADER + 4"

definition POS_OF_ID_IN_HEADER :: nat where
  "POS_OF_ID_IN_HEADER = POS_OF_PID_IN_HEADER + 4 + 4"

definition GetValidDataMinimumByteCount :: nat where
  "GetValidDataMinimumByteCount = 4 + SIZEOF_HEADER"

section \<open>Time zones\<close>

definition DEFAULT_TZ_POS :: nat where "DEFAULT_TZ_POS = 14"

definition ALL_TIME_ZONES :: "string list" where
  "ALL_TIME_ZONES =
    [''-0100'', ''-0200'', ''-0300'', ''-0330'', ''-0400'', ''-0500'', ''-0600'',
     ''-0700'', ''-0800'', ''-0900'', ''-0930'', ''-1000'', ''-1100'', ''-1200'',
     ''+0000'', ''+0100'', ''+0200'', ''+0300'', ''+0330'', ''+0400'', ''+0430'',
     ''+0500'', ''+0530'', ''+0545'', ''+0600'', ''+0630'', ''+0700'', ''+0800'',
     ''+0845'', ''+0900'', ''+0930'', ''+1000'', ''+1030'', ''+1100'', ''+1200'',
     ''+1245'', ''+1300'', ''+1400'']"

fun tz_search :: "string list \<Rightarrow> nat \<Rightarrow> string \<Rightarrow> nat" where
  "tz_search [] i s = DEFAULT_TZ_POS"
| "tz_search (z # zs) i s = (if z = s then i else tz_search zs (Suc i) s)"

definition ParseTimeZone_str :: "string \<Rightarrow> nat" where
  "ParseTimeZone_str tzStr = tz_search ALL_TIME_ZONES 0 tzStr"

definition ParseTimeZone_val :: "u8 \<Rightarrow> string" where
  "ParseTimeZone_val tzVal =
     (if unat tzVal \<ge> length ALL_TIME_ZONES then ALL_TIME_ZONES ! DEFAULT_TZ_POS
      else ALL_TIME_ZONES ! unat tzVal)"

section \<open>Floating point\<close>

text \<open>
  A \<open>float\<close> and a \<open>double\<close> are their IEEE 754 bit patterns; \<open>float_to_double\<close> is
  \<open>static_cast<double>\<close> of a float: exact on numbers, with a signalling NaN made quiet.
\<close>

datatype floating = F32 u32 | F64 u64

fun top_bit :: "nat \<Rightarrow> nat" where
  "top_bit n = (if n < 2 then 0 else Suc (top_bit (n div 2)))"

declare top_bit.simps [simp del]

definition float_to_double :: "u32 \<Rightarrow> u64" where
  "float_to_double w =
     (let s = unat w div 2 ^ 31; e = unat w div 2 ^ 23 mod 256; m = unat w mod 2 ^ 23;
          mk = (\<lambda>ex ma. word_of_nat (s * 2 ^ 63 + ex * 2 ^ 52 + ma))
      in if e = 255 then mk 2047 (if m = 0 then 0 else (if m < 2 ^ 22 then m + 2 ^ 22 else m) * 2 ^ 29)
         else if e = 0 \<and> m = 0 then mk 0 0
         else if e = 0 then mk (874 + top_bit m) ((m - 2 ^ top_bit m) * 2 ^ (52 - top_bit m))
         else mk (e + 896) (m * 2 ^ 29))"

fun double_view :: "floating \<Rightarrow> u64" where
  "double_view (F32 w) = float_to_double w"
| "double_view (F64 w) = w"

section \<open>Lemmas\<close>

lemma length_header_bytes: "header_ok h \<Longrightarrow> length (header_bytes h) = SIZEOF_HEADER"
  by (simp add: header_ok_def header_bytes_def SIZEOF_HEADER_def MAX_DOMAIN_LENGTH_def
      MAX_EVENT_NAME_LENGTH_def)

lemma length_trace_bytes [simp]: "length (trace_bytes t) = SIZEOF_TRACE_INFO"
  by (simp add: trace_bytes_def SIZEOF_TRACE_INFO_def)

lemma ucast_flag_byte [simp, codec_simps]:
  "ucast (flag_byte ty tr) = ty" "ucast (drop_bit 2 (flag_byte ty tr)) = tr"
  unfolding flag_byte_def
  by (auto intro!: bit_eqI simp: bit_simps) (drule bit_imp_le_length, simp)

lemma value_type_of_byte_of [simp, codec_simps]: "value_type_of_byte (value_type_byte p) = p"
proof (cases p)
  case (fields a v c)
  have "ucast (value_type_byte p) = a"
    "ucast (drop_bit 1 (value_type_byte p)) = v" "ucast (drop_bit 5 (value_type_byte p)) = c"
    unfolding value_type_byte_def fields
    by (auto intro!: bit_eqI simp: bit_simps simp del: One_nat_def push_bit_Suc)
      (drule bit_imp_le_length, simp)+
  then show ?thesis by (simp add: value_type_of_byte_def fields)
qed

lemma drop_app_le: "n = length xs + k \<Longrightarrow> drop n (xs @ ys) = drop k ys"
  by simp

lemma nth_app_ge: "n = length xs + k \<Longrightarrow> (xs @ ys) ! n = ys ! k"
  by (simp add: nth_append)

text \<open>Copying a header or a trace record out of the bytes it was copied to gives it back.\<close>

lemma header_of_header_bytes [codec_simps]:
  assumes "header_ok h"
  shows "header_of_bytes (header_bytes h @ rest) = h"
proof (cases h)
  case (fields dom nm ts tz uid pid tid id ty tr lg)
  with assms have len: "length dom = 17" "length nm = 33"
    by (simp_all add: header_ok_def MAX_DOMAIN_LENGTH_def MAX_EVENT_NAME_LENGTH_def)
  define t1 where "t1 = u64_bytes ts"
  define t2 where "t2 = u32_bytes uid"
  define t3 where "t3 = u32_bytes pid"
  define t4 where "t4 = u32_bytes tid"
  define t5 where "t5 = u64_bytes id"
  have tl: "length t1 = 8" "length t2 = 4" "length t3 = 4" "length t4 = 4" "length t5 = 8"
    by (simp_all add: t1_def t2_def t3_def t4_def t5_def)
  have "header_of_bytes (dom @ nm @ t1 @ [tz] @ t2 @ t3 @ t4 @ t5 @ [flag_byte ty tr, lg] @ rest) =
    \<lparr>hdDomain = dom, hdName = nm, hdTimestamp = ts, hdTimeZone = tz, hdUid = uid, hdPid = pid,
     hdTid = tid, hdId = id, hdType = ty, hdIsTraceOpened = tr, hdLog = lg\<rparr>"
    using len tl
    by (simp add: header_of_bytes_def nth_append)
      (simp add: t1_def t2_def t3_def t4_def t5_def)
  then show ?thesis
    by (simp add: header_bytes_def fields t1_def t2_def t3_def t4_def t5_def)
qed

lemma trace_of_trace_bytes [codec_simps]: "trace_of_bytes (trace_bytes t @ rest) = t"
  by (cases t) (simp add: trace_of_bytes_def trace_bytes_def)

lemma tz_search_found:
  "s \<in> set zs \<Longrightarrow> i \<le> tz_search zs i s \<and> tz_search zs i s < i + length zs \<and>
    zs ! (tz_search zs i s - i) = s"
proof (induction zs i s rule: tz_search.induct)
  case (2 z zs i s)
  then show ?case
    by (cases "z = s") (auto simp: nth_Cons' Suc_diff_le)
qed simp

lemma tz_search_missing: "s \<notin> set zs \<Longrightarrow> tz_search zs i s = DEFAULT_TZ_POS"
  by (induction zs i s rule: tz_search.induct) auto

end
