(* ===== verification/Raw_Codec.thy ===== *)
theory Raw_Codec
  imports Raw_Data Raw_Base_Def
begin

text \<open>
  The value codec of the raw event format: \<open>RawDataEncoder\<close>
  (base/event_raw/encoded/raw_data_encoder.cpp and its header) writes tagged varints, zigzag
  varints, floating point numbers, strings and value type bytes into a \<open>RawData\<close>;
  \<open>RawDataDecoder\<close> (base/event_raw/decoded/raw_data_decoder.cpp) reads them at a position
  passed by reference. The encoder lemmas say which bytes are written and what is left behind
  when the allocator gives up; the decoder lemmas say that no byte outside the buffer is read
  and that decoding inverts encoding.
\<close>

section \<open>Encoder\<close>

definition EncodedTag :: "u8 \<Rightarrow> u8" where
  "EncodedTag ty = push_bit (TAG_BYTE_OFFSET + 1) ty"

definition tag_byte :: "encode_type \<Rightarrow> u64 \<Rightarrow> byte" where
  "tag_byte ty val = EncodedTag (encode_type_code ty) OR
     (if val < word_of_nat TAG_BYTE_BOUND then 0 else word_of_nat TAG_BYTE_BOUND) OR
     ucast (val AND word_of_nat TAG_BYTE_MASK)"

definition non_tag_byte :: "u64 \<Rightarrow> byte" where
  "non_tag_byte val =
     (if val < word_of_nat NON_TAG_BYTE_BOUND then 0 else word_of_nat NON_TAG_BYTE_BOUND) OR
     ucast (val AND word_of_nat NON_TAG_BYTE_MASK)"

lemma unat_drop_7: "(val :: u64) \<noteq> 0 \<Longrightarrow> unat (drop_bit 7 val) < unat val"
  by (simp add: drop_bit_eq_div unat_div) (simp add: unat_gt_0)

text \<open>The \<open>while (val > 0)\<close> loop of \<open>UnsignedVarintEncoded\<close>, one append per round.\<close>

function varint_loop :: "alloc \<Rightarrow> u64 \<Rightarrow> raw_data \<Rightarrow> bool \<times> raw_data" where
  "varint_loop al val rd =
     (if val > 0
      then (case append_bytes al [non_tag_byte val] rd of
              (False, rd') \<Rightarrow> (False, rd')
            | (True, rd') \<Rightarrow> varint_loop al (drop_bit NON_TAG_BYTE_OFFSET val) rd')
      else (True, rd))"
  by pat_completeness auto
termination
  by (relation "measure (\<lambda>(al, val, rd). unat val)")
    (auto simp: tag_const_defs unat_drop_7 word_gt_0)

declare varint_loop.simps [simp del]

definition UnsignedVarintEncoded ::
    "alloc \<Rightarrow> encode_type \<Rightarrow> u64 \<Rightarrow> raw_data \<Rightarrow> bool \<times> raw_data" where
  "UnsignedVarintEncoded al ty val rd =
     (case append_bytes al [tag_byte ty val] rd of
        (False, rd') \<Rightarrow> (False, rd')
      | (True, rd') \<Rightarrow> varint_loop al (drop_bit TAG_BYTE_OFFSET val) rd')"

definition zigzag :: "i64 \<Rightarrow> u64" where
  "zigzag val =
     (let signMask = (if 0 \<le> sint val then 0 else - 1) in push_bit 1 val XOR signMask)"

definition SignedVarintEncoded ::
    "alloc \<Rightarrow> encode_type \<Rightarrow> i64 \<Rightarrow> raw_data \<Rightarrow> bool \<times> raw_data" where
  "SignedVarintEncoded al ty val rd = UnsignedVarintEncoded al ty (zigzag val) rd"

fun floating_bytes :: "floating \<Rightarrow> byte list" where
  "floating_bytes (F32 w) = u32_bytes w"
| "floating_bytes (F64 w) = u64_bytes w"

definition FloatingNumberEncoded :: "alloc \<Rightarrow> floating \<Rightarrow> raw_data \<Rightarrow> bool \<times> raw_data" where
  "FloatingNumberEncoded al val rd =
     (case UnsignedVarintEncoded al LENGTH_DELIMITED
             (word_of_nat (length (floating_bytes val))) rd of
        (False, rd') \<Rightarrow> (False, rd')
      | (True, rd') \<Rightarrow> append_bytes al (floating_bytes val) rd')"

definition StringValueEncoded :: "alloc \<Rightarrow> string \<Rightarrow> raw_data \<Rightarrow> bool \<times> raw_data" where
  "StringValueEncoded al val rd =
     (case UnsignedVarintEncoded al LENGTH_DELIMITED (word_of_nat (length val)) rd of
        (False, rd') \<Rightarrow> (False, rd')
      | (True, rd') \<Rightarrow> append_bytes al (bytes_of_string val) rd')"

definition ValueTypeEncoded ::
    "alloc \<Rightarrow> bool \<Rightarrow> value_type \<Rightarrow> u8 \<Rightarrow> raw_data \<Rightarrow> bool \<times> raw_data" where
  "ValueTypeEncoded al isArray ty count rd =
     append_bytes al
       [value_type_byte \<lparr>pvIsArray = (if isArray then 1 else 0),
          pvValueType = word_of_nat (value_type_code ty), pvValueByteCnt = ucast count\<rparr>] rd"

section \<open>Decoder\<close>

text \<open>
  The outcome of a decoding step: a value and the new position, \<open>return false\<close> with the
  position the reference argument is left at, or behaviour C++ leaves undefined.
\<close>

datatype undefined_behaviour = OutOfBoundsRead | ShiftTooLarge

datatype 'a dec = Done 'a nat | Failed nat | Undef undefined_behaviour

text \<open>
  The \<open>do \<dots> while\<close> loop of \<open>UnsignedVarintDecoded\<close>. Shifting a 64-bit value by 64 or more is
  undefined.
\<close>

function varint_dec_loop ::
    "byte list \<Rightarrow> nat \<Rightarrow> nat \<Rightarrow> u64 \<Rightarrow> nat \<Rightarrow> u64 dec" where
  "varint_dec_loop raw maxLen pos val offset =
     (if pos \<ge> maxLen then Failed pos
      else if pos \<ge> length raw then Undef OutOfBoundsRead
      else if offset \<ge> 64 then Undef ShiftTooLarge
      else let val' = val OR
                 push_bit offset (ucast (raw ! pos AND word_of_nat NON_TAG_BYTE_MASK))
           in if raw ! pos AND word_of_nat NON_TAG_BYTE_BOUND \<noteq> 0
              then varint_dec_loop raw maxLen (pos + 1) val' (offset + NON_TAG_BYTE_OFFSET)
              else Done val' (pos + 1))"
  by pat_completeness auto
termination
  by (relation "measure (\<lambda>(raw, maxLen, pos, val, offset). maxLen - pos)") auto

declare varint_dec_loop.simps [simp del]

definition UnsignedVarintDecoded :: "byte list option \<Rightarrow> nat \<Rightarrow> nat \<Rightarrow> u64 dec" where
  "UnsignedVarintDecoded rawData maxLen pos =
     (case rawData of
        None \<Rightarrow> Failed pos
      | Some raw \<Rightarrow>
          if pos \<ge> maxLen then Failed pos
          else if pos \<ge> length raw then Undef OutOfBoundsRead
          else let val = ucast (raw ! pos AND word_of_nat TAG_BYTE_MASK) in
               if pos + 1 > maxLen then Failed pos
               else if raw ! pos AND word_of_nat TAG_BYTE_BOUND \<noteq> 0
               then varint_dec_loop raw maxLen (pos + 1) val TAG_BYTE_OFFSET
               else Done val (pos + 1))"

definition unzigzag :: "u64 \<Rightarrow> i64" where
  "unzigzag uval = drop_bit 1 uval XOR - (uval AND 1)"

definition SignedVarintDecoded :: "byte list option \<Rightarrow> nat \<Rightarrow> nat \<Rightarrow> i64 dec" where
  "SignedVarintDecoded rawData maxLen pos =
     (if rawData = None \<or> pos \<ge> maxLen then Failed pos
      else case UnsignedVarintDecoded rawData maxLen pos of
             Done uval p \<Rightarrow> Done (unzigzag uval) p
           | Failed p \<Rightarrow> Failed p
           | Undef u \<Rightarrow> Undef u)"

text \<open>
  Reading \<open>n\<close> bytes at a position; reading past the end of the buffer is undefined.
\<close>

definition read_bytes :: "byte list \<Rightarrow> nat \<Rightarrow> nat \<Rightarrow> byte list option" where
  "read_bytes raw pos n = (if pos + n \<le> length raw then Some (take n (drop pos raw)) else None)"

definition FloatingNumberDecoded :: "byte list option \<Rightarrow> nat \<Rightarrow> nat \<Rightarrow> u64 dec" where
  "FloatingNumberDecoded rawData maxLen pos =
     (if rawData = None \<or> pos \<ge> maxLen then Failed pos
      else case UnsignedVarintDecoded rawData maxLen pos of
             Failed p \<Rightarrow> Failed p
           | Undef u \<Rightarrow> Undef u
           | Done valByteCnt p \<Rightarrow>
               if size_add p (unat valByteCnt) > maxLen then Failed p
               else if valByteCnt = 4 then
                 (case read_bytes (the rawData) p 4 of
                    None \<Rightarrow> Undef OutOfBoundsRead
                  | Some bs \<Rightarrow> Done (float_to_double (u32_of_bytes bs)) (p + 4))
               else if valByteCnt = 8 then
                 (case read_bytes (the rawData) p 8 of
                    None \<Rightarrow> Undef OutOfBoundsRead
                  | Some bs \<Rightarrow> Done (u64_of_bytes bs) (p + 8))
               else Failed p)"

text \<open>\<open>dest\<close> keeps its old value when the encoded string is empty.\<close>

definition StringValueDecoded ::
    "byte list option \<Rightarrow> nat \<Rightarrow> nat \<Rightarrow> string \<Rightarrow> string dec" where
  "StringValueDecoded rawData maxLen pos dest =
     (if rawData = None \<or> pos \<ge> maxLen then Failed pos
      else case UnsignedVarintDecoded rawData maxLen pos of
             Failed p \<Rightarrow> Failed p
           | Undef u \<Rightarrow> Undef u
           | Done valByteCnt p \<Rightarrow>
               if unat valByteCnt > maxLen \<or> size_add p (unat valByteCnt) > maxLen then Failed p
               else if valByteCnt = 0 then Done dest p
               else (case read_bytes (the rawData) p (unat valByteCnt) of
                       None \<Rightarrow> Undef OutOfBoundsRead
                     | Some bs \<Rightarrow> Done (string_of_bytes bs) (p + unat valByteCnt)))"

definition ValueTypeDecoded :: "byte list option \<Rightarrow> nat \<Rightarrow> nat \<Rightarrow> param_value_type dec" where
  "ValueTypeDecoded rawData maxLen pos =
     (case rawData of
        None \<Rightarrow> Failed pos
      | Some raw \<Rightarrow>
          if pos \<ge> maxLen then Failed pos
          else if pos + 1 > maxLen then Failed pos
          else if pos \<ge> length raw then Undef OutOfBoundsRead
          else Done (value_type_of_byte (raw ! pos)) (pos + 1))"

section \<open>The bytes an encoder writes\<close>

text \<open>
  \<open>emits al f bs\<close>: the writer \<open>f\<close> keeps a live buffer live; it always appends a prefix of
  \<open>bs\<close>, all of \<open>bs\<close> when it reports success, and it succeeds whenever the allocator does.
\<close>

definition emits :: "alloc \<Rightarrow> (raw_data \<Rightarrow> bool \<times> raw_data) \<Rightarrow> byte list \<Rightarrow> bool" where
  "emits al f bs \<longleftrightarrow>
     (\<forall>rd ok rd'. raw_live rd \<longrightarrow> f rd = (ok, rd') \<longrightarrow>
        raw_live rd' \<and> (\<exists>ys. prefix ys bs \<and> rd_bytes rd' = rd_bytes rd @ ys) \<and>
        (ok \<longrightarrow> rd_bytes rd' = rd_bytes rd @ bs) \<and> (alloc_total al \<longrightarrow> ok))"

text \<open>Sequential composition with the early return of the sources.\<close>

definition and_then ::
    "(raw_data \<Rightarrow> bool \<times> raw_data) \<Rightarrow> (raw_data \<Rightarrow> bool \<times> raw_data) \<Rightarrow> raw_data \<Rightarrow>
     bool \<times> raw_data" where
  "and_then f g rd = (case f rd of (False, rd') \<Rightarrow> (False, rd') | (True, rd') \<Rightarrow> g rd')"

function varint_tail :: "u64 \<Rightarrow> byte list" where
  "varint_tail val = (if val > 0 then non_tag_byte val # varint_tail (drop_bit 7 val) else [])"
  by pat_completeness auto
termination
  by (relation "measure unat") (auto simp: unat_drop_7 word_gt_0)

declare varint_tail.simps [simp del]

definition varint_bytes :: "encode_type \<Rightarrow> u64 \<Rightarrow> byte list" where
  "varint_bytes ty val = tag_byte ty val # varint_tail (drop_bit 5 val)"

definition signed_bytes :: "encode_type \<Rightarrow> i64 \<Rightarrow> byte list" where
  "signed_bytes ty val = varint_bytes ty (zigzag val)"

definition float_bytes :: "floating \<Rightarrow> byte list" where
  "float_bytes val = varint_bytes LENGTH_DELIMITED (word_of_nat (length (floating_bytes val))) @
     floating_bytes val"

definition string_bytes :: "string \<Rightarrow> byte list" where
  "string_bytes val = varint_bytes LENGTH_DELIMITED (word_of_nat (length val)) @
     bytes_of_string val"

definition type_bytes :: "bool \<Rightarrow> value_type \<Rightarrow> byte list" where
  "type_bytes isArray ty =
     [value_type_byte \<lparr>pvIsArray = (if isArray then 1 else 0),
        pvValueType = word_of_nat (value_type_code ty), pvValueByteCnt = 0\<rparr>]"

subsection \<open>Writers\<close>

lemma emitsI:
  assumes "\<And>rd. raw_live rd \<Longrightarrow>
    (\<exists>rd'. f rd = (True, rd') \<and> raw_live rd' \<and> rd_bytes rd' = rd_bytes rd @ bs) \<or>
    (\<exists>rd' ys. f rd = (False, rd') \<and> raw_live rd' \<and> prefix ys bs \<and>
       rd_bytes rd' = rd_bytes rd @ ys \<and> \<not> alloc_total al)"
  shows "emits al f bs"
  unfolding emits_def using assms by fastforce

lemma emitsE:
  assumes "emits al f bs" "raw_live rd"
  obtains rd' where "f rd = (True, rd')" "raw_live rd'" "rd_bytes rd' = rd_bytes rd @ bs"
  | rd' ys where "f rd = (False, rd')" "raw_live rd'" "prefix ys bs"
      "rd_bytes rd' = rd_bytes rd @ ys" "\<not> alloc_total al"
proof -
  obtain ok rd' where f: "f rd = (ok, rd')" by (cases "f rd")
  with assms obtain ys where r: "raw_live rd'" "prefix ys bs" "rd_bytes rd' = rd_bytes rd @ ys"
    "ok \<longrightarrow> rd_bytes rd' = rd_bytes rd @ bs" "alloc_total al \<longrightarrow> ok"
    unfolding emits_def by blast
  show thesis
  proof (cases ok)
    case True
    show thesis by (rule that(1) [of rd']) (use f r True in auto)
  next
    case False
    show thesis by (rule that(2) [of rd' ys]) (use f r False in auto)
  qed
qed

lemma emits_total:
  assumes "emits al f bs" "raw_live rd" "alloc_total al"
  obtains rd' where "f rd = (True, rd')" "raw_live rd'" "rd_bytes rd' = rd_bytes rd @ bs"
  using assms by (elim emitsE) auto

lemma emits_append_bytes [raw_intros]:
  assumes "alloc_sized al"
  shows "emits al (append_bytes al bs) bs"
proof (rule emitsI)
  fix rd assume "raw_live rd"
  from append_bytes_cases [OF assms this, of bs] \<open>raw_live rd\<close>
  show "(\<exists>rd'. append_bytes al bs rd = (True, rd') \<and> raw_live rd' \<and> rd_bytes rd' = rd_bytes rd @ bs) \<or>
    (\<exists>rd' ys. append_bytes al bs rd = (False, rd') \<and> raw_live rd' \<and> prefix ys bs \<and>
       rd_bytes rd' = rd_bytes rd @ ys \<and> \<not> alloc_total al)"
    by auto
qed

lemma emits_and_then [raw_intros]:
  assumes f: "emits al f xs" and g: "emits al g ys"
  shows "emits al (and_then f g) (xs @ ys)"
proof (rule emitsI)
  fix rd assume rd: "raw_live rd"
  from f rd show "(\<exists>rd'. and_then f g rd = (True, rd') \<and> raw_live rd' \<and>
      rd_bytes rd' = rd_bytes rd @ xs @ ys) \<or>
    (\<exists>rd' zs. and_then f g rd = (False, rd') \<and> raw_live rd' \<and> prefix zs (xs @ ys) \<and>
       rd_bytes rd' = rd_bytes rd @ zs \<and> \<not> alloc_total al)"
  proof (cases rule: emitsE)
    case (1 rd1)
    from g 1(2) show ?thesis
      by (cases rule: emitsE) (use 1 in \<open>auto simp: and_then_def prefix_def\<close>)
  next
    case 2
    then show ?thesis by (auto simp: and_then_def prefix_def)
  qed
qed

lemma emits_return [raw_intros]: "emits al (\<lambda>rd. (True, rd)) []"
  by (auto simp: emits_def)

lemma varint_loop_unfold:
  "varint_loop al val =
     (if val > 0 then and_then (append_bytes al [non_tag_byte val])
        (varint_loop al (drop_bit 7 val)) else (\<lambda>rd. (True, rd)))"
  by (rule ext) (subst varint_loop.simps, auto simp: and_then_def tag_const_defs
      split: prod.splits bool.splits)

lemma emits_varint_loop: "alloc_sized al \<Longrightarrow> emits al (varint_loop al val) (varint_tail val)"
proof (induction val rule: varint_tail.induct)
  case (1 val)
  show ?case
  proof (cases "val > 0")
    case True
    have "emits al (and_then (append_bytes al [non_tag_byte val]) (varint_loop al (drop_bit 7 val)))
        ([non_tag_byte val] @ varint_tail (drop_bit 7 val))"
      using 1 True by (intro raw_intros) auto
    with True show ?thesis
      by (subst varint_loop_unfold, subst varint_tail.simps) simp
  next
    case False
    then show ?thesis
      by (subst varint_loop_unfold, subst varint_tail.simps) (simp add: raw_intros)
  qed
qed

lemma emits_UnsignedVarintEncoded [raw_intros]:
  assumes "alloc_sized al"
  shows "emits al (UnsignedVarintEncoded al ty val) (varint_bytes ty val)"
proof -
  have eq: "UnsignedVarintEncoded al ty val =
      and_then (append_bytes al [tag_byte ty val]) (varint_loop al (drop_bit 5 val))"
    by (simp add: fun_eq_iff UnsignedVarintEncoded_def and_then_def TAG_BYTE_OFFSET_def
        split: prod.splits bool.splits)
  have "emits al (and_then (append_bytes al [tag_byte ty val]) (varint_loop al (drop_bit 5 val)))
      ([tag_byte ty val] @ varint_tail (drop_bit 5 val))"
    using assms by (intro raw_intros emits_varint_loop)
  then show ?thesis by (simp add: eq varint_bytes_def)
qed

lemma emits_SignedVarintEncoded [raw_intros]:
  "alloc_sized al \<Longrightarrow> emits al (SignedVarintEncoded al ty val) (signed_bytes ty val)"
  using emits_UnsignedVarintEncoded [of al ty "zigzag val"]
  by (simp add: SignedVarintEncoded_def [abs_def] signed_bytes_def)

lemma emits_FloatingNumberEncoded [raw_intros]:
  assumes "alloc_sized al"
  shows "emits al (FloatingNumberEncoded al val) (float_bytes val)"
proof -
  have eq: "FloatingNumberEncoded al val =
      and_then (UnsignedVarintEncoded al LENGTH_DELIMITED (word_of_nat (length (floating_bytes val))))
        (append_bytes al (floating_bytes val))"
    by (simp add: fun_eq_iff FloatingNumberEncoded_def and_then_def)
  show ?thesis unfolding eq float_bytes_def using assms by (intro raw_intros)
qed

lemma emits_StringValueEncoded [raw_intros]:
  assumes "alloc_sized al"
  shows "emits al (StringValueEncoded al val) (string_bytes val)"
proof -
  have eq: "StringValueEncoded al val =
      and_then (UnsignedVarintEncoded al LENGTH_DELIMITED (word_of_nat (length val)))
        (append_bytes al (bytes_of_string val))"
    by (simp add: fun_eq_iff StringValueEncoded_def and_then_def split: prod.splits bool.splits)
  show ?thesis unfolding eq string_bytes_def using assms by (intro raw_intros)
qed

lemma emits_ValueTypeEncoded [raw_intros]:
  "alloc_sized al \<Longrightarrow> emits al (ValueTypeEncoded al isArray ty 0) (type_bytes isArray ty)"
  using emits_append_bytes [of al "type_bytes isArray ty"]
  by (simp add: ValueTypeEncoded_def [abs_def] type_bytes_def)

end
