(* ===== verification/Value_Codec.thy ===== *)
theory Value_Codec
  imports Raw_Codec
begin

text \<open>
  What the value codec promises its clients, as an interface: \<open>value_codec\<close> fixes an encoder's
  byte string and a decoder and assumes that the decoder inverts the encoder in any context and
  stays inside the buffer. Inside the locale the array decoding loop, which the four array
  parameter classes share, is proved once; the interpretations at the end discharge the laws
  for the four value decoders of the source.
\<close>

section \<open>The array loop of the decoded parameters\<close>

text \<open>
  \<open>DecodeValue\<close> of an array parameter (base/event_raw/decoded/decoded_param.cpp): the size, a
  bound check against \<open>MAX_ARRAY_SIZE\<close>, then one element decoder call per element.
\<close>

fun decode_items ::
    "(byte list option \<Rightarrow> nat \<Rightarrow> nat \<Rightarrow> 'b dec) \<Rightarrow> byte list option \<Rightarrow> nat \<Rightarrow> nat \<Rightarrow> nat \<Rightarrow>
     'b list \<Rightarrow> 'b list dec" where
  "decode_items elem rawData maxLen 0 pos vals = Done vals pos"
| "decode_items elem rawData maxLen (Suc cnt) pos vals =
     (case elem rawData maxLen pos of
        Done val p \<Rightarrow> decode_items elem rawData maxLen cnt p (vals @ [val])
      | Failed p \<Rightarrow> Failed p
      | Undef u \<Rightarrow> Undef u)"

definition decode_array ::
    "(byte list option \<Rightarrow> nat \<Rightarrow> nat \<Rightarrow> 'b dec) \<Rightarrow> byte list option \<Rightarrow> nat \<Rightarrow> nat \<Rightarrow>
     'b list dec" where
  "decode_array elem rawData maxLen pos =
     (case UnsignedVarintDecoded rawData maxLen pos of
        Failed p \<Rightarrow> Failed p
      | Undef u \<Rightarrow> Undef u
      | Done cnt p \<Rightarrow>
          if cnt > word_of_nat MAX_ARRAY_SIZE then Failed p
          else decode_items elem rawData maxLen (unat cnt) p [])"

section \<open>Bits of a varint\<close>

lemma tag_words:
  "word_of_nat TAG_BYTE_MASK = (mask 5 :: 'a :: len word)"
  "word_of_nat TAG_BYTE_BOUND = (32 :: 'a :: len word)"
  "word_of_nat NON_TAG_BYTE_MASK = (mask 7 :: 'a :: len word)"
  "word_of_nat NON_TAG_BYTE_BOUND = (128 :: 'a :: len word)"
  by (simp_all add: tag_const_defs mask_eq_exp_minus_1)

lemma less_iff_drop_bit:
  "(v :: u64) < 32 \<longleftrightarrow> drop_bit 5 v = 0" "(v :: u64) < 128 \<longleftrightarrow> drop_bit 7 v = 0"
  by (simp_all add: word_less_nat_alt drop_bit_eq_div unat_div div_eq_0_iff flip: unat_eq_zero)

lemma bit_flag_words: "bit (32 :: int) n \<longleftrightarrow> n = 5" "bit (128 :: int) n \<longleftrightarrow> n = 7"
  using bit_exp_iff [of 5 n, where ?'a = int] bit_exp_iff [of 7 n, where ?'a = int] by auto

lemma flag_test:
  "(b :: byte) AND 32 \<noteq> 0 \<longleftrightarrow> bit b 5" "(b :: byte) AND 128 \<noteq> 0 \<longleftrightarrow> bit b 7"
  using and_exp_eq_0_iff_not_bit [of b 5] and_exp_eq_0_iff_not_bit [of b 7] by simp_all

lemma bit_non_tag_byte:
  "bit (non_tag_byte w) n \<longleftrightarrow> n < 7 \<and> bit w n \<or> n = 7 \<and> drop_bit 7 w \<noteq> 0"
  unfolding non_tag_byte_def tag_words less_iff_drop_bit
  by (auto simp: bit_simps bit_flag_words)

lemma bit_tag_byte:
  "n < 6 \<Longrightarrow> bit (tag_byte ty w) n \<longleftrightarrow> n < 5 \<and> bit w n \<or> n = 5 \<and> drop_bit 5 w \<noteq> 0"
  unfolding tag_byte_def EncodedTag_def tag_words less_iff_drop_bit TAG_BYTE_OFFSET_def
  by (auto simp: bit_simps bit_flag_words)

lemma non_tag_byte_split:
  "ucast (non_tag_byte w AND mask 7) = w AND mask 7"
  "non_tag_byte w AND 128 \<noteq> 0 \<longleftrightarrow> drop_bit 7 w \<noteq> 0"
  unfolding flag_test by (auto intro!: bit_eqI simp: bit_simps bit_non_tag_byte)

lemma tag_byte_split:
  "ucast (tag_byte ty w AND mask 5) = w AND mask 5"
  "tag_byte ty w AND 32 \<noteq> 0 \<longleftrightarrow> drop_bit 5 w \<noteq> 0"
  unfolding flag_test by (auto intro!: bit_eqI simp: bit_simps bit_tag_byte)

lemma word_split_bits: "(w AND mask k) OR push_bit k (drop_bit k w) = (w :: u64)"
  by (auto intro!: bit_eqI simp: bit_simps)

lemma push_split_bits:
  "push_bit n (w AND mask 7) OR push_bit (n + 7) (drop_bit 7 w) = push_bit n (w :: u64)"
proof -
  have "push_bit n (w AND mask 7) OR push_bit (n + 7) (drop_bit 7 w) =
      push_bit n ((w AND mask 7) OR push_bit 7 (drop_bit 7 w))"
    by (simp add: push_bit_or add.commute)
  then show ?thesis by (simp only: word_split_bits)
qed

lemma drop_Suc_via_drop: "drop n xs = y # ys \<Longrightarrow> drop (Suc n) xs = ys"
  by (simp add: drop_Suc drop_tl)

lemma drop_after: "drop pos raw = xs @ ys \<Longrightarrow> drop (pos + length xs) raw = ys"
  by (metis add.commute append_eq_conv_conj drop_drop)

lemma drop_bit_nonzero: "drop_bit n (w :: u64) \<noteq> 0 \<Longrightarrow> n < 64"
  by (rule ccontr) simp

subsection \<open>Varints\<close>

text \<open>
  The decoding loop run on the bytes of \<open>drop_bit off w\<close> adds exactly these bits, and never
  shifts too far.
\<close>

lemma varint_dec_loop_tail:
  assumes "drop_bit off w \<noteq> 0" "drop pos raw = varint_tail (drop_bit off w) @ rest"
    and "pos + length (varint_tail (drop_bit off w)) \<le> maxLen" "maxLen \<le> length raw"
  shows "varint_dec_loop raw maxLen pos acc off =
    Done (acc OR push_bit off (drop_bit off w)) (pos + length (varint_tail (drop_bit off w)))"
  using assms
proof (induction "drop_bit off w" arbitrary: off pos acc rule: varint_tail.induct)
  case 1
  let ?v = "drop_bit off w"
  have tail: "varint_tail ?v = non_tag_byte ?v # varint_tail (drop_bit 7 ?v)"
    using 1(2) by (subst varint_tail.simps) (simp add: word_gt_0)
  have next_v: "drop_bit 7 ?v = drop_bit (off + 7) w"
    by (simp add: add.commute)
  have pos: "pos < maxLen" "pos < length raw" and b: "raw ! pos = non_tag_byte ?v"
    and rest: "drop (pos + 1) raw = varint_tail (drop_bit (off + 7) w) @ rest"
    using 1(3-5) next_v
    by (auto simp: tail nth_via_drop drop_Suc_via_drop)
  have step: "varint_dec_loop raw maxLen pos acc off =
      (if drop_bit 7 ?v \<noteq> 0
       then varint_dec_loop raw maxLen (pos + 1) (acc OR push_bit off (?v AND mask 7)) (off + 7)
       else Done (acc OR push_bit off (?v AND mask 7)) (pos + 1))"
    using pos drop_bit_nonzero [OF 1(2)]
    by (subst varint_dec_loop.simps)
      (simp add: b tag_words non_tag_byte_split Let_def NON_TAG_BYTE_OFFSET_def)
  show ?case
  proof (cases "drop_bit 7 ?v = 0")
    case True
    then have "?v AND mask 7 = ?v" using word_split_bits [of ?v 7] by simp
    moreover have "varint_tail 0 = []" by (subst varint_tail.simps) simp
    ultimately show ?thesis using True step by (simp add: tail)
  next
    case False
    have "varint_dec_loop raw maxLen (pos + 1) (acc OR push_bit off (?v AND mask 7)) (off + 7) =
      Done ((acc OR push_bit off (?v AND mask 7)) OR push_bit (off + 7) (drop_bit (off + 7) w))
        (pos + 1 + length (varint_tail (drop_bit (off + 7) w)))"
      using 1 False rest next_v tail
      by (intro 1(1)) (auto simp: word_gt_0)
    then show ?thesis
      using step False push_split_bits [of off ?v]
      by (simp add: tail or.assoc add.commute [of off 7])
  qed
qed

lemma UnsignedVarintDecoded_bytes:
  assumes "drop pos raw = varint_bytes ty v @ rest"
    and "pos + length (varint_bytes ty v) \<le> maxLen" "maxLen \<le> length raw"
  shows "UnsignedVarintDecoded (Some raw) maxLen pos = Done v (pos + length (varint_bytes ty v))"
proof -
  have pos: "pos < maxLen" "pos < length raw" and b: "raw ! pos = tag_byte ty v"
    and rest: "drop (pos + 1) raw = varint_tail (drop_bit 5 v) @ rest"
    using assms by (auto simp: varint_bytes_def nth_via_drop drop_Suc_via_drop)
  show ?thesis
  proof (cases "drop_bit 5 v = 0")
    case True
    then have "v AND mask 5 = v" using word_split_bits [of v 5] by simp
    moreover have "varint_tail 0 = []" by (subst varint_tail.simps) simp
    ultimately show ?thesis
      using True pos b
      by (simp add: UnsignedVarintDecoded_def tag_words tag_byte_split varint_bytes_def)
  next
    case False
    have "varint_dec_loop raw maxLen (pos + 1) (v AND mask 5) 5 =
        Done ((v AND mask 5) OR push_bit 5 (drop_bit 5 v))
          (pos + 1 + length (varint_tail (drop_bit 5 v)))"
      using False rest assms(2,3)
      by (intro varint_dec_loop_tail) (auto simp: varint_bytes_def)
    with False pos b show ?thesis
      by (simp add: UnsignedVarintDecoded_def tag_words tag_byte_split varint_bytes_def
          word_split_bits TAG_BYTE_OFFSET_def)
  qed
qed

text \<open>The tag byte carries 5 bits and every further byte 7, so ten bytes are enough.\<close>

lemma length_varint_tail: "drop_bit (7 * n) v = 0 \<Longrightarrow> length (varint_tail v) \<le> n"
proof (induction n arbitrary: v)
  case 0
  then show ?case by (subst varint_tail.simps) simp
next
  case (Suc n)
  from Suc.prems have "drop_bit (7 * n) (drop_bit 7 v) = 0" by (simp add: add.commute)
  then have "length (varint_tail (drop_bit 7 v)) \<le> n" by (rule Suc.IH)
  then show ?case by (subst varint_tail.simps) simp
qed

lemma length_varint_bytes: "1 \<le> length (varint_bytes ty v) \<and> length (varint_bytes ty v) \<le> 10"
  using length_varint_tail [of 9 "drop_bit 5 v"] by (simp add: varint_bytes_def)

lemma unzigzag_zigzag [simp]: "unzigzag (zigzag v) = v"
proof (cases "bit v 63")
  case True
  then have s: "\<not> 0 \<le> sint v" using bit_last_iff [of v] by simp
  have z: "zigzag v = NOT (push_bit 1 v)"
    by (rule bit_eqI) (simp add: zigzag_def s bit_simps)
  have "zigzag v AND 1 = 1"
    by (rule bit_eqI) (auto simp: z bit_simps simp del: One_nat_def push_bit_Suc)
  moreover have "drop_bit 1 (NOT (push_bit 1 v)) XOR - 1 = v"
  proof (rule bit_eqI)
    fix n
    show "bit (drop_bit 1 (NOT (push_bit 1 v)) XOR - 1) n \<longleftrightarrow> bit v n"
      if "possible_bit TYPE(64 word) n"
      using True that
      by (cases "n = 63") (auto simp: bit_simps simp del: One_nat_def push_bit_Suc)
  qed
  ultimately show ?thesis by (simp add: unzigzag_def z)
next
  case False
  then have s: "0 \<le> sint v" using bit_last_iff [of v] by simp
  have z: "zigzag v = push_bit 1 v" by (simp add: zigzag_def s)
  have "zigzag v AND 1 = 0"
    by (rule bit_eqI) (auto simp: z bit_simps simp del: One_nat_def push_bit_Suc)
  moreover have "drop_bit 1 (push_bit 1 v) = v"
  proof (rule bit_eqI)
    fix n
    show "bit (drop_bit 1 (push_bit 1 v)) n \<longleftrightarrow> bit v n"
      if "possible_bit TYPE(64 word) n"
      using False that
      by (cases "n = 63") (auto simp: bit_simps simp del: One_nat_def push_bit_Suc)
  qed
  ultimately show ?thesis by (simp add: unzigzag_def z)
qed

subsection \<open>Staying inside the buffer\<close>

text \<open>
  A decoding step at \<open>pos\<close> over \<open>maxLen\<close> readable bytes is safe when a success moves the
  position forward inside the buffer, a failure leaves it in the buffer, and the only undefined
  behaviour is an oversized shift. Sizes are below \<open>2 ^ 63\<close>, the largest object of a 64-bit
  target.
\<close>

fun dec_safe :: "nat \<Rightarrow> nat \<Rightarrow> 'a dec \<Rightarrow> bool" where
  "dec_safe maxLen pos (Done v p) \<longleftrightarrow> pos < p \<and> p \<le> maxLen"
| "dec_safe maxLen pos (Failed p) \<longleftrightarrow> pos \<le> p \<and> p \<le> max pos maxLen"
| "dec_safe maxLen pos (Undef u) \<longleftrightarrow> u = ShiftTooLarge"

definition readable :: "byte list \<Rightarrow> nat \<Rightarrow> bool" where
  "readable raw maxLen \<longleftrightarrow> maxLen \<le> length raw \<and> maxLen < 2 ^ 63"

lemma dec_safe_later: "dec_safe maxLen (pos + 1) d \<Longrightarrow> pos < maxLen \<Longrightarrow> dec_safe maxLen pos d"
  by (cases d) auto

lemma varint_dec_loop_safe:
  "maxLen \<le> length raw \<Longrightarrow> pos \<le> maxLen \<Longrightarrow> dec_safe maxLen pos (varint_dec_loop raw maxLen pos val off)"
proof (induction raw maxLen pos val off rule: varint_dec_loop.induct)
  case (1 raw maxLen pos val off)
  show ?case
  proof (cases "pos < maxLen \<and> off < 64 \<and> raw ! pos AND word_of_nat NON_TAG_BYTE_BOUND \<noteq> 0")
    case True
    let ?val = "val OR push_bit off (ucast (raw ! pos AND word_of_nat NON_TAG_BYTE_MASK))"
    have "dec_safe maxLen (pos + 1)
        (varint_dec_loop raw maxLen (pos + 1) ?val (off + NON_TAG_BYTE_OFFSET))"
      using True 1 by simp
    then have "dec_safe maxLen pos
        (varint_dec_loop raw maxLen (pos + 1) ?val (off + NON_TAG_BYTE_OFFSET))"
      using True by (elim dec_safe_later) simp
    with True 1 show ?thesis
      by (subst varint_dec_loop.simps) (simp add: Let_def)
  next
    case False
    with 1 show ?thesis
      by (subst varint_dec_loop.simps) (auto simp: Let_def)
  qed
qed

lemma UnsignedVarintDecoded_safe:
  assumes "readable raw maxLen"
  shows "dec_safe maxLen pos (UnsignedVarintDecoded (Some raw) maxLen pos)"
proof (cases "pos < maxLen \<and> raw ! pos AND word_of_nat TAG_BYTE_BOUND \<noteq> 0")
  case True
  let ?r = "varint_dec_loop raw maxLen (pos + 1)
    (ucast (raw ! pos AND word_of_nat TAG_BYTE_MASK)) TAG_BYTE_OFFSET"
  have "dec_safe maxLen (pos + 1) ?r"
    using True assms by (intro varint_dec_loop_safe) (auto simp: readable_def)
  then have "dec_safe maxLen pos ?r"
    using True by (elim dec_safe_later) simp
  with True assms show ?thesis
    by (simp add: UnsignedVarintDecoded_def Let_def readable_def)
next
  case False
  with assms show ?thesis
    by (auto simp: UnsignedVarintDecoded_def Let_def readable_def)
qed

lemma SignedVarintDecoded_safe:
  "readable raw maxLen \<Longrightarrow> dec_safe maxLen pos (SignedVarintDecoded (Some raw) maxLen pos)"
  using UnsignedVarintDecoded_safe [of raw maxLen pos]
  by (auto simp: SignedVarintDecoded_def split: dec.splits)

lemma FloatingNumberDecoded_safe:
  assumes "readable raw maxLen"
  shows "dec_safe maxLen pos (FloatingNumberDecoded (Some raw) maxLen pos)"
proof (cases "UnsignedVarintDecoded (Some raw) maxLen pos")
  case (Done n p)
  with UnsignedVarintDecoded_safe [OF assms, of pos] have p: "pos < p" "p \<le> maxLen" by auto
  have "size_add p 4 = p + 4" "size_add p 8 = p + 8"
    using p assms by (simp_all add: readable_def)
  with Done p assms show ?thesis
    by (auto simp: FloatingNumberDecoded_def read_bytes_def readable_def)
qed (use UnsignedVarintDecoded_safe [OF assms, of pos] in \<open>auto simp: FloatingNumberDecoded_def\<close>)

lemma StringValueDecoded_safe:
  assumes "readable raw maxLen"
  shows "dec_safe maxLen pos (StringValueDecoded (Some raw) maxLen pos dest)"
proof (cases "UnsignedVarintDecoded (Some raw) maxLen pos")
  case (Done n p)
  with UnsignedVarintDecoded_safe [OF assms, of pos] have p: "pos < p" "p \<le> maxLen" by auto
  show ?thesis
  proof (cases "unat n \<le> maxLen")
    case True
    then have "size_add p (unat n) = p + unat n"
      using p assms by (simp add: readable_def)
    with Done p assms show ?thesis
      by (auto simp: StringValueDecoded_def read_bytes_def readable_def)
  qed (use Done p in \<open>simp add: StringValueDecoded_def\<close>)
qed (use UnsignedVarintDecoded_safe [OF assms, of pos] in \<open>auto simp: StringValueDecoded_def\<close>)

lemma ValueTypeDecoded_safe:
  "readable raw maxLen \<Longrightarrow> dec_safe maxLen pos (ValueTypeDecoded (Some raw) maxLen pos)"
  by (auto simp: ValueTypeDecoded_def readable_def)

section \<open>The interface of a value codec\<close>

definition array_bytes :: "('a \<Rightarrow> byte list) \<Rightarrow> 'a list \<Rightarrow> byte list" where
  "array_bytes enc vs =
     varint_bytes LENGTH_DELIMITED (word_of_nat (length vs)) @ concat (map enc vs)"

locale value_codec =
  fixes enc :: "'a \<Rightarrow> byte list"
    and dec :: "byte list option \<Rightarrow> nat \<Rightarrow> nat \<Rightarrow> 'b dec"
    and view :: "'a \<Rightarrow> 'b"
    and sized :: "'a \<Rightarrow> bool"
  assumes dec_enc: "sized v \<Longrightarrow> drop pos raw = enc v @ rest \<Longrightarrow> pos + length (enc v) \<le> maxLen \<Longrightarrow>
      readable raw maxLen \<Longrightarrow> dec (Some raw) maxLen pos = Done (view v) (pos + length (enc v))"
    and dec_inside: "readable raw maxLen \<Longrightarrow> dec_safe maxLen pos (dec (Some raw) maxLen pos)"
begin

lemma items_roundtrip:
  assumes "list_all sized vs" "drop pos raw = concat (map enc vs) @ rest"
    and "pos + length (concat (map enc vs)) \<le> maxLen" "readable raw maxLen"
  shows "decode_items dec (Some raw) maxLen (length vs) pos acc =
    Done (acc @ map view vs) (pos + length (concat (map enc vs)))"
  using assms
proof (induction vs arbitrary: pos acc)
  case Nil
  then show ?case by simp
next
  case (Cons v vs)
  have "dec (Some raw) maxLen pos = Done (view v) (pos + length (enc v))"
    using Cons.prems by (intro dec_enc) auto
  moreover have "drop (pos + length (enc v)) raw = concat (map enc vs) @ rest"
    using Cons.prems(2) by (intro drop_after) simp
  ultimately show ?case
    using Cons.prems Cons.IH [of "pos + length (enc v)" "acc @ [view v]"]
    by (simp add: add.assoc)
qed

lemma array_roundtrip:
  assumes "list_all sized vs" "length vs \<le> MAX_ARRAY_SIZE"
    and "drop pos raw = array_bytes enc vs @ rest"
    and "pos + length (array_bytes enc vs) \<le> maxLen" "readable raw maxLen"
  shows "decode_array dec (Some raw) maxLen pos =
    Done (map view vs) (pos + length (array_bytes enc vs))"
proof -
  let ?n = "word_of_nat (length vs) :: u64"
  let ?p = "pos + length (varint_bytes LENGTH_DELIMITED ?n)"
  have cnt: "unat ?n = length vs"
    using assms(2) by (simp add: MAX_ARRAY_SIZE_def unat_of_nat)
  have "UnsignedVarintDecoded (Some raw) maxLen pos = Done ?n ?p"
    using assms by (intro UnsignedVarintDecoded_bytes) (auto simp: array_bytes_def readable_def)
  moreover have "\<not> ?n > word_of_nat MAX_ARRAY_SIZE"
    using assms(2) by (simp add: word_less_nat_alt cnt) (simp add: MAX_ARRAY_SIZE_def)
  moreover have "drop ?p raw = concat (map enc vs) @ rest"
    using assms(3) by (intro drop_after) (simp add: array_bytes_def)
  ultimately show ?thesis
    using assms items_roundtrip [of vs ?p raw rest maxLen "[]"]
    by (simp add: decode_array_def cnt array_bytes_def add.assoc)
qed

lemma items_inside:
  assumes "readable raw maxLen" "pos \<le> maxLen"
  shows "case decode_items dec (Some raw) maxLen n pos acc of
      Done vs p \<Rightarrow> pos \<le> p \<and> p \<le> maxLen \<and> length vs = length acc + n
    | Failed p \<Rightarrow> pos \<le> p \<and> p \<le> maxLen
    | Undef u \<Rightarrow> u = ShiftTooLarge"
  using assms(2)
proof (induction n arbitrary: pos acc)
  case 0
  then show ?case by simp
next
  case (Suc n)
  show ?case
  proof (cases "dec (Some raw) maxLen pos")
    case (Done v p)
    with dec_inside [OF assms(1), of pos] have "pos < p" "p \<le> maxLen" by auto
    with Suc.IH [of p "acc @ [v]"] Done show ?thesis
      by (auto split: dec.splits)
  qed (use dec_inside [OF assms(1), of pos] Suc.prems in auto)
qed

lemma array_inside:
  assumes "readable raw maxLen"
  shows "dec_safe maxLen pos (decode_array dec (Some raw) maxLen pos)"
proof (cases "UnsignedVarintDecoded (Some raw) maxLen pos")
  case (Done n p)
  with UnsignedVarintDecoded_safe [OF assms, of pos] have "pos < p" "p \<le> maxLen" by auto
  with Done items_inside [OF assms, where pos = p and n = "unat n" and acc = "[]"] show ?thesis
    by (auto simp: decode_array_def split: dec.splits)
qed (use UnsignedVarintDecoded_safe [OF assms, of pos] in \<open>auto simp: decode_array_def\<close>)

lemma array_bounded:
  assumes "readable raw maxLen" "decode_array dec (Some raw) maxLen pos = Done vs p"
  shows "length vs \<le> MAX_ARRAY_SIZE"
proof -
  from assms(2) obtain n q where nq: "UnsignedVarintDecoded (Some raw) maxLen pos = Done n q"
    "\<not> n > word_of_nat MAX_ARRAY_SIZE" "decode_items dec (Some raw) maxLen (unat n) q [] = Done vs p"
    by (auto simp: decode_array_def split: dec.splits if_splits)
  moreover from nq(1) UnsignedVarintDecoded_safe [OF assms(1), of pos] have "q \<le> maxLen" by auto
  ultimately have "length vs = unat n" using items_inside [OF assms(1), where pos = q and n = "unat n" and acc = "[]"] by auto
  with nq(2) show ?thesis
    by (simp add: word_less_nat_alt not_less MAX_ARRAY_SIZE_def)
qed

end

section \<open>The four value codecs of the source\<close>

interpretation uv: value_codec "varint_bytes VARINT" UnsignedVarintDecoded "\<lambda>v. v" "\<lambda>_. True"
  by unfold_locales
    (auto simp: UnsignedVarintDecoded_bytes UnsignedVarintDecoded_safe readable_def)

lemma SignedVarintDecoded_bytes:
  assumes "drop pos raw = signed_bytes ty v @ rest"
    and "pos + length (signed_bytes ty v) \<le> maxLen" "readable raw maxLen"
  shows "SignedVarintDecoded (Some raw) maxLen pos = Done v (pos + length (signed_bytes ty v))"
proof -
  have "UnsignedVarintDecoded (Some raw) maxLen pos =
      Done (zigzag v) (pos + length (varint_bytes ty (zigzag v)))"
    using assms by (intro UnsignedVarintDecoded_bytes) (auto simp: signed_bytes_def readable_def)
  moreover have "pos < maxLen"
    using assms(2) length_varint_bytes [of ty "zigzag v"] by (simp add: signed_bytes_def)
  ultimately show ?thesis by (simp add: SignedVarintDecoded_def signed_bytes_def)
qed

interpretation sv: value_codec "signed_bytes VARINT" SignedVarintDecoded "\<lambda>v. v" "\<lambda>_. True"
  by unfold_locales (auto simp: SignedVarintDecoded_bytes SignedVarintDecoded_safe)

lemma length_prefix_decoded:
  assumes "drop pos raw = varint_bytes LENGTH_DELIMITED n @ body @ rest"
    and "pos + length (varint_bytes LENGTH_DELIMITED n @ body) \<le> maxLen" "readable raw maxLen"
    and "p = pos + length (varint_bytes LENGTH_DELIMITED n)"
  shows "pos < maxLen" "UnsignedVarintDecoded (Some raw) maxLen pos = Done n p"
    "read_bytes raw p (length body) = Some body" "size_add p (length body) = p + length body"
proof -
  show "pos < maxLen" using assms(2) length_varint_bytes [of LENGTH_DELIMITED n] by simp
  show "UnsignedVarintDecoded (Some raw) maxLen pos = Done n p"
    unfolding assms(4) using assms(1-3)
    by (intro UnsignedVarintDecoded_bytes) (auto simp: readable_def)
  have "drop p raw = body @ rest"
    unfolding assms(4) using assms(1) by (rule drop_after)
  then show "read_bytes raw p (length body) = Some body"
    using assms(2-4) by (simp add: read_bytes_def readable_def)
  show "size_add p (length body) = p + length body"
    using assms(2-4) by (simp add: readable_def)
qed

lemma FloatingNumberDecoded_bytes:
  assumes "drop pos raw = float_bytes v @ rest"
    and "pos + length (float_bytes v) \<le> maxLen" "readable raw maxLen"
  shows "FloatingNumberDecoded (Some raw) maxLen pos =
    Done (double_view v) (pos + length (float_bytes v))"
  using length_prefix_decoded
    [of pos raw "word_of_nat (length (floating_bytes v))" "floating_bytes v" rest maxLen,
     OF _ _ assms(3) refl]
    assms(1,2)
  by (cases v) (auto simp: FloatingNumberDecoded_def float_bytes_def)

interpretation fv: value_codec float_bytes FloatingNumberDecoded double_view "\<lambda>_. True"
  by unfold_locales (auto simp: FloatingNumberDecoded_bytes FloatingNumberDecoded_safe)

lemma StringValueDecoded_bytes:
  assumes "length s < 2 ^ 63" "drop pos raw = string_bytes s @ rest"
    and "pos + length (string_bytes s) \<le> maxLen" "readable raw maxLen"
  shows "StringValueDecoded (Some raw) maxLen pos [] = Done s (pos + length (string_bytes s))"
proof -
  have n: "unat (word_of_nat (length s) :: u64) = length s"
    using assms(1) by (simp add: unat_of_nat)
  then have z: "(word_of_nat (length s) :: u64) = 0 \<longleftrightarrow> s = []"
    by (metis length_0_conv unat_eq_zero)
  show ?thesis
    using length_prefix_decoded
      [of pos raw "word_of_nat (length s)" "bytes_of_string s" rest maxLen, OF _ _ assms(4) refl]
      assms(2,3) z
    by (auto simp: StringValueDecoded_def string_bytes_def n)
qed

interpretation dv: value_codec string_bytes "\<lambda>raw maxLen pos. StringValueDecoded raw maxLen pos []"
  "\<lambda>s. s" "\<lambda>s. length s < 2 ^ 63"
  by unfold_locales (auto simp: StringValueDecoded_bytes StringValueDecoded_safe)

end
