(* ===== verification/Cpp_Text.thy ===== *)
theory Cpp_Text
  imports Hiview_Prelude
begin

text \<open>
  The text conversions of the C++ standard library that the event sources use: \<open>operator<<\<close>
  of a double with the default precision (the \<open>%g\<close> conversion with six significant digits),
  \<open>std::to_string\<close> of a double (the \<open>%f\<close> conversion with six decimals), extraction of an
  unsigned number from a stringstream in base 10 or 16, and the write position of a
  stringstream that \<open>seekp(-1, end)\<close> moves back over the last character.
\<close>

section \<open>Doubles as text\<close>

text \<open>A finite double is its sign and the fraction \<open>p / q\<close> of two natural numbers.\<close>

definition double_negative :: "u64 \<Rightarrow> bool" where
  "double_negative w \<longleftrightarrow> unat w \<ge> 2 ^ 63"

definition double_exponent :: "u64 \<Rightarrow> nat" where
  "double_exponent w = unat w div 2 ^ 52 mod 2048"

definition double_mantissa :: "u64 \<Rightarrow> nat" where
  "double_mantissa w = unat w mod 2 ^ 52"

definition double_fraction :: "u64 \<Rightarrow> nat \<times> nat" where
  "double_fraction w =
     (let e = double_exponent w;
          m = (if e = 0 then double_mantissa w else double_mantissa w + 2 ^ 52);
          x = (if e = 0 then 1 else e)
      in if x \<ge> 1075 then (m * 2 ^ (x - 1075), 1) else (m, 2 ^ (1075 - x)))"

definition round_half_even :: "nat \<Rightarrow> nat \<Rightarrow> nat" where
  "round_half_even p q =
     (let d = p div q; r = p mod q in
      if 2 * r < q \<or> 2 * r = q \<and> even d then d else d + 1)"

text \<open>Decimal digits of \<open>n\<close>, at least \<open>k\<close> of them.\<close>

definition pad_zeros :: "nat \<Rightarrow> string \<Rightarrow> string" where
  "pad_zeros k s = replicate (k - length s) (CHR ''0'') @ s"

definition fixed_point :: "nat \<Rightarrow> nat \<Rightarrow> string" where
  "fixed_point k n =
     (let s = pad_zeros (k + 1) (show_nat n) in
      take (length s - k) s @ (if k = 0 then [] else CHR ''.'' # drop (length s - k) s))"

definition strip_zeros :: "string \<Rightarrow> string" where
  "strip_zeros s =
     (if CHR ''.'' \<in> set s
      then (let t = rev (dropWhile (\<lambda>c. c = CHR ''0'') (rev s)) in
            if t \<noteq> [] \<and> last t = CHR ''.'' then butlast t else t)
      else s)"

text \<open>
  The decimal exponent of \<open>p / q\<close>: counted up while \<open>p \<ge> 10 * q\<close>, counted down while
  \<open>p < q\<close>. The fuel bounds the exponents of doubles (from \<open>-324\<close> to \<open>308\<close>).
\<close>

fun decimal_exponent :: "nat \<Rightarrow> nat \<Rightarrow> nat \<Rightarrow> int" where
  "decimal_exponent 0 p q = 0"
| "decimal_exponent (Suc fuel) p q =
     (if p \<ge> 10 * q then decimal_exponent fuel p (10 * q) + 1
      else if p < q then decimal_exponent fuel (10 * p) q - 1
      else 0)"

definition EXPONENT_FUEL :: nat where "EXPONENT_FUEL = 400"

definition scaled :: "nat \<Rightarrow> nat \<Rightarrow> int \<Rightarrow> nat" where
  "scaled p q k =
     (if k \<ge> 0 then round_half_even (p * 10 ^ nat k) q else round_half_even p (q * 10 ^ nat (- k)))"

definition show_fraction_g :: "nat \<Rightarrow> nat \<Rightarrow> string" where
  "show_fraction_g p q =
     (if p = 0 then ''0''
      else let x0 = decimal_exponent EXPONENT_FUEL p q;
               d0 = scaled p q (5 - x0);
               x = (if d0 = 1000000 then x0 + 1 else x0);
               d = (if d0 = 1000000 then 100000 else d0)
           in if - 4 \<le> x \<and> x < 6
              then (if x \<ge> 0 then strip_zeros (fixed_point (5 - nat x) d)
                    else strip_zeros (fixed_point (5 + nat (- x)) d))
              else strip_zeros (fixed_point 5 d) @ ''e'' @ (if x < 0 then ''-'' else ''+'') @
                   pad_zeros 2 (show_nat (nat \<bar>x\<bar>)))"

definition show_special :: "u64 \<Rightarrow> string" where
  "show_special w = (if double_mantissa w = 0 then ''inf'' else ''nan'')"

definition double_text :: "(nat \<Rightarrow> nat \<Rightarrow> string) \<Rightarrow> u64 \<Rightarrow> string" where
  "double_text f w =
     (if double_negative w then ''-'' else []) @
     (if double_exponent w = 2047 then show_special w
      else case double_fraction w of (p, q) \<Rightarrow> f p q)"

definition stream_double :: "u64 \<Rightarrow> string" where
  "stream_double = double_text show_fraction_g"

definition to_string_double :: "u64 \<Rightarrow> string" where
  "to_string_double = double_text (\<lambda>p q. fixed_point 6 (round_half_even (p * 1000000) q))"

lemma decimal_exponent_numeral:
  "decimal_exponent (numeral k) p q =
     (if p \<ge> 10 * q then decimal_exponent (pred_numeral k) p (10 * q) + 1
      else if p < q then decimal_exponent (pred_numeral k) (10 * p) q - 1
      else 0)"
  by (simp add: numeral_eq_Suc)

text \<open>The definitions that evaluate a printed double by simplification.\<close>

lemmas double_text_eval =
  double_text_def double_negative_def double_exponent_def double_mantissa_def double_fraction_def
  show_fraction_g_def EXPONENT_FUEL_def decimal_exponent_numeral scaled_def round_half_even_def
  fixed_point_def pad_zeros_def show_nat_def show_base.simps digit_char_def strip_zeros_def

section \<open>Unsigned numbers out of a stream\<close>

definition is_space :: "char \<Rightarrow> bool" where
  "is_space c \<longleftrightarrow> c \<in> {CHR '' '', CHR 0x09, CHR 0x0A, CHR 0x0B, CHR 0x0C, CHR 0x0D}"

definition is_digit :: "char \<Rightarrow> bool" where
  "is_digit c \<longleftrightarrow> 48 \<le> (of_char c :: nat) \<and> (of_char c :: nat) \<le> 57"

definition digit_value :: "char \<Rightarrow> nat option" where
  "digit_value c =
     (let n = of_char c in
      if 48 \<le> n \<and> n \<le> 57 then Some (n - 48)
      else if 97 \<le> n \<and> n \<le> 102 then Some (n - 87)
      else if 65 \<le> n \<and> n \<le> 70 then Some (n - 55)
      else None)"

fun read_digits :: "nat \<Rightarrow> nat \<Rightarrow> string \<Rightarrow> nat" where
  "read_digits base acc [] = acc"
| "read_digits base acc (c # cs) =
     (case digit_value c of
        None \<Rightarrow> acc
      | Some d \<Rightarrow> if d < base then read_digits base (acc * base + d) cs else acc)"

definition skip_prefix :: "nat \<Rightarrow> string \<Rightarrow> string" where
  "skip_prefix base s =
     (if base = 16 \<and> (take 2 s = ''0x'' \<or> take 2 s = ''0X'') then drop 2 s else s)"

text \<open>
  \<open>stream >> num\<close> for an unsigned \<open>num\<close> of \<open>w\<close> bits: leading blanks, an optional sign, the digits
  of the base; a number that does not fit gives the largest value, a missing number gives 0.
\<close>

definition stream_unsigned :: "nat \<Rightarrow> nat \<Rightarrow> string \<Rightarrow> nat" where
  "stream_unsigned base w s =
     (let t = dropWhile is_space s;
          neg = (t \<noteq> [] \<and> hd t = CHR ''-'');
          u = (if t \<noteq> [] \<and> (hd t = CHR ''-'' \<or> hd t = CHR ''+'') then tl t else t);
          n = read_digits base 0 (skip_prefix base u)
      in if n \<ge> 2 ^ w then 2 ^ w - 1
         else if neg then (2 ^ w - n) mod 2 ^ w
         else n)"

text \<open>\<open>stream >> num\<close> for a signed \<open>num\<close> of \<open>w\<close> bits: a number out of range gives the nearest bound.\<close>

definition stream_signed :: "nat \<Rightarrow> string \<Rightarrow> int" where
  "stream_signed w s =
     (let t = dropWhile is_space s;
          neg = (t \<noteq> [] \<and> hd t = CHR ''-'');
          u = (if t \<noteq> [] \<and> (hd t = CHR ''-'' \<or> hd t = CHR ''+'') then tl t else t);
          n = int (read_digits 10 0 u)
      in if neg then (if n > 2 ^ (w - 1) then - (2 ^ (w - 1)) else - n)
         else if n \<ge> 2 ^ (w - 1) then 2 ^ (w - 1) - 1
         else n)"

section \<open>Doubles out of a stream\<close>

text \<open>
  The double nearest to \<open>p / q\<close>, ties to even: the binary exponent is searched within the fuel
  (\<open>2 ^ 1100\<close> is beyond the largest double, decimal exponents are cut to four digits before).
\<close>

fun binary_exponent :: "nat \<Rightarrow> nat \<Rightarrow> nat \<Rightarrow> int" where
  "binary_exponent 0 p q = 0"
| "binary_exponent (Suc fuel) p q =
     (if p \<ge> 2 * q then binary_exponent fuel p (2 * q) + 1
      else if p < q then binary_exponent fuel (2 * p) q - 1
      else 0)"

definition BINARY_FUEL :: nat where "BINARY_FUEL = 1200"

definition binary_scaled :: "nat \<Rightarrow> nat \<Rightarrow> int \<Rightarrow> nat" where
  "binary_scaled p q k =
     (if k \<ge> 0 then round_half_even (p * 2 ^ nat k) q else round_half_even p (q * 2 ^ nat (- k)))"

definition double_of_fraction :: "nat \<Rightarrow> nat \<Rightarrow> u64" where
  "double_of_fraction p q =
     (if p = 0 then 0
      else let x = max (binary_exponent BINARY_FUEL p q) (- 1022);
               m = binary_scaled p q (52 - x)
           in if m \<ge> 2 ^ 52
              then (let bits = nat (x + 1023) * 2 ^ 52 + (m - 2 ^ 52) in
                    word_of_nat (min bits (2047 * 2 ^ 52)))
              else word_of_nat m)"

text \<open>
  The characters a stream collects for a floating point number: digits, the point and \<open>e\<close>, a sign
  only in front or right after an \<open>e\<close>.
\<close>

fun float_buffer :: "char option \<Rightarrow> string \<Rightarrow> string" where
  "float_buffer prev [] = []"
| "float_buffer prev (c # cs) =
     (if c = CHR ''+'' \<or> c = CHR ''-'' then
        (if prev = None \<or> prev = Some (CHR ''e'') then c # float_buffer (Some c) cs else [])
      else if c = CHR ''.'' \<or> c = CHR ''e'' \<or> is_digit c
      then c # float_buffer (Some c) cs
      else [])"

text \<open>
  The exponent part after the digits: \<open>Some 0\<close> when there is none, \<open>None\<close> when it is malformed.
\<close>

definition read_exponent :: "string \<Rightarrow> int option" where
  "read_exponent s =
     (case s of
        [] \<Rightarrow> Some 0
      | c # t \<Rightarrow>
          if c \<noteq> CHR ''e'' then None
          else let neg = (t \<noteq> [] \<and> hd t = CHR ''-'');
                   u = (if t \<noteq> [] \<and> (hd t = CHR ''-'' \<or> hd t = CHR ''+'') then tl t else t)
               in if u = [] \<or> \<not> list_all is_digit u then None
                  else let n = int (min (read_digits 10 0 u) 5000) in Some (if neg then - n else n))"

definition stream_double_in :: "string \<Rightarrow> u64" where
  "stream_double_in s =
     (let b = float_buffer None (dropWhile is_space s);
          neg = (b \<noteq> [] \<and> hd b = CHR ''-'');
          u = (if b \<noteq> [] \<and> (hd b = CHR ''-'' \<or> hd b = CHR ''+'') then tl b else b);
          ints = takeWhile is_digit u; r1 = dropWhile is_digit u;
          fracs = (if r1 \<noteq> [] \<and> hd r1 = CHR ''.'' then takeWhile is_digit (tl r1) else []);
          r2 = (if r1 \<noteq> [] \<and> hd r1 = CHR ''.'' then dropWhile is_digit (tl r1) else r1);
          n = read_digits 10 0 (ints @ fracs)
      in if ints @ fracs = [] then 0
         else case read_exponent r2 of
                None \<Rightarrow> 0
              | Some x \<Rightarrow>
                  (let k = x - int (length fracs);
                       mag = (if k \<ge> 0 then double_of_fraction (n * 10 ^ nat k) 1
                              else double_of_fraction n (10 ^ nat (- k)))
                   in if neg then mag OR push_bit 63 1 else mag))"

section \<open>A stringstream\<close>

text \<open>
  The buffer and the write position. \<open>seekp(-1, end)\<close> puts the position on the last character,
  which the next write replaces; on an empty buffer it fails and sets the fail bit, so that
  later writes have no effect.
\<close>

record string_stream =
  ssBuf :: string
  ssPos :: nat
  ssFail :: bool

definition ss_empty :: string_stream where
  "ss_empty = \<lparr>ssBuf = [], ssPos = 0, ssFail = False\<rparr>"

definition ss_put :: "string \<Rightarrow> string_stream \<Rightarrow> string_stream" where
  "ss_put s ss =
     (if ssFail ss then ss
      else ss\<lparr>ssBuf := take (ssPos ss) (ssBuf ss) @ s @ drop (ssPos ss + length s) (ssBuf ss),
              ssPos := ssPos ss + length s\<rparr>)"

definition ss_tellp_nonzero :: "string_stream \<Rightarrow> bool" where
  "ss_tellp_nonzero ss \<longleftrightarrow> ssFail ss \<or> ssPos ss \<noteq> 0"

definition ss_seekp_back :: "string_stream \<Rightarrow> string_stream" where
  "ss_seekp_back ss =
     (if ssFail ss then ss
      else if ssBuf ss = [] then ss\<lparr>ssFail := True\<rparr>
      else ss\<lparr>ssPos := length (ssBuf ss) - 1\<rparr>)"

section \<open>Lemmas\<close>

definition stream_of :: "string \<Rightarrow> string_stream" where
  "stream_of s = \<lparr>ssBuf = s, ssPos = length s, ssFail = False\<rparr>"

definition ss_at_end :: "string \<Rightarrow> string_stream \<Rightarrow> bool" where
  "ss_at_end s ss \<longleftrightarrow> ss = stream_of s"

lemma ss_at_end_empty [simp]: "ss_at_end [] ss_empty"
  by (simp add: ss_at_end_def stream_of_def ss_empty_def)

lemma ss_put_at_end [codec_simps]: "ss_at_end s ss \<Longrightarrow> ss_at_end (s @ t) (ss_put t ss)"
  by (simp add: ss_at_end_def stream_of_def ss_put_def)

text \<open>Moving back over the last character and writing replaces it.\<close>

lemma ss_replace_last [codec_simps]:
  "ss_at_end s ss \<Longrightarrow> s \<noteq> [] \<Longrightarrow> t \<noteq> [] \<Longrightarrow>
    ss_at_end (butlast s @ t) (ss_put t (ss_seekp_back ss))"
  by (cases t) (auto simp: ss_at_end_def stream_of_def ss_put_def ss_seekp_back_def butlast_conv_take)

lemma digit_value_digit_char [simp]:
  assumes "d < 16"
  shows "digit_value (digit_char d) = Some d"
proof -
  have "list_all (\<lambda>d. digit_value (digit_char d) = Some d) [0..<16]" by code_simp
  with assms show ?thesis by (simp add: list_all_iff)
qed

lemma read_digits_append:
  assumes "list_all (\<lambda>c. \<exists>d<b. digit_value c = Some d) s"
  shows "read_digits b acc (s @ t) = read_digits b (read_digits b acc s) t"
  using assms by (induction s arbitrary: acc) auto

lemma mod_base_16:
  assumes "2 \<le> b" "b \<le> (16 :: nat)"
  shows "n mod b < b" "n mod b < 16" "n mod b mod 16 = n mod b"
proof -
  show "n mod b < b" using assms by simp
  then show "n mod b < 16" using assms(2) by (rule less_le_trans)
  then show "n mod b mod 16 = n mod b" by (rule mod_less)
qed

lemma show_base_digits:
  "2 \<le> b \<Longrightarrow> b \<le> 16 \<Longrightarrow> list_all (\<lambda>c. \<exists>d<b. digit_value c = Some d) (show_base b n)"
proof (induction b n rule: show_base.induct)
  case (1 b n)
  show ?case
  proof (cases "n < b")
    case True
    with 1 show ?thesis by (subst show_base.simps) simp
  next
    case False
    with 1 show ?thesis by (subst show_base.simps) (simp add: mod_base_16)
  qed
qed

lemma read_digits_show_base:
  "2 \<le> b \<Longrightarrow> b \<le> 16 \<Longrightarrow> read_digits b 0 (show_base b n) = n"
proof (induction b n rule: show_base.induct)
  case (1 b n)
  show ?case
  proof (cases "n < b")
    case True
    with 1 show ?thesis by (subst show_base.simps) simp
  next
    case False
    with False 1 show ?thesis
      by (subst show_base.simps) (simp add: read_digits_append show_base_digits mod_base_16)
  qed
qed

lemma read_digits_pad: "0 < b \<Longrightarrow> read_digits b 0 (replicate k (CHR ''0'') @ s) = read_digits b 0 s"
  by (induction k) (simp_all add: digit_value_def)

lemma digit_not_special:
  assumes "digit_value c = Some d"
  shows "\<not> is_space c" "c \<noteq> CHR ''-''" "c \<noteq> CHR ''+''" "c \<noteq> CHR ''x''" "c \<noteq> CHR ''X''"
proof -
  have sp: "digit_value c = None" if "is_space c"
    using that unfolding is_space_def by (elim insertE emptyE) (simp_all add: digit_value_def)
  show "\<not> is_space c" using sp assms by auto
  show "c \<noteq> CHR ''-''" "c \<noteq> CHR ''+''" "c \<noteq> CHR ''x''" "c \<noteq> CHR ''X''"
    using assms by (auto simp: digit_value_def)
qed

lemma digits_not_special:
  assumes "list_all (\<lambda>c. \<exists>d<b. digit_value c = Some d) s"
  shows "dropWhile is_space s = s" "skip_prefix b s = s" "s = [] \<or> hd s \<noteq> CHR ''-'' \<and> hd s \<noteq> CHR ''+''"
proof -
  show "dropWhile is_space s = s" "s = [] \<or> hd s \<noteq> CHR ''-'' \<and> hd s \<noteq> CHR ''+''"
    using assms by (cases s; auto dest: digit_not_special)+
  show "skip_prefix b s = s"
  proof (cases "2 \<le> length s")
    case True
    then obtain c c' t where s: "s = c # c' # t" by (metis Suc_le_length_iff numeral_2_eq_2)
    with assms obtain d where "digit_value c' = Some d" by auto
    from digit_not_special(4,5) [OF this] show ?thesis by (simp add: skip_prefix_def s)
  next
    case False
    then have "length (take 2 s) < 2" by simp
    then have "take 2 s \<noteq> ''0x''" "take 2 s \<noteq> ''0X''" by auto
    then show ?thesis by (simp add: skip_prefix_def)
  qed
qed

lemma stream_unsigned_digits:
  assumes "list_all (\<lambda>c. \<exists>d<b. digit_value c = Some d) s" "read_digits b 0 s < 2 ^ w"
  shows "stream_unsigned b w s = read_digits b 0 s"
  using digits_not_special [OF assms(1)] assms(2)
  by (auto simp: stream_unsigned_def Let_def)

end
