(* ===== verification/Encoded_Param.thy ===== *)
theory Encoded_Param
  imports Value_Codec Cpp_Text
begin

text \<open>
  Parameters on their way into an event (base/event_raw/include/encoded/encoded_param.h,
  base/event_raw/encoded/encoded_param.cpp): a key, a value and the buffer it is encoded to.
  The eight subclasses are the constructors of \<open>param_value\<close>; values are kept at the width the
  encoder widens them to. The lemmas say which bytes \<open>Encode\<close> appends and that \<open>GetRawData\<close>
  encodes at most once.
\<close>

section \<open>Model\<close>

datatype param_value =
    UnsignedVal u64
  | UnsignedArr "u64 list"
  | SignedVal i64
  | SignedArr "i64 list"
  | FloatVal floating
  | FloatArr32 "u32 list"
  | FloatArr64 "u64 list"
  | StringVal string
  | StringArr "string list"

record encoded_param =
  epKey :: string
  epVal :: param_value
  epRaw :: raw_data
  epHasEncoded :: bool

text \<open>The copy loop of the array constructors, which stops after \<open>MAX_ARRAY_SIZE\<close> items.\<close>

fun copy_bounded :: "nat \<Rightarrow> 'a list \<Rightarrow> 'a list" where
  "copy_bounded index [] = []"
| "copy_bounded index (item # vals) =
     (if index + 1 > MAX_ARRAY_SIZE then [] else item # copy_bounded (index + 1) vals)"

fun bound_value :: "param_value \<Rightarrow> param_value" where
  "bound_value (UnsignedArr vs) = UnsignedArr (copy_bounded 0 vs)"
| "bound_value (SignedArr vs) = SignedArr (copy_bounded 0 vs)"
| "bound_value (FloatArr32 vs) = FloatArr32 (copy_bounded 0 vs)"
| "bound_value (FloatArr64 vs) = FloatArr64 (copy_bounded 0 vs)"
| "bound_value (StringArr vs) = StringArr (copy_bounded 0 vs)"
| "bound_value v = v"

definition EncodedParam :: "alloc \<Rightarrow> string \<Rightarrow> param_value \<Rightarrow> encoded_param" where
  "EncodedParam al key val =
     \<lparr>epKey = key, epVal = bound_value val, epRaw = RawData_new al, epHasEncoded = False\<rparr>"

definition EncodedParam_GetKey :: "encoded_param \<Rightarrow> string" where
  "EncodedParam_GetKey p = epKey p"

fun value_type_of :: "param_value \<Rightarrow> bool \<times> value_type" where
  "value_type_of (UnsignedVal v) = (False, UINT64)"
| "value_type_of (UnsignedArr vs) = (True, UINT64)"
| "value_type_of (SignedVal v) = (False, INT64)"
| "value_type_of (SignedArr vs) = (True, INT64)"
| "value_type_of (FloatVal (F32 v)) = (False, FLOAT)"
| "value_type_of (FloatVal (F64 v)) = (False, DOUBLE)"
| "value_type_of (FloatArr32 vs) = (True, FLOAT)"
| "value_type_of (FloatArr64 vs) = (True, DOUBLE)"
| "value_type_of (StringVal v) = (False, STRING)"
| "value_type_of (StringArr vs) = (True, STRING)"

definition EncodeKey :: "alloc \<Rightarrow> string \<Rightarrow> raw_data \<Rightarrow> bool \<times> raw_data" where
  "EncodeKey al key rd = StringValueEncoded al key rd"

definition EncodeValueType :: "alloc \<Rightarrow> param_value \<Rightarrow> raw_data \<Rightarrow> bool \<times> raw_data" where
  "EncodeValueType al val rd =
     (case value_type_of val of (isArray, ty) \<Rightarrow> ValueTypeEncoded al isArray ty 0 rd)"

text \<open>The element loop \<open>ret = ret && Encoded(\<dots>)\<close> of the array classes.\<close>

fun encode_items ::
    "('a \<Rightarrow> raw_data \<Rightarrow> bool \<times> raw_data) \<Rightarrow> 'a list \<Rightarrow> bool \<times> raw_data \<Rightarrow> bool \<times> raw_data" where
  "encode_items enc [] (ret, rd) = (ret, rd)"
| "encode_items enc (item # vals) (ret, rd) =
     encode_items enc vals (if ret then enc item rd else (False, rd))"

definition encode_array ::
    "alloc \<Rightarrow> ('a \<Rightarrow> raw_data \<Rightarrow> bool \<times> raw_data) \<Rightarrow> 'a list \<Rightarrow> raw_data \<Rightarrow> bool \<times> raw_data" where
  "encode_array al enc vals rd =
     encode_items enc vals
       (UnsignedVarintEncoded al LENGTH_DELIMITED (word_of_nat (length vals)) rd)"

fun EncodeValue :: "alloc \<Rightarrow> param_value \<Rightarrow> raw_data \<Rightarrow> bool \<times> raw_data" where
  "EncodeValue al (UnsignedVal v) rd = UnsignedVarintEncoded al VARINT v rd"
| "EncodeValue al (UnsignedArr vs) rd = encode_array al (UnsignedVarintEncoded al VARINT) vs rd"
| "EncodeValue al (SignedVal v) rd = SignedVarintEncoded al VARINT v rd"
| "EncodeValue al (SignedArr vs) rd = encode_array al (SignedVarintEncoded al VARINT) vs rd"
| "EncodeValue al (FloatVal v) rd = FloatingNumberEncoded al v rd"
| "EncodeValue al (FloatArr32 vs) rd =
     encode_array al (\<lambda>v. FloatingNumberEncoded al (F32 v)) vs rd"
| "EncodeValue al (FloatArr64 vs) rd =
     encode_array al (\<lambda>v. FloatingNumberEncoded al (F64 v)) vs rd"
| "EncodeValue al (StringVal v) rd = StringValueEncoded al v rd"
| "EncodeValue al (StringArr vs) rd = encode_array al (StringValueEncoded al) vs rd"

definition EncodedParam_Encode :: "alloc \<Rightarrow> encoded_param \<Rightarrow> bool \<times> encoded_param" where
  "EncodedParam_Encode al p =
     (case EncodeKey al (epKey p) (epRaw p) of
        (False, r1) \<Rightarrow> (False, p\<lparr>epRaw := r1, epHasEncoded := False\<rparr>)
      | (True, r1) \<Rightarrow>
          (case EncodeValueType al (epVal p) r1 of
             (False, r2) \<Rightarrow> (False, p\<lparr>epRaw := r2, epHasEncoded := False\<rparr>)
           | (True, r2) \<Rightarrow>
               (case EncodeValue al (epVal p) r2 of
                  (ok, r3) \<Rightarrow> (ok, p\<lparr>epRaw := r3, epHasEncoded := ok\<rparr>))))"

definition EncodedParam_GetRawData :: "alloc \<Rightarrow> encoded_param \<Rightarrow> raw_data \<times> encoded_param" where
  "EncodedParam_GetRawData al p =
     (if \<not> epHasEncoded p
      then (let p' = snd (EncodedParam_Encode al p) in (epRaw p', p'))
      else (epRaw p, p))"

fun EncodedParam_GetDataCodedType :: "param_value \<Rightarrow> data_coded_type" where
  "EncodedParam_GetDataCodedType (UnsignedVal v) = UNSIGNED_VARINT"
| "EncodedParam_GetDataCodedType (UnsignedArr vs) = UNSIGNED_VARINT_ARRAY"
| "EncodedParam_GetDataCodedType (SignedVal v) = SIGNED_VARINT"
| "EncodedParam_GetDataCodedType (SignedArr vs) = SIGNED_VARINT_ARRAY"
| "EncodedParam_GetDataCodedType (FloatVal v) = FLOATING"
| "EncodedParam_GetDataCodedType (FloatArr32 vs) = FLOATING_ARRAY"
| "EncodedParam_GetDataCodedType (FloatArr64 vs) = FLOATING_ARRAY"
| "EncodedParam_GetDataCodedType (StringVal v) = DSTRING"
| "EncodedParam_GetDataCodedType (StringArr vs) = DSTRING_ARRAY"

text \<open>
  The \<open>As\<dots>\<close> accessors: \<open>None\<close> is the \<open>return false\<close> of the base class. The vector accessors of
  the number arrays append to \<open>dest\<close>, the one of the string array assigns.
\<close>

fun EncodedParam_AsUint64 :: "param_value \<Rightarrow> u64 option" where
  "EncodedParam_AsUint64 (UnsignedVal v) = Some v"
| "EncodedParam_AsUint64 v = None"

fun EncodedParam_AsInt64 :: "param_value \<Rightarrow> i64 option" where
  "EncodedParam_AsInt64 (SignedVal v) = Some v"
| "EncodedParam_AsInt64 v = None"

fun EncodedParam_AsDouble :: "param_value \<Rightarrow> u64 option" where
  "EncodedParam_AsDouble (FloatVal v) = Some (double_view v)"
| "EncodedParam_AsDouble v = None"

fun EncodedParam_AsString :: "param_value \<Rightarrow> string option" where
  "EncodedParam_AsString (UnsignedVal v) = Some (show_nat (unat v))"
| "EncodedParam_AsString (SignedVal v) = Some (show_int (sint v))"
| "EncodedParam_AsString (FloatVal v) = Some (to_string_double (double_view v))"
| "EncodedParam_AsString (StringVal v) = Some v"
| "EncodedParam_AsString v = None"

fun EncodedParam_AsUint64Vec :: "param_value \<Rightarrow> u64 list \<Rightarrow> u64 list option" where
  "EncodedParam_AsUint64Vec (UnsignedArr vs) dest = Some (dest @ vs)"
| "EncodedParam_AsUint64Vec v dest = None"

fun EncodedParam_AsInt64Vec :: "param_value \<Rightarrow> i64 list \<Rightarrow> i64 list option" where
  "EncodedParam_AsInt64Vec (SignedArr vs) dest = Some (dest @ vs)"
| "EncodedParam_AsInt64Vec v dest = None"

fun EncodedParam_AsDoubleVec :: "param_value \<Rightarrow> u64 list \<Rightarrow> u64 list option" where
  "EncodedParam_AsDoubleVec (FloatArr32 vs) dest = Some (dest @ map float_to_double vs)"
| "EncodedParam_AsDoubleVec (FloatArr64 vs) dest = Some (dest @ vs)"
| "EncodedParam_AsDoubleVec v dest = None"

fun EncodedParam_AsStringVec :: "param_value \<Rightarrow> string list \<Rightarrow> string list option" where
  "EncodedParam_AsStringVec (StringArr vs) dest = Some vs"
| "EncodedParam_AsStringVec v dest = None"

section \<open>The bytes of a parameter\<close>

fun value_bytes :: "param_value \<Rightarrow> byte list" where
  "value_bytes (UnsignedVal v) = varint_bytes VARINT v"
| "value_bytes (UnsignedArr vs) = array_bytes (varint_bytes VARINT) vs"
| "value_bytes (SignedVal v) = signed_bytes VARINT v"
| "value_bytes (SignedArr vs) = array_bytes (signed_bytes VARINT) vs"
| "value_bytes (FloatVal v) = float_bytes v"
| "value_bytes (FloatArr32 vs) = array_bytes float_bytes (map F32 vs)"
| "value_bytes (FloatArr64 vs) = array_bytes float_bytes (map F64 vs)"
| "value_bytes (StringVal v) = string_bytes v"
| "value_bytes (StringArr vs) = array_bytes string_bytes vs"

definition param_bytes :: "string \<Rightarrow> param_value \<Rightarrow> byte list" where
  "param_bytes key val =
     string_bytes key @ type_bytes (fst (value_type_of val)) (snd (value_type_of val)) @
     value_bytes val"

text \<open>Values whose arrays respect the bound the constructors establish.\<close>

fun value_bounded :: "param_value \<Rightarrow> bool" where
  "value_bounded (UnsignedArr vs) \<longleftrightarrow> length vs \<le> MAX_ARRAY_SIZE"
| "value_bounded (SignedArr vs) \<longleftrightarrow> length vs \<le> MAX_ARRAY_SIZE"
| "value_bounded (FloatArr32 vs) \<longleftrightarrow> length vs \<le> MAX_ARRAY_SIZE"
| "value_bounded (FloatArr64 vs) \<longleftrightarrow> length vs \<le> MAX_ARRAY_SIZE"
| "value_bounded (StringArr vs) \<longleftrightarrow> length vs \<le> MAX_ARRAY_SIZE"
| "value_bounded v \<longleftrightarrow> True"

section \<open>Lemmas\<close>

lemma copy_bounded_take: "copy_bounded i vs = take (MAX_ARRAY_SIZE - i) vs"
  by (induction i vs rule: copy_bounded.induct) (auto simp: take_Cons' not_less)

lemma bound_value_bounded [simp]: "value_bounded (bound_value v)"
  by (cases v) (auto simp: copy_bounded_take)

lemma bound_value_id: "value_bounded v \<Longrightarrow> bound_value v = v"
  by (cases v) (auto simp: copy_bounded_take)

lemma encode_items_unfold:
  "encode_items enc vs (ret, rd) =
     (if ret then foldr (\<lambda>v f. and_then (enc v) f) vs (\<lambda>rd. (True, rd)) rd else (False, rd))"
proof (induction vs arbitrary: ret rd)
  case (Cons v vs)
  show ?case
    by (cases "enc v rd")
      (auto simp: Cons and_then_def [where rd = rd] split: bool.splits)
qed simp

lemma emits_items:
  assumes "\<And>v. emits al (enc v) (bs v)"
  shows "emits al (foldr (\<lambda>v f. and_then (enc v) f) vs (\<lambda>rd. (True, rd))) (concat (map bs vs))"
  by (induction vs) (auto intro!: raw_intros assms)

lemma emits_encode_array:
  assumes "alloc_sized al" "\<And>v. emits al (enc v) (bs v)"
  shows "emits al (encode_array al enc vs) (array_bytes bs vs)"
proof -
  have "encode_array al enc vs =
      and_then (UnsignedVarintEncoded al LENGTH_DELIMITED (word_of_nat (length vs)))
        (foldr (\<lambda>v f. and_then (enc v) f) vs (\<lambda>rd. (True, rd)))"
    by (auto simp: fun_eq_iff encode_array_def and_then_def encode_items_unfold
        split: prod.splits bool.splits)
  moreover have "emits al \<dots> (array_bytes bs vs)"
    unfolding array_bytes_def using assms by (intro raw_intros emits_items)
  ultimately show ?thesis by simp
qed

lemma array_bytes_map: "array_bytes enc (map f vs) = array_bytes (\<lambda>v. enc (f v)) vs"
  by (simp add: array_bytes_def comp_def)

lemma emits_EncodeValue:
  assumes "alloc_sized al"
  shows "emits al (EncodeValue al v) (value_bytes v)"
  by (cases v)
    (auto simp: EncodeValue.simps [abs_def] array_bytes_map assms
      intro!: raw_intros emits_encode_array)

lemma emits_EncodeValueType:
  assumes "alloc_sized al"
  shows "emits al (EncodeValueType al v)
    (type_bytes (fst (value_type_of v)) (snd (value_type_of v)))"
  unfolding EncodeValueType_def [abs_def] case_prod_beta using assms by (intro raw_intros)

text \<open>What \<open>Encode\<close> as a whole writes to the buffer of the parameter.\<close>

definition param_writer :: "alloc \<Rightarrow> string \<Rightarrow> param_value \<Rightarrow> raw_data \<Rightarrow> bool \<times> raw_data" where
  "param_writer al key val =
     and_then (EncodeKey al key) (and_then (EncodeValueType al val) (EncodeValue al val))"

lemma emits_param_writer:
  "alloc_sized al \<Longrightarrow> emits al (param_writer al key val) (param_bytes key val)"
  unfolding param_writer_def param_bytes_def EncodeKey_def [abs_def]
  by (intro emits_and_then emits_EncodeValue emits_EncodeValueType emits_StringValueEncoded)

lemma EncodedParam_Encode_writer:
  "EncodedParam_Encode al p =
     (case param_writer al (epKey p) (epVal p) (epRaw p) of
        (ok, rd) \<Rightarrow> (ok, p\<lparr>epRaw := rd, epHasEncoded := ok\<rparr>))"
  by (auto simp: EncodedParam_Encode_def param_writer_def and_then_def
      split: prod.splits bool.splits)

lemma Encode_keeps [simp]:
  "epKey (snd (EncodedParam_Encode al p)) = epKey p"
  "epVal (snd (EncodedParam_Encode al p)) = epVal p"
  "epHasEncoded (snd (EncodedParam_Encode al p)) = fst (EncodedParam_Encode al p)"
  by (simp_all add: EncodedParam_Encode_writer split: prod.splits)

lemma Encode_appends:
  assumes "alloc_sized al" "raw_live (epRaw p)" "EncodedParam_Encode al p = (ok, p')"
  shows "raw_live (epRaw p')" "alloc_total al \<Longrightarrow> ok"
    "\<exists>ys. prefix ys (param_bytes (epKey p) (epVal p)) \<and>
       rd_bytes (epRaw p') = rd_bytes (epRaw p) @ ys"
    "ok \<Longrightarrow> rd_bytes (epRaw p') = rd_bytes (epRaw p) @ param_bytes (epKey p) (epVal p)"
proof -
  from assms(3) have w: "param_writer al (epKey p) (epVal p) (epRaw p) = (ok, epRaw p')"
    by (auto simp: EncodedParam_Encode_writer split: prod.splits)
  note e = emits_param_writer [OF assms(1), of "epKey p" "epVal p", unfolded emits_def,
      rule_format, OF assms(2) w]
  show "raw_live (epRaw p')" "alloc_total al \<Longrightarrow> ok"
    "\<exists>ys. prefix ys (param_bytes (epKey p) (epVal p)) \<and>
       rd_bytes (epRaw p') = rd_bytes (epRaw p) @ ys"
    "ok \<Longrightarrow> rd_bytes (epRaw p') = rd_bytes (epRaw p) @ param_bytes (epKey p) (epVal p)"
    using e by auto
qed

lemma GetRawData_encoded: "epHasEncoded p \<Longrightarrow> EncodedParam_GetRawData al p = (epRaw p, p)"
  by (simp add: EncodedParam_GetRawData_def)

lemma Encode_fresh:
  assumes "alloc_sized al" "alloc_total al"
  obtains p where "EncodedParam_Encode al (EncodedParam al key val) = (True, p)"
    "epKey p = key" "epVal p = bound_value val" "epHasEncoded p" "raw_live (epRaw p)"
    "rd_bytes (epRaw p) = param_bytes key (bound_value val)"
proof -
  obtain ok p where e: "EncodedParam_Encode al (EncodedParam al key val) = (ok, p)"
    by (cases "EncodedParam_Encode al (EncodedParam al key val)")
  have live: "raw_live (epRaw (EncodedParam al key val))"
    "rd_bytes (epRaw (EncodedParam al key val)) = []"
    using RawData_new_live [OF assms] by (simp_all add: EncodedParam_def)
  have ok: ok using Encode_appends(2) [OF assms(1) live(1) e] assms(2) by simp
  show thesis
  proof
    show "EncodedParam_Encode al (EncodedParam al key val) = (True, p)" using e ok by simp
    show "epKey p = key" "epVal p = bound_value val" "epHasEncoded p"
      using Encode_keeps [of al "EncodedParam al key val"] ok
      unfolding e by (simp_all add: EncodedParam_def)
    show "raw_live (epRaw p)" by (rule Encode_appends(1) [OF assms(1) live(1) e])
    show "rd_bytes (epRaw p) = param_bytes key (bound_value val)"
      using Encode_appends(4) [OF assms(1) live(1) e ok] live(2) by (simp add: EncodedParam_def)
  qed
qed

end
