(* ===== verification/Decoded_Event.thy ===== *)
theory Decoded_Event
  imports Encoded_Param
begin

text \<open>
  Events read back from their raw form: the parameter classes
  (base/event_raw/decoded/decoded_param.cpp), the block parser \<open>DecodedEvent\<close> and its JSON text
  (base/event_raw/decoded/decoded_event.cpp and its header). Reading outside a buffer and
  shifting too far are outcomes of the model, so that the lemmas can exclude the first for
  every input.
\<close>

section \<open>Decoded parameters\<close>

datatype decoded_value =
    DUnsigned u64
  | DUnsignedArr "u64 list"
  | DSigned i64
  | DSignedArr "i64 list"
  | DFloat u64
  | DFloatArr "u64 list"
  | DString string
  | DStringArr "string list"

record decoded_param =
  dpKey :: string
  dpVal :: decoded_value
  dpPos :: nat

fun DecodedParam_GetDataCodedType :: "decoded_value \<Rightarrow> data_coded_type" where
  "DecodedParam_GetDataCodedType (DUnsigned v) = UNSIGNED_VARINT"
| "DecodedParam_GetDataCodedType (DUnsignedArr vs) = UNSIGNED_VARINT_ARRAY"
| "DecodedParam_GetDataCodedType (DSigned v) = SIGNED_VARINT"
| "DecodedParam_GetDataCodedType (DSignedArr vs) = SIGNED_VARINT_ARRAY"
| "DecodedParam_GetDataCodedType (DFloat v) = FLOATING"
| "DecodedParam_GetDataCodedType (DFloatArr vs) = FLOATING_ARRAY"
| "DecodedParam_GetDataCodedType (DString v) = DSTRING"
| "DecodedParam_GetDataCodedType (DStringArr vs) = DSTRING_ARRAY"

fun map_dec :: "('a \<Rightarrow> 'b) \<Rightarrow> 'a dec \<Rightarrow> 'b dec" where
  "map_dec f (Done v p) = Done (f v) p"
| "map_dec f (Failed p) = Failed p"
| "map_dec f (Undef u) = Undef u"

text \<open>\<open>DecodeValue\<close> of the eight classes; \<open>val_\<close> of a fresh string parameter is empty.\<close>

fun DecodeValue ::
    "data_coded_type \<Rightarrow> byte list option \<Rightarrow> nat \<Rightarrow> nat \<Rightarrow> decoded_value dec" where
  "DecodeValue UNSIGNED_VARINT raw maxLen pos =
     map_dec DUnsigned (UnsignedVarintDecoded raw maxLen pos)"
| "DecodeValue UNSIGNED_VARINT_ARRAY raw maxLen pos =
     map_dec DUnsignedArr (decode_array UnsignedVarintDecoded raw maxLen pos)"
| "DecodeValue SIGNED_VARINT raw maxLen pos =
     map_dec DSigned (SignedVarintDecoded raw maxLen pos)"
| "DecodeValue SIGNED_VARINT_ARRAY raw maxLen pos =
     map_dec DSignedArr (decode_array SignedVarintDecoded raw maxLen pos)"
| "DecodeValue FLOATING raw maxLen pos =
     map_dec DFloat (FloatingNumberDecoded raw maxLen pos)"
| "DecodeValue FLOATING_ARRAY raw maxLen pos =
     map_dec DFloatArr (decode_array FloatingNumberDecoded raw maxLen pos)"
| "DecodeValue DSTRING raw maxLen pos =
     map_dec DString (StringValueDecoded raw maxLen pos [])"
| "DecodeValue DSTRING_ARRAY raw maxLen pos =
     map_dec DStringArr
       (decode_array (\<lambda>raw maxLen pos. StringValueDecoded raw maxLen pos []) raw maxLen pos)"

fun DecodedParam_AsUint64 :: "decoded_value \<Rightarrow> u64 option" where
  "DecodedParam_AsUint64 (DUnsigned v) = Some v"
| "DecodedParam_AsUint64 v = None"

fun DecodedParam_AsInt64 :: "decoded_value \<Rightarrow> i64 option" where
  "DecodedParam_AsInt64 (DSigned v) = Some v"
| "DecodedParam_AsInt64 v = None"

fun DecodedParam_AsDouble :: "decoded_value \<Rightarrow> u64 option" where
  "DecodedParam_AsDouble (DFloat v) = Some v"
| "DecodedParam_AsDouble v = None"

fun DecodedParam_AsString :: "decoded_value \<Rightarrow> string option" where
  "DecodedParam_AsString (DString v) = Some v"
| "DecodedParam_AsString v = None"

fun DecodedParam_AsUint64Vec :: "decoded_value \<Rightarrow> u64 list option" where
  "DecodedParam_AsUint64Vec (DUnsignedArr vs) = Some vs"
| "DecodedParam_AsUint64Vec v = None"

fun DecodedParam_AsInt64Vec :: "decoded_value \<Rightarrow> i64 list option" where
  "DecodedParam_AsInt64Vec (DSignedArr vs) = Some vs"
| "DecodedParam_AsInt64Vec v = None"

fun DecodedParam_AsDoubleVec :: "decoded_value \<Rightarrow> u64 list option" where
  "DecodedParam_AsDoubleVec (DFloatArr vs) = Some vs"
| "DecodedParam_AsDoubleVec v = None"

fun DecodedParam_AsStringVec :: "decoded_value \<Rightarrow> string list option" where
  "DecodedParam_AsStringVec (DStringArr vs) = Some vs"
| "DecodedParam_AsStringVec v = None"

section \<open>The block parser\<close>

definition MAX_BLOCK_SIZE :: nat where "MAX_BLOCK_SIZE = 384 * 1024"

definition MAX_PARAM_CNT :: nat where "MAX_PARAM_CNT = 128 + 10"

definition zero_header :: hisysevent_header where
  "zero_header = \<lparr>hdDomain = replicate (MAX_DOMAIN_LENGTH + 1) 0,
     hdName = replicate (MAX_EVENT_NAME_LENGTH + 1) 0, hdTimestamp = 0, hdTimeZone = 0,
     hdUid = 0, hdPid = 0, hdTid = 0, hdId = 0, hdType = 0, hdIsTraceOpened = 0, hdLog = 0\<rparr>"

definition zero_trace :: trace_info where
  "zero_trace = \<lparr>tiTraceFlag = 0, tiTraceId = 0, tiSpanId = 0, tiPSpanId = 0\<rparr>"

record decoded_event =
  deRaw :: "byte list option"
  dePos :: nat
  deHeader :: hisysevent_header
  deTrace :: trace_info
  deValid :: bool
  deParams :: "decoded_param list"

definition empty_event :: decoded_event where
  "empty_event = \<lparr>deRaw = None, dePos = 0, deHeader = zero_header, deTrace = zero_trace,
     deValid = False, deParams = []\<rparr>"

text \<open>The outcome of a parsing step: undefined behaviour, or the object it leaves behind.\<close>

type_synonym parsed = "undefined_behaviour + decoded_event"

definition CreateStringTypeDecodedParam :: "bool \<Rightarrow> data_coded_type" where
  "CreateStringTypeDecodedParam isArray = (if isArray then DSTRING_ARRAY else DSTRING)"

definition CreateFloatingNumTypeDecodedParam :: "bool \<Rightarrow> data_coded_type" where
  "CreateFloatingNumTypeDecodedParam isArray = (if isArray then FLOATING_ARRAY else FLOATING)"

definition CreateUnsignedVarintTypeDecodedParam :: "bool \<Rightarrow> data_coded_type" where
  "CreateUnsignedVarintTypeDecodedParam isArray =
     (if isArray then UNSIGNED_VARINT_ARRAY else UNSIGNED_VARINT)"

definition CreateSignedVarintTypeDecodedParam :: "bool \<Rightarrow> data_coded_type" where
  "CreateSignedVarintTypeDecodedParam isArray =
     (if isArray then SIGNED_VARINT_ARRAY else SIGNED_VARINT)"

definition value_class :: "param_value_type \<Rightarrow> data_coded_type option" where
  "value_class vt =
     (let isArray = (pvIsArray vt = 1); code = unat (pvValueType vt) in
      if code = value_type_code STRING then Some (CreateStringTypeDecodedParam isArray)
      else if code = value_type_code FLOAT \<or> code = value_type_code DOUBLE
      then Some (CreateFloatingNumTypeDecodedParam isArray)
      else if code = value_type_code UINT8 \<or> code = value_type_code UINT16 \<or>
              code = value_type_code UINT32 \<or> code = value_type_code UINT64
      then Some (CreateUnsignedVarintTypeDecodedParam isArray)
      else if code = value_type_code BOOL \<or> code = value_type_code INT8 \<or>
              code = value_type_code INT16 \<or> code = value_type_code INT32 \<or>
              code = value_type_code INT64
      then Some (CreateSignedVarintTypeDecodedParam isArray)
      else None)"

text \<open>
  \<open>ParseCustomizedParam\<close>: the key and the class of the parameter object, \<open>None\<close> for the null
  pointer of an unknown value type; the position moves with the reads, also when one fails.
\<close>

definition ParseCustomizedParam ::
    "byte list option \<Rightarrow> nat \<Rightarrow> nat \<Rightarrow> (string \<times> data_coded_type) option dec" where
  "ParseCustomizedParam raw maxLen pos =
     (case StringValueDecoded raw maxLen pos [] of
        Failed p \<Rightarrow> Failed p
      | Undef u \<Rightarrow> Undef u
      | Done key p \<Rightarrow>
          (case ValueTypeDecoded raw maxLen p of
             Failed q \<Rightarrow> Failed q
           | Undef u \<Rightarrow> Undef u
           | Done vt q \<Rightarrow> Done (map_option (Pair key) (value_class vt)) q))"

fun params_loop :: "nat \<Rightarrow> nat \<Rightarrow> decoded_event \<Rightarrow> parsed" where
  "params_loop maxLen 0 ev = Inr ev"
| "params_loop maxLen (Suc paramCnt) ev =
     (case ParseCustomizedParam (deRaw ev) maxLen (dePos ev) of
        Undef u \<Rightarrow> Inl u
      | Failed p \<Rightarrow> Inr (ev\<lparr>dePos := p, deValid := False\<rparr>)
      | Done None p \<Rightarrow> Inr (ev\<lparr>dePos := p, deValid := False\<rparr>)
      | Done (Some (key, ct)) p \<Rightarrow>
          (case DecodeValue ct (deRaw ev) maxLen p of
             Undef u \<Rightarrow> Inl u
           | Failed q \<Rightarrow> Inr (ev\<lparr>dePos := p, deValid := False\<rparr>)
           | Done v q \<Rightarrow>
               params_loop maxLen paramCnt
                 (ev\<lparr>dePos := q,
                     deParams := deParams ev @ [\<lparr>dpKey = key, dpVal = v, dpPos = q\<rparr>]\<rparr>)))"

definition raw_read :: "decoded_event \<Rightarrow> nat \<Rightarrow> byte list option" where
  "raw_read ev n =
     (case deRaw ev of None \<Rightarrow> None | Some raw \<Rightarrow> read_bytes raw (dePos ev) n)"

definition ParseCustomizedParams :: "nat \<Rightarrow> decoded_event \<Rightarrow> parsed" where
  "ParseCustomizedParams maxLen ev =
     (if dePos ev + 4 > maxLen then Inr (ev\<lparr>deValid := False\<rparr>)
      else case raw_read ev 4 of
             None \<Rightarrow> Inl OutOfBoundsRead
           | Some bs \<Rightarrow>
               (let paramCnt = size_of_i32 (u32_of_bytes bs) in
                if paramCnt > MAX_PARAM_CNT then Inr (ev\<lparr>deValid := False\<rparr>)
                else params_loop maxLen paramCnt (ev\<lparr>dePos := dePos ev + 4\<rparr>)))"

definition ParseHeader :: "nat \<Rightarrow> decoded_event \<Rightarrow> parsed" where
  "ParseHeader maxLen ev =
     (if dePos ev + SIZEOF_HEADER > maxLen then Inr (ev\<lparr>deValid := False\<rparr>)
      else case raw_read ev SIZEOF_HEADER of
             None \<Rightarrow> Inl OutOfBoundsRead
           | Some bs \<Rightarrow>
               (let ev1 = ev\<lparr>deHeader := header_of_bytes bs, dePos := dePos ev + SIZEOF_HEADER\<rparr> in
                if hdIsTraceOpened (deHeader ev1) = 1 then
                  (if dePos ev1 + SIZEOF_TRACE_INFO > maxLen then Inr (ev1\<lparr>deValid := False\<rparr>)
                   else case raw_read ev1 SIZEOF_TRACE_INFO of
                          None \<Rightarrow> Inl OutOfBoundsRead
                        | Some tbs \<Rightarrow>
                            Inr (ev1\<lparr>deTrace := trace_of_bytes tbs,
                                     dePos := dePos ev1 + SIZEOF_TRACE_INFO\<rparr>))
                else Inr ev1))"

definition Parse :: "decoded_event \<Rightarrow> parsed" where
  "Parse ev =
     (if deRaw ev = None then Inr (ev\<lparr>deValid := False\<rparr>)
      else let ev0 = ev\<lparr>deValid := True, dePos := 0\<rparr> in
           case raw_read ev0 4 of
             None \<Rightarrow> Inl OutOfBoundsRead
           | Some bs \<Rightarrow>
               (let blockSize = size_of_i32 (u32_of_bytes bs) in
                case ParseHeader blockSize (ev0\<lparr>dePos := 4\<rparr>) of
                  Inl u \<Rightarrow> Inl u
                | Inr ev1 \<Rightarrow> ParseCustomizedParams blockSize ev1))"

text \<open>
  The constructor: \<open>data\<close> is the null pointer or the readable bytes from it on, of which the
  caller claims \<open>len\<close>.
\<close>

definition DecodedEvent :: "alloc \<Rightarrow> byte list option \<Rightarrow> nat \<Rightarrow> parsed" where
  "DecodedEvent al data len =
     (case data of
        None \<Rightarrow> Inr empty_event
      | Some src \<Rightarrow>
          if len < 4 then Inr empty_event
          else case read_bytes src 0 4 of
                 None \<Rightarrow> Inl OutOfBoundsRead
               | Some bs \<Rightarrow>
                   (let blockSize = size_of_i32 (u32_of_bytes bs) in
                    if blockSize \<noteq> len \<or> blockSize < GetValidDataMinimumByteCount \<or>
                       blockSize > MAX_BLOCK_SIZE
                    then Inr empty_event
                    else case al blockSize of
                           None \<Rightarrow> Inr empty_event
                         | Some buf \<Rightarrow>
                             (case read_bytes src 0 blockSize of
                                None \<Rightarrow> Inl OutOfBoundsRead
                              | Some copied \<Rightarrow>
                                  (case memcpy_s buf 0 blockSize copied of
                                     (buf', False) \<Rightarrow> Inr empty_event
                                   | (buf', True) \<Rightarrow> Parse (empty_event\<lparr>deRaw := Some buf'\<rparr>)))))"

definition DecodedEvent_GetRawData :: "alloc \<Rightarrow> decoded_event \<Rightarrow> raw_data" where
  "DecodedEvent_GetRawData al ev = RawData_from al (deRaw ev) (dePos ev)"

definition DecodedEvent_IsValid :: "decoded_event \<Rightarrow> bool" where
  "DecodedEvent_IsValid ev = deValid ev"

section \<open>The JSON text\<close>

definition quoted :: "string \<Rightarrow> string" where
  "quoted s = [CHR 0x22] @ s @ [CHR 0x22]"

definition AppendValue_str :: "string \<Rightarrow> string \<Rightarrow> string_stream \<Rightarrow> string_stream" where
  "AppendValue_str key val ss = ss_put (quoted key @ '':'' @ quoted val @ '','') ss"

definition AppendValue_num :: "string \<Rightarrow> string \<Rightarrow> string_stream \<Rightarrow> string_stream" where
  "AppendValue_num key val ss = ss_put (quoted key @ '':'' @ val @ '','') ss"

text \<open>\<open>AppendArrayValue\<close>: every item is followed by a comma, the last of which is overwritten.\<close>

definition AppendArrayValue :: "string \<Rightarrow> string list \<Rightarrow> string_stream \<Rightarrow> string_stream" where
  "AppendArrayValue key items ss =
     (let ss1 = ss_put (quoted key @ '':'' @ ''['') ss;
          ss2 = fold (\<lambda>item. ss_put (item @ '','')) items ss1;
          ss3 = (if ss_tellp_nonzero ss2 \<and> items \<noteq> [] then ss_seekp_back ss2 else ss2)
      in ss_put ''],'' ss3)"

definition TransUInt64ToFixedLengthStr :: "u64 \<Rightarrow> string" where
  "TransUInt64ToFixedLengthStr src =
     (let s = show_nat (unat src) in
      if length s \<ge> 20 then s else replicate (20 - length s) (CHR ''0'') @ s)"

definition TransNumToHexStr :: "'a :: len word \<Rightarrow> string" where
  "TransNumToHexStr num = show_hex (unat num)"

definition AppendBaseInfo :: "alloc \<Rightarrow> decoded_event \<Rightarrow> string_stream \<Rightarrow> string_stream" where
  "AppendBaseInfo al ev ss =
     (case al (MAX_DOMAIN_LENGTH + 1) of
        None \<Rightarrow> ss
      | Some dbuf \<Rightarrow>
          (let h = deHeader ev; t = deTrace ev;
               domain = c_str (take MAX_DOMAIN_LENGTH (hdDomain h));
               ss1 = AppendValue_str ''domain_'' domain ss
           in case al (MAX_EVENT_NAME_LENGTH + 1) of
                None \<Rightarrow> ss1
              | Some nbuf \<Rightarrow>
                  (let nm = c_str (take MAX_EVENT_NAME_LENGTH (hdName h));
                       ss2 = AppendValue_str ''name_'' nm ss1;
                       ss3 = AppendValue_num ''type_'' (show_nat (unat (hdType h) + 1)) ss2;
                       ss4 = AppendValue_num ''time_'' (show_nat (unat (hdTimestamp h))) ss3;
                       ss5 = AppendValue_str ''tz_'' (ParseTimeZone_val (hdTimeZone h)) ss4;
                       ss6 = AppendValue_num ''pid_'' (show_nat (unat (hdPid h))) ss5;
                       ss7 = AppendValue_num ''tid_'' (show_nat (unat (hdTid h))) ss6;
                       ss8 = AppendValue_num ''uid_'' (show_nat (unat (hdUid h))) ss7;
                       ss9 = AppendValue_num ''log_'' (show_nat (unat (hdLog h))) ss8;
                       ss10 = AppendValue_str ''id_'' (TransUInt64ToFixedLengthStr (hdId h)) ss9
                   in if hdIsTraceOpened h = 1
                      then AppendValue_str ''pspanid_'' (TransNumToHexStr (tiPSpanId t))
                             (AppendValue_str ''spanid_'' (TransNumToHexStr (tiSpanId t))
                               (AppendValue_str ''traceid_'' (TransNumToHexStr (tiTraceId t))
                                 (AppendValue_num ''trace_flag_''
                                   (show_nat (unat (tiTraceFlag t))) ss10)))
                      else ss10)))"

fun AppendCustomizedParam :: "decoded_param \<Rightarrow> string_stream \<Rightarrow> string_stream" where
  "AppendCustomizedParam p ss =
     (case dpVal p of
        DUnsigned v \<Rightarrow> AppendValue_num (dpKey p) (show_nat (unat v)) ss
      | DSigned v \<Rightarrow> AppendValue_num (dpKey p) (show_int (sint v)) ss
      | DFloat v \<Rightarrow> AppendValue_num (dpKey p) (stream_double v) ss
      | DString v \<Rightarrow> AppendValue_str (dpKey p) v ss
      | _ \<Rightarrow> ss)"

fun AppendCustomizedArrayParam :: "decoded_param \<Rightarrow> string_stream \<Rightarrow> string_stream" where
  "AppendCustomizedArrayParam p ss =
     (case dpVal p of
        DUnsignedArr vs \<Rightarrow> AppendArrayValue (dpKey p) (map (\<lambda>v. show_nat (unat v)) vs) ss
      | DSignedArr vs \<Rightarrow> AppendArrayValue (dpKey p) (map (\<lambda>v. show_int (sint v)) vs) ss
      | DFloatArr vs \<Rightarrow> AppendArrayValue (dpKey p) (map stream_double vs) ss
      | DStringArr vs \<Rightarrow> AppendArrayValue (dpKey p) (map quoted vs) ss
      | _ \<Rightarrow> ss)"

definition AppendCustomizedParams :: "decoded_event \<Rightarrow> string_stream \<Rightarrow> string_stream" where
  "AppendCustomizedParams ev ss =
     fold (\<lambda>p ss.
       if DecodedParam_GetDataCodedType (dpVal p) \<in>
            {UNSIGNED_VARINT, SIGNED_VARINT, FLOATING, DSTRING}
       then AppendCustomizedParam p ss else AppendCustomizedArrayParam p ss) (deParams ev) ss"

definition AsJsonStr :: "alloc \<Rightarrow> decoded_event \<Rightarrow> string" where
  "AsJsonStr al ev =
     (let ss1 = ss_put ''{'' ss_empty;
          ss2 = AppendBaseInfo al ev ss1;
          ss3 = AppendCustomizedParams ev ss2;
          ss4 = (if ss_tellp_nonzero ss3 then ss_seekp_back ss3 else ss3)
      in ssBuf (ss_put ''}'' ss4))"

section \<open>Staying inside the block\<close>

fun decoded_bounded :: "decoded_value \<Rightarrow> bool" where
  "decoded_bounded (DUnsignedArr vs) \<longleftrightarrow> length vs \<le> MAX_ARRAY_SIZE"
| "decoded_bounded (DSignedArr vs) \<longleftrightarrow> length vs \<le> MAX_ARRAY_SIZE"
| "decoded_bounded (DFloatArr vs) \<longleftrightarrow> length vs \<le> MAX_ARRAY_SIZE"
| "decoded_bounded (DStringArr vs) \<longleftrightarrow> length vs \<le> MAX_ARRAY_SIZE"
| "decoded_bounded v \<longleftrightarrow> True"

lemma map_dec_safe [simp]: "dec_safe maxLen pos (map_dec f d) = dec_safe maxLen pos d"
  by (cases d) simp_all

lemma map_dec_Done: "map_dec f d = Done v p \<longleftrightarrow> (\<exists>w. d = Done w p \<and> v = f w)"
  by (cases d) auto

lemma DecodeValue_safe:
  "readable raw maxLen \<Longrightarrow> dec_safe maxLen pos (DecodeValue ct (Some raw) maxLen pos)"
  by (cases ct)
    (simp_all add: UnsignedVarintDecoded_safe SignedVarintDecoded_safe FloatingNumberDecoded_safe
      StringValueDecoded_safe uv.array_inside sv.array_inside fv.array_inside dv.array_inside)

lemma DecodeValue_bounded:
  "readable raw maxLen \<Longrightarrow> DecodeValue ct (Some raw) maxLen pos = Done v p \<Longrightarrow> decoded_bounded v"
  by (cases ct)
    (auto simp: map_dec_Done
      dest: uv.array_bounded sv.array_bounded fv.array_bounded dv.array_bounded)

lemma ParseCustomizedParam_safe:
  assumes "readable raw maxLen"
  shows "dec_safe maxLen pos (ParseCustomizedParam (Some raw) maxLen pos)"
proof (cases "StringValueDecoded (Some raw) maxLen pos []")
  case (Done key p)
  with StringValueDecoded_safe [OF assms, of pos "[]"] have p: "pos < p" "p \<le> maxLen" by auto
  have "dec_safe maxLen p (ValueTypeDecoded (Some raw) maxLen p)"
    by (rule ValueTypeDecoded_safe [OF assms])
  with Done p show ?thesis
    by (auto simp: ParseCustomizedParam_def split: dec.splits)
qed (use StringValueDecoded_safe [OF assms, of pos "[]"] in
  \<open>auto simp: ParseCustomizedParam_def\<close>)

text \<open>The parser works inside a block of exactly \<open>maxLen\<close> bytes.\<close>

definition event_inside :: "nat \<Rightarrow> decoded_event \<Rightarrow> bool" where
  "event_inside maxLen ev \<longleftrightarrow>
     (\<exists>raw. deRaw ev = Some raw \<and> length raw = maxLen) \<and> maxLen < 2 ^ 63 \<and> dePos ev \<le> maxLen \<and>
     list_all (\<lambda>p. dpPos p \<le> maxLen \<and> decoded_bounded (dpVal p)) (deParams ev)"

lemma params_loop_inside:
  assumes "event_inside maxLen ev"
  shows "case params_loop maxLen cnt ev of
      Inl u \<Rightarrow> u = ShiftTooLarge
    | Inr ev' \<Rightarrow> event_inside maxLen ev' \<and> deRaw ev' = deRaw ev \<and>
        deHeader ev' = deHeader ev \<and> deTrace ev' = deTrace ev \<and>
        prefix (deParams ev) (deParams ev') \<and>
        length (deParams ev') \<le> length (deParams ev) + cnt \<and>
        (deValid ev' \<longrightarrow> deValid ev \<and> length (deParams ev') = length (deParams ev) + cnt)"
  using assms
proof (induction cnt arbitrary: ev)
  case 0
  then show ?case by simp
next
  case (Suc cnt)
  note 2 = Suc
  from 2(2) obtain raw where raw: "deRaw ev = Some raw" "readable raw maxLen"
    by (auto simp: event_inside_def readable_def)
  have safe: "dec_safe maxLen (dePos ev) (ParseCustomizedParam (Some raw) maxLen (dePos ev))"
    by (rule ParseCustomizedParam_safe [OF raw(2)])
  show ?case
  proof (cases "ParseCustomizedParam (Some raw) maxLen (dePos ev)")
    case (Done kc p)
    with safe have p: "p \<le> maxLen" by simp
    show ?thesis
    proof (cases kc)
      case None
      with Done raw p 2(2) show ?thesis by (auto simp: event_inside_def)
    next
      case (Some kct)
      obtain key ct where kct: "kct = (key, ct)" by (cases kct)
      have val: "dec_safe maxLen p (DecodeValue ct (Some raw) maxLen p)"
        by (rule DecodeValue_safe [OF raw(2)])
      show ?thesis
      proof (cases "DecodeValue ct (Some raw) maxLen p")
        case v: (Done v q)
        let ?ev = "ev\<lparr>dePos := q,
          deParams := deParams ev @ [\<lparr>dpKey = key, dpVal = v, dpPos = q\<rparr>]\<rparr>"
        have "event_inside maxLen ?ev"
          using 2(2) val v DecodeValue_bounded [OF raw(2) v] by (auto simp: event_inside_def)
        from 2(1) [OF this] show ?thesis
          using Done Some kct v raw(1)
          by (auto split: sum.splits simp: prefix_def)
      qed (use Done Some kct raw p 2(2) val in \<open>auto simp: event_inside_def\<close>)
    qed
  qed (use raw safe 2(2) in \<open>auto simp: event_inside_def max_def\<close>)
qed

lemma raw_read_inside:
  "event_inside maxLen ev \<Longrightarrow> dePos ev + n \<le> maxLen \<Longrightarrow> \<exists>bs. raw_read ev n = Some bs \<and> length bs = n"
  by (auto simp: event_inside_def raw_read_def read_bytes_def)

lemma ParseCustomizedParams_inside:
  assumes "event_inside maxLen ev"
  shows "case ParseCustomizedParams maxLen ev of
      Inl u \<Rightarrow> u = ShiftTooLarge
    | Inr ev' \<Rightarrow> event_inside maxLen ev' \<and> deRaw ev' = deRaw ev \<and>
        length (deParams ev') \<le> length (deParams ev) + MAX_PARAM_CNT \<and>
        (deValid ev' \<longrightarrow> deValid ev)"
proof (cases "dePos ev + 4 > maxLen")
  case True
  with assms show ?thesis by (simp add: ParseCustomizedParams_def event_inside_def)
next
  case False
  with raw_read_inside [OF assms, of 4] obtain bs where bs: "raw_read ev 4 = Some bs" by auto
  let ?cnt = "size_of_i32 (u32_of_bytes bs)"
  have "event_inside maxLen (ev\<lparr>dePos := dePos ev + 4\<rparr>)"
    using assms False by (simp add: event_inside_def)
  note loop = params_loop_inside [OF this, of ?cnt]
  show ?thesis
  proof (cases "?cnt > MAX_PARAM_CNT")
    case True
    with False bs assms show ?thesis
      by (simp add: ParseCustomizedParams_def event_inside_def)
  next
    case cnt: False
    with False bs loop show ?thesis
      by (auto simp: ParseCustomizedParams_def split: sum.splits)
  qed
qed

lemma ParseHeader_inside:
  assumes "event_inside maxLen ev"
  shows "\<exists>ev'. ParseHeader maxLen ev = Inr ev' \<and> event_inside maxLen ev' \<and>
    deRaw ev' = deRaw ev \<and> deParams ev' = deParams ev \<and> (deValid ev' \<longrightarrow> deValid ev)"
proof (cases "dePos ev + SIZEOF_HEADER > maxLen")
  case True
  with assms show ?thesis by (simp add: ParseHeader_def event_inside_def)
next
  case False
  with raw_read_inside [OF assms, of SIZEOF_HEADER] obtain bs where
    bs: "raw_read ev SIZEOF_HEADER = Some bs" by auto
  let ?ev = "ev\<lparr>deHeader := header_of_bytes bs, dePos := dePos ev + SIZEOF_HEADER\<rparr>"
  have ev: "event_inside maxLen ?ev" using assms False by (simp add: event_inside_def)
  show ?thesis
  proof (cases "dePos ?ev + SIZEOF_TRACE_INFO > maxLen")
    case True
    with False bs ev show ?thesis
      by (auto simp: ParseHeader_def event_inside_def Let_def)
  next
    case trace: False
    with raw_read_inside [OF ev, of SIZEOF_TRACE_INFO] obtain tbs where
      "raw_read ?ev SIZEOF_TRACE_INFO = Some tbs" by auto
    with False bs ev trace show ?thesis
      by (auto simp: ParseHeader_def event_inside_def Let_def)
  qed
qed

lemma Parse_inside:
  assumes "deRaw ev = Some raw" "deParams ev = []" "4 \<le> length raw" "length raw < 2 ^ 63"
    and "size_of_i32 (u32_of_bytes (take 4 raw)) = length raw"
  shows "case Parse ev of
      Inl u \<Rightarrow> u = ShiftTooLarge
    | Inr ev' \<Rightarrow> event_inside (length raw) ev' \<and> deRaw ev' = Some raw \<and>
        length (deParams ev') \<le> MAX_PARAM_CNT"
proof -
  let ?ev = "ev\<lparr>deValid := True, dePos := 4\<rparr>"
  have ev: "event_inside (length raw) ?ev" using assms by (simp add: event_inside_def)
  from ParseHeader_inside [OF ev] obtain ev1 where ev1: "ParseHeader (length raw) ?ev = Inr ev1"
    "event_inside (length raw) ev1" "deRaw ev1 = Some raw" "deParams ev1 = []"
    using assms by auto
  have "raw_read (ev\<lparr>deValid := True, dePos := 0\<rparr>) 4 = Some (take 4 raw)"
    using assms by (simp add: raw_read_def read_bytes_def)
  then have "Parse ev = ParseCustomizedParams (length raw) ev1"
    using assms ev1(1) by (simp add: Parse_def)
  with ParseCustomizedParams_inside [OF ev1(2)] ev1(3,4) show ?thesis
    by (auto split: sum.splits)
qed

text \<open>Whatever the bytes are, decoding reads nothing outside the block.\<close>

lemma DecodedEvent_inside:
  assumes al: "alloc_sized al" and len: "len \<le> length src"
  shows "case DecodedEvent al (Some src) len of
      Inl u \<Rightarrow> u = ShiftTooLarge
    | Inr ev \<Rightarrow> ev = empty_event \<or>
        event_inside len ev \<and> deRaw ev = Some (take len src) \<and>
        length (deParams ev) \<le> MAX_PARAM_CNT"
proof -
  let ?n = "size_of_i32 (u32_of_bytes (take 4 src))"
  show ?thesis
  proof (cases "4 \<le> len \<and> ?n = len \<and> GetValidDataMinimumByteCount \<le> len \<and> len \<le> MAX_BLOCK_SIZE")
    case False
    with len show ?thesis
      by (auto simp: DecodedEvent_def read_bytes_def Let_def)
  next
    case True
    show ?thesis
    proof (cases "al len")
      case None
      with True len show ?thesis by (auto simp: DecodedEvent_def read_bytes_def Let_def)
    next
      case (Some buf)
      with al have "length buf = len" by (rule alloc_sizedD)
      with True len Some have eq: "DecodedEvent al (Some src) len =
          Parse (empty_event\<lparr>deRaw := Some (take len src)\<rparr>)"
        by (simp add: DecodedEvent_def read_bytes_def Let_def memcpy_s_def)
      have "take 4 (take len src) = take 4 src" "length (take len src) = len"
        using True len by (simp_all add: min_def)
      with True len show ?thesis
        unfolding eq
        using Parse_inside [of "empty_event\<lparr>deRaw := Some (take len src)\<rparr>" "take len src"]
        by (auto simp: empty_event_def MAX_BLOCK_SIZE_def split: sum.splits)
    qed
  qed
qed

section \<open>Decoding what the encoder wrote\<close>

fun view_value :: "param_value \<Rightarrow> decoded_value" where
  "view_value (UnsignedVal v) = DUnsigned v"
| "view_value (UnsignedArr vs) = DUnsignedArr vs"
| "view_value (SignedVal v) = DSigned v"
| "view_value (SignedArr vs) = DSignedArr vs"
| "view_value (FloatVal v) = DFloat (double_view v)"
| "view_value (FloatArr32 vs) = DFloatArr (map float_to_double vs)"
| "view_value (FloatArr64 vs) = DFloatArr vs"
| "view_value (StringVal v) = DString v"
| "view_value (StringArr vs) = DStringArr vs"

lemma coded_type_view: "DecodedParam_GetDataCodedType (view_value v) = EncodedParam_GetDataCodedType v"
  by (cases v) simp_all

lemma value_class_of:
  "value_class (value_type_of_byte (hd (type_bytes (fst (value_type_of v)) (snd (value_type_of v))))) =
    Some (EncodedParam_GetDataCodedType v)"
proof (cases v)
  case (FloatVal f)
  then show ?thesis
    by (cases f) (simp_all add: type_bytes_def value_class_def CreateFloatingNumTypeDecodedParam_def)
qed (simp_all add: type_bytes_def value_class_def CreateFloatingNumTypeDecodedParam_def
    CreateStringTypeDecodedParam_def CreateUnsignedVarintTypeDecodedParam_def
    CreateSignedVarintTypeDecodedParam_def)

lemma string_sized: "length (string_bytes s) < n \<Longrightarrow> length s < n"
  by (simp add: string_bytes_def)

lemma strings_sized:
  "length (array_bytes string_bytes vs) < n \<Longrightarrow> list_all (\<lambda>s. length s < n) vs"
proof -
  have "s \<in> set vs \<Longrightarrow> length s \<le> length (concat (map string_bytes vs))" for s
    by (induction vs) (auto simp: string_bytes_def)
  then show "length (array_bytes string_bytes vs) < n \<Longrightarrow> list_all (\<lambda>s. length s < n) vs"
    by (fastforce simp: array_bytes_def list_all_iff)
qed

lemma float_array_bytes:
  assumes "length vs \<le> MAX_ARRAY_SIZE" "drop pos raw = array_bytes float_bytes (map f vs) @ rest"
    and "pos + length (array_bytes float_bytes (map f vs)) \<le> maxLen" "readable raw maxLen"
  shows "decode_array FloatingNumberDecoded (Some raw) maxLen pos =
    Done (map (\<lambda>w. double_view (f w)) vs) (pos + length (array_bytes float_bytes (map f vs)))"
  using fv.array_roundtrip [of "map f vs" pos raw rest maxLen] assms
  by (simp add: comp_def list.pred_True)

lemma DecodeValue_bytes:
  assumes "drop pos raw = value_bytes v @ rest" "pos + length (value_bytes v) \<le> maxLen"
    and "readable raw maxLen" "value_bounded v"
  shows "DecodeValue (EncodedParam_GetDataCodedType v) (Some raw) maxLen pos =
    Done (view_value v) (pos + length (value_bytes v))"
proof -
  have "length (value_bytes v) < 2 ^ 63" using assms(2,3) by (simp add: readable_def)
  then show ?thesis
    using assms string_sized strings_sized
      uv.array_roundtrip [where rest = rest] sv.array_roundtrip [where rest = rest]
      float_array_bytes [where f = F32 and rest = rest] float_array_bytes [where f = F64 and rest = rest]
      dv.array_roundtrip [where rest = rest]
    by (cases v)
      (auto simp: uv.dec_enc sv.dec_enc fv.dec_enc dv.dec_enc map_dec_Done comp_def
        list.pred_True)
qed

lemma ParseCustomizedParam_bytes:
  assumes "drop pos raw = param_bytes key v @ rest" "pos + length (param_bytes key v) \<le> maxLen"
    and "readable raw maxLen"
  defines "p \<equiv> pos + length (string_bytes key) + 1"
  shows "ParseCustomizedParam (Some raw) maxLen pos =
      Done (Some (key, EncodedParam_GetDataCodedType v)) p"
    and "drop p raw = value_bytes v @ rest"
proof -
  obtain tb where tb: "type_bytes (fst (value_type_of v)) (snd (value_type_of v)) = [tb]"
    by (simp add: type_bytes_def)
  let ?q = "pos + length (string_bytes key)"
  have q: "drop ?q raw = tb # value_bytes v @ rest"
    using assms(1) by (intro drop_after) (simp add: param_bytes_def tb)
  then show "drop p raw = value_bytes v @ rest"
    unfolding p_def using drop_Suc_via_drop by simp
  have "length (param_bytes key v) < 2 ^ 63" using assms(2,3) by (simp add: readable_def)
  then have "length (string_bytes key) < 2 ^ 63" by (simp add: param_bytes_def)
  then have key: "StringValueDecoded (Some raw) maxLen pos [] = Done key ?q"
    using assms string_sized by (intro dv.dec_enc) (auto simp: param_bytes_def)
  have len: "?q < maxLen" "?q < length raw"
    using assms(2,3) by (simp_all add: param_bytes_def tb readable_def)
  then have "raw ! ?q = tb" using q by (simp add: nth_via_drop)
  with len have "ValueTypeDecoded (Some raw) maxLen ?q = Done (value_type_of_byte tb) p"
    by (simp add: ValueTypeDecoded_def p_def)
  moreover have "value_class (value_type_of_byte tb) = Some (EncodedParam_GetDataCodedType v)"
    using value_class_of [of v] by (simp add: tb)
  ultimately show "ParseCustomizedParam (Some raw) maxLen pos =
      Done (Some (key, EncodedParam_GetDataCodedType v)) p"
    using key by (simp add: ParseCustomizedParam_def)
qed

definition params_bytes :: "(string \<times> param_value) list \<Rightarrow> byte list" where
  "params_bytes ps = concat (map (\<lambda>(key, v). param_bytes key v) ps)"

definition entry_of :: "decoded_param \<Rightarrow> string \<times> decoded_value" where
  "entry_of p = (dpKey p, dpVal p)"

lemma entry_of_make [simp]: "entry_of \<lparr>dpKey = key, dpVal = v, dpPos = q\<rparr> = (key, v)"
  by (simp add: entry_of_def)

lemma params_loop_bytes:
  assumes "deRaw ev = Some raw" "readable raw maxLen"
    and "drop (dePos ev) raw = params_bytes ps @ rest" "dePos ev + length (params_bytes ps) \<le> maxLen"
    and "list_all (\<lambda>(key, v). value_bounded v) ps"
  shows "\<exists>ps'. params_loop maxLen (length ps) ev =
      Inr (ev\<lparr>dePos := dePos ev + length (params_bytes ps), deParams := deParams ev @ ps'\<rparr>) \<and>
    map entry_of ps' = map (\<lambda>(key, v). (key, view_value v)) ps"
  using assms
proof (induction ps arbitrary: ev)
  case Nil
  then show ?case by (simp add: params_bytes_def)
next
  case (Cons kv ps)
  obtain key v where kv: "kv = (key, v)" by (cases kv)
  let ?p = "dePos ev + length (string_bytes key) + 1" and ?q = "dePos ev + length (param_bytes key v)"
  let ?prm = "\<lparr>dpKey = key, dpVal = view_value v, dpPos = ?q\<rparr>"
  let ?ev = "ev\<lparr>dePos := ?q, deParams := deParams ev @ [?prm]\<rparr>"
  have split: "drop (dePos ev) raw = param_bytes key v @ params_bytes ps @ rest"
    "dePos ev + length (param_bytes key v) \<le> maxLen"
    using Cons.prems(3,4) by (simp_all add: params_bytes_def kv)
  note prs = ParseCustomizedParam_bytes [OF split Cons.prems(2)]
  have q: "?p + length (value_bytes v) = ?q"
    by (simp add: param_bytes_def type_bytes_def)
  have "DecodeValue (EncodedParam_GetDataCodedType v) (Some raw) maxLen ?p = Done (view_value v) ?q"
    using DecodeValue_bytes [OF prs(2), of maxLen, unfolded q] Cons.prems(2,5) split(2) kv by simp
  then have step: "params_loop maxLen (length (kv # ps)) ev = params_loop maxLen (length ps) ?ev"
    using prs(1) Cons.prems(1) by simp
  have "drop ?q raw = params_bytes ps @ rest" using split(1) by (rule drop_after)
  then have "\<exists>ps'. params_loop maxLen (length ps) ?ev =
      Inr (?ev\<lparr>dePos := dePos ?ev + length (params_bytes ps), deParams := deParams ?ev @ ps'\<rparr>) \<and>
    map entry_of ps' = map (\<lambda>(key, v). (key, view_value v)) ps"
    using Cons.prems by (intro Cons.IH) (auto simp: params_bytes_def kv)
  then obtain ps' where ps': "params_loop maxLen (length ps) ?ev =
      Inr (?ev\<lparr>dePos := dePos ?ev + length (params_bytes ps), deParams := deParams ?ev @ ps'\<rparr>)"
    "map entry_of ps' = map (\<lambda>(key, v). (key, view_value v)) ps" by blast
  show ?case
    by (rule exI [of _ "?prm # ps'"])
      (use step ps' in \<open>simp add: params_bytes_def kv add.assoc\<close>)
qed

text \<open>The block of an event: its size, the header, the trace record if any, the parameters.\<close>

definition block_tail :: "hisysevent_header \<Rightarrow> trace_info \<Rightarrow> (string \<times> param_value) list \<Rightarrow> byte list" where
  "block_tail h tr ps =
     header_bytes h @ (if hdIsTraceOpened h = 1 then trace_bytes tr else []) @
     u32_bytes (word_of_nat (length ps)) @ params_bytes ps"

definition block_bytes :: "hisysevent_header \<Rightarrow> trace_info \<Rightarrow> (string \<times> param_value) list \<Rightarrow> byte list" where
  "block_bytes h tr ps =
     u32_bytes (word_of_nat (4 + length (block_tail h tr ps))) @ block_tail h tr ps"

lemma length_block_bytes: "length (block_bytes h tr ps) = 4 + length (block_tail h tr ps)"
  by (simp add: block_bytes_def)

lemma raw_read_at:
  "deRaw ev = Some raw \<Longrightarrow> drop (dePos ev) raw = bs @ rest \<Longrightarrow> dePos ev \<le> length raw \<Longrightarrow>
    raw_read ev (length bs) = Some bs"
  using drop_after [of "dePos ev" raw bs rest] length_drop [of "dePos ev" raw]
  by (auto simp: raw_read_def read_bytes_def)

lemma ParseHeader_bytes:
  assumes "deRaw ev = Some raw" "header_ok h"
    and "drop (dePos ev) raw = (header_bytes h @ (if hdIsTraceOpened h = 1 then trace_bytes tr else [])) @ rest"
  defines "n \<equiv> length (header_bytes h @ (if hdIsTraceOpened h = 1 then trace_bytes tr else []))"
  assumes "dePos ev + n \<le> maxLen" "dePos ev \<le> length raw"
  shows "ParseHeader maxLen ev =
    Inr (ev\<lparr>deHeader := h, deTrace := (if hdIsTraceOpened h = 1 then tr else deTrace ev),
      dePos := dePos ev + n\<rparr>)"
proof -
  have hl: "length (header_bytes h) = SIZEOF_HEADER" using assms(2) by (rule length_header_bytes)
  have rd: "raw_read ev SIZEOF_HEADER = Some (header_bytes h)"
    using raw_read_at [OF assms(1), of "header_bytes h"] assms(3,6) hl by simp
  have hd: "header_of_bytes (header_bytes h) = h"
    using header_of_header_bytes [OF assms(2), of "[]"] by simp
  let ?ev = "ev\<lparr>deHeader := h, dePos := dePos ev + SIZEOF_HEADER\<rparr>"
  have tr: "raw_read ?ev SIZEOF_TRACE_INFO = Some (trace_bytes tr)" if "hdIsTraceOpened h = 1"
  proof -
    have "drop (dePos ?ev) raw = trace_bytes tr @ rest"
      using drop_after [of "dePos ev" raw "header_bytes h" "trace_bytes tr @ rest"] assms(3) that hl
      by simp
    moreover have "dePos ?ev \<le> length raw"
      using arg_cong [OF assms(3), of length] assms(6) hl by simp
    ultimately show ?thesis
      using raw_read_at [of ?ev raw "trace_bytes tr" rest] assms(1) by simp
  qed
  have tb: "trace_of_bytes (trace_bytes tr) = tr"
    using trace_of_trace_bytes [of tr "[]"] by simp
  show ?thesis
    using assms(5) rd hd tr tb
    by (auto simp: ParseHeader_def n_def hl)
qed

lemma ParseCustomizedParams_bytes:
  assumes "deRaw ev = Some raw" "length raw < 2 ^ 63"
    and "drop (dePos ev) raw = u32_bytes (word_of_nat (length ps)) @ params_bytes ps"
    and "dePos ev \<le> length raw" "length ps \<le> MAX_PARAM_CNT" "list_all (\<lambda>(key, v). value_bounded v) ps"
  shows "\<exists>ps'. ParseCustomizedParams (length raw) ev =
      Inr (ev\<lparr>dePos := length raw, deParams := deParams ev @ ps'\<rparr>) \<and>
    map entry_of ps' = map (\<lambda>(key, v). (key, view_value v)) ps"
proof -
  let ?ev = "ev\<lparr>dePos := dePos ev + 4\<rparr>"
  have len: "dePos ev + 4 + length (params_bytes ps) = length raw"
    using arg_cong [OF assms(3), of length] assms(4) by simp
  have drp: "drop (dePos ?ev) raw = params_bytes ps"
    using drop_after [OF assms(3)] by simp
  have rd: "raw_read ev 4 = Some (u32_bytes (word_of_nat (length ps)))"
    using raw_read_at [OF assms(1,3,4)] by simp
  have cnt: "size_of_i32 (word_of_nat (length ps)) = length ps"
    using assms(5) by (intro size_of_i32_small) (simp add: MAX_PARAM_CNT_def)
  have "ParseCustomizedParams (length raw) ev = params_loop (length raw) (length ps) ?ev"
    using len rd cnt assms(5) by (simp add: ParseCustomizedParams_def)
  moreover have "\<exists>ps'. params_loop (length raw) (length ps) ?ev =
      Inr (?ev\<lparr>dePos := dePos ?ev + length (params_bytes ps), deParams := deParams ?ev @ ps'\<rparr>) \<and>
    map entry_of ps' = map (\<lambda>(key, v). (key, view_value v)) ps"
    using assms drp len by (intro params_loop_bytes [where rest = "[]"]) (auto simp: readable_def)
  ultimately show ?thesis using len by simp
qed

lemma DecodedEvent_copy:
  assumes "alloc_sized al" "alloc_total al" "length src = n"
    and "size_of_i32 (u32_of_bytes (take 4 src)) = n" "GetValidDataMinimumByteCount \<le> n" "n \<le> MAX_BLOCK_SIZE"
  shows "DecodedEvent al (Some (src @ rest)) n = Parse (empty_event\<lparr>deRaw := Some src\<rparr>)"
proof -
  from assms(2) obtain buf where buf: "al n = Some buf" by (rule alloc_totalE)
  with assms(1) have bl: "length buf = n" by (rule alloc_sizedD)
  have "4 \<le> n" using assms(5) by (simp add: GetValidDataMinimumByteCount_def)
  with assms buf bl show ?thesis
    by (simp add: DecodedEvent_def read_bytes_def Let_def memcpy_s_def)
qed

text \<open>Decoding a well-formed block gives back the header, the trace record and the parameters.\<close>

lemma DecodedEvent_block:
  assumes al: "alloc_sized al" "alloc_total al" and h: "header_ok h"
    and n: "length (block_bytes h tr ps) \<le> MAX_BLOCK_SIZE" and cnt: "length ps \<le> MAX_PARAM_CNT"
    and vals: "list_all (\<lambda>(key, v). value_bounded v) ps"
  obtains ps' where
    "DecodedEvent al (Some (block_bytes h tr ps @ rest)) (length (block_bytes h tr ps)) =
      Inr \<lparr>deRaw = Some (block_bytes h tr ps), dePos = length (block_bytes h tr ps), deHeader = h,
        deTrace = (if hdIsTraceOpened h = 1 then tr else zero_trace), deValid = True, deParams = ps'\<rparr>"
    "map entry_of ps' = map (\<lambda>(key, v). (key, view_value v)) ps"
proof -
  define raw where "raw = block_bytes h tr ps"
  define ht where "ht = header_bytes h @ (if hdIsTraceOpened h = 1 then trace_bytes tr else [])"
  define pt where "pt = u32_bytes (word_of_nat (length ps)) @ params_bytes ps"
  have raw: "raw = u32_bytes (word_of_nat (length raw)) @ ht @ pt"
    by (simp add: raw_def block_bytes_def block_tail_def ht_def pt_def)
  have small: "length raw \<le> MAX_BLOCK_SIZE" using n by (simp add: raw_def)
  then have sz: "size_of_i32 (word_of_nat (length raw)) = length raw"
    by (intro size_of_i32_small) (simp add: MAX_BLOCK_SIZE_def)
  have tk: "take 4 raw = u32_bytes (word_of_nat (length raw))" by (subst raw) simp
  have drp: "drop 4 raw = ht @ pt" by (subst raw) simp
  have len: "length raw = 4 + length ht + length pt"
    using arg_cong [OF raw, of length] by simp
  have hl: "SIZEOF_HEADER \<le> length ht"
    using length_header_bytes [OF h] by (simp add: ht_def)
  let ?ev = "empty_event\<lparr>deRaw := Some raw, deValid := True, dePos := 4\<rparr>"
  let ?tr = "if hdIsTraceOpened h = 1 then tr else zero_trace"
  let ?ev1 = "?ev\<lparr>deHeader := h, deTrace := ?tr, dePos := 4 + length ht\<rparr>"
  have hdr: "ParseHeader (length raw) ?ev = Inr ?ev1"
    using ParseHeader_bytes [of ?ev raw h tr pt "length raw"] h drp len
    by (simp add: ht_def empty_event_def)
  have "drop (4 + length ht) raw = pt" using drp by (rule drop_after)
  then obtain ps' where ps': "ParseCustomizedParams (length raw) ?ev1 =
      Inr (?ev1\<lparr>dePos := length raw, deParams := ps'\<rparr>)"
    "map entry_of ps' = map (\<lambda>(key, v). (key, view_value v)) ps"
    using ParseCustomizedParams_bytes [of ?ev1 raw ps] len small cnt vals
    by (auto simp: pt_def empty_event_def MAX_BLOCK_SIZE_def)
  have "DecodedEvent al (Some (raw @ rest)) (length raw) = Parse (empty_event\<lparr>deRaw := Some raw\<rparr>)"
    using al small sz tk hl len by (intro DecodedEvent_copy) (auto simp: GetValidDataMinimumByteCount_def)
  also have "\<dots> = Inr (?ev1\<lparr>dePos := length raw, deParams := ps'\<rparr>)"
    using hdr ps'(1) tk sz len by (simp add: Parse_def raw_read_def read_bytes_def)
  finally show thesis
    using that ps'(2) by (simp add: raw_def empty_event_def)
qed

section \<open>The JSON text of an event\<close>

fun comma_join :: "string list \<Rightarrow> string" where
  "comma_join [] = []"
| "comma_join [e] = e"
| "comma_join (e # es) = e @ '','' @ comma_join es"

definition comma_terminated :: "string list \<Rightarrow> string" where
  "comma_terminated es = concat (map (\<lambda>e. e @ '','') es)"

lemma butlast_comma_terminated: "es \<noteq> [] \<Longrightarrow> butlast (comma_terminated es) = comma_join es"
  by (induction es rule: comma_join.induct) (auto simp: comma_terminated_def butlast_append)

lemma comma_terminated_simps [simp]:
  "comma_terminated [] = []" "comma_terminated (e # es) = e @ '','' @ comma_terminated es"
  "comma_terminated (es @ es') = comma_terminated es @ comma_terminated es'"
  by (simp_all add: comma_terminated_def)

definition array_entry :: "string \<Rightarrow> string list \<Rightarrow> string" where
  "array_entry key items = quoted key @ '':['' @ comma_join items @ '']''"

definition str_entry :: "string \<Rightarrow> string \<Rightarrow> string" where
  "str_entry key val = quoted key @ '':'' @ quoted val"

definition num_entry :: "string \<Rightarrow> string \<Rightarrow> string" where
  "num_entry key val = quoted key @ '':'' @ val"

fun value_entry :: "string \<Rightarrow> decoded_value \<Rightarrow> string" where
  "value_entry key (DUnsigned v) = num_entry key (show_nat (unat v))"
| "value_entry key (DUnsignedArr vs) = array_entry key (map (\<lambda>v. show_nat (unat v)) vs)"
| "value_entry key (DSigned v) = num_entry key (show_int (sint v))"
| "value_entry key (DSignedArr vs) = array_entry key (map (\<lambda>v. show_int (sint v)) vs)"
| "value_entry key (DFloat v) = num_entry key (stream_double v)"
| "value_entry key (DFloatArr vs) = array_entry key (map stream_double vs)"
| "value_entry key (DString v) = str_entry key v"
| "value_entry key (DStringArr vs) = array_entry key (map quoted vs)"

definition base_entries :: "hisysevent_header \<Rightarrow> trace_info \<Rightarrow> string list" where
  "base_entries h t =
     [str_entry ''domain_'' (c_str (take MAX_DOMAIN_LENGTH (hdDomain h))),
      str_entry ''name_'' (c_str (take MAX_EVENT_NAME_LENGTH (hdName h))),
      num_entry ''type_'' (show_nat (unat (hdType h) + 1)),
      num_entry ''time_'' (show_nat (unat (hdTimestamp h))),
      str_entry ''tz_'' (ParseTimeZone_val (hdTimeZone h)),
      num_entry ''pid_'' (show_nat (unat (hdPid h))),
      num_entry ''tid_'' (show_nat (unat (hdTid h))),
      num_entry ''uid_'' (show_nat (unat (hdUid h))),
      num_entry ''log_'' (show_nat (unat (hdLog h))),
      str_entry ''id_'' (TransUInt64ToFixedLengthStr (hdId h))] @
     (if hdIsTraceOpened h = 1
      then [num_entry ''trace_flag_'' (show_nat (unat (tiTraceFlag t))),
            str_entry ''traceid_'' (TransNumToHexStr (tiTraceId t)),
            str_entry ''spanid_'' (TransNumToHexStr (tiSpanId t)),
            str_entry ''pspanid_'' (TransNumToHexStr (tiPSpanId t))]
      else [])"

text \<open>\<open>writes f es\<close>: the stream writer \<open>f\<close> adds the entries \<open>es\<close>, each followed by a comma.\<close>

definition writes :: "(string_stream \<Rightarrow> string_stream) \<Rightarrow> string list \<Rightarrow> bool" where
  "writes f es \<longleftrightarrow> (\<forall>s ss. ss_at_end s ss \<longrightarrow> ss_at_end (s @ comma_terminated es) (f ss))"

lemma writes_compose: "writes f es \<Longrightarrow> writes g es' \<Longrightarrow> writes (\<lambda>ss. g (f ss)) (es @ es')"
  by (fastforce simp: writes_def)

lemma writes_str: "writes (AppendValue_str key val) [str_entry key val]"
  using ss_put_at_end by (fastforce simp: writes_def AppendValue_str_def str_entry_def)

lemma writes_num: "writes (AppendValue_num key val) [num_entry key val]"
  using ss_put_at_end by (fastforce simp: writes_def AppendValue_num_def num_entry_def)

lemma fold_put_items:
  "ss_at_end s ss \<Longrightarrow>
    ss_at_end (s @ comma_terminated items) (fold (\<lambda>item. ss_put (item @ '','')) items ss)"
proof (induction items arbitrary: s ss)
  case (Cons item items)
  from Cons.IH [OF ss_put_at_end [OF Cons.prems, of "item @ '',''"]] show ?case by simp
qed simp

lemma writes_array: "writes (AppendArrayValue key items) [array_entry key items]"
  unfolding writes_def
proof (intro allI impI)
  fix s ss assume ss: "ss_at_end s ss"
  let ?open = "s @ quoted key @ '':'' @ ''[''"
  let ?ss = "fold (\<lambda>item. ss_put (item @ '','')) items (ss_put (quoted key @ '':'' @ ''['') ss)"
  have items: "ss_at_end (?open @ comma_terminated items) ?ss"
    by (rule fold_put_items) (use ss_put_at_end [OF ss] in simp)
  have nz: "ss_tellp_nonzero ?ss" using items by (simp add: ss_at_end_def stream_of_def ss_tellp_nonzero_def)
  show "ss_at_end (s @ comma_terminated [array_entry key items]) (AppendArrayValue key items ss)"
  proof (cases "items = []")
    case True
    then show ?thesis
      using ss_put_at_end [OF items, of "''],''"] by (simp add: AppendArrayValue_def array_entry_def)
  next
    case False
    then have ct: "comma_terminated items \<noteq> []" by (cases items) simp_all
    have "ss_at_end (butlast (?open @ comma_terminated items) @ ''],'') (ss_put ''],'' (ss_seekp_back ?ss))"
      by (rule ss_replace_last [OF items]) simp_all
    moreover have "AppendArrayValue key items ss = ss_put ''],'' (ss_seekp_back ?ss)"
      using nz False by (simp add: AppendArrayValue_def Let_def)
    ultimately show ?thesis
      using ct butlast_comma_terminated [OF False] by (simp add: array_entry_def butlast_append)
  qed
qed

lemma writes_param:
  "writes (\<lambda>ss. if DecodedParam_GetDataCodedType (dpVal p) \<in>
      {UNSIGNED_VARINT, SIGNED_VARINT, FLOATING, DSTRING}
    then AppendCustomizedParam p ss else AppendCustomizedArrayParam p ss)
    [value_entry (dpKey p) (dpVal p)]"
  by (cases "dpVal p") (simp_all add: writes_str writes_num writes_array)

lemma writes_params:
  "writes (AppendCustomizedParams ev) (map (\<lambda>p. value_entry (dpKey p) (dpVal p)) (deParams ev))"
proof -
  have "writes (fold (\<lambda>p ss. if DecodedParam_GetDataCodedType (dpVal p) \<in>
      {UNSIGNED_VARINT, SIGNED_VARINT, FLOATING, DSTRING}
    then AppendCustomizedParam p ss else AppendCustomizedArrayParam p ss) ps)
    (map (\<lambda>p. value_entry (dpKey p) (dpVal p)) ps)" for ps
  proof (induction ps)
    case (Cons p ps)
    from writes_compose [OF writes_param [of p] Cons] show ?case
      by (simp del: AppendCustomizedParam.simps AppendCustomizedArrayParam.simps add: comp_def)
  qed (simp add: writes_def)
  then show ?thesis unfolding AppendCustomizedParams_def [abs_def] .
qed

lemma writes_base:
  assumes "alloc_total al"
  shows "writes (AppendBaseInfo al ev) (base_entries (deHeader ev) (deTrace ev))"
proof -
  obtain b1 b2 where al: "al (Suc MAX_DOMAIN_LENGTH) = Some b1"
    "al (Suc MAX_EVENT_NAME_LENGTH) = Some b2"
    using assms by (metis alloc_totalE)
  show ?thesis
    unfolding writes_def
  proof (intro allI impI)
    fix s ss assume "ss_at_end s ss"
    then show "ss_at_end (s @ comma_terminated (base_entries (deHeader ev) (deTrace ev)))
        (AppendBaseInfo al ev ss)"
      using writes_str writes_num
      by (simp add: AppendBaseInfo_def al Let_def writes_def ss_at_end_def base_entries_def)
  qed
qed

lemma AsJsonStr_entries:
  assumes "alloc_total al"
  shows "AsJsonStr al ev =
    ''{'' @ comma_join (base_entries (deHeader ev) (deTrace ev) @
      map (\<lambda>p. value_entry (dpKey p) (dpVal p)) (deParams ev)) @ ''}''"
proof -
  let ?es = "base_entries (deHeader ev) (deTrace ev) @
    map (\<lambda>p. value_entry (dpKey p) (dpVal p)) (deParams ev)"
  have ne: "?es \<noteq> []" by (simp add: base_entries_def)
  have ct: "comma_terminated ?es \<noteq> []"
    by (simp add: base_entries_def)
  have "ss_at_end ''{'' (ss_put ''{'' ss_empty)" using ss_put_at_end [OF ss_at_end_empty] by simp
  with writes_compose [OF writes_base [OF assms, of ev] writes_params [of ev]]
  have at: "ss_at_end (''{'' @ comma_terminated ?es)
      (AppendCustomizedParams ev (AppendBaseInfo al ev (ss_put ''{'' ss_empty)))"
    unfolding writes_def by blast
  have "ss_at_end (butlast (''{'' @ comma_terminated ?es) @ ''}'')
      (ss_put ''}'' (ss_seekp_back (AppendCustomizedParams ev
        (AppendBaseInfo al ev (ss_put ''{'' ss_empty)))))"
    by (rule ss_replace_last [OF at]) simp_all
  moreover have "butlast (''{'' @ comma_terminated ?es) = ''{'' @ comma_join ?es"
    using butlast_append [of "''{''" "comma_terminated ?es"] ct butlast_comma_terminated [OF ne]
    by (simp only: if_False)
  moreover have "ss_tellp_nonzero (AppendCustomizedParams ev
      (AppendBaseInfo al ev (ss_put ''{'' ss_empty)))"
    using at by (simp add: ss_at_end_def stream_of_def ss_tellp_nonzero_def)
  ultimately show ?thesis by (simp add: AsJsonStr_def ss_at_end_def stream_of_def)
qed

end
