(* ===== verification/Raw_Data_Builder.thy ===== *)
theory Raw_Data_Builder
  imports Decoded_Event
begin

text \<open>
  \<open>RawDataBuilder\<close> (base/event_raw/encoded/raw_data_builder.cpp and its header): the mutable
  event with its header, trace record and keyed parameters, the typed accessors of the header
  file, the constructor from a raw block, and \<open>Build\<close>, which writes the block. The lemmas show
  that the parameters are a keyed store, that header text fields are kept as C strings, and that
  \<open>Build\<close> writes exactly the block of \<open>Decoded_Event.block_bytes\<close>.
\<close>

section \<open>State\<close>

text \<open>
  \<open>allParams_\<close> holds no null pointers: \<open>AppendValue\<close> is the only operation that adds to it and
  it rejects them.
\<close>

record builder =
  rbHeader :: hisysevent_header
  rbTrace :: trace_info
  rbParams :: "encoded_param list"

definition RawDataBuilder_empty :: builder where
  "RawDataBuilder_empty = \<lparr>rbHeader = zero_header, rbTrace = zero_trace, rbParams = []\<rparr>"

definition IsBaseInfo :: "string \<Rightarrow> bool" where
  "IsBaseInfo key \<longleftrightarrow> key \<in> set BASE_INFO_KEYS"

section \<open>Header fields\<close>

text \<open>
  The copy of a text into a character array of \<open>n + 1\<close> bytes, and the terminator after it.
\<close>

definition put_text :: "nat \<Rightarrow> string \<Rightarrow> byte list \<Rightarrow> byte list" where
  "put_text n s arr =
     (fst (memcpy_s arr 0 (n + 1) (bytes_of_string s)))[min (length s) n := 0]"

definition AppendDomain :: "string \<Rightarrow> builder \<Rightarrow> builder" where
  "AppendDomain domain b =
     b\<lparr>rbHeader := (rbHeader b)\<lparr>hdDomain :=
         put_text MAX_DOMAIN_LENGTH domain (hdDomain (rbHeader b))\<rparr>\<rparr>"

definition AppendName :: "string \<Rightarrow> builder \<Rightarrow> builder" where
  "AppendName nm b =
     b\<lparr>rbHeader := (rbHeader b)\<lparr>hdName :=
         put_text MAX_EVENT_NAME_LENGTH nm (hdName (rbHeader b))\<rparr>\<rparr>"

definition AppendType :: "i32 \<Rightarrow> builder \<Rightarrow> builder" where
  "AppendType eventType b =
     b\<lparr>rbHeader := (rbHeader b)\<lparr>hdType := ucast (ucast (eventType - 1) :: u8)\<rparr>\<rparr>"

definition AppendTimeStamp :: "u64 \<Rightarrow> builder \<Rightarrow> builder" where
  "AppendTimeStamp timestamp b = b\<lparr>rbHeader := (rbHeader b)\<lparr>hdTimestamp := timestamp\<rparr>\<rparr>"

definition AppendTimeZone_str :: "string \<Rightarrow> builder \<Rightarrow> builder" where
  "AppendTimeZone_str timeZone b =
     b\<lparr>rbHeader := (rbHeader b)\<lparr>hdTimeZone := word_of_nat (ParseTimeZone_str timeZone)\<rparr>\<rparr>"

definition AppendTimeZone :: "u8 \<Rightarrow> builder \<Rightarrow> builder" where
  "AppendTimeZone timeZone b = b\<lparr>rbHeader := (rbHeader b)\<lparr>hdTimeZone := timeZone\<rparr>\<rparr>"

definition AppendUid :: "u32 \<Rightarrow> builder \<Rightarrow> builder" where
  "AppendUid uid b = b\<lparr>rbHeader := (rbHeader b)\<lparr>hdUid := uid\<rparr>\<rparr>"

definition AppendPid :: "u32 \<Rightarrow> builder \<Rightarrow> builder" where
  "AppendPid pid b = b\<lparr>rbHeader := (rbHeader b)\<lparr>hdPid := pid\<rparr>\<rparr>"

definition AppendTid :: "u32 \<Rightarrow> builder \<Rightarrow> builder" where
  "AppendTid tid b = b\<lparr>rbHeader := (rbHeader b)\<lparr>hdTid := tid\<rparr>\<rparr>"

definition AppendLog :: "u8 \<Rightarrow> builder \<Rightarrow> builder" where
  "AppendLog lg b = b\<lparr>rbHeader := (rbHeader b)\<lparr>hdLog := lg\<rparr>\<rparr>"

definition AppendId :: "u64 \<Rightarrow> builder \<Rightarrow> builder" where
  "AppendId ident b = b\<lparr>rbHeader := (rbHeader b)\<lparr>hdId := ident\<rparr>\<rparr>"

definition AppendId_str :: "string \<Rightarrow> builder \<Rightarrow> builder" where
  "AppendId_str ident b = AppendId (word_of_nat (stream_unsigned 10 64 ident)) b"

definition open_trace :: "builder \<Rightarrow> builder" where
  "open_trace b = b\<lparr>rbHeader := (rbHeader b)\<lparr>hdIsTraceOpened := 1\<rparr>\<rparr>"

definition AppendTraceId :: "u64 \<Rightarrow> builder \<Rightarrow> builder" where
  "AppendTraceId traceId b = (open_trace b)\<lparr>rbTrace := (rbTrace b)\<lparr>tiTraceId := traceId\<rparr>\<rparr>"

definition AppendSpanId :: "u32 \<Rightarrow> builder \<Rightarrow> builder" where
  "AppendSpanId spanId b = (open_trace b)\<lparr>rbTrace := (rbTrace b)\<lparr>tiSpanId := spanId\<rparr>\<rparr>"

definition AppendPSpanId :: "u32 \<Rightarrow> builder \<Rightarrow> builder" where
  "AppendPSpanId pSpanId b = (open_trace b)\<lparr>rbTrace := (rbTrace b)\<lparr>tiPSpanId := pSpanId\<rparr>\<rparr>"

definition AppendTraceFlag :: "u8 \<Rightarrow> builder \<Rightarrow> builder" where
  "AppendTraceFlag traceFlag b = (open_trace b)\<lparr>rbTrace := (rbTrace b)\<lparr>tiTraceFlag := traceFlag\<rparr>\<rparr>"

definition AppendTraceInfo :: "u64 \<Rightarrow> u32 \<Rightarrow> u32 \<Rightarrow> u8 \<Rightarrow> builder \<Rightarrow> builder" where
  "AppendTraceInfo traceId spanId pSpanId traceFlag b =
     (open_trace b)\<lparr>rbTrace := \<lparr>tiTraceFlag = traceFlag, tiTraceId = traceId, tiSpanId = spanId,
       tiPSpanId = pSpanId\<rparr>\<rparr>"

text \<open>The header texts read as C strings; the arrays are followed by the rest of the header.\<close>

definition GetDomain :: "builder \<Rightarrow> string" where
  "GetDomain b = c_str (header_bytes (rbHeader b))"

definition GetName :: "builder \<Rightarrow> string" where
  "GetName b = c_str (drop (MAX_DOMAIN_LENGTH + 1) (header_bytes (rbHeader b)))"

definition GetEventType :: "builder \<Rightarrow> nat" where
  "GetEventType b = unat (hdType (rbHeader b)) + 1"

definition GetParamCnt :: "builder \<Rightarrow> nat" where
  "GetParamCnt b = length (rbParams b)"

section \<open>Keyed parameters\<close>

fun replace_param :: "encoded_param \<Rightarrow> encoded_param list \<Rightarrow> encoded_param list" where
  "replace_param param [] = [param]"
| "replace_param param (p # ps) =
     (if epKey p = epKey param then param # ps else p # replace_param param ps)"

fun erase_param :: "string \<Rightarrow> encoded_param list \<Rightarrow> encoded_param list" where
  "erase_param key [] = []"
| "erase_param key (p # ps) = (if epKey p = key then ps else p # erase_param key ps)"

fun find_param :: "string \<Rightarrow> encoded_param list \<Rightarrow> encoded_param option" where
  "find_param key [] = None"
| "find_param key (p # ps) = (if epKey p = key then Some p else find_param key ps)"

definition AppendValue_param :: "alloc \<Rightarrow> encoded_param option \<Rightarrow> builder \<Rightarrow> builder" where
  "AppendValue_param al param b =
     (case param of
        None \<Rightarrow> b
      | Some p \<Rightarrow>
          (case EncodedParam_Encode al p of
             (False, p') \<Rightarrow> b
           | (True, p') \<Rightarrow> b\<lparr>rbParams := replace_param p' (rbParams b)\<rparr>))"

definition RemoveParam :: "string \<Rightarrow> builder \<Rightarrow> builder" where
  "RemoveParam paramName b = b\<lparr>rbParams := erase_param paramName (rbParams b)\<rparr>"

definition GetValue :: "string \<Rightarrow> builder \<Rightarrow> encoded_param option" where
  "GetValue key b = find_param key (rbParams b)"

abbreviation append_new :: "alloc \<Rightarrow> string \<Rightarrow> param_value \<Rightarrow> builder \<Rightarrow> builder" where
  "append_new al key val b \<equiv> AppendValue_param al (Some (EncodedParam al key val)) b"

section \<open>Typed values\<close>

text \<open>
  The argument of the template \<open>AppendValue<T>\<close>: the type class of \<open>T\<close> with its width in bits
  and the value widened to 64 bits. \<open>ArgOther\<close> is a type no branch accepts.
\<close>

datatype cpp_arg =
    ArgUnsigned nat u64
  | ArgSigned nat i64
  | ArgBool bool
  | ArgFloating floating
  | ArgString string
  | ArgUnsigneds "u64 list"
  | ArgSigneds "i64 list"
  | ArgBools "bool list"
  | ArgFloatings "floating list"
  | ArgStrings "string list"
  | ArgOther

definition i64_of_bool :: "bool \<Rightarrow> i64" where
  "i64_of_bool b = (if b then 1 else 0)"

fun AppendArrayValue_builder :: "alloc \<Rightarrow> string \<Rightarrow> cpp_arg \<Rightarrow> builder \<Rightarrow> builder" where
  "AppendArrayValue_builder al key (ArgStrings vs) b = append_new al key (StringArr vs) b"
| "AppendArrayValue_builder al key (ArgFloatings vs) b =
     append_new al key (FloatArr64 (map double_view vs)) b"
| "AppendArrayValue_builder al key (ArgBools vs) b =
     append_new al key (SignedArr (map i64_of_bool vs)) b"
| "AppendArrayValue_builder al key (ArgSigneds vs) b = append_new al key (SignedArr vs) b"
| "AppendArrayValue_builder al key (ArgUnsigneds vs) b = append_new al key (UnsignedArr vs) b"
| "AppendArrayValue_builder al key v b = b"

text \<open>\<open>std::stringstream << std::hex << s >> num\<close>.\<close>

definition TransHexStrToNum :: "string \<Rightarrow> 'a :: len word" where
  "TransHexStrToNum s = word_of_nat (stream_unsigned 16 LENGTH('a) s)"

text \<open>The handlers of \<open>InitBaseAppendHandlers\<close> and \<open>InitIdInfoAppendHandlers\<close>, per type of value.\<close>

definition AppendBaseInfoValue :: "string \<Rightarrow> cpp_arg \<Rightarrow> builder \<Rightarrow> builder" where
  "AppendBaseInfoValue key val b =
     (case val of
        ArgString s \<Rightarrow>
          (if key = ''domain_'' then AppendDomain s b
           else if key = ''name_'' then AppendName s b
           else if key = ''tz_'' then AppendTimeZone_str s b
           else if key = ''id_'' then AppendId_str s b
           else if key = ''traceid_'' then AppendTraceId (TransHexStrToNum s) b
           else if key = ''spanid_'' then AppendSpanId (TransHexStrToNum s) b
           else if key = ''pspanid_'' then AppendPSpanId (TransHexStrToNum s) b
           else b)
      | ArgUnsigned w v \<Rightarrow>
          (if key = ''type_'' then AppendType (ucast v) b
           else if key = ''time_'' then (if w = 64 then AppendTimeStamp v b else b)
           else if key = ''id_'' then AppendId v b
           else if key = ''pid_'' then AppendPid (ucast v) b
           else if key = ''tid_'' then AppendTid (ucast v) b
           else if key = ''uid_'' then AppendUid (ucast v) b
           else if key = ''log_'' then AppendLog (ucast v) b
           else if key = ''traceid_'' then AppendTraceId v b
           else if key = ''spanid_'' then AppendSpanId (ucast v) b
           else if key = ''pspanid_'' then AppendPSpanId (ucast v) b
           else if key = ''trace_flag_'' then AppendTraceFlag (ucast v) b
           else b)
      | _ \<Rightarrow> b)"

definition AppendValue :: "alloc \<Rightarrow> string \<Rightarrow> cpp_arg \<Rightarrow> builder \<Rightarrow> builder" where
  "AppendValue al key val b =
     (if IsBaseInfo key then AppendBaseInfoValue key val b
      else case val of
             ArgString s \<Rightarrow> append_new al key (StringVal s) b
           | ArgFloating f \<Rightarrow> append_new al key (FloatVal (F64 (double_view f))) b
           | ArgBool v \<Rightarrow> append_new al key (SignedVal (i64_of_bool v)) b
           | ArgSigned w v \<Rightarrow> append_new al key (SignedVal v) b
           | ArgUnsigned w v \<Rightarrow> append_new al key (UnsignedVal v) b
           | _ \<Rightarrow> AppendArrayValue_builder al key val b)"

text \<open>
  The destination of \<open>ParseValueByKey<T>\<close>: its type and, for a vector, the elements it already
  holds (the number vectors are appended to).
\<close>

datatype cpp_dest =
    DestUnsigned nat
  | DestSigned nat
  | DestDouble
  | DestString
  | DestUnsigneds "u64 list"
  | DestSigneds "i64 list"
  | DestDoubles "u64 list"
  | DestStrings "string list"
  | DestOther

definition unsigned_to :: "cpp_dest \<Rightarrow> u64 \<Rightarrow> cpp_arg option" where
  "unsigned_to dest v =
     (case dest of DestUnsigned w \<Rightarrow> Some (ArgUnsigned w (take_bit w v)) | _ \<Rightarrow> None)"

fun ParseAndSetTraceInfo :: "cpp_dest \<Rightarrow> string \<Rightarrow> u64 \<Rightarrow> cpp_arg option" where
  "ParseAndSetTraceInfo DestString hex v = Some (ArgString hex)"
| "ParseAndSetTraceInfo dest hex v = unsigned_to dest v"

definition ParseTimeZoneFromHeader :: "cpp_dest \<Rightarrow> u8 \<Rightarrow> cpp_arg option" where
  "ParseTimeZoneFromHeader dest tz =
     (case dest of
        DestString \<Rightarrow> Some (ArgString (ParseTimeZone_val tz))
      | _ \<Rightarrow> unsigned_to dest (ucast tz))"

definition GetBaseInfoValueByKey :: "string \<Rightarrow> cpp_dest \<Rightarrow> builder \<Rightarrow> cpp_arg option" where
  "GetBaseInfoValueByKey key dest b =
     (let h = rbHeader b; t = rbTrace b;
          text = (\<lambda>s. case dest of DestString \<Rightarrow> Some (ArgString s) | _ \<Rightarrow> None)
      in if key = ''domain_'' then text (GetDomain b)
         else if key = ''name_'' then text (GetName b)
         else if key = ''type_'' then
           (case dest of
              DestSigned w \<Rightarrow> Some (ArgSigned w (word_of_nat (unat (hdType h) + 1)))
            | _ \<Rightarrow> None)
         else if key = ''time_'' then unsigned_to dest (hdTimestamp h)
         else if key = ''tz_'' then ParseTimeZoneFromHeader dest (hdTimeZone h)
         else if key = ''id_'' then unsigned_to dest (hdId h)
         else if key = ''pid_'' then unsigned_to dest (ucast (hdPid h))
         else if key = ''tid_'' then unsigned_to dest (ucast (hdTid h))
         else if key = ''uid_'' then unsigned_to dest (ucast (hdUid h))
         else if key = ''log_'' then unsigned_to dest (ucast (hdLog h))
         else if key = ''traceid_'' then
           ParseAndSetTraceInfo dest (TransNumToHexStr (tiTraceId t)) (tiTraceId t)
         else if key = ''spanid_'' then
           ParseAndSetTraceInfo dest (TransNumToHexStr (tiSpanId t)) (ucast (tiSpanId t))
         else if key = ''pspanid_'' then
           ParseAndSetTraceInfo dest (TransNumToHexStr (tiPSpanId t)) (ucast (tiPSpanId t))
         else if key = ''trace_flag_'' then unsigned_to dest (ucast (tiTraceFlag t))
         else None)"

fun GetArrayValueByKey :: "param_value \<Rightarrow> cpp_dest \<Rightarrow> cpp_arg option" where
  "GetArrayValueByKey v (DestUnsigneds dest) =
     (if EncodedParam_GetDataCodedType v = UNSIGNED_VARINT_ARRAY
      then map_option ArgUnsigneds (EncodedParam_AsUint64Vec v dest) else None)"
| "GetArrayValueByKey v (DestSigneds dest) =
     (if EncodedParam_GetDataCodedType v = SIGNED_VARINT_ARRAY
      then map_option ArgSigneds (EncodedParam_AsInt64Vec v dest) else None)"
| "GetArrayValueByKey v (DestDoubles dest) =
     (if EncodedParam_GetDataCodedType v = FLOATING_ARRAY
      then map_option (\<lambda>ds. ArgFloatings (map F64 ds)) (EncodedParam_AsDoubleVec v dest) else None)"
| "GetArrayValueByKey v (DestStrings dest) =
     (if EncodedParam_GetDataCodedType v = DSTRING_ARRAY
      then map_option ArgStrings (EncodedParam_AsStringVec v dest) else None)"
| "GetArrayValueByKey v dest = None"

definition GetValueByKey :: "string \<Rightarrow> cpp_dest \<Rightarrow> builder \<Rightarrow> cpp_arg option" where
  "GetValueByKey key dest b =
     (case GetValue key b of
        None \<Rightarrow> None
      | Some p \<Rightarrow>
          (case EncodedParam_GetDataCodedType (epVal p) of
             UNSIGNED_VARINT \<Rightarrow>
               (if dest = DestUnsigned 64
                then map_option (ArgUnsigned 64) (EncodedParam_AsUint64 (epVal p)) else None)
           | SIGNED_VARINT \<Rightarrow>
               (if dest = DestSigned 64
                then map_option (ArgSigned 64) (EncodedParam_AsInt64 (epVal p)) else None)
           | FLOATING \<Rightarrow>
               (if dest = DestDouble
                then map_option (\<lambda>d. ArgFloating (F64 d)) (EncodedParam_AsDouble (epVal p))
                else None)
           | DSTRING \<Rightarrow>
               (if dest = DestString
                then map_option ArgString (EncodedParam_AsString (epVal p)) else None)
           | _ \<Rightarrow> GetArrayValueByKey (epVal p) dest))"

definition ParseValueByKey :: "string \<Rightarrow> cpp_dest \<Rightarrow> builder \<Rightarrow> cpp_arg option" where
  "ParseValueByKey key dest b =
     (if IsBaseInfo key then GetBaseInfoValueByKey key dest b else GetValueByKey key dest b)"

section \<open>Constructors\<close>

definition RawDataBuilder_named :: "string \<Rightarrow> string \<Rightarrow> i32 \<Rightarrow> builder" where
  "RawDataBuilder_named domain nm eventType =
     AppendType eventType (AppendName nm (AppendDomain domain RawDataBuilder_empty))"

text \<open>Copying the decoded parameters: the single values first, then the arrays.\<close>

definition init_value_param :: "alloc \<Rightarrow> decoded_param \<Rightarrow> builder \<Rightarrow> builder" where
  "init_value_param al p b =
     (case dpVal p of
        DUnsigned v \<Rightarrow> append_new al (dpKey p) (UnsignedVal v) b
      | DSigned v \<Rightarrow> append_new al (dpKey p) (SignedVal v) b
      | DFloat v \<Rightarrow> append_new al (dpKey p) (FloatVal (F64 v)) b
      | DString v \<Rightarrow> append_new al (dpKey p) (StringVal v) b
      | _ \<Rightarrow> b)"

definition init_array_param :: "alloc \<Rightarrow> decoded_param \<Rightarrow> builder \<Rightarrow> builder" where
  "init_array_param al p b =
     (case dpVal p of
        DUnsignedArr vs \<Rightarrow> append_new al (dpKey p) (UnsignedArr vs) b
      | DSignedArr vs \<Rightarrow> append_new al (dpKey p) (SignedArr vs) b
      | DFloatArr vs \<Rightarrow> append_new al (dpKey p) (FloatArr64 vs) b
      | DStringArr vs \<Rightarrow> append_new al (dpKey p) (StringArr vs) b
      | _ \<Rightarrow> b)"

definition InitArrayValueParams :: "alloc \<Rightarrow> decoded_param list \<Rightarrow> builder \<Rightarrow> builder" where
  "InitArrayValueParams al params b = fold (init_array_param al) params b"

definition InitValueParams :: "alloc \<Rightarrow> decoded_param list \<Rightarrow> builder \<Rightarrow> builder" where
  "InitValueParams al params b =
     InitArrayValueParams al params (fold (init_value_param al) params b)"

text \<open>
  \<open>std::string(const char*)\<close> over the copied header: the bytes up to the first NUL at or after the
  member, or a read past the end of the object when there is none.
\<close>

definition c_string_at :: "nat \<Rightarrow> hisysevent_header \<Rightarrow> undefined_behaviour + string" where
  "c_string_at off h =
     (let bs = drop off (header_bytes h) in
      if 0 \<in> set bs then Inr (c_str bs) else Inl OutOfBoundsRead)"

definition RawDataBuilder_raw :: "alloc \<Rightarrow> raw_data option \<Rightarrow> undefined_behaviour + builder" where
  "RawDataBuilder_raw al rawData =
     (case rawData of
        None \<Rightarrow> Inr RawDataBuilder_empty
      | Some rd \<Rightarrow>
          (case DecodedEvent al (RawData_GetData rd) (RawData_GetDataLength rd) of
             Inl u \<Rightarrow> Inl u
           | Inr ev \<Rightarrow>
               (let h = deHeader ev; t = deTrace ev in
                case c_string_at 0 h of
                  Inl u \<Rightarrow> Inl u
                | Inr domain \<Rightarrow>
                    (case c_string_at (MAX_DOMAIN_LENGTH + 1) h of
                       Inl u \<Rightarrow> Inl u
                     | Inr nm \<Rightarrow>
                         (let b1 = AppendName nm (AppendDomain domain RawDataBuilder_empty);
                              b2 = AppendType (word_of_nat (unat (hdType h) + 1)) b1;
                              b3 = AppendTimeZone (hdTimeZone h) (AppendTimeStamp (hdTimestamp h) b2);
                              b4 = AppendPid (hdPid h) (AppendUid (hdUid h) (AppendLog (hdLog h) b3));
                              b5 = AppendId (hdId h) (AppendTid (hdTid h) b4);
                              b6 = (if hdIsTraceOpened h = 1
                                    then AppendTraceInfo (tiTraceId t) (tiSpanId t) (tiPSpanId t)
                                           (tiTraceFlag t) b5
                                    else b5)
                          in Inr (InitValueParams al (deParams ev) b6))))))"

section \<open>Writing the block\<close>

definition BuildHeader :: "alloc \<Rightarrow> builder \<Rightarrow> raw_data \<Rightarrow> bool \<times> raw_data" where
  "BuildHeader al b dest =
     (case append_bytes al (header_bytes (rbHeader b)) dest of
        (False, d) \<Rightarrow> (False, d)
      | (True, d) \<Rightarrow>
          if hdIsTraceOpened (rbHeader b) = 1 then append_bytes al (trace_bytes (rbTrace b)) d
          else (True, d))"

text \<open>
  \<open>any_of\<close> over the parameters stops at the first failing append; \<open>GetRawData\<close> may still encode
  a parameter, and the buffer is copied before it is appended.
\<close>

fun build_params ::
    "alloc \<Rightarrow> encoded_param list \<Rightarrow> raw_data \<Rightarrow> bool \<times> raw_data \<times> encoded_param list" where
  "build_params al [] dest = (True, dest, [])"
| "build_params al (p # ps) dest =
     (case EncodedParam_GetRawData al p of
        (rd, p') \<Rightarrow>
          (let copy = RawData_copy al rd in
           case RawData_Append al dest (RawData_GetData copy) (RawData_GetDataLength copy) of
             (False, d) \<Rightarrow> (False, d, p' # ps)
           | (True, d) \<Rightarrow>
               (case build_params al ps d of (ok, d', ps') \<Rightarrow> (ok, d', p' # ps'))))"

definition BuildCustomizedParams :: "alloc \<Rightarrow> builder \<Rightarrow> raw_data \<Rightarrow> bool \<times> raw_data \<times> builder" where
  "BuildCustomizedParams al b dest =
     (case build_params al (rbParams b) dest of (ok, d, ps) \<Rightarrow> (ok, d, b\<lparr>rbParams := ps\<rparr>))"

definition Build :: "alloc \<Rightarrow> builder \<Rightarrow> raw_data option \<times> builder" where
  "Build al b =
     (case append_bytes al (u32_bytes 0) (RawData_new al) of
        (False, r1) \<Rightarrow> (None, b)
      | (True, r1) \<Rightarrow>
          (case BuildHeader al b r1 of
             (False, r2) \<Rightarrow> (None, b)
           | (True, r2) \<Rightarrow>
               (case append_bytes al (u32_bytes (word_of_nat (GetParamCnt b))) r2 of
                  (False, r3) \<Rightarrow> (Some r3, b)
                | (True, r3) \<Rightarrow>
                    (case BuildCustomizedParams al b r3 of
                       (False, r4, b') \<Rightarrow> (Some r4, b')
                     | (True, r4, b') \<Rightarrow>
                         (case RawData_Update al r4
                                 (Some (u32_bytes (word_of_nat (RawData_GetDataLength r4)))) 4 0 of
                            (_, r5) \<Rightarrow> (Some r5, b'))))))"

section \<open>A keyed store\<close>

text \<open>
  What the builder relies on in its parameter list: items carry their key, an insertion replaces
  the item of the same key, a removal deletes it, and the invariant is kept.
\<close>

locale keyed_store =
  fixes key :: "'v \<Rightarrow> 'k"
    and lookup :: "'k \<Rightarrow> 's \<Rightarrow> 'v option"
    and ins :: "'v \<Rightarrow> 's \<Rightarrow> 's"
    and del :: "'k \<Rightarrow> 's \<Rightarrow> 's"
    and inv :: "'s \<Rightarrow> bool"
  assumes ins_inv: "inv s \<Longrightarrow> inv (ins v s)"
    and del_inv: "inv s \<Longrightarrow> inv (del k s)"
    and lookup_ins: "inv s \<Longrightarrow> lookup k (ins v s) = (if k = key v then Some v else lookup k s)"
    and lookup_del: "inv s \<Longrightarrow> lookup k (del k' s) = (if k = k' then None else lookup k s)"
begin

lemma fold_ins_inv: "inv s \<Longrightarrow> inv (fold ins vs s)"
  by (induction vs arbitrary: s) (auto simp: ins_inv)

text \<open>After a sequence of insertions every key has the last value inserted for it.\<close>

lemma lookup_fold_ins:
  "inv s \<Longrightarrow> lookup k (fold ins vs s) =
    (case find (\<lambda>v. key v = k) (rev vs) of Some v \<Rightarrow> Some v | None \<Rightarrow> lookup k s)"
proof (induction vs rule: rev_induct)
  case (snoc v vs)
  then show ?case by (auto simp: lookup_ins fold_ins_inv)
qed simp

lemma del_after_ins: "inv s \<Longrightarrow> lookup k (del (key v) (ins v s)) = lookup k (del (key v) s)"
  by (simp add: lookup_del lookup_ins ins_inv)

lemma ins_commute: "inv s \<Longrightarrow> key v \<noteq> key w \<Longrightarrow> lookup k (ins v (ins w s)) = lookup k (ins w (ins v s))"
  by (simp add: lookup_ins ins_inv)

end

lemma set_replace_param:
  "set (replace_param p ps) \<subseteq> insert p (set ps)" "set (erase_param k ps) \<subseteq> set ps"
  by (induction ps) auto

lemma keys_replace_param:
  "map epKey (replace_param p ps) =
    (if epKey p \<in> epKey ` set ps then map epKey ps else map epKey ps @ [epKey p])"
  by (induction ps) auto

lemma distinct_erase_param: "distinct (map epKey ps) \<Longrightarrow> distinct (map epKey (erase_param k ps))"
  using set_replace_param(2) by (induction ps) fastforce+

lemma find_param_None: "find_param k ps = None \<longleftrightarrow> k \<notin> epKey ` set ps"
  by (induction ps) auto

lemma find_param_in: "find_param k ps = Some p \<Longrightarrow> p \<in> set ps \<and> epKey p = k"
  by (induction ps) (auto split: if_splits)

lemma find_erase_param:
  "distinct (map epKey ps) \<Longrightarrow>
    find_param k (erase_param k' ps) = (if k = k' then None else find_param k ps)"
  by (induction ps) (auto simp: find_param_None)

interpretation ps: keyed_store epKey find_param replace_param erase_param "\<lambda>ps. distinct (map epKey ps)"
proof
  show "find_param k (replace_param v s) = (if k = epKey v then Some v else find_param k s)"
    if "distinct (map epKey s)" for s k v
    by (induction s) auto
qed (auto simp: keys_replace_param distinct_erase_param find_erase_param)

section \<open>The builder invariant\<close>

definition param_ok :: "encoded_param \<Rightarrow> bool" where
  "param_ok p \<longleftrightarrow> epHasEncoded p \<and> raw_live (epRaw p) \<and>
     rd_bytes (epRaw p) = param_bytes (epKey p) (epVal p) \<and> value_bounded (epVal p)"

definition text_ok :: "nat \<Rightarrow> byte list \<Rightarrow> bool" where
  "text_ok n arr \<longleftrightarrow> length arr = n + 1 \<and> 0 \<in> set arr"

definition builder_ok :: "builder \<Rightarrow> bool" where
  "builder_ok b \<longleftrightarrow> text_ok MAX_DOMAIN_LENGTH (hdDomain (rbHeader b)) \<and>
     text_ok MAX_EVENT_NAME_LENGTH (hdName (rbHeader b)) \<and>
     distinct (map epKey (rbParams b)) \<and> list_all param_ok (rbParams b)"

lemma builder_ok_header: "builder_ok b \<Longrightarrow> header_ok (rbHeader b)"
  by (simp add: builder_ok_def text_ok_def header_ok_def)

lemma builder_ok_empty [simp]: "builder_ok RawDataBuilder_empty"
  by (simp add: builder_ok_def text_ok_def RawDataBuilder_empty_def zero_header_def
      MAX_DOMAIN_LENGTH_def MAX_EVENT_NAME_LENGTH_def)

lemma put_text_ok:
  assumes "length arr = n + 1"
  shows "text_ok n (put_text n s arr)"
proof -
  let ?buf = "fst (memcpy_s arr 0 (n + 1) (bytes_of_string s))"
  have "length ?buf = n + 1" using assms by (simp add: memcpy_s_def)
  then show ?thesis
    by (simp add: text_ok_def put_text_def set_update_memI)
qed

lemma put_text_keeps: "text_ok n arr \<Longrightarrow> text_ok n (put_text n s arr)"
  by (rule put_text_ok) (simp add: text_ok_def)

lemma c_str_text: "CHR 0x00 \<notin> set s \<Longrightarrow> c_str (bytes_of_string s @ 0 # rest) = s"
proof -
  assume s: "CHR 0x00 \<notin> set s"
  have zero: "char_of_byte 0 = CHR 0x00" by (simp add: char_of_byte_def char_of_def)
  have "byte_of_char c \<noteq> 0" if "c \<in> set s" for c
    using that s char_of_byte_of_char [of c] zero by metis
  then have "takeWhile (\<lambda>b. b \<noteq> 0) (bytes_of_string s @ 0 # rest) = bytes_of_string s"
    by (auto simp: takeWhile_tail bytes_of_string_def)
  then show ?thesis by (simp add: c_str_def)
qed

lemma c_str_zero [simp]: "c_str (0 # rest) = []"
  by (simp add: c_str_def string_of_bytes_def)

text \<open>A text that fits is kept; one byte too many is cut off; anything longer is dropped.\<close>

lemma c_str_put_text:
  assumes "length arr = n + 1" "CHR 0x00 \<notin> set s"
  shows "c_str (put_text n s arr @ rest) =
    (if length s \<le> n then s else if length s = n + 1 then take n s else [])"
proof -
  define buf where "buf = fst (memcpy_s arr 0 (n + 1) (bytes_of_string s))"
  define m where "m = min (length s) n"
  have "length buf = n + 1" using assms by (simp add: memcpy_s_def buf_def)
  then have put: "put_text n s arr @ rest = take m buf @ 0 # drop (Suc m) buf @ rest"
    unfolding put_text_def buf_def [symmetric] m_def [symmetric]
    by (simp add: upd_conv_take_nth_drop m_def min_less_iff_disj)
  show ?thesis
  proof (cases "length s \<le> n + 1")
    case True
    then have "buf = bytes_of_string s @ drop (length s) arr"
      using assms by (simp add: buf_def memcpy_s_def)
    then have "take m buf = bytes_of_string (take m s)"
      by (simp add: m_def bytes_of_string_def take_map)
    moreover have "CHR 0x00 \<notin> set (take m s)" using assms(2) by (meson in_set_takeD)
    ultimately have "c_str (put_text n s arr @ rest) = take m s"
      by (simp add: put c_str_text)
    with True show ?thesis by (auto simp: m_def)
  next
    case False
    then have "buf = replicate (n + 1) 0" using assms by (simp add: buf_def memcpy_s_def)
    then have "take m buf = replicate m 0" by (simp only: take_replicate) (simp add: m_def)
    then have "c_str (put_text n s arr @ rest) = []"
      by (cases m) (simp_all add: put)
    with False show ?thesis by simp
  qed
qed

lemmas header_op_defs =
  AppendDomain_def AppendName_def AppendType_def AppendTimeStamp_def AppendTimeZone_str_def
  AppendTimeZone_def AppendUid_def AppendPid_def AppendTid_def AppendLog_def AppendId_def
  AppendId_str_def AppendTraceId_def AppendSpanId_def AppendPSpanId_def AppendTraceFlag_def
  AppendTraceInfo_def open_trace_def

lemma builder_ok_header_ops [simp]:
  assumes "builder_ok b"
  shows "builder_ok (AppendDomain s b)" "builder_ok (AppendName s b)" "builder_ok (AppendType i b)"
    "builder_ok (AppendTimeStamp w b)" "builder_ok (AppendTimeZone_str s b)"
    "builder_ok (AppendTimeZone u b)" "builder_ok (AppendUid v b)" "builder_ok (AppendPid v b)"
    "builder_ok (AppendTid v b)" "builder_ok (AppendLog u b)" "builder_ok (AppendId w b)"
    "builder_ok (AppendId_str s b)" "builder_ok (AppendTraceId w b)" "builder_ok (AppendSpanId v b)"
    "builder_ok (AppendPSpanId v b)" "builder_ok (AppendTraceFlag u b)"
    "builder_ok (AppendTraceInfo w v v' u b)"
  using assms by (auto simp: header_op_defs builder_ok_def put_text_keeps)

lemma builder_ok_AppendBaseInfoValue: "builder_ok b \<Longrightarrow> builder_ok (AppendBaseInfoValue key val b)"
  by (simp add: AppendBaseInfoValue_def split: cpp_arg.split)

text \<open>A parameter without a buffer never encodes: its key alone needs a byte.\<close>

lemma Encode_null:
  assumes "rdData (epRaw p) = None"
  shows "\<not> fst (EncodedParam_Encode al p)"
proof -
  have "EncodeKey al (epKey p) (epRaw p) = (False, epRaw p)"
    using append_bytes_null [OF assms, of al "[tag_byte LENGTH_DELIMITED (word_of_nat (length (epKey p)))]"]
    by (simp add: EncodeKey_def StringValueEncoded_def UnsignedVarintEncoded_def)
  then show ?thesis by (simp add: EncodedParam_Encode_def)
qed

lemma Encode_new_ok:
  assumes "alloc_sized al" "EncodedParam_Encode al (EncodedParam al key val) = (True, p)"
  shows "param_ok p \<and> epKey p = key \<and> epVal p = bound_value val"
proof -
  let ?p = "EncodedParam al key val"
  have "rdData (epRaw ?p) \<noteq> None" using Encode_null [of ?p al] assms(2) by auto
  then have "raw_live (epRaw ?p)" "rd_bytes (epRaw ?p) = []"
    using RawData_new_ok [OF assms(1)] by (auto simp: raw_ok_def EncodedParam_def)
  with Encode_appends [OF assms(1) _ assms(2)] Encode_keeps [of al ?p]
  show ?thesis unfolding assms(2) by (simp add: param_ok_def EncodedParam_def)
qed

lemma append_new_cases:
  assumes "alloc_sized al"
  obtains "append_new al key val b = b" "\<not> alloc_total al"
  | p where "append_new al key val b = b\<lparr>rbParams := replace_param p (rbParams b)\<rparr>" "param_ok p"
      "epKey p = key" "epVal p = bound_value val"
proof (cases "EncodedParam_Encode al (EncodedParam al key val)")
  case (Pair ok p)
  show thesis
  proof (cases ok)
    case True
    with Pair Encode_new_ok [OF assms, of key val p] show thesis
      by (intro that(2)) (auto simp: AppendValue_param_def)
  next
    case False
    with Pair have "\<not> alloc_total al" using Encode_fresh [OF assms, of key val] by fastforce
    with Pair False show thesis by (intro that(1)) (auto simp: AppendValue_param_def)
  qed
qed

lemma builder_ok_append_new [simp]:
  assumes "alloc_sized al" "builder_ok b"
  shows "builder_ok (append_new al key val b)"
proof (rule append_new_cases [OF assms(1), of key val b])
  fix p assume p: "append_new al key val b = b\<lparr>rbParams := replace_param p (rbParams b)\<rparr>" "param_ok p"
  then show ?thesis
    using assms(2) ps.ins_inv [of "rbParams b" p] set_replace_param(1) [of p "rbParams b"]
    by (auto simp: builder_ok_def list_all_iff)
qed (use assms in simp)

lemma builder_ok_AppendValue:
  assumes "alloc_sized al" "builder_ok b"
  shows "builder_ok (AppendValue al key val b)"
  using assms by (cases val) (simp_all add: AppendValue_def builder_ok_AppendBaseInfoValue)

lemma builder_ok_RemoveParam:
  "builder_ok b \<Longrightarrow> builder_ok (RemoveParam key b)"
  using ps.del_inv [of "rbParams b" key] set_replace_param(2) [of key "rbParams b"]
  by (auto simp: builder_ok_def RemoveParam_def list_all_iff)

section \<open>The block that is built\<close>

definition entries_of :: "builder \<Rightarrow> (string \<times> param_value) list" where
  "entries_of b = map (\<lambda>p. (epKey p, epVal p)) (rbParams b)"

definition builder_block :: "builder \<Rightarrow> byte list" where
  "builder_block b = block_bytes (rbHeader b) (rbTrace b) (entries_of b)"

lemma param_bytes_nonempty: "param_bytes key v \<noteq> []"
  by (simp add: param_bytes_def string_bytes_def varint_bytes_def)

lemma build_params_bytes:
  assumes al: "alloc_sized al" "alloc_total al" and "list_all param_ok ps" "raw_live dest"
  shows "\<exists>d. build_params al ps dest = (True, d, ps) \<and> raw_live d \<and>
    rd_bytes d = rd_bytes dest @ params_bytes (map (\<lambda>p. (epKey p, epVal p)) ps)"
  using assms(3,4)
proof (induction ps arbitrary: dest)
  case Nil
  then show ?case by (simp add: params_bytes_def)
next
  case (Cons p ps)
  from Cons.prems have p: "epHasEncoded p" "raw_live (epRaw p)"
    "rd_bytes (epRaw p) = param_bytes (epKey p) (epVal p)"
    by (simp_all add: param_ok_def)
  let ?c = "RawData_copy al (epRaw p)"
  have c: "raw_live ?c" "rd_bytes ?c = param_bytes (epKey p) (epVal p)"
    using RawData_copy_live [OF al p(2)] p(3) by (simp_all add: param_bytes_nonempty)
  then obtain buf where buf: "rdData ?c = Some buf" "take (rdLen ?c) buf = param_bytes (epKey p) (epVal p)"
    by (auto simp: raw_live_def rd_bytes_def)
  have len: "rdLen ?c = length (param_bytes (epKey p) (epVal p))"
    using rd_bytes_length [OF c(1)] c(2) by simp
  have "RawData_Append al dest (rdData ?c) (rdLen ?c) = append_bytes al (param_bytes (epKey p) (epVal p)) dest"
    using buf by (simp add: RawData_Append_def RawData_Update_def len Let_def flip: len
        split: option.splits)
  moreover obtain d where d: "append_bytes al (param_bytes (epKey p) (epVal p)) dest = (True, d)"
    "raw_live d" "rd_bytes d = rd_bytes dest @ param_bytes (epKey p) (epVal p)"
    using emits_total [OF emits_append_bytes [OF al(1)] Cons.prems(2) al(2)] by metis
  moreover obtain d' where "build_params al ps d = (True, d', ps)" "raw_live d'"
    "rd_bytes d' = rd_bytes d @ params_bytes (map (\<lambda>p. (epKey p, epVal p)) ps)"
    using Cons.IH [of d] Cons.prems d(2) by auto
  ultimately show ?case
    using GetRawData_encoded [OF p(1)]
    by (simp add: RawData_GetData_def RawData_GetDataLength_def params_bytes_def)
qed

lemma emits_BuildHeader:
  assumes "alloc_sized al"
  shows "emits al (BuildHeader al b)
    (header_bytes (rbHeader b) @ (if hdIsTraceOpened (rbHeader b) = 1 then trace_bytes (rbTrace b) else []))"
proof -
  have eq: "BuildHeader al b = and_then (append_bytes al (header_bytes (rbHeader b)))
      (if hdIsTraceOpened (rbHeader b) = 1 then append_bytes al (trace_bytes (rbTrace b))
       else (\<lambda>rd. (True, rd)))"
    by (simp add: fun_eq_iff BuildHeader_def and_then_def split: prod.splits bool.splits)
  have "emits al (if hdIsTraceOpened (rbHeader b) = 1 then append_bytes al (trace_bytes (rbTrace b))
       else (\<lambda>rd. (True, rd)))
     (if hdIsTraceOpened (rbHeader b) = 1 then trace_bytes (rbTrace b) else [])"
    using emits_append_bytes [OF assms, of "trace_bytes (rbTrace b)"] emits_return [of al]
    by (simp only: split: if_split) blast
  with emits_append_bytes [OF assms] show ?thesis unfolding eq by (rule emits_and_then)
qed

lemma Build_bytes:
  assumes al: "alloc_sized al" "alloc_total al" and b: "builder_ok b"
  obtains rd where "Build al b = (Some rd, b)" "raw_live rd" "rd_bytes rd = builder_block b"
proof -
  let ?ht = "header_bytes (rbHeader b) @
    (if hdIsTraceOpened (rbHeader b) = 1 then trace_bytes (rbTrace b) else [])"
  let ?cnt = "u32_bytes (word_of_nat (GetParamCnt b))" and ?tail = "block_tail (rbHeader b) (rbTrace b) (entries_of b)"
  obtain r1 where r1: "append_bytes al (u32_bytes 0) (RawData_new al) = (True, r1)" "raw_live r1"
    "rd_bytes r1 = u32_bytes 0"
    using emits_total [OF emits_append_bytes [OF al(1)] _ al(2), of "RawData_new al" "u32_bytes 0"]
      RawData_new_live [OF al] by (metis append_Nil)
  obtain r2 where r2: "BuildHeader al b r1 = (True, r2)" "raw_live r2" "rd_bytes r2 = u32_bytes 0 @ ?ht"
    using emits_total [OF emits_BuildHeader [OF al(1)] r1(2) al(2), of b] r1(3) by metis
  obtain r3 where r3: "append_bytes al ?cnt r2 = (True, r3)" "raw_live r3"
    "rd_bytes r3 = (u32_bytes 0 @ ?ht) @ ?cnt"
    using emits_total [OF emits_append_bytes [OF al(1)] r2(2) al(2), of ?cnt] r2(3) by metis
  obtain r4 where r4: "build_params al (rbParams b) r3 = (True, r4, rbParams b)" "raw_live r4"
    "rd_bytes r4 = u32_bytes 0 @ ?tail"
    using build_params_bytes [OF al _ r3(2), of "rbParams b"] b r3(3)
    by (auto simp: builder_ok_def block_tail_def entries_of_def GetParamCnt_def)
  have len: "rdLen r4 = 4 + length ?tail" using rd_bytes_length [OF r4(2)] r4(3) by simp
  let ?sz = "u32_bytes (word_of_nat (rdLen r4))"
  obtain r5 where r5: "RawData_Update al r4 (Some ?sz) 4 0 = (True, r5)" "raw_live r5"
    "rd_bytes r5 = ?sz @ ?tail"
    using RawData_Update_cases [OF al(1) r4(2), of ?sz 4 0] al(2) r4(3) by auto
  show thesis
  proof
    show "Build al b = (Some r5, b)"
      using r1(1) r2(1) r3(1) r4(1) r5(1)
      by (simp add: Build_def BuildCustomizedParams_def RawData_GetDataLength_def)
    show "raw_live r5" by (rule r5(2))
    show "rd_bytes r5 = builder_block b" using r5(3) len by (simp add: builder_block_def block_bytes_def)
  qed
qed

section \<open>Reading an event back into a builder\<close>

fun revalue :: "decoded_value \<Rightarrow> param_value" where
  "revalue (DUnsigned v) = UnsignedVal v"
| "revalue (DUnsignedArr vs) = UnsignedArr vs"
| "revalue (DSigned v) = SignedVal v"
| "revalue (DSignedArr vs) = SignedArr vs"
| "revalue (DFloat v) = FloatVal (F64 v)"
| "revalue (DFloatArr vs) = FloatArr64 vs"
| "revalue (DString v) = StringVal v"
| "revalue (DStringArr vs) = StringArr vs"

fun is_single :: "decoded_value \<Rightarrow> bool" where
  "is_single (DUnsigned v) \<longleftrightarrow> True"
| "is_single (DSigned v) \<longleftrightarrow> True"
| "is_single (DFloat v) \<longleftrightarrow> True"
| "is_single (DString v) \<longleftrightarrow> True"
| "is_single v \<longleftrightarrow> False"

lemma view_revalue [simp]: "view_value (revalue v) = v"
  by (cases v) simp_all

lemma bound_revalue: "decoded_bounded v \<Longrightarrow> bound_value (revalue v) = revalue v"
  by (cases v) (auto simp: copy_bounded_take)

lemma bounded_view: "value_bounded v \<Longrightarrow> decoded_bounded (view_value v)"
  by (cases v) auto

lemma init_param_append:
  "init_value_param al p b =
    (if is_single (dpVal p) then append_new al (dpKey p) (revalue (dpVal p)) b else b)"
  "init_array_param al p b =
    (if is_single (dpVal p) then b else append_new al (dpKey p) (revalue (dpVal p)) b)"
  by (cases "dpVal p"; simp add: init_value_param_def init_array_param_def)+

lemma replace_param_fresh: "epKey p \<notin> epKey ` set ps \<Longrightarrow> replace_param p ps = ps @ [p]"
  by (induction ps) auto

lemma append_new_fresh:
  assumes "alloc_sized al" "alloc_total al" "key \<notin> fst ` set (entries_of b)"
  shows "entries_of (append_new al key val b) = entries_of b @ [(key, bound_value val)]"
    "rbHeader (append_new al key val b) = rbHeader b" "rbTrace (append_new al key val b) = rbTrace b"
proof -
  obtain p where p: "append_new al key val b = b\<lparr>rbParams := replace_param p (rbParams b)\<rparr>"
    "epKey p = key" "epVal p = bound_value val"
    using append_new_cases [OF assms(1), of key val b] assms(2) by metis
  moreover have "key \<notin> epKey ` set (rbParams b)" using assms(3) by (force simp: entries_of_def)
  ultimately show "entries_of (append_new al key val b) = entries_of b @ [(key, bound_value val)]"
    "rbHeader (append_new al key val b) = rbHeader b" "rbTrace (append_new al key val b) = rbTrace b"
    by (simp_all add: entries_of_def replace_param_fresh)
qed

text \<open>Adding parameters with fresh and pairwise different keys appends them in order.\<close>

lemma fold_append_fresh:
  assumes "alloc_sized al" "alloc_total al"
    and "\<And>p b. f p b = (if sel p then append_new al (dpKey p) (revalue (dpVal p)) b else b)"
    and "distinct (map dpKey prms)" "dpKey ` set prms \<inter> fst ` set (entries_of b) = {}"
    and "list_all (\<lambda>p. decoded_bounded (dpVal p)) prms"
  shows "entries_of (fold f prms b) =
      entries_of b @ map (\<lambda>p. (dpKey p, revalue (dpVal p))) (filter sel prms) \<and>
    rbHeader (fold f prms b) = rbHeader b \<and> rbTrace (fold f prms b) = rbTrace b"
  using assms(4-)
proof (induction prms arbitrary: b)
  case (Cons p prms)
  have fresh: "dpKey p \<notin> fst ` set (entries_of b)" using Cons.prems(2) by auto
  note new = append_new_fresh [OF assms(1,2) fresh, of "revalue (dpVal p)"]
  have "entries_of (f p b) =
      entries_of b @ (if sel p then [(dpKey p, revalue (dpVal p))] else [])"
    "rbHeader (f p b) = rbHeader b" "rbTrace (f p b) = rbTrace b"
    using new Cons.prems(3) by (simp_all add: assms(3) bound_revalue)
  moreover have "dpKey ` set prms \<inter> fst ` set (entries_of (f p b)) = {}"
    using Cons.prems(1,2) calculation(1) by (force split: if_splits)
  ultimately show ?case using Cons.IH [of "f p b"] Cons.prems by auto
qed simp

lemma fold_skip: "(\<And>p b. \<not> P p \<Longrightarrow> f p b = b) \<Longrightarrow> fold f ps b = fold f (filter P ps) b"
  by (induction ps arbitrary: b) simp_all

lemma InitValueParams_entries:
  assumes al: "alloc_sized al" "alloc_total al" and "distinct (map dpKey prms)" "entries_of b = []"
    and "list_all (\<lambda>p. decoded_bounded (dpVal p)) prms"
  shows "entries_of (InitValueParams al prms b) =
      map (\<lambda>p. (dpKey p, revalue (dpVal p)))
        (filter (\<lambda>p. is_single (dpVal p)) prms @ filter (\<lambda>p. \<not> is_single (dpVal p)) prms) \<and>
    rbHeader (InitValueParams al prms b) = rbHeader b \<and> rbTrace (InitValueParams al prms b) = rbTrace b"
proof -
  let ?b = "fold (init_value_param al) prms b"
  let ?es = "\<lambda>P. map (\<lambda>p. (dpKey p, revalue (dpVal p))) (filter (\<lambda>p. P (dpVal p)) prms)"
  have 1: "entries_of ?b = ?es is_single" "rbHeader ?b = rbHeader b" "rbTrace ?b = rbTrace b"
    using fold_append_fresh [OF al init_param_append(1) assms(3) _ assms(5), of b] assms(4) by simp_all
  have arr: "init_array_param al p b = (if \<not> is_single (dpVal p)
      then append_new al (dpKey p) (revalue (dpVal p)) b else b)" for p b
    by (simp add: init_param_append)
  define arrs where "arrs = filter (\<lambda>p. \<not> is_single (dpVal p)) prms"
  have skip: "fold (init_array_param al) prms b' = fold (init_array_param al) arrs b'" for b'
    unfolding arrs_def by (rule fold_skip) (simp add: init_param_append(2))
  have inj: "inj_on dpKey (set prms)" using assms(3) by (simp add: distinct_map)
  have "dpKey p \<noteq> dpKey q" if "p \<in> set prms" "\<not> is_single (dpVal p)" "q \<in> set prms" "is_single (dpVal q)"
    for p q using inj_onD [OF inj, of p q] that by blast
  then have "dpKey ` set arrs \<inter> fst ` set (entries_of ?b) = {}"
    unfolding 1(1) arrs_def by fastforce
  moreover have "distinct (map dpKey arrs)" "list_all (\<lambda>p. decoded_bounded (dpVal p)) arrs"
    using assms(3,5) by (auto simp: arrs_def distinct_map_filter list_all_iff)
  ultimately have "entries_of (fold (init_array_param al) arrs ?b) =
      entries_of ?b @ map (\<lambda>p. (dpKey p, revalue (dpVal p))) (filter (\<lambda>p. \<not> is_single (dpVal p)) arrs) \<and>
    rbHeader (fold (init_array_param al) arrs ?b) = rbHeader ?b \<and>
    rbTrace (fold (init_array_param al) arrs ?b) = rbTrace ?b"
    by (intro fold_append_fresh [OF al arr])
  then show ?thesis
    by (simp add: InitValueParams_def InitArrayValueParams_def skip 1)
      (simp add: arrs_def)
qed

lemma c_str_props:
  "CHR 0x00 \<notin> set (c_str bs)"
  "0 \<in> set bs \<Longrightarrow> length (c_str bs) < length bs" "0 \<in> set bs \<Longrightarrow> c_str (bs @ rest) = c_str bs"
proof -
  have "byte_of_char (CHR 0x00) = 0" by (simp add: byte_of_char_def)
  then have "char_of_byte b \<noteq> CHR 0x00" if "b \<noteq> 0" for b
    using that byte_of_char_of_byte [of b] by metis
  then show "CHR 0x00 \<notin> set (c_str bs)"
    by (auto simp: c_str_def string_of_bytes_def dest!: set_takeWhileD) metis
  show "0 \<in> set bs \<Longrightarrow> length (c_str bs) < length bs"
    by (induction bs) (auto simp: c_str_def string_of_bytes_def)
  show "0 \<in> set bs \<Longrightarrow> c_str (bs @ rest) = c_str bs"
    by (simp add: c_str_def takeWhile_append1 [of 0 bs])
qed

lemma header_texts:
  assumes "text_ok MAX_DOMAIN_LENGTH (hdDomain h)" "text_ok MAX_EVENT_NAME_LENGTH (hdName h)"
  shows "c_str (header_bytes h) = c_str (hdDomain h)"
    "c_str (drop (MAX_DOMAIN_LENGTH + 1) (header_bytes h)) = c_str (hdName h)"
    "c_string_at 0 h = Inr (c_str (hdDomain h))"
    "c_string_at (MAX_DOMAIN_LENGTH + 1) h = Inr (c_str (hdName h))"
proof -
  from assms have z: "0 \<in> set (hdDomain h)" "0 \<in> set (hdName h)" "length (hdDomain h) = MAX_DOMAIN_LENGTH + 1"
    by (simp_all add: text_ok_def)
  show 1: "c_str (header_bytes h) = c_str (hdDomain h)"
    "c_str (drop (MAX_DOMAIN_LENGTH + 1) (header_bytes h)) = c_str (hdName h)"
    using z by (simp_all add: header_bytes_def c_str_props(3))
  show "c_string_at 0 h = Inr (c_str (hdDomain h))"
    using 1(1) z(1) by (simp add: c_string_at_def header_bytes_def)
  show "c_string_at (MAX_DOMAIN_LENGTH + 1) h = Inr (c_str (hdName h))"
    using 1(2) z by (simp add: c_string_at_def header_bytes_def)
qed

lemma c_str_put_c_str:
  assumes "text_ok n arr" "length arr' = n + 1"
  shows "c_str (put_text n (c_str arr) arr') = c_str arr"
  using c_str_put_text [OF assms(2) c_str_props(1), of arr "[]"] c_str_props(2) [of arr] assms(1)
  by (simp add: text_ok_def)

lemma type_bits: "ucast (ucast (word_of_nat (unat (ty :: 2 word) + 1) - 1 :: i32) :: u8) = ty"
proof -
  have "unat ty < 4" using unsigned_less [of ty, where ?'a = nat] by simp
  then consider "unat ty = 0" | "unat ty = 1" | "unat ty = 2" | "unat ty = 3" by linarith
  then show ?thesis by cases (simp_all add: word_unat_eq_iff)
qed

text \<open>The header calls of the constructor from raw data.\<close>

definition copy_header :: "hisysevent_header \<Rightarrow> trace_info \<Rightarrow> string \<Rightarrow> string \<Rightarrow> builder" where
  "copy_header h t domain nm =
     (let b1 = AppendName nm (AppendDomain domain RawDataBuilder_empty);
          b2 = AppendType (word_of_nat (unat (hdType h) + 1)) b1;
          b3 = AppendTimeZone (hdTimeZone h) (AppendTimeStamp (hdTimestamp h) b2);
          b4 = AppendPid (hdPid h) (AppendUid (hdUid h) (AppendLog (hdLog h) b3));
          b5 = AppendId (hdId h) (AppendTid (hdTid h) b4)
      in if hdIsTraceOpened h = 1
         then AppendTraceInfo (tiTraceId t) (tiSpanId t) (tiPSpanId t) (tiTraceFlag t) b5
         else b5)"

lemma one_bit: "(w :: 1 word) \<noteq> 1 \<longleftrightarrow> w = 0"
proof -
  have "unat w < 2" using unsigned_less [of w, where ?'a = nat] by simp
  then consider "unat w = 0" | "unat w = 1" by linarith
  then show ?thesis by cases (simp_all add: word_unat_eq_iff)
qed

lemma AppendType_code:
  "AppendType (word_of_nat (unat ty + 1)) b = b\<lparr>rbHeader := (rbHeader b)\<lparr>hdType := ty\<rparr>\<rparr>"
  by (simp only: AppendType_def type_bits)

lemma copy_header_fields:
  "entries_of (copy_header h t domain nm) = []"
  "rbHeader (copy_header h t domain nm) =
     h\<lparr>hdDomain := put_text MAX_DOMAIN_LENGTH domain (hdDomain zero_header),
       hdName := put_text MAX_EVENT_NAME_LENGTH nm (hdName zero_header)\<rparr>"
  "rbTrace (copy_header h t domain nm) = (if hdIsTraceOpened h = 1 then t else zero_trace)"
  unfolding copy_header_def AppendType_code Let_def
  by (cases h, cases t, simp add: header_op_defs RawDataBuilder_empty_def zero_header_def
      entries_of_def one_bit)+

text \<open>The entries of a builder made from the block of another: single values first.\<close>

definition reordered :: "(string \<times> param_value) list \<Rightarrow> (string \<times> param_value) list" where
  "reordered es =
     (let ds = map (\<lambda>(k, v). (k, view_value v)) es in
      map (\<lambda>(k, d). (k, revalue d))
        (filter (\<lambda>(k, d). is_single d) ds @ filter (\<lambda>(k, d). \<not> is_single d) ds))"

lemma map_filter_entry:
  "map (\<lambda>p. (dpKey p, revalue (dpVal p))) (filter (\<lambda>p. P (dpVal p)) prms) =
    map (\<lambda>(k, d). (k, revalue d)) (filter (\<lambda>(k, d). P d) (map entry_of prms))"
  by (induction prms) (auto simp: entry_of_def)

lemma RawDataBuilder_raw_block:
  assumes al: "alloc_sized al" "alloc_total al" and b: "builder_ok b"
    and rd: "raw_live rd" "rd_bytes rd = builder_block b"
    and len: "length (builder_block b) \<le> MAX_BLOCK_SIZE" "GetParamCnt b \<le> MAX_PARAM_CNT"
  obtains b' where "RawDataBuilder_raw al (Some rd) = Inr b'" "entries_of b' = reordered (entries_of b)"
    "GetDomain b' = GetDomain b" "GetName b' = GetName b"
    "rbHeader b' = (rbHeader b)\<lparr>hdDomain := hdDomain (rbHeader b'), hdName := hdName (rbHeader b')\<rparr>"
    "rbTrace b' = (if hdIsTraceOpened (rbHeader b) = 1 then rbTrace b else zero_trace)"
proof -
  let ?h = "rbHeader b" and ?tr = "rbTrace b" and ?bs = "builder_block b"
  obtain buf where buf: "rdData rd = Some buf" "take (rdLen rd) buf = ?bs"
    using rd by (auto simp: raw_live_def rd_bytes_def)
  then have data: "rdData rd = Some (?bs @ drop (rdLen rd) buf)" "rdLen rd = length ?bs"
    using rd_bytes_length [OF rd(1)] rd(2) by (metis append_take_drop_id, simp)
  have vals: "list_all (\<lambda>(key, v). value_bounded v) (entries_of b)"
    using b by (auto simp: builder_ok_def param_ok_def entries_of_def list_all_iff)
  have cnt: "length (entries_of b) \<le> MAX_PARAM_CNT" using len(2) by (simp add: entries_of_def GetParamCnt_def)
  obtain prms where dec: "DecodedEvent al (rdData rd) (rdLen rd) =
      Inr \<lparr>deRaw = Some ?bs, dePos = length ?bs, deHeader = ?h,
        deTrace = (if hdIsTraceOpened ?h = 1 then ?tr else zero_trace), deValid = True, deParams = prms\<rparr>"
    and prms: "map entry_of prms = map (\<lambda>(key, v). (key, view_value v)) (entries_of b)"
    using DecodedEvent_block [OF al builder_ok_header [OF b] _ cnt vals] len(1) data
    unfolding builder_block_def by metis
  have keys: "map dpKey prms = map epKey (rbParams b)"
    using arg_cong [OF prms, of "map fst"] by (simp add: entry_of_def entries_of_def comp_def case_prod_beta)
  have "map dpVal prms = map (\<lambda>p. view_value (epVal p)) (rbParams b)"
    using arg_cong [OF prms, of "map snd"] by (simp add: entry_of_def entries_of_def comp_def case_prod_beta)
  then have bounded: "list_all (\<lambda>p. decoded_bounded (dpVal p)) prms"
    using b unfolding builder_ok_def param_ok_def list_all_iff
    by (metis (no_types, lifting) bounded_view in_set_conv_nth length_map nth_map)
  have txt_ok: "text_ok MAX_DOMAIN_LENGTH (hdDomain ?h)" "text_ok MAX_EVENT_NAME_LENGTH (hdName ?h)"
    using b by (simp_all add: builder_ok_def)
  define b6 where "b6 = copy_header ?h (if hdIsTraceOpened ?h = 1 then ?tr else zero_trace)
    (c_str (hdDomain ?h)) (c_str (hdName ?h))"
  let ?b' = "InitValueParams al prms b6"
  have b6: "entries_of b6 = []"
    "rbHeader b6 = ?h\<lparr>hdDomain := put_text MAX_DOMAIN_LENGTH (c_str (hdDomain ?h)) (hdDomain zero_header),
       hdName := put_text MAX_EVENT_NAME_LENGTH (c_str (hdName ?h)) (hdName zero_header)\<rparr>"
    "rbTrace b6 = (if hdIsTraceOpened ?h = 1 then ?tr else zero_trace)"
    by (simp_all add: b6_def copy_header_fields)
  note init = InitValueParams_entries [OF al _ b6(1) bounded]
  show thesis
  proof
    show "RawDataBuilder_raw al (Some rd) = Inr ?b'"
      using dec header_texts [OF txt_ok]
      by (simp add: RawDataBuilder_raw_def RawData_GetData_def RawData_GetDataLength_def b6_def
          copy_header_def Let_def)
    show "entries_of ?b' = reordered (entries_of b)"
      using init keys b prms map_filter_entry [of is_single prms]
        map_filter_entry [of "\<lambda>d. \<not> is_single d" prms]
      by (simp add: builder_ok_def reordered_def Let_def)
    have hdr: "rbHeader ?b' = rbHeader b6" "rbTrace ?b' = rbTrace b6"
      using init keys b by (simp_all add: builder_ok_def)
    then show "rbHeader ?b' = ?h\<lparr>hdDomain := hdDomain (rbHeader ?b'), hdName := hdName (rbHeader ?b')\<rparr>"
      "rbTrace ?b' = (if hdIsTraceOpened ?h = 1 then ?tr else zero_trace)"
      using b6(2,3) by simp_all
    have z: "length (hdDomain zero_header) = MAX_DOMAIN_LENGTH + 1"
      "length (hdName zero_header) = MAX_EVENT_NAME_LENGTH + 1"
      by (simp_all add: zero_header_def)
    have "text_ok MAX_DOMAIN_LENGTH (hdDomain (rbHeader b6))"
      "text_ok MAX_EVENT_NAME_LENGTH (hdName (rbHeader b6))"
      using put_text_ok [OF z(1)] put_text_ok [OF z(2)] b6(2) by simp_all
    note this = header_texts(1,2) [OF this] header_texts(1,2) [OF txt_ok]
    then show "GetDomain ?b' = GetDomain b" "GetName ?b' = GetName b"
      using c_str_put_c_str [OF txt_ok(1) z(1)] c_str_put_c_str [OF txt_ok(2) z(2)] b6(2)
      by (simp_all add: GetDomain_def GetName_def hdr)
  qed
qed

end
