(* ===== verification/Builder_Runs.thy ===== *)
theory Builder_Runs
  imports Raw_Data_Builder
begin

text \<open>
  The life of a \<open>RawDataBuilder\<close>: every state that its constructors and public operations can
  reach, and the invariant of these states by rule induction. The last section covers what the
  builder does with a parameter object that was encoded before.
\<close>

section \<open>Reachable builders\<close>

inductive reachable_builder :: "alloc \<Rightarrow> builder \<Rightarrow> bool" for al :: alloc where
  made_empty: "reachable_builder al RawDataBuilder_empty"
| made_named: "reachable_builder al (RawDataBuilder_named domain nm eventType)"
| made_raw: "RawDataBuilder_raw al rawData = Inr b \<Longrightarrow> reachable_builder al b"
| set_domain: "reachable_builder al b \<Longrightarrow> reachable_builder al (AppendDomain s b)"
| set_name: "reachable_builder al b \<Longrightarrow> reachable_builder al (AppendName s b)"
| set_type: "reachable_builder al b \<Longrightarrow> reachable_builder al (AppendType i b)"
| set_time: "reachable_builder al b \<Longrightarrow> reachable_builder al (AppendTimeStamp w b)"
| set_zone_text: "reachable_builder al b \<Longrightarrow> reachable_builder al (AppendTimeZone_str s b)"
| set_zone: "reachable_builder al b \<Longrightarrow> reachable_builder al (AppendTimeZone u b)"
| set_uid: "reachable_builder al b \<Longrightarrow> reachable_builder al (AppendUid v b)"
| set_pid: "reachable_builder al b \<Longrightarrow> reachable_builder al (AppendPid v b)"
| set_tid: "reachable_builder al b \<Longrightarrow> reachable_builder al (AppendTid v b)"
| set_log: "reachable_builder al b \<Longrightarrow> reachable_builder al (AppendLog u b)"
| set_id: "reachable_builder al b \<Longrightarrow> reachable_builder al (AppendId w b)"
| set_id_text: "reachable_builder al b \<Longrightarrow> reachable_builder al (AppendId_str s b)"
| set_trace: "reachable_builder al b \<Longrightarrow> reachable_builder al (AppendTraceInfo w v v' u b)"
| set_value: "reachable_builder al b \<Longrightarrow> reachable_builder al (AppendValue al key arg b)"
| set_param: "reachable_builder al b \<Longrightarrow> reachable_builder al (append_new al key val b)"
| removed: "reachable_builder al b \<Longrightarrow> reachable_builder al (RemoveParam key b)"
| built: "reachable_builder al b \<Longrightarrow> reachable_builder al (snd (Build al b))"

lemma builder_ok_init:
  assumes "alloc_sized al" "builder_ok b"
  shows "builder_ok (InitValueParams al prms b)"
proof -
  have "builder_ok (fold (init_value_param al) prms b)" if "builder_ok b" for b prms
    using that by (induction prms arbitrary: b) (simp_all add: init_param_append assms(1))
  moreover have "builder_ok (fold (init_array_param al) prms b)" if "builder_ok b" for b prms
    using that by (induction prms arbitrary: b) (simp_all add: init_param_append assms(1))
  ultimately show ?thesis using assms(2) by (simp add: InitValueParams_def InitArrayValueParams_def)
qed

lemma builder_ok_raw:
  assumes "alloc_sized al" "RawDataBuilder_raw al rawData = Inr b"
  shows "builder_ok b"
  using assms(2)
  by (auto simp: RawDataBuilder_raw_def Let_def assms(1) builder_ok_init
      split: option.splits sum.splits)

lemma build_params_keeps:
  "list_all epHasEncoded ps \<Longrightarrow> snd (snd (build_params al ps dest)) = ps"
proof (induction ps arbitrary: dest)
  case (Cons p ps)
  then have p: "EncodedParam_GetRawData al p = (epRaw p, p)" and ps: "list_all epHasEncoded ps"
    by (simp_all add: EncodedParam_GetRawData_def)
  show ?case
    using Cons.IH [OF ps] by (auto simp: p Let_def split: prod.splits bool.splits) (metis snd_conv)
qed simp

lemma Build_keeps: "builder_ok b \<Longrightarrow> snd (Build al b) = b"
proof -
  assume b: "builder_ok b"
  have "list_all epHasEncoded (rbParams b)"
    using b by (auto simp: builder_ok_def param_ok_def list_all_iff)
  then have "snd (snd (BuildCustomizedParams al b d)) = b" for d
    using build_params_keeps [of "rbParams b" al d]
    by (auto simp: BuildCustomizedParams_def split: prod.splits)
  then show ?thesis
    by (auto simp: Build_def split: prod.splits bool.splits) (metis snd_conv)+
qed

lemma reachable_builder_ok:
  assumes "alloc_sized al" "reachable_builder al b"
  shows "builder_ok b"
  using assms(2)
proof (induction rule: reachable_builder.induct)
  case (made_raw rawData b)
  with assms(1) show ?case by (rule builder_ok_raw)
qed (simp_all add: assms(1) RawDataBuilder_named_def builder_ok_AppendValue builder_ok_RemoveParam
    Build_keeps)

section \<open>Lookups after an operation\<close>

lemma GetValue_append_new:
  assumes "alloc_sized al" "alloc_total al" "builder_ok b"
  shows "map_option epVal (GetValue k (append_new al key val b)) =
    (if k = key then Some (bound_value val) else map_option epVal (GetValue k b))"
proof -
  obtain p where p: "append_new al key val b = b\<lparr>rbParams := replace_param p (rbParams b)\<rparr>"
    "epKey p = key" "epVal p = bound_value val"
    using append_new_cases [OF assms(1), of key val b] assms(2) by metis
  then show ?thesis
    using ps.lookup_ins [of "rbParams b" k p] assms(3) by (simp add: GetValue_def builder_ok_def)
qed

lemma GetValue_RemoveParam:
  "builder_ok b \<Longrightarrow> GetValue k (RemoveParam key b) = (if k = key then None else GetValue k b)"
  using ps.lookup_del [of "rbParams b" k key] by (simp add: GetValue_def RemoveParam_def builder_ok_def)

section \<open>Encoding a parameter again\<close>

lemma Encode_again:
  assumes "alloc_sized al" "alloc_total al" "param_ok p"
  obtains p' where "EncodedParam_Encode al p = (True, p')" "epKey p' = epKey p" "epVal p' = epVal p"
    "raw_live (epRaw p')" "epHasEncoded p'"
    "rd_bytes (epRaw p') = param_bytes (epKey p) (epVal p) @ param_bytes (epKey p) (epVal p)"
proof -
  obtain ok p' where e: "EncodedParam_Encode al p = (ok, p')" by (cases "EncodedParam_Encode al p")
  have live: "raw_live (epRaw p)" "rd_bytes (epRaw p) = param_bytes (epKey p) (epVal p)"
    using assms(3) by (simp_all add: param_ok_def)
  note a = Encode_appends [OF assms(1) live(1) e]
  have ok: ok using a(2) assms(2) .
  show thesis
    by (rule that [of p']) (use e ok a live(2) Encode_keeps [of al p] in auto)
qed

end
