(* ===== verification/Event_Raw_Facts.thy ===== *)
theory Event_Raw_Facts
  imports Builder_Runs
begin

text \<open>
  Facts about the event codec as a whole, each stated over the operations a caller uses: a built
  block decodes to the event it was built from, a builder made from it has the same content,
  single values survive encoding and decoding in place, texts of ids survive printing and
  reading, and what happens on inputs the encoder never produces.
\<close>

section \<open>Built blocks\<close>

lemma Build_decode:
  assumes al: "alloc_sized al" "alloc_total al" and b: "builder_ok b"
    and len: "length (builder_block b) \<le> MAX_BLOCK_SIZE" "GetParamCnt b \<le> MAX_PARAM_CNT"
  obtains rd ev where "Build al b = (Some rd, b)" "raw_live rd" "rd_bytes rd = builder_block b"
    "DecodedEvent al (RawData_GetData rd) (RawData_GetDataLength rd) = Inr ev"
    "deValid ev" "deHeader ev = rbHeader b" "dePos ev = length (builder_block b)"
    "deTrace ev = (if hdIsTraceOpened (rbHeader b) = 1 then rbTrace b else zero_trace)"
    "map entry_of (deParams ev) = map (\<lambda>(k, v). (k, view_value v)) (entries_of b)"
proof -
  obtain rd where rd: "Build al b = (Some rd, b)" "raw_live rd" "rd_bytes rd = builder_block b"
    using Build_bytes [OF al b] .
  obtain buf where "rdData rd = Some buf" "take (rdLen rd) buf = builder_block b"
    using rd(2,3) by (auto simp: raw_live_def rd_bytes_def)
  then have data: "rdData rd = Some (builder_block b @ drop (rdLen rd) buf)"
    by (metis append_take_drop_id)
  have n: "rdLen rd = length (builder_block b)" using rd_bytes_length [OF rd(2)] rd(3) by simp
  have vals: "list_all (\<lambda>(key, v). value_bounded v) (entries_of b)"
    using b by (auto simp: builder_ok_def param_ok_def entries_of_def list_all_iff)
  have cnt: "length (entries_of b) \<le> MAX_PARAM_CNT"
    using len(2) by (simp add: entries_of_def GetParamCnt_def)
  obtain prms where dec: "DecodedEvent al (rdData rd) (rdLen rd) =
      Inr \<lparr>deRaw = Some (builder_block b), dePos = length (builder_block b), deHeader = rbHeader b,
        deTrace = (if hdIsTraceOpened (rbHeader b) = 1 then rbTrace b else zero_trace),
        deValid = True, deParams = prms\<rparr>"
    and prms: "map entry_of prms = map (\<lambda>(key, v). (key, view_value v)) (entries_of b)"
    using DecodedEvent_block [OF al builder_ok_header [OF b] _ cnt vals] len(1) data n
    unfolding builder_block_def by metis
  show thesis
    by (rule that [OF rd dec [folded RawData_GetData_def RawData_GetDataLength_def]]) (use prms in simp_all)
qed

section \<open>Values in place\<close>

lemma value_in_place:
  assumes al: "alloc_sized al" and live: "raw_live rd" and v: "value_bounded v"
    and enc: "EncodeValue al v rd = (True, rd')" and len: "rdLen rd' < 2 ^ 63"
  shows "DecodeValue (EncodedParam_GetDataCodedType v) (Some (rd_bytes rd')) (rdLen rd') (rdLen rd) =
    Done (view_value v) (rdLen rd')"
proof -
  have e: "raw_live rd'" "rd_bytes rd' = rd_bytes rd @ value_bytes v"
    using emits_EncodeValue [OF al, of v, unfolded emits_def, rule_format, OF live enc] by simp_all
  have l: "length (rd_bytes rd) = rdLen rd" "length (rd_bytes rd') = rdLen rd'"
    using rd_bytes_length [OF live] rd_bytes_length [OF e(1)] by simp_all
  then have n: "rdLen rd + length (value_bytes v) = rdLen rd'" using e(2) by simp
  have "drop (rdLen rd) (rd_bytes rd') = value_bytes v @ []" using e(2) l(1) by simp
  from DecodeValue_bytes [OF this, of "rdLen rd'"] show ?thesis
    using n l(2) len v by (simp add: readable_def)
qed

lemma varint_in_place:
  assumes al: "alloc_sized al" and live: "raw_live rd"
    and enc: "UnsignedVarintEncoded al ty v rd = (True, rd')"
  shows "UnsignedVarintDecoded (Some (rd_bytes rd')) (rdLen rd') (rdLen rd) = Done v (rdLen rd')"
    "rdLen rd < rdLen rd'" "rdLen rd' \<le> rdLen rd + 10"
proof -
  have e: "raw_live rd'" "rd_bytes rd' = rd_bytes rd @ varint_bytes ty v"
    using emits_UnsignedVarintEncoded [OF al, of ty v, unfolded emits_def, rule_format, OF live enc]
    by simp_all
  have l: "length (rd_bytes rd) = rdLen rd" "length (rd_bytes rd') = rdLen rd'"
    using rd_bytes_length [OF live] rd_bytes_length [OF e(1)] by simp_all
  then have n: "rdLen rd + length (varint_bytes ty v) = rdLen rd'" using e(2) by simp
  then show "rdLen rd < rdLen rd'" "rdLen rd' \<le> rdLen rd + 10"
    using length_varint_bytes [of ty v] by simp_all
  have "drop (rdLen rd) (rd_bytes rd') = varint_bytes ty v @ []" using e(2) l(1) by simp
  from UnsignedVarintDecoded_bytes [OF this, of "rdLen rd'"]
  show "UnsignedVarintDecoded (Some (rd_bytes rd')) (rdLen rd') (rdLen rd) = Done v (rdLen rd')"
    using n l(2) by simp
qed

section \<open>Over-long varints\<close>

lemma varint_dec_loop_overlong:
  assumes "maxLen \<le> length raw" "pos + k < maxLen" "off + 7 * k \<ge> 64"
    and "\<And>i. i < k \<Longrightarrow> bit (raw ! (pos + i)) 7"
  shows "varint_dec_loop raw maxLen pos val off = Undef ShiftTooLarge"
  using assms(2-)
proof (induction k arbitrary: pos val off)
  case 0
  with assms(1) show ?case by (subst varint_dec_loop.simps) simp
next
  case (Suc k)
  have b: "raw ! pos AND word_of_nat NON_TAG_BYTE_BOUND \<noteq> 0"
    using Suc.prems(3) [of 0] flag_test(2) [of "raw ! pos"] by (simp add: tag_words)
  have IH: "varint_dec_loop raw maxLen (pos + 1) val' (off + 7) = Undef ShiftTooLarge" for val'
    by (rule Suc.IH) (use Suc.prems(1,2) Suc.prems(3) [of "Suc i" for i] in auto)
  from b IH Suc.prems(1) assms(1) show ?case
    by (subst varint_dec_loop.simps) (simp add: Let_def NON_TAG_BYTE_OFFSET_def)
qed

lemma UnsignedVarintDecoded_overlong:
  assumes "maxLen \<le> length raw" "pos + 10 < maxLen" "bit (raw ! pos) 5"
    and "\<And>i. 1 \<le> i \<Longrightarrow> i \<le> 9 \<Longrightarrow> bit (raw ! (pos + i)) 7"
  shows "UnsignedVarintDecoded (Some raw) maxLen pos = Undef ShiftTooLarge"
proof -
  have "bit (raw ! (pos + 1 + i)) 7" if "i < 9" for i
    using assms(4) [of "Suc i"] that by simp
  then have "varint_dec_loop raw maxLen (pos + 1) val 5 = Undef ShiftTooLarge" for val
    using assms by (intro varint_dec_loop_overlong [where k = 9]) auto
  moreover have "raw ! pos AND word_of_nat TAG_BYTE_BOUND \<noteq> 0"
    using flag_test(1) [of "raw ! pos"] assms(3) by (simp add: tag_words)
  ultimately show ?thesis
    using assms by (simp add: UnsignedVarintDecoded_def Let_def TAG_BYTE_OFFSET_def)
qed

section \<open>Texts of numbers\<close>

lemma hex_roundtrip:
  "(TransHexStrToNum (TransNumToHexStr (v :: 'a :: len word)) :: 'a word) = v"
proof -
  have "unat v < 2 ^ LENGTH('a)" by (rule unsigned_less)
  then have "stream_unsigned 16 LENGTH('a) (show_base 16 (unat v)) = unat v"
    using stream_unsigned_digits [of 16 "show_base 16 (unat v)" "LENGTH('a)"]
    by (simp add: show_base_digits read_digits_show_base)
  then show ?thesis by (simp add: TransHexStrToNum_def TransNumToHexStr_def show_hex_def)
qed

lemma id_text_digits:
  "list_all (\<lambda>c. \<exists>d<10. digit_value c = Some d) (TransUInt64ToFixedLengthStr v)"
  "read_digits 10 0 (TransUInt64ToFixedLengthStr v) = unat v"
  using show_base_digits [of 10 "unat v"] read_digits_show_base [of 10 "unat v"]
  by (auto simp: TransUInt64ToFixedLengthStr_def show_nat_def Let_def read_digits_pad list_all_iff
      digit_value_def)

lemma id_roundtrip: "hdId (rbHeader (AppendId_str (TransUInt64ToFixedLengthStr v) b)) = v"
proof -
  have "unat v < 2 ^ 64" using unsigned_less [of v, where ?'a = nat] by simp
  then have "stream_unsigned 10 64 (TransUInt64ToFixedLengthStr v) = unat v"
    using stream_unsigned_digits [OF id_text_digits(1), of v 64] by (simp add: id_text_digits(2))
  then show ?thesis by (simp add: AppendId_str_def AppendId_def)
qed

section \<open>Headers whose domain has no terminator\<close>

lemma unterminated_domain:
  assumes "length (hdDomain h) = MAX_DOMAIN_LENGTH + 1" "0 \<notin> set (hdDomain h)"
    and "text_ok MAX_EVENT_NAME_LENGTH (hdName h)"
  shows "c_string_at 0 h = Inr (string_of_bytes (hdDomain h) @ c_str (hdName h))"
proof -
  have z: "0 \<in> set (hdName h)" using assms(3) by (simp add: text_ok_def)
  have "takeWhile (\<lambda>b. b \<noteq> 0) (hdDomain h @ xs) = hdDomain h @ takeWhile (\<lambda>b. b \<noteq> 0) xs" for xs
    using assms(2) by (auto simp: takeWhile_append)
  then have "c_str (hdDomain h @ hdName h @ xs) = string_of_bytes (hdDomain h) @ c_str (hdName h)" for xs
    using c_str_props(3) [OF z, of xs] by (simp add: c_str_def string_of_bytes_def)
  with z show ?thesis by (simp add: c_string_at_def header_bytes_def)
qed

lemma unterminated_domain_lost:
  assumes al: "alloc_sized al" "alloc_total al" and h: "header_ok h" "0 \<notin> set (hdDomain h)"
    and nm: "text_ok MAX_EVENT_NAME_LENGTH (hdName h)" "c_str (hdName h) \<noteq> []"
    and n: "length (block_bytes h tr []) \<le> MAX_BLOCK_SIZE"
  obtains b where "RawDataBuilder_raw al (Some (RawData_from al (Some (block_bytes h tr []))
      (length (block_bytes h tr [])))) = Inr b" "GetDomain b = []" "GetName b = c_str (hdName h)"
proof -
  let ?bs = "block_bytes h tr []" and ?t = "if hdIsTraceOpened h = 1 then tr else zero_trace"
  let ?rd = "RawData_from al (Some ?bs) (length ?bs)"
  let ?dom = "string_of_bytes (hdDomain h) @ c_str (hdName h)" and ?nm = "c_str (hdName h)"
  define b where "b = copy_header h ?t ?dom ?nm"
  have pos: "0 < length ?bs" by (simp add: length_block_bytes)
  have live: "raw_live ?rd" "rd_bytes ?rd = ?bs" using RawData_from_live [OF al pos, of ?bs] by simp_all
  obtain buf where "rdData ?rd = Some buf" "take (rdLen ?rd) buf = ?bs"
    using live by (auto simp: raw_live_def rd_bytes_def)
  then have data: "rdData ?rd = Some (?bs @ drop (rdLen ?rd) buf)" by (metis append_take_drop_id)
  have len: "rdLen ?rd = length ?bs" using rd_bytes_length [OF live(1)] live(2) by simp
  obtain prms where "map entry_of prms = map (\<lambda>(key, v). (key, view_value v)) []"
    "DecodedEvent al (Some (?bs @ drop (rdLen ?rd) buf)) (length ?bs) =
      Inr \<lparr>deRaw = Some ?bs, dePos = length ?bs, deHeader = h, deTrace = ?t, deValid = True, deParams = prms\<rparr>"
    by (rule DecodedEvent_block [OF al h(1) n, of "drop (rdLen ?rd) buf"]) simp_all
  then have dec: "DecodedEvent al (rdData ?rd) (rdLen ?rd) =
      Inr \<lparr>deRaw = Some ?bs, dePos = length ?bs, deHeader = h, deTrace = ?t, deValid = True, deParams = []\<rparr>"
    using data len by simp
  have dl: "length (hdDomain h) = MAX_DOMAIN_LENGTH + 1" using h(1) by (simp add: header_ok_def)
  have nm_at: "c_string_at (MAX_DOMAIN_LENGTH + 1) h = Inr ?nm"
    using nm(1) dl by (simp add: c_string_at_def header_bytes_def text_ok_def c_str_props(3))
  have "RawDataBuilder_raw al (Some ?rd) = Inr b"
    using dec unterminated_domain [OF dl h(2) nm(1)] nm_at
    by (simp add: RawDataBuilder_raw_def RawData_GetData_def RawData_GetDataLength_def b_def
        copy_header_def InitValueParams_def InitArrayValueParams_def Let_def)
  moreover have "GetDomain b = []"
  proof -
    have "takeWhile (\<lambda>b. b \<noteq> 0) (hdDomain h) = hdDomain h"
      unfolding takeWhile_eq_all_conv using h(2) by blast
    then have "string_of_bytes (hdDomain h) = c_str (hdDomain h)" by (simp only: c_str_def)
    then have no: "CHR 0x00 \<notin> set ?dom" by (simp add: c_str_props(1))
    have long: "length ?dom > MAX_DOMAIN_LENGTH + 1" using dl nm(2) by simp
    have "c_str (put_text MAX_DOMAIN_LENGTH ?dom (hdDomain zero_header) @ rest) = []" for rest
      using c_str_put_text [OF _ no, of "hdDomain zero_header" MAX_DOMAIN_LENGTH rest] long
      by (simp add: zero_header_def)
    then show ?thesis by (simp add: b_def GetDomain_def header_bytes_def copy_header_fields)
  qed
  moreover have "GetName b = ?nm"
  proof -
    have "c_str (put_text MAX_EVENT_NAME_LENGTH ?nm (hdName zero_header)) = ?nm"
      by (rule c_str_put_c_str [OF nm(1)]) (simp add: zero_header_def)
    moreover have "0 \<in> set (put_text MAX_EVENT_NAME_LENGTH ?nm (hdName zero_header))"
      "length (put_text MAX_DOMAIN_LENGTH ?dom (hdDomain zero_header)) = MAX_DOMAIN_LENGTH + 1"
      using put_text_ok [of "hdName zero_header" MAX_EVENT_NAME_LENGTH ?nm]
        put_text_ok [of "hdDomain zero_header" MAX_DOMAIN_LENGTH ?dom]
      by (simp_all add: zero_header_def text_ok_def)
    ultimately show ?thesis
      by (simp add: b_def GetName_def header_bytes_def copy_header_fields c_str_props(3))
  qed
  ultimately show thesis by (rule that)
qed

section \<open>Time zones\<close>

lemma zone_text_roundtrip:
  "ParseTimeZone_val (hdTimeZone (rbHeader (AppendTimeZone_str s b))) =
    (if s \<in> set ALL_TIME_ZONES then s else ''+0000'')"
proof -
  have len: "length ALL_TIME_ZONES = 38" by (simp add: ALL_TIME_ZONES_def)
  have val: "ParseTimeZone_val (word_of_nat n) = ALL_TIME_ZONES ! n" if "n < 38" for n
    using that by (simp add: ParseTimeZone_val_def len unat_of_nat)
  show ?thesis
  proof (cases "s \<in> set ALL_TIME_ZONES")
    case True
    with tz_search_found [OF True, of 0] len show ?thesis
      by (simp add: AppendTimeZone_str_def ParseTimeZone_str_def val)
  next
    case False
    with tz_search_missing [OF False, of 0] val [of 14] show ?thesis
      by (simp add: AppendTimeZone_str_def ParseTimeZone_str_def DEFAULT_TZ_POS_def)
        (simp add: ALL_TIME_ZONES_def)
  qed
qed

end
