(* ===== verification/Json_Builder_Parser.thy ===== *)
theory Json_Builder_Parser
  imports Builder_Runs
begin

text \<open>
  \<open>RawDataBuilderJsonParser\<close> (base/event_raw/encoded/raw_data_builder_json_parser.cpp): a table
  driven automaton over the characters of a flat JSON object. Every member it recognises is
  appended to a builder, typed by the state the value ended in.
\<close>

section \<open>The status table\<close>

datatype jstatus = STATUS_NONE | STATUS_RUN | STATUS_KEY_PARSE | STATUS_VALUE_PARSE
  | STATUS_STRING_PARSE | STATUS_DOUBLE_PARSE | STATUS_INT_PARSE | STATUS_ARRAY_PARSE
  | STATUS_STRING_ITEM_PARSE | STATUS_DOUBLE_ITEM_PARSE | STATUS_INT_ITEM_PARSE
  | STATUS_ESCAPE_CHAR_PARSE | STATUS_ESCAPE_CHAR_ITEM_PARSE

definition InitNoneStatus :: "char \<Rightarrow> jstatus" where
  "InitNoneStatus c = (if c = CHR 0x7B then STATUS_RUN else STATUS_NONE)"

definition InitRunStatus :: "char \<Rightarrow> jstatus" where
  "InitRunStatus c =
     (if c = CHR 0x22 then STATUS_KEY_PARSE
      else if c = CHR '':'' then STATUS_VALUE_PARSE
      else if c = CHR 0x7D then STATUS_NONE
      else STATUS_RUN)"

definition InitKeyParseStatus :: "char \<Rightarrow> jstatus" where
  "InitKeyParseStatus c = (if c = CHR 0x22 then STATUS_RUN else STATUS_KEY_PARSE)"

definition InitValueParseStatus :: "char \<Rightarrow> jstatus" where
  "InitValueParseStatus c =
     (if c = CHR 0x22 then STATUS_STRING_PARSE
      else if c = CHR ''.'' then STATUS_DOUBLE_PARSE
      else if c = CHR 0x5B then STATUS_ARRAY_PARSE
      else if is_digit c \<or> c = CHR ''-'' then STATUS_INT_PARSE
      else STATUS_VALUE_PARSE)"

definition InitStringParseStatus :: "char \<Rightarrow> jstatus" where
  "InitStringParseStatus c =
     (if c = CHR 0x22 then STATUS_RUN
      else if c = CHR 0x5C then STATUS_ESCAPE_CHAR_PARSE
      else STATUS_STRING_PARSE)"

definition InitDoubleParseStatus :: "char \<Rightarrow> jstatus" where
  "InitDoubleParseStatus c =
     (if is_digit c \<or> c = CHR ''+'' \<or> c = CHR ''e'' then STATUS_DOUBLE_PARSE
      else if c = CHR '','' then STATUS_RUN
      else STATUS_NONE)"

definition InitIntParseStatus :: "char \<Rightarrow> jstatus" where
  "InitIntParseStatus c =
     (if is_digit c then STATUS_INT_PARSE
      else if c = CHR ''.'' then STATUS_DOUBLE_PARSE
      else if c = CHR '','' then STATUS_RUN
      else STATUS_NONE)"

definition InitArrayParseSatus :: "char \<Rightarrow> jstatus" where
  "InitArrayParseSatus c =
     (if c = CHR 0x22 then STATUS_STRING_ITEM_PARSE
      else if c = CHR ''.'' then STATUS_DOUBLE_ITEM_PARSE
      else if c = CHR 0x5D then STATUS_RUN
      else if is_digit c \<or> c = CHR ''-'' then STATUS_INT_ITEM_PARSE
      else STATUS_ARRAY_PARSE)"

definition InitStringItemParseStatus :: "char \<Rightarrow> jstatus" where
  "InitStringItemParseStatus c =
     (if c = CHR 0x22 \<or> c = CHR '','' then STATUS_ARRAY_PARSE
      else if c = CHR 0x5C then STATUS_ESCAPE_CHAR_ITEM_PARSE
      else STATUS_STRING_ITEM_PARSE)"

definition InitDoubleItemParseStatus :: "char \<Rightarrow> jstatus" where
  "InitDoubleItemParseStatus c =
     (if is_digit c \<or> c = CHR ''+'' \<or> c = CHR ''e'' then STATUS_DOUBLE_ITEM_PARSE
      else if c = CHR '','' then STATUS_ARRAY_PARSE
      else if c = CHR 0x5D then STATUS_RUN
      else STATUS_NONE)"

definition InitIntItemParseStatus :: "char \<Rightarrow> jstatus" where
  "InitIntItemParseStatus c =
     (if is_digit c then STATUS_INT_ITEM_PARSE
      else if c = CHR '','' then STATUS_ARRAY_PARSE
      else if c = CHR 0x5D then STATUS_RUN
      else if c = CHR ''.'' then STATUS_DOUBLE_ITEM_PARSE
      else STATUS_NONE)"

definition InitEscapeCharParseStatus :: "char \<Rightarrow> jstatus" where
  "InitEscapeCharParseStatus c =
     (if c = CHR 0x5C then STATUS_ESCAPE_CHAR_PARSE else STATUS_STRING_PARSE)"

definition InitEscapeCharItemParseStatus :: "char \<Rightarrow> jstatus" where
  "InitEscapeCharItemParseStatus c =
     (if c = CHR 0x5C then STATUS_ESCAPE_CHAR_ITEM_PARSE else STATUS_STRING_ITEM_PARSE)"

lemmas status_row_defs =
  InitNoneStatus_def InitRunStatus_def InitKeyParseStatus_def InitValueParseStatus_def
  InitStringParseStatus_def InitDoubleParseStatus_def InitIntParseStatus_def
  InitArrayParseSatus_def InitStringItemParseStatus_def InitDoubleItemParseStatus_def
  InitIntItemParseStatus_def InitEscapeCharParseStatus_def InitEscapeCharItemParseStatus_def

fun statusTabs :: "jstatus \<Rightarrow> char \<Rightarrow> jstatus" where
  "statusTabs STATUS_NONE c = InitNoneStatus c"
| "statusTabs STATUS_RUN c = InitRunStatus c"
| "statusTabs STATUS_KEY_PARSE c = InitKeyParseStatus c"
| "statusTabs STATUS_VALUE_PARSE c = InitValueParseStatus c"
| "statusTabs STATUS_STRING_PARSE c = InitStringParseStatus c"
| "statusTabs STATUS_DOUBLE_PARSE c = InitDoubleParseStatus c"
| "statusTabs STATUS_INT_PARSE c = InitIntParseStatus c"
| "statusTabs STATUS_ARRAY_PARSE c = InitArrayParseSatus c"
| "statusTabs STATUS_STRING_ITEM_PARSE c = InitStringItemParseStatus c"
| "statusTabs STATUS_DOUBLE_ITEM_PARSE c = InitDoubleItemParseStatus c"
| "statusTabs STATUS_INT_ITEM_PARSE c = InitIntItemParseStatus c"
| "statusTabs STATUS_ESCAPE_CHAR_PARSE c = InitEscapeCharParseStatus c"
| "statusTabs STATUS_ESCAPE_CHAR_ITEM_PARSE c = InitEscapeCharItemParseStatus c"

section \<open>State and value conversion\<close>

record json_parser =
  jpBuilder :: builder
  jpStatus :: jstatus
  jpLast :: jstatus
  jpLastValue :: jstatus
  jpKey :: string
  jpValue :: string
  jpValues :: "string list"

definition RawDataBuilderJsonParser :: json_parser where
  "RawDataBuilderJsonParser = \<lparr>jpBuilder = RawDataBuilder_empty, jpStatus = STATUS_NONE,
     jpLast = STATUS_NONE, jpLastValue = STATUS_NONE, jpKey = [], jpValue = [], jpValues = []\<rparr>"

text \<open>
  \<open>TransStrToType\<close>: extraction from a stream over \<open>str\<close>; an empty stream leaves \<open>val\<close> as it was.
\<close>

definition TransStrToType_u64 :: "string \<Rightarrow> u64 \<Rightarrow> u64" where
  "TransStrToType_u64 str val =
     (if dropWhile is_space str = [] then val else word_of_nat (stream_unsigned 10 64 str))"

definition TransStrToType_i64 :: "string \<Rightarrow> i64 \<Rightarrow> i64" where
  "TransStrToType_i64 str val =
     (if dropWhile is_space str = [] then val else word_of_int (stream_signed 64 str))"

definition TransStrToType_double :: "string \<Rightarrow> u64 \<Rightarrow> u64" where
  "TransStrToType_double str val =
     (if dropWhile is_space str = [] then val else stream_double_in str)"

definition BuilderAppendStringValue :: "alloc \<Rightarrow> string \<Rightarrow> string \<Rightarrow> builder \<Rightarrow> builder" where
  "BuilderAppendStringValue al key val b = AppendValue al key (ArgString val) b"

definition BuilderAppendIntValue :: "alloc \<Rightarrow> string \<Rightarrow> string \<Rightarrow> builder \<Rightarrow> builder" where
  "BuilderAppendIntValue al key val b =
     (if val = [] then b
      else if CHR ''-'' \<in> set val then AppendValue al key (ArgSigned 64 (TransStrToType_i64 val 0)) b
      else AppendValue al key (ArgUnsigned 64 (TransStrToType_u64 val 0)) b)"

definition BuilderAppendFloatingValue :: "alloc \<Rightarrow> string \<Rightarrow> string \<Rightarrow> builder \<Rightarrow> builder" where
  "BuilderAppendFloatingValue al key val b =
     AppendValue al key (ArgFloating (F64 (TransStrToType_double val 0))) b"

definition BuilderAppendStringArrayValue ::
    "alloc \<Rightarrow> string \<Rightarrow> string list \<Rightarrow> builder \<Rightarrow> builder" where
  "BuilderAppendStringArrayValue al key vals b = AppendValue al key (ArgStrings vals) b"

text \<open>The conversion loops reuse one variable, which an empty text leaves unchanged.\<close>

fun convert_items :: "(string \<Rightarrow> 'a \<Rightarrow> 'a) \<Rightarrow> string list \<Rightarrow> 'a \<Rightarrow> 'a list" where
  "convert_items conv [] val = []"
| "convert_items conv (s # ss) val = (let v = conv s val in v # convert_items conv ss v)"

definition BuilderAppendFloatingArrayValue ::
    "alloc \<Rightarrow> string \<Rightarrow> string list \<Rightarrow> builder \<Rightarrow> builder" where
  "BuilderAppendFloatingArrayValue al key vals b =
     AppendValue al key (ArgFloatings (map F64 (convert_items TransStrToType_double vals 0))) b"

definition BuilderAppendIntArrayValue ::
    "alloc \<Rightarrow> string \<Rightarrow> string list \<Rightarrow> builder \<Rightarrow> builder" where
  "BuilderAppendIntArrayValue al key vals b =
     (if \<exists>s\<in>set vals. CHR ''.'' \<in> set s then BuilderAppendFloatingArrayValue al key vals b
      else if \<exists>s\<in>set vals. CHR ''-'' \<in> set s
      then AppendValue al key
             (ArgSigneds (convert_items TransStrToType_i64 (filter (\<lambda>s. s \<noteq> []) vals) 0)) b
      else AppendValue al key (ArgUnsigneds (convert_items TransStrToType_u64 vals 0)) b)"

definition AppendValueToBuilder :: "alloc \<Rightarrow> json_parser \<Rightarrow> json_parser" where
  "AppendValueToBuilder al p =
     (if jpKey p = [] then p
      else p\<lparr>jpBuilder :=
        (case jpLastValue p of
           STATUS_STRING_PARSE \<Rightarrow> BuilderAppendStringValue al (jpKey p) (jpValue p) (jpBuilder p)
         | STATUS_INT_PARSE \<Rightarrow> BuilderAppendIntValue al (jpKey p) (jpValue p) (jpBuilder p)
         | STATUS_DOUBLE_PARSE \<Rightarrow> BuilderAppendFloatingValue al (jpKey p) (jpValue p) (jpBuilder p)
         | STATUS_STRING_ITEM_PARSE \<Rightarrow>
             BuilderAppendStringArrayValue al (jpKey p) (jpValues p) (jpBuilder p)
         | STATUS_INT_ITEM_PARSE \<Rightarrow>
             BuilderAppendIntArrayValue al (jpKey p) (jpValues p) (jpBuilder p)
         | STATUS_DOUBLE_ITEM_PARSE \<Rightarrow>
             BuilderAppendFloatingArrayValue al (jpKey p) (jpValues p) (jpBuilder p)
         | _ \<Rightarrow> jpBuilder p)\<rparr>)"

section \<open>Handlers\<close>

definition is_item_status :: "jstatus \<Rightarrow> bool" where
  "is_item_status s \<longleftrightarrow>
     s = STATUS_STRING_ITEM_PARSE \<or> s = STATUS_DOUBLE_ITEM_PARSE \<or> s = STATUS_INT_ITEM_PARSE"

definition emplace_item :: "json_parser \<Rightarrow> json_parser" where
  "emplace_item p =
     (if is_item_status (jpLast p) then p\<lparr>jpValues := jpValues p @ [jpValue p], jpValue := []\<rparr> else p)"

definition HandleStatusNone :: "alloc \<Rightarrow> json_parser \<Rightarrow> json_parser" where
  "HandleStatusNone al p = AppendValueToBuilder al p"

definition HandleStatusKeyParse :: "alloc \<Rightarrow> char \<Rightarrow> json_parser \<Rightarrow> json_parser" where
  "HandleStatusKeyParse al c p =
     (if jpLast p = STATUS_KEY_PARSE then p\<lparr>jpKey := jpKey p @ [c]\<rparr>
      else (AppendValueToBuilder al p)\<lparr>jpKey := []\<rparr>)"

definition HandleStatusRun :: "json_parser \<Rightarrow> json_parser" where
  "HandleStatusRun p =
     (let p1 = emplace_item p;
          p2 = (if jpLast p = STATUS_STRING_PARSE then p1\<lparr>jpLastValue := jpLast p\<rparr> else p1)
      in if jpLast p = STATUS_ARRAY_PARSE \<and> jpLastValue p2 \<noteq> STATUS_STRING_ITEM_PARSE
         then p2\<lparr>jpLastValue := STATUS_INT_ITEM_PARSE\<rparr> else p2)"

definition HandleStatusValueParse :: "json_parser \<Rightarrow> json_parser" where
  "HandleStatusValueParse p =
     (let p1 = p\<lparr>jpValue := []\<rparr>;
          p2 = (if jpLast p = STATUS_RUN then p1\<lparr>jpValues := []\<rparr> else p1)
      in emplace_item p2)"

definition HandleStatusArrayParse :: "json_parser \<Rightarrow> json_parser" where
  "HandleStatusArrayParse p =
     emplace_item (if jpLast p = STATUS_RUN then p\<lparr>jpValues := []\<rparr> else p)"

definition HandleStatusStringParse :: "char \<Rightarrow> json_parser \<Rightarrow> json_parser" where
  "HandleStatusStringParse c p =
     (let p1 = p\<lparr>jpLastValue := jpStatus p\<rparr> in
      if jpLast p \<noteq> STATUS_STRING_PARSE \<and> jpLast p \<noteq> STATUS_ESCAPE_CHAR_PARSE
      then p1\<lparr>jpValue := []\<rparr> else p1\<lparr>jpValue := jpValue p @ [c]\<rparr>)"

definition HandleStatusStringItemParse :: "char \<Rightarrow> json_parser \<Rightarrow> json_parser" where
  "HandleStatusStringItemParse c p =
     (let p1 = p\<lparr>jpLastValue := jpStatus p\<rparr> in
      if jpLast p \<noteq> STATUS_STRING_ITEM_PARSE \<and> jpLast p \<noteq> STATUS_ESCAPE_CHAR_ITEM_PARSE
      then p1\<lparr>jpValue := []\<rparr> else p1\<lparr>jpValue := jpValue p @ [c]\<rparr>)"

definition HandleStatusValueAppend :: "char \<Rightarrow> json_parser \<Rightarrow> json_parser" where
  "HandleStatusValueAppend c p = p\<lparr>jpValue := jpValue p @ [c], jpLastValue := jpStatus p\<rparr>"

fun handlers :: "alloc \<Rightarrow> jstatus \<Rightarrow> char \<Rightarrow> json_parser \<Rightarrow> json_parser" where
  "handlers al STATUS_NONE c p = HandleStatusNone al p"
| "handlers al STATUS_KEY_PARSE c p = HandleStatusKeyParse al c p"
| "handlers al STATUS_RUN c p = HandleStatusRun p"
| "handlers al STATUS_VALUE_PARSE c p = HandleStatusValueParse p"
| "handlers al STATUS_ARRAY_PARSE c p = HandleStatusArrayParse p"
| "handlers al STATUS_STRING_PARSE c p = HandleStatusStringParse c p"
| "handlers al STATUS_STRING_ITEM_PARSE c p = HandleStatusStringItemParse c p"
| "handlers al s c p = HandleStatusValueAppend c p"

text \<open>
  One round of the loop of \<open>Parse\<close>. The character indexes the table as an \<open>int\<close>: where \<open>char\<close> is
  signed (\<open>signed_char\<close>), a character above 127 is a negative index, outside the row.
\<close>

definition parse_char ::
    "bool \<Rightarrow> alloc \<Rightarrow> char \<Rightarrow> undefined_behaviour + json_parser \<Rightarrow> undefined_behaviour + json_parser" where
  "parse_char signed_char al c r =
     (case r of
        Inl u \<Rightarrow> Inl u
      | Inr p \<Rightarrow>
          if signed_char \<and> (of_char c :: nat) > 127 then Inl OutOfBoundsRead
          else let s = statusTabs (jpStatus p) c;
                   q = handlers al s c (p\<lparr>jpStatus := s\<rparr>)
               in Inr (q\<lparr>jpLast := s\<rparr>))"

definition JsonParser_Parse :: "bool \<Rightarrow> alloc \<Rightarrow> string \<Rightarrow> undefined_behaviour + builder" where
  "JsonParser_Parse signed_char al jsonStr =
     (case fold (parse_char signed_char al) jsonStr (Inr RawDataBuilderJsonParser) of
        Inl u \<Rightarrow> Inl u
      | Inr p \<Rightarrow> Inr (jpBuilder p))"

section \<open>Runs of the automaton\<close>

definition parse_step :: "alloc \<Rightarrow> char \<Rightarrow> json_parser \<Rightarrow> json_parser" where
  "parse_step al c p =
     (let s = statusTabs (jpStatus p) c in (handlers al s c (p\<lparr>jpStatus := s\<rparr>))\<lparr>jpLast := s\<rparr>)"

definition run :: "alloc \<Rightarrow> string \<Rightarrow> json_parser \<Rightarrow> json_parser" where
  "run al s p = fold (parse_step al) s p"

lemma run_simps [simp]:
  "run al [] p = p" "run al (c # s) p = run al s (parse_step al c p)"
  "run al (s @ t) p = run al t (run al s p)"
  by (simp_all add: run_def)

lemma parse_char_run:
  assumes "\<not> signed_char \<or> list_all (\<lambda>c. (of_char c :: nat) \<le> 127) s"
  shows "fold (parse_char signed_char al) s (Inr p) = Inr (run al s p)"
  using assms
proof (induction s arbitrary: p)
  case (Cons c s)
  then have "parse_char signed_char al c (Inr p) = Inr (parse_step al c p)"
    by (auto simp: parse_char_def parse_step_def Let_def)
  with Cons show ?case by auto
qed simp

lemmas step_defs =
  parse_step_def status_row_defs Let_def HandleStatusNone_def HandleStatusKeyParse_def
  HandleStatusRun_def HandleStatusValueParse_def HandleStatusArrayParse_def
  HandleStatusStringParse_def HandleStatusStringItemParse_def HandleStatusValueAppend_def
  emplace_item_def is_item_status_def

definition plain :: "string \<Rightarrow> bool" where
  "plain s \<longleftrightarrow> CHR 0x22 \<notin> set s \<and> CHR 0x5C \<notin> set s"

lemma digit_chars [simp]:
  "\<not> is_digit (CHR 0x22)" "\<not> is_digit (CHR '':'')" "\<not> is_digit (CHR 0x7B)" "\<not> is_digit (CHR 0x7D)"
  "\<not> is_digit (CHR 0x5B)" "\<not> is_digit (CHR 0x5D)" "\<not> is_digit (CHR '','')" "\<not> is_digit (CHR ''.'')"
  "\<not> is_digit (CHR ''-'')" "\<not> is_digit (CHR 0x5C)"
  by (simp_all add: is_digit_def)

lemma run_key_text:
  "jpStatus p = STATUS_KEY_PARSE \<Longrightarrow> jpLast p = STATUS_KEY_PARSE \<Longrightarrow> CHR 0x22 \<notin> set s \<Longrightarrow>
    run al s p = p\<lparr>jpKey := jpKey p @ s\<rparr>"
  by (induction s arbitrary: p) (auto simp: step_defs)

lemma run_string_text:
  "jpStatus p = STATUS_STRING_PARSE \<Longrightarrow> jpLast p = STATUS_STRING_PARSE \<Longrightarrow>
    jpLastValue p = STATUS_STRING_PARSE \<Longrightarrow> plain s \<Longrightarrow> run al s p = p\<lparr>jpValue := jpValue p @ s\<rparr>"
  by (induction s arbitrary: p) (auto simp: step_defs plain_def)

lemma run_digits:
  "jpStatus p = STATUS_INT_PARSE \<Longrightarrow> jpLast p = STATUS_INT_PARSE \<Longrightarrow>
    jpLastValue p = STATUS_INT_PARSE \<Longrightarrow> list_all is_digit s \<Longrightarrow> run al s p = p\<lparr>jpValue := jpValue p @ s\<rparr>"
  by (induction s arbitrary: p) (auto simp: step_defs)

lemma run_item_text:
  "jpStatus p = STATUS_STRING_ITEM_PARSE \<Longrightarrow> jpLast p = STATUS_STRING_ITEM_PARSE \<Longrightarrow>
    jpLastValue p = STATUS_STRING_ITEM_PARSE \<Longrightarrow> plain s \<Longrightarrow> CHR '','' \<notin> set s \<Longrightarrow>
    run al s p = p\<lparr>jpValue := jpValue p @ s\<rparr>"
  by (induction s arbitrary: p) (auto simp: step_defs plain_def)

lemma run_item_digits:
  "jpStatus p = STATUS_INT_ITEM_PARSE \<Longrightarrow> jpLast p = STATUS_INT_ITEM_PARSE \<Longrightarrow>
    jpLastValue p = STATUS_INT_ITEM_PARSE \<Longrightarrow> list_all is_digit s \<Longrightarrow>
    run al s p = p\<lparr>jpValue := jpValue p @ s\<rparr>"
  by (induction s arbitrary: p) (auto simp: step_defs)

section \<open>Members\<close>

text \<open>The states between members: all but the pending member are in the builder.\<close>

definition pending :: "alloc \<Rightarrow> json_parser \<Rightarrow> builder \<Rightarrow> bool" where
  "pending al p b \<longleftrightarrow> jpBuilder (AppendValueToBuilder al p) = b"

definition ready :: "alloc \<Rightarrow> json_parser \<Rightarrow> builder \<Rightarrow> bool" where
  "ready al p b \<longleftrightarrow> jpStatus p = STATUS_RUN \<and> jpLast p = STATUS_RUN \<and> pending al p b"

definition member_read :: "alloc \<Rightarrow> json_parser \<Rightarrow> builder \<Rightarrow> bool" where
  "member_read al p b \<longleftrightarrow>
     (jpStatus p = STATUS_RUN \<and> jpLast p = STATUS_RUN \<or>
      jpStatus p = STATUS_INT_PARSE \<and> jpLast p = STATUS_INT_PARSE) \<and> pending al p b"

definition at_value :: "json_parser \<Rightarrow> string \<Rightarrow> builder \<Rightarrow> bool" where
  "at_value p k b \<longleftrightarrow> jpStatus p = STATUS_VALUE_PARSE \<and> jpLast p = STATUS_VALUE_PARSE \<and>
     jpKey p = k \<and> jpBuilder p = b \<and> jpValue p = [] \<and> jpValues p = []"

lemma AppendValueToBuilder_fields [simp]:
  "jpStatus (AppendValueToBuilder al p) = jpStatus p" "jpLast (AppendValueToBuilder al p) = jpLast p"
  "jpKey (AppendValueToBuilder al p) = jpKey p" "jpValue (AppendValueToBuilder al p) = jpValue p"
  "jpValues (AppendValueToBuilder al p) = jpValues p"
  "jpLastValue (AppendValueToBuilder al p) = jpLastValue p"
  by (simp_all add: AppendValueToBuilder_def)

lemma pending_cong:
  "jpKey p = jpKey q \<Longrightarrow> jpLastValue p = jpLastValue q \<Longrightarrow> jpValue p = jpValue q \<Longrightarrow>
    jpValues p = jpValues q \<Longrightarrow> jpBuilder p = jpBuilder q \<Longrightarrow> pending al p b = pending al q b"
  by (simp add: pending_def AppendValueToBuilder_def cong: jstatus.case_cong)

lemma ready_start: "ready al (run al ''{'' RawDataBuilderJsonParser) RawDataBuilder_empty"
  by (simp add: ready_def pending_def RawDataBuilderJsonParser_def step_defs AppendValueToBuilder_def)

lemma comma_after_member:
  assumes "member_read al p b"
  shows "ready al (run al '','' p) b"
proof -
  let ?q = "run al '','' p"
  have "jpStatus ?q = STATUS_RUN" "jpLast ?q = STATUS_RUN" "jpKey ?q = jpKey p"
    "jpLastValue ?q = jpLastValue p" "jpValue ?q = jpValue p" "jpValues ?q = jpValues p"
    "jpBuilder ?q = jpBuilder p"
    using assms by (auto simp: member_read_def step_defs)
  with assms pending_cong [of ?q p al b] show ?thesis
    by (simp add: ready_def member_read_def)
qed

lemma brace_after_member:
  assumes "member_read al p b"
  shows "jpBuilder (run al [CHR 0x7D] p) = b"
proof -
  let ?q = "p\<lparr>jpStatus := STATUS_NONE\<rparr>"
  have "run al [CHR 0x7D] p = (AppendValueToBuilder al ?q)\<lparr>jpLast := STATUS_NONE\<rparr>"
    using assms by (auto simp: member_read_def step_defs)
  moreover have "pending al ?q b"
    using assms by (simp add: member_read_def pending_cong [of ?q p])
  ultimately show ?thesis by (simp add: pending_def)
qed

lemma read_key:
  assumes "ready al p b" "CHR 0x22 \<notin> set k"
  shows "at_value (run al ([CHR 0x22] @ k @ [CHR 0x22] @ '':'') p) k b"
proof -
  define q where "q = run al [CHR 0x22] p"
  have q: "jpStatus q = STATUS_KEY_PARSE" "jpLast q = STATUS_KEY_PARSE" "jpKey q = []"
    using assms(1) by (simp_all add: ready_def q_def step_defs)
  have "jpBuilder q = jpBuilder (AppendValueToBuilder al (p\<lparr>jpStatus := STATUS_KEY_PARSE\<rparr>))"
    using assms(1) by (simp add: ready_def q_def step_defs)
  then have b: "jpBuilder q = b"
    using assms(1) pending_cong [of "p\<lparr>jpStatus := STATUS_KEY_PARSE\<rparr>" p al b]
    by (simp add: ready_def pending_def)
  have "run al ([CHR 0x22] @ k @ [CHR 0x22] @ '':'') p =
      run al [CHR 0x22, CHR '':''] (q\<lparr>jpKey := k\<rparr>)"
    using run_key_text [OF q(1,2) assms(2), of al] q(3) by (simp add: q_def)
  then show ?thesis
    using q b by (simp add: at_value_def step_defs)
qed

subsection \<open>Values\<close>

datatype json_value = JStr string | JNat nat | JNeg nat | JStrs "string list" | JNats "nat list"

fun json_text_of :: "json_value \<Rightarrow> string" where
  "json_text_of (JStr s) = quoted s"
| "json_text_of (JNat n) = show_nat n"
| "json_text_of (JNeg n) = CHR ''-'' # show_nat n"
| "json_text_of (JStrs ss) = [CHR 0x5B] @ comma_join (map quoted ss) @ [CHR 0x5D]"
| "json_text_of (JNats ns) = [CHR 0x5B] @ comma_join (map show_nat ns) @ [CHR 0x5D]"

fun json_arg :: "json_value \<Rightarrow> cpp_arg" where
  "json_arg (JStr s) = ArgString s"
| "json_arg (JNat n) = ArgUnsigned 64 (word_of_nat n)"
| "json_arg (JNeg n) = ArgSigned 64 (word_of_int (- int n))"
| "json_arg (JStrs ss) = ArgStrings ss"
| "json_arg (JNats ns) = ArgUnsigneds (map word_of_nat ns)"

fun json_ok :: "json_value \<Rightarrow> bool" where
  "json_ok (JStr s) \<longleftrightarrow> plain s"
| "json_ok (JNat n) \<longleftrightarrow> n < 2 ^ 64"
| "json_ok (JNeg n) \<longleftrightarrow> n \<le> 2 ^ 63"
| "json_ok (JStrs ss) \<longleftrightarrow> ss \<noteq> [] \<and> list_all (\<lambda>s. plain s \<and> CHR '','' \<notin> set s) ss"
| "json_ok (JNats ns) \<longleftrightarrow> ns \<noteq> [] \<and> list_all (\<lambda>n. n < 2 ^ 64) ns"

lemma is_digit_value: "is_digit c \<longleftrightarrow> (\<exists>d<10. digit_value c = Some d)"
  by (auto simp: is_digit_def digit_value_def Let_def)

lemma show_nat_digits: "list_all is_digit (show_nat n)" "show_nat n \<noteq> []"
proof -
  show "list_all is_digit (show_nat n)"
    using show_base_digits [of 10 n] by (simp add: show_nat_def is_digit_value [abs_def])
  show "show_nat n \<noteq> []" unfolding show_nat_def by (subst show_base.simps) simp
qed

lemma no_sign_in_digits: "list_all is_digit s \<Longrightarrow> CHR ''-'' \<notin> set s \<and> CHR ''.'' \<notin> set s"
  by (auto simp: list_all_iff is_digit_def)

lemma digits_value:
  assumes "list_all is_digit s" "s \<noteq> []"
  shows "dropWhile is_space s = s" "read_digits 10 0 s < 2 ^ 64 \<Longrightarrow> stream_unsigned 10 64 s = read_digits 10 0 s"
    "read_digits 10 0 s \<le> 2 ^ 63 \<Longrightarrow> stream_signed 64 (CHR ''-'' # s) = - int (read_digits 10 0 s)"
proof -
  have d: "list_all (\<lambda>c. \<exists>d<10. digit_value c = Some d) s"
    using assms(1) by (simp add: is_digit_value [abs_def])
  show "dropWhile is_space s = s" by (rule digits_not_special(1) [OF d])
  show "stream_unsigned 10 64 s = read_digits 10 0 s" if "read_digits 10 0 s < 2 ^ 64"
    using that by (rule stream_unsigned_digits [OF d])
  have "dropWhile is_space (CHR ''-'' # s) = CHR ''-'' # s" by (simp add: is_space_def)
  then show "stream_signed 64 (CHR ''-'' # s) = - int (read_digits 10 0 s)" if "read_digits 10 0 s \<le> 2 ^ 63"
    using that by (simp add: stream_signed_def Let_def)
qed

lemma show_nat_value:
  "read_digits 10 0 (show_nat n) = n"
  "n < 2 ^ 64 \<Longrightarrow> TransStrToType_u64 (show_nat n) v = word_of_nat n"
  "n \<le> 2 ^ 63 \<Longrightarrow> TransStrToType_i64 (CHR ''-'' # show_nat n) w = word_of_int (- int n)"
proof -
  show r: "read_digits 10 0 (show_nat n) = n" by (simp add: show_nat_def read_digits_show_base)
  note d = digits_value [OF show_nat_digits, of n]
  show "n < 2 ^ 64 \<Longrightarrow> TransStrToType_u64 (show_nat n) v = word_of_nat n"
    using d(1,2) r show_nat_digits(2) by (simp add: TransStrToType_u64_def)
  have "dropWhile is_space (CHR ''-'' # show_nat n) \<noteq> []" by (simp add: is_space_def)
  then show "n \<le> 2 ^ 63 \<Longrightarrow> TransStrToType_i64 (CHR ''-'' # show_nat n) w = word_of_int (- int n)"
    using d(3) r by (simp add: TransStrToType_i64_def)
qed

lemma read_string_value:
  assumes "at_value p k b" "k \<noteq> []" "plain s"
  shows "member_read al (run al (quoted s) p) (AppendValue al k (ArgString s) b)"
proof -
  define q where "q = run al [CHR 0x22] p"
  have q: "jpStatus q = STATUS_STRING_PARSE" "jpLast q = STATUS_STRING_PARSE"
    "jpLastValue q = STATUS_STRING_PARSE" "jpKey q = k" "jpBuilder q = b" "jpValue q = []"
    using assms(1) by (simp_all add: at_value_def q_def step_defs)
  have "run al (quoted s) p = run al [CHR 0x22] (q\<lparr>jpValue := s\<rparr>)"
    using run_string_text [OF q(1-3) assms(3), of al] q(6) by (simp add: quoted_def q_def)
  then show ?thesis
    using q assms(2)
    by (simp add: member_read_def pending_def step_defs AppendValueToBuilder_def
        BuilderAppendStringValue_def)
qed

lemma read_int_value:
  assumes "at_value p k b" "k \<noteq> []" "is_digit c \<or> c = CHR ''-''" "list_all is_digit s"
  shows "member_read al (run al (c # s) p) (BuilderAppendIntValue al k (c # s) b)"
proof -
  define q where "q = run al [c] p"
  have "c \<noteq> CHR 0x22" "c \<noteq> CHR ''.''" "c \<noteq> CHR 0x5B" using assms(3) by auto
  then have q: "jpStatus q = STATUS_INT_PARSE" "jpLast q = STATUS_INT_PARSE"
    "jpLastValue q = STATUS_INT_PARSE" "jpKey q = k" "jpBuilder q = b" "jpValue q = [c]"
    using assms(1,3) by (simp_all add: at_value_def q_def step_defs)
  have "run al (c # s) p = q\<lparr>jpValue := c # s\<rparr>"
    using run_digits [OF q(1-3) assms(4), of al] q(6) by (simp add: q_def)
  then show ?thesis
    using q assms(2) by (simp add: member_read_def pending_def AppendValueToBuilder_def)
qed

text \<open>The states inside an array, after some items.\<close>

definition in_array :: "json_parser \<Rightarrow> string \<Rightarrow> builder \<Rightarrow> string list \<Rightarrow> bool" where
  "in_array p k b vs \<longleftrightarrow> jpStatus p = STATUS_ARRAY_PARSE \<and> jpLast p = STATUS_ARRAY_PARSE \<and>
     jpKey p = k \<and> jpBuilder p = b \<and> jpValue p = [] \<and> jpValues p = vs"

lemma open_array: "at_value p k b \<Longrightarrow> in_array (run al [CHR 0x5B] p) k b []"
  by (simp add: at_value_def in_array_def step_defs)

lemma comma_in_array: "in_array p k b vs \<Longrightarrow> in_array (run al '','' p) k b vs"
  by (simp add: in_array_def step_defs)

lemma read_string_item:
  assumes "in_array p k b vs" "plain s" "CHR '','' \<notin> set s"
  shows "in_array (run al (quoted s) p) k b (vs @ [s])"
    "jpLastValue (run al (quoted s) p) = STATUS_STRING_ITEM_PARSE"
proof -
  define q where "q = run al [CHR 0x22] p"
  have q: "jpStatus q = STATUS_STRING_ITEM_PARSE" "jpLast q = STATUS_STRING_ITEM_PARSE"
    "jpLastValue q = STATUS_STRING_ITEM_PARSE" "jpKey q = k" "jpBuilder q = b" "jpValue q = []"
    "jpValues q = vs"
    using assms(1) by (simp_all add: in_array_def q_def step_defs)
  have "run al (quoted s) p = run al [CHR 0x22] (q\<lparr>jpValue := s\<rparr>)"
    using run_item_text [OF q(1-3) assms(2,3), of al] q(6) by (simp add: quoted_def q_def)
  then show "in_array (run al (quoted s) p) k b (vs @ [s])"
    "jpLastValue (run al (quoted s) p) = STATUS_STRING_ITEM_PARSE"
    using q by (simp_all add: in_array_def step_defs)
qed

lemma read_string_items:
  assumes "in_array p k b vs" "ss \<noteq> []" "list_all (\<lambda>s. plain s \<and> CHR '','' \<notin> set s) ss"
  shows "in_array (run al (comma_join (map quoted ss)) p) k b (vs @ ss) \<and>
    jpLastValue (run al (comma_join (map quoted ss)) p) = STATUS_STRING_ITEM_PARSE"
  using assms
proof (induction ss arbitrary: p vs rule: comma_join.induct)
  case (2 s)
  with read_string_item [of p k b vs s al] show ?case by simp
next
  case (3 s s' ss)
  let ?q = "run al '','' (run al (quoted s) p)"
  have "in_array ?q k b (vs @ [s])"
    using 3(2,4) by (intro comma_in_array read_string_item(1)) auto
  from 3(1) [OF this] 3(4) show ?case by simp
qed simp

lemma read_int_item:
  fixes al :: alloc
  assumes "in_array p k b vs" "list_all is_digit s" "s \<noteq> []"
  defines "q \<equiv> run al s p"
  shows "jpStatus q = STATUS_INT_ITEM_PARSE" "jpLast q = STATUS_INT_ITEM_PARSE"
    "jpLastValue q = STATUS_INT_ITEM_PARSE" "jpKey q = k" "jpBuilder q = b" "jpValue q = s" "jpValues q = vs"
proof -
  obtain c t where s: "s = c # t" using assms(3) by (cases s) auto
  define r where "r = run al [c] p"
  have c: "is_digit c" "c \<noteq> CHR 0x22" "c \<noteq> CHR ''.''" "c \<noteq> CHR 0x5D" using assms(2) s by auto
  then have r: "jpStatus r = STATUS_INT_ITEM_PARSE" "jpLast r = STATUS_INT_ITEM_PARSE"
    "jpLastValue r = STATUS_INT_ITEM_PARSE" "jpKey r = k" "jpBuilder r = b" "jpValue r = [c]" "jpValues r = vs"
    using assms(1) by (simp_all add: in_array_def r_def step_defs)
  have "q = r\<lparr>jpValue := s\<rparr>"
    using run_item_digits [OF r(1-3), of t al] assms(2) r(6) s by (simp add: q_def r_def)
  then show "jpStatus q = STATUS_INT_ITEM_PARSE" "jpLast q = STATUS_INT_ITEM_PARSE"
    "jpLastValue q = STATUS_INT_ITEM_PARSE" "jpKey q = k" "jpBuilder q = b" "jpValue q = s" "jpValues q = vs"
    using r by simp_all
qed

lemma read_int_items:
  assumes "in_array p k b vs" "ns \<noteq> []"
  defines "txt \<equiv> comma_join (map show_nat ns) @ [CHR 0x5D]"
  shows "jpStatus (run al txt p) = STATUS_RUN \<and> jpLast (run al txt p) = STATUS_RUN \<and>
    jpLastValue (run al txt p) = STATUS_INT_ITEM_PARSE \<and> jpKey (run al txt p) = k \<and>
    jpBuilder (run al txt p) = b \<and> jpValues (run al txt p) = vs @ map show_nat ns"
  unfolding txt_def using assms(1,2)
proof (induction ns arbitrary: p vs rule: induct_list012)
  case (2 n)
  from read_int_item [OF 2(1) show_nat_digits, of al n] show ?case
    by (simp add: step_defs)
next
  case (3 n n' ns)
  note q = read_int_item [OF 3(3) show_nat_digits, of al n]
  have "in_array (run al '','' (run al (show_nat n) p)) k b (vs @ [show_nat n])"
    using q by (simp add: in_array_def step_defs)
  from 3(2) [OF this] show ?case by simp
qed simp

lemma convert_nats:
  "list_all (\<lambda>n. n < 2 ^ 64) ns \<Longrightarrow>
    convert_items TransStrToType_u64 (map show_nat ns) v = map word_of_nat ns"
  by (induction ns arbitrary: v) (simp_all add: show_nat_value)

lemma read_value:
  assumes "at_value p k b" "k \<noteq> []" "json_ok v"
  shows "member_read al (run al (json_text_of v) p) (AppendValue al k (json_arg v) b)"
proof (cases v)
  case (JStr s)
  with read_string_value [OF assms(1,2), of s al] assms(3) show ?thesis by simp
next
  case (JNat n)
  obtain c s where cs: "show_nat n = c # s" using show_nat_digits(2) [of n] by (cases "show_nat n") auto
  with show_nat_digits(1) [of n] have d: "is_digit c" "list_all is_digit s" by simp_all
  have "BuilderAppendIntValue al k (c # s) b = AppendValue al k (json_arg v) b"
    using no_sign_in_digits [OF show_nat_digits(1), of n] show_nat_value(2) [of n 0] assms(3) JNat
      show_nat_digits(2) [of n]
    by (simp add: BuilderAppendIntValue_def flip: cs)
  with read_int_value [OF assms(1,2) _ d(2), of c al] d(1) cs JNat show ?thesis by simp
next
  case (JNeg n)
  have "BuilderAppendIntValue al k (CHR ''-'' # show_nat n) b = AppendValue al k (json_arg v) b"
    using show_nat_value(3) [of n 0] assms(3) JNeg by (simp add: BuilderAppendIntValue_def)
  with read_int_value [OF assms(1,2) _ show_nat_digits(1), of "CHR ''-''" al n] JNeg show ?thesis by simp
next
  case (JStrs ss)
  let ?p = "run al [CHR 0x5B] p"
  let ?q = "run al (comma_join (map quoted ss)) ?p"
  have "in_array ?q k b ss" "jpLastValue ?q = STATUS_STRING_ITEM_PARSE"
    using read_string_items [OF open_array [OF assms(1)], of ss al] assms(3) JStrs by simp_all
  then have "member_read al (run al [CHR 0x5D] ?q) (AppendValue al k (ArgStrings ss) b)"
    using assms(2)
    by (simp add: member_read_def pending_def in_array_def step_defs AppendValueToBuilder_def
        BuilderAppendStringArrayValue_def)
  with JStrs show ?thesis by simp
next
  case (JNats ns)
  have ns: "ns \<noteq> []" "list_all (\<lambda>n. n < 2 ^ 64) ns" using assms(3) JNats by simp_all
  have "\<forall>s\<in>set (map show_nat ns). CHR ''.'' \<notin> set s \<and> CHR ''-'' \<notin> set s"
    using no_sign_in_digits [OF show_nat_digits(1)] by auto
  then have "BuilderAppendIntArrayValue al k (map show_nat ns) b = AppendValue al k (json_arg v) b"
    using convert_nats [OF ns(2), of 0] JNats by (auto simp: BuilderAppendIntArrayValue_def)
  with read_int_items [OF open_array [OF assms(1)] ns(1), of al al] assms(2) JNats show ?thesis
    by (auto simp: member_read_def pending_def AppendValueToBuilder_def)
qed

section \<open>Objects\<close>

definition member_text :: "string \<times> json_value \<Rightarrow> string" where
  "member_text m = quoted (fst m) @ '':'' @ json_text_of (snd m)"

definition object_text :: "(string \<times> json_value) list \<Rightarrow> string" where
  "object_text ms = [CHR 0x7B] @ comma_join (map member_text ms) @ [CHR 0x7D]"

definition member_ok :: "string \<times> json_value \<Rightarrow> bool" where
  "member_ok m \<longleftrightarrow> fst m \<noteq> [] \<and> CHR 0x22 \<notin> set (fst m) \<and> json_ok (snd m)"

definition append_member :: "alloc \<Rightarrow> string \<times> json_value \<Rightarrow> builder \<Rightarrow> builder" where
  "append_member al m b = AppendValue al (fst m) (json_arg (snd m)) b"

lemma read_member:
  assumes "ready al p b" "member_ok m"
  shows "member_read al (run al (member_text m) p) (append_member al m b)"
proof -
  let ?q = "run al ([CHR 0x22] @ fst m @ [CHR 0x22] @ '':'') p"
  have "at_value ?q (fst m) b" using assms by (intro read_key) (simp_all add: member_ok_def)
  from read_value [OF this, of "snd m" al] assms(2) show ?thesis
    by (simp add: member_ok_def member_text_def quoted_def append_member_def)
qed

lemma read_members:
  assumes "ready al p b" "ms \<noteq> []" "list_all member_ok ms"
  shows "member_read al (run al (comma_join (map member_text ms)) p) (fold (append_member al) ms b)"
  using assms
proof (induction ms arbitrary: p b rule: induct_list012)
  case (2 m)
  with read_member [of al p b m] show ?case by simp
next
  case (3 m m' ms)
  have "ready al (run al '','' (run al (member_text m) p)) (append_member al m b)"
    using 3(3,5) by (intro comma_after_member read_member) simp_all
  from 3(2) [OF this] 3(5) show ?case by simp
qed simp

lemma JsonParser_object:
  assumes "ms \<noteq> []" "list_all member_ok ms"
    and "\<not> signed_char \<or> list_all (\<lambda>c. (of_char c :: nat) \<le> 127) (object_text ms)"
  shows "JsonParser_Parse signed_char al (object_text ms) =
    Inr (fold (append_member al) ms RawDataBuilder_empty)"
proof -
  let ?p = "run al ''{'' RawDataBuilderJsonParser"
  have "jpBuilder (run al (object_text ms) RawDataBuilderJsonParser) =
      fold (append_member al) ms RawDataBuilder_empty"
    using brace_after_member [OF read_members [OF ready_start assms(1,2)]]
    by (simp add: object_text_def)
  then show ?thesis
    using parse_char_run [OF assms(3), of al RawDataBuilderJsonParser] by (simp add: JsonParser_Parse_def)
qed

section \<open>Texts the automaton misreads\<close>

lemma ready_members:
  assumes "ready al p b" "list_all member_ok ms"
  shows "ready al (run al (concat (map (\<lambda>m. member_text m @ '','') ms)) p) (fold (append_member al) ms b)"
  using assms
proof (induction ms arbitrary: p b)
  case (Cons m ms)
  have "ready al (run al '','' (run al (member_text m) p)) (append_member al m b)"
    using Cons(2,3) by (intro comma_after_member read_member) simp_all
  from Cons(1) [OF this] Cons(3) show ?case by simp
qed simp

text \<open>Characters an array skips between its items.\<close>

definition skipped :: "string \<Rightarrow> bool" where
  "skipped s \<longleftrightarrow> list_all (\<lambda>c. \<not> is_digit c \<and> c \<notin> {CHR 0x22, CHR ''.'', CHR ''-'', CHR 0x5D}) s"

lemma skip_in_array:
  "in_array p k b vs \<Longrightarrow> skipped s \<Longrightarrow> in_array (run al s p) k b vs"
  by (induction s arbitrary: p) (auto simp: in_array_def skipped_def step_defs)

lemma item_cut_at_comma:
  assumes "in_array p k b vs" "plain s" "CHR '','' \<notin> set s"
  shows "in_array (run al ([CHR 0x22] @ s @ '','') p) k b (vs @ [s])"
proof -
  define q where "q = run al [CHR 0x22] p"
  have q: "jpStatus q = STATUS_STRING_ITEM_PARSE" "jpLast q = STATUS_STRING_ITEM_PARSE"
    "jpLastValue q = STATUS_STRING_ITEM_PARSE" "jpKey q = k" "jpBuilder q = b" "jpValue q = []"
    "jpValues q = vs"
    using assms(1) by (simp_all add: in_array_def q_def step_defs)
  have "run al ([CHR 0x22] @ s @ '','') p = run al '','' (q\<lparr>jpValue := s\<rparr>)"
    using run_item_text [OF q(1-3) assms(2,3), of al] q(6) by (simp add: q_def)
  then show ?thesis using q by (simp add: in_array_def step_defs)
qed

lemma quote_opens_item:
  "in_array p k b vs \<Longrightarrow> jpBuilder (run al [CHR 0x22, CHR 0x5D, CHR 0x7D] p) = b"
  by (simp add: in_array_def step_defs)

lemma JsonParser_comma_item:
  assumes "list_all member_ok ms" "CHR 0x22 \<notin> set k" "plain s" "CHR '','' \<notin> set s" "skipped t"
  shows "jpBuilder (run al ([CHR 0x7B] @ concat (map (\<lambda>m. member_text m @ '','') ms) @ quoted k @ '':'' @
      [CHR 0x5B] @ quoted (s @ '','' @ t) @ [CHR 0x5D, CHR 0x7D]) RawDataBuilderJsonParser) =
    fold (append_member al) ms RawDataBuilder_empty"
proof -
  let ?p = "run al (concat (map (\<lambda>m. member_text m @ '','') ms)) (run al ''{'' RawDataBuilderJsonParser)"
  let ?b = "fold (append_member al) ms RawDataBuilder_empty"
  have "ready al ?p ?b" using ready_members [OF ready_start assms(1)] .
  from open_array [OF read_key [OF this assms(2)]]
  have "in_array (run al ([CHR 0x22] @ k @ [CHR 0x22] @ '':'' @ [CHR 0x5B]) ?p) k ?b []" by simp
  from quote_opens_item [OF skip_in_array [OF item_cut_at_comma [OF this assms(3,4)] assms(5)]]
  show ?thesis by (simp add: quoted_def)
qed

text \<open>
  Once the automaton is back in \<open>STATUS_NONE\<close> only a brace leaves it; every other character appends the
  pending member again, which changes nothing.
\<close>

definition stuck :: "alloc \<Rightarrow> json_parser \<Rightarrow> builder \<Rightarrow> bool" where
  "stuck al p b \<longleftrightarrow> jpStatus p = STATUS_NONE \<and> jpBuilder p = b \<and> pending al p b"

lemma stuck_run:
  "stuck al p b \<Longrightarrow> CHR 0x7B \<notin> set s \<Longrightarrow> stuck al (run al s p) b"
proof (induction s arbitrary: p)
  case (Cons c s)
  have eq: "parse_step al c p = (AppendValueToBuilder al p)\<lparr>jpLast := STATUS_NONE\<rparr>"
    using Cons(2,3)
    by (cases p) (auto simp: stuck_def parse_step_def InitNoneStatus_def HandleStatusNone_def)
  have "stuck al (parse_step al c p) b"
    using Cons(2) pending_cong [of "parse_step al c p" p al b]
    by (simp add: stuck_def eq pending_def)
  with Cons(1,3) show ?case by simp
qed simp

lemma replace_param_twice [simp]: "replace_param p (replace_param p ps) = replace_param p ps"
  by (induction ps) auto

lemma append_new_twice [simp]: "append_new al k v (append_new al k v b) = append_new al k v b"
  by (auto simp: AppendValue_param_def Let_def split: prod.splits bool.splits)

lemma number_then_stuck:
  assumes p: "at_value p k b" "k \<noteq> []" "\<not> IsBaseInfo k"
    and c: "\<not> is_digit c" "c \<noteq> CHR ''.''" "c \<noteq> CHR '',''" and n: "n < 2 ^ 64"
  shows "stuck al (run al (show_nat n @ [c]) p) (append_member al (k, JNat n) b)"
proof -
  let ?v = "AppendValue al k (ArgUnsigned 64 (word_of_nat n))"
  obtain d s where s: "show_nat n = d # s" "is_digit d" "list_all is_digit s"
    using show_nat_digits [of n] by (cases "show_nat n") auto
  have "d \<noteq> CHR 0x22" "d \<noteq> CHR ''.''" "d \<noteq> CHR 0x5B" using s(2) by auto
  then have q: "jpStatus (run al [d] p) = STATUS_INT_PARSE" "jpLast (run al [d] p) = STATUS_INT_PARSE"
    "jpLastValue (run al [d] p) = STATUS_INT_PARSE" "jpKey (run al [d] p) = k"
    "jpBuilder (run al [d] p) = b" "jpValue (run al [d] p) = [d]"
    using p(1) s(2) by (simp_all add: at_value_def step_defs)
  have num: "BuilderAppendIntValue al k (show_nat n) x = ?v x" for x
    using show_nat_value(2) [of n 0] show_nat_digits [of n] no_sign_in_digits n
    by (simp add: BuilderAppendIntValue_def)
  define r where "r = run al (show_nat n) p"
  have r: "jpStatus r = STATUS_INT_PARSE" "jpLastValue r = STATUS_INT_PARSE" "jpKey r = k"
    "jpBuilder r = b" "jpValue r = show_nat n"
    using run_digits [OF q(1-3) s(3), of al] q by (simp_all add: r_def s(1))
  then have "stuck al (parse_step al c r) (?v b)"
    using c p(2,3) num
    by (simp add: stuck_def pending_def step_defs AppendValueToBuilder_def AppendValue_def)
  then show ?thesis by (simp add: r_def append_member_def)
qed

lemma JsonParser_number_stops:
  assumes "list_all member_ok ms" "k \<noteq> []" "CHR 0x22 \<notin> set k" "\<not> IsBaseInfo k" "n < 2 ^ 64"
    and "\<not> is_digit c" "c \<noteq> CHR ''.''" "c \<noteq> CHR '',''" "CHR 0x7B \<notin> set t"
  shows "jpBuilder (run al ([CHR 0x7B] @ concat (map (\<lambda>m. member_text m @ '','') ms) @ quoted k @ '':'' @
      show_nat n @ [c] @ t) RawDataBuilderJsonParser) =
    append_member al (k, JNat n) (fold (append_member al) ms RawDataBuilder_empty)"
proof -
  let ?p = "run al (concat (map (\<lambda>m. member_text m @ '','') ms)) (run al ''{'' RawDataBuilderJsonParser)"
  let ?b = "fold (append_member al) ms RawDataBuilder_empty"
  have "ready al ?p ?b" using ready_members [OF ready_start assms(1)] .
  from stuck_run [OF number_then_stuck [OF read_key [OF this assms(3)] assms(2,4,6-8,5)] assms(9)]
  show ?thesis by (simp add: quoted_def stuck_def)
qed

lemma parse_char_Inl: "fold (parse_char signed_char al) s (Inl u) = Inl u"
  by (induction s) (simp_all add: parse_char_def)

lemma JsonParser_run:
  "JsonParser_Parse False al s = Inr (jpBuilder (run al s RawDataBuilderJsonParser))"
  using parse_char_run [of False s al RawDataBuilderJsonParser] by (simp add: JsonParser_Parse_def)

lemma parse_char_signed:
  "case fold (parse_char True al) s (Inr p) of
     Inl u \<Rightarrow> u = OutOfBoundsRead \<and> (\<exists>c\<in>set s. (of_char c :: nat) > 127)
   | Inr q \<Rightarrow> \<not> (\<exists>c\<in>set s. (of_char c :: nat) > 127)"
proof (induction s arbitrary: p)
  case (Cons c s)
  show ?case
  proof (cases "(of_char c :: nat) > 127")
    case True
    then have "parse_char True al c (Inr p) = Inl OutOfBoundsRead" by (simp add: parse_char_def)
    with True show ?thesis by (simp add: parse_char_Inl)
  next
    case False
    then have "parse_char True al c (Inr p) = Inr (parse_step al c p)"
      by (simp add: parse_char_def parse_step_def Let_def)
    with Cons [of "parse_step al c p"] False show ?thesis by (auto split: sum.splits)
  qed
qed simp

lemma JsonParser_signed:
  "JsonParser_Parse True al s = Inl OutOfBoundsRead \<longleftrightarrow> (\<exists>c\<in>set s. (of_char c :: nat) > 127)"
  using parse_char_signed [of s al RawDataBuilderJsonParser]
  by (auto simp: JsonParser_Parse_def split: sum.splits)

end
