(* ===== verification/Trace_Common.thy ===== *)
theory Trace_Common
  imports Hiview_Prelude
begin

text \<open>
  The vocabulary of the trace manager
  (framework/native/unified_collection/trace_manager/include/trace_common.h): scenarios with their
  levels, the three error codes a call can return, and the world outside of the trace manager.

  The kernel trace is driven through the Hitrace library, which is not part of this repository. It
  is a parameter: \<open>hitrace\<close> holds one function per call over a state \<open>'x\<close> of the library.
\<close>

section \<open>Scenarios and levels\<close>

datatype telemetry_policy = POLICY_DEFAULT | POLICY_POWER | POLICY_MANUAL

text \<open>
  \<open>TraceArgs\<close> is declared by Hitrace; these are the members that the scenarios of the trace manager
  and its callers set.
\<close>

record trace_args =
  taTags :: "string list"
  taClockType :: string
  taIsOverWrite :: bool
  taBufferSize :: u32
  taFileSizeLimit :: u32
  taTotalSize :: u32
  taFilterPids :: "i32 list"
  taAppPid :: i32

definition SN_COMMAND :: string where "SN_COMMAND = ''command''"
definition SN_COMMAND_DROP :: string where "SN_COMMAND_DROP = ''command_drop''"
definition SN_COMMON_BETA :: string where "SN_COMMON_BETA = ''common_beta''"
definition SN_COMMON_DROP :: string where "SN_COMMON_DROP = ''common_drop''"
definition SN_TELEMETRY :: string where "SN_TELEMETRY = ''telemetry''"
definition SN_APP_SYSTEM :: string where "SN_APP_SYSTEM = ''app_system''"
definition SN_APP_DYNAMIC :: string where "SN_APP_DYNAMIC = ''app_dynamic''"
definition SN_CLOSE :: string where "SN_CLOSE = ''close''"

lemmas scenario_names = SN_COMMAND_def SN_COMMAND_DROP_def SN_COMMON_BETA_def SN_COMMON_DROP_def
  SN_TELEMETRY_def SN_APP_SYSTEM_def SN_APP_DYNAMIC_def SN_CLOSE_def

lemma scenario_names_distinct:
  "distinct [SN_COMMAND, SN_COMMAND_DROP, SN_COMMON_BETA, SN_COMMON_DROP, SN_TELEMETRY, SN_APP_SYSTEM,
    SN_APP_DYNAMIC, SN_CLOSE]"
  by (simp add: scenario_names)

lemma scenario_names_differ [simp]:
  "SN_COMMAND \<noteq> SN_COMMAND_DROP" "SN_COMMAND \<noteq> SN_COMMON_BETA" "SN_COMMAND \<noteq> SN_COMMON_DROP"
  "SN_COMMAND \<noteq> SN_TELEMETRY" "SN_COMMAND \<noteq> SN_APP_SYSTEM" "SN_COMMAND \<noteq> SN_APP_DYNAMIC"
  "SN_COMMAND \<noteq> SN_CLOSE" "SN_COMMAND_DROP \<noteq> SN_COMMON_BETA" "SN_COMMAND_DROP \<noteq> SN_COMMON_DROP"
  "SN_COMMAND_DROP \<noteq> SN_TELEMETRY" "SN_COMMAND_DROP \<noteq> SN_APP_SYSTEM" "SN_COMMAND_DROP \<noteq> SN_APP_DYNAMIC"
  "SN_COMMAND_DROP \<noteq> SN_CLOSE" "SN_COMMON_BETA \<noteq> SN_COMMON_DROP" "SN_COMMON_BETA \<noteq> SN_TELEMETRY"
  "SN_COMMON_BETA \<noteq> SN_APP_SYSTEM" "SN_COMMON_BETA \<noteq> SN_APP_DYNAMIC" "SN_COMMON_BETA \<noteq> SN_CLOSE"
  "SN_COMMON_DROP \<noteq> SN_TELEMETRY" "SN_COMMON_DROP \<noteq> SN_APP_SYSTEM" "SN_COMMON_DROP \<noteq> SN_APP_DYNAMIC"
  "SN_COMMON_DROP \<noteq> SN_CLOSE" "SN_TELEMETRY \<noteq> SN_APP_SYSTEM" "SN_TELEMETRY \<noteq> SN_APP_DYNAMIC"
  "SN_TELEMETRY \<noteq> SN_CLOSE" "SN_APP_SYSTEM \<noteq> SN_APP_DYNAMIC" "SN_APP_SYSTEM \<noteq> SN_CLOSE"
  "SN_APP_DYNAMIC \<noteq> SN_CLOSE"
  using scenario_names_distinct by simp_all

lemmas scenario_names_differ_sym [simp] = scenario_names_differ [symmetric]

definition SL_COMMAND :: u8 where "SL_COMMAND = 5"
definition SL_COMMAND_DROP :: u8 where "SL_COMMAND_DROP = 5"
definition SL_COMMON_DROP :: u8 where "SL_COMMON_DROP = 4"
definition SL_COMMON_BETA :: u8 where "SL_COMMON_BETA = 3"
definition SL_TELEMETRY :: u8 where "SL_TELEMETRY = 2"
definition SL_APP_SYSTEM :: u8 where "SL_APP_SYSTEM = 2"
definition SL_APP_DYNAMIC :: u8 where "SL_APP_DYNAMIC = 1"
definition SL_CLOSE :: u8 where "SL_CLOSE = 0"

lemmas scenario_levels = SL_COMMAND_def SL_COMMAND_DROP_def SL_COMMON_DROP_def SL_COMMON_BETA_def
  SL_TELEMETRY_def SL_APP_SYSTEM_def SL_APP_DYNAMIC_def SL_CLOSE_def

record scenario =
  scName :: string
  scLevel :: u8
  scArgs :: trace_args
  scPolicy :: telemetry_policy
  scOutputPath :: string

section \<open>Results\<close>

datatype trace_state_code = STATE_SUCCESS | STATE_DENY | STATE_FAIL | STATE_POLICY_ERROR
  | STATE_UPDATE_TIME | STATE_NO_TRIGGER

datatype trace_flow_code = TRACE_ALLOW | TRACE_DUMP_DENY | TRACE_UPLOAD_DENY | TRACE_HAS_CAPTURED_TRACE

text \<open>\<open>TraceErrorCode\<close> is declared by Hitrace; the trace manager distinguishes three of its values.\<close>

datatype trace_error_code = CODE_SUCCESS | TRACE_IS_OCCUPIED | WRONG_TRACE_MODE | CODE_OTHER nat

record trace_ret =
  trState :: trace_state_code
  trCode :: trace_error_code
  trFlow :: trace_flow_code

definition TraceRet :: trace_ret where
  "TraceRet = \<lparr>trState = STATE_SUCCESS, trCode = CODE_SUCCESS, trFlow = TRACE_ALLOW\<rparr>"

definition TraceRet_state :: "trace_state_code \<Rightarrow> trace_ret" where
  "TraceRet_state c = TraceRet\<lparr>trState := c\<rparr>"

definition TraceRet_code :: "trace_error_code \<Rightarrow> trace_ret" where
  "TraceRet_code c = TraceRet\<lparr>trCode := c\<rparr>"

definition TraceRet_flow :: "trace_flow_code \<Rightarrow> trace_ret" where
  "TraceRet_flow c = TraceRet\<lparr>trFlow := c\<rparr>"

definition IsSuccess :: "trace_ret \<Rightarrow> bool" where
  "IsSuccess r \<longleftrightarrow>
     (trState r = STATE_SUCCESS \<or> trState r = STATE_NO_TRIGGER \<or> trState r = STATE_UPDATE_TIME) \<and>
     trCode r = CODE_SUCCESS \<and> trFlow r = TRACE_ALLOW"

lemmas trace_ret_defs = TraceRet_def TraceRet_state_def TraceRet_code_def TraceRet_flow_def

lemma IsSuccess_simps [simp]:
  "IsSuccess TraceRet"
  "IsSuccess (TraceRet_state c) \<longleftrightarrow> c = STATE_SUCCESS \<or> c = STATE_NO_TRIGGER \<or> c = STATE_UPDATE_TIME"
  "IsSuccess (TraceRet_code e) \<longleftrightarrow> e = CODE_SUCCESS"
  "IsSuccess (TraceRet_flow f) \<longleftrightarrow> f = TRACE_ALLOW"
  by (simp_all add: IsSuccess_def trace_ret_defs)

lemma TraceRet_simps [simp]:
  "trCode (TraceRet_state c) = CODE_SUCCESS" "trCode (TraceRet_code e) = e" "trCode TraceRet = CODE_SUCCESS"
  "trState (TraceRet_state c) = c" "trState (TraceRet_code e) = STATE_SUCCESS" "trState TraceRet = STATE_SUCCESS"
  by (simp_all add: trace_ret_defs)

section \<open>Hitrace\<close>

text \<open>\<open>TraceRetInfo\<close> of a dump: the trace manager reads its error code; the strategies behind it read the rest.\<close>

record trace_ret_info =
  riErrorCode :: trace_error_code
  riOutputFiles :: "string list"
  riFileSize :: int
  riIsOverflowControl :: bool

record 'x hitrace =
  htDefaultArgs :: trace_args
  htOpenTrace :: "trace_args \<Rightarrow> 'x \<Rightarrow> trace_error_code \<times> 'x"
  htCloseTrace :: "'x \<Rightarrow> trace_error_code \<times> 'x"
  htDumpTrace :: "u32 \<Rightarrow> u64 \<Rightarrow> string \<Rightarrow> 'x \<Rightarrow> trace_ret_info \<times> 'x"
  htDumpTraceAsync :: "u32 \<Rightarrow> u64 \<Rightarrow> i64 \<Rightarrow> 'x \<Rightarrow> trace_ret_info \<times> 'x"
  htRecordTraceOn :: "string \<Rightarrow> 'x \<Rightarrow> trace_error_code \<times> 'x"
  htRecordTraceOff :: "'x \<Rightarrow> trace_ret_info \<times> 'x"
  htCacheTraceOn :: "i32 \<Rightarrow> i32 \<Rightarrow> 'x \<Rightarrow> trace_error_code \<times> 'x"
  htCacheTraceOff :: "'x \<Rightarrow> trace_error_code \<times> 'x"
  htSetTraceStatus :: "bool \<Rightarrow> 'x \<Rightarrow> trace_error_code \<times> 'x"
  htSetFilterAppName :: "string list \<Rightarrow> 'x \<Rightarrow> i32 \<times> 'x"
  htAddFilterPid :: "i32 \<Rightarrow> 'x \<Rightarrow> i32 \<times> 'x"
  htAddSymlinkXattr :: "string \<Rightarrow> 'x \<Rightarrow> bool \<times> 'x"
  htRemoveSymlinkXattr :: "string \<Rightarrow> 'x \<Rightarrow> bool \<times> 'x"

text \<open>
  Callbacks: \<open>TelemetryCallback\<close> is an interface with the implementations below
  (plugins/unified_collector/observer). A callback is its identity and its class; what the trace
  manager tells it is kept in a log.
\<close>

datatype callback_class = UcTelemetryCallback | ManualCallback | PowerCallback

type_synonym callback = "nat \<times> callback_class"

datatype callback_event = OnTelemetryStart | OnTelemetryFinish | OnTelemetryTraceOn | OnTelemetryTraceOff

text \<open>
  The world: the state of Hitrace, the two clocks, the screen and the developer mode that are read,
  and the log of callback invocations, latest last.
\<close>

record 'x world =
  wHitrace :: 'x
  wBootTimeMs :: u64
  wMilliseconds :: u64
  wScreenOn :: bool
  wDeveloperMode :: bool
  wLog :: "(callback \<times> callback_event) list"

definition call :: "('x \<Rightarrow> 'r \<times> 'x) \<Rightarrow> 'x world \<Rightarrow> 'r \<times> 'x world" where
  "call f w = (case f (wHitrace w) of (r, x) \<Rightarrow> (r, w\<lparr>wHitrace := x\<rparr>))"

definition notify :: "callback option \<Rightarrow> callback_event \<Rightarrow> 'x world \<Rightarrow> 'x world" where
  "notify cb e w = (case cb of None \<Rightarrow> w | Some c \<Rightarrow> w\<lparr>wLog := wLog w @ [(c, e)]\<rparr>)"

lemma call_world [simp]:
  "wLog (snd (call f w)) = wLog w" "wBootTimeMs (snd (call f w)) = wBootTimeMs w"
  "wHitrace (snd (call f w)) = snd (f (wHitrace w))" "fst (call f w) = fst (f (wHitrace w))"
  by (simp_all add: call_def split: prod.splits)

lemma notify_world [simp]:
  "notify None e w = w" "wHitrace (notify cb e w) = wHitrace w" "wBootTimeMs (notify cb e w) = wBootTimeMs w"
  "wLog (notify (Some c) e w) = wLog w @ [(c, e)]"
  by (simp_all add: notify_def split: option.splits)

text \<open>
  A Hitrace whose state calls succeed. Its documentation promises this while the kernel trace node
  is available and no other process holds it.
\<close>

definition hitrace_works :: "'x hitrace \<Rightarrow> bool" where
  "hitrace_works ht \<longleftrightarrow>
     (\<forall>x. fst (htCloseTrace ht x) = CODE_SUCCESS) \<and>
     (\<forall>a x. fst (htOpenTrace ht a x) = CODE_SUCCESS) \<and>
     (\<forall>p x. fst (htRecordTraceOn ht p x) = CODE_SUCCESS)"

text \<open>A concrete Hitrace that keeps what is being traced.\<close>

definition tag_hitrace :: "(string list) option hitrace" where
  "tag_hitrace = \<lparr>
     htDefaultArgs = \<lparr>taTags = [], taClockType = [], taIsOverWrite = True, taBufferSize = 0,
       taFileSizeLimit = 0, taTotalSize = 0, taFilterPids = [], taAppPid = - 1\<rparr>,
     htOpenTrace = (\<lambda>a x. (CODE_SUCCESS, Some (taTags a))),
     htCloseTrace = (\<lambda>x. (CODE_SUCCESS, None)),
     htDumpTrace = (\<lambda>d t p x. (\<lparr>riErrorCode = (if x = None then WRONG_TRACE_MODE else CODE_SUCCESS), riOutputFiles = [], riFileSize = 0, riIsOverflowControl = False\<rparr>, x)),
     htDumpTraceAsync = (\<lambda>d t l x. (\<lparr>riErrorCode = (if x = None then WRONG_TRACE_MODE else CODE_SUCCESS), riOutputFiles = [], riFileSize = 0, riIsOverflowControl = False\<rparr>, x)),
     htRecordTraceOn = (\<lambda>p x. (CODE_SUCCESS, x)),
     htRecordTraceOff = (\<lambda>x. (\<lparr>riErrorCode = CODE_SUCCESS, riOutputFiles = [], riFileSize = 0, riIsOverflowControl = False\<rparr>, x)),
     htCacheTraceOn = (\<lambda>s d x. (CODE_SUCCESS, x)),
     htCacheTraceOff = (\<lambda>x. (CODE_SUCCESS, x)),
     htSetTraceStatus = (\<lambda>b x. (CODE_SUCCESS, x)),
     htSetFilterAppName = (\<lambda>ns x. (0, x)),
     htAddFilterPid = (\<lambda>p x. (0, x)),
     htAddSymlinkXattr = (\<lambda>n x. (True, x)),
     htRemoveSymlinkXattr = (\<lambda>n x. (True, x))\<rparr>"

lemma tag_hitrace_works [simp]: "hitrace_works tag_hitrace"
  by (simp add: hitrace_works_def tag_hitrace_def)

end
