(* ===== verification/Telemetry_Machine.thy ===== *)
theory Telemetry_Machine
  imports Trace_Common
begin

text \<open>
  The inner state machine of a telemetry task
  (trace_manager/telemetry/telemetry_state_machine.cpp): whether the kernel trace is on, counted by
  holders and by a deadline. The two state objects are kept for the life of the machine, so the
  count and the deadline are fields of the machine; \<open>tmCurrent = None\<close> is the null pointer that
  \<open>currentState_\<close> is before the first transition, and a call through it has no result.

  The state objects refer to the machine by a weak pointer. A call reaches them through the machine
  only, so the pointer is alive in every call, and the branches for a dead one are not modelled.
\<close>

section \<open>State and transitions\<close>

datatype tele_state = InitState | TraceOnState

record tele_machine =
  tmCurrent :: "tele_state option"
  tmTraceOnCount :: u32
  tmPostEndTime :: u64
  tmCallback :: "callback option"

definition new_tele_machine :: tele_machine where
  "new_tele_machine = \<lparr>tmCurrent = None, tmTraceOnCount = 0, tmPostEndTime = 0, tmCallback = None\<rparr>"

type_synonym 'x tele = "tele_machine \<times> 'x world"

definition TransToInitState :: "'x hitrace \<Rightarrow> 'x tele \<Rightarrow> trace_ret \<times> 'x tele" where
  "TransToInitState ht s =
     (case s of (m, w) \<Rightarrow>
        (case call (htSetTraceStatus ht False) w of (ret, w') \<Rightarrow>
           if ret \<noteq> CODE_SUCCESS then (TraceRet_code ret, (m, w'))
           else (TraceRet, (m\<lparr>tmCurrent := Some InitState\<rparr>, w'))))"

definition TransToTraceOnState ::
    "'x hitrace \<Rightarrow> u32 \<Rightarrow> u64 \<Rightarrow> 'x tele \<Rightarrow> trace_ret \<times> 'x tele" where
  "TransToTraceOnState ht traceOnCount postEndTime s =
     (case s of (m, w) \<Rightarrow>
        (case call (htSetTraceStatus ht True) w of (ret, w') \<Rightarrow>
           if ret \<noteq> CODE_SUCCESS then (TraceRet_code ret, (m, w'))
           else (TraceRet, (m\<lparr>tmTraceOnCount := traceOnCount, tmPostEndTime := postEndTime,
                   tmCurrent := Some TraceOnState\<rparr>, w'))))"

definition tell :: "callback_event \<Rightarrow> 'x tele \<Rightarrow> 'x tele" where
  "tell e s = (case s of (m, w) \<Rightarrow> (m, notify (tmCallback m) e w))"

section \<open>Operations of the two states\<close>

definition InitState_TraceOn :: "'x hitrace \<Rightarrow> 'x tele \<Rightarrow> trace_ret \<times> 'x tele" where
  "InitState_TraceOn ht s =
     (case TransToTraceOnState ht 1 0 s of (ret, s') \<Rightarrow>
        if \<not> IsSuccess ret then (ret, s') else (TraceRet, tell OnTelemetryTraceOn s'))"

definition InitState_TraceOff :: "'x tele \<Rightarrow> trace_ret \<times> 'x tele" where
  "InitState_TraceOff s = (TraceRet, s)"

definition InitState_PostOn :: "'x hitrace \<Rightarrow> u64 \<Rightarrow> 'x tele \<Rightarrow> trace_ret \<times> 'x tele" where
  "InitState_PostOn ht time s =
     (let postEndTime = wBootTimeMs (snd s) + time in
      case TransToTraceOnState ht 0 postEndTime s of (ret, s') \<Rightarrow>
        if \<not> IsSuccess ret then (ret, s')
        else (TraceRet_state STATE_UPDATE_TIME, tell OnTelemetryTraceOn s'))"

definition InitState_TimeOut :: "'x tele \<Rightarrow> trace_ret \<times> 'x tele" where
  "InitState_TimeOut s = (TraceRet, s)"

definition TraceOnState_TraceOn :: "'x tele \<Rightarrow> trace_ret \<times> 'x tele" where
  "TraceOnState_TraceOn s =
     (case s of (m, w) \<Rightarrow> (TraceRet, (m\<lparr>tmTraceOnCount := tmTraceOnCount m + 1\<rparr>, w)))"

definition close_and_tell :: "'x hitrace \<Rightarrow> 'x tele \<Rightarrow> trace_ret \<times> 'x tele" where
  "close_and_tell ht s =
     (case TransToInitState ht s of (ret, s') \<Rightarrow>
        if \<not> IsSuccess ret then (ret, s') else (TraceRet, tell OnTelemetryTraceOff s'))"

definition TraceOnState_TraceOff :: "'x hitrace \<Rightarrow> 'x tele \<Rightarrow> trace_ret \<times> 'x tele" where
  "TraceOnState_TraceOff ht s =
     (case s of (m, w) \<Rightarrow>
        if tmPostEndTime m > 0 \<or> tmTraceOnCount m > 1
        then (TraceRet_state STATE_NO_TRIGGER,
              (if tmTraceOnCount m > 1 then m\<lparr>tmTraceOnCount := tmTraceOnCount m - 1\<rparr> else m, w))
        else close_and_tell ht (m, w))"

definition TraceOnState_PostOn :: "u64 \<Rightarrow> 'x tele \<Rightarrow> trace_ret \<times> 'x tele" where
  "TraceOnState_PostOn time s =
     (case s of (m, w) \<Rightarrow>
        let postEndTime = wBootTimeMs w + time in
        if postEndTime < tmPostEndTime m then (TraceRet, (m, w))
        else (TraceRet_state STATE_UPDATE_TIME, (m\<lparr>tmPostEndTime := postEndTime\<rparr>, w)))"

definition TraceOnState_TimeOut :: "'x hitrace \<Rightarrow> 'x tele \<Rightarrow> trace_ret \<times> 'x tele" where
  "TraceOnState_TimeOut ht s =
     (case s of (m, w) \<Rightarrow>
        if wBootTimeMs w < tmPostEndTime m then (TraceRet_state STATE_NO_TRIGGER, (m, w))
        else let m1 = m\<lparr>tmPostEndTime := 0\<rparr> in
          if tmTraceOnCount m1 > 0 then (TraceRet_state STATE_NO_TRIGGER, (m1, w))
          else close_and_tell ht (m1, w))"

section \<open>The machine\<close>

text \<open>A call on the current state; \<open>None\<close> is the use of a null pointer.\<close>

definition on_current :: "('x tele \<Rightarrow> 'r) \<Rightarrow> ('x tele \<Rightarrow> 'r) \<Rightarrow> 'x tele \<Rightarrow> 'r option" where
  "on_current f g s =
     (case tmCurrent (fst s) of
        None \<Rightarrow> None
      | Some InitState \<Rightarrow> Some (f s)
      | Some TraceOnState \<Rightarrow> Some (g s))"

definition IsTraceOn :: "'x tele \<Rightarrow> bool option" where
  "IsTraceOn = on_current (\<lambda>_. False) (\<lambda>_. True)"

definition TraceOn :: "'x hitrace \<Rightarrow> 'x tele \<Rightarrow> (trace_ret \<times> 'x tele) option" where
  "TraceOn ht = on_current (InitState_TraceOn ht) TraceOnState_TraceOn"

definition TraceOff :: "'x hitrace \<Rightarrow> 'x tele \<Rightarrow> (trace_ret \<times> 'x tele) option" where
  "TraceOff ht = on_current InitState_TraceOff (TraceOnState_TraceOff ht)"

definition PostOn :: "'x hitrace \<Rightarrow> u64 \<Rightarrow> 'x tele \<Rightarrow> (trace_ret \<times> 'x tele) option" where
  "PostOn ht time = on_current (InitState_PostOn ht time) (TraceOnState_PostOn time)"

definition TimeOut :: "'x hitrace \<Rightarrow> 'x tele \<Rightarrow> (trace_ret \<times> 'x tele) option" where
  "TimeOut ht = on_current InitState_TimeOut (TraceOnState_TimeOut ht)"

lemmas tele_defs =
  on_current_def IsTraceOn_def TraceOn_def TraceOff_def PostOn_def TimeOut_def
  InitState_TraceOn_def InitState_TraceOff_def InitState_PostOn_def InitState_TimeOut_def
  TraceOnState_TraceOn_def TraceOnState_TraceOff_def TraceOnState_PostOn_def TraceOnState_TimeOut_def
  close_and_tell_def TransToInitState_def TransToTraceOnState_def tell_def

section \<open>Runs\<close>

datatype tele_op = OpTraceOn | OpTraceOff | OpPostOn u64 | OpTimeOut | OpTick u64

text \<open>\<open>OpTick\<close> lets time pass: the boot clock is set to a later value.\<close>

fun tele_step :: "'x hitrace \<Rightarrow> tele_op \<Rightarrow> 'x tele \<Rightarrow> 'x tele option" where
  "tele_step ht OpTraceOn s = map_option snd (TraceOn ht s)"
| "tele_step ht OpTraceOff s = map_option snd (TraceOff ht s)"
| "tele_step ht (OpPostOn t) s = map_option snd (PostOn ht t s)"
| "tele_step ht OpTimeOut s = map_option snd (TimeOut ht s)"
| "tele_step ht (OpTick t) s =
     Some (fst s, (snd s)\<lparr>wBootTimeMs := max (wBootTimeMs (snd s)) t\<rparr>)"

fun tele_run :: "'x hitrace \<Rightarrow> tele_op list \<Rightarrow> 'x tele \<Rightarrow> 'x tele option" where
  "tele_run ht [] s = Some s"
| "tele_run ht (op # ops) s =
     (case tele_step ht op s of None \<Rightarrow> None | Some s' \<Rightarrow> tele_run ht ops s')"

subsection \<open>A machine that has made its first transition never uses a null pointer\<close>

lemma tele_step_current:
  assumes "tmCurrent (fst s) \<noteq> None"
  obtains s' where "tele_step ht op s = Some s'" "tmCurrent (fst s') \<noteq> None"
    "tmCallback (fst s') = tmCallback (fst s)"
proof -
  have "\<exists>s'. tele_step ht op s = Some s' \<and> tmCurrent (fst s') \<noteq> None \<and> tmCallback (fst s') = tmCallback (fst s)"
    using assms
    by (cases op) (auto simp: tele_defs Let_def split: prod.splits tele_state.splits option.splits)
  then show thesis using that by blast
qed

lemma tele_run_total:
  "tmCurrent (fst s) \<noteq> None \<Longrightarrow> \<exists>s'. tele_run ht ops s = Some s' \<and> tmCurrent (fst s') \<noteq> None"
proof (induction ops arbitrary: s)
  case (Cons op ops)
  obtain t where "tele_step ht op s = Some t" "tmCurrent (fst t) \<noteq> None"
    using tele_step_current [OF Cons(2)] .
  with Cons(1) [of t] show ?case by simp
qed simp

lemma tele_null:
  assumes "tmCurrent (fst s) = None"
  shows "IsTraceOn s = None" "TraceOn ht s = None" "TraceOff ht s = None" "PostOn ht t s = None"
    "TimeOut ht s = None"
  using assms by (simp_all add: tele_defs)

subsection \<open>Notifications follow the state\<close>

text \<open>
  The callback hears of every change between off and on and of nothing else: the notifications of a
  run, in order, are the changes.
\<close>

definition is_on :: "tele_machine \<Rightarrow> bool" where
  "is_on m \<longleftrightarrow> tmCurrent m = Some TraceOnState"

fun alternates :: "bool \<Rightarrow> callback_event list \<Rightarrow> bool \<Rightarrow> bool" where
  "alternates a [] b \<longleftrightarrow> a = b"
| "alternates a (e # es) b \<longleftrightarrow>
     e = (if a then OnTelemetryTraceOff else OnTelemetryTraceOn) \<and> alternates (\<not> a) es b"

lemma alternates_append: "alternates a es b \<Longrightarrow> alternates b es' c \<Longrightarrow> alternates a (es @ es') c"
  by (induction a es b rule: alternates.induct) auto

lemma tele_step_notifies:
  assumes "tele_step ht op s = Some s'" "tmCallback (fst s) = Some cb"
  shows "\<exists>es. wLog (snd s') = wLog (snd s) @ map (Pair cb) es \<and> alternates (is_on (fst s)) es (is_on (fst s'))"
proof -
  obtain m w where s: "s = (m, w)" by (cases s)
  consider "wLog (snd s') = wLog w" "is_on (fst s') = is_on m"
    | "wLog (snd s') = wLog w @ [(cb, OnTelemetryTraceOn)]" "\<not> is_on m" "is_on (fst s')"
    | "wLog (snd s') = wLog w @ [(cb, OnTelemetryTraceOff)]" "is_on m" "\<not> is_on (fst s')"
    using assms
    by (cases op)
      (auto simp: s tele_defs is_on_def Let_def call_def notify_def
        split: prod.splits tele_state.splits option.splits if_splits)
  then show ?thesis
  proof cases
    case 1
    then show ?thesis by (intro exI [of _ "[]"]) (simp add: s)
  next
    case 2
    then show ?thesis by (intro exI [of _ "[OnTelemetryTraceOn]"]) (simp add: s)
  next
    case 3
    then show ?thesis by (intro exI [of _ "[OnTelemetryTraceOff]"]) (simp add: s)
  qed
qed

lemma tele_run_notifies:
  assumes "tele_run ht ops s = Some s'" "tmCallback (fst s) = Some cb" "tmCurrent (fst s) \<noteq> None"
  shows "\<exists>es. wLog (snd s') = wLog (snd s) @ map (Pair cb) es \<and> alternates (is_on (fst s)) es (is_on (fst s'))"
  using assms
proof (induction ops arbitrary: s)
  case (Cons op ops)
  obtain t where t: "tele_step ht op s = Some t" "tmCurrent (fst t) \<noteq> None" "tmCallback (fst t) = Some cb"
    using tele_step_current [OF Cons(4), of ht op] Cons(3) by metis
  obtain es where es: "wLog (snd t) = wLog (snd s) @ map (Pair cb) es"
    "alternates (is_on (fst s)) es (is_on (fst t))"
    using tele_step_notifies [OF t(1) Cons(3)] by blast
  have "tele_run ht ops t = Some s'" using Cons(2) t(1) by simp
  from Cons(1) [OF this t(3,2)] obtain es' where es': "wLog (snd s') = wLog (snd t) @ map (Pair cb) es'"
    "alternates (is_on (fst t)) es' (is_on (fst s'))" by blast
  show ?case
    using es es' alternates_append [OF es(2) es'(2)] by (intro exI [of _ "es @ es'"]) simp
qed (auto intro: exI [of _ "[]"])

subsection \<open>Holders\<close>

text \<open>
  Without a deadline the machine counts its holders: it refines the natural number of holders that
  \<open>TraceOn\<close> increases and \<open>TraceOff\<close> decreases, as long as the 32-bit count does not wrap.
\<close>

definition status_works :: "'x hitrace \<Rightarrow> bool" where
  "status_works ht \<longleftrightarrow> (\<forall>b x. fst (htSetTraceStatus ht b x) = CODE_SUCCESS)"

definition holders :: "tele_machine \<Rightarrow> nat" where
  "holders m = (if is_on m then unat (tmTraceOnCount m) else 0)"

definition counting :: "tele_machine \<Rightarrow> bool" where
  "counting m \<longleftrightarrow> tmCurrent m = Some InitState \<or>
     tmCurrent m = Some TraceOnState \<and> tmPostEndTime m = 0 \<and> tmTraceOnCount m > 0"

fun count_op :: "tele_op \<Rightarrow> nat \<Rightarrow> nat" where
  "count_op OpTraceOn n = n + 1"
| "count_op OpTraceOff n = n - 1"
| "count_op op n = n"

lemma tag_hitrace_status [simp]: "status_works tag_hitrace"
  by (simp add: status_works_def tag_hitrace_def)

lemma status_call: "status_works ht \<Longrightarrow> \<exists>w'. call (htSetTraceStatus ht b) w = (CODE_SUCCESS, w') \<and>
    wBootTimeMs w' = wBootTimeMs w"
  by (auto simp: status_works_def call_def split: prod.splits) (metis fst_conv)

lemma unat_pred: "(0 :: u32) < c \<Longrightarrow> unat (c - 1) = unat c - 1"
  by (simp add: unat_minus_one word_gt_0)

lemma counting_step:
  assumes "status_works ht" "counting (fst s)" "op = OpTraceOn \<or> op = OpTraceOff"
    and "holders (fst s) < 2 ^ 32 - 1"
  obtains s' where "tele_step ht op s = Some s'" "counting (fst s')"
    "holders (fst s') = count_op op (holders (fst s))"
proof -
  obtain m w where s: "s = (m, w)" by (cases s)
  obtain w1 w2 where w: "call (htSetTraceStatus ht True) w = (CODE_SUCCESS, w1)"
    "call (htSetTraceStatus ht False) w = (CODE_SUCCESS, w2)"
    using status_call [OF assms(1)] by metis
  let ?c = "tmTraceOnCount m"
  have inc: "unat (?c + 1) = unat ?c + 1" "?c + 1 > 0" if "unat ?c < 2 ^ 32 - 1"
    using that by (simp_all add: unat_word_ariths word_gt_0_no word_less_nat_alt)
  have dec: "unat (?c - 1) = unat ?c - 1" "?c - 1 > 0" if "?c > 1"
  proof -
    have "?c > 0" using that by (simp add: word_less_nat_alt)
    then show "unat (?c - 1) = unat ?c - 1" "?c - 1 > 0"
      using unat_pred [of ?c] that by (simp_all add: word_less_nat_alt)
  qed
  have one: "unat ?c = 1" if "?c > 0" "\<not> ?c > 1"
    using that by (auto simp: word_less_nat_alt)
  have "case tele_step ht op s of None \<Rightarrow> False
    | Some s' \<Rightarrow> counting (fst s') \<and> holders (fst s') = count_op op (holders (fst s))"
  proof (cases "tmCurrent m = Some InitState")
    case True
    then show ?thesis
      using assms(3) by (auto simp: s w tele_defs counting_def holders_def is_on_def)
  next
    case False
    then have on: "tmCurrent m = Some TraceOnState" "tmPostEndTime m = 0" "?c > 0"
      using assms(2) by (simp_all add: s counting_def)
    then show ?thesis
      using assms(3,4) inc dec one
      by (cases "?c > 1") (auto simp: s w tele_defs counting_def holders_def is_on_def)
  qed
  then show thesis using that by (auto split: option.splits)
qed

lemma counting_run:
  assumes "status_works ht" "counting (fst s)" "set ops \<subseteq> {OpTraceOn, OpTraceOff}"
    and "holders (fst s) + length ops < 2 ^ 32"
  shows "\<exists>s'. tele_run ht ops s = Some s' \<and> counting (fst s') \<and>
    holders (fst s') = fold count_op ops (holders (fst s)) \<and> (is_on (fst s') \<longleftrightarrow> holders (fst s') > 0)"
  using assms(2-)
proof (induction ops arbitrary: s)
  case Nil
  then show ?case
    by (auto simp: counting_def holders_def is_on_def word_less_nat_alt)
next
  case (Cons op ops)
  obtain t where t: "tele_step ht op s = Some t" "counting (fst t)"
    "holders (fst t) = count_op op (holders (fst s))"
    using counting_step [OF assms(1) Cons(2), of op] Cons(3,4) by auto
  have "count_op op (holders (fst s)) \<le> holders (fst s) + 1" by (cases op) auto
  with Cons(1) [OF t(2)] Cons(3,4) t show ?case by simp
qed

subsection \<open>Deadlines\<close>

lemma post_and_timeout:
  assumes "status_works ht" "tmCurrent (fst s) = Some InitState"
    and "wBootTimeMs (snd s) + t \<le> T" "wBootTimeMs (snd s) \<le> T"
  shows "\<exists>s'. tele_run ht [OpPostOn t, OpTick T, OpTimeOut] s = Some s' \<and> tmCurrent (fst s') = Some InitState"
proof -
  obtain m w where s: "s = (m, w)" by (cases s)
  obtain w1 where w1: "call (htSetTraceStatus ht True) w = (CODE_SUCCESS, w1)" "wBootTimeMs w1 = wBootTimeMs w"
    using status_call [OF assms(1)] by metis
  let ?w1 = "(notify (tmCallback m) OnTelemetryTraceOn w1)\<lparr>wBootTimeMs := T\<rparr>"
  obtain w2 where w2: "call (htSetTraceStatus ht False) ?w1 = (CODE_SUCCESS, w2)"
    using status_call [OF assms(1)] by metis
  show ?thesis
    using assms(2-4) w1 w2 by (auto simp: s tele_defs Let_def max_def)
qed

lemma timeouts_keep:
  assumes "tmCurrent m = Some TraceOnState" "tmTraceOnCount m > 0" "tmPostEndTime m = 0"
  shows "tele_run ht (replicate k OpTimeOut) (m, w) = Some (m, w)"
proof -
  have "tele_step ht OpTimeOut (m, w) = Some (m, w)"
    using assms by (cases m) (simp add: tele_defs Let_def)
  then show ?thesis by (induction k) (simp_all del: tele_step.simps)
qed

lemma post_hides_holder:
  assumes "status_works ht" "tmCurrent (fst s) = Some InitState"
    and "0 < wBootTimeMs (snd s) + t" "wBootTimeMs (snd s) + t \<le> T" "wBootTimeMs (snd s) \<le> T"
  shows "\<exists>s'. tele_run ht ([OpPostOn t, OpTraceOn, OpTraceOff, OpTick T] @ replicate (Suc n) OpTimeOut) s = Some s' \<and>
    is_on (fst s') \<and> tmTraceOnCount (fst s') = 1 \<and> tmPostEndTime (fst s') = 0"
proof -
  obtain m w where s: "s = (m, w)" by (cases s)
  obtain w1 where w1: "call (htSetTraceStatus ht True) w = (CODE_SUCCESS, w1)" "wBootTimeMs w1 = wBootTimeMs w"
    using status_call [OF assms(1)] by metis
  let ?w1 = "(notify (tmCallback m) OnTelemetryTraceOn w1)\<lparr>wBootTimeMs := T\<rparr>"
  let ?m1 = "m\<lparr>tmTraceOnCount := 1, tmPostEndTime := 0, tmCurrent := Some TraceOnState\<rparr>"
  have "tele_run ht ([OpPostOn t, OpTraceOn, OpTraceOff, OpTick T] @ replicate (Suc n) OpTimeOut) s =
      tele_run ht (replicate n OpTimeOut) (?m1, ?w1)"
    using assms(2-5) w1 by (cases m) (auto simp: s tele_defs Let_def max_def)
  moreover have "tele_run ht (replicate n OpTimeOut) (?m1, ?w1) = Some (?m1, ?w1)"
    by (rule timeouts_keep) simp_all
  ultimately show ?thesis by (auto simp: is_on_def)
qed

end
