(* ===== verification/Trace_States.thy ===== *)
theory Trace_States
  imports Telemetry_Machine
begin

text \<open>
  The states of the trace manager (trace_manager/state/*.cpp) and the transitions of
  \<open>TraceStateMachine\<close> they call. Each method of a state is a function from the machine to its result;
  a method that a state does not override is the one of \<open>TraceBaseState\<close>, which is also the closed
  state. Only the telemetry state can use a null pointer, so only the operations that reach it
  return an option.
\<close>

section \<open>State\<close>

record telemetry_data =
  tsPolicy :: telemetry_policy
  tsCallback :: "callback option"
  tsInner :: "tele_machine option"

datatype trace_state =
    CloseState
  | CommandState
  | CommandDropState
  | CommonState i32 i32
  | CommonDropState
  | AppSystemState i32
  | DynamicState i32 u64
  | TelemetryState telemetry_data

record 'x machine =
  mState :: trace_state
  mCacheSizeLimit :: i32
  mCacheSliceSpan :: i32
  mTraceSwitchState :: u8
  mIsCommandState :: bool
  mIsCachSwitchOn :: bool
  mWorld :: "'x world"

fun GetStateScenario :: "trace_state \<Rightarrow> string" where
  "GetStateScenario CloseState = SN_CLOSE"
| "GetStateScenario CommandState = SN_COMMAND"
| "GetStateScenario CommandDropState = SN_COMMAND_DROP"
| "GetStateScenario (CommonState fsize span) = SN_COMMON_BETA"
| "GetStateScenario CommonDropState = SN_COMMON_DROP"
| "GetStateScenario (AppSystemState pid) = SN_APP_SYSTEM"
| "GetStateScenario (DynamicState pid since) = SN_APP_DYNAMIC"
| "GetStateScenario (TelemetryState ts) = SN_TELEMETRY"

fun GetStateLevel :: "trace_state \<Rightarrow> u8" where
  "GetStateLevel CloseState = SL_CLOSE"
| "GetStateLevel CommandState = SL_COMMAND"
| "GetStateLevel CommandDropState = SL_COMMAND_DROP"
| "GetStateLevel (CommonState fsize span) = SL_COMMON_BETA"
| "GetStateLevel CommonDropState = SL_COMMON_DROP"
| "GetStateLevel (AppSystemState pid) = SL_APP_SYSTEM"
| "GetStateLevel (DynamicState pid since) = SL_APP_DYNAMIC"
| "GetStateLevel (TelemetryState ts) = SL_TELEMETRY"

fun GetCurrentAppInfo :: "trace_state \<Rightarrow> i32 \<times> u64" where
  "GetCurrentAppInfo (AppSystemState pid) = (pid, 0)"
| "GetCurrentAppInfo (DynamicState pid since) = (pid, since)"
| "GetCurrentAppInfo s = (- 1, 0)"

section \<open>Transitions\<close>

text \<open>
  A call of Hitrace, and the replacement of the current state: the old state object is destroyed,
  and the destructor of the telemetry state tells its callback.
\<close>

definition hcall :: "('x \<Rightarrow> 'r \<times> 'x) \<Rightarrow> 'x machine \<Rightarrow> 'r \<times> 'x machine" where
  "hcall f m = (case call f (mWorld m) of (r, w) \<Rightarrow> (r, m\<lparr>mWorld := w\<rparr>))"

fun destroy :: "trace_state \<Rightarrow> 'x world \<Rightarrow> 'x world" where
  "destroy (TelemetryState ts) w = notify (tsCallback ts) OnTelemetryFinish w"
| "destroy s w = w"

definition set_state :: "trace_state \<Rightarrow> 'x machine \<Rightarrow> 'x machine" where
  "set_state s m = m\<lparr>mState := s, mWorld := destroy (mState m) (mWorld m)\<rparr>"

definition SetCommandState :: "bool \<Rightarrow> 'x machine \<Rightarrow> 'x machine" where
  "SetCommandState b m = m\<lparr>mIsCommandState := b\<rparr>"

definition TransToCloseState :: "'x machine \<Rightarrow> 'x machine" where
  "TransToCloseState m = set_state CloseState m"

definition TransToCommandState :: "'x machine \<Rightarrow> 'x machine" where
  "TransToCommandState m = set_state CommandState (SetCommandState True m)"

definition TransToCommandDropState :: "'x machine \<Rightarrow> 'x machine" where
  "TransToCommandDropState m = set_state CommandDropState m"

text \<open>The constructor of \<open>CommonState\<close> turns the cache on when its switch is on.\<close>

definition TransToCommonState :: "'x hitrace \<Rightarrow> 'x machine \<Rightarrow> 'x machine" where
  "TransToCommonState ht m =
     (let m1 = (if mIsCachSwitchOn m
                then snd (hcall (htCacheTraceOn ht (mCacheSizeLimit m) (mCacheSliceSpan m)) m) else m)
      in set_state (CommonState (mCacheSizeLimit m) (mCacheSliceSpan m)) m1)"

definition TransToCommonDropState :: "'x machine \<Rightarrow> 'x machine" where
  "TransToCommonDropState m = set_state CommonDropState m"

definition TransToTelemetryState :: "telemetry_policy \<Rightarrow> 'x machine \<Rightarrow> 'x machine" where
  "TransToTelemetryState policy m =
     set_state (TelemetryState \<lparr>tsPolicy = policy, tsCallback = None, tsInner = None\<rparr>) m"

definition TransToAppSystemState :: "i32 \<Rightarrow> 'x machine \<Rightarrow> 'x machine" where
  "TransToAppSystemState pid m = set_state (AppSystemState pid) m"

definition TransToDynamicState :: "i32 \<Rightarrow> 'x machine \<Rightarrow> 'x machine" where
  "TransToDynamicState pid m = set_state (DynamicState pid (wMilliseconds (mWorld m))) m"

lemmas trans_defs = TransToCloseState_def TransToCommandState_def TransToCommandDropState_def
  TransToCommonState_def TransToCommonDropState_def TransToTelemetryState_def
  TransToAppSystemState_def TransToDynamicState_def

section \<open>Opening and closing\<close>

definition open_common_drop :: "'x hitrace \<Rightarrow> scenario \<Rightarrow> 'x machine \<Rightarrow> trace_ret \<times> 'x machine" where
  "open_common_drop ht sc m =
     (case hcall (htRecordTraceOn ht (scOutputPath sc)) m of (ret, m') \<Rightarrow>
        if ret \<noteq> CODE_SUCCESS then (TraceRet_code ret, m') else (TraceRet, TransToCommonDropState m'))"

definition enter_scenario :: "'x hitrace \<Rightarrow> scenario \<Rightarrow> 'x machine \<Rightarrow> trace_ret \<times> 'x machine" where
  "enter_scenario ht sc m =
     (if scName sc = SN_COMMAND then (TraceRet, TransToCommandState m)
      else if scName sc = SN_COMMON_BETA then (TraceRet, TransToCommonState ht m)
      else if scName sc = SN_COMMON_DROP then open_common_drop ht sc m
      else if scName sc = SN_TELEMETRY then (TraceRet, TransToTelemetryState (scPolicy sc) m)
      else if scName sc = SN_APP_SYSTEM then (TraceRet, TransToAppSystemState (taAppPid (scArgs sc)) m)
      else if scName sc = SN_APP_DYNAMIC then (TraceRet, TransToDynamicState (taAppPid (scArgs sc)) m)
      else (TraceRet, m))"

definition OpenTrace :: "'x hitrace \<Rightarrow> scenario \<Rightarrow> 'x machine \<Rightarrow> trace_ret \<times> 'x machine" where
  "OpenTrace ht sc m =
     (if scLevel sc \<le> GetStateLevel (mState m) then (TraceRet_state STATE_DENY, m)
      else case hcall (htCloseTrace ht) m of (ret, m1) \<Rightarrow>
        if ret \<noteq> CODE_SUCCESS then (TraceRet_code ret, m1)
        else case hcall (htOpenTrace ht (scArgs sc)) m1 of (ret2, m2) \<Rightarrow>
          if ret2 \<noteq> CODE_SUCCESS then (TraceRet_code ret2, m2)
          else enter_scenario ht sc m2)"

definition close_current :: "'x hitrace \<Rightarrow> 'x machine \<Rightarrow> trace_ret \<times> 'x machine" where
  "close_current ht m =
     (case hcall (htCloseTrace ht) m of (ret, m') \<Rightarrow>
        if ret \<noteq> CODE_SUCCESS then (TraceRet_code ret, m') else (TraceRet, TransToCloseState m'))"

definition BaseState_CloseTrace :: "'x hitrace \<Rightarrow> string \<Rightarrow> 'x machine \<Rightarrow> trace_ret \<times> 'x machine" where
  "BaseState_CloseTrace ht name m =
     (if GetStateScenario (mState m) = SN_CLOSE then (TraceRet, m)
      else if name \<noteq> GetStateScenario (mState m) then (TraceRet_state STATE_DENY, m)
      else close_current ht m)"

definition CommandState_CloseTrace :: "'x hitrace \<Rightarrow> string \<Rightarrow> 'x machine \<Rightarrow> trace_ret \<times> 'x machine" where
  "CommandState_CloseTrace ht name m =
     (case BaseState_CloseTrace ht name m of (ret, m') \<Rightarrow>
        (ret, if IsSuccess ret then SetCommandState False m' else m'))"

definition CommandDropState_CloseTrace :: "'x hitrace \<Rightarrow> string \<Rightarrow> 'x machine \<Rightarrow> trace_ret \<times> 'x machine" where
  "CommandDropState_CloseTrace ht name m =
     (if name \<noteq> SN_COMMAND_DROP \<and> name \<noteq> SN_COMMAND then (TraceRet_state STATE_DENY, m)
      else close_current ht m)"

definition CloseVersionBeta :: "'x machine \<Rightarrow> 'x machine" where
  "CloseVersionBeta m = m\<lparr>mTraceSwitchState := mTraceSwitchState m AND NOT (push_bit 3 1)\<rparr>"

definition CommonState_CloseTrace :: "'x hitrace \<Rightarrow> string \<Rightarrow> 'x machine \<Rightarrow> trace_ret \<times> 'x machine" where
  "CommonState_CloseTrace ht name m =
     (if name = SN_COMMON_BETA then BaseState_CloseTrace ht name m
      else if name = SN_COMMAND \<and> \<not> mIsCommandState m
      then BaseState_CloseTrace ht SN_COMMON_BETA (CloseVersionBeta m)
      else (TraceRet_state STATE_DENY, m))"

definition state_CloseTrace :: "'x hitrace \<Rightarrow> string \<Rightarrow> 'x machine \<Rightarrow> trace_ret \<times> 'x machine" where
  "state_CloseTrace ht name m =
     (case mState m of
        CommandState \<Rightarrow> CommandState_CloseTrace ht name m
      | CommandDropState \<Rightarrow> CommandDropState_CloseTrace ht name m
      | CommonState fsize span \<Rightarrow> CommonState_CloseTrace ht name m
      | _ \<Rightarrow> BaseState_CloseTrace ht name m)"

section \<open>Dumping and recording\<close>

text \<open>A dump sets its \<open>info\<close> argument to what Hitrace returns; \<open>None\<close> leaves it as it was.\<close>

type_synonym 'x dump_result = "trace_ret \<times> trace_ret_info option \<times> 'x machine"

definition do_dump :: "('x \<Rightarrow> trace_ret_info \<times> 'x) \<Rightarrow> 'x machine \<Rightarrow> 'x dump_result" where
  "do_dump f m = (case hcall f m of (info, m') \<Rightarrow> (TraceRet_code (riErrorCode info), Some info, m'))"

definition no_dump :: "'x machine \<Rightarrow> 'x dump_result" where
  "no_dump m = (TraceRet_state STATE_FAIL, None, m)"

definition CommandState_DumpTrace ::
    "'x hitrace \<Rightarrow> string \<Rightarrow> u32 \<Rightarrow> u64 \<Rightarrow> string \<Rightarrow> 'x machine \<Rightarrow> 'x dump_result" where
  "CommandState_DumpTrace ht name dur time path m =
     (if name \<noteq> SN_COMMAND then no_dump m else do_dump (htDumpTrace ht dur time path) m)"

definition CommonState_DumpTrace ::
    "'x hitrace \<Rightarrow> string \<Rightarrow> u32 \<Rightarrow> u64 \<Rightarrow> string \<Rightarrow> 'x machine \<Rightarrow> 'x dump_result" where
  "CommonState_DumpTrace ht name dur time path m =
     (if name = SN_COMMON_BETA \<or> name = SN_COMMAND then do_dump (htDumpTrace ht dur time path) m
      else no_dump m)"

definition AppSystemState_DumpTrace ::
    "'x hitrace \<Rightarrow> string \<Rightarrow> u32 \<Rightarrow> u64 \<Rightarrow> string \<Rightarrow> 'x machine \<Rightarrow> 'x dump_result" where
  "AppSystemState_DumpTrace ht name dur time path m =
     (if name \<noteq> SN_APP_SYSTEM then no_dump m else do_dump (htDumpTrace ht dur time path) m)"

definition DynamicState_DumpTrace ::
    "'x hitrace \<Rightarrow> string \<Rightarrow> u32 \<Rightarrow> u64 \<Rightarrow> string \<Rightarrow> 'x machine \<Rightarrow> 'x dump_result" where
  "DynamicState_DumpTrace ht name dur time path m =
     (if name \<noteq> SN_APP_DYNAMIC then no_dump m else do_dump (htDumpTrace ht dur time path) m)"

definition state_DumpTrace ::
    "'x hitrace \<Rightarrow> string \<Rightarrow> u32 \<Rightarrow> u64 \<Rightarrow> string \<Rightarrow> 'x machine \<Rightarrow> 'x dump_result" where
  "state_DumpTrace ht name dur time path m =
     (case mState m of
        CommandState \<Rightarrow> CommandState_DumpTrace ht name dur time path m
      | CommonState fsize span \<Rightarrow> CommonState_DumpTrace ht name dur time path m
      | AppSystemState pid \<Rightarrow> AppSystemState_DumpTrace ht name dur time path m
      | DynamicState pid since \<Rightarrow> DynamicState_DumpTrace ht name dur time path m
      | _ \<Rightarrow> no_dump m)"

record dump_trace_args =
  daScenarioName :: string
  daMaxDuration :: u32
  daHappenTime :: u64

definition CommonState_DumpTraceAsync ::
    "'x hitrace \<Rightarrow> dump_trace_args \<Rightarrow> i64 \<Rightarrow> 'x machine \<Rightarrow> 'x dump_result" where
  "CommonState_DumpTraceAsync ht args limit m =
     (if daScenarioName args \<noteq> SN_COMMON_BETA then no_dump m
      else do_dump (htDumpTraceAsync ht (daMaxDuration args) (daHappenTime args) limit) m)"

definition state_DumpTraceAsync ::
    "'x hitrace \<Rightarrow> dump_trace_args \<Rightarrow> i64 \<Rightarrow> 'x machine \<Rightarrow> 'x dump_result" where
  "state_DumpTraceAsync ht args limit m =
     (case mState m of
        CommonState fsize span \<Rightarrow> CommonState_DumpTraceAsync ht args limit m
      | _ \<Rightarrow> no_dump m)"

definition CommandState_TraceDropOn :: "'x hitrace \<Rightarrow> string \<Rightarrow> string \<Rightarrow> 'x machine \<Rightarrow> trace_ret \<times> 'x machine" where
  "CommandState_TraceDropOn ht name path m =
     (if name \<noteq> SN_COMMAND then (TraceRet_state STATE_FAIL, m)
      else case hcall (htRecordTraceOn ht path) m of (ret, m') \<Rightarrow>
        if ret \<noteq> CODE_SUCCESS then (TraceRet_code ret, m') else (TraceRet, TransToCommandDropState m'))"

definition state_TraceDropOn :: "'x hitrace \<Rightarrow> string \<Rightarrow> string \<Rightarrow> 'x machine \<Rightarrow> trace_ret \<times> 'x machine" where
  "state_TraceDropOn ht name path m =
     (case mState m of
        CommandState \<Rightarrow> CommandState_TraceDropOn ht name path m
      | _ \<Rightarrow> (TraceRet_state STATE_FAIL, m))"

definition CommandDropState_TraceDropOff :: "'x hitrace \<Rightarrow> string \<Rightarrow> 'x machine \<Rightarrow> 'x dump_result" where
  "CommandDropState_TraceDropOff ht name m =
     (if name \<noteq> SN_COMMAND_DROP then no_dump m
      else case hcall (htRecordTraceOff ht) m of (info, m') \<Rightarrow>
        if riErrorCode info \<noteq> CODE_SUCCESS then (TraceRet_code (riErrorCode info), Some info, m')
        else (TraceRet, Some info, TransToCommandState m'))"

definition state_TraceDropOff :: "'x hitrace \<Rightarrow> string \<Rightarrow> 'x machine \<Rightarrow> 'x dump_result" where
  "state_TraceDropOff ht name m =
     (case mState m of
        CommandDropState \<Rightarrow> CommandDropState_TraceDropOff ht name m
      | _ \<Rightarrow> no_dump m)"

definition state_TraceCacheOn :: "'x hitrace \<Rightarrow> 'x machine \<Rightarrow> trace_ret \<times> 'x machine" where
  "state_TraceCacheOn ht m =
     (case mState m of
        CommonState fsize span \<Rightarrow>
          (case hcall (htCacheTraceOn ht fsize span) m of (ret, m') \<Rightarrow> (TraceRet_code ret, m'))
      | _ \<Rightarrow> (TraceRet_state STATE_FAIL, m))"

definition state_TraceCacheOff :: "'x hitrace \<Rightarrow> 'x machine \<Rightarrow> trace_ret \<times> 'x machine" where
  "state_TraceCacheOff ht m =
     (case mState m of
        CommonState fsize span \<Rightarrow>
          (case hcall (htCacheTraceOff ht) m of (ret, m') \<Rightarrow> (TraceRet_code ret, m'))
      | _ \<Rightarrow> (TraceRet_state STATE_FAIL, m))"

definition state_SetCacheParams :: "i32 \<Rightarrow> i32 \<Rightarrow> 'x machine \<Rightarrow> trace_ret \<times> 'x machine" where
  "state_SetCacheParams fsize span m =
     (case mState m of
        CommonState t s \<Rightarrow> (TraceRet, m\<lparr>mState := CommonState fsize span\<rparr>)
      | _ \<Rightarrow> (TraceRet_state STATE_FAIL, m))"

section \<open>The telemetry state\<close>

text \<open>Running the inner machine of a telemetry state, when it has one.\<close>

definition set_inner :: "telemetry_data \<Rightarrow> 'x tele \<Rightarrow> 'x machine \<Rightarrow> 'x machine" where
  "set_inner ts s m =
     (case s of (tm, w) \<Rightarrow> m\<lparr>mState := TelemetryState (ts\<lparr>tsInner := Some tm\<rparr>), mWorld := w\<rparr>)"

definition run_inner ::
    "telemetry_data \<Rightarrow> ('x tele \<Rightarrow> (trace_ret \<times> 'x tele) option) \<Rightarrow> tele_machine \<Rightarrow> 'x machine \<Rightarrow>
     (trace_ret \<times> 'x machine) option" where
  "run_inner ts f tm m = map_option (\<lambda>(ret, s). (ret, set_inner ts s m)) (f (tm, mWorld m))"

definition with_policy ::
    "telemetry_policy \<Rightarrow> (telemetry_data \<Rightarrow> tele_machine \<Rightarrow> 'x machine \<Rightarrow> (trace_ret \<times> 'x machine) option) \<Rightarrow>
     'x machine \<Rightarrow> (trace_ret \<times> 'x machine) option" where
  "with_policy policy f m =
     (case mState m of
        TelemetryState ts \<Rightarrow>
          (case tsInner ts of
             Some tm \<Rightarrow> if tsPolicy ts \<noteq> policy then Some (TraceRet_state STATE_POLICY_ERROR, m) else f ts tm m
           | None \<Rightarrow> Some (TraceRet_state STATE_POLICY_ERROR, m))
      | _ \<Rightarrow> Some (TraceRet_state STATE_FAIL, m))"

definition PowerTelemetryOn :: "'x hitrace \<Rightarrow> 'x machine \<Rightarrow> (trace_ret \<times> 'x machine) option" where
  "PowerTelemetryOn ht = with_policy POLICY_POWER (\<lambda>ts tm m.
     case IsTraceOn (tm, mWorld m) of
       None \<Rightarrow> None
     | Some True \<Rightarrow> Some (TraceRet, m)
     | Some False \<Rightarrow> run_inner ts (TraceOn ht) tm m)"

definition PowerTelemetryOff :: "'x hitrace \<Rightarrow> 'x machine \<Rightarrow> (trace_ret \<times> 'x machine) option" where
  "PowerTelemetryOff ht = with_policy POLICY_POWER (\<lambda>ts tm m.
     case IsTraceOn (tm, mWorld m) of
       None \<Rightarrow> None
     | Some False \<Rightarrow> Some (TraceRet, m)
     | Some True \<Rightarrow> run_inner ts (TraceOff ht) tm m)"

definition TraceTelemetryOn :: "'x hitrace \<Rightarrow> 'x machine \<Rightarrow> (trace_ret \<times> 'x machine) option" where
  "TraceTelemetryOn ht = with_policy POLICY_MANUAL (\<lambda>ts. run_inner ts (TraceOn ht))"

definition TraceTelemetryOff :: "'x hitrace \<Rightarrow> 'x machine \<Rightarrow> (trace_ret \<times> 'x machine) option" where
  "TraceTelemetryOff ht = with_policy POLICY_MANUAL (\<lambda>ts. run_inner ts (TraceOff ht))"

definition PostTelemetryOn :: "'x hitrace \<Rightarrow> u64 \<Rightarrow> 'x machine \<Rightarrow> (trace_ret \<times> 'x machine) option" where
  "PostTelemetryOn ht time = with_policy POLICY_MANUAL (\<lambda>ts. run_inner ts (PostOn ht time))"

definition PostTelemetryTimeOut :: "'x hitrace \<Rightarrow> 'x machine \<Rightarrow> (trace_ret \<times> 'x machine) option" where
  "PostTelemetryTimeOut ht = with_policy POLICY_MANUAL (\<lambda>ts. run_inner ts (TimeOut ht))"

definition DumpTraceWithFilter :: "'x hitrace \<Rightarrow> u32 \<Rightarrow> u64 \<Rightarrow> string \<Rightarrow> 'x machine \<Rightarrow> 'x dump_result option" where
  "DumpTraceWithFilter ht dur time path m =
     (case mState m of
        TelemetryState ts \<Rightarrow>
          (case tsInner ts of
             Some tm \<Rightarrow>
               if tsPolicy ts \<noteq> POLICY_DEFAULT
               then (case IsTraceOn (tm, mWorld m) of
                       None \<Rightarrow> None
                     | Some False \<Rightarrow> Some (no_dump m)
                     | Some True \<Rightarrow> Some (do_dump (htDumpTrace ht dur time path) m))
               else Some (do_dump (htDumpTrace ht dur time path) m)
           | None \<Rightarrow> Some (do_dump (htDumpTrace ht dur time path) m))
      | _ \<Rightarrow> Some (no_dump m))"

definition InitTelemetryStatus :: "'x hitrace \<Rightarrow> bool \<Rightarrow> 'x machine \<Rightarrow> 'x machine" where
  "InitTelemetryStatus ht isStatusOn m =
     (case mState m of
        TelemetryState ts \<Rightarrow>
          let tm = new_tele_machine\<lparr>tmCallback := tsCallback ts\<rparr> in
          if \<not> isStatusOn then set_inner ts (snd (TransToInitState ht (tm, mWorld m))) m
          else (case TransToTraceOnState ht 0 0 (tm, mWorld m) of (ret, (tm', w')) \<Rightarrow>
                  set_inner ts (tm', if IsSuccess ret then notify (tsCallback ts) OnTelemetryTraceOn w' else w') m)
      | _ \<Rightarrow> m)"

text \<open>
  \<open>OnTelemetryStart\<close> of the callback classes, as far as it reaches the trace manager: the manual and
  the power callback initialise the telemetry state from inside of the registration.
\<close>

definition callback_start :: "'x hitrace \<Rightarrow> callback \<Rightarrow> 'x machine \<Rightarrow> 'x machine" where
  "callback_start ht cb m =
     (let m1 = m\<lparr>mWorld := notify (Some cb) OnTelemetryStart (mWorld m)\<rparr> in
      case snd cb of
        UcTelemetryCallback \<Rightarrow> m1
      | ManualCallback \<Rightarrow> InitTelemetryStatus ht False m1
      | PowerCallback \<Rightarrow> InitTelemetryStatus ht (wScreenOn (mWorld m1)) m1)"

definition RegisterTelemetryCallback ::
    "'x hitrace \<Rightarrow> callback option \<Rightarrow> 'x machine \<Rightarrow> bool \<times> 'x machine" where
  "RegisterTelemetryCallback ht cb m =
     (case mState m of
        TelemetryState ts \<Rightarrow>
          (case cb of
             None \<Rightarrow> (False, m)
           | Some c \<Rightarrow>
               let m1 = callback_start ht c (m\<lparr>mState := TelemetryState (ts\<lparr>tsCallback := Some c\<rparr>)\<rparr>) in
               (True, if tsPolicy ts = POLICY_DEFAULT
                      then m1\<lparr>mWorld := notify (Some c) OnTelemetryTraceOn (mWorld m1)\<rparr> else m1))
      | _ \<Rightarrow> (False, m))"

end
