(* ===== verification/Trace_State_Machine.thy ===== *)
theory Trace_State_Machine
  imports Trace_States
begin

text \<open>
  \<open>TraceStateMachine\<close> (trace_manager/src/trace_state_machine.cpp): the facade of the trace states with
  the switches that decide what is traced while nobody asks for a trace. Every public operation
  holds one mutex, so a run of the manager is a sequence of operations; the runs are the
  inductive predicate \<open>reachable\<close>.
\<close>

section \<open>Scenarios of the switches\<close>

definition common_tags :: "string \<Rightarrow> string list" where
  "common_tags sched =
    [''net'', ''dsched'', ''graphic'', ''multimodalinput'', ''dinput'', ''ark'', ''ace'', ''window'', ''zaudio'',
     ''daudio'', ''zmedia'', ''dcamera'', ''zcamera'', ''dhfwk'', ''app'', ''gresource'', ''ability'', ''power'',
     ''samgr'', ''ffrt'', ''nweb'', ''hdf'', ''virse'', ''workq'', ''ipa'', sched, ''freq'', ''disk'', ''sync'',
     ''binder'', ''mmc'', ''membus'', ''load'']"

definition FILE_SIZE_LITMIT :: u32 where "FILE_SIZE_LITMIT = 100 * 1024"

definition SCENARIO_COMMON_DROP_INFO :: "'x hitrace \<Rightarrow> scenario" where
  "SCENARIO_COMMON_DROP_INFO ht = \<lparr>scName = SN_COMMON_DROP, scLevel = SL_COMMON_DROP,
     scArgs = (htDefaultArgs ht)\<lparr>taTags := common_tags ''sched'', taFileSizeLimit := FILE_SIZE_LITMIT\<rparr>,
     scPolicy = POLICY_DEFAULT, scOutputPath = []\<rparr>"

definition SCENARIO_COMMON_INFO :: "'x hitrace \<Rightarrow> scenario" where
  "SCENARIO_COMMON_INFO ht = \<lparr>scName = SN_COMMON_BETA, scLevel = SL_COMMON_BETA,
     scArgs = (htDefaultArgs ht)\<lparr>taTags := common_tags ''sched'', taFileSizeLimit := FILE_SIZE_LITMIT\<rparr>,
     scPolicy = POLICY_DEFAULT, scOutputPath = []\<rparr>"

definition SCENARIO_COMMON_SCHEDLT_INFO :: "'x hitrace \<Rightarrow> scenario" where
  "SCENARIO_COMMON_SCHEDLT_INFO ht = \<lparr>scName = SN_COMMON_BETA, scLevel = SL_COMMON_BETA,
     scArgs = (htDefaultArgs ht)\<lparr>taTags := common_tags ''schedlt'', taFileSizeLimit := FILE_SIZE_LITMIT\<rparr>,
     scPolicy = POLICY_DEFAULT, scOutputPath = []\<rparr>"

lemmas common_scenarios = SCENARIO_COMMON_DROP_INFO_def SCENARIO_COMMON_INFO_def SCENARIO_COMMON_SCHEDLT_INFO_def

section \<open>Operations\<close>

definition TraceStateMachine :: "'x world \<Rightarrow> 'x machine" where
  "TraceStateMachine w = \<lparr>mState = CloseState, mCacheSizeLimit = 800, mCacheSliceSpan = 10,
     mTraceSwitchState = 0, mIsCommandState = False, mIsCachSwitchOn = False, mWorld = w\<rparr>"

definition RefreshState :: "'x hitrace \<Rightarrow> 'x machine \<Rightarrow> trace_ret \<times> 'x machine" where
  "RefreshState ht m =
     (let name = GetStateScenario (mState m);
          m1 = (if name = SN_COMMON_BETA \<or> name = SN_COMMON_DROP then snd (state_CloseTrace ht name m) else m)
      in if mTraceSwitchState m1 = 0 then (TraceRet, m1)
         else if mTraceSwitchState m1 AND 1 = 1 then OpenTrace ht (SCENARIO_COMMON_DROP_INFO ht) m1
         else if wDeveloperMode (mWorld m1) then OpenTrace ht (SCENARIO_COMMON_INFO ht) m1
         else OpenTrace ht (SCENARIO_COMMON_SCHEDLT_INFO ht) m1)"

definition refresh_after_dump :: "'x hitrace \<Rightarrow> 'x dump_result \<Rightarrow> 'x dump_result" where
  "refresh_after_dump ht r =
     (case r of (ret, info, m) \<Rightarrow>
        (ret, info, if trCode ret = TRACE_IS_OCCUPIED \<or> trCode ret = WRONG_TRACE_MODE
                    then snd (RefreshState ht m) else m))"

definition DumpTrace ::
    "'x hitrace \<Rightarrow> string \<Rightarrow> u32 \<Rightarrow> u64 \<Rightarrow> string \<Rightarrow> 'x machine \<Rightarrow> 'x dump_result" where
  "DumpTrace ht name dur time path m = refresh_after_dump ht (state_DumpTrace ht name dur time path m)"

definition DumpTraceAsync :: "'x hitrace \<Rightarrow> dump_trace_args \<Rightarrow> i64 \<Rightarrow> 'x machine \<Rightarrow> 'x dump_result" where
  "DumpTraceAsync ht args limit m = refresh_after_dump ht (state_DumpTraceAsync ht args limit m)"

definition CloseTrace :: "'x hitrace \<Rightarrow> string \<Rightarrow> 'x machine \<Rightarrow> trace_ret \<times> 'x machine" where
  "CloseTrace ht name m =
     (case state_CloseTrace ht name m of (ret, m') \<Rightarrow>
        if \<not> IsSuccess ret then (ret, m') else RefreshState ht m')"

definition TraceCacheOn :: "'x hitrace \<Rightarrow> 'x machine \<Rightarrow> trace_ret \<times> 'x machine" where
  "TraceCacheOn ht m = state_TraceCacheOn ht (m\<lparr>mIsCachSwitchOn := True\<rparr>)"

definition TraceCacheOff :: "'x hitrace \<Rightarrow> 'x machine \<Rightarrow> trace_ret \<times> 'x machine" where
  "TraceCacheOff ht m = state_TraceCacheOff ht (m\<lparr>mIsCachSwitchOn := False\<rparr>)"

definition SetCacheParams :: "i32 \<Rightarrow> i32 \<Rightarrow> 'x machine \<Rightarrow> 'x machine" where
  "SetCacheParams fsize span m = m\<lparr>mCacheSizeLimit := fsize, mCacheSliceSpan := span\<rparr>"

definition switch_on :: "'x hitrace \<Rightarrow> nat \<Rightarrow> 'x machine \<Rightarrow> 'x machine" where
  "switch_on ht n m = snd (RefreshState ht (m\<lparr>mTraceSwitchState := mTraceSwitchState m OR push_bit n 1\<rparr>))"

definition switch_off :: "'x hitrace \<Rightarrow> nat \<Rightarrow> 'x machine \<Rightarrow> 'x machine" where
  "switch_off ht n m =
     snd (RefreshState ht (m\<lparr>mTraceSwitchState := mTraceSwitchState m AND NOT (push_bit n 1)\<rparr>))"

definition SetTraceVersionBeta :: "'x hitrace \<Rightarrow> 'x machine \<Rightarrow> 'x machine" where
  "SetTraceVersionBeta ht = switch_on ht 3"

definition SetTraceSwitchUcOn :: "'x hitrace \<Rightarrow> 'x machine \<Rightarrow> 'x machine" where
  "SetTraceSwitchUcOn ht = switch_on ht 2"

definition SetTraceSwitchUcOff :: "'x hitrace \<Rightarrow> 'x machine \<Rightarrow> 'x machine" where
  "SetTraceSwitchUcOff ht = switch_off ht 2"

definition SetTraceSwitchFreezeOn :: "'x hitrace \<Rightarrow> 'x machine \<Rightarrow> 'x machine" where
  "SetTraceSwitchFreezeOn ht = switch_on ht 1"

definition SetTraceSwitchFreezeOff :: "'x hitrace \<Rightarrow> 'x machine \<Rightarrow> 'x machine" where
  "SetTraceSwitchFreezeOff ht = switch_off ht 1"

definition SetTraceSwitchDevOn :: "'x hitrace \<Rightarrow> 'x machine \<Rightarrow> 'x machine" where
  "SetTraceSwitchDevOn ht = switch_on ht 0"

definition SetTraceSwitchDevOff :: "'x hitrace \<Rightarrow> 'x machine \<Rightarrow> 'x machine" where
  "SetTraceSwitchDevOff ht = switch_off ht 0"

text \<open>The filters are passed through to Hitrace, without the mutex.\<close>

definition SetFilterInfoToAppSwan :: "'x hitrace \<Rightarrow> string list \<Rightarrow> 'x machine \<Rightarrow> i32 \<times> 'x machine" where
  "SetFilterInfoToAppSwan ht names m = hcall (htSetFilterAppName ht names) m"

definition SetFilterPidInfo :: "'x hitrace \<Rightarrow> i32 \<Rightarrow> 'x machine \<Rightarrow> i32 \<times> 'x machine" where
  "SetFilterPidInfo ht pid m = hcall (htAddFilterPid ht pid) m"

definition AddSymlinkXattr :: "'x hitrace \<Rightarrow> string \<Rightarrow> 'x machine \<Rightarrow> bool \<times> 'x machine" where
  "AddSymlinkXattr ht fileName m = hcall (htAddSymlinkXattr ht fileName) m"

definition RemoveSymlinkXattr :: "'x hitrace \<Rightarrow> string \<Rightarrow> 'x machine \<Rightarrow> bool \<times> 'x machine" where
  "RemoveSymlinkXattr ht fileName m = hcall (htRemoveSymlinkXattr ht fileName) m"

section \<open>Branches of the single operations\<close>

lemma hcall_fields [simp]:
  "mState (snd (hcall f m)) = mState m" "mTraceSwitchState (snd (hcall f m)) = mTraceSwitchState m"
  "mIsCommandState (snd (hcall f m)) = mIsCommandState m" "mIsCachSwitchOn (snd (hcall f m)) = mIsCachSwitchOn m"
  "mCacheSizeLimit (snd (hcall f m)) = mCacheSizeLimit m" "mCacheSliceSpan (snd (hcall f m)) = mCacheSliceSpan m"
  "wLog (mWorld (snd (hcall f m))) = wLog (mWorld m)" "fst (hcall f m) = fst (f (wHitrace (mWorld m)))"
  "wHitrace (mWorld (snd (hcall f m))) = snd (f (wHitrace (mWorld m)))"
  by (simp_all add: hcall_def call_def split: prod.splits)

text \<open>What destroying a state tells the callback.\<close>

fun farewell :: "trace_state \<Rightarrow> (callback \<times> callback_event) list" where
  "farewell (TelemetryState ts) = (case tsCallback ts of None \<Rightarrow> [] | Some c \<Rightarrow> [(c, OnTelemetryFinish)])"
| "farewell s = []"

lemma destroy_world [simp]:
  "wLog (destroy s w) = wLog w @ farewell s" "wHitrace (destroy s w) = wHitrace w"
  by (cases s; simp add: notify_def split: option.split)+

lemma set_state_fields [simp]:
  "mState (set_state s m) = s" "mTraceSwitchState (set_state s m) = mTraceSwitchState m"
  "mIsCommandState (set_state s m) = mIsCommandState m" "mIsCachSwitchOn (set_state s m) = mIsCachSwitchOn m"
  "wLog (mWorld (set_state s m)) = wLog (mWorld m) @ farewell (mState m)"
  "wHitrace (mWorld (set_state s m)) = wHitrace (mWorld m)"
  by (simp_all add: set_state_def)

lemma SetCommandState_fields [simp]:
  "mState (SetCommandState b m) = mState m" "mTraceSwitchState (SetCommandState b m) = mTraceSwitchState m"
  "mIsCommandState (SetCommandState b m) = b" "mWorld (SetCommandState b m) = mWorld m"
  by (simp_all add: SetCommandState_def)

text \<open>The names a scenario can be opened under, with the state they lead to.\<close>

definition openable :: "string list" where
  "openable = [SN_COMMAND, SN_COMMON_BETA, SN_COMMON_DROP, SN_TELEMETRY, SN_APP_SYSTEM, SN_APP_DYNAMIC]"

lemma enter_scenario_works:
  assumes "hitrace_works ht" "scName sc \<in> set openable"
  shows "fst (enter_scenario ht sc m) = TraceRet"
    "GetStateScenario (mState (snd (enter_scenario ht sc m))) = scName sc"
    "wLog (mWorld (snd (enter_scenario ht sc m))) = wLog (mWorld m) @ farewell (mState m)"
    "mTraceSwitchState (snd (enter_scenario ht sc m)) = mTraceSwitchState m"
    "mIsCommandState (snd (enter_scenario ht sc m)) = (mIsCommandState m \<or> scName sc = SN_COMMAND)"
  using assms
  by (auto simp: enter_scenario_def openable_def trans_defs open_common_drop_def hitrace_works_def Let_def
      split: prod.splits)
    (metis (no_types, lifting) fst_conv snd_conv hcall_fields)+

lemma open_common_drop_state:
  "mState (snd (open_common_drop ht sc m)) \<noteq> mState m \<Longrightarrow> IsSuccess (fst (open_common_drop ht sc m))"
  by (auto simp: open_common_drop_def split: prod.splits if_splits) (metis hcall_fields(1) snd_conv)

lemma OpenTrace_denied:
  "scLevel sc \<le> GetStateLevel (mState m) \<Longrightarrow> OpenTrace ht sc m = (TraceRet_state STATE_DENY, m)"
  by (simp add: OpenTrace_def)

text \<open>The machine after the calls of Hitrace that a successful open makes.\<close>

definition reopened :: "'x hitrace \<Rightarrow> trace_args \<Rightarrow> 'x machine \<Rightarrow> 'x machine" where
  "reopened ht args m = snd (hcall (htOpenTrace ht args) (snd (hcall (htCloseTrace ht) m)))"

lemma reopened_fields [simp]:
  "mState (reopened ht args m) = mState m" "mTraceSwitchState (reopened ht args m) = mTraceSwitchState m"
  "mIsCommandState (reopened ht args m) = mIsCommandState m"
  "wLog (mWorld (reopened ht args m)) = wLog (mWorld m)"
  by (simp_all add: reopened_def)

lemma OpenTrace_works:
  assumes "hitrace_works ht" "scLevel sc > GetStateLevel (mState m)"
  shows "OpenTrace ht sc m = enter_scenario ht sc (reopened ht (scArgs sc) m)"
  using assms by (auto simp: OpenTrace_def reopened_def hitrace_works_def split: prod.split)
    (metis fst_conv hcall_fields(8))+

lemma OpenTrace_outcome:
  assumes "hitrace_works ht" "scName sc \<in> set openable"
  shows "if scLevel sc \<le> GetStateLevel (mState m) then OpenTrace ht sc m = (TraceRet_state STATE_DENY, m)
    else fst (OpenTrace ht sc m) = TraceRet \<and>
      GetStateScenario (mState (snd (OpenTrace ht sc m))) = scName sc \<and>
      wLog (mWorld (snd (OpenTrace ht sc m))) = wLog (mWorld m) @ farewell (mState m) \<and>
      mTraceSwitchState (snd (OpenTrace ht sc m)) = mTraceSwitchState m \<and>
      mIsCommandState (snd (OpenTrace ht sc m)) = (mIsCommandState m \<or> scName sc = SN_COMMAND)"
proof (cases "scLevel sc \<le> GetStateLevel (mState m)")
  case True
  then show ?thesis by (simp add: OpenTrace_denied)
next
  case False
  then have "OpenTrace ht sc m = enter_scenario ht sc (reopened ht (scArgs sc) m)"
    using OpenTrace_works [OF assms(1), of m sc] by simp
  with False enter_scenario_works [OF assms] show ?thesis by simp
qed

text \<open>A failed open keeps everything but the state of Hitrace.\<close>

lemma hcall_keeps: "(snd (hcall f m))\<lparr>mWorld := mWorld m\<rparr> = m"
  by (simp add: hcall_def split: prod.split)

lemma OpenTrace_fails:
  assumes "\<not> IsSuccess (fst (OpenTrace ht sc m))"
  shows "(snd (OpenTrace ht sc m))\<lparr>mWorld := mWorld m\<rparr> = m \<and>
    wLog (mWorld (snd (OpenTrace ht sc m))) = wLog (mWorld m)"
proof -
  let ?m1 = "snd (hcall (htCloseTrace ht) m)"
  let ?m2 = "snd (hcall (htOpenTrace ht (scArgs sc)) ?m1)"
  let ?m3 = "snd (hcall (htRecordTraceOn ht (scOutputPath sc)) ?m2)"
  have "snd (OpenTrace ht sc m) \<in> {m, ?m1, ?m2, ?m3}"
    using assms
    by (auto simp: OpenTrace_def enter_scenario_def open_common_drop_def split: prod.splits if_splits)
  moreover have "(x\<lparr>mWorld := w\<rparr>)\<lparr>mWorld := v\<rparr> = x\<lparr>mWorld := v\<rparr>" for x :: "'a machine" and w v by simp
  ultimately show ?thesis
    by (auto simp: hcall_def split: prod.splits)
      (metis call_world(1) snd_conv)+
qed

section \<open>Refreshing\<close>

text \<open>What the switches ask for: nothing, continuous recording, or the common trace.\<close>

definition wanted_scenario :: "u8 \<Rightarrow> string" where
  "wanted_scenario sw =
     (if sw = 0 then SN_CLOSE else if sw AND 1 = 1 then SN_COMMON_DROP else SN_COMMON_BETA)"

definition command_held :: "trace_state \<Rightarrow> bool" where
  "command_held s \<longleftrightarrow> s = CommandState \<or> s = CommandDropState"

definition is_common :: "trace_state \<Rightarrow> bool" where
  "is_common s \<longleftrightarrow> GetStateScenario s = SN_COMMON_BETA \<or> GetStateScenario s = SN_COMMON_DROP"

lemma common_farewell [simp]: "is_common s \<Longrightarrow> farewell s = []"
  by (cases s) (simp_all add: is_common_def)

lemma common_drop_denied:
  "SL_COMMON_DROP \<le> GetStateLevel (if is_common s then CloseState else s) \<longleftrightarrow> command_held s"
  by (cases s) (simp_all add: is_common_def command_held_def scenario_levels word_le_nat_alt)

lemma common_beta_denied:
  "SL_COMMON_BETA \<le> GetStateLevel (if is_common s then CloseState else s) \<longleftrightarrow> command_held s"
  by (cases s) (simp_all add: is_common_def command_held_def scenario_levels word_le_nat_alt)

lemma common_names_openable: "SN_COMMON_DROP \<in> set openable" "SN_COMMON_BETA \<in> set openable"
  by (simp_all add: openable_def)

lemma close_current_works:
  assumes "hitrace_works ht"
  shows "close_current ht m = (TraceRet, TransToCloseState (snd (hcall (htCloseTrace ht) m)))"
  using assms by (simp add: close_current_def hitrace_works_def split: prod.split)
    (metis fst_conv hcall_fields(8))

lemma close_common_works:
  assumes "hitrace_works ht" "is_common (mState m)"
  shows "state_CloseTrace ht (GetStateScenario (mState m)) m =
    (TraceRet, TransToCloseState (snd (hcall (htCloseTrace ht) m)))"
  using assms close_current_works [OF assms(1)]
  by (cases "mState m")
    (simp_all add: is_common_def state_CloseTrace_def CommonState_CloseTrace_def BaseState_CloseTrace_def)

lemma RefreshState_works:
  assumes "hitrace_works ht"
  shows "fst (RefreshState ht m) =
      (if command_held (mState m) \<and> mTraceSwitchState m \<noteq> 0 then TraceRet_state STATE_DENY else TraceRet) \<and>
    GetStateScenario (mState (snd (RefreshState ht m))) =
      (if command_held (mState m) \<or> mTraceSwitchState m = 0 \<and> \<not> is_common (mState m)
       then GetStateScenario (mState m) else wanted_scenario (mTraceSwitchState m)) \<and>
    wLog (mWorld (snd (RefreshState ht m))) =
      wLog (mWorld m) @ (if mTraceSwitchState m = 0 then [] else farewell (mState m)) \<and>
    mTraceSwitchState (snd (RefreshState ht m)) = mTraceSwitchState m \<and>
    mIsCommandState (snd (RefreshState ht m)) = mIsCommandState m"
proof -
  let ?name = "GetStateScenario (mState m)"
  define m1 where "m1 = (if is_common (mState m) then snd (state_CloseTrace ht ?name m) else m)"
  have m1: "mState m1 = (if is_common (mState m) then CloseState else mState m)"
    "mTraceSwitchState m1 = mTraceSwitchState m" "mIsCommandState m1 = mIsCommandState m"
    "wLog (mWorld m1) = wLog (mWorld m)"
    using close_common_works [OF assms, of m]
    by (auto simp: m1_def TransToCloseState_def)
  have r: "RefreshState ht m =
     (if mTraceSwitchState m1 = 0 then (TraceRet, m1)
      else if mTraceSwitchState m1 AND 1 = 1 then OpenTrace ht (SCENARIO_COMMON_DROP_INFO ht) m1
      else if wDeveloperMode (mWorld m1) then OpenTrace ht (SCENARIO_COMMON_INFO ht) m1
      else OpenTrace ht (SCENARIO_COMMON_SCHEDLT_INFO ht) m1)"
    by (simp add: RefreshState_def m1_def is_common_def Let_def)
  have far: "farewell (mState m1) = farewell (mState m)"
    using m1(1) by simp
  have opened: "fst (OpenTrace ht sc m1) =
      (if command_held (mState m) then TraceRet_state STATE_DENY else TraceRet) \<and>
    GetStateScenario (mState (snd (OpenTrace ht sc m1))) =
      (if command_held (mState m) then GetStateScenario (mState m) else scName sc) \<and>
    wLog (mWorld (snd (OpenTrace ht sc m1))) = wLog (mWorld m) @ farewell (mState m) \<and>
    mTraceSwitchState (snd (OpenTrace ht sc m1)) = mTraceSwitchState m \<and>
    mIsCommandState (snd (OpenTrace ht sc m1)) = mIsCommandState m"
    if sc: "scName sc = SN_COMMON_DROP \<and> scLevel sc = SL_COMMON_DROP \<or>
      scName sc = SN_COMMON_BETA \<and> scLevel sc = SL_COMMON_BETA" for sc
  proof -
    have lev: "scLevel sc \<le> GetStateLevel (mState m1) \<longleftrightarrow> command_held (mState m)"
      using sc common_drop_denied common_beta_denied unfolding m1(1) by metis
    have "scName sc \<in> set openable" "scName sc \<noteq> SN_COMMAND"
      using sc common_names_openable by auto
    with OpenTrace_outcome [OF assms this(1), of m1] lev m1 far show ?thesis
      by (auto simp: command_held_def is_common_def)
  qed
  show ?thesis
  proof (cases "mTraceSwitchState m = 0")
    case True
    then show ?thesis
      using m1 by (simp add: r wanted_scenario_def command_held_def is_common_def)
  next
    case False
    then show ?thesis
      using opened [of "SCENARIO_COMMON_DROP_INFO ht"] opened [of "SCENARIO_COMMON_INFO ht"]
        opened [of "SCENARIO_COMMON_SCHEDLT_INFO ht"] m1(2)
      by (simp add: r common_scenarios wanted_scenario_def)
  qed
qed

end
