(* ===== verification/Trace_Runs.thy ===== *)
theory Trace_Runs
  imports Trace_State_Machine
begin

text \<open>
  Runs of the trace manager: every sequence of its public operations, with the scenarios its callers
  open, interleaved with changes of the world. The invariants are proved by rule induction.
\<close>

section \<open>Steps\<close>

text \<open>
  The scenarios that are opened from outside: by the trace command (hiview_service.cpp), by the
  telemetry listener (uc_telemetry_listener.cpp) and for applications (trace_collector_impl.cpp,
  hiview_service.cpp).
\<close>

definition caller_scenario :: "scenario \<Rightarrow> bool" where
  "caller_scenario sc \<longleftrightarrow> (scName sc, scLevel sc) \<in>
     {(SN_COMMAND, SL_COMMAND), (SN_TELEMETRY, SL_TELEMETRY), (SN_APP_SYSTEM, SL_APP_SYSTEM),
      (SN_APP_DYNAMIC, SL_APP_DYNAMIC)}"

inductive machine_step :: "'x hitrace \<Rightarrow> 'x machine \<Rightarrow> 'x machine \<Rightarrow> bool" for ht where
  open_trace: "caller_scenario sc \<Longrightarrow> machine_step ht m (snd (OpenTrace ht sc m))"
| close_trace: "machine_step ht m (snd (CloseTrace ht name m))"
| dump: "machine_step ht m (snd (snd (DumpTrace ht name dur time path m)))"
| dump_async: "machine_step ht m (snd (snd (DumpTraceAsync ht args limit m)))"
| dump_filter: "DumpTraceWithFilter ht dur time path m = Some (ret, info, m') \<Longrightarrow> machine_step ht m m'"
| drop_on: "machine_step ht m (snd (state_TraceDropOn ht name path m))"
| drop_off: "machine_step ht m (snd (snd (state_TraceDropOff ht name m)))"
| cache_on: "machine_step ht m (snd (TraceCacheOn ht m))"
| cache_off: "machine_step ht m (snd (TraceCacheOff ht m))"
| cache_params: "machine_step ht m (SetCacheParams fsize span m)"
| beta_on: "machine_step ht m (SetTraceVersionBeta ht m)"
| uc_on: "machine_step ht m (SetTraceSwitchUcOn ht m)"
| uc_off: "machine_step ht m (SetTraceSwitchUcOff ht m)"
| freeze_on: "machine_step ht m (SetTraceSwitchFreezeOn ht m)"
| freeze_off: "machine_step ht m (SetTraceSwitchFreezeOff ht m)"
| dev_on: "machine_step ht m (SetTraceSwitchDevOn ht m)"
| dev_off: "machine_step ht m (SetTraceSwitchDevOff ht m)"
| power_on: "PowerTelemetryOn ht m = Some (ret, m') \<Longrightarrow> machine_step ht m m'"
| power_off: "PowerTelemetryOff ht m = Some (ret, m') \<Longrightarrow> machine_step ht m m'"
| telemetry_on: "TraceTelemetryOn ht m = Some (ret, m') \<Longrightarrow> machine_step ht m m'"
| telemetry_off: "TraceTelemetryOff ht m = Some (ret, m') \<Longrightarrow> machine_step ht m m'"
| post_on: "PostTelemetryOn ht time m = Some (ret, m') \<Longrightarrow> machine_step ht m m'"
| post_timeout: "PostTelemetryTimeOut ht m = Some (ret, m') \<Longrightarrow> machine_step ht m m'"
| init_status: "machine_step ht m (InitTelemetryStatus ht isStatusOn m)"
| register: "machine_step ht m (snd (RegisterTelemetryCallback ht cb m))"
| filter_apps: "machine_step ht m (snd (SetFilterInfoToAppSwan ht names m))"
| filter_pid: "machine_step ht m (snd (SetFilterPidInfo ht pid m))"
| add_xattr: "machine_step ht m (snd (AddSymlinkXattr ht fileName m))"
| remove_xattr: "machine_step ht m (snd (RemoveSymlinkXattr ht fileName m))"
| environment: "wLog w = wLog (mWorld m) \<Longrightarrow> machine_step ht m (m\<lparr>mWorld := w\<rparr>)"

inductive reachable :: "'x hitrace \<Rightarrow> 'x machine \<Rightarrow> bool" for ht where
  start: "wLog w = [] \<Longrightarrow> reachable ht (TraceStateMachine w)"
| step: "reachable ht m \<Longrightarrow> machine_step ht m m' \<Longrightarrow> reachable ht m'"

section \<open>Operations that keep the scenario\<close>

definition same_frame :: "'x machine \<Rightarrow> 'x machine \<Rightarrow> bool" where
  "same_frame m m' \<longleftrightarrow> GetStateScenario (mState m') = GetStateScenario (mState m) \<and>
     mTraceSwitchState m' = mTraceSwitchState m \<and> mIsCommandState m' = mIsCommandState m"

lemma same_frame_refl [simp]: "same_frame m m"
  by (simp add: same_frame_def)

lemma same_frame_hcall [simp]: "same_frame m (snd (hcall f m))"
  by (simp add: same_frame_def)

lemma same_frame_world [simp]: "same_frame m (m\<lparr>mWorld := w\<rparr>)"
  by (simp add: same_frame_def)

lemma same_frame_inner:
  "mState m = TelemetryState ts \<Longrightarrow> same_frame m (set_inner ts s m)"
  by (cases s) (simp add: same_frame_def set_inner_def)

lemma same_frame_policy:
  assumes "with_policy p f m = Some (ret, m')"
    and "\<And>ts tm. mState m = TelemetryState ts \<Longrightarrow> f ts tm m = Some (ret, m') \<Longrightarrow> same_frame m m'"
  shows "same_frame m m'"
  using assms by (auto simp: with_policy_def split: trace_state.splits option.splits if_splits)

lemma same_frame_run_inner:
  "run_inner ts f tm m = Some (ret, m') \<Longrightarrow> mState m = TelemetryState ts \<Longrightarrow> same_frame m m'"
  by (auto simp: run_inner_def same_frame_inner split: prod.splits)

lemma same_frame_telemetry:
  "PowerTelemetryOn ht m = Some (ret, m') \<Longrightarrow> same_frame m m'"
  "PowerTelemetryOff ht m = Some (ret, m') \<Longrightarrow> same_frame m m'"
  "TraceTelemetryOn ht m = Some (ret, m') \<Longrightarrow> same_frame m m'"
  "TraceTelemetryOff ht m = Some (ret, m') \<Longrightarrow> same_frame m m'"
  "PostTelemetryOn ht t m = Some (ret, m') \<Longrightarrow> same_frame m m'"
  "PostTelemetryTimeOut ht m = Some (ret, m') \<Longrightarrow> same_frame m m'"
  unfolding PowerTelemetryOn_def PowerTelemetryOff_def TraceTelemetryOn_def TraceTelemetryOff_def
    PostTelemetryOn_def PostTelemetryTimeOut_def
  by (erule same_frame_policy; force intro: same_frame_run_inner split: option.splits bool.splits)+

lemma same_frame_init [simp]: "same_frame m (InitTelemetryStatus ht b m)"
  by (auto simp: InitTelemetryStatus_def same_frame_inner Let_def split: trace_state.split prod.split)

lemma same_frame_trans: "same_frame m m' \<Longrightarrow> same_frame m' m'' \<Longrightarrow> same_frame m m''"
  by (simp add: same_frame_def)

lemma same_frame_start: "same_frame m (callback_start ht cb m)"
  unfolding callback_start_def Let_def
  by (cases "snd cb") (auto intro: same_frame_trans [OF same_frame_world same_frame_init])

lemma same_frame_register [simp]: "same_frame m (snd (RegisterTelemetryCallback ht cb m))"
proof (cases "\<exists>ts c. mState m = TelemetryState ts \<and> cb = Some c")
  case True
  then obtain ts c where eq: "mState m = TelemetryState ts" "cb = Some c" by blast
  let ?m = "m\<lparr>mState := TelemetryState (ts\<lparr>tsCallback := Some c\<rparr>)\<rparr>"
  have "same_frame m ?m" using eq by (simp add: same_frame_def)
  then have "same_frame m (callback_start ht c ?m)" by (rule same_frame_trans [OF _ same_frame_start])
  then show ?thesis
    using eq by (simp add: RegisterTelemetryCallback_def same_frame_def Let_def)
next
  case False
  then show ?thesis by (auto simp: RegisterTelemetryCallback_def split: trace_state.split option.split)
qed

lemma same_frame_dumps:
  "same_frame m (snd (snd (no_dump m)))" "same_frame m (snd (snd (do_dump f m)))"
  by (simp_all add: no_dump_def do_dump_def split: prod.split) (metis same_frame_hcall snd_conv)

lemma same_frame_state_dump:
  "same_frame m (snd (snd (state_DumpTrace ht name dur time path m)))"
  "same_frame m (snd (snd (state_DumpTraceAsync ht args limit m)))"
  by (simp_all add: state_DumpTrace_def CommandState_DumpTrace_def CommonState_DumpTrace_def
      AppSystemState_DumpTrace_def DynamicState_DumpTrace_def state_DumpTraceAsync_def
      CommonState_DumpTraceAsync_def same_frame_dumps split: trace_state.split)

lemma same_frame_dump_filter:
  assumes "DumpTraceWithFilter ht dur time path m = Some r"
  shows "same_frame m (snd (snd r))"
proof -
  have "r = no_dump m \<or> r = do_dump (htDumpTrace ht dur time path) m"
    using assms by (auto simp: DumpTraceWithFilter_def split: trace_state.splits option.splits bool.splits if_splits)
  then show ?thesis using same_frame_dumps by metis
qed

lemma same_frame_cache:
  "same_frame m (snd (TraceCacheOn ht m))" "same_frame m (snd (TraceCacheOff ht m))"
  "same_frame m (SetCacheParams fsize span m)"
  by (auto simp: TraceCacheOn_def TraceCacheOff_def state_TraceCacheOn_def state_TraceCacheOff_def
      SetCacheParams_def same_frame_def hcall_def split: trace_state.split prod.split)

section \<open>The switches decide what is traced\<close>

text \<open>
  While no command holds the trace, a set switch is traced as the switches ask, and a common trace
  is running only because a switch asks for it.
\<close>

definition switch_ok :: "'x machine \<Rightarrow> bool" where
  "switch_ok m \<longleftrightarrow> command_held (mState m) \<or>
     (mTraceSwitchState m \<noteq> 0 \<or> is_common (mState m) \<longrightarrow>
        GetStateScenario (mState m) = wanted_scenario (mTraceSwitchState m))"

lemma switch_ok_frame: "same_frame m m' \<Longrightarrow> switch_ok m \<Longrightarrow> switch_ok m'"
  by (cases "mState m"; cases "mState m'")
    (simp_all add: same_frame_def switch_ok_def command_held_def is_common_def)

lemma switch_ok_refresh: "hitrace_works ht \<Longrightarrow> switch_ok (snd (RefreshState ht m))"
  using RefreshState_works [of ht m]
  by (cases "mState (snd (RefreshState ht m))"; cases "mState m")
    (auto simp: switch_ok_def command_held_def is_common_def wanted_scenario_def split: if_splits)

lemma caller_openable: "caller_scenario sc \<Longrightarrow> scName sc \<in> set openable"
  by (auto simp: caller_scenario_def openable_def)

lemma switch_ok_open:
  assumes "hitrace_works ht" "caller_scenario sc" "switch_ok m"
  shows "switch_ok (snd (OpenTrace ht sc m))"
proof (cases "scLevel sc \<le> GetStateLevel (mState m)")
  case True
  with assms(3) show ?thesis by (simp add: OpenTrace_denied)
next
  case False
  let ?m = "snd (OpenTrace ht sc m)"
  have m': "GetStateScenario (mState ?m) = scName sc" "mTraceSwitchState ?m = mTraceSwitchState m"
    using OpenTrace_outcome [OF assms(1) caller_openable [OF assms(2)], of m] False by simp_all
  have "scName sc = SN_COMMAND \<or> mTraceSwitchState m = 0 \<and> scName sc \<in> {SN_TELEMETRY, SN_APP_SYSTEM, SN_APP_DYNAMIC}"
    using assms(2,3) False
    by (cases "mState m")
      (auto simp: caller_scenario_def switch_ok_def command_held_def is_common_def wanted_scenario_def
        scenario_levels word_le_nat_alt split: if_splits)
  with m' show ?thesis
    by (cases "mState ?m") (auto simp: switch_ok_def command_held_def is_common_def)
qed

lemma state_CloseTrace_fails:
  assumes "hitrace_works ht" "\<not> IsSuccess (fst (state_CloseTrace ht name m))"
  shows "snd (state_CloseTrace ht name m) = m"
  using assms(2) close_current_works [OF assms(1)]
  by (auto simp: state_CloseTrace_def CommandState_CloseTrace_def CommandDropState_CloseTrace_def
      CommonState_CloseTrace_def BaseState_CloseTrace_def CloseVersionBeta_def
      split: trace_state.splits if_splits prod.splits)

lemma switch_ok_close:
  assumes "hitrace_works ht" "switch_ok m"
  shows "switch_ok (snd (CloseTrace ht name m))"
  using assms state_CloseTrace_fails [OF assms(1), of name m] switch_ok_refresh [OF assms(1)]
  by (auto simp: CloseTrace_def split: prod.split)

lemma switch_ok_dump:
  assumes "hitrace_works ht" "switch_ok m" "same_frame m (snd (snd r))"
  shows "switch_ok (snd (snd (refresh_after_dump ht r)))"
  using assms switch_ok_refresh [OF assms(1)] switch_ok_frame [OF assms(3,2)]
  by (auto simp: refresh_after_dump_def split: prod.split)

lemma switch_ok_drop:
  assumes "switch_ok m"
  shows "switch_ok (snd (state_TraceDropOn ht name path m))"
    "switch_ok (snd (snd (state_TraceDropOff ht name m)))"
  using assms
  by (auto simp: state_TraceDropOn_def CommandState_TraceDropOn_def state_TraceDropOff_def
      CommandDropState_TraceDropOff_def no_dump_def TransToCommandDropState_def TransToCommandState_def
      switch_ok_def command_held_def hcall_def split: trace_state.split prod.split)

lemmas switch_ops = SetTraceVersionBeta_def SetTraceSwitchUcOn_def SetTraceSwitchUcOff_def
  SetTraceSwitchFreezeOn_def SetTraceSwitchFreezeOff_def SetTraceSwitchDevOn_def
  SetTraceSwitchDevOff_def switch_on_def switch_off_def

lemmas filter_ops = SetFilterInfoToAppSwan_def SetFilterPidInfo_def AddSymlinkXattr_def RemoveSymlinkXattr_def

lemma switch_ok_step:
  assumes "hitrace_works ht" "switch_ok m" "machine_step ht m m'"
  shows "switch_ok m'"
  using assms(3,2)
proof cases
  case (dump_filter dur time path ret info)
  from same_frame_dump_filter [OF this] assms(2) show ?thesis by (simp add: switch_ok_frame)
qed (use assms(1,2) in \<open>auto simp: switch_ops filter_ops DumpTrace_def DumpTraceAsync_def
    intro: switch_ok_open switch_ok_close switch_ok_dump switch_ok_drop switch_ok_refresh
      same_frame_state_dump switch_ok_frame [OF same_frame_hcall] switch_ok_frame [OF same_frame_world]
      switch_ok_frame [OF same_frame_init] switch_ok_frame [OF same_frame_register]
      switch_ok_frame [OF same_frame_cache(1)] switch_ok_frame [OF same_frame_cache(2)]
      switch_ok_frame [OF same_frame_cache(3)] switch_ok_frame [OF same_frame_telemetry(1)]
      switch_ok_frame [OF same_frame_telemetry(2)] switch_ok_frame [OF same_frame_telemetry(3)]
      switch_ok_frame [OF same_frame_telemetry(4)] switch_ok_frame [OF same_frame_telemetry(5)]
      switch_ok_frame [OF same_frame_telemetry(6)]\<close>)

lemma switch_ok_reachable:
  assumes "hitrace_works ht" "reachable ht m"
  shows "switch_ok m"
  using assms(2)
proof induction
  case (start w)
  then show ?case by (simp add: TraceStateMachine_def switch_ok_def is_common_def)
next
  case (step m m')
  then show ?case using switch_ok_step [OF assms(1)] by blast
qed

section \<open>The command flag and the inner machine\<close>

text \<open>
  Two facts about single states that hold whatever Hitrace answers: a command state has the command
  flag set, and an operation that replaces the state leaves no half initialised telemetry behind.
\<close>

definition flag_ok :: "'x machine \<Rightarrow> bool" where
  "flag_ok m \<longleftrightarrow> (command_held (mState m) \<longrightarrow> mIsCommandState m)"

definition fresh :: "'x machine \<Rightarrow> 'x machine \<Rightarrow> bool" where
  "fresh m m' \<longleftrightarrow> mState m' = mState m \<or> (\<forall>ts. mState m' = TelemetryState ts \<longrightarrow> tsInner ts = None)"

definition settled :: "'x machine \<Rightarrow> 'x machine \<Rightarrow> bool" where
  "settled m m' \<longleftrightarrow> fresh m m' \<and> (flag_ok m \<longrightarrow> flag_ok m')"

lemma settled_refl [simp]: "settled m m"
  by (simp add: settled_def fresh_def)

lemma settled_trans: "settled m m' \<Longrightarrow> settled m' m'' \<Longrightarrow> settled m m''"
  by (auto simp: settled_def fresh_def)

lemma settled_same: "mState m' = mState m \<Longrightarrow> mIsCommandState m' = mIsCommandState m \<Longrightarrow> settled m m'"
  by (simp add: settled_def fresh_def flag_ok_def)

lemma settled_hcall [simp]: "settled m (snd (hcall f m))"
  by (rule settled_same) simp_all

lemma settled_hcallD: "hcall f m = (r, m') \<Longrightarrow> settled m m'"
  by (metis settled_hcall snd_conv)

lemma settled_trans_states:
  "settled m (TransToCloseState m)" "settled m (TransToCommandState m)" "settled m (TransToCommonDropState m)"
  "settled m (TransToTelemetryState p m)" "settled m (TransToAppSystemState pid m)"
  "settled m (TransToDynamicState pid m)" "settled m (TransToCommonState ht m)"
  by (auto simp: trans_defs settled_def fresh_def flag_ok_def command_held_def Let_def)

lemma settled_enter: "settled m (snd (enter_scenario ht sc m))"
  by (auto simp: enter_scenario_def open_common_drop_def settled_trans_states
      intro: settled_hcallD settled_trans [OF settled_hcallD settled_trans_states(3)] split: prod.split)

lemma settled_open: "settled m (snd (OpenTrace ht sc m))"
  by (auto simp: OpenTrace_def intro: settled_hcallD settled_trans [OF settled_hcallD]
      settled_trans [OF settled_hcallD settled_trans [OF settled_hcallD settled_enter]] split: prod.split)

lemma settled_close_current: "settled m (snd (close_current ht m))"
  by (auto simp: close_current_def intro: settled_hcallD settled_trans [OF settled_hcallD settled_trans_states(1)]
      split: prod.split)

lemma close_current_state:
  "IsSuccess (fst (close_current ht m)) \<Longrightarrow> mState (snd (close_current ht m)) = CloseState"
  by (auto simp: close_current_def TransToCloseState_def split: prod.splits if_splits)

lemma settled_state_close: "settled m (snd (state_CloseTrace ht name m))"
proof -
  have base: "settled m (snd (BaseState_CloseTrace ht name m))" for m :: "'a machine" and name
    by (simp add: BaseState_CloseTrace_def settled_close_current)
  have "settled m (CloseVersionBeta m)" by (rule settled_same) (simp_all add: CloseVersionBeta_def)
  then have beta: "settled m (snd (BaseState_CloseTrace ht SN_COMMON_BETA (CloseVersionBeta m)))"
    using base settled_trans by blast
  have command: "settled m (snd (CommandState_CloseTrace ht name m))" if "mState m = CommandState"
    using that base [of m name] close_current_state [of ht m]
    by (auto simp: CommandState_CloseTrace_def BaseState_CloseTrace_def settled_def fresh_def flag_ok_def
        command_held_def split: prod.splits)
  show ?thesis
    using base beta command
    by (auto simp: state_CloseTrace_def CommandDropState_CloseTrace_def CommonState_CloseTrace_def
        settled_close_current split: trace_state.split)
qed

lemma settled_refresh: "settled m (snd (RefreshState ht m))"
  by (auto simp: RefreshState_def Let_def settled_open settled_state_close
      intro: settled_trans [OF settled_state_close settled_open])

lemma settled_switch: "settled m (switch_on ht n m)" "settled m (switch_off ht n m)"
  unfolding switch_on_def switch_off_def
  by (rule settled_trans [OF settled_same settled_refresh]; simp)+

lemma settled_close: "settled m (snd (CloseTrace ht name m))"
  using settled_state_close [of m ht name]
  by (auto simp: CloseTrace_def intro: settled_trans [OF _ settled_refresh] split: prod.split)

lemma settled_drop:
  "settled m (snd (state_TraceDropOn ht name path m))" "settled m (snd (snd (state_TraceDropOff ht name m)))"
  by (auto simp: state_TraceDropOn_def CommandState_TraceDropOn_def state_TraceDropOff_def
      CommandDropState_TraceDropOff_def no_dump_def TransToCommandDropState_def TransToCommandState_def
      settled_def fresh_def flag_ok_def command_held_def hcall_def split: trace_state.split prod.split)

lemma settled_dumps: "settled m (snd (snd (no_dump m)))" "settled m (snd (snd (do_dump f m)))"
  by (simp_all add: no_dump_def do_dump_def settled_hcallD split: prod.split)

lemma settled_dump:
  "settled m (snd (snd (DumpTrace ht name dur time path m)))"
  "settled m (snd (snd (DumpTraceAsync ht args limit m)))"
proof -
  have refresh: "settled m (snd (snd (refresh_after_dump ht r)))" if "settled m (snd (snd r))" for r
    using that by (auto simp: refresh_after_dump_def intro: settled_trans [OF _ settled_refresh] split: prod.splits)
  show "settled m (snd (snd (DumpTrace ht name dur time path m)))"
    "settled m (snd (snd (DumpTraceAsync ht args limit m)))"
    unfolding DumpTrace_def DumpTraceAsync_def
    by (rule refresh; simp add: state_DumpTrace_def CommandState_DumpTrace_def CommonState_DumpTrace_def
      AppSystemState_DumpTrace_def DynamicState_DumpTrace_def state_DumpTraceAsync_def
      CommonState_DumpTraceAsync_def settled_dumps split: trace_state.split)+
qed

lemma settled_dump_filter:
  assumes "DumpTraceWithFilter ht dur time path m = Some r"
  shows "settled m (snd (snd r))"
proof -
  have "r = no_dump m \<or> r = do_dump (htDumpTrace ht dur time path) m"
    using assms by (auto simp: DumpTraceWithFilter_def split: trace_state.splits option.splits bool.splits if_splits)
  then show ?thesis using settled_dumps by metis
qed

lemma settled_cache:
  "settled m (snd (TraceCacheOn ht m))" "settled m (snd (TraceCacheOff ht m))" "settled m (SetCacheParams fsize span m)"
  by (auto simp: TraceCacheOn_def TraceCacheOff_def state_TraceCacheOn_def state_TraceCacheOff_def
      SetCacheParams_def hcall_def split: trace_state.split prod.split intro!: settled_same)

text \<open>The flag over telemetry operations, which stay in the telemetry state.\<close>

lemma flag_ok_frame: "same_frame m m' \<Longrightarrow> flag_ok m \<Longrightarrow> flag_ok m'"
  by (cases "mState m"; cases "mState m'") (simp_all add: same_frame_def flag_ok_def command_held_def)

lemma flag_ok_settled: "settled m m' \<Longrightarrow> flag_ok m \<Longrightarrow> flag_ok m'"
  by (simp add: settled_def)

text \<open>Either kind of step: one that may replace the state, and one that works inside of telemetry.\<close>

lemma settled_world [simp]: "settled m (m\<lparr>mWorld := w\<rparr>)"
  by (rule settled_same) simp_all

lemma machine_step_cases:
  assumes "machine_step ht m m'"
  obtains "settled m m'"
  | b where "m' = InitTelemetryStatus ht b m"
  | cb where "m' = snd (RegisterTelemetryCallback ht cb m)"
  | ret where "PowerTelemetryOn ht m = Some (ret, m') \<or> PowerTelemetryOff ht m = Some (ret, m') \<or>
      TraceTelemetryOn ht m = Some (ret, m') \<or> TraceTelemetryOff ht m = Some (ret, m') \<or>
      (\<exists>t. PostTelemetryOn ht t m = Some (ret, m')) \<or> PostTelemetryTimeOut ht m = Some (ret, m')"
  using assms
proof cases
  case (dump_filter dur time path ret info)
  from settled_dump_filter [OF this] that(1) show thesis by simp
qed (use that in \<open>auto simp: SetTraceVersionBeta_def SetTraceSwitchUcOn_def SetTraceSwitchUcOff_def
    SetTraceSwitchFreezeOn_def SetTraceSwitchFreezeOff_def SetTraceSwitchDevOn_def
    SetTraceSwitchDevOff_def filter_ops settled_open settled_close settled_dump settled_drop
    settled_cache settled_switch\<close>)

lemma flag_ok_step: "machine_step ht m m' \<Longrightarrow> flag_ok m \<Longrightarrow> flag_ok m'"
  by (erule machine_step_cases)
    (auto intro: flag_ok_settled flag_ok_frame [OF same_frame_init] flag_ok_frame [OF same_frame_register]
      flag_ok_frame [OF same_frame_telemetry(1)] flag_ok_frame [OF same_frame_telemetry(2)]
      flag_ok_frame [OF same_frame_telemetry(3)] flag_ok_frame [OF same_frame_telemetry(4)]
      flag_ok_frame [OF same_frame_telemetry(5)] flag_ok_frame [OF same_frame_telemetry(6)])

lemma flag_ok_reachable: "reachable ht m \<Longrightarrow> flag_ok m"
  by (induction rule: reachable.induct)
    (simp_all add: flag_ok_step, simp add: TraceStateMachine_def flag_ok_def command_held_def)

section \<open>No null pointer in the telemetry state\<close>

definition tele_ok :: "'x machine \<Rightarrow> bool" where
  "tele_ok m \<longleftrightarrow> (\<forall>ts tm. mState m = TelemetryState ts \<longrightarrow> tsInner ts = Some tm \<longrightarrow> tmCurrent tm \<noteq> None)"

lemma tele_ok_settled: "settled m m' \<Longrightarrow> tele_ok m \<Longrightarrow> tele_ok m'"
  by (auto simp: settled_def fresh_def tele_ok_def)

lemma tele_ok_set_inner: "tele_ok (set_inner ts s m) \<longleftrightarrow> tmCurrent (fst s) \<noteq> None"
  by (cases s) (simp add: tele_ok_def set_inner_def)

text \<open>Each operation of the inner machine returns and keeps the machine initialised.\<close>

definition total_op :: "('x tele \<Rightarrow> (trace_ret \<times> 'x tele) option) \<Rightarrow> bool" where
  "total_op f \<longleftrightarrow> (\<forall>s. tmCurrent (fst s) \<noteq> None \<longrightarrow> (\<exists>ret s'. f s = Some (ret, s') \<and> tmCurrent (fst s') \<noteq> None))"

lemma total_opI:
  assumes "\<And>s. tele_step ht op s = map_option snd (f s)"
  shows "total_op f"
  unfolding total_op_def
proof (intro allI impI)
  fix s :: "'a tele"
  assume "tmCurrent (fst s) \<noteq> None"
  then obtain s' where "tele_step ht op s = Some s'" "tmCurrent (fst s') \<noteq> None"
    by (rule tele_step_current)
  with assms [of s] show "\<exists>ret s'. f s = Some (ret, s') \<and> tmCurrent (fst s') \<noteq> None"
    by (cases "f s") auto
qed

lemma total_ops: "total_op (TraceOn ht)" "total_op (TraceOff ht)" "total_op (PostOn ht t)" "total_op (TimeOut ht)"
  by (rule total_opI [of ht OpTraceOn] total_opI [of ht OpTraceOff] total_opI [of ht "OpPostOn t"]
      total_opI [of ht OpTimeOut], simp)+

lemma run_inner_total:
  assumes "total_op f" "tmCurrent tm \<noteq> None"
  shows "\<exists>ret m'. run_inner ts f tm m = Some (ret, m') \<and> tele_ok m'"
proof -
  obtain ret s' where "f (tm, mWorld m) = Some (ret, s')" "tmCurrent (fst s') \<noteq> None"
    using assms unfolding total_op_def by (metis fst_conv)
  then show ?thesis by (simp add: run_inner_def tele_ok_set_inner)
qed

lemma with_policy_total:
  assumes "tele_ok m"
    and "\<And>ts tm. mState m = TelemetryState ts \<Longrightarrow> tmCurrent tm \<noteq> None \<Longrightarrow> tsInner ts = Some tm \<Longrightarrow>
      \<exists>ret m'. f ts tm m = Some (ret, m') \<and> tele_ok m'"
  shows "\<exists>ret m'. with_policy p f m = Some (ret, m') \<and> tele_ok m'"
  using assms by (auto simp: with_policy_def tele_ok_def split: trace_state.split option.split)

lemma IsTraceOn_total: "tmCurrent tm \<noteq> None \<Longrightarrow> \<exists>b. IsTraceOn (tm, w) = Some b"
  by (auto simp: IsTraceOn_def on_current_def split: tele_state.split)

lemma telemetry_total:
  assumes "tele_ok m"
  shows "\<exists>ret m'. PowerTelemetryOn ht m = Some (ret, m') \<and> tele_ok m'"
    "\<exists>ret m'. PowerTelemetryOff ht m = Some (ret, m') \<and> tele_ok m'"
    "\<exists>ret m'. TraceTelemetryOn ht m = Some (ret, m') \<and> tele_ok m'"
    "\<exists>ret m'. TraceTelemetryOff ht m = Some (ret, m') \<and> tele_ok m'"
    "\<exists>ret m'. PostTelemetryOn ht t m = Some (ret, m') \<and> tele_ok m'"
    "\<exists>ret m'. PostTelemetryTimeOut ht m = Some (ret, m') \<and> tele_ok m'"
proof -
  have inner: "\<exists>ret m'. run_inner ts f tm m = Some (ret, m') \<and> tele_ok m'"
    if "total_op f" "tmCurrent tm \<noteq> None" for ts f tm
    by (rule run_inner_total [OF that])
  show "\<exists>ret m'. PowerTelemetryOn ht m = Some (ret, m') \<and> tele_ok m'"
    unfolding PowerTelemetryOn_def
  proof (rule with_policy_total [OF assms])
    fix ts and tm :: tele_machine assume tm: "tmCurrent tm \<noteq> None"
    obtain b where b: "IsTraceOn (tm, mWorld m) = Some b" using IsTraceOn_total [OF tm] by metis
    show "\<exists>ret m'. (case IsTraceOn (tm, mWorld m) of None \<Rightarrow> None | Some True \<Rightarrow> Some (TraceRet, m)
        | Some False \<Rightarrow> run_inner ts (TraceOn ht) tm m) = Some (ret, m') \<and> tele_ok m'"
      using inner [OF total_ops(1) tm] assms by (cases b) (simp_all add: b)
  qed
  show "\<exists>ret m'. PowerTelemetryOff ht m = Some (ret, m') \<and> tele_ok m'"
    unfolding PowerTelemetryOff_def
  proof (rule with_policy_total [OF assms])
    fix ts and tm :: tele_machine assume tm: "tmCurrent tm \<noteq> None"
    obtain b where b: "IsTraceOn (tm, mWorld m) = Some b" using IsTraceOn_total [OF tm] by metis
    show "\<exists>ret m'. (case IsTraceOn (tm, mWorld m) of None \<Rightarrow> None | Some True \<Rightarrow> run_inner ts (TraceOff ht) tm m
        | Some False \<Rightarrow> Some (TraceRet, m)) = Some (ret, m') \<and> tele_ok m'"
      using inner [OF total_ops(2) tm] assms by (cases b) (simp_all add: b)
  qed
  show "\<exists>ret m'. TraceTelemetryOn ht m = Some (ret, m') \<and> tele_ok m'"
    "\<exists>ret m'. TraceTelemetryOff ht m = Some (ret, m') \<and> tele_ok m'"
    "\<exists>ret m'. PostTelemetryOn ht t m = Some (ret, m') \<and> tele_ok m'"
    "\<exists>ret m'. PostTelemetryTimeOut ht m = Some (ret, m') \<and> tele_ok m'"
    unfolding TraceTelemetryOn_def TraceTelemetryOff_def PostTelemetryOn_def PostTelemetryTimeOut_def
    by (rule with_policy_total [OF assms], rule inner, rule total_ops, assumption)+
qed

lemma dump_filter_total: "tele_ok m \<Longrightarrow> DumpTraceWithFilter ht dur time path m \<noteq> None"
proof (cases "mState m")
  case (TelemetryState ts)
  assume ok: "tele_ok m"
  have "\<exists>b. IsTraceOn (tm, mWorld m) = Some b" if "tsInner ts = Some tm" for tm
    using IsTraceOn_total ok TelemetryState that by (simp add: tele_ok_def)
  then show ?thesis
    using TelemetryState by (auto simp: DumpTraceWithFilter_def simp del: split_paired_Ex not_None_eq
        split: option.splits bool.splits)
qed (simp_all add: DumpTraceWithFilter_def)

lemma tele_ok_result: "\<exists>ret m'. X = Some (ret, m') \<and> tele_ok m' \<Longrightarrow> X = Some (r, n) \<Longrightarrow> tele_ok n"
  by auto

lemma tele_ok_init:
  assumes "status_works ht" "tele_ok m"
  shows "tele_ok (InitTelemetryStatus ht b m)"
proof (cases "mState m")
  case (TelemetryState ts)
  obtain w1 w2 where "call (htSetTraceStatus ht False) (mWorld m) = (CODE_SUCCESS, w1)"
    "call (htSetTraceStatus ht True) (mWorld m) = (CODE_SUCCESS, w2)"
    using status_call [OF assms(1)] by metis
  then show ?thesis
    using TelemetryState
    by (simp add: InitTelemetryStatus_def TransToInitState_def TransToTraceOnState_def tele_ok_set_inner Let_def)
qed (use assms(2) in \<open>simp_all add: InitTelemetryStatus_def\<close>)

lemma tele_ok_world [simp]: "tele_ok (m\<lparr>mWorld := w\<rparr>) \<longleftrightarrow> tele_ok m"
  by (simp add: tele_ok_def)

lemma tele_ok_register:
  assumes "status_works ht" "tele_ok m"
  shows "tele_ok (snd (RegisterTelemetryCallback ht cb m))"
proof (cases "\<exists>ts c. mState m = TelemetryState ts \<and> cb = Some c")
  case True
  then obtain ts c where eq: "mState m = TelemetryState ts" "cb = Some c" by blast
  let ?m = "m\<lparr>mState := TelemetryState (ts\<lparr>tsCallback := Some c\<rparr>)\<rparr>"
  have "tele_ok ?m" using eq assms(2) by (simp add: tele_ok_def)
  then have "tele_ok (callback_start ht c ?m)"
    by (auto simp: callback_start_def Let_def split: callback_class.split intro!: tele_ok_init [OF assms(1)])
  then show ?thesis using eq by (simp add: RegisterTelemetryCallback_def Let_def)
next
  case False
  then show ?thesis
    using assms(2) by (auto simp: RegisterTelemetryCallback_def split: trace_state.split option.split)
qed

lemma tele_ok_step:
  assumes "status_works ht" "machine_step ht m m'" "tele_ok m"
  shows "tele_ok m'"
  using assms(2)
proof (cases rule: machine_step_cases)
  case 1
  then show ?thesis using assms(3) by (rule tele_ok_settled)
next
  case (4 ret)
  then show ?thesis by (auto dest: tele_ok_result [OF telemetry_total(1) [OF assms(3)]]
      tele_ok_result [OF telemetry_total(2) [OF assms(3)]] tele_ok_result [OF telemetry_total(3) [OF assms(3)]]
      tele_ok_result [OF telemetry_total(4) [OF assms(3)]] tele_ok_result [OF telemetry_total(5) [OF assms(3)]]
      tele_ok_result [OF telemetry_total(6) [OF assms(3)]])
qed (use assms tele_ok_init tele_ok_register in auto)

lemma tele_ok_reachable:
  assumes "status_works ht" "reachable ht m"
  shows "tele_ok m"
  using assms(2)
  by (induction rule: reachable.induct)
    (simp add: TraceStateMachine_def tele_ok_def, rule tele_ok_step [OF assms(1)])

section \<open>Closing by command\<close>

lemma CloseTrace_beta:
  assumes "hitrace_works ht" "mState m = CommonState fsize span" "\<not> mIsCommandState m"
  shows "fst (CloseTrace ht SN_COMMAND m) = TraceRet \<and>
    mTraceSwitchState (snd (CloseTrace ht SN_COMMAND m)) = mTraceSwitchState m AND NOT (push_bit 3 1) \<and>
    GetStateScenario (mState (snd (CloseTrace ht SN_COMMAND m))) =
      wanted_scenario (mTraceSwitchState m AND NOT (push_bit 3 1))"
proof -
  let ?m = "TransToCloseState (snd (hcall (htCloseTrace ht) (CloseVersionBeta m)))"
  have "mState (CloseVersionBeta m) = CommonState fsize span" using assms(2) by (simp add: CloseVersionBeta_def)
  then have eq: "CloseTrace ht SN_COMMAND m = RefreshState ht ?m"
    using assms(2,3) close_current_works [OF assms(1)]
    by (simp add: CloseTrace_def state_CloseTrace_def CommonState_CloseTrace_def BaseState_CloseTrace_def)
  have "mState ?m = CloseState" "mTraceSwitchState ?m = mTraceSwitchState m AND NOT (push_bit 3 1)"
    by (simp_all add: TransToCloseState_def CloseVersionBeta_def)
  with RefreshState_works [OF assms(1), of ?m] show ?thesis
    by (simp add: eq command_held_def is_common_def wanted_scenario_def)
qed

lemma drop_close_flag:
  assumes "hitrace_works ht" "scName sc = SN_COMMAND" "scLevel sc = SL_COMMAND" "\<not> command_held (mState m)"
    and "mTraceSwitchState m \<noteq> 0" "mTraceSwitchState m AND 1 \<noteq> 1"
    and m'_def: "m' = snd (CloseTrace ht SN_COMMAND (snd (state_TraceDropOn ht SN_COMMAND path (snd (OpenTrace ht sc m)))))"
  shows "mIsCommandState m' \<and> GetStateScenario (mState m') = SN_COMMON_BETA \<and>
    CloseTrace ht SN_COMMAND m' = (TraceRet_state STATE_DENY, m')"
proof -
  define m1 where "m1 = snd (OpenTrace ht sc m)"
  have "\<not> SL_COMMAND \<le> GetStateLevel (mState m)"
    using assms(4) by (cases "mState m") (simp_all add: command_held_def scenario_levels word_le_nat_alt)
  then have m1: "mState m1 = CommandState" "mIsCommandState m1" "mTraceSwitchState m1 = mTraceSwitchState m"
    using OpenTrace_works [OF assms(1), of m sc] assms(2,3)
    by (simp_all add: m1_def enter_scenario_def TransToCommandState_def)
  define m2 where "m2 = TransToCommandDropState (snd (hcall (htRecordTraceOn ht path) m1))"
  have "fst (hcall (htRecordTraceOn ht path) m1) = CODE_SUCCESS"
    using assms(1) by (simp add: hitrace_works_def)
  then have drop: "snd (state_TraceDropOn ht SN_COMMAND path m1) = m2"
    using m1(1) by (simp add: state_TraceDropOn_def CommandState_TraceDropOn_def m2_def case_prod_unfold)
  have m2: "mState m2 = CommandDropState" "mIsCommandState m2" "mTraceSwitchState m2 = mTraceSwitchState m"
    using m1 by (simp_all add: m2_def TransToCommandDropState_def)
  define m3 where "m3 = TransToCloseState (snd (hcall (htCloseTrace ht) m2))"
  have m3: "mState m3 = CloseState" "mIsCommandState m3" "mTraceSwitchState m3 = mTraceSwitchState m"
    using m2 by (simp_all add: m3_def TransToCloseState_def)
  have eq: "m' = snd (RefreshState ht m3)"
    using m2(1) close_current_works [OF assms(1)]
    by (simp add: m'_def m1_def [symmetric] drop CloseTrace_def state_CloseTrace_def
        CommandDropState_CloseTrace_def m3_def)
  have m': "mIsCommandState m'" "GetStateScenario (mState m') = SN_COMMON_BETA"
    using RefreshState_works [OF assms(1), of m3] m3 assms(5,6)
    by (simp_all add: eq command_held_def wanted_scenario_def)
  then obtain fsize span where "mState m' = CommonState fsize span" by (cases "mState m'") simp_all
  with m' show ?thesis
    by (simp add: CloseTrace_def state_CloseTrace_def CommonState_CloseTrace_def)
qed

section \<open>A telemetry task that could not be initialised\<close>

lemma failed_init:
  assumes "\<And>b x. fst (htSetTraceStatus ht b x) \<noteq> CODE_SUCCESS" "mState m = TelemetryState ts"
    and m'_def: "m' = InitTelemetryStatus ht isStatusOn m"
  shows "(tsPolicy ts = POLICY_POWER \<longrightarrow> PowerTelemetryOn ht m' = None \<and> PowerTelemetryOff ht m' = None) \<and>
    (tsPolicy ts = POLICY_MANUAL \<longrightarrow> TraceTelemetryOn ht m' = None \<and> TraceTelemetryOff ht m' = None)"
proof -
  have fails: "fst (call (htSetTraceStatus ht b) w) \<noteq> CODE_SUCCESS" for b w
    using assms(1) by simp
  obtain r w r' w' where w: "call (htSetTraceStatus ht False) (mWorld m) = (r, w)" "r \<noteq> CODE_SUCCESS"
    "call (htSetTraceStatus ht True) (mWorld m) = (r', w')" "r' \<noteq> CODE_SUCCESS"
    using fails by (metis prod.collapse)
  define tm where "tm = new_tele_machine\<lparr>tmCallback := tsCallback ts\<rparr>"
  have tm: "tmCurrent tm = None" "mState m' = TelemetryState (ts\<lparr>tsInner := Some tm\<rparr>)"
    using assms(2) w
    by (cases isStatusOn; simp add: m'_def InitTelemetryStatus_def TransToInitState_def
        TransToTraceOnState_def set_inner_def new_tele_machine_def tm_def Let_def)+
  then show ?thesis
    using tele_null(1) [of "(tm, mWorld m')"] tele_null(2,3) [of "(tm, mWorld m')" ht]
    by (simp add: PowerTelemetryOn_def PowerTelemetryOff_def TraceTelemetryOn_def TraceTelemetryOff_def
        with_policy_def run_inner_def)
qed

end
