(* ===== verification/File_Stream.thy ===== *)
theory File_Stream
  imports Hiview_Prelude
begin

text \<open>
  Binary files as the event store uses them: \<open>std::ifstream\<close> with its position and its two error
  flags, \<open>std::ofstream\<close> in append mode as appending to the bytes of the file, and the
  conversions between the integer types of positions and sizes. The stream operations follow
  the C++ standard: each starts with a sentry that sets \<open>failbit\<close> when the stream is not good,
  \<open>seekg\<close> clears \<open>eofbit\<close> first, and a short \<open>read\<close> sets both flags.
\<close>

section \<open>Integer conversions\<close>

text \<open>\<open>static_cast<int>\<close> and \<open>static_cast<uint32_t>\<close> of a wider integer.\<close>

definition as_int :: "int \<Rightarrow> int" where
  "as_int x = sint (word_of_int x :: 32 word)"

definition as_u32 :: "int \<Rightarrow> nat" where
  "as_u32 x = nat (x mod 2 ^ 32)"

definition u32_mul :: "nat \<Rightarrow> nat \<Rightarrow> nat" where
  "u32_mul a b = a * b mod 2 ^ 32"

definition u32_add :: "nat \<Rightarrow> nat \<Rightarrow> nat" where
  "u32_add a b = (a + b) mod 2 ^ 32"

section \<open>Input streams\<close>

record ifstream =
  inOpen :: bool
  inFile :: "byte list"
  inPos :: nat
  inEof :: bool
  inFail :: bool

definition in_good :: "ifstream \<Rightarrow> bool" where
  "in_good s \<longleftrightarrow> \<not> inEof s \<and> \<not> inFail s"

text \<open>A stream just opened on the bytes of a file; \<open>None\<close> is a file that cannot be opened.\<close>

definition in_open :: "byte list option \<Rightarrow> ifstream" where
  "in_open f = (case f of
       None \<Rightarrow> \<lparr>inOpen = False, inFile = [], inPos = 0, inEof = False, inFail = True\<rparr>
     | Some bs \<Rightarrow> \<lparr>inOpen = True, inFile = bs, inPos = 0, inEof = False, inFail = False\<rparr>)"

definition tellg :: "ifstream \<Rightarrow> int \<times> ifstream" where
  "tellg s = (if in_good s then (int (inPos s), s) else (- 1, s\<lparr>inFail := True\<rparr>))"

definition seek_to :: "int \<Rightarrow> ifstream \<Rightarrow> ifstream" where
  "seek_to target s =
     (let s1 = s\<lparr>inEof := False\<rparr> in
      if inFail s1 then s1
      else if target < 0 then s1\<lparr>inFail := True\<rparr>
      else s1\<lparr>inPos := nat target\<rparr>)"

definition seekg_beg :: "int \<Rightarrow> ifstream \<Rightarrow> ifstream" where
  "seekg_beg off s = seek_to off s"

definition seekg_cur :: "int \<Rightarrow> ifstream \<Rightarrow> ifstream" where
  "seekg_cur off s = seek_to (int (inPos s) + off) s"

definition seekg_end :: "int \<Rightarrow> ifstream \<Rightarrow> ifstream" where
  "seekg_end off s = seek_to (int (length (inFile s)) + off) s"

text \<open>
  \<open>read (p, n)\<close>: the memory at \<open>p\<close> before the call is \<open>mem\<close>, the bytes that were available
  replace its start.
\<close>

definition in_read :: "nat \<Rightarrow> byte list \<Rightarrow> ifstream \<Rightarrow> byte list \<times> ifstream" where
  "in_read n mem s =
     (if \<not> in_good s then (mem, s\<lparr>inFail := True\<rparr>)
      else let got = take n (drop (inPos s) (inFile s)) in
           (got @ drop (length got) mem,
            if length got < n then s\<lparr>inPos := inPos s + length got, inEof := True, inFail := True\<rparr>
            else s\<lparr>inPos := inPos s + n\<rparr>))"

section \<open>Lemmas\<close>

lemma as_int_small [simp]: "- (2 ^ 31) \<le> x \<Longrightarrow> x < 2 ^ 31 \<Longrightarrow> as_int x = x"
  by (simp add: as_int_def int_word_sint signed_take_bit_int_eq_self)

lemma as_int_nat: "n < 2 ^ 31 \<Longrightarrow> as_int (int n) = int n"
  by (rule as_int_small) simp_all

lemma as_u32_small [simp]: "n < 2 ^ 32 \<Longrightarrow> as_u32 (int n) = n"
  by (simp add: as_u32_def nat_mod_distrib)

lemma in_good_open [simp]: "in_good (in_open (Some bs))"
  by (simp add: in_good_def in_open_def)

lemma in_open_Some [simp]:
  "inOpen (in_open (Some bs))" "inFile (in_open (Some bs)) = bs" "inPos (in_open (Some bs)) = 0"
  by (simp_all add: in_open_def)

lemma tellg_good [simp]: "in_good s \<Longrightarrow> tellg s = (int (inPos s), s)"
  by (simp add: tellg_def)

lemma tellg_keeps [simp]:
  "inOpen (snd (tellg s)) = inOpen s" "inFile (snd (tellg s)) = inFile s"
  "inPos (snd (tellg s)) = inPos s" "inEof (snd (tellg s)) = inEof s"
  by (simp_all add: tellg_def)

lemma seek_keeps [simp]:
  "inOpen (seek_to p s) = inOpen s" "inFile (seek_to p s) = inFile s"
  by (simp_all add: seek_to_def Let_def)

lemma seekg_keeps [simp]:
  "inOpen (seekg_beg p s) = inOpen s" "inFile (seekg_beg p s) = inFile s"
  "inOpen (seekg_cur p s) = inOpen s" "inFile (seekg_cur p s) = inFile s"
  "inOpen (seekg_end p s) = inOpen s" "inFile (seekg_end p s) = inFile s"
  by (simp_all add: seekg_beg_def seekg_cur_def seekg_end_def)

lemma in_read_keeps [simp]:
  "inOpen (snd (in_read n mem s)) = inOpen s" "inFile (snd (in_read n mem s)) = inFile s"
  by (simp_all add: in_read_def Let_def)

text \<open>Seeking and reading inside a file that holds the bytes.\<close>

lemma seekg_beg_good: "in_good s \<Longrightarrow> seekg_beg (int p) s = s\<lparr>inPos := p\<rparr>"
  by (cases s) (simp add: seekg_beg_def seek_to_def in_good_def)

lemma seekg_cur_back:
  "in_good s \<Longrightarrow> n \<le> inPos s \<Longrightarrow> seekg_cur (- int n) s = s\<lparr>inPos := inPos s - n\<rparr>"
  by (cases s) (simp add: seekg_cur_def seek_to_def in_good_def nat_diff_distrib)

lemma in_read_full:
  assumes "in_good s" "drop (inPos s) (inFile s) = bs @ rest" "length mem = length bs" "n = length bs"
  shows "in_read n mem s = (bs, s\<lparr>inPos := inPos s + n\<rparr>)"
  using assms by (simp add: in_read_def)

lemma in_read_short:
  assumes "in_good s" "length (inFile s) < inPos s + n" "0 < n"
  shows "inFail (snd (in_read n mem s))" "inEof (snd (in_read n mem s))"
  using assms by (auto simp: in_read_def Let_def)

lemma in_good_pos [simp]: "in_good (s\<lparr>inPos := p\<rparr>) = in_good s"
  by (simp add: in_good_def)

lemma fail_not_good [simp]: "inFail s \<Longrightarrow> \<not> in_good s" "inEof s \<Longrightarrow> \<not> in_good s"
  by (simp_all add: in_good_def)

lemma seek_fail [simp]: "inFail s \<Longrightarrow> inFail (seek_to p s)"
  by (simp add: seek_to_def)

lemma seekg_fail [simp]:
  "inFail s \<Longrightarrow> inFail (seekg_beg p s)" "inFail s \<Longrightarrow> inFail (seekg_cur p s)"
  by (simp_all add: seekg_beg_def seekg_cur_def)

end
