(* ===== verification/Doc_Format.thy ===== *)
theory Doc_Format
  imports File_Stream Encoded_Param
begin

text \<open>
  The format of the event store's document files (base/event_store/include/base_def.h): return
  codes, limits, the file header and the header of a content block with their memory images,
  and what a document says about its events (utility/reader/include/content_reader.h). The
  structures are packed; the unused bits of the bit-field byte of a content header are a field
  of their own, because the readers copy them along.
\<close>

section \<open>Constants\<close>

definition MAGIC_NUM :: u64 where "MAGIC_NUM = 0x894556454E541a0a AND NOT 1"

definition NUM_OF_BYTES_IN_KB :: nat where "NUM_OF_BYTES_IN_KB = 1024"

definition CRC_SIZE :: nat where "CRC_SIZE = 4"

definition HIVIEW_BLOCK_SIZE :: nat where "HIVIEW_BLOCK_SIZE = 4"

definition SEQ_SIZE :: nat where "SEQ_SIZE = 8"

definition MAX_DOMAIN_LEN :: nat where "MAX_DOMAIN_LEN = 17"

definition MAX_EVENT_NAME_LEN :: nat where "MAX_EVENT_NAME_LEN = 33"

definition MAX_TAG_LEN :: nat where "MAX_TAG_LEN = 17"

definition MAX_NEW_SIZE :: nat where "MAX_NEW_SIZE = 386 * 1024"

definition MAX_VERSION_LENG :: nat where "MAX_VERSION_LENG = 1000"

lemmas doc_const_defs = NUM_OF_BYTES_IN_KB_def CRC_SIZE_def HIVIEW_BLOCK_SIZE_def SEQ_SIZE_def
  MAX_DOMAIN_LEN_def MAX_EVENT_NAME_LEN_def MAX_TAG_LEN_def

datatype doc_code = DOC_STORE_SUCCESS | DOC_STORE_NEW_FILE | DOC_STORE_READ_EMPTY
  | DOC_STORE_ERROR_NULL | DOC_STORE_ERROR_IO | DOC_STORE_ERROR_MEMORY | DOC_STORE_ERROR_INVALID

definition VERSION_CURRENT :: u8 where "VERSION_CURRENT = 4"

section \<open>The file header\<close>

record doc_header =
  dhMagicNum :: u64
  dhBlockSize :: u32
  dhPageSize :: u8
  dhVersion :: u8
  dhTag :: "byte list"

definition SIZEOF_DOC_HEADER :: nat where "SIZEOF_DOC_HEADER = 31"

definition zero_doc_header :: doc_header where
  "zero_doc_header = \<lparr>dhMagicNum = 0, dhBlockSize = 0, dhPageSize = 0, dhVersion = 0,
     dhTag = replicate MAX_TAG_LEN 0\<rparr>"

definition doc_header_bytes :: "doc_header \<Rightarrow> byte list" where
  "doc_header_bytes h = u64_bytes (dhMagicNum h) @ u32_bytes (dhBlockSize h) @
     [dhPageSize h, dhVersion h] @ dhTag h"

definition doc_header_of_bytes :: "byte list \<Rightarrow> doc_header" where
  "doc_header_of_bytes bs =
     \<lparr>dhMagicNum = u64_of_bytes bs, dhBlockSize = u32_of_bytes (drop 8 bs),
      dhPageSize = bs ! 12, dhVersion = bs ! 13, dhTag = take MAX_TAG_LEN (drop 14 bs)\<rparr>"

section \<open>The header of a content block\<close>

record content_header =
  chSeq :: u64
  chTimestamp :: u64
  chTimeZone :: u8
  chUid :: u32
  chPid :: u32
  chTid :: u32
  chId :: u64
  chType :: "2 word"
  chIsTraceOpened :: "1 word"
  chUnused :: "5 word"
  chLog :: u8

definition SIZEOF_CONTENT_HEADER :: nat where "SIZEOF_CONTENT_HEADER = 39"

definition content_flags :: "content_header \<Rightarrow> byte" where
  "content_flags h = ucast (chType h) OR push_bit 2 (ucast (chIsTraceOpened h)) OR
     push_bit 3 (ucast (chUnused h))"

definition content_header_bytes :: "content_header \<Rightarrow> byte list" where
  "content_header_bytes h = u64_bytes (chSeq h) @ u64_bytes (chTimestamp h) @ [chTimeZone h] @
     u32_bytes (chUid h) @ u32_bytes (chPid h) @ u32_bytes (chTid h) @ u64_bytes (chId h) @
     [content_flags h, chLog h]"

definition content_header_of_bytes :: "byte list \<Rightarrow> content_header" where
  "content_header_of_bytes bs =
     \<lparr>chSeq = u64_of_bytes bs, chTimestamp = u64_of_bytes (drop 8 bs), chTimeZone = bs ! 16,
      chUid = u32_of_bytes (drop 17 bs), chPid = u32_of_bytes (drop 21 bs),
      chTid = u32_of_bytes (drop 25 bs), chId = u64_of_bytes (drop 29 bs),
      chType = ucast (bs ! 37), chIsTraceOpened = ucast (drop_bit 2 (bs ! 37)),
      chUnused = ucast (drop_bit 3 (bs ! 37)), chLog = bs ! 38\<rparr>"

section \<open>What a document says about its events\<close>

record event_info =
  eiDomain :: "byte list"
  eiName :: "byte list"
  eiLevel :: string
  eiTag :: string
  eiSeq :: i64
  eiTimestamp :: i64

definition new_event_info :: event_info where
  "new_event_info = \<lparr>eiDomain = replicate MAX_DOMAIN_LEN 0, eiName = replicate MAX_EVENT_NAME_LEN 0,
     eiLevel = [], eiTag = [], eiSeq = 0, eiTimestamp = 0\<rparr>"

record head_extra_info =
  heSysVersion :: string
  hePatchVersion :: string

definition new_head_extra :: head_extra_info where
  "new_head_extra = \<lparr>heSysVersion = [], hePatchVersion = []\<rparr>"

section \<open>Lemmas\<close>

lemma le_nat_bound: "le_nat bs < 256 ^ length bs"
proof (induction bs)
  case (Cons b bs)
  have "unat b + 256 * le_nat bs < 256 + 256 * le_nat bs" by simp
  also have "\<dots> = 256 * (le_nat bs + 1)" by simp
  also have "\<dots> \<le> 256 * 256 ^ length bs" using Cons by (intro mult_le_mono) simp_all
  finally show ?case by simp
qed simp

lemma u32_bytes_of: "length bs = 4 \<Longrightarrow> u32_bytes (u32_of_bytes bs) = bs"
  using le_bytes_le_nat [of bs] le_nat_bound [of bs]
  by (simp add: u32_bytes_def u32_of_bytes_def unat_of_nat)

lemma u64_bytes_of: "length bs = 8 \<Longrightarrow> u64_bytes (u64_of_bytes bs) = bs"
  using le_bytes_le_nat [of bs] le_nat_bound [of bs]
  by (simp add: u64_bytes_def u64_of_bytes_def unat_of_nat)

lemma u32_of_bytes_app: "length bs = 4 \<Longrightarrow> u32_of_bytes (bs @ cs) = u32_of_bytes bs"
  by (simp add: u32_of_bytes_def)

lemma u64_of_bytes_app: "length bs = 8 \<Longrightarrow> u64_of_bytes (bs @ cs) = u64_of_bytes bs"
  by (simp add: u64_of_bytes_def)

lemma doc_header_roundtrip:
  assumes "length (dhTag h) = MAX_TAG_LEN"
  shows "doc_header_of_bytes (doc_header_bytes h @ rest) = h" "length (doc_header_bytes h) = SIZEOF_DOC_HEADER"
proof -
  obtain a b c d e where h: "h = \<lparr>dhMagicNum = a, dhBlockSize = b, dhPageSize = c, dhVersion = d, dhTag = e\<rparr>"
    by (cases h) 
  show "doc_header_of_bytes (doc_header_bytes h @ rest) = h"
    using assms by (simp add: doc_header_of_bytes_def doc_header_bytes_def h nth_append)
  show "length (doc_header_bytes h) = SIZEOF_DOC_HEADER"
    using assms by (simp add: doc_header_bytes_def SIZEOF_DOC_HEADER_def MAX_TAG_LEN_def)
qed

end
