(* ===== verification/Content_Reader.thy ===== *)
theory Content_Reader
  imports Doc_Format Decoded_Event
begin

text \<open>
  The readers of the four document formats (base/event_store/utility/reader/content_reader.cpp,
  content_reader_version_1.cpp to content_reader_version_4.cpp, content_reader_factory.cpp): the
  file header with the system and patch versions, the header of a content block, and the raw
  event that is put together from a content block and what the file name says about it.

  \<open>stk n\<close> is the memory at a local array of \<open>n\<close> bytes before it is written, with the bytes that
  follow the array; \<open>junk\<close> is the content header object before its members are assigned.
\<close>

section \<open>The four formats\<close>

datatype content_reader = ContentReaderVersion1 | ContentReaderVersion2
  | ContentReaderVersion3 | ContentReaderVersion4

text \<open>\<open>ContentReaderFactory::Get\<close> on the readers registered at start-up.\<close>

definition reader_map :: "(int \<times> content_reader) list" where
  "reader_map = [(1, ContentReaderVersion1), (2, ContentReaderVersion2),
     (3, ContentReaderVersion3), (4, ContentReaderVersion4)]"

definition ContentReaderFactory_Get :: "u8 \<Rightarrow> content_reader option" where
  "ContentReaderFactory_Get version = map_of reader_map (sint version)"

definition MAGIC_NUM_VERSION1 :: u64 where "MAGIC_NUM_VERSION1 = 0x894556454E541a0a"

definition MAGIC_NUM_VERSION3 :: u64 where "MAGIC_NUM_VERSION3 = 0x894556454E541a0a AND NOT 1"

definition MAGIC_NUM_VERSION2 :: u64 where "MAGIC_NUM_VERSION2 = 0x894556454E541a0a"

definition IsValidMagicNum_v1 :: "u64 \<Rightarrow> bool" where
  "IsValidMagicNum_v1 magicNum \<longleftrightarrow> magicNum = MAGIC_NUM_VERSION1"

definition IsValidMagicNum_v2 :: "u64 \<Rightarrow> bool" where
  "IsValidMagicNum_v2 magicNum \<longleftrightarrow> magicNum = MAGIC_NUM_VERSION2"

definition IsValidMagicNum_v3 :: "u64 \<Rightarrow> bool" where
  "IsValidMagicNum_v3 magicNum \<longleftrightarrow> magicNum = MAGIC_NUM_VERSION3"

fun IsValidMagicNum :: "content_reader \<Rightarrow> u64 \<Rightarrow> bool" where
  "IsValidMagicNum ContentReaderVersion1 = IsValidMagicNum_v1"
| "IsValidMagicNum ContentReaderVersion2 = IsValidMagicNum_v2"
| "IsValidMagicNum ContentReaderVersion3 = IsValidMagicNum_v3"
| "IsValidMagicNum ContentReaderVersion4 = IsValidMagicNum_v3"

text \<open>The sizes of the packed structures of the older formats.\<close>

definition SIZEOF_CONTENT_HEADER_V1 :: nat where "SIZEOF_CONTENT_HEADER_V1 = 8 + 8 + 1 + 4 + 4 + 4 + 8 + 1"

definition SIZEOF_CONTENT_HEADER_V2 :: nat where "SIZEOF_CONTENT_HEADER_V2 = 8 + 8 + 1 + 4 + 4 + 4 + 8 + 1 + 1"

definition SIZEOF_DOC_HEADER_V1 :: nat where "SIZEOF_DOC_HEADER_V1 = 8 + 4 + 1 + 1 + MAX_TAG_LEN + 4"

definition SIZEOF_DOC_HEADER_V2 :: nat where "SIZEOF_DOC_HEADER_V2 = 8 + 4 + 1 + 1 + MAX_TAG_LEN + 4"

definition GetContentHeaderSize_v1 :: nat where "GetContentHeaderSize_v1 = SIZEOF_CONTENT_HEADER_V1"

definition GetContentHeaderSize_v2 :: nat where "GetContentHeaderSize_v2 = SIZEOF_CONTENT_HEADER_V2"

definition GetContentHeaderSize_v3 :: nat where "GetContentHeaderSize_v3 = SIZEOF_CONTENT_HEADER"

fun GetContentHeaderSize :: "content_reader \<Rightarrow> nat" where
  "GetContentHeaderSize ContentReaderVersion1 = GetContentHeaderSize_v1"
| "GetContentHeaderSize ContentReaderVersion2 = GetContentHeaderSize_v2"
| "GetContentHeaderSize ContentReaderVersion3 = GetContentHeaderSize_v3"
| "GetContentHeaderSize ContentReaderVersion4 = GetContentHeaderSize_v3"

text \<open>
  \<open>GetContentHeader\<close>: versions 1 and 2 assign the members one by one, versions 3 and 4 copy the
  object. Version 1 has no log label, so that \<open>log\<close> keeps what the memory held. The structure of
  version 1 lacks only the last byte.
\<close>

definition assign_members :: "content_header \<Rightarrow> content_header \<Rightarrow> content_header" where
  "assign_members src header = header\<lparr>chTimestamp := chTimestamp src, chTimeZone := chTimeZone src,
     chUid := chUid src, chPid := chPid src, chTid := chTid src, chId := chId src,
     chType := chType src, chIsTraceOpened := chIsTraceOpened src\<rparr>"

definition GetContentHeader_v1 :: "byte list \<Rightarrow> content_header \<Rightarrow> content_header" where
  "GetContentHeader_v1 content header =
     assign_members (content_header_of_bytes
       (take SIZEOF_CONTENT_HEADER_V1 (drop HIVIEW_BLOCK_SIZE content) @ [0])) header"

definition GetContentHeader_v2 :: "byte list \<Rightarrow> content_header \<Rightarrow> content_header" where
  "GetContentHeader_v2 content header =
     (let src = content_header_of_bytes (drop HIVIEW_BLOCK_SIZE content) in
      (assign_members src header)\<lparr>chLog := chLog src\<rparr>)"

definition GetContentHeader_v3 :: "byte list \<Rightarrow> content_header \<Rightarrow> content_header" where
  "GetContentHeader_v3 content header = content_header_of_bytes (drop HIVIEW_BLOCK_SIZE content)"

fun GetContentHeader :: "content_reader \<Rightarrow> byte list \<Rightarrow> content_header \<Rightarrow> content_header" where
  "GetContentHeader ContentReaderVersion1 = GetContentHeader_v1"
| "GetContentHeader ContentReaderVersion2 = GetContentHeader_v2"
| "GetContentHeader ContentReaderVersion3 = GetContentHeader_v3"
| "GetContentHeader ContentReaderVersion4 = GetContentHeader_v3"

section \<open>The file header\<close>

definition DATA_FORMAT_VERSION_OFFSET :: nat where "DATA_FORMAT_VERSION_OFFSET = 8 + 4 + 1"

definition ReadFmtVersion :: "ifstream \<Rightarrow> u8 \<times> ifstream" where
  "ReadFmtVersion s =
     (if \<not> inOpen s then (0, s)
      else case tellg s of (curPos, s1) \<Rightarrow>
           (case in_read 1 [0] (seekg_beg (int DATA_FORMAT_VERSION_OFFSET) s1) of (mem, s2) \<Rightarrow>
              (hd mem, seekg_beg curPos s2)))"

text \<open>\<open>GetDataString\<close>: a length, then a string that is read up to its NUL.\<close>

definition GetDataString :: "(nat \<Rightarrow> byte list) \<Rightarrow> ifstream \<Rightarrow> string option \<times> ifstream" where
  "GetDataString stk s =
     (case in_read 4 (u32_bytes 0) s of (mem, s1) \<Rightarrow>
        (let valueSize = unat (u32_of_bytes mem) in
         if valueSize > MAX_VERSION_LENG + 1 \<or> valueSize = 0 then (None, s1)
         else case in_read valueSize (stk valueSize) s1 of (valueStr, s2) \<Rightarrow>
              (Some (c_str valueStr), s2)))"

record doc_details =
  ddCode :: doc_code
  ddHeader :: doc_header
  ddHeaderSize :: nat
  ddExtra :: head_extra_info

text \<open>
  \<open>ReadDocDetails\<close>: the code, the reference parameters \<open>header\<close>, \<open>docHeaderSize\<close> and \<open>headExtra\<close>
  after the call, and the stream. The packed header of versions 1 and 2 has a checksum at its
  end and is otherwise the same.
\<close>

definition ReadDocDetails_v1 ::
    "ifstream \<Rightarrow> doc_header \<Rightarrow> nat \<Rightarrow> head_extra_info \<Rightarrow> doc_details \<times> ifstream" where
  "ReadDocDetails_v1 s header docHeaderSize headExtra =
     (if \<not> inOpen s then (\<lparr>ddCode = DOC_STORE_ERROR_IO, ddHeader = header,
          ddHeaderSize = docHeaderSize, ddExtra = headExtra\<rparr>, s)
      else case in_read SIZEOF_DOC_HEADER_V1 (replicate SIZEOF_DOC_HEADER_V1 0) (seekg_beg 0 s) of
             (mem, s1) \<Rightarrow>
               (\<lparr>ddCode = DOC_STORE_SUCCESS, ddHeader = doc_header_of_bytes mem,
                 ddHeaderSize = SIZEOF_DOC_HEADER_V1,
                 ddExtra = headExtra\<lparr>heSysVersion := []\<rparr>\<rparr>, s1))"

definition ReadDocDetails_v2 ::
    "ifstream \<Rightarrow> doc_header \<Rightarrow> nat \<Rightarrow> head_extra_info \<Rightarrow> doc_details \<times> ifstream" where
  "ReadDocDetails_v2 s header docHeaderSize headExtra =
     (if \<not> inOpen s then (\<lparr>ddCode = DOC_STORE_ERROR_IO, ddHeader = header,
          ddHeaderSize = docHeaderSize, ddExtra = headExtra\<rparr>, s)
      else case in_read SIZEOF_DOC_HEADER_V2 (replicate SIZEOF_DOC_HEADER_V2 0) (seekg_beg 0 s) of
             (mem, s1) \<Rightarrow>
               (\<lparr>ddCode = DOC_STORE_SUCCESS, ddHeader = doc_header_of_bytes mem,
                 ddHeaderSize = SIZEOF_DOC_HEADER_V2,
                 ddExtra = headExtra\<lparr>heSysVersion := []\<rparr>\<rparr>, s1))"

definition ReadDocDetails_v3 ::
    "(nat \<Rightarrow> byte list) \<Rightarrow> ifstream \<Rightarrow> doc_header \<Rightarrow> nat \<Rightarrow> head_extra_info \<Rightarrow> doc_details \<times> ifstream" where
  "ReadDocDetails_v3 stk s header docHeaderSize headExtra =
     (if \<not> inOpen s then (\<lparr>ddCode = DOC_STORE_ERROR_IO, ddHeader = header,
          ddHeaderSize = docHeaderSize, ddExtra = headExtra\<rparr>, s)
      else case in_read SIZEOF_DOC_HEADER (doc_header_bytes header) (seekg_beg 0 s) of
             (mem, s1) \<Rightarrow>
               (let header' = doc_header_of_bytes mem in
                case GetDataString stk s1 of
                  (None, s2) \<Rightarrow> (\<lparr>ddCode = DOC_STORE_ERROR_INVALID, ddHeader = header',
                     ddHeaderSize = docHeaderSize, ddExtra = headExtra\<rparr>, s2)
                | (Some sysVersion, s2) \<Rightarrow>
                    (\<lparr>ddCode = DOC_STORE_SUCCESS, ddHeader = header',
                      ddHeaderSize = unat (dhBlockSize header') + 8,
                      ddExtra = headExtra\<lparr>heSysVersion := sysVersion\<rparr>\<rparr>, s2)))"

definition ReadDocDetails_v4 ::
    "(nat \<Rightarrow> byte list) \<Rightarrow> ifstream \<Rightarrow> doc_header \<Rightarrow> nat \<Rightarrow> head_extra_info \<Rightarrow> doc_details \<times> ifstream" where
  "ReadDocDetails_v4 stk s header docHeaderSize headExtra =
     (if \<not> inOpen s then (\<lparr>ddCode = DOC_STORE_ERROR_IO, ddHeader = header,
          ddHeaderSize = docHeaderSize, ddExtra = headExtra\<rparr>, s)
      else case in_read SIZEOF_DOC_HEADER (doc_header_bytes header) (seekg_beg 0 s) of
             (mem, s1) \<Rightarrow>
               (let header' = doc_header_of_bytes mem in
                case GetDataString stk s1 of
                  (None, s2) \<Rightarrow> (\<lparr>ddCode = DOC_STORE_ERROR_INVALID, ddHeader = header',
                     ddHeaderSize = docHeaderSize, ddExtra = headExtra\<rparr>, s2)
                | (Some sysVersion, s2) \<Rightarrow>
                    (case GetDataString stk s2 of
                       (None, s3) \<Rightarrow> (\<lparr>ddCode = DOC_STORE_ERROR_INVALID, ddHeader = header',
                          ddHeaderSize = docHeaderSize,
                          ddExtra = headExtra\<lparr>heSysVersion := sysVersion\<rparr>\<rparr>, s3)
                     | (Some patchVersion, s3) \<Rightarrow>
                         (\<lparr>ddCode = DOC_STORE_SUCCESS, ddHeader = header',
                           ddHeaderSize = unat (dhBlockSize header') + 8,
                           ddExtra = \<lparr>heSysVersion = sysVersion, hePatchVersion = patchVersion\<rparr>\<rparr>, s3))))"

fun ReadDocDetails :: "content_reader \<Rightarrow> (nat \<Rightarrow> byte list) \<Rightarrow> ifstream \<Rightarrow> doc_header \<Rightarrow> nat \<Rightarrow>
    head_extra_info \<Rightarrow> doc_details \<times> ifstream" where
  "ReadDocDetails ContentReaderVersion1 stk = ReadDocDetails_v1"
| "ReadDocDetails ContentReaderVersion2 stk = ReadDocDetails_v2"
| "ReadDocDetails ContentReaderVersion3 stk = ReadDocDetails_v3 stk"
| "ReadDocDetails ContentReaderVersion4 stk = ReadDocDetails_v4 stk"

section \<open>From a content block to a raw event\<close>

definition AppendDomainAndName :: "alloc \<Rightarrow> raw_data \<Rightarrow> event_info \<Rightarrow> doc_code \<times> raw_data" where
  "AppendDomainAndName al rawData eventInfo =
     (case RawData_Append al rawData (Some (eiDomain eventInfo)) MAX_DOMAIN_LEN of
        (False, rd) \<Rightarrow> (DOC_STORE_ERROR_MEMORY, rd)
      | (True, rd) \<Rightarrow>
          (case RawData_Append al rd (Some (eiName eventInfo)) MAX_EVENT_NAME_LEN of
             (False, rd') \<Rightarrow> (DOC_STORE_ERROR_MEMORY, rd')
           | (True, rd') \<Rightarrow> (DOC_STORE_SUCCESS, rd')))"

definition AppendContentData :: "alloc \<Rightarrow> content_reader \<Rightarrow> content_header \<Rightarrow> raw_data \<Rightarrow>
    byte list \<Rightarrow> nat \<Rightarrow> doc_code \<times> raw_data" where
  "AppendContentData al reader junk rawData content contentSize =
     (let contentHeader = GetContentHeader reader content junk;
          contentPos = HIVIEW_BLOCK_SIZE + GetContentHeaderSize reader
      in case RawData_Append al rawData (Some (drop SEQ_SIZE (content_header_bytes contentHeader)))
                (SIZEOF_CONTENT_HEADER - SEQ_SIZE) of
           (False, rd) \<Rightarrow> (DOC_STORE_ERROR_MEMORY, rd)
         | (True, rd) \<Rightarrow>
             (case RawData_Append al rd (Some (drop contentPos content))
                     (contentSize - contentPos - CRC_SIZE) of
                (False, rd') \<Rightarrow> (DOC_STORE_ERROR_MEMORY, rd')
              | (True, rd') \<Rightarrow> (DOC_STORE_SUCCESS, rd')))"

text \<open>The three appenders encode a parameter in a buffer of its own and copy it.\<close>

definition append_param :: "alloc \<Rightarrow> string \<Rightarrow> param_value \<Rightarrow> raw_data \<Rightarrow> doc_code \<times> raw_data" where
  "append_param al key val rawData =
     (let paramRaw = fst (EncodedParam_GetRawData al (EncodedParam al key val)) in
      case RawData_Append al rawData (RawData_GetData paramRaw) (RawData_GetDataLength paramRaw) of
        (False, rd) \<Rightarrow> (DOC_STORE_ERROR_MEMORY, rd)
      | (True, rd) \<Rightarrow> (DOC_STORE_SUCCESS, rd))"

definition AppendTag :: "alloc \<Rightarrow> string \<Rightarrow> raw_data \<Rightarrow> doc_code \<times> raw_data" where
  "AppendTag al tag rawData =
     (if tag = [] then (DOC_STORE_ERROR_INVALID, rawData)
      else append_param al ''tag_'' (StringVal tag) rawData)"

definition AppendLevel :: "alloc \<Rightarrow> string \<Rightarrow> raw_data \<Rightarrow> doc_code \<times> raw_data" where
  "AppendLevel al level rawData = append_param al ''level_'' (StringVal level) rawData"

definition AppendSeq :: "alloc \<Rightarrow> i64 \<Rightarrow> raw_data \<Rightarrow> doc_code \<times> raw_data" where
  "AppendSeq al seq rawData = append_param al ''seq_'' (SignedVal seq) rawData"

text \<open>
  \<open>UpdateParamCnt\<close> patches the parameter count in place; the buffer is not null here, since the
  appends before it succeeded.
\<close>

definition UpdateParamCnt :: "alloc \<Rightarrow> raw_data \<Rightarrow> u32 \<Rightarrow> bool \<times> raw_data" where
  "UpdateParamCnt al rawData addParamCnt =
     (case RawData_GetData rawData of
        None \<Rightarrow> (False, rawData)
      | Some buf \<Rightarrow>
          (let header = header_of_bytes (drop HIVIEW_BLOCK_SIZE buf);
               pos = HIVIEW_BLOCK_SIZE + SIZEOF_HEADER +
                 (if hdIsTraceOpened header = 1 then SIZEOF_TRACE_INFO else 0);
               paramCnt = u32_of_bytes (drop pos buf) + addParamCnt
           in RawData_Update al rawData (Some (u32_bytes paramCnt)) 4 pos))"

definition UpdateRealSize :: "alloc \<Rightarrow> raw_data \<Rightarrow> bool \<times> raw_data" where
  "UpdateRealSize al rawData =
     RawData_Update al rawData (Some (u32_bytes (word_of_nat (RawData_GetDataLength rawData))))
       HIVIEW_BLOCK_SIZE 0"

definition AppendExtraInfo :: "alloc \<Rightarrow> raw_data \<Rightarrow> event_info \<Rightarrow> doc_code \<times> raw_data" where
  "AppendExtraInfo al rawData eventInfo =
     (case AppendTag al (eiTag eventInfo) rawData of
        (ret, rd1) \<Rightarrow>
          (let addParamCnt = (if ret = DOC_STORE_SUCCESS then 3 else 2) in
           case AppendLevel al (eiLevel eventInfo) rd1 of
             (ret, rd2) \<Rightarrow>
               if ret \<noteq> DOC_STORE_SUCCESS then (ret, rd2)
               else case AppendSeq al (eiSeq eventInfo) rd2 of
                 (ret, rd3) \<Rightarrow>
                   if ret \<noteq> DOC_STORE_SUCCESS then (ret, rd3)
                   else case UpdateParamCnt al rd3 addParamCnt of
                     (False, rd4) \<Rightarrow> (DOC_STORE_ERROR_MEMORY, rd4)
                   | (True, rd4) \<Rightarrow>
                       (case UpdateRealSize al rd4 of
                          (False, rd5) \<Rightarrow> (DOC_STORE_ERROR_MEMORY, rd5)
                        | (True, rd5) \<Rightarrow> (DOC_STORE_SUCCESS, rd5))))"

text \<open>
  \<open>ReadRawData\<close>; \<open>None\<close> is the null pointer. The reader calls it with content blocks of at least
  47 bytes only, so that the subtractions do not wrap.
\<close>

definition expandSize :: nat where "expandSize = 128"

definition event_size :: "content_reader \<Rightarrow> nat \<Rightarrow> nat" where
  "event_size reader contentSize = contentSize - GetContentHeaderSize reader + SIZEOF_CONTENT_HEADER -
     SEQ_SIZE + MAX_DOMAIN_LEN + MAX_EVENT_NAME_LEN + expandSize"

definition ReadRawData :: "alloc \<Rightarrow> content_reader \<Rightarrow> content_header \<Rightarrow> event_info \<Rightarrow>
    byte list \<Rightarrow> nat \<Rightarrow> raw_data option" where
  "ReadRawData al reader junk eventInfo content contentSize =
     (let eventSize = event_size reader contentSize in
      if eventSize > MAX_NEW_SIZE then None
      else case RawData_Append al (RawData_sized al eventSize)
                  (Some (u32_bytes (word_of_nat eventSize))) HIVIEW_BLOCK_SIZE of
             (False, rd) \<Rightarrow> None
           | (True, rd) \<Rightarrow>
               (case AppendDomainAndName al rd eventInfo of
                  (ret, rd1) \<Rightarrow>
                    if ret \<noteq> DOC_STORE_SUCCESS then None
                    else case AppendContentData al reader junk rd1 content contentSize of
                      (ret, rd2) \<Rightarrow>
                        if ret \<noteq> DOC_STORE_SUCCESS then None
                        else case AppendExtraInfo al rd2 eventInfo of
                          (ret, rd3) \<Rightarrow>
                            if ret \<noteq> DOC_STORE_SUCCESS then None else Some rd3))"

section \<open>Lemmas\<close>

lemma RawData_Append_take:
  assumes "len \<le> length src"
  shows "RawData_Append al rd (Some src) len = append_bytes al (take len src) rd"
proof -
  have "RawData_Update al rd (Some src) len pos = RawData_Update al rd (Some (take len src)) len pos" for pos
    by (simp only: RawData_Update_def option.case take_take min.idem)
  then show ?thesis using assms by (simp add: RawData_Append_def)
qed

lemma Append_total:
  assumes "alloc_sized al" "alloc_total al" "raw_live rd" "len \<le> length src"
  obtains rd' where "RawData_Append al rd (Some src) len = (True, rd')" "raw_live rd'"
    "rd_bytes rd' = rd_bytes rd @ take len src"
  using emits_total [OF emits_append_bytes [OF assms(1)] assms(3,2), of "take len src"]
    RawData_Append_take [OF assms(4), of al rd] by metis

lemma RawData_sized_live:
  "alloc_sized al \<Longrightarrow> alloc_total al \<Longrightarrow> raw_live (RawData_sized al n) \<and> rd_bytes (RawData_sized al n) = []"
  by (rule alloc_totalE [of al n])
    (auto simp: RawData_sized_def raw_live_def rd_bytes_def dest: alloc_sizedD)

lemma live_data:
  assumes "raw_live rd"
  obtains junk where "rdData rd = Some (rd_bytes rd @ junk)" "rdLen rd = length (rd_bytes rd)"
proof -
  from assms obtain buf where buf: "rdData rd = Some buf" "rd_bytes rd = take (rdLen rd) buf"
    by (auto simp: raw_live_def rd_bytes_def)
  show thesis
    by (rule that [of "drop (rdLen rd) buf"]) (use buf rd_bytes_length [OF assms] in simp_all)
qed

lemma append_param_total:
  assumes "alloc_sized al" "alloc_total al" "raw_live rd"
  obtains rd' where "append_param al key val rd = (DOC_STORE_SUCCESS, rd')" "raw_live rd'"
    "rd_bytes rd' = rd_bytes rd @ param_bytes key (bound_value val)"
proof -
  obtain p where p: "EncodedParam_Encode al (EncodedParam al key val) = (True, p)"
    "raw_live (epRaw p)" "rd_bytes (epRaw p) = param_bytes key (bound_value val)"
    using Encode_fresh [OF assms(1,2)] by metis
  have raw: "fst (EncodedParam_GetRawData al (EncodedParam al key val)) = epRaw p"
    using p(1) by (simp add: EncodedParam_GetRawData_def EncodedParam_def)
  obtain junk where junk: "rdData (epRaw p) = Some (rd_bytes (epRaw p) @ junk)"
    "rdLen (epRaw p) = length (rd_bytes (epRaw p))"
    using live_data [OF p(2)] .
  obtain rd' where rd': "RawData_Append al rd (rdData (epRaw p)) (rdLen (epRaw p)) = (True, rd')"
    "raw_live rd'" "rd_bytes rd' = rd_bytes rd @ param_bytes key (bound_value val)"
    using Append_total [OF assms, of "rdLen (epRaw p)" "rd_bytes (epRaw p) @ junk"] junk p(3) by auto
  show thesis
    by (rule that [OF _ rd'(2,3)])
      (simp add: append_param_def raw RawData_GetData_def RawData_GetDataLength_def rd'(1))
qed

lemma Update_total:
  assumes "alloc_sized al" "alloc_total al" "raw_live rd" "rd_bytes rd = xs @ ys @ zs" "length src = length ys"
    and "pos = length xs" "len = length ys"
  obtains rd' where "RawData_Update al rd (Some src) len pos = (True, rd')" "raw_live rd'"
    "rd_bytes rd' = xs @ src @ zs"
  using RawData_Update_cases [OF assms(1,3), of src len pos] assms rd_bytes_length [OF assms(3)]
  by (auto simp del: length_0_conv)

lemma content_flags_of_byte [simp]:
  "ucast (ucast b :: 2 word) OR push_bit 2 (ucast (ucast (drop_bit 2 b) :: 1 word)) OR
    push_bit 3 (ucast (ucast (drop_bit 3 b) :: 5 word)) = (b :: byte)"
proof (rule bit_word_eqI)
  fix n assume "n < LENGTH(8)"
  then have "n < 8" by simp
  then show "bit (ucast (ucast b :: 2 word) OR push_bit 2 (ucast (ucast (drop_bit 2 b) :: 1 word)) OR
    push_bit 3 (ucast (ucast (drop_bit 3 b) :: 5 word)) :: byte) n = bit b n"
    by (cases "n < 2"; cases "n = 2") (auto simp: bit_simps)
qed

text \<open>The content header object is exactly the 39 bytes it was copied from.\<close>

lemma content_header_copy:
  assumes "length a = 8" "length b = 8" "length c = 1" "length d = 4" "length e = 4" "length f = 4"
    "length g = 8" "length i = 1" "length j = 1"
  shows "content_header_bytes (content_header_of_bytes (a @ b @ c @ d @ e @ f @ g @ i @ j @ rest)) =
    a @ b @ c @ d @ e @ f @ g @ i @ j"
proof -
  obtain c' i' j' where "c = [c']" "i = [i']" "j = [j']"
    using assms by (auto simp: length_Suc_conv)
  then show ?thesis
    using assms
    by (simp add: content_header_bytes_def content_header_of_bytes_def nth_append content_flags_def
        u32_of_bytes_app u64_of_bytes_app u32_bytes_of u64_bytes_of)
qed

section \<open>Raw events from content blocks\<close>

definition extra_params :: "event_info \<Rightarrow> (string \<times> param_value) list" where
  "extra_params info = (if eiTag info = [] then [] else [(''tag_'', StringVal (eiTag info))]) @
     [(''level_'', StringVal (eiLevel info)), (''seq_'', SignedVal (eiSeq info))]"

text \<open>The header bytes behind domain and name.\<close>

definition header_rest :: "hisysevent_header \<Rightarrow> byte list" where
  "header_rest h = u64_bytes (hdTimestamp h) @ [hdTimeZone h] @ u32_bytes (hdUid h) @
     u32_bytes (hdPid h) @ u32_bytes (hdTid h) @ u64_bytes (hdId h) @
     [flag_byte (hdType h) (hdIsTraceOpened h), hdLog h]"

definition trace_part :: "hisysevent_header \<Rightarrow> trace_info \<Rightarrow> byte list" where
  "trace_part h tr = (if hdIsTraceOpened h = 1 then trace_bytes tr else [])"

text \<open>What a document keeps of a raw event: everything behind the name.\<close>

definition stored_part :: "hisysevent_header \<Rightarrow> trace_info \<Rightarrow> (string \<times> param_value) list \<Rightarrow> byte list" where
  "stored_part h tr ps = header_rest h @ trace_part h tr @ u32_bytes (word_of_nat (length ps)) @ params_bytes ps"

lemma length_header_rest [simp]: "length (header_rest h) = 31"
  by (simp add: header_rest_def)

lemma header_bytes_split: "header_bytes h = hdDomain h @ hdName h @ header_rest h"
  by (simp add: header_bytes_def header_rest_def)

lemma block_bytes_split:
  "block_bytes h tr ps = u32_bytes (word_of_nat (4 + length (block_tail h tr ps))) @
    hdDomain h @ hdName h @ stored_part h tr ps"
  by (simp add: block_bytes_def block_tail_def stored_part_def trace_part_def header_bytes_split)

lemma stored_part_drop:
  assumes "header_ok h"
  shows "drop 54 (block_bytes h tr ps) = stored_part h tr ps"
  using assms by (simp add: block_bytes_split header_ok_def MAX_DOMAIN_LENGTH_def MAX_EVENT_NAME_LENGTH_def)

lemma GetContentHeader_rest:
  assumes "reader = ContentReaderVersion3 \<or> reader = ContentReaderVersion4" "length szb = 4" "length sq = 8"
  shows "drop 8 (content_header_bytes (GetContentHeader reader (szb @ sq @ header_rest h @ rest) junk)) =
    header_rest h"
proof -
  have "GetContentHeader reader (szb @ sq @ header_rest h @ rest) junk =
      content_header_of_bytes (sq @ header_rest h @ rest)"
    using assms by (auto simp: HIVIEW_BLOCK_SIZE_def GetContentHeader_v3_def)
  moreover have "content_header_bytes (content_header_of_bytes (sq @ header_rest h @ rest)) =
      sq @ header_rest h"
    using content_header_copy [of sq "u64_bytes (hdTimestamp h)" "[hdTimeZone h]" "u32_bytes (hdUid h)"
        "u32_bytes (hdPid h)" "u32_bytes (hdTid h)" "u64_bytes (hdId h)"
        "[flag_byte (hdType h) (hdIsTraceOpened h)]" "[hdLog h]" rest] assms(3)
    by (simp add: header_rest_def)
  ultimately show ?thesis using assms(3) by simp
qed

lemma AppendContentData_total:
  assumes al: "alloc_sized al" "alloc_total al" and rd: "raw_live rd"
    and reader: "reader = ContentReaderVersion3 \<or> reader = ContentReaderVersion4"
    and content: "content = szb @ sq @ header_rest h @ rest @ crc"
    and len: "length szb = 4" "length sq = 8" "length crc = 4"
  obtains rd' where "AppendContentData al reader junk rd content (length content) = (DOC_STORE_SUCCESS, rd')"
    "raw_live rd'" "rd_bytes rd' = rd_bytes rd @ header_rest h @ rest"
proof -
  have sz: "GetContentHeaderSize reader = 39" using reader by (auto simp: GetContentHeaderSize_v3_def SIZEOF_CONTENT_HEADER_def)
  have hd: "drop SEQ_SIZE (content_header_bytes (GetContentHeader reader content junk)) = header_rest h"
    using GetContentHeader_rest [OF reader len(1,2), of h "rest @ crc"] by (simp add: content SEQ_SIZE_def)
  obtain r1 where r1: "RawData_Append al rd (Some (header_rest h)) 31 = (True, r1)" "raw_live r1"
    "rd_bytes r1 = rd_bytes rd @ header_rest h"
    using Append_total [OF al rd, of 31 "header_rest h"] by auto
  obtain r2 where r2: "RawData_Append al r1 (Some (rest @ crc)) (length rest) = (True, r2)" "raw_live r2"
    "rd_bytes r2 = rd_bytes r1 @ rest"
    using Append_total [OF al r1(2), of "length rest" "rest @ crc"] by auto
  have "AppendContentData al reader junk rd content (length content) = (DOC_STORE_SUCCESS, r2)"
    using r1(1) r2(1) hd len
    by (simp add: AppendContentData_def sz content HIVIEW_BLOCK_SIZE_def CRC_SIZE_def
        SEQ_SIZE_def SIZEOF_CONTENT_HEADER_def)
  then show thesis using that r2(2,3) r1(3) by simp
qed

lemma AppendTag_total:
  assumes "alloc_sized al" "alloc_total al" "raw_live rd"
  obtains ret rd' where "AppendTag al tag rd = (ret, rd')" "raw_live rd'"
    "(ret = DOC_STORE_SUCCESS) = (tag \<noteq> [])"
    "rd_bytes rd' = rd_bytes rd @ params_bytes (if tag = [] then [] else [(''tag_'', StringVal tag)])"
proof (cases "tag = []")
  case True
  show thesis by (rule that [of DOC_STORE_ERROR_INVALID rd])
      (use True assms in \<open>simp_all add: AppendTag_def params_bytes_def\<close>)
next
  case False
  obtain rd' where "append_param al ''tag_'' (StringVal tag) rd = (DOC_STORE_SUCCESS, rd')" "raw_live rd'"
    "rd_bytes rd' = rd_bytes rd @ param_bytes ''tag_'' (StringVal tag)"
    using append_param_total [OF assms, of "''tag_''" "StringVal tag"] by auto
  then show thesis using that False by (simp add: AppendTag_def params_bytes_def)
qed

lemma UpdateParamCnt_total:
  assumes "alloc_sized al" "alloc_total al" "raw_live rd" "header_ok h" "length szb = 4"
    and bytes: "rd_bytes rd = szb @ header_bytes h @ trace_part h tr @ u32_bytes cnt @ rest"
  obtains rd' where "UpdateParamCnt al rd k = (True, rd')" "raw_live rd'"
    "rd_bytes rd' = szb @ header_bytes h @ trace_part h tr @ u32_bytes (cnt + k) @ rest"
proof -
  obtain junk where junk: "rdData rd = Some (rd_bytes rd @ junk)" using live_data [OF assms(3)] .
  let ?pos = "length (szb @ header_bytes h @ trace_part h tr)"
  have pos: "4 + SIZEOF_HEADER + (if hdIsTraceOpened h = 1 then SIZEOF_TRACE_INFO else 0) = ?pos"
    using length_header_bytes [OF assms(4)] assms(5) by (simp add: trace_part_def)
  have h: "header_of_bytes (drop 4 (rd_bytes rd @ junk)) = h"
    using header_of_header_bytes [OF assms(4)] assms(5) by (simp add: bytes)
  have c: "u32_of_bytes (drop ?pos (rd_bytes rd @ junk)) = cnt"
    by (simp only: bytes append_assoc [symmetric] drop_append drop_all diff_self_eq_0 drop0) simp
  have bytes': "rd_bytes rd = (szb @ header_bytes h @ trace_part h tr) @ u32_bytes cnt @ rest"
    by (simp add: bytes)
  have eq: "UpdateParamCnt al rd k = RawData_Update al rd (Some (u32_bytes (cnt + k))) 4 ?pos"
    unfolding UpdateParamCnt_def RawData_GetData_def junk option.case HIVIEW_BLOCK_SIZE_def Let_def h pos c ..
  obtain rd' where upd: "RawData_Update al rd (Some (u32_bytes (cnt + k))) 4 ?pos = (True, rd')" "raw_live rd'"
    "rd_bytes rd' = (szb @ header_bytes h @ trace_part h tr) @ u32_bytes (cnt + k) @ rest"
    by (rule Update_total [OF assms(1-3) bytes', of "u32_bytes (cnt + k)" ?pos 4]) simp_all
  show thesis by (rule that [OF eq [unfolded upd(1)] upd(2)]) (simp add: upd(3))
qed

lemma params_bytes_append: "params_bytes (ps @ qs) = params_bytes ps @ params_bytes qs"
  by (simp add: params_bytes_def)

lemma AppendExtraInfo_total:
  assumes al: "alloc_sized al" "alloc_total al" and rd: "raw_live rd" and h: "header_ok h"
    and szb: "length szb = 4"
    and bytes: "rd_bytes rd = szb @ header_bytes h @ trace_part h tr @ u32_bytes (word_of_nat (length ps)) @ params_bytes ps"
  obtains rd' where "AppendExtraInfo al rd info = (DOC_STORE_SUCCESS, rd')" "raw_live rd'"
    "rd_bytes rd' = block_bytes h tr (ps @ extra_params info)"
proof -
  let ?tag = "if eiTag info = [] then [] else [(''tag_'', StringVal (eiTag info))]"
  let ?k = "if eiTag info = [] then 2 else 3 :: u32"
  let ?ps = "ps @ extra_params info"
  obtain ret r1 where r1: "AppendTag al (eiTag info) rd = (ret, r1)" "raw_live r1"
    "(ret = DOC_STORE_SUCCESS) = (eiTag info \<noteq> [])" "rd_bytes r1 = rd_bytes rd @ params_bytes ?tag"
    using AppendTag_total [OF al rd] .
  obtain r2 where r2: "AppendLevel al (eiLevel info) r1 = (DOC_STORE_SUCCESS, r2)" "raw_live r2"
    "rd_bytes r2 = rd_bytes r1 @ param_bytes ''level_'' (StringVal (eiLevel info))"
    using append_param_total [OF al r1(2), of "''level_''" "StringVal (eiLevel info)"]
    by (auto simp: AppendLevel_def)
  obtain r3 where r3: "AppendSeq al (eiSeq info) r2 = (DOC_STORE_SUCCESS, r3)" "raw_live r3"
    "rd_bytes r3 = rd_bytes r2 @ param_bytes ''seq_'' (SignedVal (eiSeq info))"
    using append_param_total [OF al r2(2), of "''seq_''" "SignedVal (eiSeq info)"]
    by (auto simp: AppendSeq_def)
  have b3: "rd_bytes r3 = szb @ header_bytes h @ trace_part h tr @ u32_bytes (word_of_nat (length ps)) @
      params_bytes ?ps"
    by (simp add: r3(3) r2(3) r1(4) bytes params_bytes_append extra_params_def) (simp add: params_bytes_def)
  obtain r4 where r4: "UpdateParamCnt al r3 ?k = (True, r4)" "raw_live r4"
    "rd_bytes r4 = szb @ header_bytes h @ trace_part h tr @ u32_bytes (word_of_nat (length ps) + ?k) @ params_bytes ?ps"
    using UpdateParamCnt_total [OF al r3(2) h szb b3] .
  have cnt: "word_of_nat (length ps) + ?k = (word_of_nat (length ?ps) :: u32)"
    by (simp add: extra_params_def add.commute)
  let ?tail = "block_tail h tr ?ps"
  have b4: "rd_bytes r4 = [] @ szb @ ?tail"
    by (simp add: r4(3) cnt block_tail_def trace_part_def)
  then have len: "RawData_GetDataLength r4 = 4 + length ?tail"
    using rd_bytes_length [OF r4(2)] szb by (simp add: RawData_GetDataLength_def)
  obtain r5 where r5: "UpdateRealSize al r4 = (True, r5)" "raw_live r5"
    "rd_bytes r5 = [] @ u32_bytes (word_of_nat (4 + length ?tail)) @ ?tail"
    unfolding UpdateRealSize_def len HIVIEW_BLOCK_SIZE_def
    by (rule Update_total [OF al r4(2) b4, of "u32_bytes (word_of_nat (4 + length ?tail))" 0 4])
      (simp_all add: szb)
  have "AppendExtraInfo al rd info = (DOC_STORE_SUCCESS, r5)"
    using r1(1,3) r2(1) r3(1) r4(1) r5(1) by (simp add: AppendExtraInfo_def split: if_splits)
  then show thesis using that r5(2,3) by (simp add: block_bytes_def)
qed

text \<open>
  Reading a stored event back gives the block of the original event with the domain and the name
  of its document and with the tag, level and sequence as further parameters.
\<close>

lemma ReadRawData_block:
  assumes al: "alloc_sized al" "alloc_total al"
    and reader: "reader = ContentReaderVersion3 \<or> reader = ContentReaderVersion4"
    and content: "content = szb @ sq @ stored_part h tr ps @ crc" "length szb = 4" "length sq = 8" "length crc = 4"
    and info: "length (eiDomain info) = MAX_DOMAIN_LEN" "length (eiName info) = MAX_EVENT_NAME_LEN"
    and fits: "event_size reader (length content) \<le> MAX_NEW_SIZE"
  obtains rd where "ReadRawData al reader junk info content (length content) = Some rd" "raw_live rd"
    "rd_bytes rd = block_bytes (h\<lparr>hdDomain := eiDomain info, hdName := eiName info\<rparr>) tr (ps @ extra_params info)"
proof -
  let ?h = "h\<lparr>hdDomain := eiDomain info, hdName := eiName info\<rparr>"
  let ?n = "event_size reader (length content)"
  let ?rest = "trace_part h tr @ u32_bytes (word_of_nat (length ps)) @ params_bytes ps"
  have h: "header_ok ?h"
    using info by (simp add: header_ok_def doc_const_defs MAX_DOMAIN_LENGTH_def MAX_EVENT_NAME_LENGTH_def)
  obtain r0 where r0: "RawData_Append al (RawData_sized al ?n) (Some (u32_bytes (word_of_nat ?n))) 4 = (True, r0)"
    "raw_live r0" "rd_bytes r0 = u32_bytes (word_of_nat ?n)"
    using Append_total [OF al conjunct1 [OF RawData_sized_live [OF al]], of 4 "u32_bytes (word_of_nat ?n)" ?n]
      RawData_sized_live [OF al, of ?n] by auto
  obtain r1 where r1: "RawData_Append al r0 (Some (eiDomain info)) 17 = (True, r1)" "raw_live r1"
    "rd_bytes r1 = rd_bytes r0 @ eiDomain info"
    using Append_total [OF al r0(2), of 17 "eiDomain info"] info by (auto simp: doc_const_defs)
  obtain r2 where r2: "RawData_Append al r1 (Some (eiName info)) 33 = (True, r2)" "raw_live r2"
    "rd_bytes r2 = rd_bytes r1 @ eiName info"
    using Append_total [OF al r1(2), of 33 "eiName info"] info by (auto simp: doc_const_defs)
  have dn: "AppendDomainAndName al r0 info = (DOC_STORE_SUCCESS, r2)"
    using r1(1) r2(1) by (simp add: AppendDomainAndName_def doc_const_defs)
  have split: "content = szb @ sq @ header_rest h @ ?rest @ crc"
    by (simp add: content(1) stored_part_def)
  obtain r3 where r3: "AppendContentData al reader junk r2 content (length content) = (DOC_STORE_SUCCESS, r3)"
    "raw_live r3" "rd_bytes r3 = rd_bytes r2 @ header_rest h @ ?rest"
    using AppendContentData_total [OF al r2(2) reader split content(2-4)] .
  have "header_rest ?h = header_rest h" "trace_part ?h tr = trace_part h tr"
    by (simp_all add: header_rest_def trace_part_def)
  then have b3: "rd_bytes r3 = u32_bytes (word_of_nat ?n) @ header_bytes ?h @ trace_part ?h tr @
      u32_bytes (word_of_nat (length ps)) @ params_bytes ps"
    by (simp add: r3(3) r2(3) r1(3) r0(3) header_bytes_split)
  obtain r4 where r4: "AppendExtraInfo al r3 info = (DOC_STORE_SUCCESS, r4)" "raw_live r4"
    "rd_bytes r4 = block_bytes ?h tr (ps @ extra_params info)"
    using AppendExtraInfo_total [OF al r3(2) h length_u32_bytes b3] .
  have "ReadRawData al reader junk info content (length content) = Some r4"
    using r0(1) dn r3(1) r4(1) fits by (simp add: ReadRawData_def HIVIEW_BLOCK_SIZE_def)
  then show thesis using that r4(2,3) by simp
qed

end
