(* ===== verification/String_Util.thy ===== *)
theory String_Util
  imports Cpp_Text "HOL-Library.Sublist"
begin

text \<open>
  The string helpers of base/utility/string_util.cpp and its header: searching and replacing,
  trimming, splitting, number reading, JSON escaping, process names and path checks. A position
  that is not found is \<open>None\<close>; where the sources calculate with \<open>std::string::npos\<close> it is the
  largest \<open>size_t\<close>.
\<close>

section \<open>Searching\<close>

fun find_in :: "string \<Rightarrow> string \<Rightarrow> nat \<Rightarrow> nat option" where
  "find_in sub [] i = (if sub = [] then Some i else None)"
| "find_in sub (c # cs) i = (if prefix sub (c # cs) then Some i else find_in sub cs (Suc i))"

definition str_find :: "string \<Rightarrow> string \<Rightarrow> nat \<Rightarrow> nat option" where
  "str_find str sub pos = (if pos > length str then None else find_in sub (drop pos str) pos)"

definition str_rfind :: "string \<Rightarrow> string \<Rightarrow> nat option" where
  "str_rfind str sub =
     (let ps = filter (\<lambda>i. prefix sub (drop i str)) [0 ..< Suc (length str)] in
      if ps = [] then None else Some (last ps))"

definition npos :: nat where "npos = 2 ^ 64 - 1"

definition pos_of :: "nat option \<Rightarrow> nat" where
  "pos_of p = (case p of None \<Rightarrow> npos | Some i \<Rightarrow> i)"

definition substr :: "string \<Rightarrow> nat \<Rightarrow> nat \<Rightarrow> string" where
  "substr str pos n = take n (drop pos str)"

section \<open>Operations\<close>

definition ConvertVectorToStr :: "string list \<Rightarrow> string \<Rightarrow> string" where
  "ConvertVectorToStr listStr split =
     fold (\<lambda>item str. if str = [] then item else str @ split @ item) listStr []"

lemma find_in_bounds: "find_in sub cs i = Some p \<Longrightarrow> i \<le> p \<and> p - i + length sub \<le> length cs"
  by (induction sub cs i rule: find_in.induct) (auto split: if_splits dest: prefix_length_le)

lemma str_find_bounds: "str_find str sub pos = Some p \<Longrightarrow> pos \<le> p \<and> p + length sub \<le> length str"
  by (auto simp: str_find_def split: if_splits dest!: find_in_bounds)

function replace_loop :: "string \<Rightarrow> string \<Rightarrow> string \<Rightarrow> nat \<Rightarrow> string" where
  "replace_loop src dst strTmp pos =
     (if src = [] then strTmp
      else case str_find strTmp src pos of
             None \<Rightarrow> strTmp
           | Some p \<Rightarrow>
               replace_loop src dst (take p strTmp @ dst @ drop (p + length src) strTmp) (p + length dst))"
  by pat_completeness auto
termination
  by (relation "measure (\<lambda>(src, dst, strTmp, pos). length strTmp - pos)")
    (auto dest!: str_find_bounds simp: neq_Nil_conv)

declare replace_loop.simps [simp del]

definition ReplaceStr :: "string \<Rightarrow> string \<Rightarrow> string \<Rightarrow> string" where
  "ReplaceStr str src dst = (if src = [] then str else replace_loop src dst str 0)"

text \<open>
  \<open>TrimStr\<close>: \<open>erase\<close> up to the first other character, then from behind the last one; on a string
  of trimmed characters only, \<open>npos + 1\<close> is 0 and everything is erased.
\<close>

definition TrimStr :: "string \<Rightarrow> char \<Rightarrow> string" where
  "TrimStr str cTrim =
     rev (dropWhile (\<lambda>c. c = cTrim) (rev (dropWhile (\<lambda>c. c = cTrim) str)))"

definition trim_if :: "bool \<Rightarrow> string \<Rightarrow> string" where
  "trim_if needTrim str = (if needTrim then TrimStr str (CHR '' '') else str)"

definition push_part :: "bool \<Rightarrow> string \<Rightarrow> string list \<Rightarrow> string list" where
  "push_part canEmpty strPart strs = (if strPart \<noteq> [] \<or> canEmpty then strs @ [strPart] else strs)"

function split_loop :: "string \<Rightarrow> bool \<Rightarrow> bool \<Rightarrow> string \<Rightarrow> string list \<Rightarrow> string list" where
  "split_loop sep canEmpty needTrim strTmp strs =
     (case str_find strTmp sep 0 of
        None \<Rightarrow> push_part canEmpty (trim_if needTrim strTmp) strs
      | Some pos \<Rightarrow>
          if sep = [] then push_part canEmpty (trim_if needTrim strTmp) strs
          else split_loop sep canEmpty needTrim (drop (length sep + pos) strTmp)
                 (push_part canEmpty (trim_if needTrim (take pos strTmp)) strs))"
  by pat_completeness auto
termination
  by (relation "measure (\<lambda>(sep, canEmpty, needTrim, strTmp, strs). length strTmp)")
    (auto dest!: str_find_bounds simp: neq_Nil_conv)

declare split_loop.simps [simp del]

definition SplitStr :: "string \<Rightarrow> string \<Rightarrow> bool \<Rightarrow> bool \<Rightarrow> string list" where
  "SplitStr str sep canEmpty needTrim = split_loop sep canEmpty needTrim (trim_if needTrim str) []"

text \<open>
  \<open>strtol\<close> and \<open>strtoll\<close> to base 10 on a text that starts with a digit or a minus sign: the
  value, and the rest of the C string behind the number; \<open>None\<close> when there are no digits.
\<close>

definition strtol_digits :: "string \<Rightarrow> (int \<times> string) option" where
  "strtol_digits s =
     (let neg = (s \<noteq> [] \<and> hd s = CHR ''-''); body = (if neg then tl s else s);
          digits = takeWhile is_digit body; v = int (read_digits 10 0 digits)
      in if digits = [] then None
         else Some (if neg then - v else v, dropWhile is_digit body))"

definition strtol_checked :: "string \<Rightarrow> int option" where
  "strtol_checked str =
     (if str = [] \<or> \<not> is_digit (hd str) \<and> hd str \<noteq> CHR ''-'' then None
      else case strtol_digits (takeWhile (\<lambda>c. c \<noteq> CHR 0x00) str) of
             None \<Rightarrow> None
           | Some (v, rest) \<Rightarrow>
               if rest \<noteq> [] \<or> v < - (2 ^ 63) \<or> 2 ^ 63 \<le> v then None else Some v)"

text \<open>\<open>StrToInt\<close>: a 64-bit \<open>long\<close> is cut to an \<open>int\<close>; \<open>value\<close> is unchanged on failure.\<close>

definition StrToInt :: "string \<Rightarrow> int \<Rightarrow> bool \<times> int" where
  "StrToInt str value =
     (case strtol_checked str of
        None \<Rightarrow> (False, value)
      | Some v \<Rightarrow> (True, sint (word_of_int v :: 32 word)))"

definition StrToInt_or_minus1 :: "string \<Rightarrow> int" where
  "StrToInt_or_minus1 str = snd (StrToInt str (- 1))"

definition StrToInt64 :: "string \<Rightarrow> int \<Rightarrow> bool \<times> int" where
  "StrToInt64 str value =
     (case strtol_checked str of None \<Rightarrow> (False, value) | Some v \<Rightarrow> (True, v))"

text \<open>\<open>std::getline\<close> with a delimiter: no token behind a delimiter at the very end.\<close>

fun getline_tokens :: "char \<Rightarrow> string \<Rightarrow> string \<Rightarrow> string list" where
  "getline_tokens d token [] = (if token = [] then [] else [token])"
| "getline_tokens d token (c # cs) =
     (if c = d then token # getline_tokens d [] cs else getline_tokens d (token @ [c]) cs)"

definition SplitStr_char :: "string \<Rightarrow> char \<Rightarrow> string list" where
  "SplitStr_char str delimiter = getline_tokens delimiter [] str"

definition GetLeftSubstr :: "string \<Rightarrow> string \<Rightarrow> string" where
  "GetLeftSubstr input split =
     (case str_find input split 0 of None \<Rightarrow> input | Some pos \<Rightarrow> substr input 0 pos)"

definition GetRightSubstr :: "string \<Rightarrow> string \<Rightarrow> string" where
  "GetRightSubstr input split =
     (case str_find input split 0 of
        None \<Rightarrow> ''none''
      | Some pos \<Rightarrow> substr input (pos + length split) (length input - pos))"

definition GetRleftSubstr :: "string \<Rightarrow> string \<Rightarrow> string" where
  "GetRleftSubstr input split =
     (case str_rfind input split of None \<Rightarrow> input | Some pos \<Rightarrow> substr input 0 pos)"

definition GetRrightSubstr :: "string \<Rightarrow> string \<Rightarrow> string" where
  "GetRrightSubstr input split =
     (case str_rfind input split of
        None \<Rightarrow> ''none''
      | Some pos \<Rightarrow> substr input (pos + 1) (length input - pos))"

text \<open>\<open>EraseString\<close> searches for the empty string forever, so that it may not return.\<close>

partial_function (option) erase_loop :: "string \<Rightarrow> string \<Rightarrow> nat \<Rightarrow> string option" where
  "erase_loop toErase out pos =
     (case str_find out toErase pos of
        None \<Rightarrow> Some out
      | Some p \<Rightarrow>
          erase_loop toErase (take p out @ drop (p + length toErase) out) (if p = 0 then 0 else p - 1))"

definition EraseString :: "string \<Rightarrow> string \<Rightarrow> string option" where
  "EraseString input toErase = erase_loop toErase input 0"

definition GetMidSubstr :: "string \<Rightarrow> string \<Rightarrow> string \<Rightarrow> string" where
  "GetMidSubstr input begin_str end_str =
     (case str_find input begin_str 0 of
        None \<Rightarrow> []
      | Some b \<Rightarrow>
          (let beginPos = b + length begin_str in
           case str_find input end_str beginPos of
             None \<Rightarrow> []
           | Some endPos \<Rightarrow> substr input beginPos (endPos - beginPos)))"

definition VectorToString :: "string list \<Rightarrow> bool \<Rightarrow> string \<Rightarrow> string" where
  "VectorToString src reverse tag =
     fold (\<lambda>element str. if element = [] then str
        else if reverse then element @ tag @ str else str @ element @ tag) src []"

section \<open>JSON escaping\<close>

fun escape_char :: "char \<Rightarrow> string" where
  "escape_char c =
     (if c = CHR 0x5C then [CHR 0x5C, CHR 0x5C]
      else if c = CHR 0x22 then [CHR 0x5C, CHR 0x22]
      else if c = CHR 0x08 then [CHR 0x5C, CHR ''b'']
      else if c = CHR 0x0C then [CHR 0x5C, CHR ''f'']
      else if c = CHR 0x0A then [CHR 0x5C, CHR ''n'']
      else if c = CHR 0x0D then [CHR 0x5C, CHR ''r'']
      else if c = CHR 0x09 then [CHR 0x5C, CHR ''t'']
      else [c])"

definition EscapeJsonStringValue :: "string \<Rightarrow> string" where
  "EscapeJsonStringValue value = concat (map escape_char value)"

definition unescape_char :: "char \<Rightarrow> char" where
  "unescape_char c =
     (if c = CHR ''b'' then CHR 0x08 else if c = CHR ''f'' then CHR 0x0C
      else if c = CHR ''n'' then CHR 0x0A else if c = CHR ''r'' then CHR 0x0D
      else if c = CHR ''t'' then CHR 0x09 else c)"

fun unescape_loop :: "bool \<Rightarrow> string \<Rightarrow> string" where
  "unescape_loop isEscaped [] = []"
| "unescape_loop True (c # cs) = unescape_char c # unescape_loop False cs"
| "unescape_loop False (c # cs) =
     (if c = CHR 0x5C then unescape_loop True cs else c # unescape_loop False cs)"

definition UnescapeJsonStringValue :: "string \<Rightarrow> string" where
  "UnescapeJsonStringValue value = unescape_loop False value"

section \<open>Process names and paths\<close>

fun cmd_bounds :: "nat \<Rightarrow> string \<Rightarrow> nat \<Rightarrow> nat \<Rightarrow> nat \<times> nat" where
  "cmd_bounds i [] startPos endPos = (startPos, endPos)"
| "cmd_bounds i (c # cs) startPos endPos =
     (if c = CHR ''/'' then cmd_bounds (Suc i) cs (i + 1) endPos
      else if c = CHR 0x00 then (startPos, i)
      else cmd_bounds (Suc i) cs startPos endPos)"

definition FormatCmdLine :: "string \<Rightarrow> string" where
  "FormatCmdLine cmdLine =
     (case cmd_bounds 0 cmdLine 0 (length cmdLine) of
        (startPos, endPos) \<Rightarrow> substr cmdLine startPos (endPos - startPos))"

definition is_lower :: "char \<Rightarrow> bool" where
  "is_lower c \<longleftrightarrow> 97 \<le> (of_char c :: nat) \<and> of_char c \<le> (122 :: nat)"

definition is_upper :: "char \<Rightarrow> bool" where
  "is_upper c \<longleftrightarrow> 65 \<le> (of_char c :: nat) \<and> of_char c \<le> (90 :: nat)"

definition process_char :: "char \<Rightarrow> char" where
  "process_char c =
     (if is_digit c \<or> is_lower c \<or> is_upper c \<or> c = CHR ''.'' \<or> c = CHR ''-'' \<or> c = CHR ''_''
      then c else CHR ''_'')"

definition FormatProcessName :: "string \<Rightarrow> string" where
  "FormatProcessName processName = map process_char (FormatCmdLine processName)"

definition HideStrInfo :: "string \<Rightarrow> string" where
  "HideStrInfo originStr =
     (if length originStr \<le> 4 + 4 then originStr
      else substr originStr 0 4 @ ''****'' @ substr originStr (length originStr - 4) 4)"

definition StartWith :: "string \<Rightarrow> string \<Rightarrow> bool" where
  "StartWith str sub \<longleftrightarrow> str_find str sub 0 = Some 0"

definition EndWith :: "string \<Rightarrow> string \<Rightarrow> bool" where
  "EndWith str sub =
     (case str_rfind str sub of
        None \<Rightarrow> False
      | Some index \<Rightarrow> index + length sub = length str)"

text \<open>\<open>path.length () - doubleDotLength\<close> is \<open>size_t\<close> arithmetic.\<close>

definition ContainsPathTraversal :: "string \<Rightarrow> bool" where
  "ContainsPathTraversal path =
     (if path = [] then False
      else str_find path ''../'' 0 \<noteq> None \<or>
           str_find path (''..'' @ [CHR 0x5C]) 0 \<noteq> None \<or>
           str_find path ''..'' 0 = Some 0 \<or>
           pos_of (str_rfind path ''..'') = nat ((int (length path) - 2) mod 2 ^ 64))"

section \<open>Lemmas\<close>

lemma find_in_first:
  "find_in sub cs i = Some p \<Longrightarrow>
    prefix sub (drop (p - i) cs) \<and> (\<forall>j < p - i. \<not> prefix sub (drop j cs))"
proof (induction sub cs i rule: find_in.induct)
  case (2 sub c cs i)
  show ?case
  proof (cases "prefix sub (c # cs)")
    case True
    with 2 show ?thesis by simp
  next
    case False
    with 2 have f: "find_in sub cs (Suc i) = Some p" by simp
    then have "Suc i \<le> p" using find_in_bounds by blast
    then have d: "p - i = Suc (p - Suc i)" by simp
    from 2(1) [OF False f] False show ?thesis
      unfolding d by (auto simp: less_Suc_eq_0_disj)
  qed
qed (simp split: if_splits)

lemma find_in_None: "find_in sub cs i = None \<longleftrightarrow> (\<forall>j \<le> length cs. \<not> prefix sub (drop j cs))"
proof (induction sub cs i rule: find_in.induct)
  case (2 sub c cs i)
  then show ?case by (auto simp: All_less_Suc2 less_Suc_eq_le [symmetric])
qed simp

text \<open>The first occurrence, or none at all.\<close>

lemma str_find_Some:
  assumes "str_find str sub pos = Some p"
  shows "pos \<le> p" "prefix sub (drop p str)" "pos \<le> j \<Longrightarrow> j < p \<Longrightarrow> \<not> prefix sub (drop j str)"
proof -
  have f: "find_in sub (drop pos str) pos = Some p" "pos \<le> p"
    using assms str_find_bounds [OF assms] by (auto simp: str_find_def split: if_splits)
  from f(2) show "pos \<le> p" .
  from find_in_first [OF f(1)] f(2) show "prefix sub (drop p str)" by (simp add: add.commute)
  from find_in_first [OF f(1)] f(2) show "pos \<le> j \<Longrightarrow> j < p \<Longrightarrow> \<not> prefix sub (drop j str)"
    using diff_less_mono by (auto dest: spec [of _ "j - pos"])
qed

lemma str_find_None:
  "pos \<le> length str \<Longrightarrow> str_find str sub pos = None \<longleftrightarrow> (\<forall>j. pos \<le> j \<and> j \<le> length str \<longrightarrow> \<not> prefix sub (drop j str))"
proof -
  assume pos: "pos \<le> length str"
  have "(\<forall>j \<le> length str - pos. \<not> prefix sub (drop (j + pos) str)) \<longleftrightarrow>
      (\<forall>j. pos \<le> j \<and> j \<le> length str \<longrightarrow> \<not> prefix sub (drop j str))"
    using pos by (auto simp: le_diff_conv2) (metis le_add_diff_inverse2 le_diff_conv)
  then show ?thesis using pos by (simp add: str_find_def find_in_None add.commute)
qed

lemma str_rfind_Some:
  assumes "str_rfind str sub = Some p"
  shows "p \<le> length str" "prefix sub (drop p str)" "j \<le> length str \<Longrightarrow> p < j \<Longrightarrow> \<not> prefix sub (drop j str)"
proof -
  let ?ps = "filter (\<lambda>i. prefix sub (drop i str)) [0 ..< Suc (length str)]"
  have ps: "?ps \<noteq> []" "p = last ?ps"
    using assms by (auto simp: str_rfind_def Let_def simp del: upt_Suc split: if_splits)
  then have "p \<in> set ?ps" by (metis last_in_set)
  then show "p \<le> length str" "prefix sub (drop p str)" by (auto simp del: upt_Suc)
  have "sorted ?ps" by (rule sorted_wrt_filter) (simp del: upt_Suc)
  then have le: "i \<in> set ?ps \<Longrightarrow> i \<le> p" for i
    using ps by (metis in_set_conv_nth last_conv_nth diff_less length_greater_0_conv less_Suc_eq_le
        zero_less_one Suc_diff_1 sorted_nth_mono diff_less_Suc less_imp_diff_less)
  show "j \<le> length str \<Longrightarrow> p < j \<Longrightarrow> \<not> prefix sub (drop j str)"
    using le [of j] by (auto simp: less_Suc_eq_le simp del: upt_Suc)
qed

lemma str_rfind_None: "str_rfind str sub = None \<longleftrightarrow> (\<forall>j \<le> length str. \<not> prefix sub (drop j str))"
  by (auto simp: str_rfind_def Let_def filter_empty_conv less_Suc_eq_le simp del: upt_Suc)

lemma StartWith_prefix: "StartWith str sub \<longleftrightarrow> prefix sub str"
proof
  assume "StartWith str sub"
  then show "prefix sub str" using str_find_Some(2) [of str sub 0 0] by (simp add: StartWith_def)
next
  assume "prefix sub str"
  then show "StartWith str sub"
    by (cases str) (auto simp: StartWith_def str_find_def)
qed

lemma EndWith_suffix: "EndWith str sub \<longleftrightarrow> suffix sub str"
proof
  assume "EndWith str sub"
  then obtain p where p: "str_rfind str sub = Some p" "p + length sub = length str"
    by (auto simp: EndWith_def split: option.splits)
  from str_rfind_Some(2) [OF p(1)] obtain r where "drop p str = sub @ r" by (auto simp: prefix_def)
  moreover from this have "length str - p = length sub + length r" by (metis length_append length_drop)
  then have "r = []" using p(2) by (metis add_diff_cancel_left' add_eq_self_zero length_0_conv)
  ultimately show "suffix sub str" by (metis append_Nil2 suffix_drop)
next
  assume "suffix sub str"
  then obtain u where str: "str = u @ sub" by (auto simp: suffix_def)
  have at: "prefix sub (drop (length u) str)" by (simp add: str)
  then obtain p where p: "str_rfind str sub = Some p"
    using str_rfind_None [of str sub] at str by (metis le_add1 length_append not_None_eq)
  have "\<not> p < length u" using str_rfind_Some(3) [OF p, of "length u"] at by (auto simp: str)
  moreover have "p + length sub \<le> length str"
    using str_rfind_Some(1,2) [OF p] prefix_length_le by fastforce
  ultimately have "p = length u" by (simp add: str)
  then show "EndWith str sub" using p by (simp add: EndWith_def str)
qed

text \<open>Unescaping undoes escaping.\<close>

lemma unescape_escape_char: "unescape_loop False (escape_char c @ cs) = c # unescape_loop False cs"
  by (simp add: unescape_char_def)

lemma unescape_escape: "UnescapeJsonStringValue (EscapeJsonStringValue s) = s"
  unfolding UnescapeJsonStringValue_def EscapeJsonStringValue_def
  by (induction s) (simp_all add: unescape_escape_char del: escape_char.simps)

text \<open>An escaped text has no bare quote and no control character that JSON forbids by name.\<close>

lemma escape_no_newline:
  "c \<in> {CHR 0x08, CHR 0x09, CHR 0x0A, CHR 0x0C, CHR 0x0D} \<Longrightarrow> c \<notin> set (EscapeJsonStringValue s)"
  by (auto simp: EscapeJsonStringValue_def split: if_splits)

text \<open>Erasing a non-empty text always returns; erasing the empty text never does.\<close>

lemma EraseString_returns:
  assumes "toErase \<noteq> []"
  shows "\<exists>s. EraseString input toErase = Some s"
proof -
  have "\<exists>s. erase_loop toErase out pos = Some s" for out pos
  proof (induction "length out" arbitrary: out pos rule: less_induct)
    case less
    show ?case
    proof (cases "str_find out toErase pos")
      case (Some p)
      have "length (take p out @ drop (p + length toErase) out) < length out"
        using str_find_bounds [OF Some] assms by (cases toErase) auto
      from less [OF this] Some show ?thesis by (simp add: erase_loop.simps [of toErase out pos])
    qed (simp add: erase_loop.simps)
  qed
  then show ?thesis by (auto simp: EraseString_def)
qed

lemma erase_loop_empty:
  assumes "erase_loop toErase out pos = Some s"
  shows "pos \<le> length out \<longrightarrow> toErase \<noteq> []"
proof (rule erase_loop.raw_induct [OF _ assms])
  fix loop :: "string \<Rightarrow> string \<Rightarrow> nat \<Rightarrow> string option" and toErase out pos s
  assume IH: "\<And>toErase out pos s. loop toErase out pos = Some s \<Longrightarrow> pos \<le> length out \<longrightarrow> toErase \<noteq> []"
    and run: "(case str_find out toErase pos of None \<Rightarrow> Some out
      | Some p \<Rightarrow> loop toErase (take p out @ drop (p + length toErase) out) (if p = 0 then 0 else p - 1)) = Some s"
  show "pos \<le> length out \<longrightarrow> toErase \<noteq> []"
  proof (cases "str_find out toErase pos")
    case None
    then show ?thesis using str_find_None [of pos out toErase] by auto
  next
    case (Some p)
    then have "loop toErase (take p out @ drop (p + length toErase) out) (if p = 0 then 0 else p - 1) = Some s"
      using run by simp
    from IH [OF this] str_find_bounds [OF Some] show ?thesis by (auto split: if_splits)
  qed
qed

lemma EraseString_empty: "EraseString input [] = None"
  using erase_loop_empty [of "[]" input 0] by (cases "EraseString input []") (auto simp: EraseString_def)

text \<open>Every path of a single character counts as a traversal: \<open>1 - 2\<close> is \<open>npos\<close>.\<close>

lemma one_character_traversal: "ContainsPathTraversal [c]"
proof -
  have "str_rfind [c] ''..'' = None" by (simp add: str_rfind_def)
  then show ?thesis by (simp add: ContainsPathTraversal_def pos_of_def npos_def)
qed

section \<open>Splitting what was joined\<close>

fun join_with :: "char \<Rightarrow> string list \<Rightarrow> string" where
  "join_with d [] = []"
| "join_with d [p] = p"
| "join_with d (p # q # ps) = p @ d # join_with d (q # ps)"

text \<open>A part that \<open>SplitStr\<close> gives back: not empty, without the separator and without blanks.\<close>

definition plain_part :: "char \<Rightarrow> string \<Rightarrow> bool" where
  "plain_part d p \<longleftrightarrow> p \<noteq> [] \<and> d \<notin> set p \<and> CHR '' '' \<notin> set p"

lemma dropWhile_not_in: "c \<notin> set p \<Longrightarrow> dropWhile (\<lambda>x. x = c) p = p"
  by (cases p) auto

lemma trim_if_plain: "CHR '' '' \<notin> set p \<Longrightarrow> trim_if b p = p"
  by (simp add: trim_if_def TrimStr_def dropWhile_not_in)

lemma find_in_sep: "d \<notin> set p \<Longrightarrow> find_in [d] (p @ d # rest) i = Some (i + length p)"
  by (induction p arbitrary: i) (auto simp: prefix_Cons)

lemma find_in_no_sep: "d \<notin> set p \<Longrightarrow> find_in [d] p i = None"
  by (induction p arbitrary: i) (auto simp: prefix_Cons)

lemma split_loop_join:
  assumes "ps \<noteq> []" "\<forall>p \<in> set ps. plain_part d p"
  shows "split_loop [d] canEmpty needTrim (join_with d ps) strs = strs @ ps"
  using assms
proof (induction d ps arbitrary: strs rule: join_with.induct)
  case (2 d p)
  then have p: "d \<notin> set p" "CHR '' '' \<notin> set p" "p \<noteq> []" by (auto simp: plain_part_def)
  show ?case
    using p by (simp add: split_loop.simps [of _ _ _ p] str_find_def find_in_no_sep trim_if_plain push_part_def)
next
  case (3 d p q ps)
  then have p: "d \<notin> set p" "CHR '' '' \<notin> set p" "p \<noteq> []" by (auto simp: plain_part_def)
  have "split_loop [d] canEmpty needTrim (join_with d (p # q # ps)) strs =
      split_loop [d] canEmpty needTrim (join_with d (q # ps)) (strs @ [p])"
    using p by (simp add: split_loop.simps [of _ _ _ "p @ d # join_with d (q # ps)"] str_find_def find_in_sep
        trim_if_plain push_part_def)
  with 3 show ?case by simp
qed simp

lemma join_with_set: "set (join_with d ps) \<subseteq> insert d (\<Union> (set ` set ps))"
  by (induction d ps rule: join_with.induct) auto

lemma SplitStr_join:
  assumes "ps \<noteq> []" "\<forall>p \<in> set ps. plain_part d p" "d \<noteq> CHR '' ''"
  shows "SplitStr (join_with d ps) [d] canEmpty needTrim = ps"
proof -
  have "CHR '' '' \<notin> set (join_with d ps)"
    using join_with_set [of d ps] assms(2,3) by (auto simp: plain_part_def)
  then show ?thesis using split_loop_join [OF assms(1,2)] by (simp add: SplitStr_def trim_if_plain)
qed

end
