(* ===== verification/Event_Db_File.thy ===== *)
theory Event_Db_File
  imports Doc_Format String_Util
begin

text \<open>
  The names of the event store's files (base/event_store/utility/base/event_db_file_util.cpp):
  \<open>NAME-TYPE-LEVEL-SEQ-REPORT_INTERVAL.db\<close> in a directory named after the domain. The suffix
  stays in the last part and is skipped because number reading stops at the dot.
  \<open>ExtractFileName\<close> belongs to the C utilities and is a parameter.
\<close>

section \<open>Model\<close>

text \<open>\<open>StringUtil::ConvertStringTo\<close>: a text of blanks only leaves the target as it is.\<close>

definition ConvertStringTo :: "nat \<Rightarrow> string \<Rightarrow> int \<Rightarrow> int" where
  "ConvertStringTo w in_str out =
     (if dropWhile is_space in_str = [] then out else stream_signed w in_str)"

record splited_event_info =
  siName :: string
  siType :: u8
  siLevel :: string
  siSeq :: int
  siReportInterval :: int

definition NOT_CFG_REPORT_INTERVAL :: int where "NOT_CFG_REPORT_INTERVAL = - 1"

definition new_splited_info :: splited_event_info where
  "new_splited_info = \<lparr>siName = [], siType = 0, siLevel = [], siSeq = 0,
     siReportInterval = NOT_CFG_REPORT_INTERVAL\<rparr>"

type_synonym parse_type = u8

definition ALL_INFO :: parse_type where "ALL_INFO = 0xFF"

definition NAME_ONLY :: parse_type where "NAME_ONLY = 0x01"

definition TYPE_ONLY :: parse_type where "TYPE_ONLY = 0x02"

definition LEVEL_ONLY :: parse_type where "LEVEL_ONLY = 0x04"

definition SEQ_ONLY :: parse_type where "SEQ_ONLY = 0x08"

definition REPORT_INTERVAL_ONLY :: parse_type where "REPORT_INTERVAL_ONLY = 0x10"

lemmas parse_type_defs = ALL_INFO_def NAME_ONLY_def TYPE_ONLY_def LEVEL_ONLY_def SEQ_ONLY_def
  REPORT_INTERVAL_ONLY_def

definition IsValidDomainName :: "string \<Rightarrow> nat \<Rightarrow> bool" where
  "IsValidDomainName content lenLimit =
     (if length content \<ge> lenLimit then False
      else list_all (\<lambda>c. is_digit c \<or> is_lower c \<or> is_upper c \<or> c = CHR ''_'') content)"

definition IsValidType :: "int \<Rightarrow> bool" where
  "IsValidType type_int \<longleftrightarrow> type_int = 1 \<or> type_int = 2 \<or> type_int = 3 \<or> type_int = 4"

text \<open>The four steps of \<open>ParseVer1DbFileName\<close>; \<open>None\<close> is \<open>return false\<close>.\<close>

definition parse_name :: "string list \<Rightarrow> parse_type \<Rightarrow> splited_event_info \<Rightarrow> splited_event_info option" where
  "parse_name eventInfoList parseType info =
     (if parseType AND NAME_ONLY = 0 then Some info
      else let nm = eventInfoList ! 0 in
           if IsValidDomainName nm MAX_EVENT_NAME_LEN then Some (info\<lparr>siName := nm\<rparr>) else None)"

definition parse_event_type :: "string list \<Rightarrow> parse_type \<Rightarrow> splited_event_info \<Rightarrow> splited_event_info option" where
  "parse_event_type eventInfoList parseType info =
     (if parseType AND TYPE_ONLY = 0 then Some info
      else let ty = ConvertStringTo 32 (eventInfoList ! 1) 0 in
           if IsValidType ty then Some (info\<lparr>siType := word_of_int ty\<rparr>) else None)"

definition parse_level :: "string list \<Rightarrow> parse_type \<Rightarrow> splited_event_info \<Rightarrow> splited_event_info option" where
  "parse_level eventInfoList parseType info =
     (if parseType AND LEVEL_ONLY = 0 then Some info
      else let level = eventInfoList ! 2 in
           if level = ''CRITICAL'' \<or> level = ''MINOR'' then Some (info\<lparr>siLevel := level\<rparr>) else None)"

definition parse_seq :: "string list \<Rightarrow> parse_type \<Rightarrow> splited_event_info \<Rightarrow> splited_event_info option" where
  "parse_seq eventInfoList parseType info =
     (if parseType AND SEQ_ONLY = 0 then Some info
      else let sq = ConvertStringTo 64 (eventInfoList ! 3) (siSeq info) in
           if sq \<le> 0 then None else Some (info\<lparr>siSeq := sq\<rparr>))"

definition ParseVer1DbFileName ::
    "string list \<Rightarrow> splited_event_info \<Rightarrow> parse_type \<Rightarrow> splited_event_info option" where
  "ParseVer1DbFileName eventInfoList info parseType =
     Option.bind (parse_name eventInfoList parseType info) (\<lambda>i1.
     Option.bind (parse_event_type eventInfoList parseType i1) (\<lambda>i2.
     Option.bind (parse_level eventInfoList parseType i2) (\<lambda>i3.
     parse_seq eventInfoList parseType i3)))"

definition ParseCurVersionDbFileName ::
    "string list \<Rightarrow> splited_event_info \<Rightarrow> parse_type \<Rightarrow> splited_event_info option" where
  "ParseCurVersionDbFileName eventInfoList info parseType =
     Option.bind (ParseVer1DbFileName eventInfoList info parseType) (\<lambda>i.
       if parseType AND REPORT_INTERVAL_ONLY = 0 then Some i
       else let interval = ConvertStringTo 16 (eventInfoList ! 4) (siReportInterval i) in
            if interval < 0 then None else Some (i\<lparr>siReportInterval := interval\<rparr>))"

text \<open>
  \<open>ParseEventInfoFromDbFileName\<close>, with the choice of the parser by the number of parts. The
  callers read \<open>info\<close> only when it returns true.
\<close>

definition ParseEventInfoFromDbFileName ::
    "string \<Rightarrow> splited_event_info \<Rightarrow> parse_type \<Rightarrow> splited_event_info option" where
  "ParseEventInfoFromDbFileName fileName info parseType =
     (let eventInfoList = SplitStr fileName ''-'' False True in
      if length eventInfoList = 4 then ParseVer1DbFileName eventInfoList info parseType
      else if length eventInfoList = 5 then ParseCurVersionDbFileName eventInfoList info parseType
      else None)"

definition IsValidDbDir :: "(string \<Rightarrow> string) \<Rightarrow> string \<Rightarrow> bool" where
  "IsValidDbDir ExtractFileName dir = IsValidDomainName (ExtractFileName dir) MAX_DOMAIN_LEN"

definition IsValidDbFilePath :: "(string \<Rightarrow> string) \<Rightarrow> string \<Rightarrow> bool" where
  "IsValidDbFilePath ExtractFileName filePath =
     (ParseEventInfoFromDbFileName (ExtractFileName filePath) new_splited_info ALL_INFO \<noteq> None)"

definition IsMatchedDbFilePath :: "(string \<Rightarrow> string) \<Rightarrow> string \<Rightarrow> int option \<Rightarrow> bool" where
  "IsMatchedDbFilePath ExtractFileName filePath sysEventInterval =
     (case sysEventInterval of
        None \<Rightarrow> False
      | Some interval \<Rightarrow>
          (let eventInfoList = SplitStr (ExtractFileName filePath) ''-'' False True in
           if length eventInfoList \<noteq> 5 then False
           else ConvertStringTo 16 (eventInfoList ! 4) NOT_CFG_REPORT_INTERVAL = interval))"

text \<open>The file name \<open>SysEventDoc::CreateCurFile\<close> makes.\<close>

definition db_file_name :: "string \<Rightarrow> int \<Rightarrow> string \<Rightarrow> int \<Rightarrow> int \<Rightarrow> string" where
  "db_file_name nm ty level sq reportInterval =
     nm @ ''-'' @ show_int ty @ ''-'' @ level @ ''-'' @ show_int sq @ ''-'' @ show_int reportInterval @ ''.db''"

section \<open>Lemmas\<close>

lemma read_digits_stop:
  "digit_value c = None \<Longrightarrow> read_digits b acc (ds @ c # rest) = read_digits b acc ds"
  by (induction b acc ds rule: read_digits.induct) (auto split: option.splits)

lemma show_nat_no_space: "c \<in> set (show_nat n) \<Longrightarrow> is_digit c"
  unfolding show_nat_def
proof (induction n rule: less_induct)
  case (less n)
  have d: "is_digit (digit_char k)" if "k < 10" for k
    using that by (auto simp: is_digit_def digit_char_def less_Suc_eq eval_nat_numeral)
  show ?case
  proof (cases "n < 10")
    case True
    with less(2) d [of n] show ?thesis by (simp add: show_base.simps)
  next
    case False
    with less(2) have "c \<in> set (show_base 10 (n div 10)) \<or> c = digit_char (n mod 10 mod 16)"
      by (subst (asm) show_base.simps) auto
    with less(1) [of "n div 10"] d [of "n mod 10"] False show ?thesis by auto
  qed
qed

lemma show_nat_nonempty [simp]: "show_nat n \<noteq> []"
  unfolding show_nat_def by (subst show_base.simps) simp

lemma digit_is_plain: "is_digit c \<Longrightarrow> c \<noteq> CHR ''-'' \<and> c \<noteq> CHR '' '' \<and> \<not> is_space c \<and> c \<noteq> CHR ''+''"
  by (auto simp: is_digit_def is_space_def)

lemma show_nat_plain: "plain_part (CHR ''-'') (show_nat n)"
  using show_nat_no_space digit_is_plain by (auto simp: plain_part_def)

text \<open>Reading a printed number, also when the file name suffix follows.\<close>

lemma stream_signed_show:
  assumes "int n < 2 ^ (w - 1)" "rest = [] \<or> digit_value (hd rest) = None"
  shows "stream_signed w (show_nat n @ rest) = int n"
proof -
  obtain c cs where s: "show_nat n = c # cs" by (cases "show_nat n") auto
  then have c: "is_digit c" using show_nat_no_space [of c n] by simp
  have "read_digits 10 0 (show_nat n @ rest) = read_digits 10 0 (show_nat n)"
    using assms(2) read_digits_stop [of "hd rest" 10 0 "show_nat n" "tl rest"] by (cases rest) auto
  also have "\<dots> = n" unfolding show_nat_def using read_digits_show_base [of 10] by simp
  finally show ?thesis
    using assms(1) digit_is_plain [OF c] s by (simp add: stream_signed_def)
qed

lemma ConvertStringTo_show:
  assumes "int n < 2 ^ (w - 1)" "rest = [] \<or> digit_value (hd rest) = None"
  shows "ConvertStringTo w (show_nat n @ rest) out = int n"
proof -
  obtain c cs where s: "show_nat n = c # cs" by (cases "show_nat n") auto
  then have "\<not> is_space c" using show_nat_no_space [of c n] digit_is_plain by auto
  then show ?thesis using stream_signed_show [OF assms] by (simp add: ConvertStringTo_def s)
qed

definition picked :: "parse_type \<Rightarrow> parse_type \<Rightarrow> 'a \<Rightarrow> 'a \<Rightarrow> 'a" where
  "picked parseType flag new old = (if parseType AND flag = 0 then old else new)"

lemma domain_chars_plain:
  assumes "IsValidDomainName nm n" "nm \<noteq> []"
  shows "plain_part (CHR ''-'') nm"
proof -
  have "is_digit c \<or> is_lower c \<or> is_upper c \<or> c = CHR ''_''" if "c \<in> set nm" for c
    using assms(1) that by (auto simp: IsValidDomainName_def list_all_iff split: if_splits)
  from this [of "CHR ''-''"] this [of "CHR '' ''"] assms(2) show ?thesis
    by (auto simp: plain_part_def is_digit_def is_lower_def is_upper_def)
qed

lemma db_file_name_parts:
  assumes "0 \<le> ty" "0 \<le> sq" "0 \<le> interval"
  shows "db_file_name nm ty level sq interval =
    join_with (CHR ''-'') [nm, show_nat (nat ty), level, show_nat (nat sq), show_nat (nat interval) @ ''.db'']"
  using assms by (simp add: db_file_name_def show_int_def)

lemma split_db_file_name:
  assumes "IsValidDomainName nm n" "nm \<noteq> []" "level = ''CRITICAL'' \<or> level = ''MINOR''"
    and "0 \<le> ty" "0 \<le> sq" "0 \<le> interval"
  shows "SplitStr (db_file_name nm ty level sq interval) ''-'' False True =
    [nm, show_nat (nat ty), level, show_nat (nat sq), show_nat (nat interval) @ ''.db'']"
proof -
  have "plain_part (CHR ''-'') level" using assms(3) by (auto simp: plain_part_def)
  moreover have "plain_part (CHR ''-'') (show_nat (nat interval) @ ''.db'')"
    using show_nat_plain [of "nat interval"] by (auto simp: plain_part_def)
  ultimately show ?thesis
    unfolding db_file_name_parts [OF assms(4-6)]
    using domain_chars_plain [OF assms(1,2)] show_nat_plain by (intro SplitStr_join) auto
qed

text \<open>The name the store gives a file is read back as what it was made of.\<close>

lemma parse_db_file_name:
  assumes "IsValidDomainName nm MAX_EVENT_NAME_LEN" "nm \<noteq> []" "level = ''CRITICAL'' \<or> level = ''MINOR''"
    and "IsValidType ty" "0 < sq" "sq < 2 ^ 63" "0 \<le> interval" "interval < 2 ^ 15"
  shows "ParseEventInfoFromDbFileName (db_file_name nm ty level sq interval) info parseType =
    Some \<lparr>siName = picked parseType NAME_ONLY nm (siName info),
      siType = picked parseType TYPE_ONLY (word_of_int ty) (siType info),
      siLevel = picked parseType LEVEL_ONLY level (siLevel info),
      siSeq = picked parseType SEQ_ONLY sq (siSeq info),
      siReportInterval = picked parseType REPORT_INTERVAL_ONLY interval (siReportInterval info)\<rparr>"
proof -
  have ty: "0 \<le> ty" "ty < 5" using assms(4) by (auto simp: IsValidType_def)
  let ?l = "[nm, show_nat (nat ty), level, show_nat (nat sq), show_nat (nat interval) @ ''.db'']"
  have n: "ConvertStringTo 32 (show_nat (nat ty)) out = ty" "ConvertStringTo 64 (show_nat (nat sq)) out = sq"
    "ConvertStringTo 16 (show_nat (nat interval) @ ''.db'') out = interval" for out
    using ConvertStringTo_show [of "nat ty" 32 "[]" out] ConvertStringTo_show [of "nat sq" 64 "[]" out]
      ConvertStringTo_show [of "nat interval" 16 "''.db''" out] ty assms(5-8)
    by (simp_all add: digit_value_def)
  have s: "SplitStr (db_file_name nm ty level sq interval) ''-'' False True = ?l"
    using split_db_file_name [OF assms(1-3)] ty(1) assms(5,7) by simp
  have "parse_name ?l parseType info = Some (info\<lparr>siName := picked parseType NAME_ONLY nm (siName info)\<rparr>)" for info
    using assms(1) by (cases info) (simp add: parse_name_def picked_def)
  moreover have "parse_event_type ?l parseType info =
      Some (info\<lparr>siType := picked parseType TYPE_ONLY (word_of_int ty) (siType info)\<rparr>)" for info
    using assms(4) n(1) by (cases info) (simp add: parse_event_type_def picked_def)
  moreover have "parse_level ?l parseType info =
      Some (info\<lparr>siLevel := picked parseType LEVEL_ONLY level (siLevel info)\<rparr>)" for info
    using assms(3) by (cases info) (simp add: parse_level_def picked_def Let_def numeral_2_eq_2)
  moreover have "parse_seq ?l parseType info =
      Some (info\<lparr>siSeq := picked parseType SEQ_ONLY sq (siSeq info)\<rparr>)" for info
    using assms(5) n(2) by (cases info) (simp add: parse_seq_def picked_def numeral_3_eq_3)
  ultimately have v1: "ParseVer1DbFileName ?l info parseType =
      Some (info\<lparr>siName := picked parseType NAME_ONLY nm (siName info),
        siType := picked parseType TYPE_ONLY (word_of_int ty) (siType info),
        siLevel := picked parseType LEVEL_ONLY level (siLevel info),
        siSeq := picked parseType SEQ_ONLY sq (siSeq info)\<rparr>)"
    by (simp add: ParseVer1DbFileName_def)
  have "?l ! 4 = show_nat (nat interval) @ ''.db''" by (simp add: nth_Cons')
  then show ?thesis
    using v1 n(3) assms(7) s
    by (cases info) (simp add: ParseEventInfoFromDbFileName_def ParseCurVersionDbFileName_def picked_def)
qed

end
