(* ===== verification/Doc_Query.thy ===== *)
theory Doc_Query
  imports Doc_Format String_Util Decoded_Event
begin

text \<open>
  Conditions on stored events (base/event_store/dao/sys_event_query.cpp, dao/doc_query.cpp and
  their headers): numbers of three kinds and their comparisons, field values, nested conditions
  and how a document query keeps and evaluates them. Doubles are their bit patterns; a finite one
  is an integer multiple of \<open>2 ^ -1074\<close>, and subtraction and the conversion from integers round
  to the nearest 53-bit value, ties to even.
\<close>

section \<open>Double arithmetic\<close>

datatype dbl = NaN | Infinite bool | Finite int

definition dbl_of :: "u64 \<Rightarrow> dbl" where
  "dbl_of w =
     (let e = double_exponent w; m = double_mantissa w; neg = double_negative w;
          a = (if e = 0 then int m else int (m + 2 ^ 52) * 2 ^ (e - 1))
      in if e = 2047 then (if m = 0 then Infinite neg else NaN)
         else Finite (if neg then - a else a))"

definition round53 :: "int \<Rightarrow> int" where
  "round53 x =
     (let a = nat \<bar>x\<bar> in
      if a < 2 ^ 53 then x
      else let k = top_bit a - 52 in sgn x * int (round_half_even a (2 ^ k) * 2 ^ k))"

definition dbl_rounded :: "int \<Rightarrow> dbl" where
  "dbl_rounded x = (let r = round53 x in if \<bar>r\<bar> \<ge> 2 ^ 2098 then Infinite (r < 0) else Finite r)"

definition dbl_of_int :: "int \<Rightarrow> dbl" where
  "dbl_of_int n = dbl_rounded (n * 2 ^ 1074)"

fun dbl_sub :: "dbl \<Rightarrow> dbl \<Rightarrow> dbl" where
  "dbl_sub (Finite x) (Finite y) = dbl_rounded (x - y)"
| "dbl_sub (Infinite s) (Finite y) = Infinite s"
| "dbl_sub (Finite x) (Infinite s) = Infinite (\<not> s)"
| "dbl_sub (Infinite s) (Infinite t) = (if s = t then NaN else Infinite s)"
| "dbl_sub a b = NaN"

fun dbl_abs :: "dbl \<Rightarrow> dbl" where
  "dbl_abs (Finite x) = Finite \<bar>x\<bar>"
| "dbl_abs (Infinite s) = Infinite False"
| "dbl_abs NaN = NaN"

fun dbl_less :: "dbl \<Rightarrow> dbl \<Rightarrow> bool" where
  "dbl_less (Finite x) (Finite y) \<longleftrightarrow> x < y"
| "dbl_less (Infinite s) (Finite y) \<longleftrightarrow> s"
| "dbl_less (Finite x) (Infinite s) \<longleftrightarrow> \<not> s"
| "dbl_less (Infinite s) (Infinite t) \<longleftrightarrow> s \<and> \<not> t"
| "dbl_less a b \<longleftrightarrow> False"

fun dbl_le :: "dbl \<Rightarrow> dbl \<Rightarrow> bool" where
  "dbl_le NaN b \<longleftrightarrow> False"
| "dbl_le a NaN \<longleftrightarrow> False"
| "dbl_le a b \<longleftrightarrow> \<not> dbl_less b a"

text \<open>\<open>constexpr double ESP = 0.0000001\<close>\<close>

definition ESP :: dbl where "ESP = dbl_of 0x3E7AD7F29ABCAF48"

section \<open>Numbers\<close>

datatype field_number = NumDouble u64 | NumUint u64 | NumInt i64

fun is_double :: "field_number \<Rightarrow> bool" where
  "is_double (NumDouble d) \<longleftrightarrow> True"
| "is_double n \<longleftrightarrow> False"

fun is_int :: "field_number \<Rightarrow> bool" where
  "is_int (NumInt i) \<longleftrightarrow> True"
| "is_int n \<longleftrightarrow> False"

fun GetNumber_double :: "field_number \<Rightarrow> dbl" where
  "GetNumber_double (NumDouble d) = dbl_of d"
| "GetNumber_double (NumUint u) = dbl_of_int (uint u)"
| "GetNumber_double (NumInt i) = dbl_of_int (sint i)"

text \<open>
  \<open>GetNumber<uint64_t>\<close> and \<open>GetNumber<int64_t>\<close> reinterpret the 64 bits; they are not used on
  doubles.
\<close>

fun GetNumber_bits :: "field_number \<Rightarrow> u64" where
  "GetNumber_bits (NumDouble d) = d"
| "GetNumber_bits (NumUint u) = u"
| "GetNumber_bits (NumInt i) = i"

definition dbl_close :: "field_number \<Rightarrow> field_number \<Rightarrow> bool" where
  "dbl_close a b = dbl_le (dbl_abs (dbl_sub (GetNumber_double a) (GetNumber_double b))) ESP"

definition dbl_apart :: "field_number \<Rightarrow> field_number \<Rightarrow> bool" where
  "dbl_apart a b = dbl_less ESP (dbl_abs (dbl_sub (GetNumber_double a) (GetNumber_double b)))"

definition num_eq :: "field_number \<Rightarrow> field_number \<Rightarrow> bool" where
  "num_eq a b =
     (if is_double a \<or> is_double b then dbl_close a b
      else if is_int a = is_int b then
        (if is_int a then sint (GetNumber_bits a) = sint (GetNumber_bits b)
         else uint (GetNumber_bits a) = uint (GetNumber_bits b))
      else if is_int a then sint (GetNumber_bits a) \<ge> 0 \<and> uint (GetNumber_bits a) = uint (GetNumber_bits b)
      else sint (GetNumber_bits b) \<ge> 0 \<and> uint (GetNumber_bits b) = uint (GetNumber_bits a))"

definition num_ne :: "field_number \<Rightarrow> field_number \<Rightarrow> bool" where
  "num_ne a b =
     (if is_double a \<or> is_double b then dbl_apart a b
      else if is_int a = is_int b then
        (if is_int a then sint (GetNumber_bits a) \<noteq> sint (GetNumber_bits b)
         else uint (GetNumber_bits a) \<noteq> uint (GetNumber_bits b))
      else if is_int a then sint (GetNumber_bits a) < 0 \<or> uint (GetNumber_bits a) \<noteq> uint (GetNumber_bits b)
      else sint (GetNumber_bits b) < 0 \<or> uint (GetNumber_bits b) \<noteq> uint (GetNumber_bits a))"

definition num_lt :: "field_number \<Rightarrow> field_number \<Rightarrow> bool" where
  "num_lt a b =
     (if is_double a \<or> is_double b then dbl_apart a b \<and> dbl_less (GetNumber_double a) (GetNumber_double b)
      else if is_int a = is_int b then
        (if is_int a then sint (GetNumber_bits a) < sint (GetNumber_bits b)
         else uint (GetNumber_bits a) < uint (GetNumber_bits b))
      else if is_int a then sint (GetNumber_bits a) < 0 \<or> uint (GetNumber_bits a) < uint (GetNumber_bits b)
      else sint (GetNumber_bits b) \<ge> 0 \<and> uint (GetNumber_bits a) < uint (GetNumber_bits b))"

definition num_le :: "field_number \<Rightarrow> field_number \<Rightarrow> bool" where
  "num_le a b =
     (if is_double a \<or> is_double b then dbl_close a b \<or> dbl_less (GetNumber_double a) (GetNumber_double b)
      else if is_int a = is_int b then
        (if is_int a then sint (GetNumber_bits a) \<le> sint (GetNumber_bits b)
         else uint (GetNumber_bits a) \<le> uint (GetNumber_bits b))
      else if is_int a then sint (GetNumber_bits a) < 0 \<or> uint (GetNumber_bits a) \<le> uint (GetNumber_bits b)
      else sint (GetNumber_bits b) \<ge> 0 \<and> uint (GetNumber_bits a) \<le> uint (GetNumber_bits b))"

definition num_gt :: "field_number \<Rightarrow> field_number \<Rightarrow> bool" where
  "num_gt a b =
     (if is_double a \<or> is_double b then dbl_apart a b \<and> dbl_less (GetNumber_double b) (GetNumber_double a)
      else if is_int a = is_int b then
        (if is_int a then sint (GetNumber_bits a) > sint (GetNumber_bits b)
         else uint (GetNumber_bits a) > uint (GetNumber_bits b))
      else if is_int a then sint (GetNumber_bits a) \<ge> 0 \<and> uint (GetNumber_bits a) > uint (GetNumber_bits b)
      else sint (GetNumber_bits b) < 0 \<or> uint (GetNumber_bits a) > uint (GetNumber_bits b))"

definition num_ge :: "field_number \<Rightarrow> field_number \<Rightarrow> bool" where
  "num_ge a b =
     (if is_double a \<or> is_double b then dbl_close a b \<or> dbl_less (GetNumber_double b) (GetNumber_double a)
      else if is_int a = is_int b then
        (if is_int a then sint (GetNumber_bits a) \<ge> sint (GetNumber_bits b)
         else uint (GetNumber_bits a) \<ge> uint (GetNumber_bits b))
      else if is_int a then sint (GetNumber_bits a) \<ge> 0 \<and> uint (GetNumber_bits a) \<ge> uint (GetNumber_bits b)
      else sint (GetNumber_bits b) < 0 \<or> uint (GetNumber_bits a) \<ge> uint (GetNumber_bits b))"

fun FieldNumber_FormatAsString :: "field_number \<Rightarrow> string" where
  "FieldNumber_FormatAsString (NumDouble d) = to_string_double d"
| "FieldNumber_FormatAsString (NumUint u) = show_nat (unat u)"
| "FieldNumber_FormatAsString (NumInt i) = show_int (sint i)"

section \<open>Field values\<close>

datatype field_value = FieldString string | FieldNum field_number

text \<open>\<open>std::string\<close> compares its characters as unsigned bytes.\<close>

fun str_less :: "string \<Rightarrow> string \<Rightarrow> bool" where
  "str_less [] [] \<longleftrightarrow> False"
| "str_less [] (d # ds) \<longleftrightarrow> True"
| "str_less (c # cs) [] \<longleftrightarrow> False"
| "str_less (c # cs) (d # ds) \<longleftrightarrow>
     (of_char c :: nat) < of_char d \<or> c = d \<and> str_less cs ds"

fun value_compare :: "(field_number \<Rightarrow> field_number \<Rightarrow> bool) \<Rightarrow> (string \<Rightarrow> string \<Rightarrow> bool) \<Rightarrow>
    field_value \<Rightarrow> field_value \<Rightarrow> bool" where
  "value_compare cmpNum cmpStr (FieldNum a) (FieldNum b) = cmpNum a b"
| "value_compare cmpNum cmpStr (FieldString a) (FieldString b) = cmpStr a b"
| "value_compare cmpNum cmpStr a b = False"

definition value_eq :: "field_value \<Rightarrow> field_value \<Rightarrow> bool" where
  "value_eq = value_compare num_eq (=)"

definition value_ne :: "field_value \<Rightarrow> field_value \<Rightarrow> bool" where
  "value_ne = value_compare num_ne (\<noteq>)"

definition value_lt :: "field_value \<Rightarrow> field_value \<Rightarrow> bool" where
  "value_lt = value_compare num_lt str_less"

definition value_le :: "field_value \<Rightarrow> field_value \<Rightarrow> bool" where
  "value_le = value_compare num_le (\<lambda>a b. \<not> str_less b a)"

definition value_gt :: "field_value \<Rightarrow> field_value \<Rightarrow> bool" where
  "value_gt = value_compare num_gt (\<lambda>a b. str_less b a)"

definition value_ge :: "field_value \<Rightarrow> field_value \<Rightarrow> bool" where
  "value_ge = value_compare num_ge (\<lambda>a b. \<not> str_less a b)"

definition IsStartWith :: "field_value \<Rightarrow> field_value \<Rightarrow> bool" where
  "IsStartWith = value_compare (\<lambda>a b. False) (\<lambda>a b. str_find a b 0 = Some 0)"

definition IsNotStartWith :: "field_value \<Rightarrow> field_value \<Rightarrow> bool" where
  "IsNotStartWith = value_compare (\<lambda>a b. False) (\<lambda>a b. str_find a b 0 \<noteq> Some 0)"

fun FieldValue_FormatAsString :: "field_value \<Rightarrow> string" where
  "FieldValue_FormatAsString (FieldString s) = s"
| "FieldValue_FormatAsString (FieldNum n) = FieldNumber_FormatAsString n"

section \<open>Conditions\<close>

datatype query_op = OP_NONE | OP_EQ | OP_NE | OP_LT | OP_LE | OP_GT | OP_GE | OP_SW | OP_NSW

datatype cond = Cond (cond_col: string) (cond_op: query_op) (cond_val: field_value) (cond_ands: "cond list")

definition Cond_And :: "cond \<Rightarrow> cond \<Rightarrow> cond" where
  "Cond_And self c = Cond (cond_col self) (cond_op self) (cond_val self) (cond_ands self @ [c])"

definition IsSimpleCond :: "cond \<Rightarrow> bool" where
  "IsSimpleCond c \<longleftrightarrow> cond_col c \<noteq> [] \<and> cond_ands c = []"

definition Cond_ToString :: "cond \<Rightarrow> string" where
  "Cond_ToString c =
     (let shown = (\<lambda>opStr. cond_col c @ opStr @ FieldValue_FormatAsString (cond_val c)) in
      case cond_op c of
        OP_EQ \<Rightarrow> shown '' == '' | OP_NE \<Rightarrow> shown '' != '' | OP_GT \<Rightarrow> shown '' > ''
      | OP_GE \<Rightarrow> shown '' >= '' | OP_LT \<Rightarrow> shown '' < '' | OP_LE \<Rightarrow> shown '' <= ''
      | OP_SW \<Rightarrow> shown '' SW '' | OP_NSW \<Rightarrow> shown '' NSW '' | OP_NONE \<Rightarrow> ''INVALID COND'')"

section \<open>Document queries\<close>

record doc_query =
  innerConds :: "cond list"
  extraConds :: "cond list"

definition new_doc_query :: doc_query where
  "new_doc_query = \<lparr>innerConds = [], extraConds = []\<rparr>"

definition innerFields :: "string list" where
  "innerFields = [''seq_'', ''time_'', ''tz_'', ''pid_'', ''tid_'', ''uid_'']"

definition IsInnerCond :: "cond \<Rightarrow> bool" where
  "IsInnerCond c \<longleftrightarrow> cond_col c \<in> set innerFields"

definition DocQuery_And :: "cond \<Rightarrow> doc_query \<Rightarrow> doc_query" where
  "DocQuery_And c q =
     (if cond_col c = ''domain_'' \<or> cond_col c = ''name_'' then q
      else if IsInnerCond c then q\<lparr>innerConds := innerConds q @ [c]\<rparr>
      else q\<lparr>extraConds := extraConds q @ [c]\<rparr>)"

fun Traval :: "cond \<Rightarrow> doc_query \<Rightarrow> doc_query" where
  "Traval (Cond col op v ands) q =
     fold (\<lambda>c q. if IsSimpleCond c then DocQuery_And c q else Traval c q) ands
       (if col \<noteq> [] then DocQuery_And (Cond col op v ands) q else q)"

definition IsContainCond :: "cond \<Rightarrow> field_value \<Rightarrow> bool" where
  "IsContainCond c v =
     (case cond_op c of
        OP_EQ \<Rightarrow> value_eq v (cond_val c)
      | OP_NE \<Rightarrow> value_ne v (cond_val c)
      | OP_GT \<Rightarrow> value_gt v (cond_val c)
      | OP_GE \<Rightarrow> value_ge v (cond_val c)
      | OP_LT \<Rightarrow> value_lt v (cond_val c)
      | OP_LE \<Rightarrow> value_le v (cond_val c)
      | OP_SW \<Rightarrow> IsStartWith v (cond_val c)
      | OP_NSW \<Rightarrow> IsNotStartWith v (cond_val c)
      | OP_NONE \<Rightarrow> False)"

record inner_field =
  ifSeq :: i64
  ifTs :: u64
  ifTz :: u8
  ifUid :: u32
  ifPid :: u32
  ifTid :: u32

definition inner_field_of_bytes :: "byte list \<Rightarrow> inner_field" where
  "inner_field_of_bytes bs = \<lparr>ifSeq = u64_of_bytes bs, ifTs = u64_of_bytes (drop 8 bs), ifTz = bs ! 16,
     ifUid = u32_of_bytes (drop 17 bs), ifPid = u32_of_bytes (drop 21 bs), ifTid = u32_of_bytes (drop 25 bs)\<rparr>"

definition IsContainInnerCond :: "inner_field \<Rightarrow> cond \<Rightarrow> bool" where
  "IsContainInnerCond f c =
     (let holds = (\<lambda>v. IsContainCond c (FieldNum (NumInt v))) in
      if cond_col c = ''seq_'' then holds (ifSeq f)
      else if cond_col c = ''time_'' then holds (ifTs f)
      else if cond_col c = ''tz_'' then holds (ucast (ifTz f))
      else if cond_col c = ''uid_'' then holds (ucast (ifUid f))
      else if cond_col c = ''pid_'' then holds (ucast (ifPid f))
      else if cond_col c = ''tid_'' then holds (ucast (ifTid f))
      else False)"

definition IsContainInnerConds :: "doc_query \<Rightarrow> byte list \<Rightarrow> bool" where
  "IsContainInnerConds q content =
     (if innerConds q = [] then True
      else list_all (IsContainInnerCond (inner_field_of_bytes (drop HIVIEW_BLOCK_SIZE content))) (innerConds q))"

definition param_field :: "decoded_value \<Rightarrow> field_value option" where
  "param_field v =
     (case DecodedParam_AsInt64 v of
        Some i \<Rightarrow> Some (FieldNum (NumInt i))
      | None \<Rightarrow>
          (case DecodedParam_AsUint64 v of
             Some u \<Rightarrow> Some (FieldNum (NumUint u))
           | None \<Rightarrow>
               (case DecodedParam_AsDouble v of
                  Some d \<Rightarrow> Some (FieldNum (NumDouble d))
                | None \<Rightarrow> map_option FieldString (DecodedParam_AsString v))))"

definition extra_cond_holds :: "decoded_param list \<Rightarrow> cond \<Rightarrow> bool" where
  "extra_cond_holds extraParams c =
     (case find (\<lambda>p. dpKey p = cond_col c) extraParams of
        None \<Rightarrow> False
      | Some p \<Rightarrow>
          (case param_field (dpVal p) of None \<Rightarrow> False | Some v \<Rightarrow> IsContainCond c v))"

text \<open>Decoding may run into undefined behaviour on bytes the encoder never writes.\<close>

definition IsContainExtraConds ::
    "alloc \<Rightarrow> doc_query \<Rightarrow> byte list option \<Rightarrow> nat \<Rightarrow> undefined_behaviour + bool" where
  "IsContainExtraConds al q content len =
     (if extraConds q = [] then Inr True
      else case DecodedEvent al content len of
             Inl u \<Rightarrow> Inl u
           | Inr ev \<Rightarrow> Inr (list_all (extra_cond_holds (deParams ev)) (extraConds q)))"

text \<open>\<open>DocQuery::ToString\<close>; the last condition of a list is told by its address.\<close>

fun inner_text :: "cond list \<Rightarrow> string" where
  "inner_text [] = []"
| "inner_text [c] = Cond_ToString c"
| "inner_text (c # d # cs) = Cond_ToString c @ '' and '' @ inner_text (d # cs)"

fun extra_text :: "cond list \<Rightarrow> string" where
  "extra_text [] = []"
| "extra_text [c] = '' and '' @ Cond_ToString c"
| "extra_text (c # d # cs) = '' and '' @ Cond_ToString c @ '' and '' @ extra_text (d # cs)"

definition DocQuery_ToString :: "doc_query \<Rightarrow> string" where
  "DocQuery_ToString q = inner_text (innerConds q) @ extra_text (extraConds q)"

section \<open>Lemmas\<close>

subsection \<open>Integers of both kinds compare by value\<close>

fun num_value :: "field_number \<Rightarrow> int" where
  "num_value (NumUint u) = uint u"
| "num_value (NumInt i) = sint i"
| "num_value (NumDouble d) = 0"

lemma sint_nonneg_uint: "0 \<le> sint w \<Longrightarrow> sint w = uint w" for w :: "64 word"
  using uint_sint [of w] sint_lt [of w] by (simp add: take_bit_int_eq_self)

lemma num_compare:
  assumes "\<not> is_double a" "\<not> is_double b"
  shows "num_eq a b \<longleftrightarrow> num_value a = num_value b" "num_ne a b \<longleftrightarrow> num_value a \<noteq> num_value b"
    "num_lt a b \<longleftrightarrow> num_value a < num_value b" "num_le a b \<longleftrightarrow> num_value a \<le> num_value b"
    "num_gt a b \<longleftrightarrow> num_value a > num_value b" "num_ge a b \<longleftrightarrow> num_value a \<ge> num_value b"
proof -
  have neg: "sint w < 0 \<Longrightarrow> sint w < uint v" for w v :: "64 word"
    using uint_ge_0 [of v] by linarith
  have eqs: "sint w = uint v \<longleftrightarrow> 0 \<le> sint w \<and> uint w = uint v" "uint v = sint w \<longleftrightarrow> 0 \<le> sint w \<and> uint w = uint v"
    "sint w < uint v \<longleftrightarrow> sint w < 0 \<or> uint w < uint v" "sint w \<le> uint v \<longleftrightarrow> sint w < 0 \<or> uint w \<le> uint v"
    "uint v < sint w \<longleftrightarrow> 0 \<le> sint w \<and> uint v < uint w" "uint v \<le> sint w \<longleftrightarrow> 0 \<le> sint w \<and> uint v \<le> uint w"
    for w v :: "64 word"
    using sint_nonneg_uint [of w] neg [of w v] uint_ge_0 [of v] by linarith+
  note defs = num_eq_def num_ne_def num_lt_def num_le_def num_gt_def num_ge_def
  show "num_eq a b \<longleftrightarrow> num_value a = num_value b" "num_ne a b \<longleftrightarrow> num_value a \<noteq> num_value b"
    "num_lt a b \<longleftrightarrow> num_value a < num_value b" "num_le a b \<longleftrightarrow> num_value a \<le> num_value b"
    "num_gt a b \<longleftrightarrow> num_value a > num_value b" "num_ge a b \<longleftrightarrow> num_value a \<ge> num_value b"
    using assms by (cases a; cases b; auto simp: defs eqs)+
qed

text \<open>
  Comparisons with a double are decided by the difference: at most \<open>ESP\<close> apart counts as equal.
  When the difference is a number, exactly one of the three relations holds of two values.
\<close>

lemma dbl_close_apart:
  "dbl_sub (GetNumber_double a) (GetNumber_double b) \<noteq> NaN \<Longrightarrow> dbl_apart a b \<longleftrightarrow> \<not> dbl_close a b"
  by (cases "dbl_sub (GetNumber_double a) (GetNumber_double b)")
    (auto simp: dbl_close_def dbl_apart_def ESP_def dbl_of_def double_exponent_def Let_def)

lemma num_trichotomy_double:
  assumes "is_double a \<or> is_double b" "dbl_sub (GetNumber_double a) (GetNumber_double b) \<noteq> NaN"
  shows "num_ne a b \<longleftrightarrow> \<not> num_eq a b" "num_lt a b \<longrightarrow> \<not> num_eq a b" "num_gt a b \<longrightarrow> \<not> num_eq a b"
    "num_le a b \<longleftrightarrow> num_lt a b \<or> num_eq a b" "num_ge a b \<longleftrightarrow> num_gt a b \<or> num_eq a b"
  using assms(1) dbl_close_apart [OF assms(2)]
  by (auto simp: num_eq_def num_ne_def num_lt_def num_le_def num_gt_def num_ge_def)

text \<open>An infinite double is neither equal to itself nor different from itself.\<close>

lemma infinite_self:
  "dbl_of d = Infinite s \<Longrightarrow> \<not> num_eq (NumDouble d) (NumDouble d) \<and> \<not> num_ne (NumDouble d) (NumDouble d)"
  by (simp add: num_eq_def num_ne_def dbl_close_def dbl_apart_def)

subsection \<open>Nested conditions are conjunctions\<close>

fun all_conds :: "cond \<Rightarrow> cond list" where
  "all_conds (Cond col op v ands) =
     (if col \<noteq> [] then [Cond col op v ands] else []) @ concat (map all_conds ands)"

lemma simple_all_conds: "IsSimpleCond c \<Longrightarrow> all_conds c = [c]"
  by (cases c) (simp add: IsSimpleCond_def)

lemma Traval_all_conds: "Traval c q = fold DocQuery_And (all_conds c) q"
proof (induction c arbitrary: q)
  case (Cond col op v ands)
  have "fold (\<lambda>c q. if IsSimpleCond c then DocQuery_And c q else Traval c q) cs q =
      fold DocQuery_And (concat (map all_conds cs)) q" if "set cs \<subseteq> set ands" for cs q
    using that
  proof (induction cs arbitrary: q)
    case (Cons c cs)
    then show ?case using Cond.IH [of c] by (simp add: simple_all_conds)
  qed simp
  then show ?case by simp
qed

definition ignored_cond :: "cond \<Rightarrow> bool" where
  "ignored_cond c \<longleftrightarrow> cond_col c = ''domain_'' \<or> cond_col c = ''name_''"

lemma fold_And_conds:
  "innerConds (fold DocQuery_And cs q) = innerConds q @ filter (\<lambda>c. \<not> ignored_cond c \<and> IsInnerCond c) cs"
  "extraConds (fold DocQuery_And cs q) = extraConds q @ filter (\<lambda>c. \<not> ignored_cond c \<and> \<not> IsInnerCond c) cs"
  by (induction cs arbitrary: q) (auto simp: DocQuery_And_def ignored_cond_def)

text \<open>A built query selects what satisfies each of its conditions.\<close>

lemma Traval_inner:
  "IsContainInnerConds (Traval c new_doc_query) content \<longleftrightarrow>
    (\<forall>d \<in> set (all_conds c). \<not> ignored_cond d \<longrightarrow> IsInnerCond d \<longrightarrow>
      IsContainInnerCond (inner_field_of_bytes (drop HIVIEW_BLOCK_SIZE content)) d)"
  by (auto simp: IsContainInnerConds_def Traval_all_conds fold_And_conds new_doc_query_def list_all_iff
      filter_empty_conv)

lemma Traval_extra:
  assumes "DecodedEvent al content len = Inr ev"
  shows "IsContainExtraConds al (Traval c new_doc_query) content len =
    Inr (\<forall>d \<in> set (all_conds c). \<not> ignored_cond d \<longrightarrow> \<not> IsInnerCond d \<longrightarrow>
      extra_cond_holds (deParams ev) d)"
  using assms
  by (auto simp: IsContainExtraConds_def Traval_all_conds fold_And_conds new_doc_query_def list_all_iff
      filter_empty_conv)

end
