(* ===== verification/Doc_Reader.thy ===== *)
theory Doc_Reader
  imports Content_Reader Event_Db_File Doc_Query
begin

text \<open>
  Reading a document file (base/event_store/utility/reader/sys_event_doc_reader.cpp): the object
  with its stream and what it knows about the file, the header, the loop over the pages and
  their content blocks, and the callbacks that collect the events of a query or look for the
  largest sequence number. The page loop may not end on a file of two gigabytes, so that it is a
  partial function. \<open>al\<close> is the allocator of the content buffers, \<open>stk\<close> and \<open>junk\<close> are memory that
  the sources read before it is written.
\<close>

section \<open>The reader object\<close>

record doc_reader =
  drIn :: ifstream
  drFileSize :: int
  drPageSize :: nat
  drVersion :: u8
  drHeaderSize :: nat
  drExtra :: head_extra_info
  drInfo :: event_info

definition InitEventInfo :: "string \<Rightarrow> event_info \<Rightarrow> event_info" where
  "InitEventInfo path info =
     (let dirNames = SplitStr path ''/'' False True in
      if length dirNames < 2 then info
      else let domainStr = bytes_of_string (dirNames ! (length dirNames - 2)) in
           case memcpy_s (eiDomain info) 0 MAX_DOMAIN_LEN domainStr of
             (domain, False) \<Rightarrow> info\<lparr>eiDomain := domain\<rparr>
           | (domain, True) \<Rightarrow>
               (let info1 = info\<lparr>eiDomain := domain\<rparr> in
                case ParseEventInfoFromDbFileName (last dirNames) new_splited_info (NAME_ONLY OR LEVEL_ONLY) of
                  None \<Rightarrow> info1
                | Some eventInfo \<Rightarrow>
                    (case memcpy_s (eiName info1) 0 MAX_EVENT_NAME_LEN (bytes_of_string (siName eventInfo)) of
                       (nm, False) \<Rightarrow> info1\<lparr>eiName := nm\<rparr>
                     | (nm, True) \<Rightarrow> info1\<lparr>eiName := nm, eiLevel := siLevel eventInfo\<rparr>)))"

text \<open>The constructor on a path and the bytes behind it, \<open>None\<close> when the file cannot be opened.\<close>

definition SysEventDocReader :: "string \<Rightarrow> byte list option \<Rightarrow> doc_reader" where
  "SysEventDocReader path f =
     (let r = \<lparr>drIn = in_open f, drFileSize = 0, drPageSize = 0, drVersion = 0, drHeaderSize = 0,
               drExtra = new_head_extra, drInfo = InitEventInfo path new_event_info\<rparr>
      in if \<not> inOpen (drIn r) then r
         else case tellg (drIn r) of (curPos, s1) \<Rightarrow>
              (case tellg (seekg_end 0 s1) of (fileEnd, s2) \<Rightarrow>
                 (case ReadFmtVersion (seekg_beg curPos s2) of (version, s3) \<Rightarrow>
                    r\<lparr>drIn := s3, drFileSize := as_int fileEnd, drVersion := version\<rparr>)))"

definition ReadFileSize :: "doc_reader \<Rightarrow> int" where
  "ReadFileSize r = drFileSize r"

definition ReadHeader :: "(nat \<Rightarrow> byte list) \<Rightarrow> doc_reader \<Rightarrow> doc_code \<times> doc_header \<times> doc_reader" where
  "ReadHeader stk r =
     (case ContentReaderFactory_Get (drVersion r) of
        None \<Rightarrow> (DOC_STORE_ERROR_IO, zero_doc_header, r)
      | Some reader \<Rightarrow>
          (case ReadDocDetails reader stk (drIn r) zero_doc_header (drHeaderSize r) (drExtra r) of
             (d, s) \<Rightarrow> (ddCode d, ddHeader d,
                r\<lparr>drIn := s, drHeaderSize := ddHeaderSize d, drExtra := ddExtra d\<rparr>)))"

definition ReadPageSize :: "(nat \<Rightarrow> byte list) \<Rightarrow> doc_reader \<Rightarrow> doc_code \<times> nat \<times> doc_reader" where
  "ReadPageSize stk r =
     (case ReadHeader stk r of
        (ret, header, r') \<Rightarrow>
          (ret, if ret \<noteq> DOC_STORE_SUCCESS then 0 else unat (dhPageSize header) * NUM_OF_BYTES_IN_KB, r'))"

definition IsValidHeader :: "doc_reader \<Rightarrow> doc_header \<Rightarrow> bool" where
  "IsValidHeader r header =
     (case ContentReaderFactory_Get (drVersion r) of
        None \<Rightarrow> False
      | Some reader \<Rightarrow> IsValidMagicNum reader (dhMagicNum header))"

section \<open>The pages\<close>

definition HasReadFileEnd :: "ifstream \<Rightarrow> bool \<times> ifstream" where
  "HasReadFileEnd s =
     (if \<not> inOpen s then (True, s)
      else case tellg s of (pos, s1) \<Rightarrow> (as_int pos < 0 \<or> inEof s1, s1))"

text \<open>\<open>None\<close> is a division by the page size 0.\<close>

definition HasReadPageEnd :: "doc_reader \<Rightarrow> nat \<Rightarrow> ifstream \<Rightarrow> bool option \<times> ifstream" where
  "HasReadPageEnd r pageIndex s =
     (case HasReadFileEnd s of
        (True, s1) \<Rightarrow> (Some True, s1)
      | (False, s1) \<Rightarrow>
          (case tellg s1 of (pos, s2) \<Rightarrow>
             (let curPos = as_u32 pos in
              (if curPos \<le> drHeaderSize r then Some False
               else if curPos = drHeaderSize r + u32_mul (drPageSize r) (u32_add pageIndex 1) then Some True
               else if drPageSize r = 0 then None
               else Some ((curPos - drHeaderSize r) mod drPageSize r + HIVIEW_BLOCK_SIZE \<ge> drPageSize r), s2))))"

text \<open>\<open>ReadValueAndReset\<close> of a \<open>uint32_t\<close> that is 0 before.\<close>

definition ReadValueAndReset :: "ifstream \<Rightarrow> nat \<times> ifstream" where
  "ReadValueAndReset s =
     (case in_read 4 (u32_bytes 0) s of (mem, s1) \<Rightarrow> (unat (u32_of_bytes mem), seekg_cur (- 4) s1))"

definition minContentSize :: nat where
  "minContentSize = HIVIEW_BLOCK_SIZE + SIZEOF_CONTENT_HEADER + CRC_SIZE"

datatype content_outcome = NoContent doc_code | Content "byte list" | DivisionByZero

definition ReadContent :: "alloc \<Rightarrow> doc_reader \<Rightarrow> nat \<Rightarrow> ifstream \<Rightarrow> content_outcome \<times> ifstream" where
  "ReadContent al r pageIndex s =
     (case HasReadPageEnd r pageIndex s of
        (None, s1) \<Rightarrow> (DivisionByZero, s1)
      | (Some True, s1) \<Rightarrow> (NoContent DOC_STORE_READ_EMPTY, s1)
      | (Some False, s1) \<Rightarrow>
          (case ReadValueAndReset s1 of
             (contentSize, s2) \<Rightarrow>
               if contentSize < minContentSize then (NoContent DOC_STORE_READ_EMPTY, s2)
               else if contentSize > MAX_NEW_SIZE then (NoContent DOC_STORE_ERROR_MEMORY, s2)
               else (case al contentSize of
                       None \<Rightarrow> (NoContent DOC_STORE_ERROR_MEMORY, s2)
                     | Some buf \<Rightarrow>
                         (case in_read contentSize buf s2 of (content, s3) \<Rightarrow> (Content content, s3)))))"

definition SeekgPage :: "doc_reader \<Rightarrow> nat \<Rightarrow> ifstream \<Rightarrow> doc_code \<times> ifstream" where
  "SeekgPage r pageIndex s =
     (case HasReadFileEnd s of
        (True, s1) \<Rightarrow> (DOC_STORE_ERROR_IO, s1)
      | (False, s1) \<Rightarrow>
          (let seekSize = drHeaderSize r + u32_mul (drPageSize r) pageIndex in
           if as_int (int seekSize) < ReadFileSize r
           then (DOC_STORE_SUCCESS, seekg_beg (int seekSize) s1)
           else (DOC_STORE_ERROR_IO, s1\<lparr>inEof := True\<rparr>)))"

text \<open>How reading ends: with a return code, or with a division by zero.\<close>

datatype read_end = Returned doc_code | Crashed

fun content_of :: "content_outcome \<Rightarrow> byte list option" where
  "content_of (Content content) = Some content"
| "content_of outcome = None"

partial_function (option) pages_loop ::
    "alloc \<Rightarrow> doc_reader \<Rightarrow> (byte list \<Rightarrow> 's \<Rightarrow> 's) \<Rightarrow> nat \<Rightarrow> ifstream \<Rightarrow> 's \<Rightarrow>
     (read_end \<times> 's \<times> ifstream) option" where
  "pages_loop al r callback pageIndex s st =
     (case HasReadFileEnd s of (fileEnd, s1) \<Rightarrow>
        if fileEnd then Some (Returned DOC_STORE_SUCCESS, st, s1)
        else (case ReadContent al r pageIndex s1 of (outcome, s2) \<Rightarrow>
          if outcome = DivisionByZero then Some (Crashed, st, s2)
          else (case content_of outcome of
                  Some content \<Rightarrow> pages_loop al r callback pageIndex s2 (callback content st)
                | None \<Rightarrow>
                    (case SeekgPage r (u32_add pageIndex 1) s2 of (ret, s3) \<Rightarrow>
                       if ret \<noteq> DOC_STORE_SUCCESS then Some (Returned DOC_STORE_SUCCESS, st, s3)
                       else pages_loop al r callback (u32_add pageIndex 1) s3 st))))"

definition ReadPages :: "alloc \<Rightarrow> doc_reader \<Rightarrow> (byte list \<Rightarrow> 's \<Rightarrow> 's) \<Rightarrow> 's \<Rightarrow>
    (read_end \<times> 's \<times> ifstream) option" where
  "ReadPages al r callback st = pages_loop al r callback 0 (drIn r) st"

text \<open>
  \<open>Read (callback)\<close>: the callback works on the object as it is once the header has been read; its
  own state starts as \<open>start\<close> of that object.
\<close>

definition set_tag :: "doc_header \<Rightarrow> doc_reader \<Rightarrow> doc_reader" where
  "set_tag header r =
     (if eiTag (drInfo r) = [] \<and> c_str (dhTag header) \<noteq> []
      then r\<lparr>drInfo := (drInfo r)\<lparr>eiTag := c_str (dhTag header)\<rparr>\<rparr> else r)"

definition Read_with :: "alloc \<Rightarrow> (nat \<Rightarrow> byte list) \<Rightarrow> doc_reader \<Rightarrow>
    (doc_reader \<Rightarrow> byte list \<Rightarrow> 's \<Rightarrow> 's) \<Rightarrow> (doc_reader \<Rightarrow> 's) \<Rightarrow> (read_end \<times> 's) option" where
  "Read_with al stk r callback start =
     (case ReadHeader stk r of
        (ret, header, r1) \<Rightarrow>
          if ret \<noteq> DOC_STORE_SUCCESS then Some (Returned ret, start r1)
          else if \<not> IsValidHeader r1 header then Some (Returned DOC_STORE_ERROR_INVALID, start r1)
          else let r2 = (set_tag header r1)\<lparr>drPageSize := unat (dhPageSize header) * NUM_OF_BYTES_IN_KB\<rparr> in
               if drPageSize r2 = 0 then
                 (case ReadContent al r2 0 (drIn r2) of
                    (DivisionByZero, s) \<Rightarrow> Some (Crashed, start r2)
                  | (NoContent code, s) \<Rightarrow> Some (Returned code, start r2)
                  | (Content content, s) \<Rightarrow> Some (Returned DOC_STORE_SUCCESS, callback r2 content (start r2)))
               else map_option (\<lambda>(e, st', s). (e, st')) (ReadPages al r2 (callback r2) (start r2)))"

section \<open>The callbacks\<close>

record entry =
  enId :: i64
  enTs :: i64
  enData :: raw_data
  enSysVersion :: string
  enPatchVersion :: string

definition CheckEventInfo :: "byte list \<Rightarrow> event_info \<Rightarrow> bool \<times> event_info" where
  "CheckEventInfo content info =
     (if c_str (eiDomain info) = [] \<or> c_str (eiName info) = [] \<or> eiLevel info = [] then (False, info)
      else let sq = u64_of_bytes (drop HIVIEW_BLOCK_SIZE content) in
           if sint sq < 0 then (False, info)
           else let info1 = info\<lparr>eiSeq := sq\<rparr>;
                    timestamp = u64_of_bytes (drop (HIVIEW_BLOCK_SIZE + SEQ_SIZE) content)
                in if sint timestamp < 0 then (False, info1)
                   else (True, info1\<lparr>eiTimestamp := timestamp\<rparr>))"

definition BuildRawData :: "alloc \<Rightarrow> content_header \<Rightarrow> doc_reader \<Rightarrow> event_info \<Rightarrow> byte list \<Rightarrow> raw_data option" where
  "BuildRawData al junk r info content =
     (case ContentReaderFactory_Get (drVersion r) of
        None \<Rightarrow> None
      | Some reader \<Rightarrow> ReadRawData al reader junk info content (length content))"

text \<open>What a query collects: the event information of the object, the entries and their number.\<close>

record query_state =
  qsInfo :: event_info
  qsEntries :: "entry list"
  qsNum :: nat

definition TryToAddEntry :: "alloc \<Rightarrow> content_header \<Rightarrow> doc_query \<Rightarrow> doc_reader \<Rightarrow> byte list \<Rightarrow>
    query_state \<Rightarrow> undefined_behaviour + query_state" where
  "TryToAddEntry al junk query r content q =
     (case CheckEventInfo content (qsInfo q) of
        (False, info) \<Rightarrow> Inr (q\<lparr>qsInfo := info\<rparr>)
      | (True, info) \<Rightarrow>
          (let q1 = q\<lparr>qsInfo := info\<rparr> in
           if \<not> IsContainInnerConds query content then Inr q1
           else case BuildRawData al junk r info content of
                  None \<Rightarrow> Inr q1
                | Some rawData \<Rightarrow>
                    (case IsContainExtraConds al query (RawData_GetData rawData) (RawData_GetDataLength rawData) of
                       Inl u \<Rightarrow> Inl u
                     | Inr False \<Rightarrow> Inr q1
                     | Inr True \<Rightarrow>
                         Inr (q1\<lparr>qsNum := qsNum q1 + 1,
                           qsEntries := qsEntries q1 @
                             [\<lparr>enId = eiSeq info, enTs = eiTimestamp info, enData = rawData,
                               enSysVersion = heSysVersion (drExtra r),
                               enPatchVersion = hePatchVersion (drExtra r)\<rparr>]\<rparr>))))"

definition Read_query :: "alloc \<Rightarrow> (nat \<Rightarrow> byte list) \<Rightarrow> content_header \<Rightarrow> doc_reader \<Rightarrow> doc_query \<Rightarrow>
    entry list \<Rightarrow> nat \<Rightarrow> (read_end \<times> (undefined_behaviour + entry list \<times> nat)) option" where
  "Read_query al stk junk r query entries num =
     map_option (\<lambda>(e, st). (e, map_sum id (\<lambda>q. (qsEntries q, qsNum q)) st))
       (Read_with al stk r
          (\<lambda>r2 content st. case st of
             Inl u \<Rightarrow> Inl u
           | Inr q \<Rightarrow> TryToAddEntry al junk query r2 content q)
          (\<lambda>r2. Inr \<lparr>qsInfo = drInfo r2, qsEntries = entries, qsNum = num\<rparr>))"

definition ReadMaxEventSequence :: "alloc \<Rightarrow> (nat \<Rightarrow> byte list) \<Rightarrow> doc_reader \<Rightarrow> int option" where
  "ReadMaxEventSequence al stk r =
     map_option snd
       (Read_with al stk r
          (\<lambda>r2 content maxSeq.
             if length content < HIVIEW_BLOCK_SIZE + 8 then maxSeq
             else let sq = sint (u64_of_bytes (drop HIVIEW_BLOCK_SIZE content)) in
                  if maxSeq < sq then sq else maxSeq)
          (\<lambda>r2. 0 :: int))"

section \<open>The page loop returns\<close>

lemma HasReadFileEnd_good: "in_good s \<Longrightarrow> inOpen s \<Longrightarrow> HasReadFileEnd s = (as_int (int (inPos s)) < 0, s)"
  by (simp add: HasReadFileEnd_def in_good_def)

lemma HasReadFileEnd_bad: "\<not> in_good s \<Longrightarrow> fst (HasReadFileEnd s)"
  by (simp add: HasReadFileEnd_def tellg_def)

lemma HasReadFileEnd_False:
  assumes "HasReadFileEnd s = (False, s1)"
  shows "s1 = s" "in_good s" "inOpen s" "0 \<le> as_int (int (inPos s))"
  using assms HasReadFileEnd_bad [of s]
  by (auto simp: HasReadFileEnd_def tellg_def split: if_splits)

lemma pages_loop_ended:
  assumes "fst (HasReadFileEnd s)"
  shows "\<exists>res. pages_loop al r callback idx s st = Some res"
  using assms by (cases "HasReadFileEnd s") (simp add: pages_loop.simps [of al r callback idx s])

lemma HasReadPageEnd_keeps:
  assumes "HasReadPageEnd r idx s = (e, s')"
  shows "inFile s' = inFile s" "e \<noteq> Some True \<Longrightarrow> s' = s \<and> in_good s"
proof -
  obtain b s1 where b: "HasReadFileEnd s = (b, s1)" by (cases "HasReadFileEnd s")
  have f: "inFile s1 = inFile s" using b by (auto simp: HasReadFileEnd_def tellg_def split: if_splits)
  show "inFile s' = inFile s"
    using assms b f by (auto simp: HasReadPageEnd_def Let_def split: bool.splits prod.splits if_splits dest!: arg_cong [of "tellg _" _ snd])
  show "s' = s \<and> in_good s" if "e \<noteq> Some True"
  proof -
    have nb: "\<not> b" using assms b that by (cases b) (auto simp: HasReadPageEnd_def)
    then have "s1 = s" "in_good s" using HasReadFileEnd_False [of s s1] b by simp_all
    then show ?thesis using assms b nb by (auto simp: HasReadPageEnd_def Let_def)
  qed
qed

lemma ReadValueAndReset_keeps:
  assumes "ReadValueAndReset s = (n, s')" "in_good s"
  shows "inFile s' = inFile s" "in_good s' \<Longrightarrow> s' = s"
proof -
  obtain mem s1 where r: "in_read 4 (u32_bytes 0) s = (mem, s1)" by (cases "in_read 4 (u32_bytes 0) s")
  have s': "s' = seekg_cur (- 4) s1" using assms(1) r by (simp add: ReadValueAndReset_def)
  have "inFile s1 = inFile s" using in_read_keeps(2) [of 4 "u32_bytes 0" s] r by simp
  then show "inFile s' = inFile s" by (simp add: s')
  assume g: "in_good s'"
  then have "\<not> inFail s1" using s' seekg_fail(2) [of s1 "- 4"] by (auto simp: in_good_def)
  then have "s1 = s\<lparr>inPos := inPos s + 4\<rparr>"
    using r assms(2) by (auto simp: in_read_def Let_def split: if_splits)
  then show "s' = s"
    using assms(2) seekg_cur_back [of s1 4] s' by (cases s) (simp add: in_good_def)
qed

text \<open>
  A content block that was read leaves the stream further on inside the file, or broken; without
  a block the file is unchanged.
\<close>

lemma ReadContent_progress:
  assumes "ReadContent al r idx s = (outcome, s')"
  shows "inFile s' = inFile s"
    "outcome = Content content \<Longrightarrow> in_good s' \<Longrightarrow>
      inPos s + minContentSize \<le> inPos s' \<and> inPos s' \<le> length (inFile s)"
proof -
  obtain e s1 where e: "HasReadPageEnd r idx s = (e, s1)" by (cases "HasReadPageEnd r idx s")
  obtain n s2 where n: "ReadValueAndReset s1 = (n, s2)" by (cases "ReadValueAndReset s1")
  obtain content' s3 where c: "in_read n (the (al n)) s2 = (content', s3)" by (cases "in_read n (the (al n)) s2")
  have f1: "inFile s1 = inFile s" using HasReadPageEnd_keeps(1) [OF e] .
  show "inFile s' = inFile s"
  proof (cases "e = Some False")
    case True
    then have "s1 = s" "in_good s" using HasReadPageEnd_keeps(2) [OF e] by simp_all
    then have "inFile s2 = inFile s" using ReadValueAndReset_keeps(1) [OF n] by simp
    moreover have "inFile s3 = inFile s2" using in_read_keeps(2) [of n "the (al n)" s2] c by simp
    ultimately show ?thesis
      using assms e n c True by (auto simp: ReadContent_def split: if_splits option.splits)
  next
    case False
    with assms e f1 show ?thesis by (auto simp: ReadContent_def split: option.splits bool.splits)
  qed
  assume o: "outcome = Content content" and g: "in_good s'"
  have eF: "e = Some False" using assms e o by (auto simp: ReadContent_def split: option.splits bool.splits)
  then have s1: "s1 = s" "in_good s" using HasReadPageEnd_keeps(2) [OF e] by simp_all
  have big: "minContentSize \<le> n" and s': "s' = s3"
    using assms e n c o eF by (auto simp: ReadContent_def split: if_splits option.splits)
  have "in_good s2" using g s' c by (auto simp: in_read_def in_good_def split: if_splits)
  then have "s2 = s" using ReadValueAndReset_keeps(2) [OF n] s1 by simp
  with g s' c have "inPos s3 = inPos s + n" "inPos s + n \<le> length (inFile s) \<or> n = 0"
    by (auto simp: in_read_def Let_def in_good_def split: if_splits)
  then show "inPos s + minContentSize \<le> inPos s' \<and> inPos s' \<le> length (inFile s)"
    using big s' by (auto simp: minContentSize_def doc_const_defs)
qed

text \<open>On one page: if the loop returns from every later page, it returns.\<close>

lemma pages_loop_page:
  assumes later: "\<And>s2 s3 st. SeekgPage r (u32_add idx 1) s2 = (DOC_STORE_SUCCESS, s3) \<Longrightarrow>
      \<exists>res. pages_loop al r callback (u32_add idx 1) s3 st = Some res"
  shows "\<exists>res. pages_loop al r callback idx s st = Some res"
proof (induction "length (inFile s) - inPos s" arbitrary: s st rule: less_induct)
  case less
  obtain e s1 where e: "HasReadFileEnd s = (e, s1)" by (cases "HasReadFileEnd s")
  obtain outcome s2 where c: "ReadContent al r idx s = (outcome, s2)" by (cases "ReadContent al r idx s")
  obtain ret s3 where k: "SeekgPage r (u32_add idx 1) s2 = (ret, s3)" by (cases "SeekgPage r (u32_add idx 1) s2")
  show ?case
  proof (cases e)
    case True
    with e show ?thesis by (intro pages_loop_ended) simp
  next
    case False
    then have s1: "s1 = s" using HasReadFileEnd_False [of s s1] e by simp
    have step: "pages_loop al r callback idx s st =
        (if outcome = DivisionByZero then Some (Crashed, st, s2)
         else case content_of outcome of
           Some content \<Rightarrow> pages_loop al r callback idx s2 (callback content st)
         | None \<Rightarrow> if ret \<noteq> DOC_STORE_SUCCESS then Some (Returned DOC_STORE_SUCCESS, st, s3)
             else pages_loop al r callback (u32_add idx 1) s3 st)"
      using e False s1 c k by (simp add: pages_loop.simps [of al r callback idx s] split: option.split)
    show ?thesis
    proof (cases outcome)
      case (Content content)
      show ?thesis
      proof (cases "in_good s2")
        case True
        from ReadContent_progress [OF c] Content True
        have "length (inFile s2) - inPos s2 < length (inFile s) - inPos s"
          by (auto simp: minContentSize_def doc_const_defs SIZEOF_CONTENT_HEADER_def)
        from less(1) [OF this] step Content show ?thesis by simp
      next
        case False
        with step Content pages_loop_ended [OF HasReadFileEnd_bad] show ?thesis by simp
      qed
    qed (use step k later in auto)
  qed
qed

lemma as_int_cong:
  assumes "a mod 2 ^ 32 = b mod 2 ^ 32"
  shows "as_int a = as_int b"
proof -
  have "word_of_int a = (word_of_int b :: 32 word)"
    using assms by (simp add: word_of_int_eq_iff take_bit_eq_mod)
  then show ?thesis by (simp add: as_int_def)
qed

text \<open>The start of a page, as \<open>SeekgPage\<close> compares it with the file size.\<close>

definition page_start :: "doc_reader \<Rightarrow> nat \<Rightarrow> int" where
  "page_start r idx = as_int (int (drHeaderSize r + u32_mul (drPageSize r) idx))"

lemma page_start_next:
  assumes "0 \<le> page_start r idx" "page_start r idx + int (drPageSize r) < 2 ^ 31"
  shows "page_start r (u32_add idx 1) = page_start r idx + int (drPageSize r)"
proof -
  let ?P = "int (drPageSize r)" and ?H = "int (drHeaderSize r)"
  have start: "page_start r i = as_int (?H + ?P * int i)" for i
    unfolding page_start_def u32_mul_def
    by (rule as_int_cong) (simp add: zmod_int mod_simps)
  have "page_start r (u32_add idx 1) = as_int (?H + ?P * (int idx + 1))"
    unfolding start u32_add_def
    by (rule as_int_cong) (simp add: zmod_int add.commute, metis mod_add_right_eq mod_mult_right_eq)
  also have "\<dots> = as_int (page_start r idx + ?P)"
  proof (rule as_int_cong)
    have "as_int x mod 2 ^ 32 = x mod 2 ^ 32" for x
      by (simp add: as_int_def uint_word_of_int take_bit_eq_mod flip: uint_sint [where 'a = 32, unfolded take_bit_eq_mod, simplified])
    then show "(?H + ?P * (int idx + 1)) mod 2 ^ 32 = (page_start r idx + ?P) mod 2 ^ 32"
      unfolding start by (metis (no_types, opaque_lifting) add.assoc mod_add_left_eq mult.right_neutral
          distrib_left)
  qed
  also have "\<dots> = page_start r idx + ?P" using assms by (intro as_int_small) simp_all
  finally show ?thesis .
qed

lemma SeekgPage_start:
  assumes "SeekgPage r idx s = (DOC_STORE_SUCCESS, s')"
  shows "page_start r idx < drFileSize r" "page_start r idx < 0 \<Longrightarrow> fst (HasReadFileEnd s')"
proof -
  obtain e s1 where e: "HasReadFileEnd s = (e, s1)" by (cases "HasReadFileEnd s")
  with assms have F: "\<not> e" by (auto simp: SeekgPage_def)
  then have s1: "s1 = s" "in_good s" "inOpen s" using HasReadFileEnd_False [of s s1] e by simp_all
  let ?p = "drHeaderSize r + u32_mul (drPageSize r) idx"
  have r: "page_start r idx < drFileSize r" "s' = seekg_beg (int ?p) s"
    using assms e F s1 by (auto simp: SeekgPage_def page_start_def ReadFileSize_def Let_def split: if_splits)
  then show "page_start r idx < drFileSize r" by simp
  have "s' = s\<lparr>inPos := ?p\<rparr>" using r(2) seekg_beg_good [OF s1(2), of ?p] by simp
  then show "page_start r idx < 0 \<Longrightarrow> fst (HasReadFileEnd s')"
    using s1 by (simp add: HasReadFileEnd_good page_start_def)
qed

text \<open>
  The loop returns on every file that is shorter than \<open>2 ^ 31\<close> bytes by at least a page, whatever
  the bytes of the file are.
\<close>

lemma pages_loop_returns:
  assumes "0 < drPageSize r" "drFileSize r + int (drPageSize r) \<le> 2 ^ 31"
  shows "\<exists>res. pages_loop al r callback idx s st = Some res"
proof -
  have from_start: "\<exists>res. pages_loop al r callback idx s st = Some res"
    if "0 \<le> page_start r idx" "page_start r idx < drFileSize r" for idx s st
    using that
  proof (induction "nat (drFileSize r - page_start r idx)" arbitrary: idx s st rule: less_induct)
    case less
    show ?case
    proof (rule pages_loop_page)
      fix s2 s3 st
      assume k: "SeekgPage r (u32_add idx 1) s2 = (DOC_STORE_SUCCESS, s3)"
      have nxt: "page_start r (u32_add idx 1) = page_start r idx + int (drPageSize r)"
        using less(2,3) assms(2) by (intro page_start_next) linarith+
      then show "\<exists>res. pages_loop al r callback (u32_add idx 1) s3 st = Some res"
        using less SeekgPage_start(1) [OF k] assms(1) by (intro less(1)) linarith+
    qed
  qed
  show ?thesis
  proof (rule pages_loop_page)
    fix s2 s3 st
    assume k: "SeekgPage r (u32_add idx 1) s2 = (DOC_STORE_SUCCESS, s3)"
    show "\<exists>res. pages_loop al r callback (u32_add idx 1) s3 st = Some res"
    proof (cases "page_start r (u32_add idx 1) < 0")
      case True
      with SeekgPage_start(2) [OF k] show ?thesis by (intro pages_loop_ended)
    next
      case False
      with SeekgPage_start(1) [OF k] show ?thesis by (intro from_start) simp_all
    qed
  qed
qed

text \<open>Reading a file whose size leaves room for one more page below two gigabytes always returns.\<close>

lemma drFileSize_new: "drFileSize (SysEventDocReader path (Some f)) = as_int (int (length f))"
proof -
  have "tellg (seekg_end 0 (in_open (Some f))) = (int (length f), (in_open (Some f))\<lparr>inPos := length f\<rparr>)"
    by (simp add: seekg_end_def seek_to_def in_open_def tellg_def in_good_def)
  then show ?thesis by (simp add: SysEventDocReader_def Let_def split: prod.split)
qed

lemma ReadHeader_fileSize: "ReadHeader stk r = (ret, header, r') \<Longrightarrow> drFileSize r' = drFileSize r"
  by (auto simp: ReadHeader_def split: option.splits prod.splits)

lemma Read_returns:
  assumes "length f + 255 * 1024 \<le> 2 ^ 31"
  shows "\<exists>res. Read_with al stk (SysEventDocReader path (Some f)) callback start = Some res"
proof -
  obtain ret header r1 where rh: "ReadHeader stk (SysEventDocReader path (Some f)) = (ret, header, r1)"
    by (cases "ReadHeader stk (SysEventDocReader path (Some f))") auto
  let ?P = "unat (dhPageSize header) * NUM_OF_BYTES_IN_KB"
  let ?r = "(set_tag header r1)\<lparr>drPageSize := ?P\<rparr>"
  have "unat (dhPageSize header) \<le> 255" using unat_byte_lt [of "dhPageSize header"] by linarith
  then have P: "?P \<le> 255 * 1024" by (simp add: NUM_OF_BYTES_IN_KB_def)
  have "drFileSize ?r = int (length f)"
    using ReadHeader_fileSize [OF rh] drFileSize_new [of path f] as_int_nat [of "length f"] assms
    by (simp add: set_tag_def)
  moreover have "length f + ?P \<le> 2 ^ 31" using P assms by linarith
  then have "int (length f) + int ?P \<le> 2 ^ 31"
    by (simp only: of_nat_le_iff [symmetric, where 'a = int] of_nat_add of_nat_power of_nat_numeral)
  ultimately have "drFileSize ?r + int (drPageSize ?r) \<le> 2 ^ 31"
    by (cases "set_tag header r1") (simp only: doc_reader.simps)
  then have "0 < ?P \<Longrightarrow> \<exists>res. ReadPages al ?r (callback ?r) (start ?r) = Some res"
    unfolding ReadPages_def using pages_loop_returns [of ?r] by simp
  then show ?thesis
    by (cases "ReadContent al ?r 0 (drIn ?r)")
      (auto simp: Read_with_def rh Let_def split: content_outcome.split)
qed

end
