(* ===== verification/Doc_Layout.thy ===== *)
theory Doc_Layout
  imports Doc_Writer
begin

text \<open>
  The layout of a document file that the writer made, and what the reader finds in it: the header
  with its versions is read back, the content blocks follow one another, and where a block does not
  fit into the rest of a page the rest is zero and the block starts the next page.
\<close>

section \<open>The file header is read back\<close>

lemma bytes_of_string_nul: "CHR 0x00 \<notin> set s \<Longrightarrow> 0 \<notin> set (bytes_of_string s)"
proof -
  have "byte_of_char c = 0 \<Longrightarrow> c = CHR 0x00" for c
  proof -
    assume "byte_of_char c = 0"
    then have "c = char_of_byte 0" by (metis char_of_byte_of_char)
    then show "c = CHR 0x00" by (simp add: char_of_byte_def char_of_def)
  qed
  then show "CHR 0x00 \<notin> set s \<Longrightarrow> 0 \<notin> set (bytes_of_string s)"
    by (auto simp: bytes_of_string_def)
qed

lemma takeWhile_stop: "0 \<notin> set bs \<Longrightarrow> takeWhile (\<lambda>b. b \<noteq> 0) (bs @ 0 # cs) = (bs :: byte list)"
  by (induction bs) auto

lemma c_str_bytes_of_string:
  assumes "CHR 0x00 \<notin> set s"
  shows "c_str (bytes_of_string s @ 0 # rest) = s"
  using takeWhile_stop [OF bytes_of_string_nul [OF assms], of rest] by (simp add: c_str_def)

definition version_ok :: "string \<Rightarrow> bool" where
  "version_ok v \<longleftrightarrow> length v \<le> MAX_VERSION_LENG \<and> CHR 0x00 \<notin> set v"

lemma length_version_bytes [simp]: "length (version_bytes v) = length v + 5"
  by (simp add: version_bytes_def)

lemma GetDataString_version:
  assumes "in_good s" "drop (inPos s) (inFile s) = version_bytes v @ rest" "version_ok v"
  shows "GetDataString stk s = (Some v, s\<lparr>inPos := inPos s + length (version_bytes v)\<rparr>)"
proof -
  let ?n = "length v + 1"
  have n: "unat (word_of_nat ?n :: u32) = ?n"
    using assms(3) by (simp add: version_ok_def MAX_VERSION_LENG_def unat_of_nat del: of_nat_add of_nat_Suc)
  have r1: "in_read 4 (u32_bytes 0) s = (u32_bytes (word_of_nat ?n), s\<lparr>inPos := inPos s + 4\<rparr>)"
    using assms(1,2) by (intro in_read_full) (simp_all add: version_bytes_def)
  let ?s1 = "s\<lparr>inPos := inPos s + 4\<rparr>"
  have "drop (inPos s + 4) (inFile s) = (bytes_of_string v @ [0]) @ rest"
    using arg_cong [OF assms(2), of "drop 4"] by (simp add: version_bytes_def add.commute)
  then have r2: "in_read ?n (stk ?n) ?s1 =
      ((bytes_of_string v @ [0]) @ drop ?n (stk ?n), ?s1\<lparr>inPos := inPos ?s1 + ?n\<rparr>)"
    using assms(1) by (simp add: in_read_def)
  have "c_str ((bytes_of_string v @ [0]) @ drop ?n (stk ?n)) = v"
    using c_str_bytes_of_string [of v "drop ?n (stk ?n)"] assms(3) by (simp add: version_ok_def)
  then show ?thesis
    using r1 r2 n assms(3) by (simp add: GetDataString_def version_ok_def)
qed

definition head_bytes :: "doc_header \<Rightarrow> string \<Rightarrow> string \<Rightarrow> byte list" where
  "head_bytes h sv pv = doc_header_bytes h @ version_bytes sv @ version_bytes pv"

text \<open>A header the writer makes, on disk before a body of content blocks.\<close>

definition head_ok :: "doc_header \<Rightarrow> string \<Rightarrow> string \<Rightarrow> bool" where
  "head_ok h sv pv \<longleftrightarrow> length (dhTag h) = MAX_TAG_LEN \<and> dhVersion h = VERSION_CURRENT \<and>
     dhMagicNum h = MAGIC_NUM \<and> version_ok sv \<and> version_ok pv \<and>
     unat (dhBlockSize h) + 8 = length (head_bytes h sv pv)"

lemma length_head_bytes:
  "length (dhTag h) = MAX_TAG_LEN \<Longrightarrow> length (head_bytes h sv pv) = 41 + length sv + length pv"
  using doc_header_roundtrip(2) [of h] by (simp add: head_bytes_def SIZEOF_DOC_HEADER_def)

lemma reader_of_version4: "ContentReaderFactory_Get VERSION_CURRENT = Some ContentReaderVersion4"
  by (simp add: ContentReaderFactory_Get_def reader_map_def VERSION_CURRENT_def)

lemma new_reader:
  assumes "head_ok h sv pv" "fbytes = head_bytes h sv pv @ body"
  shows "drIn (SysEventDocReader path (Some fbytes)) = in_open (Some fbytes)"
    "drFileSize (SysEventDocReader path (Some fbytes)) = as_int (int (length fbytes))"
    "drVersion (SysEventDocReader path (Some fbytes)) = VERSION_CURRENT"
    "drInfo (SysEventDocReader path (Some fbytes)) = InitEventInfo path new_event_info"
proof -
  let ?s = "in_open (Some fbytes)"
  have s: "inPos ?s = 0" "in_good ?s" "inFile ?s = fbytes" by simp_all
  have e: "tellg (seekg_end 0 ?s) = (int (length fbytes), ?s\<lparr>inPos := length fbytes\<rparr>)"
    by (simp add: seekg_end_def seek_to_def in_open_def tellg_def in_good_def)
  have b: "seekg_beg 0 (?s\<lparr>inPos := length fbytes\<rparr>) = ?s"
    by (simp add: seekg_beg_def seek_to_def in_open_def)
  have at: "drop 13 fbytes = [VERSION_CURRENT] @ dhTag h @ version_bytes sv @ version_bytes pv @ body"
    using assms by (simp add: head_ok_def head_bytes_def doc_header_bytes_def)
  have "in_read 1 [0] (?s\<lparr>inPos := 13\<rparr>) = ([VERSION_CURRENT], ?s\<lparr>inPos := 14\<rparr>)"
    using in_read_full [of "?s\<lparr>inPos := 13\<rparr>" "[VERSION_CURRENT]"] at by simp
  then have v: "ReadFmtVersion ?s = (VERSION_CURRENT, ?s)"
    using s seekg_beg_good [of ?s 13] seekg_beg_good [of "?s\<lparr>inPos := 14\<rparr>" 0]
    by (simp add: ReadFmtVersion_def DATA_FORMAT_VERSION_OFFSET_def in_open_def in_good_def)
  show "drIn (SysEventDocReader path (Some fbytes)) = ?s"
    "drFileSize (SysEventDocReader path (Some fbytes)) = as_int (int (length fbytes))"
    "drVersion (SysEventDocReader path (Some fbytes)) = VERSION_CURRENT"
    "drInfo (SysEventDocReader path (Some fbytes)) = InitEventInfo path new_event_info"
    using e b v by (simp_all add: SysEventDocReader_def)
qed

lemma ReadHeader_head:
  assumes h: "head_ok h sv pv" and fbytes: "inFile (drIn r) = head_bytes h sv pv @ body"
    and s: "in_good (drIn r)" "inOpen (drIn r)" "drVersion r = VERSION_CURRENT"
  shows "ReadHeader stk r = (DOC_STORE_SUCCESS, h,
    r\<lparr>drIn := (drIn r)\<lparr>inPos := length (head_bytes h sv pv)\<rparr>, drHeaderSize := length (head_bytes h sv pv),
      drExtra := \<lparr>heSysVersion = sv, hePatchVersion = pv\<rparr>\<rparr>)"
proof -
  have tag: "length (dhTag h) = MAX_TAG_LEN" and ok: "version_ok sv" "version_ok pv"
    and bs: "unat (dhBlockSize h) + 8 = length (head_bytes h sv pv)"
    using h by (auto simp: head_ok_def)
  note hdr = doc_header_roundtrip [OF tag]
  have z: "length (doc_header_bytes zero_doc_header) = length (doc_header_bytes h)"
    using hdr(2) doc_header_roundtrip(2) [of zero_doc_header] by (simp add: zero_doc_header_def)
  let ?s0 = "(drIn r)\<lparr>inPos := 0\<rparr>" and ?s1 = "(drIn r)\<lparr>inPos := 31\<rparr>"
  let ?s2 = "(drIn r)\<lparr>inPos := 31 + length (version_bytes sv)\<rparr>"
  let ?s3 = "(drIn r)\<lparr>inPos := length (head_bytes h sv pv)\<rparr>"
  have d0: "drop (inPos ?s0) (inFile ?s0) = doc_header_bytes h @ version_bytes sv @ version_bytes pv @ body"
    using fbytes by (simp add: head_bytes_def)
  have "in_read SIZEOF_DOC_HEADER (doc_header_bytes zero_doc_header) ?s0 =
      (doc_header_bytes h, ?s0\<lparr>inPos := inPos ?s0 + SIZEOF_DOC_HEADER\<rparr>)"
    by (rule in_read_full [OF _ d0 z]) (use s hdr(2) in simp_all)
  then have r1: "in_read SIZEOF_DOC_HEADER (doc_header_bytes zero_doc_header) ?s0 = (doc_header_bytes h, ?s1)"
    by (simp add: SIZEOF_DOC_HEADER_def)
  have len31: "length (doc_header_bytes h) = 31" using hdr(2) by (simp add: SIZEOF_DOC_HEADER_def)
  have "drop 31 (inFile (drIn r)) = version_bytes sv @ version_bytes pv @ body"
    using fbytes len31 by (simp add: head_bytes_def)
  then have g1: "GetDataString stk ?s1 = (Some sv, ?s2)"
    using GetDataString_version [of ?s1 sv "version_bytes pv @ body"] s ok by simp
  have "drop (31 + length (version_bytes sv)) (inFile (drIn r)) = version_bytes pv @ body"
    using fbytes len31 by (simp add: head_bytes_def)
  then have g2: "GetDataString stk ?s2 = (Some pv, ?s3)"
    using GetDataString_version [of ?s2 pv body] s ok len31 by (simp add: head_bytes_def add.assoc)
  have "seekg_beg 0 (drIn r) = ?s0" using seekg_beg_good [OF s(1), of 0] by simp
  moreover have "doc_header_of_bytes (doc_header_bytes h) = h" using hdr(1) [of "[]"] by simp
  ultimately have "ReadDocDetails_v4 stk (drIn r) zero_doc_header (drHeaderSize r) (drExtra r) =
      (\<lparr>ddCode = DOC_STORE_SUCCESS, ddHeader = h, ddHeaderSize = length (head_bytes h sv pv),
        ddExtra = \<lparr>heSysVersion = sv, hePatchVersion = pv\<rparr>\<rparr>, ?s3)"
    using r1 g1 g2 s bs by (simp add: ReadDocDetails_v4_def)
  then show ?thesis using s(3) by (simp add: ReadHeader_def reader_of_version4)
qed

section \<open>Pages of content blocks\<close>

text \<open>
  The bytes of a sequence of blocks from offset \<open>b\<close> behind the header on: a block that does not
  fit into the rest of its page is preceded by zeros up to the next page.
\<close>

definition page_rest :: "nat \<Rightarrow> nat \<Rightarrow> nat" where
  "page_rest P b = P - b mod P"

definition page_pad :: "nat \<Rightarrow> nat \<Rightarrow> byte list \<Rightarrow> byte list" where
  "page_pad P b c = (if page_rest P b < length c then replicate (page_rest P b) 0 else [])"

fun lay :: "nat \<Rightarrow> nat \<Rightarrow> byte list list \<Rightarrow> byte list" where
  "lay P b [] = []"
| "lay P b (c # cs) = page_pad P b c @ c @ lay P (b + length (page_pad P b c) + length c) cs"

lemma lay_append: "lay P b (cs @ ds) = lay P b cs @ lay P (b + length (lay P b cs)) ds"
  by (induction P b cs rule: lay.induct) (simp_all add: add.assoc)

text \<open>A block as the reader expects it: its size first, within the limits, and not longer than a page.\<close>

definition block_ok :: "nat \<Rightarrow> byte list \<Rightarrow> bool" where
  "block_ok P c \<longleftrightarrow> unat (u32_of_bytes c) = length c \<and> minContentSize \<le> length c \<and>
     length c \<le> MAX_NEW_SIZE \<and> length c \<le> P"

text \<open>A reader on page \<open>idx\<close>, at offset \<open>b\<close> behind the header, with \<open>rest\<close> still to read.\<close>

definition at_offset :: "doc_reader \<Rightarrow> nat \<Rightarrow> byte list \<Rightarrow> ifstream \<Rightarrow> bool" where
  "at_offset r b rest s \<longleftrightarrow> in_good s \<and> inOpen s \<and> inPos s = drHeaderSize r + b \<and>
     drop (inPos s) (inFile s) = rest \<and> length (inFile s) = drHeaderSize r + b + length rest \<and>
     drFileSize r = int (length (inFile s)) \<and>
     length (inFile s) + drPageSize r < 2 ^ 31 \<and> NUM_OF_BYTES_IN_KB \<le> drPageSize r"

lemma at_offset_bounds:
  assumes "at_offset r b rest s"
  shows "as_int (int (inPos s)) = int (inPos s)" "as_u32 (int (inPos s)) = inPos s"
    "HasReadFileEnd s = (False, s)" "inPos s < 2 ^ 31"
proof -
  show lt: "inPos s < 2 ^ 31" using assms by (auto simp: at_offset_def)
  show "as_int (int (inPos s)) = int (inPos s)" by (rule as_int_small) (use lt in simp_all)
  then show "HasReadFileEnd s = (False, s)"
    using assms by (simp add: HasReadFileEnd_good at_offset_def)
  show "as_u32 (int (inPos s)) = inPos s" by (rule as_u32_small) (use lt in simp)
qed

lemma page_mult_exact:
  assumes "at_offset r b rest s" "idx * drPageSize r \<le> b"
  shows "u32_mul (drPageSize r) (u32_add idx 1) = drPageSize r * (idx + 1)" "u32_add idx 1 = idx + 1"
    "drPageSize r * (idx + 1) < 2 ^ 31"
proof -
  let ?P = "drPageSize r"
  have P: "0 < ?P" and "length (inFile s) + ?P < 2 ^ 31" "b \<le> length (inFile s)"
    using assms(1) by (auto simp: at_offset_def NUM_OF_BYTES_IN_KB_def)
  then have lt: "?P * (idx + 1) < 2 ^ 31" using assms(2) by (simp add: algebra_simps)
  moreover have "idx + 1 \<le> ?P * (idx + 1)" using P by (cases ?P) simp_all
  ultimately have "idx + 1 < 2 ^ 31" by linarith
  then show a: "u32_add idx 1 = idx + 1" by (simp add: u32_add_def)
  show "u32_mul ?P (u32_add idx 1) = ?P * (idx + 1)" using lt unfolding a u32_mul_def by simp
  show "?P * (idx + 1) < 2 ^ 31" by (fact lt)
qed

lemma page_offset:
  assumes "idx * P \<le> b" "b < (idx + 1) * (P :: nat)"
  shows "b mod P = b - idx * P"
proof -
  have "b = (b - idx * P) + idx * P" "b - idx * P < P" using assms by (auto simp: algebra_simps)
  then show ?thesis by (metis mod_less mod_mult_self1)
qed

lemma HasReadPageEnd_at:
  assumes "at_offset r b rest s" "idx * drPageSize r \<le> b" "b \<le> (idx + 1) * drPageSize r"
  shows "HasReadPageEnd r idx s =
    (Some (b \<noteq> 0 \<and> (b = (idx + 1) * drPageSize r \<or> b mod drPageSize r + 4 \<ge> drPageSize r)), s)"
proof -
  have g: "in_good s" "inPos s = drHeaderSize r + b" "0 < drPageSize r"
    using assms(1) by (auto simp: at_offset_def NUM_OF_BYTES_IN_KB_def)
  show ?thesis
    using g at_offset_bounds [OF assms(1)] page_mult_exact(1) [OF assms(1,2)]
    by (auto simp: HasReadPageEnd_def Let_def HIVIEW_BLOCK_SIZE_def mult.commute)
qed

text \<open>A block inside the current page is read and the loop goes on behind it.\<close>

lemma read_block_here:
  assumes al: "alloc_sized al" "alloc_total al" and at: "at_offset r b (c @ rest) s" and c: "block_ok (drPageSize r) c"
    and idx: "idx * drPageSize r \<le> b" "b < (idx + 1) * drPageSize r" "length c \<le> (idx + 1) * drPageSize r - b"
  shows "pages_loop al r callback idx s st =
      pages_loop al r callback idx (s\<lparr>inPos := inPos s + length c\<rparr>) (callback c st)"
    "at_offset r (b + length c) rest (s\<lparr>inPos := inPos s + length c\<rparr>)"
proof -
  let ?P = "drPageSize r" and ?s' = "s\<lparr>inPos := inPos s + length c\<rparr>"
  have c4: "47 \<le> length c" "unat (u32_of_bytes c) = length c" "length c \<le> MAX_NEW_SIZE"
    using c by (auto simp: block_ok_def minContentSize_def doc_const_defs SIZEOF_CONTENT_HEADER_def)
  have g: "in_good s" "drop (inPos s) (inFile s) = c @ rest" using at by (auto simp: at_offset_def)
  have m: "b mod ?P = b - idx * ?P" using page_offset [OF idx(1,2)] .
  have "\<not> (b mod ?P + 4 \<ge> ?P)" using idx c4(1) m by (simp add: algebra_simps)
  then have pe: "HasReadPageEnd r idx s = (Some False, s)"
    using HasReadPageEnd_at [OF at idx(1)] idx(2) by auto
  have "in_read 4 (u32_bytes 0) s = (take 4 c, s\<lparr>inPos := inPos s + 4\<rparr>)"
    using in_read_full [OF g(1), of "take 4 c" "drop 4 c @ rest" "u32_bytes 0" 4] g(2) c4(1) by simp
  moreover have "seekg_cur (- 4) (s\<lparr>inPos := inPos s + 4\<rparr>) = s"
    using seekg_cur_back [of "s\<lparr>inPos := inPos s + 4\<rparr>" 4] g(1) by (cases s) (simp add: in_good_def)
  moreover have "u32_of_bytes (take 4 c) = u32_of_bytes c" by (simp add: u32_of_bytes_def)
  ultimately have rv: "ReadValueAndReset s = (length c, s)"
    by (simp add: ReadValueAndReset_def c4(2))
  obtain buf where buf: "al (length c) = Some buf" "length buf = length c"
    using al by (metis alloc_totalE alloc_sizedD)
  have "in_read (length c) buf s = (c, ?s')" using in_read_full [OF g(1,2), of buf] buf(2) by simp
  then have "ReadContent al r idx s = (Content c, ?s')"
    using pe rv c4 buf(1) by (simp add: ReadContent_def minContentSize_def doc_const_defs SIZEOF_CONTENT_HEADER_def)
  then show "pages_loop al r callback idx s st = pages_loop al r callback idx ?s' (callback c st)"
    using at_offset_bounds(3) [OF at] by (simp add: pages_loop.simps [of al r callback idx s])
  have "drop (inPos s + length c) (inFile s) = rest"
    using arg_cong [OF g(2), of "drop (length c)"] by (simp add: add.commute)
  then show "at_offset r (b + length c) rest ?s'"
    using at by (simp add: at_offset_def add.assoc)
qed

text \<open>The zeros at the end of a page, or its exact end, lead to the next page.\<close>

lemma zeros_no_block:
  assumes at: "at_offset r b (replicate n 0 @ rest) s" and idx: "idx * drPageSize r \<le> b" "b \<le> (idx + 1) * drPageSize r"
    and n: "n = (idx + 1) * drPageSize r - b"
  shows "\<exists>code. ReadContent al r idx s = (NoContent code, s)"
proof (cases "b \<noteq> 0 \<and> (b = (idx + 1) * drPageSize r \<or> b mod drPageSize r + 4 \<ge> drPageSize r)")
  case True
  then show ?thesis using HasReadPageEnd_at [OF at idx] by (simp add: ReadContent_def)
next
  case False
  let ?P = "drPageSize r"
  have P: "1024 \<le> ?P" and g: "in_good s" "drop (inPos s) (inFile s) = replicate n 0 @ rest"
    using at by (auto simp: at_offset_def NUM_OF_BYTES_IN_KB_def)
  have lt: "b < (idx + 1) * ?P" using False idx P by (cases "b = 0") auto
  then have "b mod ?P = b - idx * ?P" using page_offset [OF idx(1)] by simp
  then have n4: "4 \<le> n" using False idx lt n P by (cases "b = 0") (auto simp: algebra_simps)
  have u: "u32_bytes 0 = replicate 4 0" by code_simp
  have "replicate n (0 :: byte) = u32_bytes 0 @ replicate (n - 4) 0"
    unfolding u replicate_add [symmetric] using n4 by simp
  then have "drop (inPos s) (inFile s) = u32_bytes 0 @ replicate (n - 4) 0 @ rest"
    using g(2) by (metis append_assoc)
  then have "in_read 4 (u32_bytes 0) s = (u32_bytes 0, s\<lparr>inPos := inPos s + 4\<rparr>)"
    by (rule in_read_full [OF g(1)]) simp_all
  moreover have "seekg_cur (- 4) (s\<lparr>inPos := inPos s + 4\<rparr>) = s"
    using seekg_cur_back [of "s\<lparr>inPos := inPos s + 4\<rparr>" 4] g(1) by (cases s) (simp add: in_good_def)
  ultimately have "ReadValueAndReset s = (0, s)" by (simp add: ReadValueAndReset_def)
  then show ?thesis
    using HasReadPageEnd_at [OF at idx] False
    by (auto simp: ReadContent_def minContentSize_def HIVIEW_BLOCK_SIZE_def)
qed

lemma next_page:
  assumes at: "at_offset r b (replicate n 0 @ rest) s" and idx: "idx * drPageSize r \<le> b" "b \<le> (idx + 1) * drPageSize r"
    and n: "n = (idx + 1) * drPageSize r - b" and rest: "rest \<noteq> []"
  shows "\<exists>s'. pages_loop al r callback idx s st = pages_loop al r callback (idx + 1) s' st \<and>
    at_offset r ((idx + 1) * drPageSize r) rest s'"
proof -
  let ?p = "drHeaderSize r + (idx + 1) * drPageSize r"
  note m = page_mult_exact [OF at idx(1)]
  obtain code where rc: "ReadContent al r idx s = (NoContent code, s)"
    using zeros_no_block [OF at idx n] by blast
  have g: "in_good s" "drFileSize r = int (length (inFile s))" "length (inFile s) < 2 ^ 31"
    "drop (inPos s) (inFile s) = replicate n 0 @ rest" "inPos s = drHeaderSize r + b"
    "length (inFile s) = drHeaderSize r + b + length (replicate n (0 :: byte) @ rest)"
    using at by (auto simp: at_offset_def)
  have lt: "?p < length (inFile s)" using g(6) n rest idx(2) by simp
  have "as_int (int ?p) = int ?p" by (rule as_int_nat) (use lt g(3) in linarith)
  then have "SeekgPage r (u32_add idx 1) s = (DOC_STORE_SUCCESS, s\<lparr>inPos := ?p\<rparr>)"
    using at_offset_bounds(3) [OF at] lt g(1,2) m(1,2) seekg_beg_good [OF g(1), of ?p]
    by (simp add: SeekgPage_def ReadFileSize_def mult.commute del: of_nat_add of_nat_mult of_nat_Suc)
  then have "pages_loop al r callback idx s st = pages_loop al r callback (idx + 1) (s\<lparr>inPos := ?p\<rparr>) st"
    using at_offset_bounds(3) [OF at] rc m(2) by (simp add: pages_loop.simps [of al r callback idx s])
  moreover have "?p = inPos s + n" using g(5) n idx(2) by simp
  then have "drop ?p (inFile s) = rest"
    using arg_cong [OF g(4), of "drop n"] by (simp add: add.commute)
  then have "at_offset r ((idx + 1) * drPageSize r) rest (s\<lparr>inPos := ?p\<rparr>)"
    using at g(6) n idx(2) by (simp add: at_offset_def)
  ultimately show ?thesis by blast
qed

lemma last_page:
  assumes at: "at_offset r b [] s" and idx: "idx * drPageSize r \<le> b" "b \<le> (idx + 1) * drPageSize r"
  shows "\<exists>s'. pages_loop al r callback idx s st = Some (Returned DOC_STORE_SUCCESS, st, s')"
proof -
  let ?P = "drPageSize r"
  have g: "in_good s" "drFileSize r = int (drHeaderSize r + b)" "length (inFile s) = inPos s"
    "drHeaderSize r + b + ?P < 2 ^ 31"
    using at by (auto simp: at_offset_def)
  note m = page_mult_exact [OF at idx(1)]
  let ?p = "drHeaderSize r + ?P * (idx + 1)"
  obtain code s2 where rc: "ReadContent al r idx s = (NoContent code, s2)" "s2 = s \<or> \<not> in_good s2"
  proof (cases "b \<noteq> 0 \<and> (b = (idx + 1) * ?P \<or> b mod ?P + 4 \<ge> ?P)")
    case True
    then show thesis using that HasReadPageEnd_at [OF at idx] by (simp add: ReadContent_def)
  next
    case False
    have "in_read 4 (u32_bytes 0) s = (u32_bytes 0, s\<lparr>inPos := inPos s, inEof := True, inFail := True\<rparr>)"
      using g(1,3) by (simp add: in_read_def)
    moreover define s2 where "s2 = seekg_cur (- 4) (s\<lparr>inPos := inPos s, inEof := True, inFail := True\<rparr>)"
    ultimately have "ReadValueAndReset s = (0, s2)" by (simp add: ReadValueAndReset_def)
    then have "ReadContent al r idx s = (NoContent DOC_STORE_READ_EMPTY, s2)"
      using HasReadPageEnd_at [OF at idx] False
      by (auto simp: ReadContent_def minContentSize_def HIVIEW_BLOCK_SIZE_def)
    moreover have "\<not> in_good s2" by (simp add: s2_def in_good_def)
    ultimately show thesis using that by blast
  qed
  have "fst (SeekgPage r (u32_add idx 1) s2) \<noteq> DOC_STORE_SUCCESS"
  proof (cases "s2 = s")
    case True
    have le: "idx * ?P \<le> b" by (fact idx(1))
    have "as_int (int ?p) = int ?p"
      by (rule as_int_nat) (use le g(4) in \<open>simp add: algebra_simps\<close>)
    moreover have "drHeaderSize r + b \<le> ?p" using idx(2) by (simp add: mult.commute)
    ultimately show ?thesis
      using True at_offset_bounds(3) [OF at] g(2) m(1)
      by (simp add: SeekgPage_def ReadFileSize_def Let_def del: of_nat_add of_nat_mult of_nat_Suc mult_Suc_right)
  next
    case False
    then have "fst (HasReadFileEnd s2)" using rc(2) HasReadFileEnd_bad by blast
    then show ?thesis by (cases "HasReadFileEnd s2") (simp add: SeekgPage_def)
  qed
  then show ?thesis
    using rc(1) at_offset_bounds(3) [OF at]
    by (cases "SeekgPage r (u32_add idx 1) s2") (simp add: pages_loop.simps [of al r callback idx s])
qed

text \<open>The page loop delivers the blocks of a layout in their order and ends with success.\<close>

lemma pages_loop_lay:
  assumes "alloc_sized al" "alloc_total al" "at_offset r b (lay (drPageSize r) b cs) s"
    and "\<forall>c \<in> set cs. block_ok (drPageSize r) c"
    and "idx * drPageSize r \<le> b" "b \<le> (idx + 1) * drPageSize r"
  shows "\<exists>s'. pages_loop al r callback idx s st = Some (Returned DOC_STORE_SUCCESS, fold callback cs st, s')"
  using assms(3-6)
proof (induction cs arbitrary: b idx s st)
  case Nil
  then show ?case using last_page [of r b s idx] by simp
next
  case (Cons c cs)
  let ?P = "drPageSize r"
  have c: "block_ok ?P c" using Cons.prems(2) by simp
  then have cP: "length c \<le> ?P" "c \<noteq> []" by (auto simp: block_ok_def minContentSize_def HIVIEW_BLOCK_SIZE_def)
  have P: "0 < ?P" using Cons.prems(1) by (auto simp: at_offset_def NUM_OF_BYTES_IN_KB_def)
  have here: "\<exists>s'. pages_loop al r callback j s st = Some (Returned DOC_STORE_SUCCESS, fold callback (c # cs) st, s')"
    if at: "at_offset r d (c @ lay ?P (d + length c) cs) s" and j: "j * ?P \<le> d" "d < (j + 1) * ?P"
      and fits: "length c \<le> (j + 1) * ?P - d" for d j s
  proof -
    let ?s = "s\<lparr>inPos := inPos s + length c\<rparr>"
    note step = read_block_here [OF assms(1,2) at c j fits]
    have "d + length c \<le> (j + 1) * ?P" using fits j(2) by simp
    then show ?thesis
      unfolding step(1) [of callback st] using Cons.IH [OF step(2), of j "callback c st"] Cons.prems(2) j(1)
      by simp
  qed
  show ?case
  proof (cases "b < (idx + 1) * ?P \<and> length c \<le> (idx + 1) * ?P - b")
    case True
    then have "page_pad ?P b c = []"
      using page_offset [OF Cons.prems(3)] Cons.prems(3) by (auto simp: page_pad_def page_rest_def algebra_simps)
    with Cons.prems(1) True Cons.prems(3) show ?thesis by (intro here [of b s idx]) auto
  next
    case False
    let ?n = "(idx + 1) * ?P - b" and ?d = "(idx + 1) * ?P"
    have rest: "lay ?P b (c # cs) = replicate ?n 0 @ c @ lay ?P (?d + length c) cs"
    proof (cases "b = ?d")
      case True
      then have "b mod ?P = 0" by simp
      then have "page_pad ?P b c = []" using cP(1) by (simp add: page_pad_def page_rest_def)
      then show ?thesis using True by simp
    next
      case ne: False
      then have lt: "b < ?d" using Cons.prems(4) by simp
      then have "page_rest ?P b = ?n"
        using page_offset [OF Cons.prems(3)] Cons.prems(3) by (simp add: page_rest_def algebra_simps)
      then have "page_pad ?P b c = replicate ?n 0" using False lt by (simp add: page_pad_def)
      then show ?thesis using lt by simp
    qed
    have ne: "c @ lay ?P (?d + length c) cs \<noteq> []" using cP(2) by simp
    obtain s' where s': "pages_loop al r callback idx s st = pages_loop al r callback (idx + 1) s' st"
      "at_offset r ?d (c @ lay ?P (?d + length c) cs) s'"
      using next_page [OF Cons.prems(1) [unfolded rest] Cons.prems(3,4) refl ne, of al callback st] by blast
    show ?thesis
      unfolding s'(1) by (rule here [OF s'(2)]) (use P cP(1) in \<open>simp_all add: algebra_simps\<close>)
  qed
qed

section \<open>Documents\<close>

text \<open>
  A document with header \<open>h\<close> that holds the blocks \<open>cs\<close>: pages of blocks, or a single block when the
  header says page size 0 because the first block was larger than a page.
\<close>

definition page_bytes :: "doc_header \<Rightarrow> nat" where
  "page_bytes h = unat (dhPageSize h) * NUM_OF_BYTES_IN_KB"

definition is_doc :: "doc_header \<Rightarrow> string \<Rightarrow> string \<Rightarrow> byte list list \<Rightarrow> byte list \<Rightarrow> bool" where
  "is_doc h sv pv cs f \<longleftrightarrow> head_ok h sv pv \<and>
     (if page_bytes h = 0
      then (\<exists>c. cs = [c] \<and> block_ok MAX_NEW_SIZE c \<and> f = head_bytes h sv pv @ c)
      else cs \<noteq> [] \<and> (\<forall>c \<in> set cs. block_ok (page_bytes h) c) \<and> f = head_bytes h sv pv @ lay (page_bytes h) 0 cs)"

lemma page_bytes_le: "page_bytes h \<le> 255 * 1024"
proof -
  have "unat (dhPageSize h) \<le> 255" using unat_byte_lt [of "dhPageSize h"] by linarith
  then show ?thesis by (simp add: page_bytes_def NUM_OF_BYTES_IN_KB_def)
qed

text \<open>The reader object once the header has been read.\<close>

definition opened :: "string \<Rightarrow> doc_header \<Rightarrow> string \<Rightarrow> string \<Rightarrow> byte list \<Rightarrow> doc_reader" where
  "opened path h sv pv f =
     \<lparr>drIn = (in_open (Some f))\<lparr>inPos := length (head_bytes h sv pv)\<rparr>, drFileSize = as_int (int (length f)),
      drPageSize = page_bytes h, drVersion = VERSION_CURRENT, drHeaderSize = length (head_bytes h sv pv),
      drExtra = \<lparr>heSysVersion = sv, hePatchVersion = pv\<rparr>,
      drInfo = (InitEventInfo path new_event_info)\<lparr>eiTag := c_str (dhTag h)\<rparr>\<rparr>"

lemma InitEventInfo_tag [simp]: "eiTag (InitEventInfo path info) = eiTag info"
  by (simp add: InitEventInfo_def Let_def split: prod.splits bool.splits option.splits)

lemma reader_fields:
  "drPageSize (SysEventDocReader path f) = 0" "drHeaderSize (SysEventDocReader path f) = 0"
  "drExtra (SysEventDocReader path f) = new_head_extra"
  by (simp_all add: SysEventDocReader_def Let_def split: prod.splits)

lemma doc_reader_eqI:
  assumes "drIn a = drIn b" "drFileSize a = drFileSize b" "drPageSize a = drPageSize b" "drVersion a = drVersion b"
    "drHeaderSize a = drHeaderSize b" "drExtra a = drExtra b" "drInfo a = drInfo b"
  shows "a = (b :: doc_reader)"
  using assms by (cases a; cases b) simp

lemma Read_with_opened:
  assumes h: "head_ok h sv pv" and f: "f = head_bytes h sv pv @ body"
  shows "Read_with al stk (SysEventDocReader path (Some f)) callback start =
    (let r = opened path h sv pv f in
     if page_bytes h = 0 then
       (case ReadContent al r 0 (drIn r) of
          (DivisionByZero, s) \<Rightarrow> Some (Crashed, start r)
        | (NoContent code, s) \<Rightarrow> Some (Returned code, start r)
        | (Content content, s) \<Rightarrow> Some (Returned DOC_STORE_SUCCESS, callback r content (start r)))
     else map_option (\<lambda>(e, st', s). (e, st')) (ReadPages al r (callback r) (start r)))"
proof -
  let ?r = "SysEventDocReader path (Some f)"
  note n = new_reader [OF h f, of path]
  have fl: "inFile (drIn ?r) = head_bytes h sv pv @ body" using n(1) f by simp
  have good: "in_good (drIn ?r)" "inOpen (drIn ?r)" using n(1) by simp_all
  note rh = ReadHeader_head [OF h fl good n(3), of stk]
  let ?r1 = "?r\<lparr>drIn := (drIn ?r)\<lparr>inPos := length (head_bytes h sv pv)\<rparr>,
    drHeaderSize := length (head_bytes h sv pv), drExtra := \<lparr>heSysVersion = sv, hePatchVersion = pv\<rparr>\<rparr>"
  have r2: "(set_tag h ?r1)\<lparr>drPageSize := page_bytes h\<rparr> = opened path h sv pv f"
    by (rule doc_reader_eqI) (simp_all add: set_tag_def opened_def n new_event_info_def)
  have "MAGIC_NUM = MAGIC_NUM_VERSION3" by (simp add: MAGIC_NUM_def MAGIC_NUM_VERSION3_def)
  then have valid: "IsValidHeader ?r1 h"
    using h n(3) by (simp add: IsValidHeader_def reader_of_version4 head_ok_def IsValidMagicNum_v3_def)
  have ps: "drPageSize (opened path h sv pv f) = page_bytes h" by (simp add: opened_def)
  show ?thesis
    unfolding Read_with_def rh using valid r2 ps
    by (simp add: Let_def page_bytes_def)
qed

text \<open>Reading a document hands its blocks to the callback, in order, and succeeds.\<close>

lemma Read_doc:
  assumes al: "alloc_sized al" "alloc_total al" and d: "is_doc h sv pv cs f"
    and size: "length f + page_bytes h < 2 ^ 31"
  shows "Read_with al stk (SysEventDocReader path (Some f)) callback start =
    Some (Returned DOC_STORE_SUCCESS,
      fold (callback (opened path h sv pv f)) cs (start (opened path h sv pv f)))"
proof -
  let ?r = "opened path h sv pv f" and ?H = "length (head_bytes h sv pv)"
  have h: "head_ok h sv pv" using d by (simp add: is_doc_def)
  have r: "drIn ?r = (in_open (Some f))\<lparr>inPos := ?H\<rparr>" "drHeaderSize ?r = ?H" "drPageSize ?r = page_bytes h"
    "drFileSize ?r = int (length f)"
    using size as_int_nat [of "length f"] by (simp_all add: opened_def)
  show ?thesis
  proof (cases "page_bytes h = 0")
    case True
    then obtain c where c: "cs = [c]" "block_ok MAX_NEW_SIZE c" "f = head_bytes h sv pv @ c"
      using d by (auto simp: is_doc_def)
    let ?s = "drIn ?r"
    have len: "unat (u32_of_bytes c) = length c" "47 \<le> length c" "length c \<le> MAX_NEW_SIZE"
      using c(2) by (auto simp: block_ok_def minContentSize_def doc_const_defs SIZEOF_CONTENT_HEADER_def)
    have H: "?H < 2 ^ 31" using size c(3) by simp
    have g: "in_good ?s" "inOpen ?s" "inPos ?s = ?H" "drop (inPos ?s) (inFile ?s) = c @ []"
      unfolding r(1) using c(3) by simp_all
    have "HasReadPageEnd ?r 0 ?s = (Some False, ?s)"
      using g H r(2) as_int_nat [of ?H] as_u32_small [of ?H]
      by (simp add: HasReadPageEnd_def HasReadFileEnd_good)
    moreover have "ReadValueAndReset ?s = (length c, ?s)"
    proof -
      have "in_read 4 (u32_bytes 0) ?s = (take 4 c, ?s\<lparr>inPos := inPos ?s + 4\<rparr>)"
        using in_read_full [OF g(1), of "take 4 c" "drop 4 c" "u32_bytes 0" 4] g(4) len(2) by simp
      moreover have "seekg_cur (- 4) (?s\<lparr>inPos := inPos ?s + 4\<rparr>) = ?s"
        using seekg_cur_back [of "?s\<lparr>inPos := inPos ?s + 4\<rparr>" 4] g(1) by (simp add: r(1))
      moreover have "u32_of_bytes (take 4 c) = u32_of_bytes c" by (simp add: u32_of_bytes_def)
      ultimately show ?thesis by (simp add: ReadValueAndReset_def len(1))
    qed
    moreover obtain buf where buf: "al (length c) = Some buf" "length buf = length c"
      using al by (metis alloc_totalE alloc_sizedD)
    moreover have "in_read (length c) buf ?s = (c, ?s\<lparr>inPos := inPos ?s + length c\<rparr>)"
      using in_read_full [OF g(1,4), of buf] buf(2) by simp
    ultimately have "ReadContent al ?r 0 ?s = (Content c, ?s\<lparr>inPos := inPos ?s + length c\<rparr>)"
      using len by (simp add: ReadContent_def minContentSize_def doc_const_defs SIZEOF_CONTENT_HEADER_def)
    then show ?thesis unfolding Read_with_opened [OF h c(3)] using True c(1) by (simp add: Let_def)
  next
    case False
    then have cs: "\<forall>c \<in> set cs. block_ok (page_bytes h) c" "f = head_bytes h sv pv @ lay (page_bytes h) 0 cs"
      using d by (auto simp: is_doc_def)
    have "NUM_OF_BYTES_IN_KB \<le> page_bytes h" using False by (simp add: page_bytes_def)
    then have "at_offset ?r 0 (lay (drPageSize ?r) 0 cs) (drIn ?r)"
      using size r cs(2) by (simp add: at_offset_def)
    from pages_loop_lay [OF al this, of 0 "callback ?r" "start ?r"] cs(1) r(3)
    show ?thesis
      unfolding Read_with_opened [OF h cs(2)] using False by (auto simp: ReadPages_def Let_def)
  qed
qed

section \<open>What the writer appends\<close>

text \<open>An event whose raw data starts with its size and holds at least a header.\<close>

definition event_raw :: "stored_event \<Rightarrow> byte list" where
  "event_raw ev = (case seRaw ev of None \<Rightarrow> [] | Some raw \<Rightarrow> raw)"

definition event_ok :: "stored_event \<Rightarrow> bool" where
  "event_ok ev \<longleftrightarrow> seRaw ev \<noteq> None \<and> unat (u32_of_bytes (event_raw ev)) = length (event_raw ev) \<and>
     GetValidDataMinimumByteCount \<le> length (event_raw ev)"

definition event_block :: "stored_event \<Rightarrow> byte list" where
  "event_block ev = content_bytes (length (event_raw ev) - 38) (seSeq ev) (drop 54 (event_raw ev))"

definition env_ok :: "write_env \<Rightarrow> bool" where
  "env_ok env \<longleftrightarrow> version_ok (weSysVersion env) \<and> version_ok (wePatchVersion env) \<and>
     (\<forall>ty. unat (wePageSize env ty) < 256)"

lemma event_block_length:
  assumes "event_ok ev"
  shows "length (event_block ev) = length (event_raw ev) - 38"
  using assms by (simp add: event_block_def content_bytes_def event_ok_def GetValidDataMinimumByteCount_def
      SIZEOF_HEADER_def)

lemma event_block_ok:
  assumes "event_ok ev" "length (event_raw ev) \<le> MAX_NEW_SIZE" "length (event_block ev) \<le> P"
  shows "block_ok P (event_block ev)"
proof -
  have raw: "85 \<le> length (event_raw ev)" "length (event_raw ev) \<le> 395264"
    using assms(1,2) by (auto simp: event_ok_def GetValidDataMinimumByteCount_def SIZEOF_HEADER_def MAX_NEW_SIZE_def)
  have "u32_of_bytes (event_block ev) = word_of_nat (length (event_raw ev) - 38)"
    by (simp add: event_block_def content_bytes_def)
  moreover have "unat (word_of_nat (length (event_raw ev) - 38) :: u32) = length (event_raw ev) - 38"
    using raw by (simp add: unat_of_nat del: of_nat_diff)
  ultimately show ?thesis
    using assms(3) raw event_block_length [OF assms(1)]
    by (auto simp: block_ok_def minContentSize_def doc_const_defs SIZEOF_CONTENT_HEADER_def MAX_NEW_SIZE_def)
qed

lemma GetContentSize_ok:
  assumes "event_ok ev" "length (event_raw ev) \<le> MAX_NEW_SIZE"
  shows "GetContentSize ev = Inr (length (event_block ev))"
  using assms event_block_length [OF assms(1)]
  by (auto simp: GetContentSize_def event_ok_def event_raw_def RAW_DATA_OFFSET_def doc_const_defs
      GetValidDataMinimumByteCount_def SIZEOF_HEADER_def)

lemma GetContentSize_large:
  assumes "event_ok ev" "MAX_NEW_SIZE < length (event_raw ev)"
  shows "GetContentSize ev = Inl DOC_STORE_ERROR_INVALID"
  using assms by (auto simp: GetContentSize_def event_ok_def event_raw_def)

lemma WriteContent_block:
  assumes "event_ok ev"
  shows "WriteContent ev (length (event_block ev)) f = (DOC_STORE_SUCCESS, f @ event_block ev)"
proof -
  obtain raw where raw: "seRaw ev = Some raw" "event_raw ev = raw" using assms by (auto simp: event_ok_def event_raw_def)
  have "take (length raw - 54) (drop 54 raw) = drop 54 raw" by simp
  then show ?thesis
    using assms raw event_block_length [OF assms]
    by (simp add: WriteContent_def event_block_def event_ok_def RAW_DATA_OFFSET_def doc_const_defs)
qed

lemma length_tag_field [simp]: "length (tag_field tag) = MAX_TAG_LEN"
  by (simp add: tag_field_def Let_def)

lemma new_header_ok:
  assumes "env_ok env"
  shows "head_ok (new_doc_header env ev n) (weSysVersion env) (wePatchVersion env)"
proof -
  let ?h = "new_doc_header env ev n" and ?sv = "weSysVersion env" and ?pv = "wePatchVersion env"
  have v: "length ?sv \<le> 1000" "length ?pv \<le> 1000"
    using assms by (auto simp: env_ok_def version_ok_def MAX_VERSION_LENG_def)
  have "unat (dhBlockSize ?h) = 33 + length ?sv + length ?pv"
    using v by (simp add: new_doc_header_def SIZEOF_DOC_HEADER_def unat_of_nat del: of_nat_add of_nat_Suc)
  moreover have tag: "length (dhTag ?h) = MAX_TAG_LEN" by (simp add: new_doc_header_def)
  ultimately show ?thesis
    using assms length_head_bytes [OF tag, of ?sv ?pv]
    by (simp add: head_ok_def env_ok_def) (simp add: new_doc_header_def)
qed

lemma Write_success:
  assumes "event_ok ev" "Write al stk env path (Some ev) w f = (DOC_STORE_SUCCESS, w', f')"
  shows "dwOpen w" "length (event_raw ev) \<le> MAX_NEW_SIZE"
proof -
  show opn: "dwOpen w" using assms(2) by (auto simp: Write_def split: if_splits)
  show "length (event_raw ev) \<le> MAX_NEW_SIZE"
  proof (rule ccontr)
    assume "\<not> length (event_raw ev) \<le> MAX_NEW_SIZE"
    then have "GetContentSize ev = Inl DOC_STORE_ERROR_INVALID" using GetContentSize_large [OF assms(1)] by simp
    then show False using assms(2) opn by (simp add: Write_def)
  qed
qed

text \<open>The first event makes the header; its block is the first block of the document.\<close>

lemma Write_first:
  assumes "env_ok env" "event_ok ev" "Write al stk env path (Some ev) w [] = (DOC_STORE_SUCCESS, w', f')"
  shows "\<exists>h. is_doc h (weSysVersion env) (wePatchVersion env) [event_block ev] f' \<and> dhTag h = tag_field (seTag ev)"
proof -
  let ?sv = "weSysVersion env" and ?pv = "wePatchVersion env" and ?c = "event_block ev"
  let ?k = "unat (wePageSize env (seType ev))"
  note opn = Write_success(1) [OF assms(2,3)] and small = Write_success(2) [OF assms(2,3)]
  note cs = GetContentSize_ok [OF assms(2) small]
  have size0: "ReadFileSize (SysEventDocReader path (Some [])) = 0"
    by (simp add: ReadFileSize_def SysEventDocReader_def Let_def in_open_def seekg_end_def seek_to_def tellg_def
        in_good_def as_int_def split: prod.splits)
  let ?n = "if length ?c > u32_mul ?k NUM_OF_BYTES_IN_KB then 0 else ?k"
  let ?h = "new_doc_header env ev ?n"
  have k: "?k \<noteq> 0" and f': "f' = head_bytes ?h ?sv ?pv @ ?c"
    using assms(3) opn cs size0 WriteContent_block [OF assms(2)]
    by (auto simp: Write_def WriteHeader_def Let_def head_bytes_def split: if_splits)
  have k256: "?k < 256" using assms(1) by (simp add: env_ok_def)
  then have mul: "u32_mul ?k NUM_OF_BYTES_IN_KB = ?k * 1024" by (simp add: u32_mul_def NUM_OF_BYTES_IN_KB_def)
  have pb: "page_bytes ?h = ?n * 1024"
    using k256 by (simp add: page_bytes_def new_doc_header_def NUM_OF_BYTES_IN_KB_def unat_of_nat)
  have "is_doc ?h ?sv ?pv [?c] f'"
  proof (cases "page_bytes ?h = 0")
    case True
    moreover have "block_ok MAX_NEW_SIZE ?c"
      using event_block_ok [OF assms(2) small] event_block_length [OF assms(2)] small by simp
    ultimately show ?thesis using new_header_ok [OF assms(1)] f' by (simp add: is_doc_def)
  next
    case False
    then have "length ?c \<le> page_bytes ?h" using pb mul by (auto split: if_splits)
    moreover from this have "block_ok (page_bytes ?h) ?c" using event_block_ok [OF assms(2) small] by simp
    moreover have "page_pad (page_bytes ?h) 0 ?c = []" using calculation(1) by (simp add: page_pad_def page_rest_def)
    ultimately show ?thesis using new_header_ok [OF assms(1)] f' False by (simp add: is_doc_def)
  qed
  then show ?thesis by (intro exI [of _ ?h]) (simp add: new_doc_header_def)
qed

text \<open>A further event is appended to a document, after zeros up to the next page if needed.\<close>

lemma Write_further:
  assumes d: "is_doc h (weSysVersion env) (wePatchVersion env) cs f" and ev: "event_ok ev"
    and size: "length f < 2 ^ 31" and w: "Write al stk env path (Some ev) w f = (DOC_STORE_SUCCESS, w', f')"
  shows "is_doc h (weSysVersion env) (wePatchVersion env) (cs @ [event_block ev]) f'"
proof -
  let ?sv = "weSysVersion env" and ?pv = "wePatchVersion env" and ?c = "event_block ev" and ?P = "page_bytes h"
  let ?r = "SysEventDocReader path (Some f)" and ?H = "length (head_bytes h (weSysVersion env) (wePatchVersion env))"
  have h: "head_ok h ?sv ?pv" using d by (simp add: is_doc_def)
  then have H: "?H \<le> 2041" "unat (dhBlockSize h) + 8 = ?H"
    using length_head_bytes [of h ?sv ?pv] by (auto simp: head_ok_def version_ok_def MAX_VERSION_LENG_def)
  obtain body where f: "f = head_bytes h ?sv ?pv @ body" using d by (auto simp: is_doc_def split: if_splits)
  note opn = Write_success(1) [OF ev w] and small = Write_success(2) [OF ev w]
  note n = new_reader [OF h f, of path]
  have fs: "ReadFileSize ?r = int (length f)" using n(2) as_int_nat [OF size] by (simp add: ReadFileSize_def)
  have "0 < ?H" using h length_head_bytes [of h ?sv ?pv] by (simp add: head_ok_def)
  then have ne: "length f \<noteq> 0" by (simp add: f)
  have fl: "inFile (drIn ?r) = head_bytes h ?sv ?pv @ body" "in_good (drIn ?r)" "inOpen (drIn ?r)"
    using n(1) f by simp_all
  note rh = ReadHeader_head [OF h fl n(3), of stk]
  let ?r1 = "?r\<lparr>drIn := (drIn ?r)\<lparr>inPos := ?H\<rparr>, drHeaderSize := ?H, drExtra := \<lparr>heSysVersion = ?sv, hePatchVersion = ?pv\<rparr>\<rparr>"
  obtain r2 where rp: "ReadPageSize stk ?r1 = (DOC_STORE_SUCCESS, ?P, r2)"
    using ReadHeader_head [OF h, of ?r1 body stk] fl n(3) by (simp add: ReadPageSize_def page_bytes_def)
  have ver: "dhVersion h = VERSION_CURRENT" using h by (simp add: head_ok_def)
  let ?w1 = "w\<lparr>dwHeaderSize := ?H mod 2 ^ 32\<rparr>"
  have "Write al stk env path (Some ev) w f = Write_next al stk env ?r ev (length ?c) w f"
    using opn GetContentSize_ok [OF ev small] fs ne by (simp add: Write_def)
  then have wn: "Write_next al stk env ?r ev (length ?c) w f = (DOC_STORE_SUCCESS, w', f')" using w by simp
  have P: "?P \<noteq> 0" "length ?c \<le> ?P"
    using wn rh rp ver by (auto simp: Write_next_def H(2) Let_def split: if_splits)
  then have body: "body = lay ?P 0 cs" "cs \<noteq> []" "\<forall>c \<in> set cs. block_ok ?P c"
    using d f by (auto simp: is_doc_def)
  have rem: "GetCurrPageRemainSize ?w1 (ReadFileSize ?r) ?P = page_rest ?P (length body)"
    using size H(1) fs f as_u32_small [of "length f"] as_u32_small [of "length body"]
    by (simp add: GetCurrPageRemainSize_def page_rest_def)
  have PM: "page_rest ?P b \<le> MAX_NEW_SIZE" for b
    using page_bytes_le [of h] by (simp add: page_rest_def MAX_NEW_SIZE_def)
  have "f' = f @ page_pad ?P (length body) ?c @ ?c"
    using wn rh rp ver P rem WriteContent_block [OF ev] PM [of "length body"]
    by (auto simp: Write_next_def H(2) page_pad_def FillCurrPageWithZero_def Let_def split: if_splits option.splits)
  then have "f' = head_bytes h ?sv ?pv @ lay ?P 0 (cs @ [?c])"
    using body(1) by (simp add: f lay_append)
  moreover have "block_ok ?P ?c" using event_block_ok [OF ev small P(2)] .
  ultimately show ?thesis using h P(1) body(3) by (simp add: is_doc_def)
qed

text \<open>A run of writes that all succeed, and the document it leaves.\<close>

fun write_all :: "alloc \<Rightarrow> (nat \<Rightarrow> byte list) \<Rightarrow> write_env \<Rightarrow> string \<Rightarrow> stored_event list \<Rightarrow>
    doc_writer \<Rightarrow> byte list \<Rightarrow> (doc_writer \<times> byte list) option" where
  "write_all al stk env path [] w f = Some (w, f)"
| "write_all al stk env path (ev # evs) w f =
     (case Write al stk env path (Some ev) w f of
        (ret, w1, f1) \<Rightarrow> if ret = DOC_STORE_SUCCESS then write_all al stk env path evs w1 f1 else None)"

lemma WriteContent_grows: "prefix f (snd (WriteContent ev n f))"
  by (simp add: WriteContent_def Let_def split: option.split)

lemma Fill_grows: "prefix f (snd (FillCurrPageWithZero al n f))"
  by (simp add: FillCurrPageWithZero_def split: option.split)

lemma Write_next_grows: "prefix f (snd (snd (Write_next al stk env r ev n w f)))"
  using WriteContent_grows [of _ ev n] Fill_grows [of f al]
  by (auto simp: Write_next_def Let_def split: prod.split)
    (metis prefix_order.trans snd_conv)+

lemma WriteHeader_grows: "prefix f (snd (snd (WriteHeader env ev n w f)))"
  by (simp add: WriteHeader_def Let_def)

lemma Write_grows: "prefix f (snd (snd (Write al stk env path ev w f)))"
proof (cases ev)
  case (Some e)
  show ?thesis
  proof (cases "GetContentSize e")
    case (Inr n)
    have "prefix f (snd (snd (case WriteHeader env e n w f of
        (ret, w1, file1) \<Rightarrow> if ret \<noteq> DOC_STORE_SUCCESS then (ret, w1, file1)
          else case WriteContent e n file1 of (ret, file2) \<Rightarrow> (ret, w1, file2))))"
      using WriteHeader_grows [of f env e n w] WriteContent_grows [of _ e n]
      by (auto split: prod.split) (metis prefix_order.trans snd_conv)
    then show ?thesis using Inr Some Write_next_grows by (simp add: Write_def Let_def)
  qed (simp add: Write_def Some)
qed (simp add: Write_def)

lemma write_all_grows: "write_all al stk env path evs w f = Some (w', f') \<Longrightarrow> prefix f f'"
proof (induction evs arbitrary: w f)
  case (Cons ev evs)
  then show ?case
    using Write_grows [of f al stk env path "Some ev" w]
    by (auto split: prod.splits if_splits intro: prefix_order.trans)
qed simp

lemma write_all_further:
  assumes "is_doc h (weSysVersion env) (wePatchVersion env) cs f" "\<forall>ev \<in> set evs. event_ok ev"
    and "write_all al stk env path evs w f = Some (w', f')" "length f' < 2 ^ 31"
  shows "is_doc h (weSysVersion env) (wePatchVersion env) (cs @ map event_block evs) f'"
  using assms
proof (induction evs arbitrary: cs w f)
  case (Cons ev evs)
  obtain w1 f1 where w: "Write al stk env path (Some ev) w f = (DOC_STORE_SUCCESS, w1, f1)"
    and rest: "write_all al stk env path evs w1 f1 = Some (w', f')"
    using Cons.prems(3) by (auto split: prod.splits if_splits)
  have "length f < 2 ^ 31"
    using prefix_length_le [OF write_all_grows [OF Cons.prems(3)]] Cons.prems(4) by simp
  note d1 = Write_further [OF Cons.prems(1) _ this w]
  have "is_doc h (weSysVersion env) (wePatchVersion env) ((cs @ [event_block ev]) @ map event_block evs) f'"
    using Cons.prems by (intro Cons.IH [OF d1 _ rest]) simp_all
  then show ?case by simp
qed simp

lemma write_all_doc:
  assumes "env_ok env" "\<forall>ev \<in> set (ev # evs). event_ok ev" "write_all al stk env path (ev # evs) w [] = Some (w', f)"
    and "length f < 2 ^ 31"
  obtains h where "is_doc h (weSysVersion env) (wePatchVersion env) (map event_block (ev # evs)) f"
    "dhTag h = tag_field (seTag ev)"
proof -
  obtain w1 f1 where w: "Write al stk env path (Some ev) w [] = (DOC_STORE_SUCCESS, w1, f1)"
    and rest: "write_all al stk env path evs w1 f1 = Some (w', f)"
    using assms(3) by (auto split: prod.splits if_splits)
  obtain h where h: "is_doc h (weSysVersion env) (wePatchVersion env) [event_block ev] f1" "dhTag h = tag_field (seTag ev)"
    using Write_first [OF assms(1) _ w] assms(2) by auto
  show thesis
    using write_all_further [OF h(1) _ rest assms(4)] assms(2) h(2) that by simp
qed

text \<open>What was written is read: the blocks of the events, each once, in the order of the writes.\<close>

lemma write_read:
  assumes "alloc_sized al" "alloc_total al" "env_ok env" "\<forall>ev \<in> set (ev # evs). event_ok ev"
    and "write_all al' stk' env path (ev # evs) w [] = Some (w', f)" "length f + 255 * 1024 < 2 ^ 31"
  obtains r where "Read_with al stk (SysEventDocReader path (Some f)) callback start =
      Some (Returned DOC_STORE_SUCCESS, fold (callback r) (map event_block (ev # evs)) (start r))"
    "drVersion r = VERSION_CURRENT" "drExtra r = \<lparr>heSysVersion = weSysVersion env, hePatchVersion = wePatchVersion env\<rparr>"
    "drInfo r = (InitEventInfo path new_event_info)\<lparr>eiTag := c_str (tag_field (seTag ev))\<rparr>"
proof -
  obtain h where h: "is_doc h (weSysVersion env) (wePatchVersion env) (map event_block (ev # evs)) f"
    "dhTag h = tag_field (seTag ev)"
    by (rule write_all_doc [OF assms(3-5)]) (use assms(6) in simp_all)
  have "length f + page_bytes h < 2 ^ 31" using page_bytes_le [of h] assms(6) by linarith
  from Read_doc [OF assms(1,2) h(1) this, of stk path callback start] h(2) show thesis
    by (intro that [of "opened path h (weSysVersion env) (wePatchVersion env) f"]) (simp_all add: opened_def)
qed

end
