(* ===== verification/Doc_Events.thy ===== *)
theory Doc_Events
  imports Doc_Layout
begin

text \<open>
  Events through a document: an event that was stored is found again by a query, with the domain,
  name and level its path says, the versions of the file header, and its own header, trace record
  and parameters, to which the tag, the level and the sequence number are added as parameters.
\<close>

section \<open>The path of a document\<close>

definition doc_path :: "string list \<Rightarrow> string \<Rightarrow> string \<Rightarrow> string" where
  "doc_path dirs domain fname = CHR ''/'' # join_with (CHR ''/'') (dirs @ [domain, fname])"

lemma SplitStr_absolute:
  assumes "ps \<noteq> []" "\<forall>p \<in> set ps. plain_part (CHR ''/'') p"
  shows "SplitStr (CHR ''/'' # join_with (CHR ''/'') ps) ''/'' False True = ps"
proof -
  let ?s = "join_with (CHR ''/'') ps"
  have "CHR '' '' \<notin> set (CHR ''/'' # ?s)"
    using join_with_set [of "CHR ''/''" ps] assms(2) by (auto simp: plain_part_def)
  then have "SplitStr (CHR ''/'' # ?s) ''/'' False True = split_loop ''/'' False True (CHR ''/'' # ?s) []"
    by (simp add: SplitStr_def trim_if_plain)
  also have "\<dots> = split_loop ''/'' False True ?s []"
    by (simp add: split_loop.simps [of _ _ _ "CHR ''/'' # ?s"] str_find_def trim_if_def TrimStr_def push_part_def)
  finally show ?thesis using split_loop_join [OF assms] by simp
qed

definition padded :: "nat \<Rightarrow> string \<Rightarrow> byte list" where
  "padded n s = bytes_of_string s @ replicate (n - length s) 0"

lemma length_padded: "length s \<le> n \<Longrightarrow> length (padded n s) = n"
  by (simp add: padded_def)

lemma c_str_padded: "CHR 0x00 \<notin> set s \<Longrightarrow> length s < n \<Longrightarrow> c_str (padded n s) = s"
  using c_str_bytes_of_string [of s "replicate (n - length s - 1) 0"]
  by (simp add: padded_def Suc_diff_Suc flip: replicate_Suc)

lemma InitEventInfo_path:
  assumes "\<forall>p \<in> set dirs. plain_part (CHR ''/'') p" "plain_part (CHR ''/'') domain" "length domain < MAX_DOMAIN_LEN"
    and "IsValidDomainName nm MAX_EVENT_NAME_LEN" "nm \<noteq> []" "level = ''CRITICAL'' \<or> level = ''MINOR''"
    and "IsValidType ty" "0 < sq" "sq < 2 ^ 63" "0 \<le> interval" "interval < 2 ^ 15"
  shows "InitEventInfo (doc_path dirs domain (db_file_name nm ty level sq interval)) new_event_info =
    new_event_info\<lparr>eiDomain := padded MAX_DOMAIN_LEN domain, eiName := padded MAX_EVENT_NAME_LEN nm, eiLevel := level\<rparr>"
proof -
  let ?f = "db_file_name nm ty level sq interval"
  have ty: "0 \<le> ty" using assms(7) by (auto simp: IsValidType_def)
  have chars: "c \<noteq> CHR ''/'' \<and> c \<noteq> CHR '' ''" if "is_digit c" for c using that by (auto simp: is_digit_def)
  have nm: "c \<noteq> CHR ''/'' \<and> c \<noteq> CHR '' ''" if "c \<in> set nm" for c
  proof -
    have "is_digit c \<or> is_lower c \<or> is_upper c \<or> c = CHR ''_''"
      using assms(4) that by (auto simp: IsValidDomainName_def list_all_iff split: if_splits)
    then show ?thesis by (auto simp: is_digit_def is_lower_def is_upper_def)
  qed
  have "plain_part (CHR ''/'') ?f"
    using nm chars show_nat_no_space assms(5,6,8,10) ty
    by (auto simp: plain_part_def db_file_name_def show_int_def)
  then have split: "SplitStr (doc_path dirs domain ?f) ''/'' False True = dirs @ [domain, ?f]"
    unfolding doc_path_def using assms(1,2) by (intro SplitStr_absolute) auto
  have at: "(dirs @ [domain, ?f]) ! (length (dirs @ [domain, ?f]) - 2) = domain" by (simp add: nth_append)
  have parse: "ParseEventInfoFromDbFileName ?f new_splited_info (NAME_ONLY OR LEVEL_ONLY) =
      Some (new_splited_info\<lparr>siName := nm, siLevel := level\<rparr>)"
    using parse_db_file_name [OF assms(4-11), of new_splited_info "NAME_ONLY OR LEVEL_ONLY"]
    by (simp add: picked_def parse_type_defs new_splited_info_def)
  have nmlen: "length nm < MAX_EVENT_NAME_LEN" using assms(4) by (simp add: IsValidDomainName_def split: if_splits)
  show ?thesis
    using assms(3) nmlen
    by (simp add: InitEventInfo_def Let_def split at parse memcpy_s_def padded_def new_event_info_def
        del: append_assoc)
qed

section \<open>Entries\<close>

text \<open>The store's view of an event: sequence number, header, trace record and parameters.\<close>

record event_view =
  evSeq :: i64
  evHeader :: hisysevent_header
  evTrace :: trace_info
  evParams :: "(string \<times> param_value) list"

definition view_ok :: "event_view \<Rightarrow> bool" where
  "view_ok v \<longleftrightarrow> header_ok (evHeader v) \<and> 0 \<le> sint (evSeq v) \<and> 0 \<le> sint (hdTimestamp (evHeader v)) \<and>
     length (block_bytes (evHeader v) (evTrace v) (evParams v)) + 132 \<le> MAX_NEW_SIZE"

definition event_of :: "stored_event \<Rightarrow> event_view \<Rightarrow> stored_event" where
  "event_of base v = base\<lparr>seSeq := evSeq v, seRaw := Some (block_bytes (evHeader v) (evTrace v) (evParams v))\<rparr>"

text \<open>What an entry of the result says about an event.\<close>

definition entry_matches :: "event_info \<Rightarrow> head_extra_info \<Rightarrow> event_view \<Rightarrow> entry \<Rightarrow> bool" where
  "entry_matches info extra v en \<longleftrightarrow>
     enId en = evSeq v \<and> enTs en = hdTimestamp (evHeader v) \<and>
     enSysVersion en = heSysVersion extra \<and> enPatchVersion en = hePatchVersion extra \<and>
     raw_live (enData en) \<and>
     rd_bytes (enData en) =
       block_bytes ((evHeader v)\<lparr>hdDomain := eiDomain info, hdName := eiName info\<rparr>) (evTrace v)
         (evParams v @ extra_params (info\<lparr>eiSeq := evSeq v\<rparr>))"

lemma event_of_ok:
  assumes "view_ok v"
  shows "event_ok (event_of base v)"
    "event_block (event_of base v) =
      content_bytes (length (block_bytes (evHeader v) (evTrace v) (evParams v)) - 38) (evSeq v)
        (stored_part (evHeader v) (evTrace v) (evParams v))"
proof -
  let ?b = "block_bytes (evHeader v) (evTrace v) (evParams v)"
  have len: "length ?b < 2 ^ 32" "85 \<le> length ?b"
    using assms length_header_bytes [of "evHeader v"]
    by (auto simp: view_ok_def MAX_NEW_SIZE_def length_block_bytes block_tail_def SIZEOF_HEADER_def)
  have "unat (u32_of_bytes ?b) = length ?b"
    using len(1) by (simp add: block_bytes_def unat_of_nat del: of_nat_add)
  then show "event_ok (event_of base v)"
    using len(2) by (simp add: event_ok_def event_of_def event_raw_def GetValidDataMinimumByteCount_def SIZEOF_HEADER_def)
  show "event_block (event_of base v) = content_bytes (length ?b - 38) (evSeq v)
      (stored_part (evHeader v) (evTrace v) (evParams v))"
    using stored_part_drop [of "evHeader v"] assms by (simp add: event_block_def event_of_def event_raw_def view_ok_def)
qed

definition info_ok :: "event_info \<Rightarrow> bool" where
  "info_ok info \<longleftrightarrow> length (eiDomain info) = MAX_DOMAIN_LEN \<and> length (eiName info) = MAX_EVENT_NAME_LEN \<and>
     c_str (eiDomain info) \<noteq> [] \<and> c_str (eiName info) \<noteq> [] \<and> eiLevel info \<noteq> []"

text \<open>One block of a document becomes one entry of a query without conditions.\<close>

lemma TryToAddEntry_block:
  assumes al: "alloc_sized al" "alloc_total al" and v: "view_ok v" and info: "info_ok (qsInfo q)"
    and r: "drVersion r = VERSION_CURRENT"
  obtains en where "TryToAddEntry al junk new_doc_query r (event_block (event_of base v)) q =
      Inr (q\<lparr>qsInfo := (qsInfo q)\<lparr>eiSeq := evSeq v, eiTimestamp := hdTimestamp (evHeader v)\<rparr>,
        qsNum := qsNum q + 1, qsEntries := qsEntries q @ [en]\<rparr>)"
    "entry_matches (qsInfo q) (drExtra r) v en"
proof -
  let ?h = "evHeader v" and ?tr = "evTrace v" and ?ps = "evParams v"
  let ?n = "length (block_bytes ?h ?tr ?ps)" and ?c = "event_block (event_of base v)"
  let ?info = "(qsInfo q)\<lparr>eiSeq := evSeq v, eiTimestamp := hdTimestamp ?h\<rparr>"
  have c: "?c = u32_bytes (word_of_nat (?n - 38)) @ u64_bytes (evSeq v) @ stored_part ?h ?tr ?ps @ u32_bytes 0"
    using event_of_ok(2) [OF v] by (simp add: content_bytes_def)
  have "u64_of_bytes (drop 4 ?c) = evSeq v" "u64_of_bytes (drop 12 ?c) = hdTimestamp ?h"
    unfolding c by (simp_all add: stored_part_def header_rest_def)
  then have chk: "CheckEventInfo ?c (qsInfo q) = (True, ?info)"
    using info v by (simp add: CheckEventInfo_def info_ok_def view_ok_def HIVIEW_BLOCK_SIZE_def SEQ_SIZE_def)
  have "header_ok ?h" using v by (simp add: view_ok_def)
  then have "length (stored_part ?h ?tr ?ps) = ?n - 54"
    using stored_part_drop [of ?h ?tr ?ps] by (metis length_drop)
  moreover have "85 \<le> ?n" using event_of_ok(1) [OF v, of base]
    by (simp add: event_ok_def event_of_def event_raw_def GetValidDataMinimumByteCount_def SIZEOF_HEADER_def)
  ultimately have clen: "length ?c = ?n - 38" by (simp add: c)
  have fits: "event_size ContentReaderVersion4 (length ?c) \<le> MAX_NEW_SIZE"
    using v \<open>85 \<le> ?n\<close> by (simp add: event_size_def GetContentHeaderSize_v3_def clen SIZEOF_CONTENT_HEADER_def doc_const_defs expandSize_def view_ok_def)
  have ilen: "length (eiDomain ?info) = MAX_DOMAIN_LEN" "length (eiName ?info) = MAX_EVENT_NAME_LEN"
    using info by (simp_all add: info_ok_def)
  obtain rd where rd: "ReadRawData al ContentReaderVersion4 junk ?info ?c (length ?c) = Some rd" "raw_live rd"
    "rd_bytes rd = block_bytes (?h\<lparr>hdDomain := eiDomain ?info, hdName := eiName ?info\<rparr>) ?tr (?ps @ extra_params ?info)"
    by (rule ReadRawData_block [OF al disjI2 [OF refl] c length_u32_bytes length_u64_bytes length_u32_bytes ilen fits])
  have ex: "extra_params ?info = extra_params ((qsInfo q)\<lparr>eiSeq := evSeq v\<rparr>)"
    by (simp add: extra_params_def)
  let ?en = "\<lparr>enId = evSeq v, enTs = hdTimestamp ?h, enData = rd, enSysVersion = heSysVersion (drExtra r),
    enPatchVersion = hePatchVersion (drExtra r)\<rparr>"
  have b: "BuildRawData al junk r ?info ?c = Some rd"
    using rd(1) r by (simp add: BuildRawData_def reader_of_version4)
  show thesis
    by (rule that [of ?en])
      (use chk b rd(2,3) ex in \<open>simp_all add: TryToAddEntry_def IsContainInnerConds_def IsContainExtraConds_def
        new_doc_query_def entry_matches_def Let_def\<close>)
qed

text \<open>An event that is stored but larger than what is left for the added parameters is not found again.\<close>

lemma TryToAddEntry_oversized:
  assumes "event_ok ev" "MAX_NEW_SIZE < length (event_raw ev) + 132" "drVersion r = VERSION_CURRENT"
  shows "\<exists>info. TryToAddEntry al junk query r (event_block ev) q = Inr (q\<lparr>qsInfo := info\<rparr>)"
proof -
  have "85 \<le> length (event_raw ev)"
    using assms(1) by (simp add: event_ok_def GetValidDataMinimumByteCount_def SIZEOF_HEADER_def)
  then have "event_size ContentReaderVersion4 (length (event_block ev)) > MAX_NEW_SIZE"
    using assms(2) event_block_length [OF assms(1)]
    by (simp add: event_size_def GetContentHeaderSize_v3_def SIZEOF_CONTENT_HEADER_def doc_const_defs expandSize_def)
  then have "BuildRawData al junk r info (event_block ev) = None" for info
    using assms(3) by (simp add: BuildRawData_def reader_of_version4 ReadRawData_def)
  then show ?thesis by (auto simp: TryToAddEntry_def Let_def split: prod.splits bool.splits)
qed

section \<open>From the writer to the query\<close>

definition query_step :: "alloc \<Rightarrow> content_header \<Rightarrow> doc_query \<Rightarrow> doc_reader \<Rightarrow> byte list \<Rightarrow>
    undefined_behaviour + query_state \<Rightarrow> undefined_behaviour + query_state" where
  "query_step al junk query r content st =
     (case st of Inl u \<Rightarrow> Inl u | Inr q \<Rightarrow> TryToAddEntry al junk query r content q)"

lemma query_step_Inr [simp]: "query_step al junk query r content (Inr q) = TryToAddEntry al junk query r content q"
  by (simp add: query_step_def)

lemma entry_matches_info: "entry_matches (info\<lparr>eiSeq := x, eiTimestamp := y\<rparr>) = entry_matches info"
  by (intro ext) (simp add: entry_matches_def extra_params_def)

lemma fold_query_steps:
  assumes "alloc_sized al" "alloc_total al" "\<forall>v \<in> set vs. view_ok v" "info_ok (qsInfo q)" "drVersion r = VERSION_CURRENT"
  shows "\<exists>q' ens. fold (query_step al junk new_doc_query r) (map (\<lambda>v. event_block (event_of base v)) vs) (Inr q) = Inr q' \<and>
    qsEntries q' = qsEntries q @ ens \<and> qsNum q' = qsNum q + length vs \<and>
    list_all2 (entry_matches (qsInfo q) (drExtra r)) vs ens"
  using assms(3,4)
proof (induction vs arbitrary: q)
  case (Cons v vs)
  obtain en where en: "TryToAddEntry al junk new_doc_query r (event_block (event_of base v)) q =
      Inr (q\<lparr>qsInfo := (qsInfo q)\<lparr>eiSeq := evSeq v, eiTimestamp := hdTimestamp (evHeader v)\<rparr>,
        qsNum := qsNum q + 1, qsEntries := qsEntries q @ [en]\<rparr>)"
    "entry_matches (qsInfo q) (drExtra r) v en"
    using TryToAddEntry_block [OF assms(1,2) _ Cons.prems(2) assms(5)] Cons.prems(1) by (metis list.set_intros(1))
  let ?q = "q\<lparr>qsInfo := (qsInfo q)\<lparr>eiSeq := evSeq v, eiTimestamp := hdTimestamp (evHeader v)\<rparr>,
    qsNum := qsNum q + 1, qsEntries := qsEntries q @ [en]\<rparr>"
  have io: "info_ok (qsInfo ?q)" using Cons.prems(2) by (simp add: info_ok_def)
  have "\<forall>v \<in> set vs. view_ok v" using Cons.prems(1) by simp
  from Cons.IH [OF this io] obtain q' ens where q': "fold (query_step al junk new_doc_query r) (map (\<lambda>v. event_block (event_of base v)) vs) (Inr ?q) = Inr q'"
    "qsEntries q' = qsEntries ?q @ ens" "qsNum q' = qsNum ?q + length vs"
    "list_all2 (entry_matches (qsInfo ?q) (drExtra r)) vs ens"
    by blast
  show ?case
    by (rule exI [of _ q'], rule exI [of _ "en # ens"])
      (use en q' in \<open>simp add: entry_matches_info\<close>)
qed simp

lemma Read_query_step:
  "Read_query al stk junk r query entries num =
     map_option (\<lambda>(e, st). (e, map_sum id (\<lambda>q. (qsEntries q, qsNum q)) st))
       (Read_with al stk r (query_step al junk query)
          (\<lambda>r2. Inr \<lparr>qsInfo = drInfo r2, qsEntries = entries, qsNum = num\<rparr>))"
  unfolding Read_query_def query_step_def ..

text \<open>
  The events of successful writes are found by a query without conditions, each as one entry, in
  the order of the writes.
\<close>

lemma stored_events_found:
  assumes al: "alloc_sized al" "alloc_total al" and env: "env_ok env"
    and vs: "vs \<noteq> []" "\<forall>v \<in> set vs. view_ok v"
    and w: "write_all al' stk' env path (map (event_of base) vs) w [] = Some (w', f)" "length f + 255 * 1024 < 2 ^ 31"
    and info: "info = (InitEventInfo path new_event_info)\<lparr>eiTag := c_str (tag_field (seTag base))\<rparr>" "info_ok info"
  shows "\<exists>ens. Read_query al stk junk (SysEventDocReader path (Some f)) new_doc_query [] 0 =
      Some (Returned DOC_STORE_SUCCESS, Inr (ens, length vs)) \<and>
    list_all2 (entry_matches info \<lparr>heSysVersion = weSysVersion env, hePatchVersion = wePatchVersion env\<rparr>) vs ens"
proof -
  obtain v ws where v: "vs = v # ws" using vs(1) by (cases vs) auto
  have ok: "\<forall>ev \<in> set (event_of base v # map (event_of base) ws). event_ok ev"
    using vs(2) event_of_ok(1) by (auto simp: v)
  have w0: "write_all al' stk' env path (event_of base v # map (event_of base) ws) w [] = Some (w', f)"
    using w(1) by (simp add: v del: write_all.simps)
  obtain r where r: "Read_with al stk (SysEventDocReader path (Some f)) (query_step al junk new_doc_query)
      (\<lambda>r2. Inr \<lparr>qsInfo = drInfo r2, qsEntries = [], qsNum = 0\<rparr>) =
      Some (Returned DOC_STORE_SUCCESS, fold (query_step al junk new_doc_query r)
        (map event_block (event_of base v # map (event_of base) ws)) (Inr \<lparr>qsInfo = drInfo r, qsEntries = [], qsNum = 0\<rparr>))"
    "drVersion r = VERSION_CURRENT" "drExtra r = \<lparr>heSysVersion = weSysVersion env, hePatchVersion = wePatchVersion env\<rparr>"
    "drInfo r = (InitEventInfo path new_event_info)\<lparr>eiTag := c_str (tag_field (seTag (event_of base v)))\<rparr>"
    by (rule write_read [OF al env ok w0 w(2), of stk "query_step al junk new_doc_query"])
  have di: "drInfo r = info" using r(4) info(1) by (simp add: event_of_def)
  let ?q = "\<lparr>qsInfo = drInfo r, qsEntries = [], qsNum = 0\<rparr> :: query_state"
  have blocks: "map event_block (event_of base v # map (event_of base) ws) = map (\<lambda>v. event_block (event_of base v)) vs"
    by (simp add: v)
  obtain q' ens where q': "fold (query_step al junk new_doc_query r) (map (\<lambda>v. event_block (event_of base v)) vs) (Inr ?q) = Inr q'"
    "qsEntries q' = ens" "qsNum q' = length vs" "list_all2 (entry_matches info (drExtra r)) vs ens"
    using fold_query_steps [OF al vs(2), of ?q r junk base] r(2) info(2) di by auto
  show ?thesis
    by (rule exI [of _ ens]) (use r(3) q' in \<open>simp add: Read_query_step r(1) [unfolded blocks]\<close>)
qed

text \<open>What an entry decodes to.\<close>

lemma entry_decodes:
  assumes al: "alloc_sized al" "alloc_total al" and m: "entry_matches info extra v en" and info: "info_ok info"
    and size: "rdLen (enData en) \<le> MAX_BLOCK_SIZE" "length (evParams v @ extra_params info) \<le> MAX_PARAM_CNT"
    and vals: "list_all (\<lambda>(key, x). value_bounded x) (evParams v)"
  shows "\<exists>ev. DecodedEvent al (RawData_GetData (enData en)) (RawData_GetDataLength (enData en)) = Inr ev \<and> deValid ev \<and>
    deHeader ev = (evHeader v)\<lparr>hdDomain := eiDomain info, hdName := eiName info\<rparr> \<and>
    deTrace ev = (if hdIsTraceOpened (evHeader v) = 1 then evTrace v else zero_trace) \<and>
    map entry_of (deParams ev) = map (\<lambda>(k, x). (k, view_value x)) (evParams v @ extra_params (info\<lparr>eiSeq := evSeq v\<rparr>))"
proof -
  let ?h = "(evHeader v)\<lparr>hdDomain := eiDomain info, hdName := eiName info\<rparr>"
  let ?ps = "evParams v @ extra_params (info\<lparr>eiSeq := evSeq v\<rparr>)" and ?rd = "enData en"
  have rd: "raw_live ?rd" "rd_bytes ?rd = block_bytes ?h (evTrace v) ?ps" using m by (auto simp: entry_matches_def)
  obtain junk where data: "rdData ?rd = Some (rd_bytes ?rd @ junk)" "rdLen ?rd = length (rd_bytes ?rd)"
    using live_data [OF rd(1)] .
  have h: "header_ok ?h"
    using info by (simp add: info_ok_def header_ok_def doc_const_defs MAX_DOMAIN_LENGTH_def MAX_EVENT_NAME_LENGTH_def)
  have vals': "list_all (\<lambda>(key, x). value_bounded x) ?ps" using vals by (simp add: extra_params_def)
  have cnt: "length ?ps \<le> MAX_PARAM_CNT" using size(2) by (simp add: extra_params_def split: if_splits)
  have len: "length (block_bytes ?h (evTrace v) ?ps) \<le> MAX_BLOCK_SIZE" using size(1) data(2) rd(2) by simp
  obtain ps' where ps': "DecodedEvent al (Some (block_bytes ?h (evTrace v) ?ps @ junk)) (length (block_bytes ?h (evTrace v) ?ps)) =
      Inr \<lparr>deRaw = Some (block_bytes ?h (evTrace v) ?ps), dePos = length (block_bytes ?h (evTrace v) ?ps), deHeader = ?h,
        deTrace = (if hdIsTraceOpened ?h = 1 then evTrace v else zero_trace), deValid = True, deParams = ps'\<rparr>"
    "map entry_of ps' = map (\<lambda>(key, v). (key, view_value v)) ?ps"
    using DecodedEvent_block [OF al h len cnt vals', of junk] by blast
  show ?thesis
    using ps' data rd(2) by (auto simp: RawData_GetData_def RawData_GetDataLength_def)
qed

end
