(* ===== verification/File_System.thy ===== *)
theory File_System
  imports String_Util "HOL-Library.AList"
begin

text \<open>
  Files and directories, as far as the store uses them through FileUtil
  (base/utility/file_util.cpp). The file system is a list of files with their bytes and a list of
  directories; both are in the order in which reading a directory delivers them. What the system
  calls permit, and two functions of the c_utils library that FileUtil passes on to, are
  parameters.
\<close>

section \<open>Model\<close>

record file_system =
  fsFiles :: "(string \<times> byte list) list"
  fsDirs :: "string list"

record file_ops =
  foMkdir :: "string \<Rightarrow> bool"
  foOpen :: "string \<Rightarrow> bool"
  foChmod :: "string \<Rightarrow> bool"
  foRemove :: "string \<Rightarrow> bool"
  foExtractFileName :: "string \<Rightarrow> string"
  foIncludeTrailing :: "string \<Rightarrow> string"

definition fs_file :: "file_system \<Rightarrow> string \<Rightarrow> byte list option" where
  "fs_file fs path = map_of (fsFiles fs) path"

definition fs_put :: "string \<Rightarrow> byte list \<Rightarrow> file_system \<Rightarrow> file_system" where
  "fs_put path f fs = fs\<lparr>fsFiles := AList.update path f (fsFiles fs)\<rparr>"

text \<open>A directory may be named with a slash behind it.\<close>

definition dir_name :: "string \<Rightarrow> string" where
  "dir_name path = (if path \<noteq> [] \<and> last path = CHR ''/'' then butlast path else path)"

definition IsDirectory :: "file_system \<Rightarrow> string \<Rightarrow> bool" where
  "IsDirectory fs path \<longleftrightarrow> dir_name path \<in> set (fsDirs fs)"

definition FileExists :: "file_system \<Rightarrow> string \<Rightarrow> bool" where
  "FileExists fs path \<longleftrightarrow> fs_file fs path \<noteq> None \<or> IsDirectory fs path"

definition GetFileSize :: "file_system \<Rightarrow> string \<Rightarrow> nat" where
  "GetFileSize fs path = (case fs_file fs path of None \<Rightarrow> 0 | Some f \<Rightarrow> length f)"

definition CreateFile :: "file_ops \<Rightarrow> string \<Rightarrow> file_system \<Rightarrow> int \<times> file_system" where
  "CreateFile fo path fs =
     (if FileExists fs path then (0, fs)
      else if \<not> foOpen fo path then (- 1, fs)
      else (if foChmod fo path then 0 else - 1, fs_put path [] fs))"

text \<open>\<open>remove\<close> sets \<open>ENOENT\<close> when there is no such file.\<close>

definition RemoveFile :: "file_ops \<Rightarrow> string \<Rightarrow> file_system \<Rightarrow> bool \<times> file_system" where
  "RemoveFile fo path fs =
     (if fs_file fs path = None then (\<not> IsDirectory fs path, fs)
      else if foRemove fo path then (True, fs\<lparr>fsFiles := AList.delete path (fsFiles fs)\<rparr>)
      else (False, fs))"

definition GetDirFiles :: "file_ops \<Rightarrow> file_system \<Rightarrow> string \<Rightarrow> string list" where
  "GetDirFiles fo fs path =
     (if IsDirectory fs path then filter (prefix (foIncludeTrailing fo path)) (map fst (fsFiles fs)) else [])"

definition child_of :: "string \<Rightarrow> string \<Rightarrow> bool" where
  "child_of base path \<longleftrightarrow> prefix base path \<and> drop (length base) path \<noteq> [] \<and>
     CHR ''/'' \<notin> set (drop (length base) path)"

definition GetDirDirs :: "file_ops \<Rightarrow> file_system \<Rightarrow> string \<Rightarrow> string list" where
  "GetDirDirs fo fs path =
     (if IsDirectory fs path then filter (child_of (foIncludeTrailing fo path)) (fsDirs fs) else [])"

text \<open>The regular expression of \<open>IsKeyDirectory\<close>: what is left behind each way to match a part.\<close>

definition after :: "string \<Rightarrow> string \<Rightarrow> string list" where
  "after p s = (if prefix p s then [drop (length p) s] else [])"

fun after_digits :: "string \<Rightarrow> string list" where
  "after_digits [] = []"
| "after_digits (c # cs) = (if is_digit c then cs # after_digits cs else [])"

definition IsKeyDirectory :: "file_ops \<Rightarrow> string \<Rightarrow> bool" where
  "IsKeyDirectory fo dirPath =
     (let s0 = after ''/data/'' (foIncludeTrailing fo dirPath);
          s1 = concat (map (\<lambda>s. s # after ''app'' s @ after ''service'' s @ after ''chipset'' s) s0);
          s2 = concat (map (\<lambda>s. s # concat (map after_digits (after ''/el'' s))) s1);
          s3 = concat (map (\<lambda>s. s # concat (map after_digits (after ''/'' s))) s2);
          s4 = concat (map (\<lambda>s. s # after ''/'' s) s3)
      in [] \<in> set s4)"

definition sub_paths :: "string \<Rightarrow> string list" where
  "sub_paths path = map (\<lambda>i. take i path) (filter (\<lambda>i. path ! i = CHR ''/'') [1 ..< length path]) @ [path]"

fun create_dirs :: "file_ops \<Rightarrow> string list \<Rightarrow> file_system \<Rightarrow> bool \<times> file_system" where
  "create_dirs fo [] fs = (True, fs)"
| "create_dirs fo (subPath # rest) fs =
     (if FileExists fs subPath then create_dirs fo rest fs
      else if IsKeyDirectory fo subPath \<or> \<not> foMkdir fo subPath then (False, fs)
      else create_dirs fo rest (fs\<lparr>fsDirs := fsDirs fs @ [dir_name subPath]\<rparr>))"

definition ForceCreateDirectory :: "file_ops \<Rightarrow> string \<Rightarrow> file_system \<Rightarrow> bool \<times> file_system" where
  "ForceCreateDirectory fo path fs =
     (case create_dirs fo (sub_paths path) fs of
        (ok, fs1) \<Rightarrow> (ok \<and> FileExists fs1 path, fs1))"

text \<open>What is documented of the functions of c_utils.\<close>

definition c_utils_ok :: "file_ops \<Rightarrow> bool" where
  "c_utils_ok fo \<longleftrightarrow>
     (\<forall>p. p \<noteq> [] \<longrightarrow> foIncludeTrailing fo p = (if last p = CHR ''/'' then p else p @ ''/'')) \<and>
     (\<forall>d n. CHR ''/'' \<notin> set n \<longrightarrow> foExtractFileName fo (d @ CHR ''/'' # n) = n)"

text \<open>A file system that permits everything.\<close>

definition free_ops :: file_ops where
  "free_ops = \<lparr>foMkdir = (\<lambda>p. True), foOpen = (\<lambda>p. True), foChmod = (\<lambda>p. True), foRemove = (\<lambda>p. True),
     foExtractFileName = (\<lambda>p. rev (takeWhile (\<lambda>c. c \<noteq> CHR ''/'') (rev p))),
     foIncludeTrailing = (\<lambda>p. if p \<noteq> [] \<and> last p = CHR ''/'' then p else p @ ''/'')\<rparr>"

section \<open>Lemmas\<close>

lemma free_ops_ok [simp]: "c_utils_ok free_ops"
proof -
  have "foExtractFileName free_ops (d @ CHR ''/'' # n) = n" if "CHR ''/'' \<notin> set n" for d n
  proof -
    have "takeWhile (\<lambda>c. c \<noteq> CHR ''/'') (rev n @ CHR ''/'' # rev d) = rev n"
      using that by (subst takeWhile_append2) auto
    then show ?thesis by (simp add: free_ops_def)
  qed
  then show ?thesis by (auto simp: c_utils_ok_def free_ops_def)
qed

lemma fs_file_put [simp]: "fs_file (fs_put p f fs) q = (if q = p then Some f else fs_file fs q)"
  by (simp add: fs_file_def fs_put_def update_conv')

lemma fs_put_dirs [simp]: "fsDirs (fs_put p f fs) = fsDirs fs"
  by (simp add: fs_put_def)

lemma IsDirectory_put [simp]: "IsDirectory (fs_put p f fs) q = IsDirectory fs q"
  by (simp add: IsDirectory_def)

lemma fs_file_remove:
  assumes "RemoveFile fo p fs = (ok, fs')"
  shows "fs_file fs' q = (if q = p \<and> ok then None else fs_file fs q)" "fsDirs fs' = fsDirs fs"
  using assms by (auto simp: RemoveFile_def fs_file_def delete_conv' split: if_splits)

definition fs_ok :: "file_system \<Rightarrow> bool" where
  "fs_ok fs \<longleftrightarrow> distinct (map fst (fsFiles fs)) \<and> distinct (fsDirs fs)"

lemma fs_ok_put [simp]: "fs_ok fs \<Longrightarrow> fs_ok (fs_put p f fs)"
  by (simp add: fs_ok_def fs_put_def distinct_update)

lemma fs_ok_remove: "fs_ok fs \<Longrightarrow> fs_ok (snd (RemoveFile fo p fs))"
  by (simp add: fs_ok_def RemoveFile_def distinct_delete)

lemma create_dirs_ok: "fs_ok fs \<Longrightarrow> fs_ok (snd (create_dirs fo ps fs))"
proof (induction fo ps fs rule: create_dirs.induct)
  case (2 fo subPath rest fs)
  then show ?case by (auto simp: fs_ok_def FileExists_def IsDirectory_def)
qed simp

lemma ForceCreateDirectory_ok: "fs_ok fs \<Longrightarrow> fs_ok (snd (ForceCreateDirectory fo p fs))"
  using create_dirs_ok [of fs fo "sub_paths p"] by (simp add: ForceCreateDirectory_def split: prod.splits) (metis snd_conv)

lemma create_dirs_files: "fsFiles (snd (create_dirs fo ps fs)) = fsFiles fs"
  by (induction fo ps fs rule: create_dirs.induct) auto

lemma create_dirs_grow: "set (fsDirs fs) \<subseteq> set (fsDirs (snd (create_dirs fo ps fs)))"
  by (induction fo ps fs rule: create_dirs.induct) auto

lemma ForceCreateDirectory_files [simp]: "fsFiles (snd (ForceCreateDirectory fo p fs)) = fsFiles fs"
  using create_dirs_files [of fo "sub_paths p" fs]
  by (cases "create_dirs fo (sub_paths p) fs") (simp add: ForceCreateDirectory_def)

lemma set_put: "set (map fst (fsFiles (fs_put p f fs))) = insert p (set (map fst (fsFiles fs)))"
  by (simp add: fs_put_def dom_update)

lemma FileExists_grows:
  assumes "FileExists fs x" "fsFiles fs' = fsFiles fs" "set (fsDirs fs) \<subseteq> set (fsDirs fs')"
  shows "FileExists fs' x"
  using assms by (auto simp: FileExists_def IsDirectory_def fs_file_def)

lemma FileExists_created: "FileExists (fs\<lparr>fsDirs := fsDirs fs @ [dir_name p]\<rparr>) p"
  by (simp add: FileExists_def IsDirectory_def)

text \<open>Every path on the way exists after a success.\<close>

lemma create_dirs_exists: "create_dirs fo ps fs = (True, fs') \<Longrightarrow> p \<in> set ps \<Longrightarrow> FileExists fs' p"
proof (induction ps arbitrary: fs)
  case (Cons q ps)
  define fs1 where "fs1 = (if FileExists fs q then fs else fs\<lparr>fsDirs := fsDirs fs @ [dir_name q]\<rparr>)"
  have rest: "create_dirs fo ps fs1 = (True, fs')" using Cons.prems(1) by (auto simp: fs1_def split: if_splits)
  have "FileExists fs1 q" using FileExists_created by (simp add: fs1_def)
  then have "FileExists fs' q"
    by (rule FileExists_grows) (use rest create_dirs_files [of fo ps fs1] create_dirs_grow [of fs1 fo ps] in simp_all)
  then show ?case using Cons.prems(2) Cons.IH [OF rest] by auto
qed simp

lemma create_dirs_works:
  assumes "\<And>q. foMkdir fo q"
  shows "(\<And>q. q \<in> set ps \<Longrightarrow> FileExists fs q \<or> \<not> IsKeyDirectory fo q) \<Longrightarrow> fst (create_dirs fo ps fs)"
proof (induction ps arbitrary: fs)
  case (Cons q ps)
  let ?fs = "fs\<lparr>fsDirs := fsDirs fs @ [dir_name q]\<rparr>"
  have "FileExists ?fs x \<or> \<not> IsKeyDirectory fo x" if "x \<in> set ps" for x
    using Cons.prems [of x] that FileExists_grows [of fs x ?fs] by auto
  then have "fst (create_dirs fo ps ?fs)" by (rule Cons.IH)
  moreover have "fst (create_dirs fo ps fs)" using Cons.prems by (intro Cons.IH) simp
  ultimately show ?case using Cons.prems [of q] assms by auto
qed simp

lemma ForceCreateDirectory_works:
  assumes "\<And>q. q \<in> set (sub_paths p) \<Longrightarrow> FileExists fs q \<or> \<not> IsKeyDirectory fo q" "\<And>q. foMkdir fo q"
  shows "fst (ForceCreateDirectory fo p fs)"
proof -
  obtain fs1 where c: "create_dirs fo (sub_paths p) fs = (True, fs1)"
    using create_dirs_works [OF assms(2,1)] by (metis prod.collapse)
  have "p \<in> set (sub_paths p)" by (simp add: sub_paths_def)
  then show ?thesis using create_dirs_exists [OF c] by (simp add: ForceCreateDirectory_def c)
qed

end
