(* ===== verification/Doc_Store.thy ===== *)
theory Doc_Store
  imports Doc_Events File_System
begin

text \<open>
  The documents of one event name: the configuration of the store
  (event_store/config/src/event_store_config.cpp) and \<open>SysEventDoc\<close> (store/sys_event_doc.cpp), which
  chooses the file an event is appended to, starts a new file when the current one is full or
  has another format, and hands queries to the reader.
\<close>

section \<open>The configuration\<close>

record store_config =
  coStoreDay :: u32
  coPageSize :: u32
  coMaxFileSize :: u32
  coMaxFileNum :: u32
  coMaxSize :: u32

text \<open>The parsed JSON file, as far as the store looks at it.\<close>

datatype config_json = JsonUInt u32 | JsonObject "(string \<times> config_json) list" | JsonOther

definition EVENT_TYPE_MAP :: "string \<rightharpoonup> int" where
  "EVENT_TYPE_MAP = [''FAULT'' \<mapsto> 1, ''STATISTIC'' \<mapsto> 2, ''SECURITY'' \<mapsto> 3, ''BEHAVIOR'' \<mapsto> 4]"

definition ParseUint32 :: "(string \<times> config_json) list \<Rightarrow> string \<Rightarrow> u32" where
  "ParseUint32 root key = (case map_of root key of Some (JsonUInt n) \<Rightarrow> n | x \<Rightarrow> 0)"

definition config_of :: "(string \<times> config_json) list \<Rightarrow> store_config" where
  "config_of node =
     \<lparr>coStoreDay = ParseUint32 node ''StoreDay'', coPageSize = ParseUint32 node ''PageSize'',
      coMaxFileSize = ParseUint32 node ''MaxFileSize'', coMaxFileNum = ParseUint32 node ''MaxFileNum'',
      coMaxSize = ParseUint32 node ''MaxSize''\<rparr>"

text \<open>
  The members of the file, in their order; \<open>None\<close> is a file that cannot be opened or parsed.
  \<open>emplace\<close> keeps the first configuration of a type.
\<close>

definition add_config :: "string \<times> config_json \<Rightarrow> (int \<rightharpoonup> store_config) \<Rightarrow> (int \<rightharpoonup> store_config)" where
  "add_config member configMap =
     (case (EVENT_TYPE_MAP (fst member), snd member) of
        (Some ty, JsonObject node) \<Rightarrow>
          (if configMap ty = None then configMap(ty \<mapsto> config_of node) else configMap)
      | x \<Rightarrow> configMap)"

definition EventStoreConfig_Init :: "(string \<times> config_json) list option \<Rightarrow> (int \<rightharpoonup> store_config)" where
  "EventStoreConfig_Init root =
     (case root of None \<Rightarrow> Map.empty | Some members \<Rightarrow> fold add_config members Map.empty)"

definition GetStoreDay :: "(int \<rightharpoonup> store_config) \<Rightarrow> int \<Rightarrow> u32" where
  "GetStoreDay configMap eventType = (case configMap eventType of None \<Rightarrow> 0 | Some c \<Rightarrow> coStoreDay c)"

definition GetMaxSize_config :: "(int \<rightharpoonup> store_config) \<Rightarrow> int \<Rightarrow> u32" where
  "GetMaxSize_config configMap eventType = (case configMap eventType of None \<Rightarrow> 0 | Some c \<Rightarrow> coMaxSize c)"

definition GetMaxFileNum_config :: "(int \<rightharpoonup> store_config) \<Rightarrow> int \<Rightarrow> u32" where
  "GetMaxFileNum_config configMap eventType = (case configMap eventType of None \<Rightarrow> 0 | Some c \<Rightarrow> coMaxFileNum c)"

definition GetPageSize :: "(int \<rightharpoonup> store_config) \<Rightarrow> int \<Rightarrow> u32" where
  "GetPageSize configMap eventType = (case configMap eventType of None \<Rightarrow> 0 | Some c \<Rightarrow> coPageSize c)"

definition GetMaxFileSize_config :: "(int \<rightharpoonup> store_config) \<Rightarrow> int \<Rightarrow> u32" where
  "GetMaxFileSize_config configMap eventType = (case configMap eventType of None \<Rightarrow> 0 | Some c \<Rightarrow> coMaxFileSize c)"

section \<open>Documents of an event name\<close>

text \<open>
  What the store works in: the allocator, the content of fresh stack variables, an uninitialised
  content header, the system parameters, the configuration, the file operations and the
  directory of the database, which ends with a slash.
\<close>

record store_ctx =
  scAlloc :: alloc
  scStack :: "nat \<Rightarrow> byte list"
  scJunk :: content_header
  scSysVersion :: string
  scPatchVersion :: string
  scConfig :: "int \<rightharpoonup> store_config"
  scOps :: file_ops
  scDbDir :: string

definition ctx_env :: "store_ctx \<Rightarrow> write_env" where
  "ctx_env c = \<lparr>weSysVersion = scSysVersion c, wePatchVersion = scPatchVersion c, wePageSize = GetPageSize (scConfig c)\<rparr>"

record sys_event_doc =
  sdWriter :: "(string \<times> doc_writer) option"
  sdDomain :: string
  sdName :: string
  sdType :: int
  sdLevel :: string
  sdCurFile :: string

definition SysEventDoc :: "string \<Rightarrow> string \<Rightarrow> sys_event_doc" where
  "SysEventDoc domain nm =
     \<lparr>sdWriter = None, sdDomain = domain, sdName = nm, sdType = 0, sdLevel = [], sdCurFile = []\<rparr>"

definition SysEventDoc_file :: "string \<Rightarrow> sys_event_doc" where
  "SysEventDoc_file f = \<lparr>sdWriter = None, sdDomain = [], sdName = [], sdType = 0, sdLevel = [], sdCurFile = f\<rparr>"

text \<open>Opening a stream in append mode makes the file if it is missing.\<close>

definition SysEventDocWriter :: "store_ctx \<Rightarrow> string \<Rightarrow> file_system \<Rightarrow> (string \<times> doc_writer) \<times> file_system" where
  "SysEventDocWriter c path fs =
     (if foOpen (scOps c) path
      then ((path, \<lparr>dwOpen = True, dwHeaderSize = 0\<rparr>), if fs_file fs path = None then fs_put path [] fs else fs)
      else ((path, \<lparr>dwOpen = False, dwHeaderSize = 0\<rparr>), fs))"

text \<open>
  \<open>Write\<close> on the file system. When the file has been removed meanwhile, the size that the writer
  asks the reader for is -1.
\<close>

definition writer_Write :: "store_ctx \<Rightarrow> string \<times> doc_writer \<Rightarrow> stored_event \<Rightarrow> file_system \<Rightarrow>
    doc_code \<times> (string \<times> doc_writer) \<times> file_system" where
  "writer_Write c pw ev fs =
     (case fs_file fs (fst pw) of
        None \<Rightarrow>
          ((if \<not> dwOpen (snd pw) then DOC_STORE_ERROR_IO
            else case GetContentSize ev of Inl ret \<Rightarrow> ret | Inr contentSize \<Rightarrow> DOC_STORE_ERROR_IO), pw, fs)
      | Some f \<Rightarrow>
          (case Write (scAlloc c) (scStack c) (ctx_env c) (fst pw) (Some ev) (snd pw) f of
             (ret, w1, f1) \<Rightarrow> (ret, (fst pw, w1), fs_put (fst pw) f1 fs)))"

definition SysEventDoc_GetMaxFileSize :: "store_ctx \<Rightarrow> sys_event_doc \<Rightarrow> nat" where
  "SysEventDoc_GetMaxFileSize c d = u32_mul (unat (GetMaxFileSize_config (scConfig c) (sdType d))) NUM_OF_BYTES_IN_KB"

definition IsFileFull :: "store_ctx \<Rightarrow> sys_event_doc \<Rightarrow> file_system \<Rightarrow> string \<Rightarrow> bool" where
  "IsFileFull c d fs f \<longleftrightarrow> GetFileSize fs f \<ge> SysEventDoc_GetMaxFileSize c d"

definition IsNeedUpdateCurFile :: "store_ctx \<Rightarrow> sys_event_doc \<Rightarrow> file_system \<Rightarrow> bool" where
  "IsNeedUpdateCurFile c d fs \<longleftrightarrow> sdCurFile d = [] \<or> IsFileFull c d fs (sdCurFile d)"

definition GetDir :: "store_ctx \<Rightarrow> sys_event_doc \<Rightarrow> file_system \<Rightarrow> string \<times> file_system" where
  "GetDir c d fs =
     (let dir = scDbDir c @ sdDomain d in
      if IsDirectory fs dir then (dir, fs)
      else case ForceCreateDirectory (scOps c) dir fs of
             (ok, fs1) \<Rightarrow> (if ok then dir else [], fs1))"

definition newer_name :: "string \<Rightarrow> string \<Rightarrow> bool" where
  "newer_name f curFile \<longleftrightarrow>
     length f = length curFile \<and> str_less curFile f \<or> length f > length curFile"

definition GetCurFile :: "store_ctx \<Rightarrow> sys_event_doc \<Rightarrow> file_system \<Rightarrow> string \<Rightarrow> string" where
  "GetCurFile c d fs dir =
     fold (\<lambda>f curFile.
         if str_find f (''/'' @ sdName d @ ''-'') 0 = None then curFile
         else if newer_name f curFile then f else curFile)
       (GetDirFiles (scOps c) fs dir) []"

definition CreateCurFile :: "store_ctx \<Rightarrow> string \<Rightarrow> stored_event \<Rightarrow> sys_event_doc \<Rightarrow> file_system \<Rightarrow>
    doc_code \<times> sys_event_doc \<times> file_system" where
  "CreateCurFile c dir ev d fs =
     (let filePath = dir @ ''/'' @ db_file_name (sdName d) (sdType d) (sdLevel d) (sint (seSeq ev)) (seReportInterval ev) in
      case CreateFile (scOps c) filePath fs of
        (ret, fs1) \<Rightarrow>
          if ret \<noteq> 0 \<and> \<not> FileExists fs1 filePath then (DOC_STORE_ERROR_IO, d, fs1)
          else (DOC_STORE_SUCCESS, d\<lparr>sdCurFile := filePath\<rparr>, fs1))"

definition UpdateCurFile :: "store_ctx \<Rightarrow> stored_event \<Rightarrow> sys_event_doc \<Rightarrow> file_system \<Rightarrow>
    doc_code \<times> sys_event_doc \<times> file_system" where
  "UpdateCurFile c ev d fs =
     (case GetDir c d fs of
        (dir, fs1) \<Rightarrow>
          if dir = [] then (DOC_STORE_ERROR_IO, d, fs1)
          else let filePath = GetCurFile c d fs1 dir in
               if filePath = [] \<or>
                  \<not> IsMatchedDbFilePath (foExtractFileName (scOps c)) filePath (Some (seReportInterval ev)) \<or>
                  IsFileFull c d fs1 filePath
               then CreateCurFile c dir ev d fs1
               else (DOC_STORE_SUCCESS, d\<lparr>sdCurFile := filePath\<rparr>, fs1))"

definition InitWriter :: "store_ctx \<Rightarrow> stored_event \<Rightarrow> sys_event_doc \<Rightarrow> file_system \<Rightarrow>
    doc_code \<times> sys_event_doc \<times> file_system" where
  "InitWriter c ev d fs =
     (if sdWriter d = None \<or> IsNeedUpdateCurFile c d fs then
        (case UpdateCurFile c ev (d\<lparr>sdType := seType ev, sdLevel := seLevel ev\<rparr>) fs of
           (ret, d1, fs1) \<Rightarrow>
             if ret \<noteq> DOC_STORE_SUCCESS then (ret, d1, fs1)
             else case SysEventDocWriter c (sdCurFile d1) fs1 of
                    (pw, fs2) \<Rightarrow> (DOC_STORE_SUCCESS, d1\<lparr>sdWriter := Some pw\<rparr>, fs2))
      else (DOC_STORE_SUCCESS, d, fs))"

text \<open>
  After \<open>InitWriter\<close> there is a writer. A file that cannot take the event is followed by a new
  one; \<open>GetDir\<close> may fail there, and then the path of the new file starts with the slash.
\<close>

definition Insert_doc :: "store_ctx \<Rightarrow> stored_event option \<Rightarrow> sys_event_doc \<Rightarrow> file_system \<Rightarrow>
    doc_code \<times> sys_event_doc \<times> file_system" where
  "Insert_doc c sysEvent d fs =
     (case sysEvent of
        None \<Rightarrow> (DOC_STORE_ERROR_NULL, d, fs)
      | Some ev \<Rightarrow>
          (case InitWriter c ev d fs of
             (ret, d1, fs1) \<Rightarrow>
               if ret \<noteq> DOC_STORE_SUCCESS then (ret, d1, fs1)
               else (case writer_Write c (the (sdWriter d1)) ev fs1 of
                 (ret, pw, fs2) \<Rightarrow>
                   (let d2 = d1\<lparr>sdWriter := Some pw\<rparr> in
                    if ret = DOC_STORE_NEW_FILE then
                      (case GetDir c d2 fs2 of
                         (dir, fs3) \<Rightarrow>
                           (case CreateCurFile c dir ev d2 fs3 of
                              (ret, d3, fs4) \<Rightarrow>
                                if ret \<noteq> DOC_STORE_SUCCESS then (ret, d3, fs4)
                                else (case SysEventDocWriter c (sdCurFile d3) fs4 of
                                  (pw2, fs5) \<Rightarrow>
                                    (case writer_Write c pw2 ev fs5 of
                                       (ret, pw3, fs6) \<Rightarrow> (ret, d3\<lparr>sdWriter := Some pw3\<rparr>, fs6)))))
                    else (ret, d2, fs2)))))"

text \<open>An object is made for each file of a query, so its reader is a new one.\<close>

definition Query_doc :: "store_ctx \<Rightarrow> sys_event_doc \<Rightarrow> file_system \<Rightarrow> doc_query \<Rightarrow> entry list \<Rightarrow> nat \<Rightarrow>
    (read_end \<times> (undefined_behaviour + entry list \<times> nat)) option" where
  "Query_doc c d fs query entries num =
     (if sdCurFile d = [] \<or> \<not> FileExists fs (sdCurFile d) then Some (Returned DOC_STORE_ERROR_IO, Inr (entries, num))
      else Read_query (scAlloc c) (scStack c) (scJunk c)
             (SysEventDocReader (sdCurFile d) (fs_file fs (sdCurFile d))) query entries num)"

end
