(* ===== verification/Lru_Cache.thy ===== *)
theory Lru_Cache
  imports Main
begin

text \<open>
  The cache of open documents (store/sys_event_doc_lru_cache.cpp): a list of keys, the one used last
  in front, and a map from keys to values. An iterator into the list is the place of the key,
  which occurs once. The abstract cache is one list of keys and values in the order of their last
  use, cut to the capacity.
\<close>

section \<open>Model\<close>

record ('k, 'v) lru_cache =
  lruCapacity :: nat
  lruList :: "'k list"
  lruMap :: "'k \<rightharpoonup> 'v"

definition new_lru :: "nat \<Rightarrow> ('k, 'v) lru_cache" where
  "new_lru capacity = \<lparr>lruCapacity = capacity, lruList = [], lruMap = Map.empty\<rparr>"

definition lru_Contain :: "('k, 'v) lru_cache \<Rightarrow> 'k \<Rightarrow> bool" where
  "lru_Contain c key \<longleftrightarrow> lruMap c key \<noteq> None"

definition lru_Get :: "'k \<Rightarrow> ('k, 'v) lru_cache \<Rightarrow> 'v option \<times> ('k, 'v) lru_cache" where
  "lru_Get key c =
     (case lruMap c key of
        None \<Rightarrow> (None, c)
      | Some value \<Rightarrow> (Some value, c\<lparr>lruList := key # remove1 key (lruList c)\<rparr>))"

definition lru_Remove :: "'k \<Rightarrow> ('k, 'v) lru_cache \<Rightarrow> bool \<times> ('k, 'v) lru_cache" where
  "lru_Remove key c =
     (case lruMap c key of
        None \<Rightarrow> (False, c)
      | Some value \<Rightarrow> (True, c\<lparr>lruList := remove1 key (lruList c), lruMap := (lruMap c)(key := None)\<rparr>))"

definition lru_Add :: "'k \<Rightarrow> 'v \<Rightarrow> ('k, 'v) lru_cache \<Rightarrow> bool \<times> ('k, 'v) lru_cache" where
  "lru_Add key value c =
     (if lru_Contain c key then (False, c)
      else let c1 = c\<lparr>lruList := key # lruList c, lruMap := (lruMap c)(key \<mapsto> value)\<rparr> in
           if length (lruList c1) > lruCapacity c1 then lru_Remove (last (lruList c1)) c1
           else (True, c1))"

definition lru_Clear :: "('k, 'v) lru_cache \<Rightarrow> ('k, 'v) lru_cache" where
  "lru_Clear c = c\<lparr>lruList := [], lruMap := Map.empty\<rparr>"

text \<open>A value is a shared object; a change of the object is seen through the cache.\<close>

definition lru_change :: "'k \<Rightarrow> 'v \<Rightarrow> ('k, 'v) lru_cache \<Rightarrow> ('k, 'v) lru_cache" where
  "lru_change key value c = (if lru_Contain c key then c\<lparr>lruMap := (lruMap c)(key \<mapsto> value)\<rparr> else c)"

section \<open>Invariant\<close>

definition lru_ok :: "('k, 'v) lru_cache \<Rightarrow> bool" where
  "lru_ok c \<longleftrightarrow> distinct (lruList c) \<and> set (lruList c) = dom (lruMap c) \<and> length (lruList c) \<le> lruCapacity c"

lemma lru_ok_new: "lru_ok (new_lru n)"
  by (simp add: lru_ok_def new_lru_def)

lemma lru_ok_Get: "lru_ok c \<Longrightarrow> lru_ok (snd (lru_Get key c))"
  by (auto simp: lru_ok_def lru_Get_def length_remove1 split: option.split) (metis domI length_pos_if_in_set Suc_pred)+

lemma lru_ok_Remove: "lru_ok c \<Longrightarrow> lru_ok (snd (lru_Remove key c))"
  by (auto simp: lru_ok_def lru_Remove_def length_remove1 split: option.split)

lemma lru_ok_Clear: "lru_ok c \<Longrightarrow> lru_ok (lru_Clear c)"
  by (simp add: lru_ok_def lru_Clear_def)

lemma lru_ok_change: "lru_ok c \<Longrightarrow> lru_ok (lru_change key value c)"
  by (auto simp: lru_ok_def lru_change_def lru_Contain_def)

text \<open>What \<open>Add\<close> leaves: the new key in front, and the last one gone when there were too many.\<close>

lemma lru_Add_full:
  assumes "lru_ok c" "\<not> lru_Contain c key" "length (lruList c) = lruCapacity c"
  obtains ys z where "key # lruList c = ys @ [z]" "z \<notin> set ys"
    "lru_Add key value c = (True, c\<lparr>lruList := ys, lruMap := ((lruMap c)(key \<mapsto> value))(z := None)\<rparr>)"
proof -
  obtain ys z where l: "key # lruList c = ys @ [z]" by (metis list.distinct(1) rev_exhaust)
  have "distinct (key # lruList c)" using assms(1,2) by (auto simp: lru_ok_def lru_Contain_def)
  then have z: "z \<notin> set ys" unfolding l by simp
  have "z \<in> insert key (set (lruList c))" using l by (metis in_set_conv_decomp list.simps(15))
  then have "((lruMap c)(key \<mapsto> value)) z \<noteq> None" using assms(1) by (auto simp: lru_ok_def)
  then obtain y where "((lruMap c)(key \<mapsto> value)) z = Some y" by blast
  moreover have "remove1 z (ys @ [z]) = ys" using z by (simp add: remove1_append)
  moreover have "length (ys @ [z]) > lruCapacity c" using assms(3) l by (metis length_Cons lessI)
  ultimately have "lru_Add key value c = (True, c\<lparr>lruList := ys, lruMap := ((lruMap c)(key \<mapsto> value))(z := None)\<rparr>)"
    using assms(2) by (simp add: lru_Add_def lru_Remove_def Let_def l)
  then show thesis using that l z by blast
qed

lemma lru_Add_room:
  assumes "lru_ok c" "\<not> lru_Contain c key" "length (lruList c) < lruCapacity c"
  shows "lru_Add key value c = (True, c\<lparr>lruList := key # lruList c, lruMap := (lruMap c)(key \<mapsto> value)\<rparr>)"
  using assms by (simp add: lru_Add_def Let_def)

lemma lru_ok_Add:
  assumes "lru_ok c"
  shows "lru_ok (snd (lru_Add key value c))"
proof -
  consider "lru_Contain c key" | "\<not> lru_Contain c key" "length (lruList c) < lruCapacity c"
    | "\<not> lru_Contain c key" "length (lruList c) = lruCapacity c"
    using assms by (fastforce simp: lru_ok_def)
  then show ?thesis
  proof cases
    case 1
    then show ?thesis using assms by (simp add: lru_Add_def)
  next
    case 2
    then show ?thesis using assms by (simp add: lru_Add_room) (auto simp: lru_ok_def lru_Contain_def)
  next
    case 3
    obtain ys z where l: "key # lruList c = ys @ [z]" "z \<notin> set ys"
      "lru_Add key value c = (True, c\<lparr>lruList := ys, lruMap := ((lruMap c)(key \<mapsto> value))(z := None)\<rparr>)"
      using lru_Add_full [OF assms 3] .
    have d: "distinct (ys @ [z])" using assms 3 unfolding l(1) [symmetric] by (auto simp: lru_ok_def lru_Contain_def)
    have "insert key (dom (lruMap c)) = insert z (set ys)"
      using arg_cong [OF l(1), of set] assms by (simp add: lru_ok_def)
    moreover have "length ys = length (lruList c)" using arg_cong [OF l(1), of length] by simp
    ultimately show ?thesis using d l(2,3) 3 by (auto simp: lru_ok_def)
  qed
qed

section \<open>The abstract cache\<close>

text \<open>Keys and values in the order of their last use.\<close>

definition recency :: "('k, 'v) lru_cache \<Rightarrow> ('k \<times> 'v) list" where
  "recency c = map (\<lambda>key. (key, the (lruMap c key))) (lruList c)"

definition used :: "'k \<Rightarrow> ('k \<times> 'v) list \<Rightarrow> ('k \<times> 'v) list" where
  "used key xs = filter (\<lambda>(k, v). k = key) xs @ filter (\<lambda>(k, v). k \<noteq> key) xs"

lemma recency_lookup: "lru_ok c \<Longrightarrow> map_of (recency c) key = lruMap c key"
  by (auto simp: recency_def lru_ok_def map_of_map_restrict restrict_map_def)

lemma recency_Get:
  assumes "lru_ok c"
  shows "fst (lru_Get key c) = map_of (recency c) key" "recency (snd (lru_Get key c)) = used key (recency c)"
proof -
  show "fst (lru_Get key c) = map_of (recency c) key"
    using recency_lookup [OF assms] by (simp add: lru_Get_def split: option.split)
  have d: "distinct (lruList c)" using assms by (simp add: lru_ok_def)
  have one: "filter (\<lambda>k. k = key) xs = (if key \<in> set xs then [key] else [])" if "distinct xs" for xs
    using that by (induction xs) (auto simp: filter_empty_conv)
  have rest: "filter (\<lambda>k. k \<noteq> key) xs = remove1 key xs" if "distinct xs" for xs
    using that by (induction xs) (auto simp: filter_id_conv)
  have "used key (recency c) = map (\<lambda>k. (k, the (lruMap c k)))
      (filter (\<lambda>k. k = key) (lruList c) @ filter (\<lambda>k. k \<noteq> key) (lruList c))"
    by (simp add: used_def recency_def filter_map comp_def)
  also have "\<dots> = recency (snd (lru_Get key c))"
    using one [OF d] rest [OF d] assms
    by (auto simp: recency_def lru_Get_def lru_ok_def remove1_idem split: option.split)
  finally show "recency (snd (lru_Get key c)) = used key (recency c)" by simp
qed

lemma recency_Add:
  assumes "lru_ok c" "map_of (recency c) key = None"
  shows "recency (snd (lru_Add key value c)) = take (lruCapacity c) ((key, value) # recency c)"
proof -
  have no: "\<not> lru_Contain c key" using assms recency_lookup [OF assms(1)] by (simp add: lru_Contain_def)
  then have key: "key \<notin> set (lruList c)" using assms(1) by (auto simp: lru_ok_def lru_Contain_def)
  have vals: "map (\<lambda>k. (k, the (((lruMap c)(key \<mapsto> value)) k))) xs = map (\<lambda>k. (k, the (lruMap c k))) xs"
    if "set xs \<subseteq> set (lruList c)" for xs using that key by auto
  show ?thesis
  proof (cases "length (lruList c) < lruCapacity c")
    case True
    then show ?thesis using lru_Add_room [OF assms(1) no True] vals [of "lruList c"] by (simp add: recency_def)
  next
    case False
    then have len: "length (lruList c) = lruCapacity c" using assms(1) by (simp add: lru_ok_def)
    obtain ys z where l: "key # lruList c = ys @ [z]" "z \<notin> set ys"
      "lru_Add key value c = (True, c\<lparr>lruList := ys, lruMap := ((lruMap c)(key \<mapsto> value))(z := None)\<rparr>)"
      using lru_Add_full [OF assms(1) no len] .
    let ?val = "\<lambda>k. (k, the (((lruMap c)(key \<mapsto> value)) k))"
    have "length ys = lruCapacity c" using arg_cong [OF l(1), of length] len by simp
    then have "map ?val ys = take (lruCapacity c) (map ?val (key # lruList c))" unfolding l(1) by simp
    moreover have "recency (snd (lru_Add key value c)) = map ?val ys" using l(2,3) by (auto simp: recency_def)
    moreover have "map ?val (key # lruList c) = (key, value) # recency c" using key by (auto simp: recency_def)
    ultimately show ?thesis by simp
  qed
qed

lemma recency_Clear: "recency (lru_Clear c) = []"
  by (simp add: recency_def lru_Clear_def)

lemma lru_capacity [simp]:
  "lruCapacity (snd (lru_Get key c)) = lruCapacity c" "lruCapacity (snd (lru_Add key v c)) = lruCapacity c"
  "lruCapacity (lru_change key v c) = lruCapacity c"
  by (auto simp: lru_Get_def lru_Add_def lru_Remove_def lru_change_def Let_def split: option.split)

text \<open>The key that was added is kept, and every other key that is left has its value.\<close>

lemma lru_Add_lookup:
  assumes "lru_ok c" "0 < lruCapacity c" "\<not> lru_Contain c key"
  shows "lruMap (snd (lru_Add key value c)) key = Some value"
    "lruMap (snd (lru_Add key value c)) k = Some v \<Longrightarrow> k \<noteq> key \<Longrightarrow> lruMap c k = Some v"
proof -
  have key: "key \<notin> set (lruList c)" using assms by (auto simp: lru_ok_def lru_Contain_def)
  have "lruMap (snd (lru_Add key value c)) key = Some value \<and>
    (\<forall>k v. lruMap (snd (lru_Add key value c)) k = Some v \<longrightarrow> k \<noteq> key \<longrightarrow> lruMap c k = Some v)"
  proof (cases "length (lruList c) < lruCapacity c")
    case True
    then show ?thesis using lru_Add_room [OF assms(1,3) True] by auto
  next
    case False
    then have len: "length (lruList c) = lruCapacity c" using assms(1) by (simp add: lru_ok_def)
    obtain ys z where l: "key # lruList c = ys @ [z]"
      "lru_Add key value c = (True, c\<lparr>lruList := ys, lruMap := ((lruMap c)(key \<mapsto> value))(z := None)\<rparr>)"
      using lru_Add_full [OF assms(1,3) len] .
    have "ys \<noteq> []" using arg_cong [OF l(1), of length] len assms(2) by auto
    then have "z \<in> set (lruList c)" using l(1) by (cases ys) auto
    then show ?thesis using l(2) key by auto
  qed
  then show "lruMap (snd (lru_Add key value c)) key = Some value"
    "lruMap (snd (lru_Add key value c)) k = Some v \<Longrightarrow> k \<noteq> key \<Longrightarrow> lruMap c k = Some v" by blast+
qed

section \<open>The contract of a cache\<close>

text \<open>
  What a user of the cache relies on: a lookup does not change what is stored, a value that was just
  added is there, and nothing appears that was not added.
\<close>

locale keyed_cache =
  fixes ok :: "'c \<Rightarrow> bool" and look :: "'c \<Rightarrow> 'k \<Rightarrow> 'v option"
    and get :: "'k \<Rightarrow> 'c \<Rightarrow> 'v option \<times> 'c" and add :: "'k \<Rightarrow> 'v \<Rightarrow> 'c \<Rightarrow> bool \<times> 'c"
  assumes get_ok: "ok c \<Longrightarrow> ok (snd (get k c))"
    and get_value: "fst (get k c) = look c k"
    and get_look: "look (snd (get k c)) = look c"
    and add_ok: "ok c \<Longrightarrow> ok (snd (add k v c))"
    and add_key: "ok c \<Longrightarrow> look c k = None \<Longrightarrow> look (snd (add k v c)) k = Some v"
    and add_other: "ok c \<Longrightarrow> look c k = None \<Longrightarrow> look (snd (add k v c)) k' = Some v' \<Longrightarrow> k' \<noteq> k \<Longrightarrow> look c k' = Some v'"
begin

text \<open>Getting a value or adding a new one for its key: it is in the cache then, and a property of all values stays.\<close>

lemma fetch:
  assumes "ok c" "\<And>k v. look c k = Some v \<Longrightarrow> P k v" "P k new"
    and "(v, c') = (if look c k \<noteq> None then (the (fst (get k c)), snd (get k c)) else (new, snd (add k new c)))"
  shows "ok c'" "P k v" "look c' k = Some v" "look c' k' = Some v' \<Longrightarrow> P k' v'"
proof -
  have "ok c' \<and> P k v \<and> look c' k = Some v \<and> (\<forall>k' v'. look c' k' = Some v' \<longrightarrow> P k' v')"
  proof (cases "look c k")
    case None
    then have r: "v = new" "c' = snd (add k new c)" using assms(4) by simp_all
    have "P k' v'" if "look c' k' = Some v'" for k' v'
      using add_other [OF assms(1) None, of new k' v'] add_key [OF assms(1) None, of new] that r assms(2,3) by (cases "k' = k") auto
    then show ?thesis using r add_ok [OF assms(1)] add_key [OF assms(1) None] assms(3) by auto
  next
    case (Some w)
    then have "v = w" "c' = snd (get k c)" using assms(4) by (simp_all add: get_value)
    then show ?thesis using get_ok [OF assms(1)] Some assms(2) by (simp add: get_look)
  qed
  then show "ok c'" "P k v" "look c' k = Some v" "look c' k' = Some v' \<Longrightarrow> P k' v'" by blast+
qed

end

interpretation lru: keyed_cache "\<lambda>c. lru_ok c \<and> 0 < lruCapacity c" lruMap lru_Get lru_Add
proof unfold_locales
  fix c :: "('k, 'v) lru_cache" and k k' v v'
  assume ok: "lru_ok c \<and> 0 < lruCapacity c"
  show "lru_ok (snd (lru_Get k c)) \<and> 0 < lruCapacity (snd (lru_Get k c))"
    "lru_ok (snd (lru_Add k v c)) \<and> 0 < lruCapacity (snd (lru_Add k v c))"
    using ok by (simp_all add: lru_ok_Get lru_ok_Add)
  assume "lruMap c k = None"
  then have no: "\<not> lru_Contain c k" by (simp add: lru_Contain_def)
  show "lruMap (snd (lru_Add k v c)) k = Some v" using lru_Add_lookup(1) [OF _ _ no] ok by simp
  show "lruMap (snd (lru_Add k v c)) k' = Some v' \<Longrightarrow> k' \<noteq> k \<Longrightarrow> lruMap c k' = Some v'"
    using lru_Add_lookup(2) [OF _ _ no] ok by simp
qed (simp_all add: lru_Get_def split: option.split)

end
