(* ===== verification/Event_Database.thy ===== *)
theory Event_Database
  imports Doc_Store Lru_Cache
begin

text \<open>
  \<open>SysEventDatabase\<close> (store/sys_event_database.cpp): insertion through the cache of open documents,
  the choice of the files a query reads, queries over these files, and clearing when the quota of
  an event type is exceeded; and \<open>SysEventQuery::Execute\<close> with its result set
  (dao/sys_event_query.cpp). Each public operation of the database holds its mutex.
\<close>

section \<open>Priority queues\<close>

text \<open>
  The order in which a \<open>std::priority_queue\<close> with the given comparison hands out its elements, the
  greatest first. Among elements of which none is greater the library leaves the order open;
  here it is the order of their insertion.
\<close>

fun pq_insert :: "('a \<Rightarrow> 'a \<Rightarrow> bool) \<Rightarrow> 'a \<Rightarrow> 'a list \<Rightarrow> 'a list" where
  "pq_insert lt x [] = [x]"
| "pq_insert lt x (y # ys) = (if lt y x then x # y # ys else y # pq_insert lt x ys)"

definition pq_pops :: "('a \<Rightarrow> 'a \<Rightarrow> bool) \<Rightarrow> 'a list \<Rightarrow> 'a list" where
  "pq_pops lt xs = fold (pq_insert lt) xs []"

definition std_sort :: "('a \<Rightarrow> 'a \<Rightarrow> bool) \<Rightarrow> 'a list \<Rightarrow> 'a list" where
  "std_sort before xs = pq_pops (\<lambda>a b. before b a) xs"

section \<open>File names\<close>

definition GetFileSeq :: "file_ops \<Rightarrow> string \<Rightarrow> int" where
  "GetFileSeq fo f =
     (case ParseEventInfoFromDbFileName (foExtractFileName fo f) new_splited_info SEQ_ONLY of
        None \<Rightarrow> 0
      | Some eventInfo \<Rightarrow> siSeq eventInfo)"

definition GetFileDomain :: "string \<Rightarrow> string" where
  "GetFileDomain f =
     (let dirNames = SplitStr f ''/'' False True in
      if length dirNames < 2 then [] else dirNames ! (length dirNames - 2))"

definition CompareFileLessFunc :: "file_ops \<Rightarrow> string \<Rightarrow> string \<Rightarrow> bool" where
  "CompareFileLessFunc fo fileA fileB \<longleftrightarrow> GetFileSeq fo fileA < GetFileSeq fo fileB"

definition CompareFileGreaterFunc :: "file_ops \<Rightarrow> string \<Rightarrow> string \<Rightarrow> bool" where
  "CompareFileGreaterFunc fo fileA fileB \<longleftrightarrow> GetFileSeq fo fileA > GetFileSeq fo fileB"

text \<open>\<open>file.substr (file.rfind ("/") + 1)\<close>: without a slash \<open>npos + 1\<close> is 0.\<close>

definition after_slash :: "string \<Rightarrow> string" where
  "after_slash f = (case str_rfind f ''/'' of None \<Rightarrow> f | Some i \<Rightarrow> drop (i + 1) f)"

section \<open>The database\<close>

type_synonym doc_cache = "(string \<times> string, sys_event_doc) lru_cache"

definition DEFAULT_CAPACITY :: nat where "DEFAULT_CAPACITY = 30"

definition SysEventDatabase :: doc_cache where
  "SysEventDatabase = new_lru DEFAULT_CAPACITY"

text \<open>The directory, kept in a static variable; the context may be missing.\<close>

definition GetDatabaseDir :: "file_ops \<Rightarrow> string option \<Rightarrow> string \<Rightarrow> file_system \<Rightarrow> string \<times> file_system" where
  "GetDatabaseDir fo context dir fs =
     (if dir \<noteq> [] then (dir, fs)
      else case context of
             None \<Rightarrow> (dir, fs)
           | Some workPath \<Rightarrow>
               (let newDir = foIncludeTrailing fo workPath @ ''sys_event_db'' @ ''/'' in
                if FileExists fs newDir then (newDir, fs)
                else case ForceCreateDirectory fo newDir fs of
                       (ok, fs1) \<Rightarrow> (if ok then newDir else workPath, fs1)))"

definition Insert_db :: "store_ctx \<Rightarrow> stored_event \<Rightarrow> doc_cache \<Rightarrow> file_system \<Rightarrow> doc_code \<times> doc_cache \<times> file_system" where
  "Insert_db c event cache fs =
     (let keyOfCache = (seDomain event, seName event) in
      case (if lru_Contain cache keyOfCache
            then (case lru_Get keyOfCache cache of (value, cache1) \<Rightarrow> (the value, cache1))
            else (let sysEventDoc = SysEventDoc (seDomain event) (seName event) in
                  (sysEventDoc, snd (lru_Add keyOfCache sysEventDoc cache)))) of
        (sysEventDoc, cache1) \<Rightarrow>
          (case Insert_doc c (Some event) sysEventDoc fs of
             (ret, doc1, fs1) \<Rightarrow> (ret, lru_change keyOfCache doc1 cache1, fs1)))"

section \<open>Queries\<close>

definition INVALID_VALUE_INT :: int where "INVALID_VALUE_INT = - 1"
definition DEFAULT_REPORT_INTERVAL :: int where "DEFAULT_REPORT_INTERVAL = - 1"

record query_arg =
  qaDomain :: string
  qaNames :: "string list"
  qaType :: nat
  qaToSeq :: int
  qaFromSeq :: int
  qaReportInterval :: int

definition SysEventQueryArg :: query_arg where
  "SysEventQueryArg = \<lparr>qaDomain = [], qaNames = [], qaType = 0, qaToSeq = INVALID_VALUE_INT,
     qaFromSeq = INVALID_VALUE_INT, qaReportInterval = DEFAULT_REPORT_INTERVAL\<rparr>"

record sys_event_query =
  sqLimit :: int
  sqOrderCol :: "string \<times> bool"
  sqCond :: cond
  sqArg :: query_arg

definition GetQueryDirsByDomain :: "store_ctx \<Rightarrow> file_system \<Rightarrow> string \<Rightarrow> string list" where
  "GetQueryDirsByDomain c fs domain =
     (if domain = [] then GetDirDirs (scOps c) fs (scDbDir c)
      else let domainDir = scDbDir c @ domain in
           if IsDirectory fs domainDir then [domainDir @ ''/''] else [])"

definition IsContainQueryArg :: "string \<Rightarrow> query_arg \<Rightarrow> (string \<rightharpoonup> int) \<Rightarrow> bool \<times> (string \<rightharpoonup> int)" where
  "IsContainQueryArg f queryArg nameSeqMap =
     (if qaNames queryArg = [] \<and> qaType queryArg = 0 \<and> qaToSeq queryArg = INVALID_VALUE_INT then (True, nameSeqMap)
      else case ParseEventInfoFromDbFileName (after_slash f) new_splited_info
             (NAME_ONLY OR TYPE_ONLY OR SEQ_ONLY OR REPORT_INTERVAL_ONLY) of
        None \<Rightarrow> (False, nameSeqMap)
      | Some eventInfo \<Rightarrow>
          (if (case nameSeqMap (siName eventInfo) of None \<Rightarrow> False | Some sq \<Rightarrow> sq \<le> qaFromSeq queryArg)
           then (False, nameSeqMap)
           else let nameSeqMap1 = nameSeqMap(siName eventInfo \<mapsto> siSeq eventInfo) in
                if qaNames queryArg \<noteq> [] \<and> \<not> list_ex (\<lambda>item. item = siName eventInfo) (qaNames queryArg)
                then (False, nameSeqMap1)
                else if qaType queryArg \<noteq> 0 \<and> unat (siType eventInfo) \<noteq> qaType queryArg then (False, nameSeqMap1)
                else if qaToSeq queryArg \<noteq> INVALID_VALUE_INT \<and> siSeq eventInfo \<ge> qaToSeq queryArg
                then (False, nameSeqMap1)
                else if qaReportInterval queryArg \<noteq> DEFAULT_REPORT_INTERVAL \<and>
                        siReportInterval eventInfo \<noteq> NOT_CFG_REPORT_INTERVAL \<and>
                        qaReportInterval queryArg \<noteq> siReportInterval eventInfo
                then (False, nameSeqMap1)
                else (True, nameSeqMap1)))"

fun query_files_of :: "query_arg \<Rightarrow> string list \<Rightarrow> (string \<rightharpoonup> int) \<Rightarrow> string list" where
  "query_files_of queryArg [] nameSeqMap = []"
| "query_files_of queryArg (f # fl) nameSeqMap =
     (case IsContainQueryArg f queryArg nameSeqMap of
        (isContain, nameSeqMap1) \<Rightarrow>
          (if isContain then [f] else []) @ query_files_of queryArg fl nameSeqMap1)"

text \<open>The files in the order in which they are put into the queue.\<close>

definition GetQueryFiles :: "store_ctx \<Rightarrow> file_system \<Rightarrow> query_arg \<Rightarrow> string list" where
  "GetQueryFiles c fs queryArg =
     concat (map (\<lambda>queryDir.
         query_files_of queryArg
           (std_sort (CompareFileGreaterFunc (scOps c)) (GetDirFiles (scOps c) fs queryDir)) Map.empty)
       (GetQueryDirsByDomain c fs (qaDomain queryArg)))"

text \<open>Reading may divide by zero or run into other undefined behaviour on damaged files.\<close>

datatype query_fault = QueryDivision | QueryUndefined undefined_behaviour

fun files_loop :: "store_ctx \<Rightarrow> file_system \<Rightarrow> doc_query \<Rightarrow> string list \<Rightarrow> sys_event_query \<Rightarrow> entry list \<Rightarrow> nat \<Rightarrow>
    (query_fault + entry list \<times> sys_event_query) option" where
  "files_loop c fs docQuery [] q entries num = Some (Inr (entries, q))"
| "files_loop c fs docQuery (f # queryFiles) q entries num =
     (case Query_doc c (SysEventDoc_file f) fs docQuery entries num of
        None \<Rightarrow> None
      | Some (Crashed, res) \<Rightarrow> Some (Inl QueryDivision)
      | Some (Returned ret, Inl u) \<Rightarrow> Some (Inl (QueryUndefined u))
      | Some (Returned ret, Inr (entries1, num1)) \<Rightarrow>
          (if ret \<noteq> DOC_STORE_SUCCESS then files_loop c fs docQuery queryFiles q entries1 num1
           else if int num1 \<ge> sqLimit q
           then Some (Inr (entries1, q\<lparr>sqArg := (sqArg q)\<lparr>qaToSeq := GetFileSeq (scOps c) f\<rparr>\<rparr>))
           else files_loop c fs docQuery queryFiles q entries1 num1))"

definition BuildDocQuery :: "sys_event_query \<Rightarrow> doc_query" where
  "BuildDocQuery q = Traval (sqCond q) new_doc_query"

definition Query_db :: "store_ctx \<Rightarrow> file_system \<Rightarrow> sys_event_query \<Rightarrow> entry list \<Rightarrow>
    (query_fault + entry list \<times> sys_event_query) option" where
  "Query_db c fs q entries =
     (let queryFiles = pq_pops (CompareFileLessFunc (scOps c)) (GetQueryFiles c fs (sqArg q)) in
      if queryFiles = [] then Some (Inr (entries, q))
      else files_loop c fs (BuildDocQuery q) queryFiles q entries 0)"

section \<open>Executing a query\<close>

definition CompareSeqFuncLess :: "entry \<Rightarrow> entry \<Rightarrow> bool" where
  "CompareSeqFuncLess a b \<longleftrightarrow> sint (enId a) < sint (enId b)"

definition CompareSeqFuncGreater :: "entry \<Rightarrow> entry \<Rightarrow> bool" where
  "CompareSeqFuncGreater a b \<longleftrightarrow> sint (enId a) > sint (enId b)"

definition CompareTimestampFuncLess :: "entry \<Rightarrow> entry \<Rightarrow> bool" where
  "CompareTimestampFuncLess a b \<longleftrightarrow> sint (enTs a) < sint (enTs b)"

definition CompareTimestampFuncGreater :: "entry \<Rightarrow> entry \<Rightarrow> bool" where
  "CompareTimestampFuncGreater a b \<longleftrightarrow> sint (enTs a) > sint (enTs b)"

definition CreateCompareFunc :: "sys_event_query \<Rightarrow> entry \<Rightarrow> entry \<Rightarrow> bool" where
  "CreateCompareFunc q =
     (if fst (sqOrderCol q) = ''time_''
      then (if snd (sqOrderCol q) then CompareTimestampFuncGreater else CompareTimestampFuncLess)
      else (if snd (sqOrderCol q) then CompareSeqFuncGreater else CompareSeqFuncLess))"

definition Where :: "cond \<Rightarrow> sys_event_query \<Rightarrow> sys_event_query" where
  "Where cnd q = q\<lparr>sqCond := Cond_And (sqCond q) cnd\<rparr>"

definition Order :: "string \<Rightarrow> bool \<Rightarrow> sys_event_query \<Rightarrow> sys_event_query" where
  "Order col isAsc q = q\<lparr>sqOrderCol := (col, isAsc)\<rparr>"

text \<open>A result set with the position of its iterator.\<close>

record result_set =
  rsRecords :: "entry list"
  rsIter :: nat
  rsCode :: doc_code
  rsHas :: bool

definition ResultSet :: result_set where
  "ResultSet = \<lparr>rsRecords = [], rsIter = 0, rsCode = DOC_STORE_SUCCESS, rsHas = False\<rparr>"

definition ResultSet_Set :: "doc_code \<Rightarrow> bool \<Rightarrow> result_set \<Rightarrow> result_set" where
  "ResultSet_Set code has rs =
     rs\<lparr>rsCode := code, rsHas := has, rsIter := if rsRecords rs \<noteq> [] then 0 else rsIter rs\<rparr>"

text \<open>The position that \<open>Next\<close> returns; without a next record it is the end.\<close>

definition ResultSet_Next :: "result_set \<Rightarrow> nat \<times> result_set" where
  "ResultSet_Next rs =
     (if \<not> rsHas rs then (length (rsRecords rs), rs)
      else (rsIter rs,
            rs\<lparr>rsIter := rsIter rs + 1, rsHas := (if rsIter rs + 1 = length (rsRecords rs) then False else rsHas rs)\<rparr>))"

fun take_results :: "entry list \<Rightarrow> int \<Rightarrow> entry list" where
  "take_results [] resultNum = []"
| "take_results (en # ens) resultNum = (if resultNum \<ge> 0 then en # take_results ens (resultNum - 1) else [])"

definition Execute :: "store_ctx \<Rightarrow> file_system \<Rightarrow> int \<Rightarrow> bool \<Rightarrow> sys_event_query \<Rightarrow>
    (query_fault + result_set \<times> sys_event_query) option" where
  "Execute c fs limit isInnerQuery q =
     (let q1 = q\<lparr>sqLimit := limit\<rparr> in
      case Query_db c fs q1 [] of
        None \<Rightarrow> None
      | Some (Inl fault) \<Rightarrow> Some (Inl fault)
      | Some (Inr (entries, q2)) \<Rightarrow>
          (if entries = [] then Some (Inr (ResultSet_Set DOC_STORE_SUCCESS False ResultSet, q2))
           else let resultNum = (if int (length entries) > limit \<and> isInnerQuery then limit else int (length entries));
                    recs = take_results (pq_pops (CreateCompareFunc q1) entries) resultNum
                in Some (Inr (ResultSet_Set DOC_STORE_SUCCESS True (ResultSet\<lparr>rsRecords := recs\<rparr>), q2))))"

end
