(* ===== verification/Db_Clear.thy ===== *)
theory Db_Clear
  imports Event_Database "HOL-Library.Multiset"
begin

text \<open>
  Clearing the database (\<open>SysEventDatabase::Clear\<close> and \<open>GetClearMap\<close>): when the files of an event
  type exceed its quota by a tenth, files are removed, first the oldest of the names that have
  too many files, then the oldest of the others, until the type is below its quota.
\<close>

section \<open>Model\<close>

definition NUM_OF_BYTES_IN_MB :: nat where "NUM_OF_BYTES_IN_MB = 1024 * 1024"

definition GetMaxFileNum :: "store_ctx \<Rightarrow> nat \<Rightarrow> nat" where
  "GetMaxFileNum c ty = unat (GetMaxFileNum_config (scConfig c) (int ty))"

text \<open>The product has the type of its operands, 32 bits.\<close>

definition GetMaxSize :: "store_ctx \<Rightarrow> nat \<Rightarrow> nat" where
  "GetMaxSize c ty = u32_mul (unat (GetMaxSize_config (scConfig c) (int ty))) NUM_OF_BYTES_IN_MB"

text \<open>Products of finite doubles, in units of \<open>2 ^ -1074\<close>.\<close>

definition mul_rounded :: "int \<Rightarrow> int \<Rightarrow> int" where
  "mul_rounded x y =
     (let a = nat \<bar>x * y\<bar> in
      if a < 2 ^ 1126 then sgn (x * y) * int (round_half_even a (2 ^ 1074))
      else round53 (x * y) div 2 ^ 1074)"

text \<open>\<open>const double delPct = 0.1\<close>\<close>

definition delPct :: int where
  "delPct = (case dbl_of 0x3FB999999999999A of Finite x \<Rightarrow> x | d \<Rightarrow> 0)"

definition clear_threshold :: "nat \<Rightarrow> dbl" where
  "clear_threshold maxSize =
     (let m = round53 (int maxSize * 2 ^ 1074) in dbl_rounded (m + mul_rounded m delPct))"

definition below_threshold :: "nat \<Rightarrow> nat \<Rightarrow> bool" where
  "below_threshold totalFileSize maxSize = dbl_less (dbl_of_int (int totalFileSize)) (clear_threshold maxSize)"

text \<open>For each type its size, the files of its normal queue and those of its limit queue.\<close>

type_synonym clear_map = "(nat \<times> nat \<times> string list \<times> string list) list"

definition add_file :: "bool \<Rightarrow> nat \<Rightarrow> string \<Rightarrow> nat \<Rightarrow> clear_map \<Rightarrow> clear_map" where
  "add_file overLimit ty f fileSize clearMap =
     (case map_of clearMap ty of
        None \<Rightarrow> AList.update ty (fileSize, [f], []) clearMap
      | Some (szb, normal, limit) \<Rightarrow>
          AList.update ty
            (if overLimit then (szb + fileSize, normal, limit @ [f]) else (szb + fileSize, normal @ [f], limit))
            clearMap)"

fun clear_map_loop :: "store_ctx \<Rightarrow> file_system \<Rightarrow> string list \<Rightarrow> (string \<Rightarrow> nat) \<Rightarrow> clear_map \<Rightarrow> clear_map" where
  "clear_map_loop c fs [] nameLimitMap clearMap = clearMap"
| "clear_map_loop c fs (f # fl) nameLimitMap clearMap =
     (case ParseEventInfoFromDbFileName (after_slash f) new_splited_info (NAME_ONLY OR TYPE_ONLY) of
        None \<Rightarrow> clear_map_loop c fs fl nameLimitMap clearMap
      | Some eventInfo \<Rightarrow>
          (let domainNameStr = GetFileDomain f @ siName eventInfo;
               ty = unat (siType eventInfo);
               nameLimitMap1 = nameLimitMap(domainNameStr := nameLimitMap domainNameStr + 1);
               fileSize = GetFileSize fs f
           in clear_map_loop c fs fl nameLimitMap1
                (add_file (nameLimitMap1 domainNameStr > GetMaxFileNum c ty) ty f fileSize clearMap)))"

definition GetClearMap :: "store_ctx \<Rightarrow> file_system \<Rightarrow> clear_map" where
  "GetClearMap c fs =
     clear_map_loop c fs (pq_pops (CompareFileLessFunc (scOps c)) (GetQueryFiles c fs SysEventQueryArg)) (\<lambda>s. 0) []"

fun clear_loop :: "file_ops \<Rightarrow> nat \<Rightarrow> string list \<Rightarrow> nat \<Rightarrow> file_system \<Rightarrow> nat \<times> file_system" where
  "clear_loop fo maxSize [] totalFileSize fs = (totalFileSize, fs)"
| "clear_loop fo maxSize (delFile # queue) totalFileSize fs =
     (if totalFileSize \<ge> maxSize then
        (let fileSize = GetFileSize fs delFile in
         case RemoveFile fo delFile fs of
           (ok, fs1) \<Rightarrow>
             if \<not> ok then clear_loop fo maxSize queue totalFileSize fs1
             else clear_loop fo maxSize queue
                    (if totalFileSize \<ge> fileSize then totalFileSize - fileSize else 0) fs1)
      else (totalFileSize, fs))"

text \<open>The limit queue is emptied before the normal queue; both give their oldest file first.\<close>

definition clear_type :: "store_ctx \<Rightarrow> nat \<times> nat \<times> string list \<times> string list \<Rightarrow> file_system \<Rightarrow> file_system" where
  "clear_type c typeFiles fs =
     (case typeFiles of
        (ty, totalFileSize, normalQueue, limitQueue) \<Rightarrow>
          (let maxSize = GetMaxSize c ty in
           if below_threshold totalFileSize maxSize then fs
           else snd (clear_loop (scOps c) maxSize
                  (pq_pops (CompareFileGreaterFunc (scOps c)) limitQueue @
                   pq_pops (CompareFileGreaterFunc (scOps c)) normalQueue) totalFileSize fs)))"

definition Clear_db :: "store_ctx \<Rightarrow> doc_cache \<Rightarrow> file_system \<Rightarrow> doc_cache \<times> file_system" where
  "Clear_db c cache fs =
     (let clearMap = GetClearMap c fs in
      (if clearMap \<noteq> [] then lru_Clear cache else cache, fold (clear_type c) clearMap fs))"

section \<open>Queues\<close>

lemma mset_pq_insert [simp]: "mset (pq_insert lt x ys) = add_mset x (mset ys)"
  by (induction lt x ys rule: pq_insert.induct) auto

lemma set_pq_insert [simp]: "set (pq_insert lt x ys) = insert x (set ys)"
  by (metis mset_pq_insert set_mset_add_mset_insert set_mset_mset)

lemma mset_pq_pops [simp]: "mset (pq_pops lt xs) = mset xs"
proof -
  have "mset (fold (pq_insert lt) xs ys) = mset xs + mset ys" for ys
    by (induction xs arbitrary: ys) auto
  then show ?thesis by (simp add: pq_pops_def)
qed

lemma set_pq_pops [simp]: "set (pq_pops lt xs) = set xs"
  by (metis mset_pq_pops set_mset_mset)

lemma length_pq_pops [simp]: "length (pq_pops lt xs) = length xs"
  by (metis mset_pq_pops size_mset)

lemma distinct_pq_pops [simp]: "distinct (pq_pops lt xs) = distinct xs"
  by (metis mset_pq_pops mset_eq_imp_distinct_iff)

text \<open>
  The contract of a comparison function: it compares a key. Then nothing that is handed out later
  is greater, and a sorted range is in order.
\<close>

locale key_order =
  fixes lt :: "'a \<Rightarrow> 'a \<Rightarrow> bool" and key :: "'a \<Rightarrow> int"
  assumes lt_key: "lt a b \<longleftrightarrow> key a < key b"
begin

lemma insert_sorted: "sorted_wrt (\<lambda>a b. key a \<ge> key b) ys \<Longrightarrow> sorted_wrt (\<lambda>a b. key a \<ge> key b) (pq_insert lt x ys)"
  by (induction ys) (auto simp: lt_key)

lemma pops_sorted: "sorted_wrt (\<lambda>a b. key a \<ge> key b) (pq_pops lt xs)"
proof -
  have "sorted_wrt (\<lambda>a b. key a \<ge> key b) (fold (pq_insert lt) xs ys)" if "sorted_wrt (\<lambda>a b. key a \<ge> key b) ys" for ys
    using that by (induction xs arbitrary: ys) (auto intro: insert_sorted)
  from this [of "[]"] show ?thesis by (simp add: pq_pops_def)
qed

lemma top_greatest: "pq_pops lt xs = y # ys \<Longrightarrow> z \<in> set xs \<Longrightarrow> key z \<le> key y"
  using pops_sorted [of xs] set_pq_pops [of lt xs] by auto

end

interpretation newest: key_order "CompareFileLessFunc fo" "GetFileSeq fo" for fo
  by unfold_locales (simp add: CompareFileLessFunc_def)

interpretation oldest: key_order "CompareFileGreaterFunc fo" "\<lambda>f. - GetFileSeq fo f" for fo
  by unfold_locales (simp add: CompareFileGreaterFunc_def)

lemma mset_std_sort [simp]: "mset (std_sort lt xs) = mset xs" "set (std_sort lt xs) = set xs"
  by (simp_all add: std_sort_def)

section \<open>Removing files\<close>

definition sizes :: "file_system \<Rightarrow> string list \<Rightarrow> nat" where
  "sizes fs fl = sum_list (map (GetFileSize fs) fl)"

definition removed :: "string set \<Rightarrow> file_system \<Rightarrow> file_system \<Rightarrow> bool" where
  "removed S fs fs' \<longleftrightarrow> (\<forall>p. fs_file fs' p = (if p \<in> S then None else fs_file fs p)) \<and> fsDirs fs' = fsDirs fs"

lemma sizes_removed: "removed S fs fs' \<Longrightarrow> set fl \<inter> S = {} \<Longrightarrow> sizes fs' fl = sizes fs fl"
  unfolding sizes_def by (intro arg_cong [of _ _ sum_list] map_cong) (auto simp: GetFileSize_def removed_def)

lemma removed_trans: "removed S fs fs1 \<Longrightarrow> removed T fs1 fs2 \<Longrightarrow> removed (S \<union> T) fs fs2"
  by (auto simp: removed_def)

lemma RemoveFile_works:
  assumes "\<And>p. foRemove fo p" "fs_file fs p \<noteq> None"
  shows "\<exists>fs'. RemoveFile fo p fs = (True, fs') \<and> removed {p} fs fs'"
proof -
  obtain fs' where r: "RemoveFile fo p fs = (True, fs')" using assms by (auto simp: RemoveFile_def)
  then show ?thesis using fs_file_remove [OF r] by (auto simp: removed_def)
qed

text \<open>As many files are removed from the front of the queue as are needed, and no more.\<close>

lemma clear_loop_works:
  assumes "\<And>p. foRemove fo p" "distinct queue" "\<forall>p \<in> set queue. fs_file fs p \<noteq> None" "szb = sizes fs queue"
  shows "\<exists>k fs'. clear_loop fo maxSize queue szb fs = (sizes fs (drop k queue), fs') \<and> k \<le> length queue \<and>
    removed (set (take k queue)) fs fs' \<and> (sizes fs (drop k queue) < maxSize \<or> k = length queue) \<and>
    (\<forall>j < k. sizes fs (drop j queue) \<ge> maxSize)"
  using assms(2-)
proof (induction queue arbitrary: szb fs)
  case Nil
  then show ?case by (auto simp: removed_def)
next
  case (Cons p queue)
  show ?case
  proof (cases "szb \<ge> maxSize")
    case False
    then show ?thesis
      using Cons.prems by (intro exI [of _ 0] exI [of _ fs]) (auto simp: removed_def)
  next
    case True
    obtain fs1 where r: "RemoveFile fo p fs = (True, fs1)" "removed {p} fs fs1"
      using RemoveFile_works [OF assms(1)] Cons.prems(2) by fastforce
    have rest: "sizes fs1 (drop j queue) = sizes fs (drop j queue)" for j
      using Cons.prems(1) set_drop_subset [of j queue] by (intro sizes_removed [OF r(2)]) auto
    have "szb - GetFileSize fs p = sizes fs1 queue" "GetFileSize fs p \<le> szb"
      using Cons.prems(3) rest [of 0] by (simp_all add: sizes_def)
    moreover have "\<forall>p \<in> set queue. fs_file fs1 p \<noteq> None" using Cons.prems(1,2) r(2) by (auto simp: removed_def)
    ultimately obtain k fs' where k: "clear_loop fo maxSize queue (szb - GetFileSize fs p) fs1 = (sizes fs1 (drop k queue), fs')"
      "k \<le> length queue" "removed (set (take k queue)) fs1 fs'"
      "sizes fs1 (drop k queue) < maxSize \<or> k = length queue" "\<forall>j < k. sizes fs1 (drop j queue) \<ge> maxSize"
      using Cons.IH [of fs1 "szb - GetFileSize fs p"] Cons.prems(1) by auto
    have "\<forall>j < Suc k. sizes fs (drop j (p # queue)) \<ge> maxSize"
      using True Cons.prems(3) k(5) rest by (auto simp: less_Suc_eq_0_disj)
    then show ?thesis
      using True r k \<open>GetFileSize fs p \<le> szb\<close> rest removed_trans [OF r(2) k(3)]
      by (intro exI [of _ "Suc k"] exI [of _ fs']) (simp add: Let_def)
  qed
qed

section \<open>The clear map\<close>

definition file_type :: "string \<Rightarrow> nat option" where
  "file_type f = map_option (\<lambda>info. unat (siType info))
     (ParseEventInfoFromDbFileName (after_slash f) new_splited_info (NAME_ONLY OR TYPE_ONLY))"

definition type_files :: "clear_map \<Rightarrow> nat \<Rightarrow> string list" where
  "type_files clearMap ty = (case map_of clearMap ty of None \<Rightarrow> [] | Some (szb, normal, limit) \<Rightarrow> normal @ limit)"

definition clear_map_ok :: "file_system \<Rightarrow> clear_map \<Rightarrow> bool" where
  "clear_map_ok fs clearMap \<longleftrightarrow> distinct (map fst clearMap) \<and>
     (\<forall>ty szb normal limit. map_of clearMap ty = Some (szb, normal, limit) \<longrightarrow> szb = sizes fs (normal @ limit))"

lemma sizes_append [simp]: "sizes fs (xs @ ys) = sizes fs xs + sizes fs ys"
  by (simp add: sizes_def)

lemma sizes_simps [simp]: "sizes fs [] = 0" "sizes fs (x # xs) = GetFileSize fs x + sizes fs xs"
  by (simp_all add: sizes_def)

lemma sizes_mset: "mset xs = mset ys \<Longrightarrow> sizes fs xs = sizes fs ys"
  unfolding sizes_def by (metis mset_map sum_mset_sum_list)

lemma add_file_ok: "clear_map_ok fs m \<Longrightarrow> clear_map_ok fs (add_file b ty f (GetFileSize fs f) m)"
  by (auto simp: clear_map_ok_def add_file_def distinct_update update_conv' simp del: map_of_eq_Some_iff
      split: option.splits if_splits)

lemma add_file_files:
  "mset (type_files (add_file b ty f n m) ty') = mset (type_files m ty') + (if ty' = ty then {#f#} else {#})"
  by (auto simp: type_files_def add_file_def update_conv' split: option.splits)

lemma clear_map_loop_ok: "clear_map_ok fs m \<Longrightarrow> clear_map_ok fs (clear_map_loop c fs fl lim m)"
proof (induction fl arbitrary: lim m)
  case (Cons f fl)
  show ?case using Cons.IH Cons.prems add_file_ok [OF Cons.prems] by (simp add: Let_def split: option.split)
qed simp

lemma clear_map_loop_files:
  "mset (type_files (clear_map_loop c fs fl lim m) ty) =
    mset (type_files m ty) + mset (filter (\<lambda>f. file_type f = Some ty) fl)"
proof (induction fl arbitrary: lim m)
  case (Cons f fl)
  show ?case
    by (cases "ParseEventInfoFromDbFileName (after_slash f) new_splited_info (NAME_ONLY OR TYPE_ONLY)")
      (simp_all add: Cons.IH add_file_files file_type_def Let_def)
qed simp

section \<open>What clearing does\<close>

definition clear_order :: "store_ctx \<Rightarrow> nat \<times> nat \<times> string list \<times> string list \<Rightarrow> string list" where
  "clear_order c e = (case e of (ty, szb, normal, limit) \<Rightarrow>
     pq_pops (CompareFileGreaterFunc (scOps c)) limit @ pq_pops (CompareFileGreaterFunc (scOps c)) normal)"

text \<open>The number of files that are removed for a type.\<close>

definition cleared :: "store_ctx \<Rightarrow> file_system \<Rightarrow> nat \<times> nat \<times> string list \<times> string list \<Rightarrow> nat \<Rightarrow> bool" where
  "cleared c fs e k \<longleftrightarrow> k \<le> length (clear_order c e) \<and>
     (if below_threshold (fst (snd e)) (GetMaxSize c (fst e)) then k = 0
      else (sizes fs (drop k (clear_order c e)) < GetMaxSize c (fst e) \<or> k = length (clear_order c e)) \<and>
        (\<forall>j < k. sizes fs (drop j (clear_order c e)) \<ge> GetMaxSize c (fst e)))"

definition entry_ok :: "store_ctx \<Rightarrow> file_system \<Rightarrow> nat \<times> nat \<times> string list \<times> string list \<Rightarrow> bool" where
  "entry_ok c fs e \<longleftrightarrow> distinct (clear_order c e) \<and> (\<forall>p \<in> set (clear_order c e). fs_file fs p \<noteq> None) \<and>
     fst (snd e) = sizes fs (clear_order c e)"

lemma clear_type_works:
  assumes "\<And>p. foRemove (scOps c) p" "entry_ok c fs e"
  obtains k where "cleared c fs e k" "removed (set (take k (clear_order c e))) fs (clear_type c e fs)"
proof (cases "below_threshold (fst (snd e)) (GetMaxSize c (fst e))")
  case True
  then show thesis
    by (intro that [of 0]) (auto simp: cleared_def clear_type_def removed_def Let_def split: prod.split)
next
  case False
  have e: "distinct (clear_order c e)" "\<forall>p \<in> set (clear_order c e). fs_file fs p \<noteq> None"
    "fst (snd e) = sizes fs (clear_order c e)" using assms(2) by (auto simp: entry_ok_def)
  obtain k fs' where k: "clear_loop (scOps c) (GetMaxSize c (fst e)) (clear_order c e) (fst (snd e)) fs =
      (sizes fs (drop k (clear_order c e)), fs')" "k \<le> length (clear_order c e)" "removed (set (take k (clear_order c e))) fs fs'"
    "sizes fs (drop k (clear_order c e)) < GetMaxSize c (fst e) \<or> k = length (clear_order c e)"
    "\<forall>j < k. sizes fs (drop j (clear_order c e)) \<ge> GetMaxSize c (fst e)"
    using clear_loop_works [OF assms(1) e, of "GetMaxSize c (fst e)"] by blast
  moreover have "clear_type c e fs = fs'"
    using False k(1) by (cases e) (simp add: clear_type_def clear_order_def Let_def)
  ultimately show thesis using False by (intro that [of k]) (simp_all add: cleared_def)
qed

lemma drop_order_disjoint: "set xs \<inter> S = {} \<Longrightarrow> set (drop j xs) \<inter> S = {}"
  using set_drop_subset [of j xs] by blast

lemma cleared_cong:
  assumes "removed S fs fs1" "set (clear_order c e) \<inter> S = {}"
  shows "cleared c fs1 e k = cleared c fs e k" "entry_ok c fs e \<Longrightarrow> entry_ok c fs1 e"
  using sizes_removed [OF assms(1)] drop_order_disjoint [OF assms(2)] assms
  by (auto simp: cleared_def entry_ok_def removed_def)

lemma clear_types_work:
  assumes "\<And>p. foRemove (scOps c) p"
  shows "\<forall>e \<in> set m. entry_ok c fs e \<Longrightarrow> distinct (concat (map (clear_order c) m)) \<Longrightarrow> distinct m \<Longrightarrow>
    \<exists>n. (\<forall>e \<in> set m. cleared c fs e (n e)) \<and>
      removed (\<Union>e \<in> set m. set (take (n e) (clear_order c e))) fs (fold (clear_type c) m fs)"
proof (induction m arbitrary: fs)
  case Nil
  then show ?case by (simp add: removed_def)
next
  case (Cons e m)
  obtain k where k: "cleared c fs e k" "removed (set (take k (clear_order c e))) fs (clear_type c e fs)"
    using clear_type_works [OF assms] Cons.prems(1) by (metis list.set_intros(1))
  let ?fs = "clear_type c e fs" and ?S = "set (take k (clear_order c e))"
  have dis: "set (clear_order c x) \<inter> ?S = {}" if "x \<in> set m" for x
    using Cons.prems(2) that set_take_subset [of k "clear_order c e"] by fastforce
  have ok: "\<forall>x \<in> set m. entry_ok c ?fs x" using cleared_cong(2) [OF k(2) dis] Cons.prems(1) by simp
  have "distinct (concat (map (clear_order c) m))" "distinct m" using Cons.prems(2,3) by simp_all
  from Cons.IH [OF ok this] obtain n where n: "\<forall>x \<in> set m. cleared c ?fs x (n x)"
    "removed (\<Union>x \<in> set m. set (take (n x) (clear_order c x))) ?fs (fold (clear_type c) m ?fs)" by blast
  have "e \<notin> set m" using Cons.prems(3) by simp
  then have "(\<Union>x \<in> set m. set (take ((n(e := k)) x) (clear_order c x))) = (\<Union>x \<in> set m. set (take (n x) (clear_order c x)))"
    by (intro SUP_cong refl) (metis fun_upd_other)
  then have "removed (\<Union>x \<in> set (e # m). set (take ((n(e := k)) x) (clear_order c x))) fs (fold (clear_type c) (e # m) fs)"
    using removed_trans [OF k(2) n(2)] by simp
  moreover have "\<forall>x \<in> set (e # m). cleared c fs x ((n(e := k)) x)"
    using k(1) n(1) cleared_cong(1) [OF k(2) dis] by auto
  ultimately show ?case by blast
qed

text \<open>With a quota of nothing, no size is below the threshold.\<close>

lemma round53_nonneg: "0 \<le> x \<Longrightarrow> 0 \<le> round53 x"
  by (auto simp: round53_def Let_def sgn_if)

lemma no_size_below_zero: "\<not> below_threshold n 0"
proof -
  have "round53 0 = 0" "mul_rounded 0 y = 0" "dbl_rounded 0 = Finite 0" for y
    by (simp_all add: round53_def mul_rounded_def dbl_rounded_def Let_def)
  then have "clear_threshold 0 = Finite 0" unfolding clear_threshold_def Let_def by simp
  moreover have "\<not> dbl_less (dbl_rounded x) (Finite 0)" if "0 \<le> x" for x
    using round53_nonneg [OF that] by (simp add: dbl_rounded_def Let_def)
  ultimately show ?thesis unfolding below_threshold_def dbl_of_int_def by simp
qed

end
