(* ===== verification/Doc_Store_Facts.thy ===== *)
theory Doc_Store_Facts
  imports Doc_Store
begin

text \<open>
  What inserting does to the files: each file of the store is a document whose blocks are those of
  the events inserted into it, and an insertion appends one block to one file or changes no
  content.
\<close>

section \<open>One write\<close>

definition doc_of :: "write_env \<Rightarrow> string \<Rightarrow> byte list list \<Rightarrow> byte list \<Rightarrow> bool" where
  "doc_of env tag cs f \<longleftrightarrow> cs = [] \<and> f = [] \<or>
     (\<exists>h. is_doc h (weSysVersion env) (wePatchVersion env) cs f \<and> dhTag h = tag_field tag)"

lemma Fill_fails: "FillCurrPageWithZero al n f = (ret, f') \<Longrightarrow> ret \<noteq> DOC_STORE_SUCCESS \<Longrightarrow> f' = f"
  by (auto simp: FillCurrPageWithZero_def split: if_splits option.splits)

lemma WriteContent_succeeds: "event_ok ev \<Longrightarrow> fst (WriteContent ev n f) = DOC_STORE_SUCCESS"
  by (auto simp: WriteContent_def event_ok_def Let_def)

lemma WriteHeader_fails: "WriteHeader env ev n w f = (ret, w', f') \<Longrightarrow> ret \<noteq> DOC_STORE_SUCCESS \<Longrightarrow> f' = f"
  by (auto simp: WriteHeader_def Let_def split: if_splits)

lemma Write_next_fails:
  assumes "event_ok ev" "Write_next al stk env r ev n w f = (ret, w', f')" "ret \<noteq> DOC_STORE_SUCCESS"
  shows "f' = f"
  using assms(2,3) WriteContent_succeeds [OF assms(1)] Fill_fails
  by (auto simp: Write_next_def Let_def split: prod.splits if_splits) (metis fst_conv)+

lemma Write_fails:
  assumes "event_ok ev" "Write al stk env path (Some ev) w f = (ret, w', f')" "ret \<noteq> DOC_STORE_SUCCESS"
  shows "f' = f"
  using assms(2,3) WriteContent_succeeds [OF assms(1)] WriteHeader_fails Write_next_fails [OF assms(1)]
  by (auto simp: Write_def Let_def split: prod.splits if_splits sum.splits) (metis fst_conv)+

lemma Write_doc:
  assumes "env_ok env" "event_ok ev" "doc_of env tag cs f" "seTag ev = tag" "length f < 2 ^ 31"
    and w: "Write al stk env path (Some ev) w f = (ret, w', f')"
  shows "doc_of env tag (if ret = DOC_STORE_SUCCESS then cs @ [event_block ev] else cs) f'"
proof (cases "ret = DOC_STORE_SUCCESS")
  case True
  show ?thesis
  proof (cases "f = []")
    case f: True
    have "cs = []"
    proof (rule ccontr)
      assume "cs \<noteq> []"
      then obtain h where h: "is_doc h (weSysVersion env) (wePatchVersion env) cs f" using assms(3) by (auto simp: doc_of_def)
      then have "head_ok h (weSysVersion env) (wePatchVersion env)" by (simp add: is_doc_def)
      then have "0 < length (head_bytes h (weSysVersion env) (wePatchVersion env))"
        using length_head_bytes by (simp add: head_ok_def)
      then show False using h f by (auto simp: is_doc_def split: if_splits)
    qed
    then show ?thesis using Write_first [OF assms(1,2)] w True f assms(4) by (auto simp: doc_of_def)
  next
    case False
    then obtain h where h: "is_doc h (weSysVersion env) (wePatchVersion env) cs f" "dhTag h = tag_field tag"
      using assms(3) by (auto simp: doc_of_def)
    have "is_doc h (weSysVersion env) (wePatchVersion env) (cs @ [event_block ev]) f'"
      using Write_further [OF h(1) assms(2,5)] w True by blast
    then show ?thesis using True h(2) by (auto simp: doc_of_def)
  qed
next
  case False
  then show ?thesis using Write_fails [OF assms(2) w] assms(3) by simp
qed

section \<open>Paths of the store\<close>

definition db_dir :: "string list \<Rightarrow> string" where
  "db_dir dirs = CHR ''/'' # concat (map (\<lambda>d. d @ ''/'') dirs)"

definition path_part :: "string \<Rightarrow> bool" where
  "path_part p \<longleftrightarrow> plain_part (CHR ''/'') p \<and> CHR ''-'' \<notin> set p"

definition ctx_ok :: "store_ctx \<Rightarrow> bool" where
  "ctx_ok c \<longleftrightarrow> (\<exists>dirs. scDbDir c = db_dir dirs \<and> (\<forall>p \<in> set dirs. path_part p)) \<and>
     alloc_sized (scAlloc c) \<and> alloc_total (scAlloc c) \<and> env_ok (ctx_env c) \<and> c_utils_ok (scOps c)"

text \<open>What the definition of an event fixes for all events of a name.\<close>

record event_def =
  edType :: int
  edLevel :: string
  edTag :: string
  edInterval :: int

definition def_ok :: "event_def \<Rightarrow> bool" where
  "def_ok e \<longleftrightarrow> IsValidType (edType e) \<and> (edLevel e = ''CRITICAL'' \<or> edLevel e = ''MINOR'') \<and>
     0 \<le> edInterval e \<and> edInterval e < 2 ^ 15"

definition names_ok :: "string \<Rightarrow> string \<Rightarrow> bool" where
  "names_ok domain nm \<longleftrightarrow> IsValidDomainName domain MAX_DOMAIN_LEN \<and> domain \<noteq> [] \<and>
     IsValidDomainName nm MAX_EVENT_NAME_LEN \<and> nm \<noteq> []"

definition store_path :: "store_ctx \<Rightarrow> event_def \<Rightarrow> string \<Rightarrow> string \<Rightarrow> int \<Rightarrow> string" where
  "store_path c e domain nm sq =
     scDbDir c @ domain @ ''/'' @ db_file_name nm (edType e) (edLevel e) sq (edInterval e)"

definition path_of :: "store_ctx \<Rightarrow> event_def \<Rightarrow> string \<Rightarrow> string \<Rightarrow> string \<Rightarrow> bool" where
  "path_of c e domain nm p \<longleftrightarrow> (\<exists>sq. 0 < sq \<and> sq < 2 ^ 63 \<and> p = store_path c e domain nm sq)"

lemma valid_name_chars:
  assumes "IsValidDomainName s n" "x \<in> set s"
  shows "x \<noteq> CHR ''/'' \<and> x \<noteq> CHR '' '' \<and> x \<noteq> CHR ''-'' \<and> x \<noteq> CHR 0x00"
proof -
  have "is_digit x \<or> is_lower x \<or> is_upper x \<or> x = CHR ''_''"
    using assms by (auto simp: IsValidDomainName_def list_all_iff split: if_splits)
  then show ?thesis by (auto simp: is_digit_def is_lower_def is_upper_def)
qed

lemma valid_name_part: "IsValidDomainName s n \<Longrightarrow> s \<noteq> [] \<Longrightarrow> path_part s"
  using valid_name_chars [of s n] by (auto simp: path_part_def plain_part_def)

lemma db_dir_last: "last (db_dir dirs) = CHR ''/''" "db_dir dirs \<noteq> []"
  by (cases dirs rule: rev_cases; simp add: db_dir_def)+

lemma db_dir_no_minus: "\<forall>p \<in> set dirs. path_part p \<Longrightarrow> CHR ''-'' \<notin> set (db_dir dirs)"
  by (auto simp: db_dir_def path_part_def)

lemma join_with_snoc: "join_with d (ps @ [p, q]) = concat (map (\<lambda>x. x @ [d]) ps) @ p @ d # q"
proof (induction ps)
  case (Cons a ps)
  then show ?case by (cases ps) auto
qed simp

lemma doc_path_db_dir: "doc_path dirs domain fname = db_dir dirs @ domain @ ''/'' @ fname"
  by (simp add: doc_path_def db_dir_def join_with_snoc)

lemma file_name_no_slash:
  assumes "def_ok e" "IsValidDomainName nm n" "0 < sq"
  shows "CHR ''/'' \<notin> set (db_file_name nm (edType e) (edLevel e) sq (edInterval e))"
proof -
  have "0 \<le> edType e" "0 \<le> edInterval e" using assms(1) by (auto simp: def_ok_def IsValidType_def)
  moreover have "CHR ''/'' \<notin> set (show_nat k)" for k
    using show_nat_no_space [of "CHR ''/''" k] by (auto simp: is_digit_def)
  ultimately show ?thesis
    using assms valid_name_chars [OF assms(2)] by (auto simp: db_file_name_def show_int_def def_ok_def)
qed

lemma split_at_char:
  "a @ x # b = a' @ x # b' \<Longrightarrow> x \<notin> set a \<Longrightarrow> x \<notin> set a' \<Longrightarrow> a = a' \<and> b = b'"
  by (auto simp: append_eq_append_conv2 Cons_eq_append_conv append_eq_Cons_conv)

text \<open>The text that \<open>GetCurFile\<close> looks for is found only where the file name starts with the name.\<close>

lemma slash_name_minus:
  assumes eq: "base @ CHR ''/'' # fname = u @ CHR ''/'' # nm @ CHR ''-'' # w"
    and no: "CHR ''-'' \<notin> set base" "CHR ''/'' \<notin> set fname" "CHR ''/'' \<notin> set nm"
  shows "fname = nm @ CHR ''-'' # w"
proof -
  from eq consider x where "base = u @ x" "x @ CHR ''/'' # fname = CHR ''/'' # nm @ CHR ''-'' # w"
    | x where "u = base @ x" "CHR ''/'' # fname = x @ CHR ''/'' # nm @ CHR ''-'' # w"
    by (auto simp: append_eq_append_conv2)
  then show ?thesis
  proof cases
    case 1
    show ?thesis
    proof (cases x)
      case Nil
      then show ?thesis using 1 by simp
    next
      case (Cons y ys)
      then have "ys @ CHR ''/'' # fname = nm @ CHR ''-'' # w" "CHR ''-'' \<notin> set ys" using 1 no by auto
      then show ?thesis using no by (auto simp: append_eq_append_conv2 Cons_eq_append_conv append_eq_Cons_conv)
    qed
  next
    case 2
    then show ?thesis using no by (cases x) auto
  qed
qed

lemma found_name:
  assumes "ctx_ok c" "def_ok e" "names_ok domain nm'" "0 < sq" "CHR ''/'' \<notin> set nm" "CHR ''-'' \<notin> set nm"
    and "str_find (store_path c e domain nm' sq) (''/'' @ nm @ ''-'') 0 \<noteq> None"
  shows "nm' = nm"
proof -
  let ?f = "db_file_name nm' (edType e) (edLevel e) sq (edInterval e)"
  have v: "IsValidDomainName domain MAX_DOMAIN_LEN" "IsValidDomainName nm' MAX_EVENT_NAME_LEN"
    using assms(3) by (auto simp: names_ok_def)
  obtain j w where "drop j (store_path c e domain nm' sq) = (''/'' @ nm @ ''-'') @ w"
    using assms(7) by (auto simp: str_find_None elim!: prefixE)
  then obtain u where "store_path c e domain nm' sq = u @ CHR ''/'' # nm @ CHR ''-'' # w"
    by (metis append_Cons append_Nil append_assoc append_take_drop_id)
  then have "(scDbDir c @ domain) @ CHR ''/'' # ?f = u @ CHR ''/'' # nm @ CHR ''-'' # w"
    by (simp add: store_path_def)
  moreover have "CHR ''-'' \<notin> set (scDbDir c @ domain)"
    using assms(1) db_dir_no_minus valid_name_chars [OF v(1)] by (auto simp: ctx_ok_def)
  ultimately have "?f = nm @ CHR ''-'' # w"
    using slash_name_minus file_name_no_slash [OF assms(2) v(2) assms(4)] assms(5) by blast
  then obtain w' where w': "nm' @ CHR ''-'' # w' = nm @ CHR ''-'' # w" by (auto simp: db_file_name_def)
  have "CHR ''-'' \<notin> set nm'" using valid_name_chars [OF v(2)] by auto
  from split_at_char [OF w' this assms(6)] show ?thesis by simp
qed

lemma under_dir:
  assumes "names_ok domain nm" "names_ok domain' nm'" "prefix (scDbDir c @ domain @ ''/'') (store_path c e domain' nm' sq)"
  shows "domain' = domain"
proof -
  obtain w where "domain' @ CHR ''/'' # db_file_name nm' (edType e) (edLevel e) sq (edInterval e) = domain @ CHR ''/'' # w"
    using assms(3) by (auto simp: store_path_def elim!: prefixE)
  then show ?thesis
    using split_at_char valid_name_chars assms(1,2) unfolding names_ok_def by metis
qed

section \<open>The files of the store\<close>

text \<open>
  The abstract state: for each path, the events in its document, in the order of their insertion.
  Every file is the document of the events of its path.
\<close>

definition view_block :: "event_view \<Rightarrow> byte list" where
  "view_block v = content_bytes (length (block_bytes (evHeader v) (evTrace v) (evParams v)) - 38) (evSeq v)
     (stored_part (evHeader v) (evTrace v) (evParams v))"

definition view_names :: "string \<Rightarrow> string \<Rightarrow> event_view \<Rightarrow> bool" where
  "view_names domain nm v \<longleftrightarrow> hdDomain (evHeader v) = padded MAX_DOMAIN_LEN domain \<and>
     hdName (evHeader v) = padded MAX_EVENT_NAME_LEN nm"

type_synonym event_defs = "string \<Rightarrow> string \<Rightarrow> event_def"

definition file_ok :: "store_ctx \<Rightarrow> event_defs \<Rightarrow> event_view list \<Rightarrow> file_system \<Rightarrow> string \<Rightarrow> byte list \<Rightarrow> bool" where
  "file_ok c defs vs fs p f \<longleftrightarrow> (\<exists>domain nm. names_ok domain nm \<and> def_ok (defs domain nm) \<and>
     path_of c (defs domain nm) domain nm p \<and> IsDirectory fs (scDbDir c @ domain) \<and>
     doc_of (ctx_env c) (edTag (defs domain nm)) (map view_block vs) f \<and> (\<forall>v \<in> set vs. view_ok v \<and> view_names domain nm v))"

definition store_ok :: "store_ctx \<Rightarrow> event_defs \<Rightarrow> (string \<Rightarrow> event_view list) \<Rightarrow> file_system \<Rightarrow> bool" where
  "store_ok c defs G fs \<longleftrightarrow> fs_ok fs \<and>
     (\<forall>p. fs_file fs p = None \<longrightarrow> G p = []) \<and> (\<forall>p f. fs_file fs p = Some f \<longrightarrow> file_ok c defs (G p) fs p f)"

text \<open>An event as its definition and its content say it is.\<close>

definition insert_ok :: "event_defs \<Rightarrow> stored_event \<Rightarrow> event_view \<Rightarrow> bool" where
  "insert_ok defs ev v \<longleftrightarrow> names_ok (seDomain ev) (seName ev) \<and> def_ok (defs (seDomain ev) (seName ev)) \<and>
     seType ev = edType (defs (seDomain ev) (seName ev)) \<and> seLevel ev = edLevel (defs (seDomain ev) (seName ev)) \<and>
     seTag ev = edTag (defs (seDomain ev) (seName ev)) \<and>
     seReportInterval ev = edInterval (defs (seDomain ev) (seName ev)) \<and>
     view_ok v \<and> view_names (seDomain ev) (seName ev) v \<and> 0 < sint (seSeq ev) \<and> seSeq ev = evSeq v \<and>
     seRaw ev = Some (block_bytes (evHeader v) (evTrace v) (evParams v))"

lemma insert_ok_event:
  assumes "insert_ok defs ev v"
  shows "event_ok ev" "event_block ev = view_block v" "view_ok v"
proof -
  have v: "view_ok v" and ev: "event_of ev v = ev" using assms by (simp_all add: insert_ok_def event_of_def)
  show "event_ok ev" "event_block ev = view_block v" "view_ok v"
    using event_of_ok [OF v, of ev] v unfolding ev by (simp_all add: view_block_def)
qed

lemma file_ok_grows:
  "file_ok c defs vs fs p f \<Longrightarrow> set (fsDirs fs) \<subseteq> set (fsDirs fs') \<Longrightarrow> file_ok c defs vs fs' p f"
  unfolding file_ok_def IsDirectory_def by blast

lemma store_ok_dirs:
  assumes "store_ok c defs G fs" "fsFiles fs' = fsFiles fs" "set (fsDirs fs) \<subseteq> set (fsDirs fs')" "fs_ok fs'"
  shows "store_ok c defs G fs'"
  using assms file_ok_grows [OF _ assms(3)] by (simp add: store_ok_def fs_file_def)

lemma store_ok_put:
  assumes "store_ok c defs G fs" "file_ok c defs vs fs p f"
  shows "store_ok c defs (G(p := vs)) (fs_put p f fs)"
  using assms file_ok_grows [of c defs _ fs _ _ "fs_put p f fs"] by (simp add: store_ok_def)

lemma store_ok_new_file:
  assumes "store_ok c defs G fs" "fs_file fs p = None" "names_ok domain nm" "def_ok (defs domain nm)"
    and "path_of c (defs domain nm) domain nm p" "IsDirectory fs (scDbDir c @ domain)"
  shows "store_ok c defs G (fs_put p [] fs)"
proof -
  have "file_ok c defs [] fs p []" using assms(3-) by (auto simp: file_ok_def doc_of_def)
  moreover have "G(p := []) = G" using assms(1,2) by (simp add: store_ok_def fun_upd_idem)
  ultimately show ?thesis using store_ok_put [OF assms(1)] by metis
qed

lemma store_ok_file:
  assumes "store_ok c defs G fs" "fs_file fs p = Some f"
  shows "file_ok c defs (G p) fs p f"
  using assms by (simp add: store_ok_def)

text \<open>No file of the store has the name of a domain directory.\<close>

lemma store_ok_no_dir_file:
  assumes "store_ok c defs G fs" "names_ok domain nm"
  shows "fs_file fs (scDbDir c @ domain) = None"
proof (cases "fs_file fs (scDbDir c @ domain)")
  case (Some f)
  from store_ok_file [OF assms(1) this] obtain dom' nm' sq where
    "scDbDir c @ domain = store_path c (defs dom' nm') dom' nm' sq"
    by (auto simp: file_ok_def path_of_def)
  then have "CHR ''/'' \<in> set domain" by (simp add: store_path_def)
  then show ?thesis using valid_name_chars assms(2) unfolding names_ok_def by blast
qed

section \<open>Inserting\<close>

text \<open>An object for documents of an event name, possibly with an open writer.\<close>

definition sdoc_ok :: "store_ctx \<Rightarrow> event_def \<Rightarrow> string \<Rightarrow> string \<Rightarrow> file_system \<Rightarrow> sys_event_doc \<Rightarrow> bool" where
  "sdoc_ok c e domain nm fs d \<longleftrightarrow> sdDomain d = domain \<and> sdName d = nm \<and>
     (\<forall>pw. sdWriter d = Some pw \<longrightarrow> fst pw = sdCurFile d \<and> path_of c e domain nm (sdCurFile d) \<and>
        IsDirectory fs (scDbDir c @ domain) \<and> sdType d = edType e \<and> sdLevel d = edLevel e)"

text \<open>The file systems that an insertion can lead to: files keep what they have.\<close>

definition fs_grows :: "file_system \<Rightarrow> file_system \<Rightarrow> bool" where
  "fs_grows fs fs' \<longleftrightarrow> set (fsDirs fs) \<subseteq> set (fsDirs fs') \<and>
     (\<forall>p f. fs_file fs p = Some f \<longrightarrow> (\<exists>f'. fs_file fs' p = Some f' \<and> prefix f f'))"

lemma fs_grows_refl [simp, intro]: "fs_grows fs fs"
  by (simp add: fs_grows_def)

lemma fs_grows_trans [trans]: "fs_grows a b \<Longrightarrow> fs_grows b c \<Longrightarrow> fs_grows a c"
  unfolding fs_grows_def by (meson order_trans prefix_order.trans)

lemma fs_grows_put: "(\<And>g. fs_file fs p = Some g \<Longrightarrow> prefix g f) \<Longrightarrow> fs_grows fs (fs_put p f fs)"
  by (auto simp: fs_grows_def)

lemma fs_grows_dirs: "fsFiles fs' = fsFiles fs \<Longrightarrow> set (fsDirs fs) \<subseteq> set (fsDirs fs') \<Longrightarrow> fs_grows fs fs'"
  by (simp add: fs_grows_def fs_file_def)

lemma GetDir_ok:
  assumes "store_ok c defs G fs" "names_ok domain nm" "sdDomain d = domain" "GetDir c d fs = (dir, fs')"
  shows "store_ok c defs G fs'" "fs_grows fs fs'" "dir \<noteq> [] \<Longrightarrow> dir = scDbDir c @ domain \<and> IsDirectory fs' dir"
proof -
  let ?dir = "scDbDir c @ domain"
  have keeps: "fsFiles fs' = fsFiles fs" "set (fsDirs fs) \<subseteq> set (fsDirs fs')"
    using assms(3,4) create_dirs_grow [of fs "scOps c" "sub_paths ?dir"]
      ForceCreateDirectory_files [of "scOps c" ?dir fs]
    by (auto simp: GetDir_def Let_def ForceCreateDirectory_def split: if_splits prod.splits)
  have "fs_ok fs'"
    using assms(1,3,4) ForceCreateDirectory_ok [of fs "scOps c" ?dir]
    by (auto simp: GetDir_def Let_def store_ok_def split: if_splits prod.splits)
  from store_ok_dirs [OF assms(1) keeps this] show "store_ok c defs G fs'" .
  then have "fs_file fs' ?dir = None" using store_ok_no_dir_file assms(2) by blast
  show "fs_grows fs fs'" using fs_grows_dirs [OF keeps] .
  show "dir = ?dir \<and> IsDirectory fs' dir" if "dir \<noteq> []"
  proof (cases "IsDirectory fs ?dir")
    case True
    then show ?thesis using assms(3,4) by (simp add: GetDir_def)
  next
    case False
    then have "ForceCreateDirectory (scOps c) ?dir fs = (True, fs')" "dir = ?dir"
      using assms(3,4) that by (auto simp: GetDir_def Let_def split: prod.splits if_splits)
    then have "FileExists fs' ?dir" by (auto simp: ForceCreateDirectory_def split: prod.splits)
    then show ?thesis using \<open>fs_file fs' ?dir = None\<close> \<open>dir = ?dir\<close> by (simp add: FileExists_def)
  qed
qed

lemma GetCurFile_ok:
  assumes c: "ctx_ok c" and s: "store_ok c defs G fs" and n: "names_ok domain nm" and d: "sdDomain d = domain" "sdName d = nm"
    and f: "GetCurFile c d fs (scDbDir c @ domain) = f" "f \<noteq> []"
  shows "path_of c (defs domain nm) domain nm f" "fs_file fs f \<noteq> None"
proof -
  let ?dir = "scDbDir c @ domain"
  have "f = [] \<or> f \<in> set fs' \<and> str_find f (''/'' @ nm @ ''-'') 0 \<noteq> None"
    if "fold (\<lambda>f curFile. if str_find f (''/'' @ nm @ ''-'') 0 = None then curFile
        else if newer_name f curFile then f else curFile) fs' [] = f" for fs' f
    using that
  proof (induction fs' arbitrary: f rule: rev_induct)
    case (snoc x xs)
    then show ?case by (fastforce split: if_splits)
  qed simp
  from this [OF f(1) [unfolded GetCurFile_def d]] f(2)
  have fl: "f \<in> set (GetDirFiles (scOps c) fs ?dir)" "str_find f (''/'' @ nm @ ''-'') 0 \<noteq> None" by auto
  have "domain \<noteq> []" "last domain \<noteq> CHR ''/''"
    using n valid_name_chars unfolding names_ok_def by (auto simp: last_in_set)
  then have "foIncludeTrailing (scOps c) ?dir = scDbDir c @ domain @ ''/''"
    using c by (auto simp: ctx_ok_def c_utils_ok_def)
  then have pre: "prefix (scDbDir c @ domain @ ''/'') f" and "f \<in> set (map fst (fsFiles fs))"
    using fl(1) by (auto simp: GetDirFiles_def split: if_splits)
  then obtain bs where bs: "fs_file fs f = Some bs" by (metis fs_file_def map_of_eq_None_iff not_None_eq set_map)
  then show "fs_file fs f \<noteq> None" by simp
  from store_ok_file [OF s bs] obtain dom' nm' sq where
    o: "names_ok dom' nm'" "def_ok (defs dom' nm')" "0 < sq" "sq < 2 ^ 63" "f = store_path c (defs dom' nm') dom' nm' sq"
    by (auto simp: file_ok_def path_of_def)
  have "dom' = domain" using under_dir [OF n o(1)] pre o(5) by simp
  moreover have "nm' = nm"
  proof (rule found_name [OF c o(2,1,3)])
    show "CHR ''/'' \<notin> set nm" "CHR ''-'' \<notin> set nm" using n valid_name_chars unfolding names_ok_def by blast+
  qed (use fl(2) o(5) in simp)
  ultimately show "path_of c (defs domain nm) domain nm f" using o(3-5) by (auto simp: path_of_def)
qed

lemma path_names_unique:
  assumes "names_ok domain nm" "names_ok domain' nm'" "path_of c e domain nm p" "path_of c e' domain' nm' p"
  shows "domain' = domain" "nm' = nm"
proof -
  obtain sq sq' where p: "p = store_path c e domain nm sq" "p = store_path c e' domain' nm' sq'"
    using assms(3,4) unfolding path_of_def by blast
  have no: "CHR ''/'' \<notin> set domain" "CHR ''/'' \<notin> set domain'" "CHR ''-'' \<notin> set nm" "CHR ''-'' \<notin> set nm'"
    using assms(1,2) valid_name_chars unfolding names_ok_def by blast+
  have "domain @ CHR ''/'' # db_file_name nm (edType e) (edLevel e) sq (edInterval e) =
      domain' @ CHR ''/'' # db_file_name nm' (edType e') (edLevel e') sq' (edInterval e')"
    using p by (simp add: store_path_def)
  from split_at_char [OF this no(1,2)]
  have eq: "domain = domain'" "db_file_name nm (edType e) (edLevel e) sq (edInterval e) =
      db_file_name nm' (edType e') (edLevel e') sq' (edInterval e')" by auto
  show "domain' = domain" using eq(1) by simp
  obtain w w' where "nm @ CHR ''-'' # w = nm' @ CHR ''-'' # w'" using eq(2) by (auto simp: db_file_name_def)
  from split_at_char [OF this no(3,4)] show "nm' = nm" by simp
qed

lemma CreateCurFile_ok:
  assumes "store_ok c defs G fs" "insert_ok defs ev v" "e = defs (seDomain ev) (seName ev)"
    and "sdName d = seName ev" "sdType d = edType e" "sdLevel d = edLevel e"
    and "IsDirectory fs (scDbDir c @ seDomain ev)"
    and "CreateCurFile c (scDbDir c @ seDomain ev) ev d fs = (ret, d', fs')"
  shows "store_ok c defs G fs' \<and> fs_grows fs fs' \<and>
    (if ret = DOC_STORE_SUCCESS then \<exists>p. d' = d\<lparr>sdCurFile := p\<rparr> \<and> path_of c e (seDomain ev) (seName ev) p else d' = d)"
proof -
  let ?p = "store_path c e (seDomain ev) (seName ev) (sint (seSeq ev))"
  have e: "seReportInterval ev = edInterval e" "0 < sint (seSeq ev)" "names_ok (seDomain ev) (seName ev)" "def_ok e"
    using assms(2,3) by (auto simp: insert_ok_def)
  have "sint (seSeq ev) < 2 ^ 63" using sint_lt [of "seSeq ev"] by simp
  then have p: "path_of c e (seDomain ev) (seName ev) ?p" using e(2) by (auto simp: path_of_def)
  have filePath: "(scDbDir c @ seDomain ev) @ ''/'' @ db_file_name (sdName d) (sdType d) (sdLevel d) (sint (seSeq ev)) (seReportInterval ev) = ?p"
    using assms(4-6) e(1) by (simp add: store_path_def)
  have new: "store_ok c defs G (fs_put ?p [] fs)" if "fs_file fs ?p = None"
    using store_ok_new_file [OF assms(1) that e(3)] e(4) p assms(3,7) by simp
  have "fs_grows fs (fs_put ?p [] fs)" if "fs_file fs ?p = None" by (rule fs_grows_put) (simp add: that)
  then show ?thesis
    using assms(1,8) new p unfolding CreateCurFile_def filePath
    by (auto simp: Let_def CreateFile_def FileExists_def split: if_splits)
qed

lemma SysEventDocWriter_ok:
  assumes "store_ok c defs G fs" "names_ok domain nm" "def_ok (defs domain nm)"
    and "path_of c (defs domain nm) domain nm p" "IsDirectory fs (scDbDir c @ domain)"
    and "SysEventDocWriter c p fs = (pw, fs')"
  shows "store_ok c defs G fs' \<and> fs_grows fs fs' \<and> fst pw = p"
  using assms store_ok_new_file [OF assms(1) _ assms(2-5)] fs_grows_put [of fs p "[]"]
  by (auto simp: SysEventDocWriter_def split: if_splits)

lemma writer_Write_ok:
  assumes c: "ctx_ok c" and s: "store_ok c defs G fs" and ev: "insert_ok defs ev v"
    and e: "e = defs (seDomain ev) (seName ev)" and p: "path_of c e (seDomain ev) (seName ev) (fst pw)"
    and w: "writer_Write c pw ev fs = (ret, pw', fs')"
    and size: "\<And>f. fs_file fs (fst pw) = Some f \<Longrightarrow> length f < 2 ^ 31"
  shows "fst pw' = fst pw \<and> fs_grows fs fs' \<and>
    store_ok c defs (if ret = DOC_STORE_SUCCESS then G(fst pw := G (fst pw) @ [v]) else G) fs'"
proof (cases "fs_file fs (fst pw)")
  case None
  then have "ret \<noteq> DOC_STORE_SUCCESS" "pw' = pw" "fs' = fs"
    using w by (auto simp: writer_Write_def GetContentSize_def Let_def split: if_splits option.splits)
  then show ?thesis using s by simp
next
  case (Some f)
  obtain w1 f1 where W: "Write (scAlloc c) (scStack c) (ctx_env c) (fst pw) (Some ev) (snd pw) f = (ret, w1, f1)"
    and r: "pw' = (fst pw, w1)" "fs' = fs_put (fst pw) f1 fs"
    using w Some by (auto simp: writer_Write_def split: prod.splits)
  from store_ok_file [OF s Some] obtain domain nm where
    o: "names_ok domain nm" "path_of c (defs domain nm) domain nm (fst pw)"
    "def_ok (defs domain nm)" "IsDirectory fs (scDbDir c @ domain)"
    "doc_of (ctx_env c) (edTag (defs domain nm)) (map view_block (G (fst pw))) f" "\<forall>v \<in> set (G (fst pw)). view_ok v \<and> view_names domain nm v"
    by (auto simp: file_ok_def)
  have "names_ok (seDomain ev) (seName ev)" using ev by (simp add: insert_ok_def)
  from path_names_unique [OF o(1) this o(2) p] have eq: "seDomain ev = domain" "seName ev = nm" by auto
  have tag: "seTag ev = edTag (defs domain nm)" using ev eq by (simp add: insert_ok_def)
  have "env_ok (ctx_env c)" using c by (simp add: ctx_ok_def)
  from Write_doc [OF this insert_ok_event(1) [OF ev] o(5) tag size [OF Some] W]
  have "file_ok c defs (if ret = DOC_STORE_SUCCESS then G (fst pw) @ [v] else G (fst pw)) fs (fst pw) f1"
    using o insert_ok_event(2,3) [OF ev] ev eq by (cases "ret = DOC_STORE_SUCCESS") (auto simp: file_ok_def insert_ok_def)
  from store_ok_put [OF s this] have "store_ok c defs (if ret = DOC_STORE_SUCCESS then G(fst pw := G (fst pw) @ [v]) else G) fs'"
    unfolding r(2) by (cases "ret = DOC_STORE_SUCCESS") simp_all
  moreover have "prefix f f1" using Write_grows [of f "scAlloc c" "scStack c" "ctx_env c" "fst pw" "Some ev" "snd pw"] W by simp
  then have "fs_grows fs fs'" unfolding r(2) using Some by (intro fs_grows_put) simp
  ultimately show ?thesis using r(1) by simp
qed

lemma sdoc_ok_grows: "sdoc_ok c e domain nm fs d \<Longrightarrow> fs_grows fs fs' \<Longrightarrow> sdoc_ok c e domain nm fs' d"
  by (auto simp: sdoc_ok_def fs_grows_def IsDirectory_def)

text \<open>What every part of an insertion keeps.\<close>

definition keeps_store :: "store_ctx \<Rightarrow> event_defs \<Rightarrow> (string \<Rightarrow> event_view list) \<Rightarrow> string \<Rightarrow> string \<Rightarrow>
    file_system \<Rightarrow> sys_event_doc \<Rightarrow> file_system \<Rightarrow> bool" where
  "keeps_store c defs G domain nm fs d' fs' \<longleftrightarrow> store_ok c defs G fs' \<and> fs_grows fs fs' \<and>
     sdoc_ok c (defs domain nm) domain nm fs' d'"

lemma UpdateCurFile_ok:
  assumes c: "ctx_ok c" and s: "store_ok c defs G fs" and ev: "insert_ok defs ev v"
    and d: "sdoc_ok c (defs (seDomain ev) (seName ev)) (seDomain ev) (seName ev) fs d"
      "sdType d = seType ev" "sdLevel d = seLevel ev"
    and u: "UpdateCurFile c ev d fs = (ret, d', fs')"
  shows "store_ok c defs G fs' \<and> fs_grows fs fs' \<and>
    (if ret = DOC_STORE_SUCCESS
     then \<exists>p. d' = d\<lparr>sdCurFile := p\<rparr> \<and> path_of c (defs (seDomain ev) (seName ev)) (seDomain ev) (seName ev) p \<and>
       IsDirectory fs' (scDbDir c @ seDomain ev)
     else d' = d)"
proof -
  let ?e = "defs (seDomain ev) (seName ev)"
  have e: "seType ev = edType ?e" "seLevel ev = edLevel ?e" "names_ok (seDomain ev) (seName ev)"
    using ev by (auto simp: insert_ok_def)
  have dn: "sdDomain d = seDomain ev" "sdName d = seName ev" using d(1) by (auto simp: sdoc_ok_def)
  obtain dir fs1 where g: "GetDir c d fs = (dir, fs1)" by (cases "GetDir c d fs")
  note g_ok = GetDir_ok [OF s e(3) dn(1) g]
  show ?thesis
  proof (cases "dir = []")
    case True
    then show ?thesis using u g g_ok by (auto simp: UpdateCurFile_def)
  next
    case False
    then have dir: "dir = scDbDir c @ seDomain ev" "IsDirectory fs1 dir" using g_ok(3) by auto
    show ?thesis
    proof (cases "CreateCurFile c dir ev d fs1 = (ret, d', fs')")
      case True
      have "sdType d = edType ?e" "sdLevel d = edLevel ?e" using d e by auto
      from CreateCurFile_ok [OF g_ok(1) ev refl dn(2) this dir(2) [unfolded dir(1)] True [unfolded dir(1)]]
      show ?thesis
        using fs_grows_trans [OF g_ok(2)] dir by (auto simp: fs_grows_def IsDirectory_def)
    next
      case False
      let ?f = "GetCurFile c d fs1 (scDbDir c @ seDomain ev)"
      have "?f \<noteq> []" "ret = DOC_STORE_SUCCESS" "d' = d\<lparr>sdCurFile := ?f\<rparr>" "fs' = fs1"
        using u g \<open>dir \<noteq> []\<close> False by (auto simp: UpdateCurFile_def Let_def dir(1) split: if_splits)
      then show ?thesis using GetCurFile_ok(1) [OF c g_ok(1) e(3) dn refl] g_ok(1,2) dir by auto
    qed
  qed
qed

lemma InitWriter_ok:
  assumes c: "ctx_ok c" and s: "store_ok c defs G fs" and ev: "insert_ok defs ev v"
    and d: "sdoc_ok c (defs (seDomain ev) (seName ev)) (seDomain ev) (seName ev) fs d"
    and i: "InitWriter c ev d fs = (ret, d', fs')"
  shows "keeps_store c defs G (seDomain ev) (seName ev) fs d' fs' \<and>
    (ret = DOC_STORE_SUCCESS \<longrightarrow> (\<exists>pw. sdWriter d' = Some pw))"
proof (cases "sdWriter d = None \<or> IsNeedUpdateCurFile c d fs")
  case False
  then show ?thesis using i s d by (auto simp: InitWriter_def keeps_store_def)
next
  case True
  let ?e = "defs (seDomain ev) (seName ev)" and ?d = "d\<lparr>sdType := seType ev, sdLevel := seLevel ev\<rparr>"
  have e: "seType ev = edType ?e" "seLevel ev = edLevel ?e" "names_ok (seDomain ev) (seName ev)" "def_ok ?e"
    using ev by (auto simp: insert_ok_def)
  have d1: "sdoc_ok c ?e (seDomain ev) (seName ev) fs ?d" using d e by (auto simp: sdoc_ok_def)
  obtain r1 d2 fs1 where u: "UpdateCurFile c ev ?d fs = (r1, d2, fs1)" by (cases "UpdateCurFile c ev ?d fs") auto
  have ty: "sdType ?d = seType ev" "sdLevel ?d = seLevel ev" by simp_all
  note u_ok = UpdateCurFile_ok [OF c s ev d1 ty u]
  show ?thesis
  proof (cases "r1 = DOC_STORE_SUCCESS")
    case False
    then show ?thesis using i True u u_ok sdoc_ok_grows [OF d1] by (auto simp: InitWriter_def keeps_store_def)
  next
    case ok: True
    then obtain p where p: "d2 = ?d\<lparr>sdCurFile := p\<rparr>" "path_of c ?e (seDomain ev) (seName ev) p"
      "IsDirectory fs1 (scDbDir c @ seDomain ev)" using u_ok by auto
    obtain pw fs2 where w: "SysEventDocWriter c p fs1 = (pw, fs2)" by (cases "SysEventDocWriter c p fs1")
    have s1: "store_ok c defs G fs1" using u_ok by simp
    note w_ok = SysEventDocWriter_ok [OF s1 e(3,4) p(2,3) w]
    have "ret = DOC_STORE_SUCCESS" "d' = d2\<lparr>sdWriter := Some pw\<rparr>" "fs' = fs2"
      using i True u ok w p(1) by (auto simp: InitWriter_def)
    then show ?thesis
      using w_ok p u_ok fs_grows_trans [of fs fs1 fs2] e d
      by (auto simp: keeps_store_def sdoc_ok_def fs_grows_def IsDirectory_def)
  qed
qed

lemma GetDir_grows: "GetDir c d fs = (dir, fs') \<Longrightarrow> fs_grows fs fs'"
  using create_dirs_grow [of fs "scOps c" "sub_paths (scDbDir c @ sdDomain d)"]
    ForceCreateDirectory_files [of "scOps c" "scDbDir c @ sdDomain d" fs]
  by (auto simp: GetDir_def Let_def ForceCreateDirectory_def intro!: fs_grows_dirs split: if_splits prod.splits)

lemma CreateCurFile_grows: "CreateCurFile c dir ev d fs = (ret, d', fs') \<Longrightarrow> fs_grows fs fs'"
  by (auto simp: CreateCurFile_def CreateFile_def FileExists_def Let_def intro!: fs_grows_put split: if_splits)

lemma SysEventDocWriter_grows: "SysEventDocWriter c p fs = (pw, fs') \<Longrightarrow> fs_grows fs fs'"
  by (auto simp: SysEventDocWriter_def intro!: fs_grows_put split: if_splits)

lemma writer_Write_grows: "writer_Write c pw ev fs = (ret, pw', fs') \<Longrightarrow> fs_grows fs fs'"
  using Write_grows [of _ "scAlloc c" "scStack c" "ctx_env c" "fst pw" "Some ev" "snd pw"]
  by (auto simp: writer_Write_def split: option.splits prod.splits intro!: fs_grows_put) (metis snd_conv)

lemmas part_grows = GetDir_grows CreateCurFile_grows SysEventDocWriter_grows writer_Write_grows

lemma UpdateCurFile_grows: "UpdateCurFile c ev d fs = (ret, d', fs') \<Longrightarrow> fs_grows fs fs'"
  by (auto simp: UpdateCurFile_def Let_def split: prod.splits if_splits dest!: part_grows)
    (blast intro: fs_grows_trans)+

lemma InitWriter_grows: "InitWriter c ev d fs = (ret, d', fs') \<Longrightarrow> fs_grows fs fs'"
  by (auto simp: InitWriter_def split: prod.splits if_splits dest!: UpdateCurFile_grows part_grows)
    (blast intro: fs_grows_trans)+

lemma Insert_doc_grows: "Insert_doc c ev d fs = (ret, d', fs') \<Longrightarrow> fs_grows fs fs'"
  by (cases ev; auto simp: Insert_doc_def Let_def split: prod.splits if_splits dest!: InitWriter_grows part_grows)
    (blast intro: fs_grows_trans)+

definition fs_bounded :: "file_system \<Rightarrow> bool" where
  "fs_bounded fs \<longleftrightarrow> (\<forall>p f. fs_file fs p = Some f \<longrightarrow> length f + 255 * 1024 < 2 ^ 31)"

lemma fs_bounded_grows: "fs_grows fs fs' \<Longrightarrow> fs_bounded fs' \<Longrightarrow> fs_bounded fs"
  unfolding fs_grows_def fs_bounded_def by (meson add_le_mono1 le_less_trans prefix_length_le)

text \<open>The abstract effect of an insertion: the event is added to one document, or none.\<close>

definition inserted :: "doc_code \<Rightarrow> event_view \<Rightarrow> (string \<Rightarrow> event_view list) \<Rightarrow> (string \<Rightarrow> event_view list) \<Rightarrow> bool" where
  "inserted ret v G G' \<longleftrightarrow> (if ret = DOC_STORE_SUCCESS then \<exists>p. G' = G(p := G p @ [v]) else G' = G)"

lemma write_open_doc:
  assumes c: "ctx_ok c" and s: "store_ok c defs G fs" and ev: "insert_ok defs ev v"
    and d: "sdoc_ok c (defs (seDomain ev) (seName ev)) (seDomain ev) (seName ev) fs d" "sdWriter d = Some pw"
    and w: "writer_Write c pw ev fs = (ret, pw', fs')" and b: "fs_bounded fs'"
  obtains G' where "inserted ret v G G'"
    "keeps_store c defs G' (seDomain ev) (seName ev) fs (d\<lparr>sdWriter := Some pw'\<rparr>) fs'"
proof -
  let ?e = "defs (seDomain ev) (seName ev)"
  have p: "path_of c ?e (seDomain ev) (seName ev) (fst pw)" using d by (auto simp: sdoc_ok_def)
  note g = writer_Write_grows [OF w]
  have size: "length f < 2 ^ 31" if "fs_file fs (fst pw) = Some f" for f
    using fs_bounded_grows [OF g b] that unfolding fs_bounded_def by (meson add_lessD1)
  note ok = writer_Write_ok [OF c s ev refl p w size]
  have "sdoc_ok c ?e (seDomain ev) (seName ev) fs' (d\<lparr>sdWriter := Some pw'\<rparr>)"
    using sdoc_ok_grows [OF d(1) g] ok d(2) by (auto simp: sdoc_ok_def)
  then show thesis
    using ok by (intro that [of "if ret = DOC_STORE_SUCCESS then G(fst pw := G (fst pw) @ [v]) else G"])
      (auto simp: inserted_def keeps_store_def)
qed

lemma inserted_new_file: "inserted DOC_STORE_NEW_FILE v G G' \<Longrightarrow> G' = G"
  by (simp add: inserted_def)

lemma keeps_store_trans:
  "keeps_store c defs G domain nm fs d fs1 \<Longrightarrow> keeps_store c defs G' domain nm fs1 d' fs2 \<Longrightarrow>
    keeps_store c defs G' domain nm fs d' fs2"
  using fs_grows_trans by (auto simp: keeps_store_def)

lemma new_file_doc:
  assumes s: "keeps_store c defs G (seDomain ev) (seName ev) fs0 d fs" and ev: "insert_ok defs ev v" and w: "sdWriter d = Some pw"
    and g: "GetDir c d fs = (dir, fs1)" and r: "CreateCurFile c dir ev d fs1 = (ret, d', fs2)"
  shows "keeps_store c defs G (seDomain ev) (seName ev) fs d fs2 \<and>
    (if ret = DOC_STORE_SUCCESS then \<exists>p. d' = d\<lparr>sdCurFile := p\<rparr> \<and>
       path_of c (defs (seDomain ev) (seName ev)) (seDomain ev) (seName ev) p \<and>
       IsDirectory fs2 (scDbDir c @ seDomain ev) else d' = d)"
proof -
  let ?e = "defs (seDomain ev) (seName ev)"
  have st: "store_ok c defs G fs" and d: "sdoc_ok c ?e (seDomain ev) (seName ev) fs d" using s by (auto simp: keeps_store_def)
  have dn: "sdDomain d = seDomain ev" "sdName d = seName ev" "IsDirectory fs (scDbDir c @ seDomain ev)"
    "sdType d = edType ?e" "sdLevel d = edLevel ?e" using d w by (auto simp: sdoc_ok_def)
  have dir: "dir = scDbDir c @ seDomain ev" "fs1 = fs" using g dn by (auto simp: GetDir_def)
  from CreateCurFile_ok [OF st ev refl dn(2,4,5,3) r [unfolded dir]]
  show ?thesis using sdoc_ok_grows [OF d] dn(3) by (auto simp: keeps_store_def fs_grows_def IsDirectory_def)
qed

text \<open>
  An insertion that succeeds adds the event to one document of the store; one that does not keeps
  the content of every document.
\<close>

lemma Insert_doc_ok:
  assumes c: "ctx_ok c" and s: "store_ok c defs G fs" and ev: "insert_ok defs ev v"
    and d: "sdoc_ok c (defs (seDomain ev) (seName ev)) (seDomain ev) (seName ev) fs d"
    and i: "Insert_doc c (Some ev) d fs = (ret, d', fs')" and b: "fs_bounded fs'"
  shows "\<exists>G'. inserted ret v G G' \<and> keeps_store c defs G' (seDomain ev) (seName ev) fs d' fs'"
proof -
  let ?e = "defs (seDomain ev) (seName ev)" and ?keeps = "\<lambda>G. keeps_store c defs G (seDomain ev) (seName ev)"
  have e: "names_ok (seDomain ev) (seName ev)" "def_ok ?e" using ev by (auto simp: insert_ok_def)
  obtain r1 d1 fs1 where iw: "InitWriter c ev d fs = (r1, d1, fs1)" by (cases "InitWriter c ev d fs") auto
  note k1 = InitWriter_ok [OF c s ev d iw]
  show ?thesis
  proof (cases "r1 = DOC_STORE_SUCCESS")
    case False
    then show ?thesis using i iw k1 by (auto simp: Insert_doc_def inserted_def)
  next
    case ok1: True
    then obtain pw where pw: "sdWriter d1 = Some pw" using k1 by auto
    obtain r2 pw2 fs2 where w2: "writer_Write c pw ev fs1 = (r2, pw2, fs2)" by (cases "writer_Write c pw ev fs1") auto
    let ?d2 = "d1\<lparr>sdWriter := Some pw2\<rparr>"
    have s1: "store_ok c defs G fs1" "sdoc_ok c ?e (seDomain ev) (seName ev) fs1 d1" using k1 by (auto simp: keeps_store_def)
    note write1 = write_open_doc [OF c s1(1) ev s1(2) pw w2]
    show ?thesis
    proof (cases "r2 = DOC_STORE_NEW_FILE")
      case False
      then have "ret = r2" "d' = ?d2" "fs' = fs2" using i iw ok1 pw w2 by (auto simp: Insert_doc_def)
      then show ?thesis using write1 b k1 keeps_store_trans by metis
    next
      case new: True
      obtain dir fs3 where g: "GetDir c ?d2 fs2 = (dir, fs3)" by (cases "GetDir c ?d2 fs2")
      obtain r4 d4 fs4 where cr: "CreateCurFile c dir ev ?d2 fs3 = (r4, d4, fs4)" by (cases "CreateCurFile c dir ev ?d2 fs3") auto
      obtain pw5 fs5 where o5: "SysEventDocWriter c (sdCurFile d4) fs4 = (pw5, fs5)" by (cases "SysEventDocWriter c (sdCurFile d4) fs4")
      obtain r6 pw6 fs6 where w6: "writer_Write c pw5 ev fs5 = (r6, pw6, fs6)" by (cases "writer_Write c pw5 ev fs5") auto
      have res: "(ret, d', fs') = (if r4 = DOC_STORE_SUCCESS then (r6, d4\<lparr>sdWriter := Some pw6\<rparr>, fs6) else (r4, d4, fs4))"
        using i iw ok1 pw w2 new g cr o5 w6 by (simp add: Insert_doc_def split: if_splits)
      have grow: "fs_grows fs2 fs4" "fs_grows fs4 fs5" "fs_grows fs5 fs6"
        using fs_grows_trans [OF GetDir_grows [OF g] CreateCurFile_grows [OF cr]] SysEventDocWriter_grows [OF o5]
          writer_Write_grows [OF w6] by simp_all
      have "fs_grows fs2 fs'"
        using res fs_grows_trans [OF fs_grows_trans [OF grow(1,2)] grow(3)] grow(1) by (simp split: if_splits)
      from fs_bounded_grows [OF this b] obtain G1 where "inserted r2 v G G1" "?keeps G1 fs1 ?d2 fs2"
        using write1 by metis
      then have k2: "?keeps G fs1 ?d2 fs2" using inserted_new_file new by blast
      note k4 = new_file_doc [OF k2 ev _ g cr, simplified]
      show ?thesis
      proof (cases "r4 = DOC_STORE_SUCCESS")
        case False
        then have "?keeps G fs d' fs'" using res k1 k2 k4 keeps_store_trans by (metis (no_types) prod.inject)
        then show ?thesis using False res by (auto simp: inserted_def)
      next
        case True
        then obtain p where p: "d4 = ?d2\<lparr>sdCurFile := p\<rparr>" "path_of c ?e (seDomain ev) (seName ev) p"
          "IsDirectory fs4 (scDbDir c @ seDomain ev)" using k4 by auto
        have s4: "store_ok c defs G fs4" using k4 by (simp add: keeps_store_def)
        have sd: "sdCurFile d4 = p" using p(1) by simp
        note o_ok = SysEventDocWriter_ok [OF s4 e p(2,3) o5 [unfolded sd]]
        have d5: "sdoc_ok c ?e (seDomain ev) (seName ev) fs5 (d4\<lparr>sdWriter := Some pw5\<rparr>)"
          using k4 o_ok p by (auto simp: keeps_store_def sdoc_ok_def fs_grows_def IsDirectory_def)
        have s5: "store_ok c defs G fs5" using o_ok by simp
        have r: "ret = r6" "d' = d4\<lparr>sdWriter := Some pw6\<rparr>" "fs' = fs6" using res True by auto
        obtain G' where G': "inserted r6 v G G'" "?keeps G' fs5 (d4\<lparr>sdWriter := Some pw5, sdWriter := Some pw6\<rparr>) fs6"
          by (rule write_open_doc [OF c s5 ev d5 _ w6]) (use b r in simp_all)
        have "fs_grows fs fs5" using k1 k2 grow fs_grows_trans unfolding keeps_store_def by meson
        then have "?keeps G' fs d' fs'" using G'(2) r fs_grows_trans by (auto simp: keeps_store_def)
        then show ?thesis using G'(1) r by auto
      qed
    qed
  qed
qed

end
