(* ===== verification/Database_Facts.thy ===== *)
theory Database_Facts
  imports Db_Clear Doc_Store_Facts
begin

text \<open>
  Facts over the whole database: which files a query reads, that clearing enforces the quota of each
  type, that every event that was inserted is found by a query, and what executing a query
  returns.
\<close>

section \<open>The files of a query\<close>

lemma query_files_default: "query_files_of SysEventQueryArg fl m = fl"
  by (induction fl) (simp_all add: IsContainQueryArg_def SysEventQueryArg_def)

lemma db_dir_facts:
  assumes "ctx_ok c"
  shows "foIncludeTrailing (scOps c) (scDbDir c) = scDbDir c"
    "x \<noteq> [] \<Longrightarrow> CHR ''/'' \<notin> set x \<Longrightarrow> foIncludeTrailing (scOps c) (scDbDir c @ x) = scDbDir c @ x @ ''/''"
    "x \<noteq> [] \<Longrightarrow> CHR ''/'' \<notin> set x \<Longrightarrow> dir_name (scDbDir c @ x) = scDbDir c @ x"
proof -
  obtain dirs where "scDbDir c = db_dir dirs" using assms by (auto simp: ctx_ok_def)
  then have d: "scDbDir c \<noteq> []" "last (scDbDir c) = CHR ''/''" using db_dir_last by simp_all
  have cu: "p \<noteq> [] \<Longrightarrow> foIncludeTrailing (scOps c) p = (if last p = CHR ''/'' then p else p @ ''/'')" for p
    using assms by (simp add: ctx_ok_def c_utils_ok_def)
  show "foIncludeTrailing (scOps c) (scDbDir c) = scDbDir c" using cu d by simp
  assume x: "x \<noteq> []" "CHR ''/'' \<notin> set x"
  then have "last x \<noteq> CHR ''/''" using last_in_set by metis
  then show "foIncludeTrailing (scOps c) (scDbDir c @ x) = scDbDir c @ x @ ''/''"
    "dir_name (scDbDir c @ x) = scDbDir c @ x" using cu x by (simp_all add: dir_name_def)
qed

definition domain_dirs :: "store_ctx \<Rightarrow> file_system \<Rightarrow> string list" where
  "domain_dirs c fs = filter (child_of (scDbDir c)) (fsDirs fs)"

text \<open>A directory that is read delivers the files below it.\<close>

lemma GetDirFiles_child:
  assumes "ctx_ok c" "dir \<in> set (domain_dirs c fs)"
  shows "GetDirFiles (scOps c) fs dir = filter (prefix (dir @ ''/'')) (map fst (fsFiles fs))"
proof -
  obtain x where x: "dir = scDbDir c @ x" "x \<noteq> []" "CHR ''/'' \<notin> set x" "dir \<in> set (fsDirs fs)"
    using assms(2) by (auto simp: domain_dirs_def child_of_def elim!: prefixE)
  then show ?thesis
    using db_dir_facts(2,3) [OF assms(1), of x] by (simp add: GetDirFiles_def IsDirectory_def)
qed

definition all_files :: "store_ctx \<Rightarrow> file_system \<Rightarrow> string list" where
  "all_files c fs = concat (map (GetDirFiles (scOps c) fs) (domain_dirs c fs))"

lemma mset_concat_sorted: "mset (concat (map (\<lambda>d. std_sort lt (g d)) ds)) = mset (concat (map g ds))"
  by (induction ds) auto

lemma GetQueryFiles_default:
  assumes "ctx_ok c" "IsDirectory fs (scDbDir c)"
  shows "mset (GetQueryFiles c fs SysEventQueryArg) = mset (all_files c fs)"
proof -
  have "GetQueryDirsByDomain c fs (qaDomain SysEventQueryArg) = domain_dirs c fs"
    using assms db_dir_facts(1) [OF assms(1)]
    by (simp add: GetQueryDirsByDomain_def SysEventQueryArg_def GetDirDirs_def domain_dirs_def)
  then show ?thesis
    unfolding GetQueryFiles_def query_files_default all_files_def by (simp only: mset_concat_sorted)
qed

text \<open>Each file below a directory of the database is read once.\<close>

lemma all_files_distinct:
  assumes "ctx_ok c" "fs_ok fs"
  shows "distinct (all_files c fs)"
proof -
  have child: "\<exists>x. dir = scDbDir c @ x \<and> CHR ''/'' \<notin> set x" if "dir \<in> set (domain_dirs c fs)" for dir
    using that by (auto simp: domain_dirs_def child_of_def elim!: prefixE)
  have apart: "dir = dir'" if "dir \<in> set (domain_dirs c fs)" "dir' \<in> set (domain_dirs c fs)"
    "prefix (dir @ ''/'') p" "prefix (dir' @ ''/'') p" for dir dir' p
  proof -
    note t = that
    obtain x x' where x: "dir = scDbDir c @ x" "CHR ''/'' \<notin> set x" "dir' = scDbDir c @ x'" "CHR ''/'' \<notin> set x'"
      using child [OF t(1)] child [OF t(2)] by blast
    then obtain w w' where "x @ CHR ''/'' # w = x' @ CHR ''/'' # w'" using t(3,4) by (auto elim!: prefixE)
    from split_at_char [OF this x(2,4)] show ?thesis using x by simp
  qed
  have dist: "distinct (concat (map (\<lambda>dir. filter (prefix (dir @ ''/'')) (map fst (fsFiles fs))) ds))"
    if "distinct ds" "set ds \<subseteq> set (domain_dirs c fs)" for ds
    using that
  proof (induction ds)
    case (Cons d ds)
    then show ?case
      using assms(2) apart [of d] by (auto simp: fs_ok_def intro: distinct_filter)
  qed simp
  have "distinct (domain_dirs c fs)" using assms(2) by (simp add: domain_dirs_def fs_ok_def)
  from dist [OF this subset_refl]
  show ?thesis unfolding all_files_def using GetDirFiles_child [OF assms(1)] by (simp cong: map_cong)
qed

lemma all_files_exist: "ctx_ok c \<Longrightarrow> f \<in> set (all_files c fs) \<Longrightarrow> fs_file fs f \<noteq> None"
  using GetDirFiles_child [of c _ fs] by (auto simp: all_files_def fs_file_def map_of_eq_None_iff)

section \<open>Clearing\<close>

lemma distinct_concat_map:
  "distinct m \<Longrightarrow> \<forall>e \<in> set m. distinct (g e) \<Longrightarrow>
    \<forall>e \<in> set m. \<forall>e' \<in> set m. e \<noteq> e' \<longrightarrow> set (g e) \<inter> set (g e') = {} \<Longrightarrow> distinct (concat (map g m))"
  by (induction m) fastforce+

lemma Bex_pair: "(\<exists>e \<in> A. P e) \<longleftrightarrow> (\<exists>a b. (a, b) \<in> A \<and> P (a, b))"
  by auto

definition typed_files :: "store_ctx \<Rightarrow> file_system \<Rightarrow> nat \<Rightarrow> string list" where
  "typed_files c fs ty = filter (\<lambda>f. file_type f = Some ty) (all_files c fs)"

lemma clear_map_typed:
  assumes "ctx_ok c" "IsDirectory fs (scDbDir c)"
  shows "mset (type_files (GetClearMap c fs) ty) = mset (typed_files c fs ty)"
proof -
  let ?q = "pq_pops (CompareFileLessFunc (scOps c)) (GetQueryFiles c fs SysEventQueryArg)"
  have "mset (type_files (GetClearMap c fs) ty) = filter_mset (\<lambda>f. file_type f = Some ty) (mset ?q)"
    unfolding GetClearMap_def clear_map_loop_files by (simp add: type_files_def)
  then show ?thesis using GetQueryFiles_default [OF assms] by (simp add: typed_files_def)
qed

lemma clear_order_mset: "mset (clear_order c (ty, szb, normal, limit)) = mset (normal @ limit)"
  by (simp add: clear_order_def)

lemma clear_entries:
  assumes "ctx_ok c" "fs_ok fs" "IsDirectory fs (scDbDir c)" "e \<in> set (GetClearMap c fs)"
  shows "entry_ok c fs e" "mset (clear_order c e) = mset (typed_files c fs (fst e))"
proof -
  obtain ty szb normal limit where e: "e = (ty, szb, normal, limit)" by (cases e)
  have ok: "clear_map_ok fs (GetClearMap c fs)"
    unfolding GetClearMap_def by (rule clear_map_loop_ok) (simp add: clear_map_ok_def)
  then have m: "map_of (GetClearMap c fs) ty = Some (szb, normal, limit)"
    using assms(4) e by (simp add: clear_map_ok_def)
  then have "mset (normal @ limit) = mset (typed_files c fs ty)"
    using clear_map_typed [OF assms(1,3), of ty] by (simp add: type_files_def)
  then show ms: "mset (clear_order c e) = mset (typed_files c fs (fst e))"
    unfolding e clear_order_mset by simp
  have "distinct (typed_files c fs ty)" using all_files_distinct [OF assms(1,2)] by (simp add: typed_files_def)
  then have "distinct (clear_order c e)" using mset_eq_imp_distinct_iff [OF ms] by (simp add: e)
  moreover have "set (clear_order c e) = set (typed_files c fs ty)" using ms e by (metis fst_conv set_mset_mset)
  then have "\<forall>p \<in> set (clear_order c e). fs_file fs p \<noteq> None"
    using all_files_exist [OF assms(1)] by (auto simp: typed_files_def)
  moreover have "szb = sizes fs (clear_order c e)"
  proof -
    have "szb = sizes fs (normal @ limit)" using ok m by (simp add: clear_map_ok_def)
    also have "sizes fs (normal @ limit) = sizes fs (clear_order c e)"
      unfolding e by (rule sizes_mset) (simp only: clear_order_mset)
    finally show ?thesis .
  qed
  moreover have "fst (snd e) = szb" by (simp add: e)
  ultimately show "entry_ok c fs e" unfolding entry_ok_def by metis
qed

text \<open>
  For each type: nothing is removed while its files stay below the threshold; otherwise the front of
  a queue of its files is removed, as short as possible, so that the rest is below the quota.
\<close>

definition clears :: "store_ctx \<Rightarrow> file_system \<Rightarrow> nat \<Rightarrow> string list \<Rightarrow> nat \<Rightarrow> bool" where
  "clears c fs ty q k \<longleftrightarrow> k \<le> length q \<and> mset q = mset (typed_files c fs ty) \<and>
     (if below_threshold (sizes fs q) (GetMaxSize c ty) then k = 0
      else (sizes fs (drop k q) < GetMaxSize c ty \<or> k = length q) \<and>
        (\<forall>j < k. sizes fs (drop j q) \<ge> GetMaxSize c ty))"

definition oldest_first :: "store_ctx \<Rightarrow> string list \<Rightarrow> bool" where
  "oldest_first c q \<longleftrightarrow> sorted_wrt (\<lambda>a b. GetFileSeq (scOps c) a \<le> GetFileSeq (scOps c) b) q"

lemma clear_order_sorted:
  "\<exists>limit normal. clear_order c e = limit @ normal \<and> oldest_first c limit \<and> oldest_first c normal"
proof -
  have "oldest_first c (pq_pops (CompareFileGreaterFunc (scOps c)) xs)" for xs
    using oldest.pops_sorted [of "scOps c" xs] by (simp add: oldest_first_def)
  then show ?thesis by (cases e) (auto simp: clear_order_def)
qed

lemma Clear_db_works:
  assumes c: "ctx_ok c" and fs: "fs_ok fs" "IsDirectory fs (scDbDir c)" and rm: "\<And>p. foRemove (scOps c) p"
  shows "\<exists>q k. (\<forall>ty. clears c fs ty (q ty) (k ty) \<and>
      (\<exists>limit normal. q ty = limit @ normal \<and> oldest_first c limit \<and> oldest_first c normal)) \<and>
    removed (\<Union>ty. set (take (k ty) (q ty))) fs (snd (Clear_db c cache fs))"
proof -
  let ?m = "GetClearMap c fs"
  have ok: "\<forall>e \<in> set ?m. entry_ok c fs e" using clear_entries(1) [OF c fs] by blast
  have "clear_map_ok fs ?m" unfolding GetClearMap_def by (rule clear_map_loop_ok) (simp add: clear_map_ok_def)
  then have dk: "distinct (map fst ?m)" by (simp add: clear_map_ok_def)
  then have dm: "distinct ?m" by (simp add: distinct_map)
  have files: "set (clear_order c e) = set (typed_files c fs (fst e))" if "e \<in> set ?m" for e
    using clear_entries(2) [OF c fs that] by (metis set_mset_mset)
  have apart: "set (clear_order c e) \<inter> set (clear_order c e') = {}" if "e \<in> set ?m" "e' \<in> set ?m" "e \<noteq> e'" for e e'
  proof -
    have "fst e \<noteq> fst e'" using dk that by (auto simp: distinct_map inj_on_def)
    then show ?thesis using files that by (auto simp: typed_files_def)
  qed
  have "distinct (concat (map (clear_order c) ?m))"
    by (rule distinct_concat_map [OF dm]) (use ok apart in \<open>auto simp: entry_ok_def\<close>)
  from clear_types_work [OF rm ok this dm] obtain n where n: "\<forall>e \<in> set ?m. cleared c fs e (n e)"
    "removed (\<Union>e \<in> set ?m. set (take (n e) (clear_order c e))) fs (fold (clear_type c) ?m fs)" by blast
  define q where "q ty = (case map_of ?m ty of None \<Rightarrow> [] | Some x \<Rightarrow> clear_order c (ty, x))" for ty
  define k where "k ty = (case map_of ?m ty of None \<Rightarrow> 0 | Some x \<Rightarrow> n (ty, x))" for ty
  have "clears c fs ty (q ty) (k ty) \<and> (\<exists>limit normal. q ty = limit @ normal \<and> oldest_first c limit \<and> oldest_first c normal)" for ty
  proof (cases "map_of ?m ty")
    case None
    then have "mset (typed_files c fs ty) = {#}" using clear_map_typed [OF c fs(2), of ty] by (simp add: type_files_def)
    then show ?thesis using None by (simp add: q_def k_def clears_def oldest_first_def)
  next
    case (Some x)
    then have "(ty, x) \<in> set ?m" by (rule map_of_SomeD)
    then have "cleared c fs (ty, x) (n (ty, x))" "mset (clear_order c (ty, x)) = mset (typed_files c fs ty)"
      "fst x = sizes fs (clear_order c (ty, x))"
      using n(1) clear_entries(2) [OF c fs, of "(ty, x)"] ok by (auto simp: entry_ok_def)
    then have "clears c fs ty (clear_order c (ty, x)) (n (ty, x))"
      by (auto simp: clears_def cleared_def)
    then show ?thesis using Some clear_order_sorted [of c "(ty, x)"] by (simp add: q_def k_def)
  qed
  moreover have "(\<Union>ty. set (take (k ty) (q ty))) = (\<Union>e \<in> set ?m. set (take (n e) (clear_order c e)))"
  proof -
    have "x \<in> (\<Union>ty. set (take (k ty) (q ty))) \<longleftrightarrow> (\<exists>ty y. map_of ?m ty = Some y \<and> x \<in> set (take (n (ty, y)) (clear_order c (ty, y))))" for x
    proof -
      have "x \<in> set (take (k ty) (q ty)) \<longleftrightarrow> (\<exists>y. map_of ?m ty = Some y \<and> x \<in> set (take (n (ty, y)) (clear_order c (ty, y))))" for ty
        by (cases "map_of ?m ty") (simp_all add: q_def k_def)
      then show ?thesis by simp
    qed
    moreover have "map_of ?m ty = Some y \<longleftrightarrow> (ty, y) \<in> set ?m" for ty y using dk by (rule map_of_eq_Some_iff)
    ultimately have "x \<in> (\<Union>ty. set (take (k ty) (q ty))) \<longleftrightarrow> (\<exists>e \<in> set ?m. x \<in> set (take (n e) (clear_order c e)))" for x
      unfolding Bex_pair by simp
    then show ?thesis by blast
  qed
  ultimately show ?thesis using n(2) by (intro exI [of _ q] exI [of _ k]) (simp add: Clear_db_def Let_def)
qed

end
