(* ===== verification/Database_Query.thy ===== *)
theory Database_Query
  imports Database_Runs
begin

text \<open>
  Queries over the database: what reading one file of the store adds to the result, and that a query
  without conditions delivers every stored event once, unless the limit stops it.
\<close>

section \<open>One file\<close>

definition def_info :: "event_def \<Rightarrow> string \<Rightarrow> string \<Rightarrow> event_info" where
  "def_info e domain nm = new_event_info\<lparr>eiDomain := padded MAX_DOMAIN_LEN domain,
     eiName := padded MAX_EVENT_NAME_LEN nm, eiLevel := edLevel e, eiTag := c_str (tag_field (edTag e))\<rparr>"

definition versions :: "store_ctx \<Rightarrow> head_extra_info" where
  "versions c = \<lparr>heSysVersion = scSysVersion c, hePatchVersion = scPatchVersion c\<rparr>"

text \<open>What an entry of a result says about an event of the store.\<close>

definition found :: "store_ctx \<Rightarrow> event_defs \<Rightarrow> event_view \<Rightarrow> entry \<Rightarrow> bool" where
  "found c defs v en \<longleftrightarrow>
     (let domain = c_str (hdDomain (evHeader v)); nm = c_str (hdName (evHeader v)) in
      entry_matches (def_info (defs domain nm) domain nm) (versions c) v en)"

lemma view_names_text:
  assumes "names_ok domain nm" "view_names domain nm v"
  shows "c_str (hdDomain (evHeader v)) = domain" "c_str (hdName (evHeader v)) = nm"
proof -
  have "CHR 0x00 \<notin> set domain" "CHR 0x00 \<notin> set nm" "length domain < MAX_DOMAIN_LEN" "length nm < MAX_EVENT_NAME_LEN"
    using assms(1) valid_name_chars [of domain MAX_DOMAIN_LEN] valid_name_chars [of nm MAX_EVENT_NAME_LEN]
    unfolding names_ok_def by (auto simp: IsValidDomainName_def split: if_splits)
  then show "c_str (hdDomain (evHeader v)) = domain" "c_str (hdName (evHeader v)) = nm"
    using assms(2) c_str_padded by (simp_all add: view_names_def)
qed

lemma InitEventInfo_store:
  assumes "ctx_ok c" "names_ok domain nm" "def_ok e" "path_of c e domain nm p"
  shows "(InitEventInfo p new_event_info)\<lparr>eiTag := c_str (tag_field (edTag e))\<rparr> = def_info e domain nm"
    "info_ok (def_info e domain nm)"
proof -
  obtain dirs where dirs: "scDbDir c = db_dir dirs" "\<forall>q \<in> set dirs. path_part q" using assms(1) by (auto simp: ctx_ok_def)
  obtain sq where sq: "0 < sq" "sq < 2 ^ 63" "p = store_path c e domain nm sq" using assms(4) unfolding path_of_def by blast
  have n: "IsValidDomainName domain MAX_DOMAIN_LEN" "domain \<noteq> []" "IsValidDomainName nm MAX_EVENT_NAME_LEN" "nm \<noteq> []"
    using assms(2) by (auto simp: names_ok_def)
  have p: "p = doc_path dirs domain (db_file_name nm (edType e) (edLevel e) sq (edInterval e))"
    using sq(3) dirs(1) by (simp add: store_path_def doc_path_db_dir)
  have len: "length domain < MAX_DOMAIN_LEN" "length nm < MAX_EVENT_NAME_LEN"
    using n by (auto simp: IsValidDomainName_def split: if_splits)
  have e: "IsValidType (edType e)" "edLevel e = ''CRITICAL'' \<or> edLevel e = ''MINOR''" "0 \<le> edInterval e" "edInterval e < 2 ^ 15"
    using assms(3) by (simp_all add: def_ok_def)
  have parts: "\<forall>q \<in> set dirs. plain_part (CHR ''/'') q" "plain_part (CHR ''/'') domain"
    using dirs(2) valid_name_part [OF n(1,2)] by (auto simp: path_part_def)
  show "(InitEventInfo p new_event_info)\<lparr>eiTag := c_str (tag_field (edTag e))\<rparr> = def_info e domain nm"
    unfolding p InitEventInfo_path [OF parts len(1) n(3,4) e(2,1) sq(1,2) e(3,4)] by (simp add: def_info_def)
  have "c_str (padded MAX_DOMAIN_LEN domain) = domain" "c_str (padded MAX_EVENT_NAME_LEN nm) = nm"
    using c_str_padded len valid_name_chars [OF n(1)] valid_name_chars [OF n(3)] by blast+
  then show "info_ok (def_info e domain nm)"
    using len n(2,4) e(2) by (auto simp: info_ok_def def_info_def length_padded)
qed

text \<open>A file that was created and not yet written to has no version; reading it fails and adds nothing.\<close>

lemma read_empty_file:
  "Read_query al stk junk (SysEventDocReader p (Some [])) query entries num =
    Some (Returned DOC_STORE_ERROR_IO, Inr (entries, num))"
proof -
  have "drVersion (SysEventDocReader p (Some [])) = 0"
    by (simp add: SysEventDocReader_def ReadFmtVersion_def Let_def in_open_def seekg_end_def seekg_beg_def seek_to_def
        tellg_def in_good_def in_read_def split: prod.splits)
  moreover have "ContentReaderFactory_Get 0 = None" by (simp add: ContentReaderFactory_Get_def reader_map_def)
  ultimately have "ReadHeader stk (SysEventDocReader p (Some [])) =
      (DOC_STORE_ERROR_IO, zero_doc_header, SysEventDocReader p (Some []))" by (simp add: ReadHeader_def)
  then show ?thesis by (simp add: Read_query_def Read_with_def)
qed

lemma Query_file:
  assumes c: "ctx_ok c" and f: "fs_file fs p = Some f" "file_ok c defs vs fs p f" and b: "fs_bounded fs"
  shows "\<exists>ret ens. Query_doc c (SysEventDoc_file p) fs new_doc_query entries num =
      Some (Returned ret, Inr (entries @ ens, num + length vs)) \<and> list_all2 (found c defs) vs ens"
proof -
  obtain domain nm where o: "names_ok domain nm" "def_ok (defs domain nm)" "path_of c (defs domain nm) domain nm p"
    "doc_of (ctx_env c) (edTag (defs domain nm)) (map view_block vs) f" "\<forall>v \<in> set vs. view_ok v \<and> view_names domain nm v"
    using f(2) by (auto simp: file_ok_def)
  let ?e = "defs domain nm"
  have ne: "p \<noteq> []" using o(3) by (auto simp: path_of_def store_path_def)
  then have q: "Query_doc c (SysEventDoc_file p) fs new_doc_query entries num =
      Read_query (scAlloc c) (scStack c) (scJunk c) (SysEventDocReader p (Some f)) new_doc_query entries num"
    using f(1) by (simp add: Query_doc_def SysEventDoc_file_def FileExists_def)
  show ?thesis
  proof (cases "f = [] \<and> vs = []")
    case True
    then show ?thesis using q read_empty_file by simp
  next
    case False
    then obtain h where h: "is_doc h (scSysVersion c) (scPatchVersion c) (map view_block vs) f" "dhTag h = tag_field (edTag ?e)"
      using o(4) by (auto simp: doc_of_def ctx_env_def)
    let ?r = "opened p h (scSysVersion c) (scPatchVersion c) f"
    have al: "alloc_sized (scAlloc c)" "alloc_total (scAlloc c)" using c by (auto simp: ctx_ok_def)
    have size: "length f + page_bytes h < 2 ^ 31" using b f(1) page_bytes_le [of h] unfolding fs_bounded_def by fastforce
    have info: "drInfo ?r = def_info ?e domain nm" "info_ok (def_info ?e domain nm)"
      using InitEventInfo_store [OF c o(1-3)] h(2) by (simp_all add: opened_def)
    have ver: "drVersion ?r = VERSION_CURRENT" "drExtra ?r = versions c" by (simp_all add: opened_def versions_def)
    have blocks: "map view_block vs = map (\<lambda>v. event_block (event_of undefined v)) vs"
      using o(5) event_of_ok(2) by (simp add: view_block_def)
    let ?q = "\<lparr>qsInfo = drInfo ?r, qsEntries = entries, qsNum = num\<rparr>"
    have "\<forall>v \<in> set vs. view_ok v" "info_ok (qsInfo ?q)" using o(5) info by simp_all
    from fold_query_steps [OF al this ver(1), of "scJunk c" undefined] obtain q' ens where
      q': "fold (query_step (scAlloc c) (scJunk c) new_doc_query ?r) (map view_block vs) (Inr ?q) = Inr q'"
      "qsEntries q' = entries @ ens" "qsNum q' = num + length vs" "list_all2 (entry_matches (drInfo ?r) (drExtra ?r)) vs ens"
      unfolding blocks by auto
    have "list_all2 (found c defs) vs ens"
      using q'(4)
    proof (rule list.rel_mono_strong)
      fix v en assume "v \<in> set vs" "entry_matches (drInfo ?r) (drExtra ?r) v en"
      then show "found c defs v en" using o(5) view_names_text [OF o(1)] info(1) ver(2) by (simp add: found_def)
    qed
    then show ?thesis
      using q'(1-3) unfolding q Read_query_step Read_doc [OF al h(1) size] by auto
  qed
qed

section \<open>All files\<close>

lemma all_files_complete:
  assumes "ctx_ok c" "store_ok c defs G fs" "fs_file fs p = Some f"
  shows "p \<in> set (all_files c fs)"
proof -
  obtain domain nm sq where o: "names_ok domain nm" "IsDirectory fs (scDbDir c @ domain)"
    "p = store_path c (defs domain nm) domain nm sq"
    using store_ok_file [OF assms(2,3)] by (auto simp: file_ok_def path_of_def)
  have d: "domain \<noteq> []" "CHR ''/'' \<notin> set domain" using o(1) valid_name_chars unfolding names_ok_def by blast+
  have dir: "scDbDir c @ domain \<in> set (domain_dirs c fs)"
    using o(2) d db_dir_facts(3) [OF assms(1) d] by (auto simp: domain_dirs_def child_of_def IsDirectory_def)
  have "p \<in> fst ` set (fsFiles fs)" using assms(3) file_names by fastforce
  moreover have "prefix ((scDbDir c @ domain) @ ''/'') p" by (simp add: o(3) store_path_def)
  ultimately have "p \<in> set (GetDirFiles (scOps c) fs (scDbDir c @ domain))"
    unfolding GetDirFiles_child [OF assms(1) dir] by simp
  then show ?thesis using dir by (auto simp: all_files_def)
qed

lemma mset_concat_distinct: "distinct fl \<Longrightarrow> mset (concat (map G fl)) = (\<Sum>p \<in> set fl. mset (G p))"
  by (induction fl) auto

lemma all_files_stored:
  assumes "ctx_ok c" "store_ok c defs G fs" "mset fl = mset (all_files c fs)"
  shows "mset (concat (map G fl)) = stored G fs" "\<forall>p \<in> set fl. fs_file fs p \<noteq> None"
proof -
  have fs: "fs_ok fs" using assms(2) by (simp add: store_ok_def)
  have s: "set fl = set (all_files c fs)" using assms(3) by (metis set_mset_mset)
  then show ex: "\<forall>p \<in> set fl. fs_file fs p \<noteq> None" using all_files_exist [OF assms(1)] by auto
  have "distinct fl" using all_files_distinct [OF assms(1) fs] mset_eq_imp_distinct_iff [OF assms(3)] by simp
  moreover have "set fl = fst ` set (fsFiles fs)"
    unfolding s set_eq_iff file_names using ex s all_files_complete [OF assms(1,2)] by auto
  ultimately show "mset (concat (map G fl)) = stored G fs" by (simp add: mset_concat_distinct stored_def)
qed

lemma files_loop_all:
  assumes c: "ctx_ok c" and s: "store_ok c defs G fs" and b: "fs_bounded fs"
  shows "\<forall>p \<in> set fl. fs_file fs p \<noteq> None \<Longrightarrow> int (num + length (concat (map G fl))) < sqLimit q \<Longrightarrow>
    \<exists>ens. files_loop c fs new_doc_query fl q entries num = Some (Inr (entries @ ens, q)) \<and>
      list_all2 (found c defs) (concat (map G fl)) ens"
proof (induction fl arbitrary: entries num)
  case (Cons p fl)
  obtain f where f: "fs_file fs p = Some f" using Cons.prems(1) by auto
  from Query_file [OF c f store_ok_file [OF s f] b, of entries num] obtain ret ens where
    d: "Query_doc c (SysEventDoc_file p) fs new_doc_query entries num = Some (Returned ret, Inr (entries @ ens, num + length (G p)))"
    "list_all2 (found c defs) (G p) ens" by blast
  have "int (num + length (G p) + length (concat (map G fl))) < sqLimit q" using Cons.prems(2) by simp
  from Cons.IH [OF _ this, of "entries @ ens"] Cons.prems(1) obtain ens' where
    e: "files_loop c fs new_doc_query fl q (entries @ ens) (num + length (G p)) = Some (Inr ((entries @ ens) @ ens', q))"
    "list_all2 (found c defs) (concat (map G fl)) ens'" by auto
  have "files_loop c fs new_doc_query (p # fl) q entries num = Some (Inr (entries @ (ens @ ens'), q))"
    using d(1) e(1) Cons.prems(2) by simp
  moreover have "list_all2 (found c defs) (concat (map G (p # fl))) (ens @ ens')"
    using d(2) e(2) by (simp add: list_all2_appendI)
  ultimately show ?case by blast
qed simp

text \<open>A query for everything: no condition, no restriction of the files.\<close>

definition for_all :: "sys_event_query \<Rightarrow> bool" where
  "for_all q \<longleftrightarrow> cond_col (sqCond q) = [] \<and> cond_ands (sqCond q) = [] \<and> sqArg q = SysEventQueryArg"

lemma for_all_doc_query: "for_all q \<Longrightarrow> BuildDocQuery q = new_doc_query"
  by (cases "sqCond q") (simp add: for_all_def BuildDocQuery_def)

lemma Query_db_all:
  assumes c: "ctx_ok c" and db: "db_ok c defs G cache fs" and b: "fs_bounded fs" and q: "for_all q"
    and limit: "int (size (stored G fs)) < sqLimit q"
  shows "\<exists>vs ens. Query_db c fs q [] = Some (Inr (ens, q)) \<and> list_all2 (found c defs) vs ens \<and> mset vs = stored G fs"
proof -
  have s: "store_ok c defs G fs" "IsDirectory fs (scDbDir c)" using db by (auto simp: db_ok_def)
  let ?fl = "pq_pops (CompareFileLessFunc (scOps c)) (GetQueryFiles c fs SysEventQueryArg)"
  have "mset ?fl = mset (all_files c fs)" using GetQueryFiles_default [OF c s(2)] by simp
  note fl = all_files_stored [OF c s(1) this]
  have "int (0 + length (concat (map G ?fl))) < sqLimit q" using limit fl(1) by (metis add_0 size_mset)
  from files_loop_all [OF c s(1) b fl(2) this, of "[]"] obtain ens where
    e: "files_loop c fs new_doc_query ?fl q [] 0 = Some (Inr (ens, q))" "list_all2 (found c defs) (concat (map G ?fl)) ens"
    by auto
  have "Query_db c fs q [] = Some (Inr (ens, q))"
    using e(1) q for_all_doc_query [OF q] by (auto simp: Query_db_def Let_def for_all_def)
  then show ?thesis using e(2) fl(1) by blast
qed

section \<open>From insertions to the result\<close>

lemma empty_db_ok:
  assumes "fsFiles fs = []" "distinct (fsDirs fs)" "IsDirectory fs (scDbDir c)"
  shows "db_ok c defs (\<lambda>p. []) SysEventDatabase fs" "stored (\<lambda>p. []) fs = {#}"
  using assms by (simp_all add: db_ok_def store_ok_def fs_ok_def fs_file_def SysEventDatabase_def lru_ok_new
      DEFAULT_CAPACITY_def stored_def) (simp_all add: new_lru_def)

text \<open>
  Every event whose insertion succeeded is found by a query for everything, once, and nothing else
  is found.
\<close>

lemma inserted_events_found:
  assumes c: "ctx_ok c" and fs: "fsFiles fs = []" "distinct (fsDirs fs)" "IsDirectory fs (scDbDir c)"
    and ev: "list_all2 (insert_ok defs) evs vs" and i: "insert_all c evs SysEventDatabase fs = (rets, cache', fs')"
    and b: "fs_bounded fs'" and q: "for_all q" "int (length (accepted rets vs)) < sqLimit q"
  shows "\<exists>ws ens. Query_db c fs' q [] = Some (Inr (ens, q)) \<and> list_all2 (found c defs) ws ens \<and>
    mset ws = mset (accepted rets vs)"
proof -
  obtain G where G: "db_ok c defs G cache' fs'" "stored G fs' = mset (accepted rets vs)"
    using insert_all_ok [OF c empty_db_ok(1) [OF fs] ev i b] empty_db_ok(2) [OF fs] by auto
  have "int (size (stored G fs')) < sqLimit q" using q(2) G(2) by simp
  from Query_db_all [OF c G(1) b q(1) this] show ?thesis unfolding G(2) .
qed

end
