(* ===== verification/Sequence_Manager.thy ===== *)
theory Sequence_Manager
  imports Database_Query
begin

text \<open>
  \<open>SysEventSequenceManager\<close> (base/event_store/sequence/sys_event_sequence_mgr.cpp), which numbers the
  stored events and keeps the number in two files, and the step of \<open>SysEventStore::OnEvent\<close>
  (plugins/event_store/sys_event_store.cpp) that gives an event its number. The process can end
  between any two writes, so the operations return every state of the file system on their way,
  the last one first. The dirty event clearing of factory images, a build option, is left out.
\<close>

section \<open>Texts of numbers\<close>

text \<open>\<open>strtoll (s, nullptr, 0)\<close>: the base follows from the prefix, the value is cut to 64 bits.\<close>

definition strtoll_0 :: "string \<Rightarrow> int" where
  "strtoll_0 str =
     (let t = dropWhile is_space (takeWhile (\<lambda>c. c \<noteq> CHR 0x00) str);
          u = (if t \<noteq> [] \<and> (hd t = CHR ''-'' \<or> hd t = CHR ''+'') then tl t else t);
          n = int (if prefix ''0x'' u \<or> prefix ''0X'' u then read_digits 16 0 (drop 2 u)
                   else if u \<noteq> [] \<and> hd u = CHR ''0'' then read_digits 8 0 u
                   else read_digits 10 0 u)
      in max (- (2 ^ 63)) (min (2 ^ 63 - 1) (if t \<noteq> [] \<and> hd t = CHR ''-'' then - n else n)))"

section \<open>Files\<close>

type_synonym history = "file_system list"

definition SEQ_INCREMENT :: int where "SEQ_INCREMENT = 100"

text \<open>
  The file is opened without truncation, so that what was behind the new text stays; the text is
  written with its terminating zero.
\<close>

definition SaveStringToFile :: "file_ops \<Rightarrow> string \<Rightarrow> string \<Rightarrow> history \<Rightarrow> bool \<times> history" where
  "SaveStringToFile fo filePath content h =
     (if \<not> foOpen fo filePath then (False, h)
      else let old = (case fs_file (hd h) filePath of None \<Rightarrow> [] | Some f \<Rightarrow> f)
           in (True, fs_put filePath (bytes_of_string content @ 0 # drop (length content + 1) old) (hd h) # h))"

definition WriteEventSeqToFile :: "file_ops \<Rightarrow> int \<Rightarrow> string \<Rightarrow> history \<Rightarrow> history" where
  "WriteEventSeqToFile fo sq f h = snd (SaveStringToFile fo f (show_int sq) h)"

text \<open>\<open>LoadStringFromFile\<close> is a function of c_utils; it delivers the whole of a file.\<close>

type_synonym file_loader = "file_system \<Rightarrow> string \<Rightarrow> string option"

definition load_ok :: "file_loader \<Rightarrow> bool" where
  "load_ok ld \<longleftrightarrow> (\<forall>fs p f. fs_file fs p = Some f \<longrightarrow> length f < 2 ^ 20 \<longrightarrow> ld fs p = Some (string_of_bytes f))"

definition ReadEventSeqFromFile :: "file_loader \<Rightarrow> string \<Rightarrow> file_system \<Rightarrow> int" where
  "ReadEventSeqFromFile ld f fs = strtoll_0 (case ld fs f of None \<Rightarrow> [] | Some content \<Rightarrow> content)"

definition CheckFileExistThenReadSeq :: "file_loader \<Rightarrow> string \<Rightarrow> file_system \<Rightarrow> int \<Rightarrow> bool \<times> int" where
  "CheckFileExistThenReadSeq ld filePath fs sq =
     (if FileExists fs filePath then (True, ReadEventSeqFromFile ld filePath fs) else (False, sq))"

definition GetSequenceFile :: "store_ctx \<Rightarrow> string" where
  "GetSequenceFile c = scDbDir c @ ''event_sequence''"

definition GetSequenceBackupFile :: "store_ctx \<Rightarrow> string" where
  "GetSequenceBackupFile c = scDbDir c @ ''event_sequence_backup''"

section \<open>The largest stored number\<close>

text \<open>The order of the names in the map plays no part in the maximum.\<close>

definition UpdateFileInfos :: "string \<Rightarrow> string \<Rightarrow> int \<Rightarrow> (string \<times> int \<times> string) list \<Rightarrow> (string \<times> int \<times> string) list" where
  "UpdateFileInfos eventFile eventName eventSeq dbFileInfos =
     (case map_of dbFileInfos eventName of
        None \<Rightarrow> AList.update eventName (eventSeq, eventFile) dbFileInfos
      | Some (sq, f) \<Rightarrow>
          if sq > eventSeq then dbFileInfos else AList.update eventName (eventSeq, eventFile) dbFileInfos)"

definition GetEventMaxSeqFileWithSameDomain :: "file_ops \<Rightarrow> file_system \<Rightarrow> string \<Rightarrow> string list" where
  "GetEventMaxSeqFileWithSameDomain fo fs domainDir =
     map (\<lambda>(eventName, sq, f). f)
       (fold (\<lambda>eventFile dbFileInfos.
            if \<not> IsValidDbFilePath (foExtractFileName fo) eventFile then dbFileInfos
            else case ParseEventInfoFromDbFileName (foExtractFileName fo eventFile) new_splited_info (NAME_ONLY OR SEQ_ONLY) of
                   None \<Rightarrow> dbFileInfos
                 | Some eventInfo \<Rightarrow> UpdateFileInfos eventFile (siName eventInfo) (siSeq eventInfo) dbFileInfos)
          (GetDirFiles fo fs domainDir) [])"

definition GetEventMaxSeqFileList :: "store_ctx \<Rightarrow> file_system \<Rightarrow> string list" where
  "GetEventMaxSeqFileList c fs =
     concat (map (GetEventMaxSeqFileWithSameDomain (scOps c) fs)
       (filter (IsValidDbDir (foExtractFileName (scOps c))) (GetDirDirs (scOps c) fs (scDbDir c))))"

text \<open>\<open>None\<close> when reading one of the files does not return.\<close>

fun max_seq_loop :: "store_ctx \<Rightarrow> file_system \<Rightarrow> string list \<Rightarrow> int \<Rightarrow> int option" where
  "max_seq_loop c fs [] sq = Some sq"
| "max_seq_loop c fs (eventDbFile # rest) sq =
     (case ReadMaxEventSequence (scAlloc c) (scStack c) (SysEventDocReader eventDbFile (fs_file fs eventDbFile)) of
        None \<Rightarrow> None
      | Some curSeq \<Rightarrow> max_seq_loop c fs rest (if sq < curSeq then curSeq else sq))"

definition GetEventMaxSeqFromLocalDbFiles :: "store_ctx \<Rightarrow> file_system \<Rightarrow> int option" where
  "GetEventMaxSeqFromLocalDbFiles c fs = max_seq_loop c fs (GetEventMaxSeqFileList c fs) 0"

section \<open>The manager\<close>

record seq_mgr =
  smCurSeq :: int
  smStartSeq :: int
  smSetCount :: int

definition WriteSeqToFile :: "store_ctx \<Rightarrow> int \<Rightarrow> history \<Rightarrow> history" where
  "WriteSeqToFile c sq h =
     WriteEventSeqToFile (scOps c) sq (GetSequenceBackupFile c)
       (WriteEventSeqToFile (scOps c) sq (GetSequenceFile c) h)"

definition ReadSeqFromFile :: "store_ctx \<Rightarrow> file_loader \<Rightarrow> history \<Rightarrow> (int \<times> history) option" where
  "ReadSeqFromFile c ld h =
     (case CheckFileExistThenReadSeq ld (GetSequenceFile c) (hd h) 0 of
        (isSeqFileExist, sq) \<Rightarrow>
          (case CheckFileExistThenReadSeq ld (GetSequenceBackupFile c) (hd h) 0 of
             (isSeqBackupFileExist, seqBackup) \<Rightarrow>
               if sq = seqBackup \<and> (\<not> isSeqFileExist \<or> sq \<noteq> 0) then Some (sq, h)
               else if sq - seqBackup = SEQ_INCREMENT
               then Some (sq, WriteEventSeqToFile (scOps c) sq (GetSequenceBackupFile c) h)
               else case GetEventMaxSeqFromLocalDbFiles c (hd h) of
                      None \<Rightarrow> None
                    | Some local \<Rightarrow>
                        Some (local, WriteEventSeqToFile (scOps c) local (GetSequenceBackupFile c)
                          (WriteEventSeqToFile (scOps c) local (GetSequenceFile c) h))))"

text \<open>The constructor. \<open>restore\<close> is the restoring of a backup, which leaves its own states on the way.\<close>

definition SysEventSequenceManager :: "store_ctx \<Rightarrow> file_loader \<Rightarrow> bool \<Rightarrow> (history \<Rightarrow> history) \<Rightarrow> history \<Rightarrow>
    (seq_mgr \<times> history) option" where
  "SysEventSequenceManager c ld isOversea restore h =
     (let h1 = (if \<not> isOversea \<and> \<not> FileExists (hd h) (GetSequenceFile c) then restore h else h) in
      case ReadSeqFromFile c ld h1 of
        None \<Rightarrow> None
      | Some (sq, h2) \<Rightarrow>
          (let startSeq = sq + SEQ_INCREMENT in
           Some (\<lparr>smCurSeq = startSeq, smStartSeq = startSeq, smSetCount = 0\<rparr>, WriteSeqToFile c startSeq h2)))"

definition SetSequence :: "store_ctx \<Rightarrow> int \<Rightarrow> seq_mgr \<Rightarrow> history \<Rightarrow> seq_mgr \<times> history" where
  "SetSequence c sq m h =
     (let m1 = m\<lparr>smCurSeq := sq, smSetCount := smSetCount m + 1\<rparr> in
      (m1, if smSetCount m1 mod SEQ_INCREMENT = 0 then WriteSeqToFile c sq h else h))"

text \<open>The number of an event that is preserved, and the manager behind it.\<close>

definition number_event :: "store_ctx \<Rightarrow> seq_mgr \<Rightarrow> history \<Rightarrow> int \<times> seq_mgr \<times> history" where
  "number_event c m h =
     (let eventSeq = smCurSeq m in
      case SetSequence c (eventSeq + 1) m h of (m1, h1) \<Rightarrow> (eventSeq, m1, h1))"

end
