(* ===== verification/Event_Backup.thy ===== *)
theory Event_Backup
  imports Sequence_Manager
begin

text \<open>
  Backup and restore of the event database: \<open>SysEventBackup\<close> (store/sys_event_backup.cpp), which swaps a
  new archive in by renaming, \<open>SysEventDatabase::Backup\<close> and \<open>Restore\<close>, and the archives
  (base/utility/hiview_zip_util.cpp) over the minizip library. As in the sequence manager the
  operations return every state of the file system on their way, the last one first.
\<close>

section \<open>Libraries\<close>

text \<open>
  minizip: the bytes of an archive with the given entries, its entries, what is on disk before an
  archive is closed, and whether an entry can be opened; c_utils: real paths and the directory part
  of a path; the operating system: whether a file can be renamed.
\<close>

record backup_lib =
  blPack :: "(string \<times> byte list) list \<Rightarrow> byte list"
  blUnpack :: "byte list \<Rightarrow> (string \<times> byte list) list option"
  blPartial :: "(string \<times> byte list) list \<Rightarrow> byte list"
  blNewEntry :: "string \<Rightarrow> bool"
  blRealPath :: "string \<Rightarrow> string option"
  blExtractFilePath :: "string \<Rightarrow> string"
  blRename :: "string \<Rightarrow> string \<Rightarrow> bool"

section \<open>Files\<close>

definition h_put :: "string \<Rightarrow> byte list \<Rightarrow> history \<Rightarrow> history" where
  "h_put p f h = fs_put p f (hd h) # h"

definition h_RemoveFile :: "file_ops \<Rightarrow> string \<Rightarrow> history \<Rightarrow> bool \<times> history" where
  "h_RemoveFile fo p h = (case RemoveFile fo p (hd h) of (ok, fs) \<Rightarrow> (ok, fs # h))"

definition h_ForceCreateDirectory :: "file_ops \<Rightarrow> string \<Rightarrow> history \<Rightarrow> bool \<times> history" where
  "h_ForceCreateDirectory fo p h = (case ForceCreateDirectory fo p (hd h) of (ok, fs) \<Rightarrow> (ok, fs # h))"

definition RenameFile :: "backup_lib \<Rightarrow> string \<Rightarrow> string \<Rightarrow> history \<Rightarrow> bool \<times> history" where
  "RenameFile bl src dest h =
     (case fs_file (hd h) src of
        None \<Rightarrow> (False, h)
      | Some f \<Rightarrow>
          if blRename bl src dest
          then (True, fs_put dest f ((hd h)\<lparr>fsFiles := AList.delete src (fsFiles (hd h))\<rparr>) # h)
          else (False, h))"

text \<open>Listing without recursion names subdirectories as if they were files.\<close>

definition GetDirFiles_flat :: "file_ops \<Rightarrow> file_system \<Rightarrow> string \<Rightarrow> string list" where
  "GetDirFiles_flat fo fs path =
     (if IsDirectory fs path
      then filter (child_of (foIncludeTrailing fo path)) (map fst (fsFiles fs)) @
           filter (child_of (foIncludeTrailing fo path)) (fsDirs fs)
      else [])"

section \<open>Archives\<close>

datatype zip_level = KEEP_NONE_PARENT_PATH | KEEP_ONE_PARENT_PATH

text \<open>A unit that writes to a path: \<open>None\<close> when the archive could not be opened, else its entries so far.\<close>

type_synonym zip_unit = "string \<times> (string \<times> byte list) list option"

definition HiviewZipUnit :: "file_ops \<Rightarrow> string \<Rightarrow> history \<Rightarrow> zip_unit \<times> history" where
  "HiviewZipUnit fo zipPath h =
     (if foOpen fo zipPath then ((zipPath, Some []), h_put zipPath [] h) else ((zipPath, None), h))"

definition HiviewZipUnit_close :: "backup_lib \<Rightarrow> zip_unit \<Rightarrow> history \<Rightarrow> history" where
  "HiviewZipUnit_close bl zu h =
     (case snd zu of None \<Rightarrow> h | Some es \<Rightarrow> h_put (fst zu) (blPack bl es) h)"

definition GetDstFilePath :: "file_ops \<Rightarrow> string \<Rightarrow> zip_level \<Rightarrow> string" where
  "GetDstFilePath fo srcFile zipFileLevel =
     (if zipFileLevel = KEEP_NONE_PARENT_PATH then foExtractFileName fo srcFile
      else case str_rfind srcFile ''/'' of
             None \<Rightarrow> []
           | Some lastSlashPos \<Rightarrow>
               (case str_rfind (take lastSlashPos srcFile) ''/'' of
                  None \<Rightarrow> []
                | Some secondSlashPos \<Rightarrow> drop (secondSlashPos + 1) srcFile))"

definition ERROR_GET_HANDLE :: int where "ERROR_GET_HANDLE = 1001"
definition ERROR_INVALID_FILE :: int where "ERROR_INVALID_FILE = 1003"
definition ERROR_OPEN_NEW_FILE :: int where "ERROR_OPEN_NEW_FILE = 1004"
definition ERROR_CREATE_ZIP :: int where "ERROR_CREATE_ZIP = 1005"

definition AddFileInZip :: "file_ops \<Rightarrow> backup_lib \<Rightarrow> string \<Rightarrow> zip_level \<Rightarrow> zip_unit \<Rightarrow> history \<Rightarrow> int \<times> zip_unit \<times> history" where
  "AddFileInZip fo bl srcFile zipFileLevel zu h =
     (case snd zu of
        None \<Rightarrow> (ERROR_CREATE_ZIP, zu, h)
      | Some es \<Rightarrow>
          (case blRealPath bl srcFile of
             None \<Rightarrow> (ERROR_GET_HANDLE, zu, h)
           | Some realPath \<Rightarrow>
               (case fs_file (hd h) realPath of
                  None \<Rightarrow> (ERROR_GET_HANDLE, zu, h)
                | Some f \<Rightarrow>
                    (let srcFileName = GetDstFilePath fo realPath zipFileLevel in
                     if srcFileName = [] then (ERROR_INVALID_FILE, zu, h)
                     else if \<not> blNewEntry bl srcFileName then (ERROR_OPEN_NEW_FILE, zu, h)
                     else let es1 = es @ [(srcFileName, f)]
                          in (0, (fst zu, Some es1), h_put (fst zu) (blPartial bl es1) h)))))"

definition MAX_ENTRY_NUM :: nat where "MAX_ENTRY_NUM = 10000"
definition MAX_UNZIP_SIZE :: nat where "MAX_UNZIP_SIZE = 300 * 1024 * 1024"
definition NAME_MAX :: nat where "NAME_MAX = 255"

text \<open>A file is made by opening it and filled then; too large a file is cut where the limit is noticed.\<close>

definition DoUnzipFile :: "file_ops \<Rightarrow> string \<Rightarrow> byte list \<Rightarrow> history \<Rightarrow> (bool \<times> nat) \<times> history" where
  "DoUnzipFile fo path f h =
     (if \<not> foOpen fo path then ((False, 0), h)
      else let h1 = h_put path [] h in
           if length f > MAX_UNZIP_SIZE
           then let n = min (length f) ((MAX_UNZIP_SIZE div 102400 + 1) * 102400) in ((False, n), h_put path (take n f) h1)
           else ((True, length f), h_put path f h1))"

fun unzip_loop :: "file_ops \<Rightarrow> backup_lib \<Rightarrow> string \<Rightarrow> (string \<times> byte list) list \<Rightarrow> nat \<Rightarrow> history \<Rightarrow> bool \<times> history" where
  "unzip_loop fo bl dstDir [] totalUnzipSize h = (True, h)"
| "unzip_loop fo bl dstDir ((fileName, f) # es) totalUnzipSize h =
     (if length fileName \<ge> NAME_MAX then (False, h)
      else let path = dstDir @ fileName in
           if path \<noteq> [] \<and> last path = CHR ''/'' then
             (case h_ForceCreateDirectory fo path h of
                (ok, h1) \<Rightarrow> if \<not> ok then (False, h1) else unzip_loop fo bl dstDir es totalUnzipSize h1)
           else
             (case h_ForceCreateDirectory fo (blExtractFilePath bl path) h of
                (ok, h1) \<Rightarrow>
                  if \<not> ok then (False, h1)
                  else case DoUnzipFile fo path f h1 of
                         ((done, fileSize), h2) \<Rightarrow>
                           if \<not> done then (False, h2)
                           else if totalUnzipSize + fileSize > MAX_UNZIP_SIZE then (False, h2)
                           else unzip_loop fo bl dstDir es (totalUnzipSize + fileSize) h2))"

definition UnzipFile :: "file_ops \<Rightarrow> backup_lib \<Rightarrow> string \<Rightarrow> string \<Rightarrow> history \<Rightarrow> bool \<times> history" where
  "UnzipFile fo bl zipPath dstDir h =
     (case fs_file (hd h) zipPath of
        None \<Rightarrow> (False, h)
      | Some f \<Rightarrow>
          (case blUnpack bl f of
             None \<Rightarrow> (False, h)
           | Some es \<Rightarrow> if length es > MAX_ENTRY_NUM then (False, h) else unzip_loop fo bl dstDir es 0 h))"

section \<open>The database\<close>

definition GetEventTypeFromFileName :: "string \<Rightarrow> nat" where
  "GetEventTypeFromFileName fileName =
     (case ParseEventInfoFromDbFileName fileName new_splited_info TYPE_ONLY of
        None \<Rightarrow> 0
      | Some eventInfo \<Rightarrow> unat (siType eventInfo))"

fun add_events :: "file_ops \<Rightarrow> backup_lib \<Rightarrow> string list \<Rightarrow> zip_unit \<Rightarrow> history \<Rightarrow> bool \<times> zip_unit \<times> history" where
  "add_events fo bl [] zu h = (True, zu, h)"
| "add_events fo bl (eventFile # rest) zu h =
     (if GetEventTypeFromFileName (foExtractFileName fo eventFile) \<noteq> 1 then add_events fo bl rest zu h
      else case AddFileInZip fo bl eventFile KEEP_ONE_PARENT_PATH zu h of
             (ret, zu1, h1) \<Rightarrow> if ret \<noteq> 0 then (False, zu1, h1) else add_events fo bl rest zu1 h1)"

text \<open>The files of all domains in turn; the directories are listed while the archive is open, which leaves them as they are.\<close>

definition event_files :: "store_ctx \<Rightarrow> file_system \<Rightarrow> string list" where
  "event_files c fs = concat (map (GetDirFiles_flat (scOps c) fs) (GetDirDirs (scOps c) fs (scDbDir c)))"

definition Database_Backup :: "store_ctx \<Rightarrow> backup_lib \<Rightarrow> string \<Rightarrow> history \<Rightarrow> bool \<times> history" where
  "Database_Backup c bl zipFilePath h =
     (if GetDirDirs (scOps c) (hd h) (scDbDir c) = [] then (False, h)
      else if \<not> FileExists (hd h) (GetSequenceFile c) then (False, h)
      else case HiviewZipUnit (scOps c) zipFilePath h of
        (zu, h1) \<Rightarrow>
          (case AddFileInZip (scOps c) bl (GetSequenceFile c) KEEP_NONE_PARENT_PATH zu h1 of
             (ret, zu2, h2) \<Rightarrow>
               if ret \<noteq> 0 then (False, HiviewZipUnit_close bl zu2 h2)
               else case AddFileInZip (scOps c) bl (GetSequenceBackupFile c) KEEP_NONE_PARENT_PATH zu2 h2 of
                 (ret, zu3, h3) \<Rightarrow>
                   if ret \<noteq> 0 then (False, HiviewZipUnit_close bl zu3 h3)
                   else case add_events (scOps c) bl (event_files c (hd h)) zu3 h3 of
                     (ok, zu4, h4) \<Rightarrow> (ok, HiviewZipUnit_close bl zu4 h4)))"

definition Database_Restore :: "store_ctx \<Rightarrow> backup_lib \<Rightarrow> string \<Rightarrow> string \<Rightarrow> history \<Rightarrow> bool \<times> history" where
  "Database_Restore c bl zipFilePath restoreDir h =
     (case UnzipFile (scOps c) bl zipFilePath restoreDir h of
        (ok, h1) \<Rightarrow> (ok \<and> FileExists (hd h1) (restoreDir @ ''event_sequence''), h1))"

section \<open>The backup\<close>

definition backupFile :: "string \<Rightarrow> string" where "backupFile backupDir = backupDir @ ''sysevent.zip''"
definition backupTmpFile :: "string \<Rightarrow> string" where "backupTmpFile backupDir = backupDir @ ''sysevent_tmp.zip''"
definition backupBakFile :: "string \<Rightarrow> string" where "backupBakFile backupDir = backupDir @ ''sysevent.zip.bak''"

text \<open>Swapping the new archive in, once it is complete.\<close>

definition swap_archive :: "store_ctx \<Rightarrow> backup_lib \<Rightarrow> string \<Rightarrow> history \<Rightarrow> bool \<times> history" where
  "swap_archive c bl dir h =
     (let h1 = snd (h_RemoveFile (scOps c) (backupBakFile dir) h);
          moved = (if FileExists (hd h1) (backupFile dir) then RenameFile bl (backupFile dir) (backupBakFile dir) h1 else (True, h1))
      in if \<not> fst moved then (False, snd (h_RemoveFile (scOps c) (backupTmpFile dir) (snd moved)))
         else case RenameFile bl (backupTmpFile dir) (backupFile dir) (snd moved) of
           (ok, h3) \<Rightarrow>
             if \<not> ok
             then (False, snd (RenameFile bl (backupBakFile dir) (backupFile dir) (snd (h_RemoveFile (scOps c) (backupTmpFile dir) h3))))
             else (True, snd (h_RemoveFile (scOps c) (backupBakFile dir) h3)))"

definition SysEventBackup_Backup :: "store_ctx \<Rightarrow> backup_lib \<Rightarrow> string \<Rightarrow> history \<Rightarrow> bool \<times> history" where
  "SysEventBackup_Backup c bl dir h =
     (let made = (if FileExists (hd h) dir then (True, h) else h_ForceCreateDirectory (scOps c) dir h) in
      if \<not> fst made then (False, snd made)
      else let clean = (if FileExists (hd (snd made)) (backupTmpFile dir)
                        then h_RemoveFile (scOps c) (backupTmpFile dir) (snd made) else (True, snd made)) in
           if \<not> fst clean then (False, snd clean)
           else case Database_Backup c bl (backupTmpFile dir) (snd clean) of
             (ok, h3) \<Rightarrow>
               if \<not> ok then (False, snd (h_RemoveFile (scOps c) (backupTmpFile dir) h3))
               else swap_archive c bl dir h3)"

definition CheckBackupFile :: "store_ctx \<Rightarrow> backup_lib \<Rightarrow> string \<Rightarrow> history \<Rightarrow> bool \<times> history" where
  "CheckBackupFile c bl dir h =
     (let taken = (if FileExists (hd h) (backupBakFile dir) \<and> \<not> FileExists (hd h) (backupFile dir)
                   then RenameFile bl (backupBakFile dir) (backupFile dir) h else (True, h)) in
      if \<not> fst taken then (False, snd taken)
      else if \<not> FileExists (hd (snd taken)) (backupFile dir) then (False, snd taken)
      else let h2 = snd (h_RemoveFile (scOps c) (backupTmpFile dir) (snd taken));
               h3 = snd (h_RemoveFile (scOps c) (backupBakFile dir) h2)
           in (\<not> FileExists (hd h3) (GetSequenceFile c), h3))"

definition SysEventBackup_Restore :: "store_ctx \<Rightarrow> backup_lib \<Rightarrow> string \<Rightarrow> string \<Rightarrow> history \<Rightarrow> bool \<times> history" where
  "SysEventBackup_Restore c bl dir restoreDir h =
     (case CheckBackupFile c bl dir h of
        (ok, h1) \<Rightarrow>
          if \<not> ok then (False, h1)
          else if \<not> FileExists (hd h1) restoreDir then (False, h1)
          else Database_Restore c bl (backupFile dir) restoreDir h1)"

end
