(* ===== verification/Doc_Store_Live.thy ===== *)
theory Doc_Store_Live
  imports Database_Query
begin

text \<open>
  Insertions succeed: when the file system permits it, memory does not run out and the type of the
  event has a page size, an event with a new sequence number is stored, in the current file of
  its name or in a new one.
\<close>

section \<open>One write\<close>

lemma Write_first_succeeds:
  assumes "event_ok ev" "length (event_raw ev) \<le> MAX_NEW_SIZE" "dwOpen w" "wePageSize env (seType ev) \<noteq> 0"
  shows "fst (Write al stk env path (Some ev) w []) = DOC_STORE_SUCCESS"
proof -
  have "ReadFileSize (SysEventDocReader path (Some [])) = 0"
    by (simp add: ReadFileSize_def SysEventDocReader_def Let_def in_open_def seekg_end_def seek_to_def tellg_def
        in_good_def as_int_def split: prod.splits)
  moreover have "unat (wePageSize env (seType ev)) \<noteq> 0" using assms(4) by (simp add: unat_eq_0)
  ultimately show ?thesis
    using assms(3) GetContentSize_ok [OF assms(1,2)] WriteContent_block [OF assms(1)]
    by (simp add: Write_def WriteHeader_def Let_def)
qed

lemma Write_further_codes:
  assumes d: "is_doc h (weSysVersion env) (wePatchVersion env) cs f" and ev: "event_ok ev" "length (event_raw ev) \<le> MAX_NEW_SIZE"
    and size: "length f < 2 ^ 31" and w: "dwOpen w" and al: "alloc_total al"
  shows "fst (Write al stk env path (Some ev) w f) \<in> {DOC_STORE_SUCCESS, DOC_STORE_NEW_FILE}"
proof -
  let ?sv = "weSysVersion env" and ?pv = "wePatchVersion env" and ?r = "SysEventDocReader path (Some f)"
  let ?H = "length (head_bytes h ?sv ?pv)" and ?c = "event_block ev"
  have h: "head_ok h ?sv ?pv" using d by (simp add: is_doc_def)
  obtain body where f: "f = head_bytes h ?sv ?pv @ body" using d by (auto simp: is_doc_def split: if_splits)
  note n = new_reader [OF h f, of path]
  have fs: "ReadFileSize ?r = int (length f)" using n(2) as_int_nat [OF size] by (simp add: ReadFileSize_def)
  have "0 < ?H" using h length_head_bytes [of h ?sv ?pv] by (simp add: head_ok_def)
  then have "length f \<noteq> 0" by (simp add: f)
  then have "Write al stk env path (Some ev) w f = Write_next al stk env ?r ev (length ?c) w f"
    using w GetContentSize_ok [OF ev] fs by (simp add: Write_def)
  moreover have fl: "inFile (drIn ?r) = head_bytes h ?sv ?pv @ body" "in_good (drIn ?r)" "inOpen (drIn ?r)"
    using n(1) f by simp_all
  note rh = ReadHeader_head [OF h fl n(3), of stk]
  let ?r1 = "?r\<lparr>drIn := (drIn ?r)\<lparr>inPos := ?H\<rparr>, drHeaderSize := ?H, drExtra := \<lparr>heSysVersion = ?sv, hePatchVersion = ?pv\<rparr>\<rparr>"
  obtain r2 where rp: "ReadPageSize stk ?r1 = (DOC_STORE_SUCCESS, page_bytes h, r2)"
    using ReadHeader_head [OF h, of ?r1 body stk] fl n(3) by (simp add: ReadPageSize_def page_bytes_def)
  have ver: "dhVersion h = VERSION_CURRENT" using h by (simp add: head_ok_def)
  have "FillCurrPageWithZero al k g = (DOC_STORE_SUCCESS, g @ replicate k 0)" if "k \<le> MAX_NEW_SIZE" for k g
  proof -
    obtain buf where "al k = Some buf" using al by (metis alloc_totalE)
    then show ?thesis using that by (simp add: FillCurrPageWithZero_def)
  qed
  moreover have "GetCurrPageRemainSize w1 n (page_bytes h) \<le> MAX_NEW_SIZE" for w1 n
    using page_bytes_le [of h] by (simp add: GetCurrPageRemainSize_def MAX_NEW_SIZE_def)
  ultimately show ?thesis
    using rh rp ver WriteContent_block [OF ev(1)] by (simp add: Write_next_def Let_def)
qed

lemma Write_keeps_open: "dwOpen (fst (snd (Write al stk env path ev w f))) = dwOpen w"
  by (auto simp: Write_def Write_next_def WriteHeader_def Let_def split: option.split sum.split prod.split)

section \<open>One insertion\<close>

text \<open>Everything the file system is asked to do works.\<close>

definition fs_works :: "store_ctx \<Rightarrow> bool" where
  "fs_works c \<longleftrightarrow> (\<forall>p. foMkdir (scOps c) p \<and> foOpen (scOps c) p \<and> foChmod (scOps c) p)"

definition dir_possible :: "store_ctx \<Rightarrow> file_system \<Rightarrow> string \<Rightarrow> bool" where
  "dir_possible c fs domain \<longleftrightarrow>
     (\<forall>q \<in> set (sub_paths (scDbDir c @ domain)). FileExists fs q \<or> \<not> IsKeyDirectory (scOps c) q)"

definition writer_live :: "file_system \<Rightarrow> sys_event_doc \<Rightarrow> bool" where
  "writer_live fs d \<longleftrightarrow> (\<forall>pw. sdWriter d = Some pw \<longrightarrow> dwOpen (snd pw) \<and> fs_file fs (fst pw) \<noteq> None)"

text \<open>The only change to files is that the given one may be made, empty.\<close>

definition creates :: "string \<Rightarrow> file_system \<Rightarrow> file_system \<Rightarrow> bool" where
  "creates path fs fs' \<longleftrightarrow>
     (\<forall>p. fs_file fs' p = fs_file fs p \<or> p = path \<and> fs_file fs p = None \<and> fs_file fs' p = Some [])"

lemma creates_refl [simp]: "creates path fs fs"
  by (simp add: creates_def)

lemma creates_trans: "creates path a b \<Longrightarrow> creates path b c \<Longrightarrow> creates path a c"
  unfolding creates_def by metis

lemma creates_files: "fsFiles fs' = fsFiles fs \<Longrightarrow> creates path fs fs'"
  by (simp add: creates_def fs_file_def)

lemma GetDir_works:
  assumes "fs_works c" "dir_possible c fs (sdDomain d)" "scDbDir c \<noteq> []" "GetDir c d fs = (dir, fs')"
  shows "dir = scDbDir c @ sdDomain d" "dir \<noteq> []" "fsFiles fs' = fsFiles fs"
proof -
  let ?dir = "scDbDir c @ sdDomain d"
  obtain ok fs1 where f: "ForceCreateDirectory (scOps c) ?dir fs = (ok, fs1)" by (cases "ForceCreateDirectory (scOps c) ?dir fs")
  have "fst (ForceCreateDirectory (scOps c) ?dir fs)"
    by (rule ForceCreateDirectory_works) (use assms in \<open>auto simp: dir_possible_def fs_works_def\<close>)
  then have "ok" "fsFiles fs1 = fsFiles fs" using f ForceCreateDirectory_files [of "scOps c" ?dir fs] by simp_all
  then show "dir = ?dir" "dir \<noteq> []" "fsFiles fs' = fsFiles fs"
    using assms(3,4) f by (auto simp: GetDir_def Let_def split: if_splits)
qed

text \<open>The path of the file that an event would start.\<close>

definition new_path :: "store_ctx \<Rightarrow> stored_event \<Rightarrow> string" where
  "new_path c ev = scDbDir c @ seDomain ev @ ''/'' @
     db_file_name (seName ev) (seType ev) (seLevel ev) (sint (seSeq ev)) (seReportInterval ev)"

definition doc_for :: "stored_event \<Rightarrow> sys_event_doc \<Rightarrow> bool" where
  "doc_for ev d \<longleftrightarrow> sdDomain d = seDomain ev \<and> sdName d = seName ev \<and> sdType d = seType ev \<and> sdLevel d = seLevel ev"

lemma CreateCurFile_works:
  assumes "fs_works c" "doc_for ev d" "CreateCurFile c (scDbDir c @ seDomain ev) ev d fs = (ret, d', fs')"
  shows "ret = DOC_STORE_SUCCESS" "d' = d\<lparr>sdCurFile := new_path c ev\<rparr>" "creates (new_path c ev) fs fs'"
  using assms
  by (auto simp: CreateCurFile_def CreateFile_def FileExists_def fs_works_def creates_def new_path_def doc_for_def Let_def
      split: if_splits)

lemma SysEventDocWriter_works:
  assumes "fs_works c" "SysEventDocWriter c p fs = (pw, fs')" "p = path \<or> fs_file fs p \<noteq> None"
  shows "dwOpen (snd pw)" "fst pw = p" "fs_file fs' p \<noteq> None" "creates path fs fs'"
  using assms by (auto simp: SysEventDocWriter_def fs_works_def creates_def split: if_splits)

lemma UpdateCurFile_works:
  assumes c: "ctx_ok c" "fs_works c" and s: "store_ok c defs G fs" and n: "names_ok (seDomain ev) (seName ev)"
    and d: "doc_for ev d" "dir_possible c fs (seDomain ev)" and u: "UpdateCurFile c ev d fs = (ret, d', fs')"
  shows "ret = DOC_STORE_SUCCESS \<and> creates (new_path c ev) fs fs' \<and>
    (\<exists>p. d' = d\<lparr>sdCurFile := p\<rparr> \<and> (p = new_path c ev \<or> fs_file fs' p \<noteq> None))"
proof -
  obtain dir fs1 where g: "GetDir c d fs = (dir, fs1)" by (cases "GetDir c d fs")
  have dn: "sdDomain d = seDomain ev" "sdName d = seName ev" using d(1) by (simp_all add: doc_for_def)
  have "scDbDir c \<noteq> []" using c(1) db_dir_last(2) unfolding ctx_ok_def by metis
  note gw = GetDir_works [OF c(2) d(2) [folded dn] this g]
  have dir: "dir = scDbDir c @ seDomain ev" using gw(1) dn by simp
  note s1 = GetDir_ok(1) [OF s n dn(1) g] and g1 = creates_files [OF gw(3), of "new_path c ev"]
  show ?thesis
  proof (cases "CreateCurFile c dir ev d fs1 = (ret, d', fs')")
    case True
    note cw = CreateCurFile_works [OF c(2) d(1) True [unfolded dir]]
    then show ?thesis using creates_trans [OF g1] by auto
  next
    case False
    then have "ret = DOC_STORE_SUCCESS" "fs' = fs1" "GetCurFile c d fs1 dir \<noteq> []" "d' = d\<lparr>sdCurFile := GetCurFile c d fs1 dir\<rparr>"
      using u g gw(2) by (auto simp: UpdateCurFile_def Let_def split: if_splits)
    then show ?thesis using g1 GetCurFile_ok(2) [OF c(1) s1 n dn refl] dir by blast
  qed
qed

lemma InitWriter_works:
  assumes c: "ctx_ok c" "fs_works c" and s: "store_ok c defs G fs" and n: "names_ok (seDomain ev) (seName ev)"
    and d: "sdDomain d = seDomain ev" "sdName d = seName ev" "dir_possible c fs (seDomain ev)" "writer_live fs d"
    and i: "InitWriter c ev d fs = (ret, d', fs')"
  shows "ret = DOC_STORE_SUCCESS \<and> creates (new_path c ev) fs fs' \<and> writer_live fs' d' \<and> sdWriter d' \<noteq> None"
proof (cases "sdWriter d = None \<or> IsNeedUpdateCurFile c d fs")
  case False
  then show ?thesis using d(4) i by (auto simp: InitWriter_def)
next
  case True
  let ?d = "d\<lparr>sdType := seType ev, sdLevel := seLevel ev\<rparr>"
  obtain r1 d1 fs1 where u: "UpdateCurFile c ev ?d fs = (r1, d1, fs1)" by (cases "UpdateCurFile c ev ?d fs") auto
  have "doc_for ev ?d" using d(1,2) by (simp add: doc_for_def)
  from UpdateCurFile_works [OF c s n this d(3) u] obtain p where uw: "r1 = DOC_STORE_SUCCESS" "creates (new_path c ev) fs fs1"
    "d1 = ?d\<lparr>sdCurFile := p\<rparr>" "p = new_path c ev \<or> fs_file fs1 p \<noteq> None" by blast
  obtain pw fs2 where o: "SysEventDocWriter c p fs1 = (pw, fs2)" by (cases "SysEventDocWriter c p fs1")
  have "ret = DOC_STORE_SUCCESS" "d' = d1\<lparr>sdWriter := Some pw\<rparr>" "fs' = fs2" using i True u uw(1,3) o by (auto simp: InitWriter_def)
  then show ?thesis
    using SysEventDocWriter_works [OF c(2) o uw(4)] creates_trans [OF uw(2)] by (auto simp: writer_live_def)
qed

text \<open>The configuration has a page size for the type of the event.\<close>

definition has_page :: "store_ctx \<Rightarrow> stored_event \<Rightarrow> bool" where
  "has_page c ev \<longleftrightarrow> GetPageSize (scConfig c) (seType ev) \<noteq> 0"

lemma small_event:
  assumes "insert_ok defs ev v"
  shows "event_ok ev" "length (event_raw ev) \<le> MAX_NEW_SIZE"
  using assms insert_ok_event(1) [OF assms] by (auto simp: insert_ok_def view_ok_def event_raw_def)

lemma write_empty_works:
  assumes "insert_ok defs ev v" "has_page c ev" "dwOpen (snd pw)" "fs_file fs (fst pw) = Some []"
    and "writer_Write c pw ev fs = (ret, pw', fs')"
  shows "ret = DOC_STORE_SUCCESS"
  using assms(4,5) Write_first_succeeds [OF small_event [OF assms(1)] assms(3), of "ctx_env c"] assms(2)
  by (auto simp: writer_Write_def has_page_def ctx_env_def split: prod.splits) (metis fst_conv)

lemma write_doc_works:
  assumes c: "ctx_ok c" and s: "store_ok c defs G fs" and ev: "insert_ok defs ev v" "has_page c ev"
    and w: "dwOpen (snd pw)" "fs_file fs (fst pw) = Some f" "length f < 2 ^ 31" "writer_Write c pw ev fs = (ret, pw', fs')"
  shows "ret \<in> {DOC_STORE_SUCCESS, DOC_STORE_NEW_FILE}"
proof (cases "f = []")
  case True
  then show ?thesis using write_empty_works [OF ev w(1) _ w(4)] w(2) by simp
next
  case False
  then obtain h cs where h: "is_doc h (weSysVersion (ctx_env c)) (wePatchVersion (ctx_env c)) cs f"
    using store_ok_file [OF s w(2)] by (auto simp: file_ok_def doc_of_def)
  have al: "alloc_total (scAlloc c)" using c by (simp add: ctx_ok_def)
  show ?thesis
    using Write_further_codes [OF h small_event [OF ev(1)] w(3,1) al, of "scStack c" "fst pw"] w(2,4)
    by (auto simp: writer_Write_def split: prod.splits)
qed

lemma writer_Write_live:
  assumes "writer_Write c pw ev fs = (ret, pw', fs')"
  shows "dwOpen (snd pw') = dwOpen (snd pw)" "fst pw' = fst pw" "fs_file fs' p = None \<longleftrightarrow> fs_file fs p = None"
    "p \<noteq> fst pw \<Longrightarrow> fs_file fs' p = fs_file fs p"
proof -
  have "dwOpen (snd pw') = dwOpen (snd pw) \<and> fst pw' = fst pw \<and> (fs' = fs \<or> fs_file fs (fst pw) \<noteq> None \<and> (\<exists>f. fs' = fs_put (fst pw) f fs))"
  proof (cases "fs_file fs (fst pw)")
    case (Some f)
    obtain w1 f1 where "Write (scAlloc c) (scStack c) (ctx_env c) (fst pw) (Some ev) (snd pw) f = (ret, w1, f1)"
      "pw' = (fst pw, w1)" "fs' = fs_put (fst pw) f1 fs"
      using assms Some by (auto simp: writer_Write_def split: prod.splits)
    then show ?thesis
      using Some Write_keeps_open [of "scAlloc c" "scStack c" "ctx_env c" "fst pw" "Some ev" "snd pw" f] by auto
  qed (use assms in \<open>auto simp: writer_Write_def\<close>)
  then show "dwOpen (snd pw') = dwOpen (snd pw)" "fst pw' = fst pw" "fs_file fs' p = None \<longleftrightarrow> fs_file fs p = None"
    "p \<noteq> fst pw \<Longrightarrow> fs_file fs' p = fs_file fs p" by (auto split: if_splits)
qed

definition new_only :: "string \<Rightarrow> file_system \<Rightarrow> file_system \<Rightarrow> bool" where
  "new_only path fs fs' \<longleftrightarrow> (\<forall>p. fs_file fs' p \<noteq> None \<longrightarrow> fs_file fs p \<noteq> None \<or> p = path)"

lemma write_new_works:
  assumes c: "fs_works c" and ev: "insert_ok defs ev v" "has_page c ev" and d: "doc_for ev d"
    and dir: "IsDirectory fs (scDbDir c @ seDomain ev)" and f: "fs_file fs (new_path c ev) \<in> {None, Some []}"
    and g: "GetDir c d fs = (dir, fs1)" "CreateCurFile c dir ev d fs1 = (r2, d2, fs2)"
      "SysEventDocWriter c (sdCurFile d2) fs2 = (pw3, fs3)" "writer_Write c pw3 ev fs3 = (r4, pw4, fs4)"
  shows "r2 = DOC_STORE_SUCCESS \<and> r4 = DOC_STORE_SUCCESS \<and> writer_live fs4 (d2\<lparr>sdWriter := Some pw4\<rparr>) \<and>
    new_only (new_path c ev) fs fs4"
proof -
  have "dir = scDbDir c @ seDomain ev" "fs1 = fs" using g(1) d dir by (auto simp: GetDir_def doc_for_def)
  note cw = CreateCurFile_works [OF c d g(2) [unfolded this]]
  have "sdCurFile d2 = new_path c ev \<or> fs_file fs2 (sdCurFile d2) \<noteq> None" using cw(2) by simp
  note ow = SysEventDocWriter_works [OF c g(3) this]
  have cr: "creates (new_path c ev) fs fs3" using creates_trans [OF cw(3) ow(4)] \<open>fs1 = fs\<close> by simp
  have "fs_file fs3 (fst pw3) = Some []"
    using cr f ow(2,3) cw(2) unfolding creates_def by (metis empty_iff insert_iff sys_event_doc.select_convs(6) sys_event_doc.surjective sys_event_doc.update_convs(6))
  from write_empty_works [OF ev ow(1) this g(4)] have "r4 = DOC_STORE_SUCCESS" .
  moreover have "writer_live fs4 (d2\<lparr>sdWriter := Some pw4\<rparr>)"
    using writer_Write_live [OF g(4)] ow by (simp add: writer_live_def)
  moreover have "new_only (new_path c ev) fs fs4"
    using cr writer_Write_live(3) [OF g(4)] unfolding new_only_def creates_def by metis
  ultimately show ?thesis using cw(1) by blast
qed

text \<open>The insertion of an event with a new sequence number succeeds.\<close>

lemma Insert_doc_works:
  assumes c: "ctx_ok c" "fs_works c" and s: "store_ok c defs G fs" "fs_bounded fs" and ev: "insert_ok defs ev v" "has_page c ev"
    and d: "sdoc_ok c (defs (seDomain ev) (seName ev)) (seDomain ev) (seName ev) fs d" "writer_live fs d"
    and f: "dir_possible c fs (seDomain ev)" "fs_file fs (new_path c ev) = None"
    and i: "Insert_doc c (Some ev) d fs = (ret, d', fs')"
  shows "ret = DOC_STORE_SUCCESS \<and> writer_live fs' d' \<and> new_only (new_path c ev) fs fs'"
proof -
  let ?e = "defs (seDomain ev) (seName ev)"
  have n: "names_ok (seDomain ev) (seName ev)" using ev by (simp add: insert_ok_def)
  have dn: "sdDomain d = seDomain ev" "sdName d = seName ev" using d(1) by (auto simp: sdoc_ok_def)
  obtain r1 d1 fs1 where iw: "InitWriter c ev d fs = (r1, d1, fs1)" by (cases "InitWriter c ev d fs") auto
  note w1 = InitWriter_works [OF c s(1) n dn f(1) d(2) iw] and k1 = InitWriter_ok [OF c(1) s(1) ev(1) d(1) iw]
  obtain pw where pw: "sdWriter d1 = Some pw" using w1 by auto
  then obtain g where g: "fs_file fs1 (fst pw) = Some g" "dwOpen (snd pw)" using w1 by (auto simp: writer_live_def)
  have s1: "store_ok c defs G fs1" "sdoc_ok c ?e (seDomain ev) (seName ev) fs1 d1" using k1 by (auto simp: keeps_store_def)
  have "g = [] \<or> fs_file fs (fst pw) = Some g" using w1 g(1) unfolding creates_def by (metis option.inject)
  then have size: "length g < 2 ^ 31" using s(2) unfolding fs_bounded_def by fastforce
  obtain r2 pw2 fs2 where w2: "writer_Write c pw ev fs1 = (r2, pw2, fs2)" by (cases "writer_Write c pw ev fs1") auto
  note code = write_doc_works [OF c(1) s1(1) ev g(2,1) size w2] and l2 = writer_Write_live [OF w2]
  let ?d2 = "d1\<lparr>sdWriter := Some pw2\<rparr>"
  show ?thesis
  proof (cases "r2 = DOC_STORE_NEW_FILE")
    case False
    then have "ret = DOC_STORE_SUCCESS" "d' = ?d2" "fs' = fs2" using i iw w1 pw w2 code by (auto simp: Insert_doc_def)
    moreover have "writer_live fs2 ?d2" using l2 g by (simp add: writer_live_def)
    moreover have "new_only (new_path c ev) fs fs2"
      using w1 l2(3) unfolding new_only_def creates_def by metis
    ultimately show ?thesis by simp
  next
    case new: True
    have ty: "sdType d1 = edType ?e" "sdLevel d1 = edLevel ?e" "IsDirectory fs1 (scDbDir c @ seDomain ev)"
      "sdDomain d1 = seDomain ev" "sdName d1 = seName ev"
      using s1(2) pw by (auto simp: sdoc_ok_def)
    have df: "doc_for ev ?d2" using ty ev(1) by (simp add: doc_for_def insert_ok_def)
    have dir: "IsDirectory fs2 (scDbDir c @ seDomain ev)"
      using writer_Write_grows [OF w2] ty(3) by (auto simp: fs_grows_def IsDirectory_def)
    have "g \<noteq> []" using write_empty_works [OF ev g(2) _ w2] g(1) new by auto
    then have "fst pw \<noteq> new_path c ev" using w1 g(1) f(2) unfolding creates_def by (metis option.inject option.distinct(1))
    then have "fs_file fs2 (new_path c ev) = fs_file fs1 (new_path c ev)" using l2(4) by metis
    then have fp: "fs_file fs2 (new_path c ev) \<in> {None, Some []}" using w1 f(2) unfolding creates_def by (metis insertCI)
    obtain dir' fs3 where g3: "GetDir c ?d2 fs2 = (dir', fs3)" by (cases "GetDir c ?d2 fs2")
    obtain r4 d4 fs4 where c4: "CreateCurFile c dir' ev ?d2 fs3 = (r4, d4, fs4)" by (cases "CreateCurFile c dir' ev ?d2 fs3") auto
    obtain pw5 fs5 where o5: "SysEventDocWriter c (sdCurFile d4) fs4 = (pw5, fs5)" by (cases "SysEventDocWriter c (sdCurFile d4) fs4")
    obtain r6 pw6 fs6 where w6: "writer_Write c pw5 ev fs5 = (r6, pw6, fs6)" by (cases "writer_Write c pw5 ev fs5") auto
    note nw = write_new_works [OF c(2) ev df dir fp g3 c4 o5 w6]
    have "ret = r6" "d' = d4\<lparr>sdWriter := Some pw6\<rparr>" "fs' = fs6"
      using i iw w1 pw w2 new g3 c4 o5 w6 nw by (auto simp: Insert_doc_def)
    moreover have "new_only (new_path c ev) fs fs6"
      using nw w1 l2(3) unfolding new_only_def creates_def by metis
    ultimately show ?thesis using nw by simp
  qed
qed

section \<open>Runs of insertions\<close>

lemma GetFileSeq_path:
  assumes "ctx_ok c" "names_ok domain nm" "def_ok e" "0 < sq" "sq < 2 ^ 63"
  shows "GetFileSeq (scOps c) (store_path c e domain nm sq) = sq"
proof -
  let ?f = "db_file_name nm (edType e) (edLevel e) sq (edInterval e)"
  have n: "IsValidDomainName nm MAX_EVENT_NAME_LEN" "nm \<noteq> []" using assms(2) by (auto simp: names_ok_def)
  have e: "IsValidType (edType e)" "edLevel e = ''CRITICAL'' \<or> edLevel e = ''MINOR''" "0 \<le> edInterval e" "edInterval e < 2 ^ 15"
    using assms(3) by (simp_all add: def_ok_def)
  have "CHR ''/'' \<notin> set ?f" using file_name_no_slash [OF assms(3) n(1) assms(4)] .
  then have "foExtractFileName (scOps c) ((scDbDir c @ domain) @ CHR ''/'' # ?f) = ?f"
    using assms(1) unfolding ctx_ok_def c_utils_ok_def by blast
  then have "foExtractFileName (scOps c) (store_path c e domain nm sq) = ?f" by (simp add: store_path_def)
  then show ?thesis
    using parse_db_file_name [OF n e(2,1) assms(4,5) e(3,4), of new_splited_info SEQ_ONLY]
    by (simp add: GetFileSeq_def picked_def parse_type_defs)
qed

lemma new_path_store:
  assumes "insert_ok defs ev v"
  shows "new_path c ev = store_path c (defs (seDomain ev) (seName ev)) (seDomain ev) (seName ev) (sint (seSeq ev))"
  using assms by (simp add: new_path_def store_path_def insert_ok_def)

lemma new_path_seq:
  assumes "ctx_ok c" "insert_ok defs ev v"
  shows "GetFileSeq (scOps c) (new_path c ev) = sint (seSeq ev)"
proof -
  have "sint (seSeq ev) < 2 ^ 63" using sint_lt [of "seSeq ev"] by simp
  then show ?thesis
    unfolding new_path_store [OF assms(2)] using assms by (intro GetFileSeq_path) (auto simp: insert_ok_def)
qed

definition db_live :: "doc_cache \<Rightarrow> file_system \<Rightarrow> bool" where
  "db_live cache fs \<longleftrightarrow> (\<forall>key d. lruMap cache key = Some d \<longrightarrow> writer_live fs d)"

lemma writer_live_grows: "writer_live fs d \<Longrightarrow> fs_grows fs fs' \<Longrightarrow> writer_live fs' d"
  unfolding writer_live_def fs_grows_def by (metis not_None_eq)

lemma dir_possible_grows: "dir_possible c fs domain \<Longrightarrow> fs_grows fs fs' \<Longrightarrow> dir_possible c fs' domain"
  unfolding dir_possible_def FileExists_def fs_grows_def IsDirectory_def by (metis not_None_eq subsetD)

lemma Insert_db_works:
  assumes c: "ctx_ok c" "fs_works c" and db: "db_ok c defs G cache fs" "db_live cache fs" "fs_bounded fs"
    and ev: "insert_ok defs ev v" "has_page c ev" and f: "dir_possible c fs (seDomain ev)" "fs_file fs (new_path c ev) = None"
    and i: "Insert_db c ev cache fs = (ret, cache', fs')"
  shows "ret = DOC_STORE_SUCCESS \<and> db_live cache' fs' \<and> new_only (new_path c ev) fs fs'"
proof -
  let ?key = "(seDomain ev, seName ev)"
  let ?P = "\<lambda>k d. sdoc_ok c (defs (fst k) (snd k)) (fst k) (snd k) fs d \<and> writer_live fs d"
  obtain d cache1 where t: "take_doc cache ?key = (d, cache1)" by (cases "take_doc cache ?key")
  obtain d1 where d1: "Insert_doc c (Some ev) d fs = (ret, d1, fs')" "cache' = lru_change ?key d1 cache1"
    using i t by (auto simp: Insert_db_take split: prod.splits)
  have lru: "lru_ok cache" "0 < lruCapacity cache" and st: "store_ok c defs G fs"
    and docs: "\<And>k x. lruMap cache k = Some x \<Longrightarrow> ?P k x" using db by (auto simp: db_ok_def db_live_def)
  have "?P ?key (SysEventDoc (fst ?key) (snd ?key))" using sdoc_ok_new by (simp add: writer_live_def SysEventDoc_def sdoc_ok_def)
  note tk = take_doc_ok [where P = ?P, OF lru t docs this]
  have sd: "sdoc_ok c (defs (seDomain ev) (seName ev)) (seDomain ev) (seName ev) fs d" "writer_live fs d" using tk by simp_all
  note w = Insert_doc_works [OF c st db(3) ev sd f d1(1)]
  have "writer_live fs' x" if "lruMap cache' k = Some x" for k x
    using that tk w writer_live_grows [OF _ Insert_doc_grows [OF d1(1)]]
    by (cases k) (auto simp: d1(2) lru_change_def split: if_splits)
  then show ?thesis using w by (auto simp: db_live_def)
qed

lemma insert_all_works:
  assumes c: "ctx_ok c" "fs_works c"
    and "db_ok c defs G cache fs" "db_live cache fs" "list_all2 (insert_ok defs) evs vs"
    and "\<forall>ev \<in> set evs. has_page c ev \<and> dir_possible c fs (seDomain ev)"
    and "sorted_wrt (<) (map (\<lambda>ev. sint (seSeq ev)) evs)"
    and "\<forall>p ev. fs_file fs p \<noteq> None \<longrightarrow> ev \<in> set evs \<longrightarrow> GetFileSeq (scOps c) p < sint (seSeq ev)"
    and "insert_all c evs cache fs = (rets, cache', fs')" "fs_bounded fs'"
  shows "rets = replicate (length evs) DOC_STORE_SUCCESS"
  using assms(3-)
proof (induction evs arbitrary: vs rets G cache fs)
  case (Cons ev evs)
  obtain v ws where v: "insert_ok defs ev v" "list_all2 (insert_ok defs) evs ws"
    using Cons.prems(3) by (auto simp: list_all2_Cons1)
  obtain ret cache1 fs1 rs where i: "Insert_db c ev cache fs = (ret, cache1, fs1)"
    and rest: "insert_all c evs cache1 fs1 = (rs, cache', fs')" and rets: "rets = ret # rs"
    using Cons.prems(7) by (auto split: prod.splits)
  note b1 = fs_bounded_grows [OF insert_all_grows [OF rest] Cons.prems(8)]
  note b = fs_bounded_grows [OF Insert_db_grows [OF i] b1]
  have fresh: "fs_file fs (new_path c ev) = None"
    using Cons.prems(6) new_path_seq [OF c(1) v(1)] by (metis less_irrefl list.set_intros(1))
  have "has_page c ev" "dir_possible c fs (seDomain ev)" using Cons.prems(4) by simp_all
  note w = Insert_db_works [OF c Cons.prems(1,2) b v(1) this fresh i]
  obtain G1 where G1: "db_ok c defs G1 cache1 fs1" using Insert_db_ok [OF c(1) Cons.prems(1) v(1) i b1] by blast
  have p1: "\<forall>ev \<in> set evs. has_page c ev \<and> dir_possible c fs1 (seDomain ev)"
    using Cons.prems(4) dir_possible_grows [OF _ Insert_db_grows [OF i]] by auto
  have "\<forall>p e. fs_file fs1 p \<noteq> None \<longrightarrow> e \<in> set evs \<longrightarrow> GetFileSeq (scOps c) p < sint (seSeq e)"
    using w Cons.prems(5,6) new_path_seq [OF c(1) v(1)] unfolding new_only_def by auto
  moreover have "db_live cache1 fs1" "sorted_wrt (<) (map (\<lambda>ev. sint (seSeq ev)) evs)" using w Cons.prems(5) by simp_all
  ultimately have "rs = replicate (length evs) DOC_STORE_SUCCESS"
    using Cons.IH [OF G1 _ v(2) p1 _ _ rest Cons.prems(8)] by blast
  then show ?case using w rets by simp
qed simp

lemma accepted_all: "length vs = n \<Longrightarrow> accepted (replicate n DOC_STORE_SUCCESS) vs = vs"
  by (induction vs arbitrary: n) (auto simp: accepted_def)

text \<open>
  From an empty database: all insertions of events with increasing sequence numbers succeed, and a
  query for everything finds exactly these events.
\<close>

lemma events_stored_and_found:
  assumes c: "ctx_ok c" "fs_works c" and fs: "fsFiles fs = []" "distinct (fsDirs fs)" "IsDirectory fs (scDbDir c)"
    and ev: "list_all2 (insert_ok defs) evs vs" "\<forall>ev \<in> set evs. has_page c ev \<and> dir_possible c fs (seDomain ev)"
      "sorted_wrt (<) (map (\<lambda>ev. sint (seSeq ev)) evs)"
    and i: "insert_all c evs SysEventDatabase fs = (rets, cache', fs')" and b: "fs_bounded fs'"
    and q: "for_all q" "int (length evs) < sqLimit q"
  shows "rets = replicate (length evs) DOC_STORE_SUCCESS \<and>
    (\<exists>ws ens. Query_db c fs' q [] = Some (Inr (ens, q)) \<and> list_all2 (found c defs) ws ens \<and> mset ws = mset vs)"
proof -
  have live: "db_live SysEventDatabase fs" by (simp add: db_live_def SysEventDatabase_def new_lru_def)
  have none: "\<forall>p ev. fs_file fs p \<noteq> None \<longrightarrow> ev \<in> set evs \<longrightarrow> GetFileSeq (scOps c) p < sint (seSeq ev)"
    using fs(1) by (simp add: fs_file_def)
  have r: "rets = replicate (length evs) DOC_STORE_SUCCESS"
    by (rule insert_all_works [OF c empty_db_ok(1) [OF fs] live ev none i b])
  have "accepted rets vs = vs" using accepted_all [of vs "length evs"] r list_all2_lengthD [OF ev(1)] by simp
  then show ?thesis
    using inserted_events_found [OF c(1) fs ev(1) i b q(1)] r q(2) list_all2_lengthD [OF ev(1)] by simp
qed

end
