(* ===== verification/Backup_Facts.thy ===== *)
theory Backup_Facts
  imports Event_Backup Doc_Store_Live
begin

text \<open>
  The backup of the event database: a complete archive is available at any moment of a backup, and
  what is restored from it is what was there.
\<close>

section \<open>States on the way\<close>

text \<open>A history goes on from another and touches only the given files, no directories.\<close>

definition same_but :: "string set \<Rightarrow> file_system \<Rightarrow> file_system \<Rightarrow> bool" where
  "same_but S fs fs' \<longleftrightarrow> fsDirs fs' = fsDirs fs \<and> (\<forall>p. p \<notin> S \<longrightarrow> fs_file fs' p = fs_file fs p)"

lemma same_but_refl [simp]: "same_but S fs fs"
  by (simp add: same_but_def)

lemma same_but_trans: "same_but S a b \<Longrightarrow> same_but S b c \<Longrightarrow> same_but S a c"
  by (simp add: same_but_def)

definition goes_on :: "string set \<Rightarrow> history \<Rightarrow> history \<Rightarrow> bool" where
  "goes_on S h h' \<longleftrightarrow> h \<noteq> [] \<and> (\<exists>g. h' = g @ h \<and> (\<forall>fs \<in> set g. same_but S (hd h) fs))"

lemma goes_on_refl [simp, intro]: "h \<noteq> [] \<Longrightarrow> goes_on S h h"
  by (simp add: goes_on_def)

lemma goes_on_hd: "goes_on S h h' \<Longrightarrow> same_but S (hd h) (hd h')"
  unfolding goes_on_def by (metis append_self_conv2 hd_append2 list.set_sel(1) same_but_refl)

lemma goes_on_now: "goes_on S h h' \<Longrightarrow> p \<notin> S \<Longrightarrow> fs_file (hd h') p = fs_file (hd h) p"
  using goes_on_hd [of S h h'] by (simp add: same_but_def)

lemma goes_on_nonempty: "goes_on S h h' \<Longrightarrow> h' \<noteq> []"
  by (auto simp: goes_on_def)

lemma goes_on_trans [trans]:
  assumes "goes_on S a b" "goes_on S b c"
  shows "goes_on S a c"
proof -
  obtain g where g: "b = g @ a" "\<forall>fs \<in> set g. same_but S (hd a) fs" "a \<noteq> []"
    using assms(1) by (auto simp: goes_on_def)
  obtain g' where g': "c = g' @ b" "\<forall>fs \<in> set g'. same_but S (hd b) fs"
    using assms(2) by (auto simp: goes_on_def)
  have "\<forall>fs \<in> set (g' @ g). same_but S (hd a) fs" using g(2) g'(2) same_but_trans [OF goes_on_hd [OF assms(1)]] by auto
  then show ?thesis using g(1,3) g'(1) by (auto simp: goes_on_def intro!: exI [of _ "g' @ g"])
qed

lemma goes_on_states: "goes_on S [fs] h \<Longrightarrow> fs' \<in> set h \<Longrightarrow> same_but S fs fs'"
  by (auto simp: goes_on_def)

lemma goes_on_Cons: "h \<noteq> [] \<Longrightarrow> same_but S (hd h) fs \<Longrightarrow> goes_on S h (fs # h)"
  unfolding goes_on_def by (intro conjI exI [of _ "[fs]"]) auto

lemma h_put_goes_on: "h \<noteq> [] \<Longrightarrow> p \<in> S \<Longrightarrow> goes_on S h (h_put p f h)"
  unfolding h_put_def by (rule goes_on_Cons) (auto simp: same_but_def)

lemma h_Remove_goes_on:
  assumes "h \<noteq> []" "p \<in> S" "h_RemoveFile fo p h = (ok, h')"
  shows "goes_on S h h'"
proof -
  obtain fs where r: "RemoveFile fo p (hd h) = (ok, fs)" "h' = fs # h" using assms(3) by (auto simp: h_RemoveFile_def split: prod.splits)
  show ?thesis
    unfolding r(2) by (rule goes_on_Cons [OF assms(1)]) (use fs_file_remove [OF r(1)] assms(2) in \<open>auto simp: same_but_def\<close>)
qed

section \<open>The archive\<close>

lemma AddFileInZip_effect:
  assumes "AddFileInZip fo bl p lv zu h = (ret, zu', h')" "h \<noteq> []"
  shows "goes_on {fst zu} h h'" "fst zu' = fst zu"
    "ret = 0 \<Longrightarrow> \<exists>es real f. snd zu = Some es \<and> blRealPath bl p = Some real \<and> fs_file (hd h) real = Some f \<and>
      snd zu' = Some (es @ [(GetDstFilePath fo real lv, f)])"
    "ret \<noteq> 0 \<Longrightarrow> zu' = zu"
  using assms by (auto simp: AddFileInZip_def Let_def ERROR_GET_HANDLE_def ERROR_INVALID_FILE_def ERROR_OPEN_NEW_FILE_def
      ERROR_CREATE_ZIP_def intro: h_put_goes_on split: option.splits if_splits)

text \<open>Paths are canonical: there are no symbolic links in them.\<close>

definition canonical :: "backup_lib \<Rightarrow> bool" where
  "canonical bl \<longleftrightarrow> (\<forall>p. blRealPath bl p = Some p)"

definition zip_entry :: "file_ops \<Rightarrow> file_system \<Rightarrow> zip_level \<Rightarrow> string \<Rightarrow> string \<times> byte list" where
  "zip_entry fo fs lv p = (GetDstFilePath fo p lv, the (fs_file fs p))"

abbreviation is_fault :: "file_ops \<Rightarrow> string \<Rightarrow> bool" where
  "is_fault fo f \<equiv> GetEventTypeFromFileName (foExtractFileName fo f) = 1"

text \<open>The entries of files that are not the archive itself, whose states do not matter.\<close>

lemma add_events_effect:
  assumes "canonical bl"
  shows "add_events fo bl fl (zp, Some es) h = (ok, zu', h') \<Longrightarrow> h \<noteq> [] \<Longrightarrow> zp \<notin> set fl \<Longrightarrow>
    goes_on {zp} h h' \<and> fst zu' = zp \<and> (\<exists>es'. snd zu' = Some es') \<and>
    (ok \<longrightarrow> (\<forall>f \<in> set fl. is_fault fo f \<longrightarrow> fs_file (hd h) f \<noteq> None) \<and>
      snd zu' = Some (es @ map (zip_entry fo (hd h) KEEP_ONE_PARENT_PATH) (filter (is_fault fo) fl)))"
proof (induction fl arbitrary: es h)
  case (Cons p fl)
  show ?case
  proof (cases "is_fault fo p")
    case False
    then show ?thesis using Cons.IH [of es h] Cons.prems by auto
  next
    case True
    obtain ret zu1 h1 where a: "AddFileInZip fo bl p KEEP_ONE_PARENT_PATH (zp, Some es) h = (ret, zu1, h1)"
      by (cases "AddFileInZip fo bl p KEEP_ONE_PARENT_PATH (zp, Some es) h") auto
    note e = AddFileInZip_effect [OF a Cons.prems(2)]
    show ?thesis
    proof (cases "ret = 0")
      case False
      then show ?thesis using Cons.prems(1) True a e(1,4) by auto
    next
      case ret: True
      from e(3) [OF ret] assms obtain f where f: "fs_file (hd h) p = Some f"
        "zu1 = (zp, Some (es @ [zip_entry fo (hd h) KEEP_ONE_PARENT_PATH p]))"
        using e(2) by (cases zu1) (auto simp: canonical_def zip_entry_def)
      have rest: "add_events fo bl fl (zp, Some (es @ [zip_entry fo (hd h) KEEP_ONE_PARENT_PATH p])) h1 = (ok, zu', h')"
        using Cons.prems(1) True a ret f(2) by simp
      have g: "goes_on {zp} h h1" using e(1) by simp
      have "zp \<notin> set fl" "p \<noteq> zp" using Cons.prems(3) by auto
      note ih = Cons.IH [OF rest goes_on_nonempty [OF g] this(1)]
      have "fs_file (hd h1) q = fs_file (hd h) q" if "q \<in> set fl" for q
        using goes_on_now [OF g, of q] \<open>zp \<notin> set fl\<close> that by (cases "q = zp") auto
      then have "map (zip_entry fo (hd h1) KEEP_ONE_PARENT_PATH) (filter (is_fault fo) fl) =
          map (zip_entry fo (hd h) KEEP_ONE_PARENT_PATH) (filter (is_fault fo) fl)"
        "(\<forall>f \<in> set fl. is_fault fo f \<longrightarrow> fs_file (hd h1) f \<noteq> None) = (\<forall>f \<in> set fl. is_fault fo f \<longrightarrow> fs_file (hd h) f \<noteq> None)"
        by (simp_all add: zip_entry_def)
      then show ?thesis using ih goes_on_trans [OF g] True f(1) by auto
    qed
  qed
qed auto

text \<open>What a complete archive of a database holds.\<close>

definition sources :: "store_ctx \<Rightarrow> file_system \<Rightarrow> string list" where
  "sources c fs = [GetSequenceFile c, GetSequenceBackupFile c] @ filter (is_fault (scOps c)) (event_files c fs)"

definition archive_entries :: "store_ctx \<Rightarrow> file_system \<Rightarrow> (string \<times> byte list) list" where
  "archive_entries c fs =
     [zip_entry (scOps c) fs KEEP_NONE_PARENT_PATH (GetSequenceFile c),
      zip_entry (scOps c) fs KEEP_NONE_PARENT_PATH (GetSequenceBackupFile c)] @
     map (zip_entry (scOps c) fs KEEP_ONE_PARENT_PATH) (filter (is_fault (scOps c)) (event_files c fs))"

lemma close_goes_on: "h \<noteq> [] \<Longrightarrow> goes_on {fst zu} h (HiviewZipUnit_close bl zu h)"
  by (auto simp: HiviewZipUnit_close_def intro: h_put_goes_on split: option.split)

lemma Database_Backup_effect:
  assumes "canonical bl" "zp \<notin> set (event_files c (hd h))" "zp \<noteq> GetSequenceFile c" "zp \<noteq> GetSequenceBackupFile c"
    and "Database_Backup c bl zp h = (ok, h')" "h \<noteq> []"
  shows "goes_on {zp} h h'"
    "ok \<Longrightarrow> fs_file (hd h') zp = Some (blPack bl (archive_entries c (hd h))) \<and> (\<forall>p \<in> set (sources c (hd h)). fs_file (hd h) p \<noteq> None)"
proof -
  let ?fo = "scOps c" and ?a = "GetSequenceFile c" and ?b = "GetSequenceBackupFile c"
  have "goes_on {zp} h h' \<and> (ok \<longrightarrow> fs_file (hd h') zp = Some (blPack bl (archive_entries c (hd h))) \<and>
    (\<forall>p \<in> set (sources c (hd h)). fs_file (hd h) p \<noteq> None))"
  proof (cases "GetDirDirs ?fo (hd h) (scDbDir c) = [] \<or> \<not> FileExists (hd h) ?a")
    case True
    then show ?thesis using assms(5,6) by (auto simp: Database_Backup_def split: if_splits)
  next
    case False
    obtain zu1 h1 where z: "HiviewZipUnit ?fo zp h = (zu1, h1)" by (cases "HiviewZipUnit ?fo zp h")
    obtain r2 zu2 h2 where 2: "AddFileInZip ?fo bl ?a KEEP_NONE_PARENT_PATH zu1 h1 = (r2, zu2, h2)"
      by (cases "AddFileInZip ?fo bl ?a KEEP_NONE_PARENT_PATH zu1 h1") auto
    obtain r3 zu3 h3 where 3: "AddFileInZip ?fo bl ?b KEEP_NONE_PARENT_PATH zu2 h2 = (r3, zu3, h3)"
      by (cases "AddFileInZip ?fo bl ?b KEEP_NONE_PARENT_PATH zu2 h2") auto
    obtain r4 zu4 h4 where 4: "add_events ?fo bl (event_files c (hd h)) zu3 h3 = (r4, zu4, h4)"
      by (cases "add_events ?fo bl (event_files c (hd h)) zu3 h3") auto
    have zu1: "fst zu1 = zp" "snd zu1 = Some [] \<or> snd zu1 = None" and g1: "goes_on {zp} h h1"
      using z assms(6) by (auto simp: HiviewZipUnit_def intro: h_put_goes_on split: if_splits)
    note e2 = AddFileInZip_effect [OF 2 goes_on_nonempty [OF g1]]
    have g2: "goes_on {zp} h h2" using goes_on_trans [OF g1] e2(1) zu1(1) by simp
    note e3 = AddFileInZip_effect [OF 3 goes_on_nonempty [OF g2]]
    have z2: "fst zu2 = zp" and z3: "fst zu3 = zp" using e2(2) e3(2) zu1(1) by simp_all
    have g3: "goes_on {zp} h h3" using goes_on_trans [OF g2] e3(1) z2 by simp
    have closes: "goes_on {zp} h (HiviewZipUnit_close bl zu g)" if "fst zu = zp" "goes_on {zp} h g" for zu g
      using goes_on_trans [OF that(2)] close_goes_on [OF goes_on_nonempty [OF that(2)], of zu bl] that(1) by simp
    show ?thesis
    proof (cases "r2 = 0 \<and> r3 = 0")
      case no: False
      then show ?thesis
        using False assms(5) z 2 3 closes [OF z2 g2] closes [OF z3 g3]
        by (auto simp: Database_Backup_def split: if_splits)
    next
      case yes: True
      have now: "fs_file (hd h1) p = fs_file (hd h) p" "fs_file (hd h2) p = fs_file (hd h) p" "fs_file (hd h3) p = fs_file (hd h) p"
        if "p \<noteq> zp" for p using goes_on_now [OF g1, of p] goes_on_now [OF g2, of p] goes_on_now [OF g3, of p] that by simp_all
      obtain f2 where f2: "fs_file (hd h) ?a = Some f2" "snd zu2 = Some [zip_entry ?fo (hd h) KEEP_NONE_PARENT_PATH ?a]"
        using e2(3) yes zu1(2) assms(1) now(1) [of ?a] assms(3) by (auto simp: canonical_def zip_entry_def)
      obtain f3 where f3: "fs_file (hd h) ?b = Some f3"
        "snd zu3 = Some [zip_entry ?fo (hd h) KEEP_NONE_PARENT_PATH ?a, zip_entry ?fo (hd h) KEEP_NONE_PARENT_PATH ?b]"
        using e3(3) yes f2(2) assms(1) now(2) [of ?b] assms(4) by (auto simp: canonical_def zip_entry_def)
      have zu3: "zu3 = (zp, Some [zip_entry ?fo (hd h) KEEP_NONE_PARENT_PATH ?a, zip_entry ?fo (hd h) KEEP_NONE_PARENT_PATH ?b])"
        using z3 f3(2) by (cases zu3) simp
      note e4 = add_events_effect [OF assms(1) 4 [unfolded zu3] goes_on_nonempty [OF g3] assms(2)]
      have g4: "goes_on {zp} h h4" using goes_on_trans [OF g3] e4 by blast
      have r: "ok = r4" "h' = HiviewZipUnit_close bl zu4 h4"
        using False assms(5) z 2 3 4 yes by (auto simp: Database_Backup_def split: if_splits)
      have "goes_on {zp} h h'" using closes [OF _ g4, of zu4] e4 r(2) by simp
      moreover have "fs_file (hd h') zp = Some (blPack bl (archive_entries c (hd h))) \<and>
          (\<forall>p \<in> set (sources c (hd h)). fs_file (hd h) p \<noteq> None)" if ok
      proof -
        have same: "fs_file (hd h3) f = fs_file (hd h) f" if "f \<in> set (event_files c (hd h))" for f
          using now(3) [of f] that assms(2) by auto
        then have "map (zip_entry ?fo (hd h3) KEEP_ONE_PARENT_PATH) (filter (is_fault ?fo) (event_files c (hd h))) =
            map (zip_entry ?fo (hd h) KEEP_ONE_PARENT_PATH) (filter (is_fault ?fo) (event_files c (hd h)))"
          by (simp add: zip_entry_def)
        then have "snd zu4 = Some (archive_entries c (hd h))" "fst zu4 = zp"
          "\<forall>f \<in> set (event_files c (hd h)). is_fault ?fo f \<longrightarrow> fs_file (hd h) f \<noteq> None"
          using e4 that r(1) same by (auto simp: archive_entries_def)
        then show ?thesis using r(2) f2(1) f3(1) by (auto simp: HiviewZipUnit_close_def h_put_def sources_def)
      qed
      ultimately show ?thesis by blast
    qed
  qed
  then show "goes_on {zp} h h'"
    "ok \<Longrightarrow> fs_file (hd h') zp = Some (blPack bl (archive_entries c (hd h))) \<and> (\<forall>p \<in> set (sources c (hd h)). fs_file (hd h) p \<noteq> None)"
    by blast+
qed

section \<open>Interrupted backups\<close>

lemma backup_names [simp]:
  "backupFile d \<noteq> backupTmpFile d" "backupTmpFile d \<noteq> backupFile d" "backupFile d \<noteq> backupBakFile d"
  "backupBakFile d \<noteq> backupFile d" "backupTmpFile d \<noteq> backupBakFile d" "backupBakFile d \<noteq> backupTmpFile d"
  by (simp_all add: backupFile_def backupTmpFile_def backupBakFile_def)

text \<open>The archive that \<open>CheckBackupFile\<close> would settle on.\<close>

definition available :: "string \<Rightarrow> file_system \<Rightarrow> byte list option" where
  "available d fs = (case fs_file fs (backupFile d) of None \<Rightarrow> fs_file fs (backupBakFile d) | Some f \<Rightarrow> Some f)"

lemma available_file: "fs_file fs (backupFile d) = Some f \<Longrightarrow> available d fs = Some f"
  by (simp add: available_def)

lemma rename_effect:
  assumes "RenameFile bl src dest h = (ok, h')"
  shows "ok \<Longrightarrow> \<exists>f fs. fs_file (hd h) src = Some f \<and> h' = fs # h \<and>
      (\<forall>p. fs_file fs p = (if p = dest then Some f else if p = src then None else fs_file (hd h) p)) \<and> fsDirs fs = fsDirs (hd h)"
    "\<not> ok \<Longrightarrow> h' = h"
  using assms by (auto simp: RenameFile_def fs_file_def delete_conv' fs_put_def update_conv' split: option.splits if_splits)

lemma remove_effect:
  assumes "h_RemoveFile fo p h = (ok, h')"
  shows "\<exists>fs. h' = fs # h \<and> (\<forall>q. q \<noteq> p \<longrightarrow> fs_file fs q = fs_file (hd h) q) \<and> fsDirs fs = fsDirs (hd h)"
  using assms fs_file_remove [of fo p "hd h"] by (auto simp: h_RemoveFile_def split: prod.splits)

lemma swap_archive_states:
  assumes "fs_file (hd h) (backupFile d) = Some X" "fs_file (hd h) (backupTmpFile d) = Some Y" "swap_archive c bl d h = (ok, h')"
  shows "\<exists>g. h' = g @ h \<and> (\<forall>fs \<in> set g. available d fs = Some X \<or> available d fs = Some Y)"
    "ok \<Longrightarrow> fs_file (hd h') (backupFile d) = Some Y"
proof -
  let ?F = "backupFile d" and ?T = "backupTmpFile d" and ?B = "backupBakFile d"
  obtain o1 fs1 where r1: "h_RemoveFile (scOps c) ?B h = (o1, fs1 # h)" and f1: "fs_file fs1 ?F = Some X" "fs_file fs1 ?T = Some Y"
    using remove_effect [of "scOps c" ?B h] assms(1,2) by (cases "h_RemoveFile (scOps c) ?B h") auto
  obtain o2 h2 where r2: "RenameFile bl ?F ?B (fs1 # h) = (o2, h2)" by (cases "RenameFile bl ?F ?B (fs1 # h)")
  have ex: "FileExists fs1 ?F" using f1(1) by (simp add: FileExists_def)
  have a1: "available d fs1 = Some X" using f1(1) by (rule available_file)
  have "(\<exists>g. h' = g @ h \<and> (\<forall>fs \<in> set g. available d fs = Some X \<or> available d fs = Some Y)) \<and> (ok \<longrightarrow> fs_file (hd h') ?F = Some Y)"
  proof (cases o2)
    case False
    then have h2: "h2 = fs1 # h" using rename_effect(2) [OF r2] by simp
    obtain o3 fs3 where r3: "h_RemoveFile (scOps c) ?T h2 = (o3, fs3 # h2)" "fs_file fs3 ?F = Some X"
      using remove_effect [of "scOps c" ?T h2] f1(1) h2 by (cases "h_RemoveFile (scOps c) ?T h2") auto
    then have "h' = [fs3, fs1] @ h \<and> \<not> ok" using assms(3) r1 r2 False ex h2 by (simp add: swap_archive_def Let_def)
    then show ?thesis using a1 available_file [OF r3(2)] by (metis empty_iff empty_set set_ConsD)
  next
    case True
    from rename_effect(1) [OF r2 True] f1 obtain fs2 where
      h2: "h2 = fs2 # fs1 # h" "fs_file fs2 ?F = None" "fs_file fs2 ?B = Some X" "fs_file fs2 ?T = Some Y" by auto
    have a2: "available d fs2 = Some X" using h2 by (simp add: available_def)
    obtain o3 h3 where r3: "RenameFile bl ?T ?F h2 = (o3, h3)" by (cases "RenameFile bl ?T ?F h2")
    show ?thesis
    proof (cases o3)
      case True
      from rename_effect(1) [OF r3 True] h2 obtain fs3 where h3: "h3 = fs3 # h2" "fs_file fs3 ?F = Some Y" by auto
      obtain o4 fs4 where r4: "h_RemoveFile (scOps c) ?B h3 = (o4, fs4 # h3)" "fs_file fs4 ?F = Some Y"
        using remove_effect [of "scOps c" ?B h3] h3 by (cases "h_RemoveFile (scOps c) ?B h3") auto
      have "h' = [fs4, fs3, fs2, fs1] @ h \<and> ok"
        using assms(3) r1 r2 r3 r4(1) \<open>o2\<close> True ex h2(1) h3(1) by (simp add: swap_archive_def Let_def)
      then show ?thesis using a1 a2 available_file [OF h3(2)] available_file [OF r4(2)] r4(2) by auto
    next
      case False
      then have h3: "h3 = h2" using rename_effect(2) [OF r3] by simp
      obtain o4 fs4 where r4: "h_RemoveFile (scOps c) ?T h3 = (o4, fs4 # h3)" "fs_file fs4 ?F = None" "fs_file fs4 ?B = Some X"
        using remove_effect [of "scOps c" ?T h3] h2 h3 by (cases "h_RemoveFile (scOps c) ?T h3") auto
      have a4: "available d fs4 = Some X" using r4 by (simp add: available_def)
      obtain o5 h5 where r5: "RenameFile bl ?B ?F (fs4 # h3) = (o5, h5)" by (cases "RenameFile bl ?B ?F (fs4 # h3)")
      have r: "h' = h5 \<and> \<not> ok"
        using assms(3) r1 r2 r3 r4(1) r5 \<open>o2\<close> False ex h2(1) by (simp add: swap_archive_def Let_def)
      show ?thesis
      proof (cases o5)
        case True
        from rename_effect(1) [OF r5 True] r4 obtain fs5 where "h5 = fs5 # fs4 # h3" "fs_file fs5 ?F = Some X" by auto
        then have "h' = [fs5, fs4, fs2, fs1] @ h" "available d fs5 = Some X" using r h3 h2(1) by (simp_all add: available_file)
        then show ?thesis using r a1 a2 a4 by auto
      next
        case False
        then have "h' = [fs4, fs2, fs1] @ h" using r rename_effect(2) [OF r5] h3 h2(1) by simp
        then show ?thesis using r a1 a2 a4 by auto
      qed
    qed
  qed
  then show "\<exists>g. h' = g @ h \<and> (\<forall>fs \<in> set g. available d fs = Some X \<or> available d fs = Some Y)"
    "ok \<Longrightarrow> fs_file (hd h') ?F = Some Y" by blast+
qed

lemma rename_goes_on:
  assumes "h \<noteq> []" "src \<in> S" "dest \<in> S" "RenameFile bl src dest h = (ok, h')"
  shows "goes_on S h h'"
proof (cases ok)
  case True
  from rename_effect(1) [OF assms(4) True] obtain fs where "h' = fs # h" "same_but S (hd h) fs"
    using assms(2,3) by (auto simp: same_but_def)
  then show ?thesis using goes_on_Cons [OF assms(1)] by blast
next
  case False
  then show ?thesis using rename_effect(2) [OF assms(4)] assms(1) by simp
qed

definition backup_set :: "string \<Rightarrow> string set" where
  "backup_set d = {backupFile d, backupTmpFile d, backupBakFile d}"

text \<open>Each step of the swap renames or removes one of the three files.\<close>

lemma swap_steps:
  assumes "h \<noteq> []" "p \<in> backup_set d" "q \<in> backup_set d"
  shows "goes_on (backup_set d) h (snd (h_RemoveFile fo p h))" "goes_on (backup_set d) h (snd (RenameFile bl p q h))"
  using h_Remove_goes_on [OF assms(1,2)] rename_goes_on [OF assms] by (metis prod.collapse)+

lemma swap_goes_on:
  assumes "h \<noteq> []"
  shows "goes_on (backup_set d) h (snd (swap_archive c bl d h))"
proof -
  let ?S = "backup_set d" and ?F = "backupFile d" and ?T = "backupTmpFile d" and ?B = "backupBakFile d"
  have S: "?F \<in> ?S" "?T \<in> ?S" "?B \<in> ?S" by (simp_all add: backup_set_def)
  define h1 where "h1 = snd (h_RemoveFile (scOps c) ?B h)"
  define mv where "mv = (if FileExists (hd h1) ?F then RenameFile bl ?F ?B h1 else (True, h1))"
  obtain ok h3 where r3: "RenameFile bl ?T ?F (snd mv) = (ok, h3)" by (cases "RenameFile bl ?T ?F (snd mv)")
  have g1: "goes_on ?S h h1" unfolding h1_def by (rule swap_steps(1) [OF assms S(3) S(3)])
  have g2: "goes_on ?S h (snd mv)"
    using goes_on_trans [OF g1 swap_steps(2) [OF goes_on_nonempty [OF g1] S(1,3)]] g1 by (simp add: mv_def)
  have g3: "goes_on ?S h h3"
    using goes_on_trans [OF g2 swap_steps(2) [OF goes_on_nonempty [OF g2] S(2,1), of bl]] r3 by simp
  note rm = goes_on_trans [OF _ swap_steps(1) [OF goes_on_nonempty _ S(1)]]
  have g4: "goes_on ?S h (snd (h_RemoveFile (scOps c) ?T g))" "goes_on ?S h (snd (h_RemoveFile (scOps c) ?B g))" if "goes_on ?S h g" for g
    using rm [OF that that S(2)] rm [OF that that S(3)] by blast+
  have g5: "goes_on ?S h (snd (RenameFile bl ?B ?F g))" if "goes_on ?S h g" for g
    using goes_on_trans [OF that swap_steps(2) [OF goes_on_nonempty [OF that] S(3,1)]] .
  have "snd (swap_archive c bl d h) =
      (if \<not> fst mv then snd (h_RemoveFile (scOps c) ?T (snd mv))
       else if \<not> ok then snd (RenameFile bl ?B ?F (snd (h_RemoveFile (scOps c) ?T h3)))
       else snd (h_RemoveFile (scOps c) ?B h3))"
    using r3 by (simp add: swap_archive_def Let_def flip: h1_def mv_def)
  then show ?thesis using g4 g5 g2 g3 by simp
qed

text \<open>Listed event files lie below the database directory.\<close>

lemma event_files_below:
  assumes "ctx_ok c" "p \<in> set (event_files c fs)"
  shows "prefix (scDbDir c) p"
proof -
  have db: "scDbDir c \<noteq> []" "last (scDbDir c) = CHR ''/''" using assms(1) db_dir_last unfolding ctx_ok_def by metis+
  have inc: "foIncludeTrailing (scOps c) q = (if last q = CHR ''/'' then q else q @ ''/'')" if "q \<noteq> []" for q
    using assms(1) that by (auto simp: ctx_ok_def c_utils_ok_def)
  obtain dir where d: "dir \<in> set (GetDirDirs (scOps c) fs (scDbDir c))" "p \<in> set (GetDirFiles_flat (scOps c) fs dir)"
    using assms(2) by (auto simp: event_files_def)
  then have pd: "prefix (scDbDir c) dir" using inc [OF db(1)] db(2) by (auto simp: GetDirDirs_def child_of_def split: if_splits)
  then have "dir \<noteq> []" using db(1) by auto
  then have "prefix dir p"
    using d(2) inc [of dir] by (auto simp: GetDirFiles_flat_def child_of_def prefix_def split: if_splits)
  then show ?thesis using pd by (rule prefix_order.trans [rotated])
qed

text \<open>A backup up to the swap: the temporary archive is the only file that changes.\<close>

lemma backup_steps:
  assumes c: "ctx_ok c" "canonical bl" "\<not> prefix (scDbDir c) (backupTmpFile d)" and dir: "FileExists fs d"
  obtains fs0 h where "same_but {backupTmpFile d} fs fs0" "goes_on {backupTmpFile d} [fs] h"
    "SysEventBackup_Backup c bl d [fs] = (False, h) \<or>
     SysEventBackup_Backup c bl d [fs] = swap_archive c bl d h \<and>
     fs_file (hd h) (backupTmpFile d) = Some (blPack bl (archive_entries c fs0)) \<and> (\<forall>p \<in> set (sources c fs0). fs_file fs0 p \<noteq> None)"
proof -
  let ?T = "backupTmpFile d"
  define clean where "clean = (if FileExists fs ?T then h_RemoveFile (scOps c) ?T [fs] else (True, [fs]))"
  have g1: "goes_on {?T} [fs] (snd clean)"
    using h_Remove_goes_on [of "[fs]" ?T "{?T}" "scOps c"] by (auto simp: clean_def) (metis prod.collapse)
  obtain ok3 h3 where r3: "Database_Backup c bl ?T (snd clean) = (ok3, h3)" by (cases "Database_Backup c bl ?T (snd clean)")
  have T: "?T \<notin> set (event_files c (hd (snd clean)))" "?T \<noteq> GetSequenceFile c" "?T \<noteq> GetSequenceBackupFile c"
    using c(3) event_files_below [OF c(1)] by (auto simp: GetSequenceFile_def GetSequenceBackupFile_def)
  note e3 = Database_Backup_effect [OF c(2) T r3 goes_on_nonempty [OF g1]]
  have g3: "goes_on {?T} [fs] h3" using goes_on_trans [OF g1 e3(1)] .
  have g4: "goes_on {?T} [fs] (snd (h_RemoveFile (scOps c) ?T h3))"
    using goes_on_trans [OF g3 h_Remove_goes_on [OF goes_on_nonempty [OF g3], of ?T "{?T}" "scOps c"]] by (metis insertI1 prod.collapse)
  have s0: "same_but {?T} fs (hd (snd clean))" using goes_on_hd [OF g1] by simp
  have eq: "SysEventBackup_Backup c bl d [fs] =
      (if \<not> fst clean then (False, snd clean)
       else if \<not> ok3 then (False, snd (h_RemoveFile (scOps c) ?T h3)) else swap_archive c bl d h3)"
    by (simp only: SysEventBackup_Backup_def Let_def list.sel dir if_True fst_conv snd_conv not_True_eq_False if_False
        clean_def [symmetric] r3 prod.case)
  consider "\<not> fst clean" | "fst clean" "\<not> ok3" | "fst clean" "ok3" by blast
  then show thesis
  proof cases
    case 1
    then show thesis using that [OF s0 g1] eq by simp
  next
    case 2
    then show thesis using that [OF s0 g4] eq by simp
  next
    case 3
    then show thesis using that [OF s0 g3] eq e3(2) by simp
  qed
qed

lemma backup_states:
  assumes c: "ctx_ok c" "canonical bl" "\<not> prefix (scDbDir c) (backupTmpFile d)"
    and X: "fs_file fs (backupFile d) = Some X" and dir: "FileExists fs d" and b: "SysEventBackup_Backup c bl d [fs] = (ok, h)"
  shows "\<exists>fs0. same_but {backupTmpFile d} fs fs0 \<and>
    (\<forall>fs' \<in> set h. fsDirs fs' = fsDirs fs \<and> (available d fs' = Some X \<or> available d fs' = Some (blPack bl (archive_entries c fs0)))) \<and>
    (ok \<longrightarrow> fs_file (hd h) (backupFile d) = Some (blPack bl (archive_entries c fs0)) \<and> (\<forall>p \<in> set (sources c fs0). fs_file fs0 p \<noteq> None))"
proof -
  let ?T = "backupTmpFile d"
  obtain fs0 h3 where s0: "same_but {?T} fs fs0" and g3: "goes_on {?T} [fs] h3"
    and r: "SysEventBackup_Backup c bl d [fs] = (False, h3) \<or>
     SysEventBackup_Backup c bl d [fs] = swap_archive c bl d h3 \<and> fs_file (hd h3) ?T = Some (blPack bl (archive_entries c fs0)) \<and>
     (\<forall>p \<in> set (sources c fs0). fs_file fs0 p \<noteq> None)"
    by (rule backup_steps [OF c dir])
  have keep: "fsDirs fs' = fsDirs fs \<and> available d fs' = Some X" if "same_but {?T} fs fs'" for fs'
    using that X by (simp add: same_but_def available_def)
  show ?thesis
  proof (cases "SysEventBackup_Backup c bl d [fs] = (False, h3)")
    case True
    then have "ok = False" "h = h3" using b by simp_all
    then show ?thesis using keep [OF goes_on_states [OF g3]] s0 by (intro exI [of _ fs0]) simp
  next
    case False
    let ?Y = "blPack bl (archive_entries c fs0)"
    have sw: "swap_archive c bl d h3 = (ok, h)" and Y: "fs_file (hd h3) ?T = Some ?Y" "\<forall>p \<in> set (sources c fs0). fs_file fs0 p \<noteq> None"
      using disjE [OF r] False b by metis+
    have F: "fs_file (hd h3) (backupFile d) = Some X" using goes_on_now [OF g3, of "backupFile d"] X by simp
    note st = swap_archive_states [OF F Y(1) sw]
    have "goes_on (backup_set d) h3 h" using swap_goes_on [OF goes_on_nonempty [OF g3], of d c bl] sw by simp
    then obtain g where g: "h = g @ h3" "\<forall>fs' \<in> set g. fsDirs fs' = fsDirs (hd h3)" by (auto simp: goes_on_def same_but_def)
    have dirs: "fsDirs (hd h3) = fsDirs fs" using goes_on_hd [OF g3] by (simp add: same_but_def)
    obtain g' where "h = g' @ h3" and av: "\<forall>fs' \<in> set g'. available d fs' = Some X \<or> available d fs' = Some ?Y"
      using st(1) by blast
    then have "g' = g" using g(1) by simp
    have "fsDirs fs' = fsDirs fs \<and> (available d fs' = Some X \<or> available d fs' = Some ?Y)" if "fs' \<in> set h" for fs'
    proof (cases "fs' \<in> set g")
      case True
      then show ?thesis using g(2) av dirs unfolding \<open>g' = g\<close> by simp
    next
      case False
      then have "fs' \<in> set h3" using that g(1) by simp
      then show ?thesis using keep [OF goes_on_states [OF g3]] by simp
    qed
    then show ?thesis using s0 st(2) Y(2) by (intro exI [of _ fs0]) blast
  qed
qed

text \<open>After an interruption the next start finds the archive that is available.\<close>

lemma check_settles:
  assumes "available d fs = Some Z" "\<not> IsDirectory fs (backupFile d)" "\<And>a b. blRename bl a b"
  shows "fs_file (hd (snd (CheckBackupFile c bl d [fs]))) (backupFile d) = Some Z"
proof -
  let ?F = "backupFile d" and ?B = "backupBakFile d"
  define tk where "tk = (if FileExists fs ?B \<and> \<not> FileExists fs ?F then RenameFile bl ?B ?F [fs] else (True, [fs]))"
  have tk: "fst tk \<and> fs_file (hd (snd tk)) ?F = Some Z"
  proof (cases "fs_file fs ?F")
    case (Some f)
    then show ?thesis using assms(1) by (simp add: tk_def FileExists_def available_def)
  next
    case None
    then have "fs_file fs ?B = Some Z" using assms(1) by (simp add: available_def)
    then show ?thesis using None assms(2,3) by (simp add: tk_def FileExists_def RenameFile_def)
  qed
  have rm: "fs_file (hd (snd (h_RemoveFile fo p h))) ?F = fs_file (hd h) ?F" if "p \<noteq> ?F" for fo p h
    using remove_effect [of fo p h] that by (cases "h_RemoveFile fo p h") auto
  have "snd (CheckBackupFile c bl d [fs]) =
      snd (h_RemoveFile (scOps c) ?B (snd (h_RemoveFile (scOps c) (backupTmpFile d) (snd tk))))"
    unfolding CheckBackupFile_def Let_def list.sel tk_def [symmetric] using tk by (simp add: FileExists_def)
  then show ?thesis using tk rm by simp
qed

text \<open>
  When only the renamed archive is left, the next backup removes it before its own archive is in
  place.
\<close>

lemma backup_gap:
  assumes c: "ctx_ok c" "canonical bl" "\<not> prefix (scDbDir c) (backupTmpFile d)" and dir: "FileExists fs d"
    and F: "fs_file fs (backupFile d) = None" "\<not> IsDirectory fs (backupFile d)" and rm: "foRemove (scOps c) (backupBakFile d)"
    and b: "SysEventBackup_Backup c bl d [fs] = (True, h)"
  shows "\<exists>fs' \<in> set h. available d fs' = None"
proof -
  let ?T = "backupTmpFile d" and ?F = "backupFile d" and ?B = "backupBakFile d"
  obtain h3 where g3: "goes_on {?T} [fs] h3" and sw: "swap_archive c bl d h3 = (True, h)"
    using backup_steps [OF c dir] b by (metis Pair_inject)
  obtain ok1 fs1 where r1: "RemoveFile (scOps c) ?B (hd h3) = (ok1, fs1)" by (cases "RemoveFile (scOps c) ?B (hd h3)")
  have now: "fs_file (hd h3) ?F = None" "fsDirs (hd h3) = fsDirs fs" using goes_on_hd [OF g3] F(1) by (simp_all add: same_but_def)
  have "ok1 \<or> fs_file (hd h3) ?B = None" using r1 rm by (auto simp: RemoveFile_def split: if_splits)
  then have fs1: "fs_file fs1 ?F = None" "fs_file fs1 ?B = None" "fsDirs fs1 = fsDirs fs"
    using fs_file_remove(1) [OF r1, of ?F] fs_file_remove(1) [OF r1, of ?B] fs_file_remove(2) [OF r1] now by (auto split: if_splits)
  then have "\<not> FileExists fs1 ?F" using F(2) by (simp add: FileExists_def IsDirectory_def)
  moreover have h1: "snd (h_RemoveFile (scOps c) ?B h3) = fs1 # h3" by (simp add: h_RemoveFile_def r1)
  ultimately have e: "swap_archive c bl d h3 =
      (case RenameFile bl ?T ?F (fs1 # h3) of (ok, g) \<Rightarrow>
         if \<not> ok then (False, snd (RenameFile bl ?B ?F (snd (h_RemoveFile (scOps c) ?T g))))
         else (True, snd (h_RemoveFile (scOps c) ?B g)))"
    unfolding swap_archive_def Let_def h1 by simp
  obtain g where g: "RenameFile bl ?T ?F (fs1 # h3) = (True, g)" "h = snd (h_RemoveFile (scOps c) ?B g)"
    using sw unfolding e by (auto split: prod.splits if_splits)
  from rename_effect(1) [OF g(1)] obtain fs2 where "g = fs2 # fs1 # h3" by auto
  then have "fs1 \<in> set h" using g(2) remove_effect [of "scOps c" ?B g] by (cases "h_RemoveFile (scOps c) ?B g") auto
  moreover have "available d fs1 = None" using fs1 by (simp add: available_def)
  ultimately show ?thesis by blast
qed

end
