(* ===== verification/Backup_Restore.thy ===== *)
theory Backup_Restore
  imports Backup_Facts
begin

text \<open>Restoring an archive brings back every file that was put into it, under its old path.\<close>

section \<open>Paths\<close>

lemma str_rfind_last:
  assumes "CHR ''/'' \<notin> set n"
  shows "str_rfind (b @ CHR ''/'' # n) ''/'' = Some (length b)"
proof -
  let ?s = "b @ CHR ''/'' # n"
  have "\<exists>j \<le> length ?s. prefix ''/'' (drop j ?s)" by (rule exI [of _ "length b"]) simp
  then have "str_rfind ?s ''/'' \<noteq> None" using str_rfind_None by metis
  then obtain p where p: "str_rfind ?s ''/'' = Some p" by blast
  note r = str_rfind_Some [OF p]
  have "\<not> length b < p"
  proof
    assume "length b < p"
    then have "drop p ?s = drop (p - length b - 1) n" by (simp add: drop_Cons')
    then show False using r(2) assms by (auto simp: prefix_def) (metis in_set_dropD list.set_intros(1))
  qed
  moreover have "\<not> p < length b" using r(3) [of "length b"] by auto
  ultimately show ?thesis using p by simp
qed

lemma dst_one_parent:
  assumes "CHR ''/'' \<notin> set dn" "CHR ''/'' \<notin> set n" "b \<noteq> []" "last b = CHR ''/''"
  shows "GetDstFilePath fo (b @ dn @ CHR ''/'' # n) KEEP_ONE_PARENT_PATH = dn @ CHR ''/'' # n"
proof -
  obtain b' where b: "b = b' @ [CHR ''/'']" using assms(3,4) by (metis append_butlast_last_id)
  have "str_rfind (b @ dn @ CHR ''/'' # n) ''/'' = Some (length (b @ dn))"
    using str_rfind_last [OF assms(2), of "b @ dn"] by simp
  moreover have "str_rfind (b @ dn) ''/'' = Some (length b')" using str_rfind_last [OF assms(1), of b'] by (simp add: b)
  ultimately show ?thesis by (simp add: GetDstFilePath_def b)
qed

text \<open>The path of each source below the directory of the database, and its level in the archive.\<close>

definition level_of :: "store_ctx \<Rightarrow> string \<Rightarrow> zip_level" where
  "level_of c p = (if p = GetSequenceFile c \<or> p = GetSequenceBackupFile c then KEEP_NONE_PARENT_PATH else KEEP_ONE_PARENT_PATH)"

lemma db_dir_end: "ctx_ok c \<Longrightarrow> scDbDir c \<noteq> [] \<and> last (scDbDir c) = CHR ''/''"
  using db_dir_last unfolding ctx_ok_def by metis

lemma event_file_path:
  assumes "ctx_ok c" "p \<in> set (event_files c fs)"
  obtains dn n where "p = scDbDir c @ dn @ CHR ''/'' # n" "CHR ''/'' \<notin> set dn" "CHR ''/'' \<notin> set n" "n \<noteq> []"
proof -
  note db = db_dir_end [OF assms(1)]
  have inc: "foIncludeTrailing (scOps c) q = (if last q = CHR ''/'' then q else q @ ''/'')" if "q \<noteq> []" for q
    using assms(1) that by (auto simp: ctx_ok_def c_utils_ok_def)
  obtain dir where d: "dir \<in> set (GetDirDirs (scOps c) fs (scDbDir c))" "p \<in> set (GetDirFiles_flat (scOps c) fs dir)"
    using assms(2) by (auto simp: event_files_def)
  then obtain dn where dn: "dir = scDbDir c @ dn" "dn \<noteq> []" "CHR ''/'' \<notin> set dn"
    using inc [of "scDbDir c"] db by (auto simp: GetDirDirs_def child_of_def prefix_def split: if_splits)
  have "last dir \<noteq> CHR ''/''" using dn by (metis last_appendR last_in_set)
  then have "foIncludeTrailing (scOps c) dir = dir @ ''/''" using inc [of dir] dn by simp
  then have "child_of (dir @ ''/'') p" using d(2) by (auto simp: GetDirFiles_flat_def split: if_splits)
  then obtain n where "p = dir @ CHR ''/'' # n" "CHR ''/'' \<notin> set n" "n \<noteq> []" by (auto simp: child_of_def prefix_def)
  then show thesis using that dn by simp
qed

lemma event_file_no_seq: "ctx_ok c \<Longrightarrow> p \<in> set (event_files c fs) \<Longrightarrow> p \<noteq> GetSequenceFile c \<and> p \<noteq> GetSequenceBackupFile c"
  by (erule (1) event_file_path) (auto simp: GetSequenceFile_def GetSequenceBackupFile_def append_eq_Cons_conv Cons_eq_append_conv)

lemma archive_entries_sources:
  "ctx_ok c \<Longrightarrow> archive_entries c fs = map (\<lambda>p. zip_entry (scOps c) fs (level_of c p) p) (sources c fs)"
  using event_file_no_seq by (auto simp: archive_entries_def sources_def level_of_def)

lemma entry_path:
  assumes "ctx_ok c" "p \<in> set (sources c fs)"
  shows "scDbDir c @ fst (zip_entry (scOps c) fs0 (level_of c p) p) = p" "last p \<noteq> CHR ''/''"
    "\<exists>d n. p = d @ CHR ''/'' # n \<and> CHR ''/'' \<notin> set n \<and> prefix (scDbDir c) (d @ ''/'')"
proof -
  note db = db_dir_end [OF assms(1)]
  obtain b where b: "scDbDir c = b @ ''/''" using db by (metis append_butlast_last_id)
  have ex: "foExtractFileName (scOps c) (scDbDir c @ n) = n" if "CHR ''/'' \<notin> set n" for n
    using assms(1) that b by (auto simp: ctx_ok_def c_utils_ok_def)
  consider n where "p = scDbDir c @ n" "level_of c p = KEEP_NONE_PARENT_PATH" "CHR ''/'' \<notin> set n" "n \<noteq> []"
    | "p \<in> set (event_files c fs)"
    using assms(2) by (auto simp: sources_def level_of_def GetSequenceFile_def GetSequenceBackupFile_def)
  then have "scDbDir c @ fst (zip_entry (scOps c) fs0 (level_of c p) p) = p \<and> last p \<noteq> CHR ''/'' \<and>
    (\<exists>d n. p = d @ CHR ''/'' # n \<and> CHR ''/'' \<notin> set n \<and> prefix (scDbDir c) (d @ ''/''))"
  proof cases
    case (1 n)
    then have "scDbDir c @ fst (zip_entry (scOps c) fs0 (level_of c p) p) = p" using ex by (simp add: zip_entry_def GetDstFilePath_def)
    moreover have "last p \<noteq> CHR ''/''" using 1 by (metis last_appendR last_in_set)
    moreover have "p = b @ CHR ''/'' # n" using 1(1) b by simp
    moreover have "prefix (scDbDir c) (b @ ''/'')" using b by simp
    ultimately show ?thesis using 1(3) by (intro conjI exI [of _ b] exI [of _ n])
  next
    case 2
    obtain dn n where p: "p = scDbDir c @ dn @ CHR ''/'' # n" "CHR ''/'' \<notin> set dn" "CHR ''/'' \<notin> set n" "n \<noteq> []"
      by (rule event_file_path [OF assms(1) 2])
    have "level_of c p = KEEP_ONE_PARENT_PATH" using event_file_no_seq [OF assms(1) 2] by (simp add: level_of_def)
    then have "scDbDir c @ fst (zip_entry (scOps c) fs0 (level_of c p) p) = p"
      using dst_one_parent [OF p(2,3), of "scDbDir c" "scOps c"] db p(1) by (simp add: zip_entry_def)
    moreover have "last p = last n" "last n \<in> set n" using p(1,4) by simp_all
    then have "last p \<noteq> CHR ''/''" using p(3) by auto
    moreover have "p = (scDbDir c @ dn) @ CHR ''/'' # n" "prefix (scDbDir c) ((scDbDir c @ dn) @ ''/'')" using p(1) by simp_all
    ultimately show ?thesis using p(3) by (intro conjI exI [of _ "scDbDir c @ dn"] exI [of _ n])
  qed
  then show "scDbDir c @ fst (zip_entry (scOps c) fs0 (level_of c p) p) = p" "last p \<noteq> CHR ''/''"
    "\<exists>d n. p = d @ CHR ''/'' # n \<and> CHR ''/'' \<notin> set n \<and> prefix (scDbDir c) (d @ ''/'')" by blast+
qed

section \<open>Unpacking\<close>

definition makeable :: "file_ops \<Rightarrow> file_system \<Rightarrow> string \<Rightarrow> bool" where
  "makeable fo fs path \<longleftrightarrow> (\<forall>q \<in> set (sub_paths path). FileExists fs q \<or> \<not> IsKeyDirectory fo q)"

definition total_size :: "(string \<times> byte list) list \<Rightarrow> nat" where
  "total_size es = (\<Sum>(n, f) \<leftarrow> es. length f)"

lemma unzip_all:
  assumes ops: "\<And>p. foMkdir fo p" "\<And>p. foOpen fo p"
  shows "distinct (map fst es) \<Longrightarrow>
    \<forall>(n, f) \<in> set es. length n < NAME_MAX \<and> last (dst @ n) \<noteq> CHR ''/'' \<and> makeable fo (hd h) (blExtractFilePath bl (dst @ n)) \<Longrightarrow>
    tot + total_size es \<le> MAX_UNZIP_SIZE \<Longrightarrow>
    \<exists>h'. unzip_loop fo bl dst es tot h = (True, h') \<and> (\<forall>(n, f) \<in> set es. fs_file (hd h') (dst @ n) = Some f) \<and>
      (\<forall>p. p \<notin> (\<lambda>n. dst @ n) ` fst ` set es \<longrightarrow> fs_file (hd h') p = fs_file (hd h) p)"
proof (induction es arbitrary: tot h)
  case (Cons e es)
  obtain n f where e: "e = (n, f)" by (cases e)
  let ?p = "dst @ n"
  have n: "length n < NAME_MAX" "last ?p \<noteq> CHR ''/''" "makeable fo (hd h) (blExtractFilePath bl ?p)"
    using Cons.prems(2) e by auto
  obtain fs1 where c: "ForceCreateDirectory fo (blExtractFilePath bl ?p) (hd h) = (True, fs1)"
    using ForceCreateDirectory_works [of "blExtractFilePath bl ?p" "hd h" fo] n(3) ops(1)
    by (cases "ForceCreateDirectory fo (blExtractFilePath bl ?p) (hd h)") (auto simp: makeable_def)
  have fs1: "fsFiles fs1 = fsFiles (hd h)" using ForceCreateDirectory_files [of fo "blExtractFilePath bl ?p" "hd h"] c by simp
  have dirs: "set (fsDirs (hd h)) \<subseteq> set (fsDirs fs1)"
    using create_dirs_grow [of "hd h" fo "sub_paths (blExtractFilePath bl ?p)"] c by (auto simp: ForceCreateDirectory_def split: prod.splits)
  let ?h2 = "h_put ?p f (h_put ?p [] (fs1 # h))"
  have len: "length f \<le> MAX_UNZIP_SIZE" "tot + length f \<le> MAX_UNZIP_SIZE" "tot + length f + total_size es \<le> MAX_UNZIP_SIZE"
    using Cons.prems(3) e by (simp_all add: total_size_def)
  have step: "unzip_loop fo bl dst (e # es) tot h = unzip_loop fo bl dst es (tot + length f) ?h2"
    using n(1,2) c ops(2) len(1,2) by (simp add: e h_ForceCreateDirectory_def DoUnzipFile_def Let_def)
  have ex: "FileExists (hd ?h2) q" if "FileExists (hd h) q" for q
    using FileExists_grows [OF that fs1 dirs] by (auto simp: h_put_def FileExists_def)
  have "\<forall>(m, g) \<in> set es. length m < NAME_MAX \<and> last (dst @ m) \<noteq> CHR ''/'' \<and> makeable fo (hd ?h2) (blExtractFilePath bl (dst @ m))"
    using Cons.prems(2) ex unfolding makeable_def by fastforce
  from Cons.IH [OF _ this len(3)] Cons.prems(1) obtain h' where h': "unzip_loop fo bl dst es (tot + length f) ?h2 = (True, h')"
    "\<forall>(m, g) \<in> set es. fs_file (hd h') (dst @ m) = Some g"
    "\<forall>p. p \<notin> (\<lambda>m. dst @ m) ` fst ` set es \<longrightarrow> fs_file (hd h') p = fs_file (hd ?h2) p" by auto
  have "n \<notin> fst ` set es" using Cons.prems(1) e by simp
  then have "?p \<notin> (\<lambda>m. dst @ m) ` fst ` set es" by auto
  then have "fs_file (hd h') ?p = Some f" using h'(3) by (simp add: h_put_def)
  moreover have "fs_file (hd h') p = fs_file (hd h) p" if "p \<notin> (\<lambda>m. dst @ m) ` fst ` set (e # es)" for p
    using h'(3) that fs1 e by (auto simp: h_put_def fs_file_def [of fs1] fs_file_def [of "hd h"])
  ultimately show ?case using step h'(1,2) e by (intro exI [of _ h']) auto
qed simp


section \<open>The round trip\<close>

text \<open>Laws of the libraries: archives are read as they were written; the directory part of a path ends with the slash.\<close>

definition backup_lib_ok :: "backup_lib \<Rightarrow> bool" where
  "backup_lib_ok bl \<longleftrightarrow> canonical bl \<and> (\<forall>es. blUnpack bl (blPack bl es) = Some es) \<and>
     (\<forall>d n. CHR ''/'' \<notin> set n \<longrightarrow> blExtractFilePath bl (d @ CHR ''/'' # n) = d @ ''/'')"

lemma fst_entries_distinct:
  assumes "ctx_ok c" "distinct (sources c fs)"
  shows "distinct (map fst (archive_entries c fs))"
proof -
  have "inj_on (\<lambda>p. fst (zip_entry (scOps c) fs (level_of c p) p)) (set (sources c fs))"
    using entry_path(1) [OF assms(1)] by (intro inj_onI) metis
  then show ?thesis using assms(2) by (simp add: archive_entries_sources [OF assms(1)] comp_def distinct_map)
qed

text \<open>What has to hold of the files that are backed up, and of the device they come back to.\<close>

definition fits :: "store_ctx \<Rightarrow> file_system \<Rightarrow> bool" where
  "fits c fs \<longleftrightarrow> distinct (sources c fs) \<and> (\<forall>p \<in> set (sources c fs). fs_file fs p \<noteq> None) \<and>
     length (sources c fs) \<le> MAX_ENTRY_NUM \<and> (\<forall>p \<in> set (sources c fs). length p < NAME_MAX) \<and>
     total_size (archive_entries c fs) \<le> MAX_UNZIP_SIZE"

lemma check_keeps:
  assumes "fs_file fs (backupFile d) = Some Z" "\<not> FileExists fs (GetSequenceFile c)"
    "GetSequenceFile c \<notin> backup_set d"
  shows "\<exists>h. CheckBackupFile c bl d [fs] = (True, h) \<and> same_but {backupTmpFile d, backupBakFile d} fs (hd h)"
proof -
  let ?S = "{backupTmpFile d, backupBakFile d}"
  define h2 where "h2 = snd (h_RemoveFile (scOps c) (backupTmpFile d) [fs])"
  define h3 where "h3 = snd (h_RemoveFile (scOps c) (backupBakFile d) h2)"
  have g2: "goes_on ?S [fs] h2"
    unfolding h2_def using h_Remove_goes_on [of "[fs]" "backupTmpFile d" ?S "scOps c"] by (metis insertI1 list.distinct(1) prod.collapse)
  have "goes_on ?S h2 h3"
    unfolding h3_def using h_Remove_goes_on [OF goes_on_nonempty [OF g2], of "backupBakFile d" ?S "scOps c"]
    by (metis insertI1 insertI2 prod.collapse)
  then have s: "same_but ?S fs (hd h3)" using goes_on_hd [OF goes_on_trans [OF g2]] by fastforce
  then have "\<not> FileExists (hd h3) (GetSequenceFile c)"
    using assms(2,3) by (auto simp: same_but_def FileExists_def IsDirectory_def backup_set_def)
  moreover have "FileExists fs (backupFile d)" using assms(1) by (simp add: FileExists_def)
  ultimately show ?thesis using s by (simp add: CheckBackupFile_def Let_def h2_def h3_def)
qed

lemma restore_brings_back:
  assumes c: "ctx_ok c" "fs_works c" and bl: "backup_lib_ok bl" and src: "fits c fs0"
    and dev: "fs_file fs (backupFile d) = Some (blPack bl (archive_entries c fs0))" "\<not> FileExists fs (GetSequenceFile c)"
      "IsDirectory fs (scDbDir c)" "\<forall>p \<in> set (sources c fs0). \<forall>q \<in> set (sub_paths (blExtractFilePath bl p)).
        IsDirectory fs q \<or> \<not> IsKeyDirectory (scOps c) q"
    and d: "\<forall>p \<in> backup_set d. \<not> prefix (scDbDir c) p"
  shows "\<exists>h. SysEventBackup_Restore c bl d (scDbDir c) [fs] = (True, h) \<and>
    (\<forall>p \<in> set (sources c fs0). fs_file (hd h) p = fs_file fs0 p)"
proof -
  let ?fo = "scOps c" and ?es = "archive_entries c fs0"
  have "GetSequenceFile c \<notin> backup_set d" using d by (auto simp: GetSequenceFile_def)
  from check_keeps [OF dev(1,2) this] obtain h1 where h1: "CheckBackupFile c bl d [fs] = (True, h1)"
    "same_but {backupTmpFile d, backupBakFile d} fs (hd h1)" by blast
  have f1: "fs_file (hd h1) (backupFile d) = Some (blPack bl ?es)" "fsDirs (hd h1) = fsDirs fs"
    using h1(2) dev(1) by (auto simp: same_but_def)
  have ent: "?es = map (\<lambda>p. zip_entry ?fo fs0 (level_of c p) p) (sources c fs0)" by (rule archive_entries_sources [OF c(1)])
  have one: "length n < NAME_MAX \<and> last (scDbDir c @ n) \<noteq> CHR ''/'' \<and> makeable ?fo (hd h1) (blExtractFilePath bl (scDbDir c @ n))"
    if "(n, f) \<in> set ?es" for n f
  proof -
    from that have "(n, f) \<in> set (map (\<lambda>p. zip_entry ?fo fs0 (level_of c p) p) (sources c fs0))" by (simp only: ent)
    then obtain p where m: "p \<in> set (sources c fs0)" "(n, f) = zip_entry ?fo fs0 (level_of c p) p" by (auto simp only: set_map image_iff)
    have p: "p \<in> set (sources c fs0)" "n = fst (zip_entry ?fo fs0 (level_of c p) p)" using m(1) arg_cong [OF m(2), of fst] by simp_all
    have "p = scDbDir c @ n" "last p \<noteq> CHR ''/''" using entry_path(1,2) [OF c(1) p(1)] p(2) by auto
    moreover have "length p < NAME_MAX" using src p(1) by (auto simp: fits_def)
    moreover have "makeable ?fo (hd h1) (blExtractFilePath bl p)"
      using dev(4) p(1) f1(2) by (auto simp: makeable_def FileExists_def IsDirectory_def)
    ultimately show ?thesis by auto
  qed
  have dist: "distinct (map fst ?es)" and tot: "0 + total_size ?es \<le> MAX_UNZIP_SIZE"
    using fst_entries_distinct [OF c(1)] src by (simp_all add: fits_def)
  have len: "length ?es \<le> MAX_ENTRY_NUM" using src unfolding ent fits_def by simp
  have ops: "\<And>p. foMkdir ?fo p" "\<And>p. foOpen ?fo p" using c(2) by (simp_all add: fs_works_def)
  have "\<forall>(n, f) \<in> set ?es. length n < NAME_MAX \<and> last (scDbDir c @ n) \<noteq> CHR ''/'' \<and>
      makeable ?fo (hd h1) (blExtractFilePath bl (scDbDir c @ n))" using one by blast
  from unzip_all [OF ops dist this tot] obtain h2 where h2: "unzip_loop ?fo bl (scDbDir c) ?es 0 h1 = (True, h2)"
    "\<forall>(n, f) \<in> set ?es. fs_file (hd h2) (scDbDir c @ n) = Some f" by blast
  have same: "fs_file (hd h2) p = fs_file fs0 p \<and> fs_file fs0 p \<noteq> None" if p: "p \<in> set (sources c fs0)" for p
  proof -
    have "zip_entry ?fo fs0 (level_of c p) p \<in> set ?es" using p unfolding ent by simp
    then have "fs_file (hd h2) (scDbDir c @ fst (zip_entry ?fo fs0 (level_of c p) p)) = Some (the (fs_file fs0 p))"
      using h2(2) by (auto simp: zip_entry_def)
    then show ?thesis using entry_path(1) [OF c(1) p] src p by (auto simp: fits_def)
  qed
  have "FileExists (hd h2) (scDbDir c @ ''event_sequence'')"
    using same [of "GetSequenceFile c"] by (auto simp: sources_def FileExists_def GetSequenceFile_def)
  moreover have "UnzipFile ?fo bl (backupFile d) (scDbDir c) h1 = (True, h2)"
    using f1(1) bl h2(1) len by (simp add: UnzipFile_def backup_lib_ok_def)
  moreover have "FileExists (hd h1) (scDbDir c)" using dev(3) f1(2) by (simp add: FileExists_def IsDirectory_def)
  ultimately have "SysEventBackup_Restore c bl d (scDbDir c) [fs] = (True, h2)"
    using h1(1) by (simp add: SysEventBackup_Restore_def Database_Restore_def)
  then show ?thesis using same by blast
qed

end
