(* ===== verification/Sequence_Facts.thy ===== *)
theory Sequence_Facts
  imports Sequence_Manager Doc_Store_Live
begin

text \<open>
  Sequence numbers are never used twice: not within a process, not after it ended between any two
  writes of the files.
\<close>

section \<open>Numbers in files\<close>

lemma show_base_first: "0 < n \<Longrightarrow> hd (show_base 10 n) \<noteq> CHR ''0''"
proof (induction "10 :: nat" n rule: show_base.induct)
  case (1 n)
  show ?case
  proof (cases "n < 10")
    case True
    have "list_all (\<lambda>d. digit_char d \<noteq> CHR ''0'') [1 ..< 10]" by code_simp
    then have "digit_char n \<noteq> CHR ''0''" using True 1(2) by (auto simp: list_all_iff)
    then show ?thesis using True by (subst show_base.simps) simp
  next
    case False
    then have "hd (show_base 10 (n div 10)) \<noteq> CHR ''0''" using 1 by simp
    moreover have "show_base 10 (n div 10) \<noteq> []" by (subst show_base.simps) simp
    ultimately show ?thesis using False by (subst show_base.simps) simp
  qed
qed

lemma length_show_nat: "n < 10 ^ k \<Longrightarrow> 0 < k \<Longrightarrow> length (show_nat n) \<le> k"
  unfolding show_nat_def
proof (induction k arbitrary: n)
  case (Suc k)
  show ?case
  proof (cases "n < 10")
    case True
    then show ?thesis by (subst show_base.simps) simp
  next
    case False
    then have "0 < k" "n div 10 < 10 ^ k" using Suc.prems by (cases k; simp add: less_mult_imp_div_less mult.commute)+
    then show ?thesis using Suc.IH [of "n div 10"] False by (subst show_base.simps) simp
  qed
qed simp

lemma strtoll_0_show:
  assumes "0 \<le> n" "n < 2 ^ 63"
  shows "strtoll_0 (show_int n @ CHR 0x00 # rest) = n"
proof -
  let ?s = "show_nat (nat n)"
  have dig: "is_digit x" if "x \<in> set ?s" for x using show_nat_no_space that .
  have tw: "takeWhile (\<lambda>c. c \<noteq> CHR 0x00) (?s @ CHR 0x00 # rest) = ?s"
    by (subst takeWhile_append2) (use dig [of "CHR 0x00"] in \<open>auto simp: is_digit_def\<close>)
  obtain d ds where s: "?s = d # ds" by (cases ?s) auto
  have d: "is_digit d" using dig s by simp
  then have nd: "\<not> is_space d" "d \<noteq> CHR ''-''" "d \<noteq> CHR ''+''" by (auto simp: is_space_def is_digit_def)
  have x: "\<not> prefix ''0x'' ?s" "\<not> prefix ''0X'' ?s"
    using dig [of "CHR ''x''"] dig [of "CHR ''X''"] by (auto simp: prefix_def is_digit_def)
  have v: "(if ?s \<noteq> [] \<and> hd ?s = CHR ''0'' then read_digits 8 0 ?s else read_digits 10 0 ?s) = nat n"
  proof (cases "d = CHR ''0''")
    case True
    then have "\<not> 0 < n" using show_base_first [of "nat n"] s by (auto simp: show_nat_def)
    then have "n = 0" using assms(1) by simp
    moreover have "read_digits 8 0 (show_nat 0) = 0" "read_digits 10 0 (show_nat 0) = 0" by code_simp+
    ultimately show ?thesis by simp
  next
    case False
    then have "hd ?s \<noteq> CHR ''0''" using s by simp
    moreover have "read_digits 10 0 ?s = nat n" by (simp add: show_nat_def read_digits_show_base)
    ultimately show ?thesis by simp
  qed
  have "dropWhile is_space ?s = ?s" "hd ?s = d" using nd(1) s by simp_all
  then have "strtoll_0 (?s @ CHR 0x00 # rest) = max (- (2 ^ 63)) (min (2 ^ 63 - 1) (int (nat n)))"
    unfolding strtoll_0_def Let_def tw using nd(2,3) x v by auto
  then show ?thesis using assms by (simp add: show_int_def)
qed

definition persisted :: "string \<Rightarrow> int \<Rightarrow> file_system \<Rightarrow> bool" where
  "persisted p v fs \<longleftrightarrow> (\<exists>rest. fs_file fs p = Some (bytes_of_string (show_int v) @ 0 # rest) \<and> length rest \<le> 1000)"

lemma string_of_bytes_append [simp]: "string_of_bytes (a @ b) = string_of_bytes a @ string_of_bytes b"
  by (simp add: string_of_bytes_def)

lemma string_of_zero [simp]: "string_of_bytes (0 # b) = CHR 0x00 # string_of_bytes b"
  using char_of_byte_of_char [of "CHR 0x00"] by (simp add: string_of_bytes_def byte_of_char_def)

lemma length_show_seq: "0 \<le> v \<Longrightarrow> v < 2 ^ 63 \<Longrightarrow> length (show_int v) \<le> 19"
  by (simp add: show_int_def) (rule length_show_nat, simp_all)

lemma read_persisted:
  assumes "load_ok ld" "persisted p v fs" "0 \<le> v" "v < 2 ^ 63"
  shows "CheckFileExistThenReadSeq ld p fs d = (True, v)"
proof -
  obtain rest where f: "fs_file fs p = Some (bytes_of_string (show_int v) @ 0 # rest)" "length rest \<le> 1000"
    using assms(2) by (auto simp: persisted_def)
  have "ld fs p = Some (show_int v @ CHR 0x00 # string_of_bytes rest)"
    using assms(1) f length_show_seq [OF assms(3,4)] by (auto simp: load_ok_def)
  then show ?thesis
    using f strtoll_0_show [OF assms(3,4)] by (simp add: CheckFileExistThenReadSeq_def FileExists_def ReadEventSeqFromFile_def)
qed

section \<open>Writing the number\<close>

definition plain_file :: "string \<Rightarrow> file_system \<Rightarrow> bool" where
  "plain_file p fs \<longleftrightarrow> \<not> IsDirectory fs p \<and> (\<forall>f. fs_file fs p = Some f \<longrightarrow> length f \<le> 1000)"

lemma WriteEventSeqToFile_effect:
  assumes "foOpen fo p" "0 \<le> v" "v < 2 ^ 63" "plain_file p (hd h)" "WriteEventSeqToFile fo v p h = h'"
  shows "\<exists>f. h' = fs_put p f (hd h) # h \<and> persisted p v (hd h') \<and> plain_file p (hd h')"
proof -
  define old where "old = (case fs_file (hd h) p of None \<Rightarrow> [] | Some f \<Rightarrow> f)"
  let ?f = "bytes_of_string (show_int v) @ 0 # drop (length (show_int v) + 1) old"
  have "length old \<le> 1000" using assms(4) by (auto simp: plain_file_def old_def split: option.split)
  moreover have "h' = fs_put p ?f (hd h) # h"
    using assms(1,5) by (simp add: WriteEventSeqToFile_def SaveStringToFile_def old_def Let_def)
  ultimately show ?thesis
    using assms(4) length_show_seq [OF assms(2,3)] by (intro exI [of _ ?f]) (auto simp: persisted_def plain_file_def)
qed

lemma persisted_put: "p \<noteq> q \<Longrightarrow> persisted p v (fs_put q f fs) = persisted p v fs"
  "p \<noteq> q \<Longrightarrow> plain_file p (fs_put q f fs) = plain_file p fs"
  by (simp_all add: persisted_def plain_file_def)

lemma seq_files_differ [simp]: "GetSequenceFile c \<noteq> GetSequenceBackupFile c" "GetSequenceBackupFile c \<noteq> GetSequenceFile c"
  by (simp_all add: GetSequenceFile_def GetSequenceBackupFile_def)

text \<open>
  What the two files hold when the process is not running: nothing yet, the same number, or the
  backup is one increment behind because the process ended between the two writes.
\<close>

definition seq_disk :: "store_ctx \<Rightarrow> int \<Rightarrow> file_system \<Rightarrow> bool" where
  "seq_disk c P fs \<longleftrightarrow> plain_file (GetSequenceFile c) fs \<and> plain_file (GetSequenceBackupFile c) fs \<and>
     (P = 0 \<and> fs_file fs (GetSequenceFile c) = None \<and> fs_file fs (GetSequenceBackupFile c) = None \<or>
      SEQ_INCREMENT \<le> P \<and> persisted (GetSequenceFile c) P fs \<and>
        (persisted (GetSequenceBackupFile c) P fs \<or> persisted (GetSequenceBackupFile c) (P - SEQ_INCREMENT) fs \<or>
         P = SEQ_INCREMENT \<and> fs_file fs (GetSequenceBackupFile c) = None))"

definition seq_synced :: "store_ctx \<Rightarrow> int \<Rightarrow> file_system \<Rightarrow> bool" where
  "seq_synced c P fs \<longleftrightarrow> seq_disk c P fs \<and> (P = 0 \<or> persisted (GetSequenceBackupFile c) P fs)"

lemma seq_synced_disk: "seq_synced c P fs \<Longrightarrow> seq_disk c P fs"
  by (simp add: seq_synced_def)

lemma WriteSeqToFile_effect:
  assumes "fs_works c" "seq_synced c P (hd h)" "0 \<le> P" "P + SEQ_INCREMENT < 2 ^ 63" "WriteSeqToFile c (P + SEQ_INCREMENT) h = h'"
  shows "seq_synced c (P + SEQ_INCREMENT) (hd h') \<and> (\<exists>fs1. h' = hd h' # fs1 # h \<and> seq_disk c (P + SEQ_INCREMENT) fs1)"
proof -
  let ?a = "GetSequenceFile c" and ?b = "GetSequenceBackupFile c" and ?v = "P + SEQ_INCREMENT"
  have op: "foOpen (scOps c) p" for p using assms(1) by (simp add: fs_works_def)
  have v: "0 \<le> ?v" using assms(3) by (simp add: SEQ_INCREMENT_def)
  have pl: "plain_file ?a (hd h)" "plain_file ?b (hd h)" using assms(2) by (auto simp: seq_synced_def seq_disk_def)
  define h1 where "h1 = WriteEventSeqToFile (scOps c) ?v ?a h"
  from WriteEventSeqToFile_effect [OF op v assms(4) pl(1) h1_def [symmetric]] obtain f1 where
    1: "h1 = fs_put ?a f1 (hd h) # h" "persisted ?a ?v (hd h1)" "plain_file ?a (hd h1)" by blast
  have b1: "plain_file ?b (hd h1)" using 1(1) pl(2) by (simp add: persisted_put)
  have h': "WriteEventSeqToFile (scOps c) ?v ?b h1 = h'" using assms(5) by (simp add: WriteSeqToFile_def h1_def)
  from WriteEventSeqToFile_effect [OF op v assms(4) b1 h'] obtain f2 where
    2: "h' = fs_put ?b f2 (hd h1) # h1" "persisted ?b ?v (hd h')" "plain_file ?b (hd h')" by blast
  have "seq_disk c ?v (hd h1)"
    using 1 b1 assms(2,3) by (auto simp: seq_disk_def seq_synced_def persisted_put SEQ_INCREMENT_def)
  moreover have "seq_synced c ?v (hd h')"
    using 1 2 assms(3) by (auto simp: seq_disk_def seq_synced_def persisted_put)
  ultimately show ?thesis using 1(1) 2(1) by auto
qed

lemma ReadSeqFromFile_effect:
  assumes "fs_works c" "load_ok ld" "seq_disk c P (hd h)" "0 \<le> P" "P < 2 ^ 63"
  shows "\<exists>h'. ReadSeqFromFile c ld h = Some (P, h') \<and> seq_synced c P (hd h') \<and> (h' = h \<or> h' = hd h' # h)"
proof -
  let ?a = "GetSequenceFile c" and ?b = "GetSequenceBackupFile c"
  have pl: "plain_file ?a (hd h)" "plain_file ?b (hd h)" using assms(3) by (auto simp: seq_disk_def)
  note rd = read_persisted [OF assms(2)]
  have none: "CheckFileExistThenReadSeq ld p (hd h) 0 = (False, 0)" if "fs_file (hd h) p = None" "plain_file p (hd h)" for p
    using that by (simp add: CheckFileExistThenReadSeq_def FileExists_def plain_file_def)
  have late: "\<exists>b. CheckFileExistThenReadSeq ld ?b (hd h) 0 = (b, P - SEQ_INCREMENT)"
    if "SEQ_INCREMENT \<le> P"
      "persisted ?b (P - SEQ_INCREMENT) (hd h) \<or> P = SEQ_INCREMENT \<and> fs_file (hd h) ?b = None"
  proof -
    have "0 \<le> P - SEQ_INCREMENT" "P - SEQ_INCREMENT < 2 ^ 63" using that(1) assms(5) by (simp_all add: SEQ_INCREMENT_def)
    then show ?thesis using rd none [OF _ pl(2)] that(2) by auto
  qed
  consider (empty) "P = 0" "fs_file (hd h) ?a = None" "fs_file (hd h) ?b = None"
    | (same) "SEQ_INCREMENT \<le> P" "persisted ?a P (hd h)" "persisted ?b P (hd h)"
    | (behind) b where "SEQ_INCREMENT \<le> P" "persisted ?a P (hd h)" "CheckFileExistThenReadSeq ld ?b (hd h) 0 = (b, P - SEQ_INCREMENT)"
    using assms(3) unfolding seq_disk_def by (metis late)
  then show ?thesis
  proof cases
    case empty
    then show ?thesis using none pl assms(3) by (simp add: ReadSeqFromFile_def seq_synced_def)
  next
    case same
    then show ?thesis using rd [OF _ assms(4,5)] assms(3) by (simp add: ReadSeqFromFile_def seq_synced_def SEQ_INCREMENT_def)
  next
    case (behind b)
    define h' where "h' = WriteEventSeqToFile (scOps c) P ?b h"
    have "foOpen (scOps c) ?b" using assms(1) by (simp add: fs_works_def)
    from WriteEventSeqToFile_effect [OF this assms(4,5) pl(2) h'_def [symmetric]] obtain f where
      w: "h' = fs_put ?b f (hd h) # h" "persisted ?b P (hd h')" "plain_file ?b (hd h')" by blast
    have "ReadSeqFromFile c ld h = Some (P, h')"
      using rd [OF behind(2) assms(4,5)] behind(3) by (simp add: ReadSeqFromFile_def h'_def SEQ_INCREMENT_def)
    moreover have "seq_synced c P (hd h')"
      using w behind(1,2) pl(1) by (simp add: seq_synced_def seq_disk_def persisted_put)
    ultimately show ?thesis using w(1) by auto
  qed
qed

section \<open>Runs\<close>

text \<open>
  The store over its life: files, the manager while the process runs, and all numbers that were
  given out. A start and the numbering of an event can be cut off at any state on their way.
\<close>

type_synonym seq_state = "file_system \<times> seq_mgr option \<times> int list"

inductive seq_step :: "store_ctx \<Rightarrow> file_loader \<Rightarrow> bool \<Rightarrow> (history \<Rightarrow> history) \<Rightarrow> seq_state \<Rightarrow> seq_state \<Rightarrow> bool"
  for c ld isOversea restore where
  start: "SysEventSequenceManager c ld isOversea restore [fs] = Some (m, h) \<Longrightarrow>
    seq_step c ld isOversea restore (fs, None, ns) (hd h, Some m, ns)"
| start_cut: "SysEventSequenceManager c ld isOversea restore [fs] = Some (m, h) \<Longrightarrow> fs' \<in> set h \<Longrightarrow>
    seq_step c ld isOversea restore (fs, None, ns) (fs', None, ns)"
| event: "number_event c m [fs] = (n, m', h) \<Longrightarrow>
    seq_step c ld isOversea restore (fs, Some m, ns) (hd h, Some m', ns @ [n])"
| event_cut: "number_event c m [fs] = (n, m', h) \<Longrightarrow> fs' \<in> set h \<Longrightarrow>
    seq_step c ld isOversea restore (fs, Some m, ns) (fs', None, ns @ [n])"
| stop: "seq_step c ld isOversea restore (fs, Some m, ns) (fs, None, ns)"

text \<open>All numbers are in order, and the next start is above them.\<close>

definition seq_inv :: "store_ctx \<Rightarrow> int \<Rightarrow> seq_state \<Rightarrow> bool" where
  "seq_inv c bound s \<longleftrightarrow> (case s of (fs, mo, ns) \<Rightarrow>
     sorted_wrt (<) ns \<and> (\<forall>n \<in> set ns. 0 < n) \<and>
     (\<exists>P. 0 \<le> P \<and> P \<le> bound \<and>
       (case mo of
          None \<Rightarrow> seq_disk c P fs \<and> (\<forall>n \<in> set ns. n < P + SEQ_INCREMENT)
        | Some m \<Rightarrow> seq_synced c P fs \<and> SEQ_INCREMENT \<le> P \<and> 0 \<le> smSetCount m \<and>
            smCurSeq m = P + smSetCount m mod SEQ_INCREMENT \<and> (\<forall>n \<in> set ns. n < smCurSeq m))))"

lemma seq_inv_off:
  "seq_inv c bound (fs, None, ns) \<longleftrightarrow> sorted_wrt (<) ns \<and> (\<forall>n \<in> set ns. 0 < n) \<and>
    (\<exists>P. 0 \<le> P \<and> P \<le> bound \<and> seq_disk c P fs \<and> (\<forall>n \<in> set ns. n < P + SEQ_INCREMENT))"
  by (simp add: seq_inv_def)

lemma seq_inv_on:
  "seq_inv c bound (fs, Some m, ns) \<longleftrightarrow> sorted_wrt (<) ns \<and> (\<forall>n \<in> set ns. 0 < n) \<and>
    (\<exists>P. 0 \<le> P \<and> P \<le> bound \<and> seq_synced c P fs \<and> SEQ_INCREMENT \<le> P \<and> 0 \<le> smSetCount m \<and>
       smCurSeq m = P + smSetCount m mod SEQ_INCREMENT \<and> (\<forall>n \<in> set ns. n < smCurSeq m))"
  by (simp add: seq_inv_def)

lemma inc_pos: "0 < SEQ_INCREMENT" "k mod SEQ_INCREMENT < SEQ_INCREMENT" "0 \<le> k mod SEQ_INCREMENT"
  by (simp_all add: SEQ_INCREMENT_def)

lemma start_effect:
  assumes "fs_works c" "load_ok ld" "\<And>h. isOversea \<or> restore h = h"
    and "seq_disk c P fs" "0 \<le> P" "P + SEQ_INCREMENT < 2 ^ 63"
  shows "\<exists>m h. SysEventSequenceManager c ld isOversea restore [fs] = Some (m, h) \<and> seq_synced c (P + SEQ_INCREMENT) (hd h) \<and>
    smCurSeq m = P + SEQ_INCREMENT \<and> smSetCount m = 0 \<and>
    (\<forall>fs' \<in> set h. seq_disk c P fs' \<or> seq_disk c (P + SEQ_INCREMENT) fs')"
proof -
  have P: "P < 2 ^ 63" using assms(6) by (simp add: SEQ_INCREMENT_def)
  have "hd [fs] = fs" by simp
  from ReadSeqFromFile_effect [OF assms(1,2), of P "[fs]"] assms(4,5) P obtain h1 where
    r: "ReadSeqFromFile c ld [fs] = Some (P, h1)" "seq_synced c P (hd h1)" "h1 = [fs] \<or> h1 = hd h1 # [fs]" by auto
  define h2 where "h2 = WriteSeqToFile c (P + SEQ_INCREMENT) h1"
  from WriteSeqToFile_effect [OF assms(1) r(2) assms(5,6) h2_def [symmetric]] obtain fs1 where
    w: "seq_synced c (P + SEQ_INCREMENT) (hd h2)" "h2 = hd h2 # fs1 # h1" "seq_disk c (P + SEQ_INCREMENT) fs1" by blast
  have "set h1 \<subseteq> {hd h1, fs}" using r(3) by (metis empty_set list.simps(15) list.sel(1) order_refl insert_absorb2 subset_insertI)
  then have "\<forall>fs' \<in> set h2. fs' \<in> {hd h2, fs1, hd h1, fs}" using w(2) by (metis insert_iff list.simps(15) subset_iff empty_iff)
  then have "\<forall>fs' \<in> set h2. seq_disk c P fs' \<or> seq_disk c (P + SEQ_INCREMENT) fs'"
    using seq_synced_disk [OF w(1)] seq_synced_disk [OF r(2)] w(3) assms(4) by auto
  moreover have "SysEventSequenceManager c ld isOversea restore [fs] =
      Some (\<lparr>smCurSeq = P + SEQ_INCREMENT, smStartSeq = P + SEQ_INCREMENT, smSetCount = 0\<rparr>, h2)"
    using assms(3) [of "[fs]"] r(1) by (auto simp: SysEventSequenceManager_def h2_def Let_def)
  ultimately show ?thesis using w(1) by auto
qed

lemma seq_mod:
  "(k + 1) mod SEQ_INCREMENT \<noteq> 0 \<Longrightarrow> (k + 1) mod SEQ_INCREMENT = k mod SEQ_INCREMENT + 1"
  "(k + 1) mod SEQ_INCREMENT = 0 \<Longrightarrow> k mod SEQ_INCREMENT = SEQ_INCREMENT - 1"
proof -
  have r: "0 \<le> k mod SEQ_INCREMENT" "k mod SEQ_INCREMENT < SEQ_INCREMENT" by (simp_all add: SEQ_INCREMENT_def)
  have "(k + 1) mod SEQ_INCREMENT = (k mod SEQ_INCREMENT + 1) mod SEQ_INCREMENT" by (simp add: mod_add_left_eq)
  also have "\<dots> = (if k mod SEQ_INCREMENT = SEQ_INCREMENT - 1 then 0 else k mod SEQ_INCREMENT + 1)" using r by auto
  finally have e: "(k + 1) mod SEQ_INCREMENT = (if k mod SEQ_INCREMENT = SEQ_INCREMENT - 1 then 0 else k mod SEQ_INCREMENT + 1)" .
  show "(k + 1) mod SEQ_INCREMENT \<noteq> 0 \<Longrightarrow> (k + 1) mod SEQ_INCREMENT = k mod SEQ_INCREMENT + 1"
    using e by (simp split: if_splits)
  show "(k + 1) mod SEQ_INCREMENT = 0 \<Longrightarrow> k mod SEQ_INCREMENT = SEQ_INCREMENT - 1"
    using e r(1) by (cases "k mod SEQ_INCREMENT = SEQ_INCREMENT - 1") simp_all
qed

lemma number_effect:
  assumes "fs_works c" "seq_synced c P fs" "SEQ_INCREMENT \<le> P" "P + SEQ_INCREMENT < 2 ^ 63" "0 \<le> smSetCount m"
    and "smCurSeq m = P + smSetCount m mod SEQ_INCREMENT" "number_event c m [fs] = (n, m', h)"
  shows "n = smCurSeq m \<and> smCurSeq m' = n + 1 \<and> smSetCount m' = smSetCount m + 1 \<and>
    (\<exists>P' \<in> {P, P + SEQ_INCREMENT}. seq_synced c P' (hd h) \<and> smCurSeq m' = P' + smSetCount m' mod SEQ_INCREMENT) \<and>
    (\<forall>fs' \<in> set h. seq_disk c P fs' \<or> seq_disk c (P + SEQ_INCREMENT) fs')"
proof (cases "(smSetCount m + 1) mod SEQ_INCREMENT = 0")
  case False
  then have "smCurSeq m + 1 = P + (smSetCount m + 1) mod SEQ_INCREMENT"
    using assms(6) seq_mod(1) by simp
  moreover have "h = [fs]" "n = smCurSeq m" "m' = m\<lparr>smCurSeq := smCurSeq m + 1, smSetCount := smSetCount m + 1\<rparr>"
    using assms(7) False by (auto simp: number_event_def SetSequence_def Let_def)
  ultimately show ?thesis using assms(2) seq_synced_disk by auto
next
  case True
  then have cur: "smCurSeq m + 1 = P + SEQ_INCREMENT" using assms(6) seq_mod(2) by simp
  have r: "h = WriteSeqToFile c (P + SEQ_INCREMENT) [fs]" "n = smCurSeq m"
    "m' = m\<lparr>smCurSeq := smCurSeq m + 1, smSetCount := smSetCount m + 1\<rparr>"
    using assms(7) True cur by (auto simp: number_event_def SetSequence_def Let_def)
  have s: "seq_synced c P (hd [fs])" "0 \<le> P" using assms(2,3) by (simp_all add: SEQ_INCREMENT_def)
  from WriteSeqToFile_effect [OF assms(1) s assms(4) r(1) [symmetric]] obtain fs1 where
    w: "seq_synced c (P + SEQ_INCREMENT) (hd h)" "h = hd h # fs1 # [fs]" "seq_disk c (P + SEQ_INCREMENT) fs1" by blast
  have "set h = {hd h, fs1, fs}" using w(2) by (metis empty_set list.simps(15))
  then show ?thesis using w seq_synced_disk [OF w(1)] seq_synced_disk [OF assms(2)] cur r True by auto
qed

lemma start_inv:
  assumes c: "fs_works c" "load_ok ld" "\<And>h. isOversea \<or> restore h = h" and b: "bound + 2 * SEQ_INCREMENT < 2 ^ 63"
    and i: "seq_inv c bound (fs, None, ns)" and s: "SysEventSequenceManager c ld isOversea restore [fs] = Some (m, h)"
  shows "seq_inv c (bound + SEQ_INCREMENT) (hd h, Some m, ns)" "fs' \<in> set h \<Longrightarrow> seq_inv c (bound + SEQ_INCREMENT) (fs', None, ns)"
proof -
  obtain P where P: "0 \<le> P" "P \<le> bound" "seq_disk c P fs" "\<forall>n \<in> set ns. n < P + SEQ_INCREMENT"
    and ns: "sorted_wrt (<) ns" "\<forall>n \<in> set ns. 0 < n" using i unfolding seq_inv_off by blast
  note pos = inc_pos(1)
  have "P + SEQ_INCREMENT < 2 ^ 63" using P(2) b pos by linarith
  from start_effect [OF c P(3,1) this] s have e: "seq_synced c (P + SEQ_INCREMENT) (hd h)" "smCurSeq m = P + SEQ_INCREMENT"
    "smSetCount m = 0" "\<forall>fs' \<in> set h. seq_disk c P fs' \<or> seq_disk c (P + SEQ_INCREMENT) fs'" by auto
  show "seq_inv c (bound + SEQ_INCREMENT) (hd h, Some m, ns)"
    unfolding seq_inv_on using e P ns pos by (intro conjI exI [of _ "P + SEQ_INCREMENT"]) simp_all
  assume "fs' \<in> set h"
  then consider "seq_disk c P fs'" | "seq_disk c (P + SEQ_INCREMENT) fs'" using e(4) by blast
  then show "seq_inv c (bound + SEQ_INCREMENT) (fs', None, ns)"
  proof cases
    case 1
    then show ?thesis unfolding seq_inv_off using P ns pos by (intro conjI exI [of _ P]) simp_all
  next
    case 2
    then show ?thesis unfolding seq_inv_off using P ns pos by (intro conjI exI [of _ "P + SEQ_INCREMENT"]) fastforce+
  qed
qed

lemma number_inv:
  assumes c: "fs_works c" and b: "bound + 2 * SEQ_INCREMENT < 2 ^ 63"
    and i: "seq_inv c bound (fs, Some m, ns)" and s: "number_event c m [fs] = (n, m', h)"
  shows "seq_inv c (bound + SEQ_INCREMENT) (hd h, Some m', ns @ [n])"
    "fs' \<in> set h \<Longrightarrow> seq_inv c (bound + SEQ_INCREMENT) (fs', None, ns @ [n])"
proof -
  obtain P where P: "0 \<le> P" "P \<le> bound" "seq_synced c P fs" "SEQ_INCREMENT \<le> P" "0 \<le> smSetCount m"
      "smCurSeq m = P + smSetCount m mod SEQ_INCREMENT" "\<forall>n \<in> set ns. n < smCurSeq m"
    and ns: "sorted_wrt (<) ns" "\<forall>n \<in> set ns. 0 < n" using i unfolding seq_inv_on by blast
  note pos = inc_pos(1) inc_pos(2,3) [of "smSetCount m"]
  have "P + SEQ_INCREMENT < 2 ^ 63" using P(2) b pos by linarith
  note e = number_effect [OF c P(3,4) this P(5,6) s]
  then obtain P' where P': "P' \<in> {P, P + SEQ_INCREMENT}" "seq_synced c P' (hd h)" "smCurSeq m' = P' + smSetCount m' mod SEQ_INCREMENT"
    by blast
  have n: "n = smCurSeq m" "smCurSeq m' = n + 1" "smSetCount m' = smSetCount m + 1" using e by blast+
  have np: "0 < n" "n < P + SEQ_INCREMENT" using n(1) P(1,4,6) pos by linarith+
  have srt: "sorted_wrt (<) (ns @ [n])" "\<forall>k \<in> set (ns @ [n]). 0 < k" "\<forall>k \<in> set (ns @ [n]). k \<le> n"
    using ns P(7) n(1) np by (auto simp: sorted_wrt_append)
  have le: "0 \<le> P'" "P' \<le> bound + SEQ_INCREMENT" "SEQ_INCREMENT \<le> P'" using P'(1) P(1,2,4) pos(1) by auto
  show "seq_inv c (bound + SEQ_INCREMENT) (hd h, Some m', ns @ [n])"
    unfolding seq_inv_on using srt P' le n P(5) by (intro conjI exI [of _ P']) auto
  assume "fs' \<in> set h"
  then obtain Q where Q: "Q \<in> {P, P + SEQ_INCREMENT}" "seq_disk c Q fs'" using e by blast
  have "\<forall>k \<in> set (ns @ [n]). k < Q + SEQ_INCREMENT" using srt(3) np(2) Q(1) pos(1) by auto
  moreover have "0 \<le> Q" "Q \<le> bound + SEQ_INCREMENT" using Q(1) P(1,2) pos(1) by auto
  ultimately show "seq_inv c (bound + SEQ_INCREMENT) (fs', None, ns @ [n])"
    unfolding seq_inv_off using srt(1,2) Q(2) by (intro conjI exI [of _ Q])
qed

lemma stop_inv:
  assumes "seq_inv c bound (fs, Some m, ns)"
  shows "seq_inv c (bound + SEQ_INCREMENT) (fs, None, ns)"
proof -
  obtain P where P: "0 \<le> P" "P \<le> bound" "seq_synced c P fs" "smCurSeq m = P + smSetCount m mod SEQ_INCREMENT"
      "\<forall>n \<in> set ns. n < smCurSeq m" and ns: "sorted_wrt (<) ns" "\<forall>n \<in> set ns. 0 < n"
    using assms unfolding seq_inv_on by blast
  note pos = inc_pos(1) inc_pos(2,3) [of "smSetCount m"]
  have "\<forall>n \<in> set ns. n < P + SEQ_INCREMENT" using P(4,5) pos by fastforce
  moreover have "P \<le> bound + SEQ_INCREMENT" using P(2) pos by linarith
  ultimately show ?thesis unfolding seq_inv_off using ns P(1) seq_synced_disk [OF P(3)] by (intro conjI exI [of _ P])
qed

lemma seq_step_inv:
  assumes c: "fs_works c" "load_ok ld" "\<And>h. isOversea \<or> restore h = h"
    and b: "bound + 2 * SEQ_INCREMENT < 2 ^ 63" and i: "seq_inv c bound s" and s: "seq_step c ld isOversea restore s s'"
  shows "seq_inv c (bound + SEQ_INCREMENT) s'"
  using s
proof cases
  case start
  then show ?thesis using start_inv(1) [OF c b] i by simp
next
  case start_cut
  then show ?thesis using start_inv(2) [OF c b] i by simp
next
  case event
  then show ?thesis using number_inv(1) [OF c(1) b] i by simp
next
  case event_cut
  then show ?thesis using number_inv(2) [OF c(1) b] i by simp
next
  case stop
  then show ?thesis using stop_inv i by simp
qed

lemma seq_runs_inv:
  assumes c: "fs_works c" "load_ok ld" "\<And>h. isOversea \<or> restore h = h" and i: "seq_inv c 0 s"
  shows "(seq_step c ld isOversea restore ^^ n) s s' \<Longrightarrow> int n \<le> 2 ^ 50 \<Longrightarrow> seq_inv c (int n * SEQ_INCREMENT) s'"
proof (induction n arbitrary: s')
  case (Suc n)
  then obtain s1 where s1: "(seq_step c ld isOversea restore ^^ n) s s1" "seq_step c ld isOversea restore s1 s'" by auto
  have "int n * SEQ_INCREMENT + 2 * SEQ_INCREMENT < 2 ^ 63" using Suc.prems(2) by (simp add: SEQ_INCREMENT_def)
  from seq_step_inv [OF c this Suc.IH [OF s1(1)] s1(2)] Suc.prems(2) show ?case by (simp add: algebra_simps)
qed (use i in simp)

end
