(* ===== verification/Doc_Sizes.thy ===== *)
theory Doc_Sizes
  imports Doc_Store_Live
begin

text \<open>
  How much an insertion lets the files grow, so that a bound on the number of insertions bounds the
  files.
\<close>

section \<open>Sizes\<close>

text \<open>How much a file can grow: a header, the rest of a page and a block.\<close>

definition fs_within :: "nat \<Rightarrow> file_system \<Rightarrow> file_system \<Rightarrow> bool" where
  "fs_within n fs fs' \<longleftrightarrow> (\<forall>p f'. fs_file fs' p = Some f' \<longrightarrow> length f' \<le> n + GetFileSize fs p)"

lemma fs_within_trans: "fs_within m a b \<Longrightarrow> fs_within n b c \<Longrightarrow> fs_within (n + m) a c"
  by (fastforce simp: fs_within_def GetFileSize_def split: option.splits)

lemma fs_within_mono: "fs_within m a b \<Longrightarrow> m \<le> n \<Longrightarrow> fs_within n a b"
  by (fastforce simp: fs_within_def)

lemma fs_within_refl [simp]: "fs_within n fs fs"
  by (simp add: fs_within_def GetFileSize_def)

lemma fs_within_creates: "fsFiles fs' = fsFiles fs \<Longrightarrow> fs_within 0 fs fs'"
  by (simp add: fs_within_def GetFileSize_def fs_file_def)

lemma FillCurrPageWithZero_length: "length (snd (FillCurrPageWithZero al k f)) \<le> length f + MAX_NEW_SIZE"
  by (auto simp: FillCurrPageWithZero_def split: option.splits)

lemma WriteContent_length:
  assumes "GetContentSize ev = Inr n"
  shows "length (snd (WriteContent ev n f)) \<le> length f + 16 + MAX_NEW_SIZE"
  using assms by (auto simp: WriteContent_def content_bytes_def GetContentSize_def Let_def split: option.splits if_splits)

lemma WriteHeader_length:
  assumes "env_ok env"
  shows "length (snd (snd (WriteHeader env ev n w f))) \<le> length f + 2300"
proof -
  have v: "length (weSysVersion env) \<le> 1000" "length (wePatchVersion env) \<le> 1000"
    using assms by (simp_all add: env_ok_def version_ok_def MAX_VERSION_LENG_def)
  have hb: "length (doc_header_bytes (new_doc_header env ev k)) \<le> 200" for k
    by (simp add: doc_header_bytes_def new_doc_header_def length_tag_field doc_const_defs)
  show ?thesis
  proof (cases "unat (wePageSize env (seType ev)) = 0")
    case False
    then show ?thesis using v hb [of "if n > u32_mul (unat (wePageSize env (seType ev))) NUM_OF_BYTES_IN_KB then 0 else unat (wePageSize env (seType ev))"]
      by (simp add: WriteHeader_def Let_def version_bytes_def)
  qed (simp add: WriteHeader_def)
qed

lemma Write_next_length:
  assumes n: "GetContentSize ev = Inr n"
  shows "length (snd (snd (Write_next al stk env r ev n w f))) \<le> length f + 16 + 2 * MAX_NEW_SIZE"
proof -
  have "length (snd (WriteContent ev n (snd (FillCurrPageWithZero al k f)))) \<le> length f + 16 + 2 * MAX_NEW_SIZE" for k
    using WriteContent_length [OF n, of "snd (FillCurrPageWithZero al k f)"] FillCurrPageWithZero_length [of al k f] by linarith
  moreover have "length (snd (WriteContent ev n f)) \<le> length f + 16 + 2 * MAX_NEW_SIZE"
    using WriteContent_length [OF n, of f] by linarith
  moreover have "length (snd (FillCurrPageWithZero al k f)) \<le> length f + 16 + 2 * MAX_NEW_SIZE" for k
    using FillCurrPageWithZero_length [of al k f] by linarith
  ultimately show ?thesis by (simp add: Write_next_def Let_def case_prod_beta)
qed

lemma Write_length:
  assumes "env_ok env"
  shows "length (snd (snd (Write al stk env path (Some ev) w f))) \<le> length f + 800000"
proof (cases "GetContentSize ev")
  case (Inr n)
  let ?f1 = "snd (snd (WriteHeader env ev n w f))"
  have M: "16 + 2 * MAX_NEW_SIZE \<le> 800000" "2300 + 16 + MAX_NEW_SIZE \<le> 800000" by (simp_all add: MAX_NEW_SIZE_def)
  have "length ?f1 \<le> length f + 800000" using WriteHeader_length [OF assms, of ev n w f] by simp
  moreover have "length (snd (WriteContent ev n ?f1)) \<le> length f + 800000"
    using WriteContent_length [OF Inr, of ?f1] WriteHeader_length [OF assms, of ev n w f] M(2) by linarith
  moreover have "length (snd (snd (Write_next al stk env r ev n w f))) \<le> length f + 800000" for r
    using Write_next_length [OF Inr, of al stk env r w f] M(1) by linarith
  ultimately show ?thesis using Inr by (simp add: Write_def Let_def case_prod_beta)
qed (simp add: Write_def)

lemma writer_Write_within:
  assumes "env_ok (ctx_env c)" "writer_Write c pw ev fs = (ret, pw', fs')"
  shows "fs_within 800000 fs fs'"
proof (cases "fs_file fs (fst pw)")
  case None
  then show ?thesis using assms(2) by (simp add: writer_Write_def)
next
  case (Some f)
  let ?f1 = "snd (snd (Write (scAlloc c) (scStack c) (ctx_env c) (fst pw) (Some ev) (snd pw) f))"
  have "fs' = fs_put (fst pw) ?f1 fs" using assms(2) Some by (simp add: writer_Write_def case_prod_beta)
  moreover have "length ?f1 \<le> length f + 800000" by (rule Write_length [OF assms(1)])
  ultimately show ?thesis using Some by (auto simp: fs_within_def GetFileSize_def)
qed


lemma fs_within_0_file: "(\<And>q. q \<noteq> p \<Longrightarrow> fs_file fs' q = fs_file fs q) \<Longrightarrow> fs_file fs p = None \<Longrightarrow> fs_file fs' p = Some [] \<Longrightarrow>
    fs_within 0 fs fs'"
  unfolding fs_within_def GetFileSize_def by (metis le0 add.left_neutral list.size(3) option.inject option.simps(5) order_refl)

lemma SysEventDocWriter_within: "SysEventDocWriter c p fs = (pw, fs') \<Longrightarrow> fs_within 0 fs fs'"
  by (auto simp: SysEventDocWriter_def intro!: fs_within_0_file [of p] split: if_splits)

lemma CreateCurFile_within: "CreateCurFile c dir ev d fs = (ret, d', fs') \<Longrightarrow> fs_within 0 fs fs'"
  by (auto simp: CreateCurFile_def CreateFile_def FileExists_def Let_def intro!: fs_within_0_file split: if_splits)

lemma GetDir_within: "GetDir c d fs = (dir, fs') \<Longrightarrow> fs_within 0 fs fs'"
  by (cases "ForceCreateDirectory (scOps c) (scDbDir c @ sdDomain d) fs")
    (use ForceCreateDirectory_files [of "scOps c" "scDbDir c @ sdDomain d" fs] in
      \<open>auto simp: GetDir_def Let_def simp del: ForceCreateDirectory_files intro!: fs_within_creates split: if_splits\<close>)

lemma UpdateCurFile_within: "UpdateCurFile c ev d fs = (ret, d', fs') \<Longrightarrow> fs_within 0 fs fs'"
  by (auto simp: UpdateCurFile_def Let_def split: prod.splits if_splits dest!: GetDir_within CreateCurFile_within
      dest: fs_within_trans [where m = 0 and n = 0])

lemma InitWriter_within: "InitWriter c ev d fs = (ret, d', fs') \<Longrightarrow> fs_within 0 fs fs'"
  by (auto simp: InitWriter_def split: prod.splits if_splits dest!: UpdateCurFile_within SysEventDocWriter_within
      dest: fs_within_trans [where m = 0 and n = 0])


lemma Insert_doc_within:
  assumes e: "env_ok (ctx_env c)" and i: "Insert_doc c (Some ev) d fs = (ret, d', fs')"
  shows "fs_within 1600000 fs fs'"
proof -
  obtain r1 d1 fs1 where 1: "InitWriter c ev d fs = (r1, d1, fs1)" by (cases "InitWriter c ev d fs") auto
  obtain r2 pw fs2 where 2: "writer_Write c (the (sdWriter d1)) ev fs1 = (r2, pw, fs2)"
    by (cases "writer_Write c (the (sdWriter d1)) ev fs1") auto
  obtain dir fs3 where 3: "GetDir c (d1\<lparr>sdWriter := Some pw\<rparr>) fs2 = (dir, fs3)"
    by (cases "GetDir c (d1\<lparr>sdWriter := Some pw\<rparr>) fs2") auto
  obtain r4 d3 fs4 where 4: "CreateCurFile c dir ev (d1\<lparr>sdWriter := Some pw\<rparr>) fs3 = (r4, d3, fs4)"
    by (cases "CreateCurFile c dir ev (d1\<lparr>sdWriter := Some pw\<rparr>) fs3") auto
  obtain pw2 fs5 where 5: "SysEventDocWriter c (sdCurFile d3) fs4 = (pw2, fs5)"
    by (cases "SysEventDocWriter c (sdCurFile d3) fs4") auto
  obtain r6 pw3 fs6 where 6: "writer_Write c pw2 ev fs5 = (r6, pw3, fs6)" by (cases "writer_Write c pw2 ev fs5") auto
  have w2: "fs_within 800000 fs fs2"
    using fs_within_trans [OF InitWriter_within [OF 1] writer_Write_within [OF e 2]] by simp
  have w4: "fs_within 800000 fs fs4"
    using fs_within_trans [OF fs_within_trans [OF w2 GetDir_within [OF 3]] CreateCurFile_within [OF 4]] by simp
  have w6: "fs_within 1600000 fs fs6"
    using fs_within_trans [OF fs_within_trans [OF w4 SysEventDocWriter_within [OF 5]] writer_Write_within [OF e 6]] by simp
  have "fs' \<in> {fs1, fs2, fs4, fs6}"
    using i 1 2 3 4 5 6 by (auto simp: Insert_doc_def Let_def split: if_splits)
  then show ?thesis
    using w6 fs_within_mono [OF InitWriter_within [OF 1]] fs_within_mono [OF w2] fs_within_mono [OF w4] by auto
qed

lemma Insert_db_within:
  assumes "env_ok (ctx_env c)" "Insert_db c ev cache fs = (ret, cache', fs')"
  shows "fs_within 1600000 fs fs'"
  using assms(2) Insert_doc_within [OF assms(1)] by (fastforce simp: Insert_db_take split: prod.splits)

lemma insert_all_within:
  assumes "env_ok (ctx_env c)" "insert_all c evs cache fs = (rets, cache', fs')"
  shows "fs_within (1600000 * length evs) fs fs'"
  using assms(2)
proof (induction evs arbitrary: rets cache fs)
  case (Cons ev evs)
  obtain ret cache1 fs1 rs where i: "Insert_db c ev cache fs = (ret, cache1, fs1)"
    and rest: "insert_all c evs cache1 fs1 = (rs, cache', fs')"
    using Cons.prems by (auto split: prod.splits)
  show ?case using fs_within_trans [OF Insert_db_within [OF assms(1) i] Cons.IH [OF rest]] by (simp add: algebra_simps)
qed simp

lemma insert_all_bounded:
  assumes "env_ok (ctx_env c)" "insert_all c evs cache fs = (rets, cache', fs')" "fsFiles fs = []" "length evs \<le> 1000"
  shows "fs_bounded fs'"
proof -
  have "GetFileSize fs p = 0" for p using assms(3) by (simp add: GetFileSize_def fs_file_def)
  then have "length f \<le> 1600000 * length evs" if "fs_file fs' p = Some f" for p f
    using insert_all_within [OF assms(1,2)] that unfolding fs_within_def by fastforce
  then have "length f \<le> 1600000 * 1000" if "fs_file fs' p = Some f" for p f
    using that assms(4) by (meson mult_le_mono2 order_trans)
  then show ?thesis unfolding fs_bounded_def by fastforce
qed

end
