(* ===== verification/Query_Results.thy ===== *)
theory Query_Results
  imports Db_Clear
begin

text \<open>
  What a query reads and returns: the files that the choice by name, type, sequence number and
  interval leaves, and the records that \<open>Execute\<close> puts into its result set and hands out.
\<close>

section \<open>The choice of files\<close>

definition query_info :: "string \<Rightarrow> splited_event_info option" where
  "query_info f = ParseEventInfoFromDbFileName (after_slash f) new_splited_info
     (NAME_ONLY OR TYPE_ONLY OR SEQ_ONLY OR REPORT_INTERVAL_ONLY)"

text \<open>The restrictions of a query on the name of a file, but for the lower end of sequence numbers.\<close>

definition arg_matches :: "query_arg \<Rightarrow> splited_event_info \<Rightarrow> bool" where
  "arg_matches a info \<longleftrightarrow> (qaNames a = [] \<or> siName info \<in> set (qaNames a)) \<and>
     (qaType a = 0 \<or> unat (siType info) = qaType a) \<and>
     (qaToSeq a = INVALID_VALUE_INT \<or> siSeq info < qaToSeq a) \<and>
     (qaReportInterval a = DEFAULT_REPORT_INTERVAL \<or> siReportInterval info = NOT_CFG_REPORT_INTERVAL \<or>
      qaReportInterval a = siReportInterval info)"

definition restricts :: "query_arg \<Rightarrow> bool" where
  "restricts a \<longleftrightarrow> \<not> (qaNames a = [] \<and> qaType a = 0 \<and> qaToSeq a = INVALID_VALUE_INT)"

text \<open>A file is read unless a newer file of its name starts at or below the lower end.\<close>

definition reached :: "query_arg \<Rightarrow> string list \<Rightarrow> string \<Rightarrow> bool" where
  "reached a newer nm \<longleftrightarrow>
     (\<forall>g \<in> set newer. \<forall>i. query_info g = Some i \<longrightarrow> siName i = nm \<longrightarrow> siSeq i > qaFromSeq a)"

lemma IsContainQueryArg_restricts:
  assumes "restricts a"
  shows "IsContainQueryArg f a m =
    (case query_info f of
       None \<Rightarrow> (False, m)
     | Some info \<Rightarrow>
         if (case m (siName info) of None \<Rightarrow> False | Some sq \<Rightarrow> sq \<le> qaFromSeq a) then (False, m)
         else (arg_matches a info, m(siName info \<mapsto> siSeq info)))"
  using assms
  by (auto simp: IsContainQueryArg_def query_info_def arg_matches_def restricts_def list_ex_iff Let_def split: option.split)

text \<open>The map remembers, for each name, whether one of its files was at or below the lower end.\<close>

definition map_tracks :: "query_arg \<Rightarrow> string list \<Rightarrow> (string \<rightharpoonup> int) \<Rightarrow> bool" where
  "map_tracks a seen m \<longleftrightarrow> (\<forall>nm. (\<exists>sq. m nm = Some sq \<and> sq \<le> qaFromSeq a) \<longleftrightarrow> \<not> reached a seen nm)"

lemma map_tracks_step:
  assumes "restricts a" "map_tracks a seen m" "IsContainQueryArg f a m = (b, m')"
  shows "map_tracks a (seen @ [f]) m'"
    "b \<longleftrightarrow> (\<exists>info. query_info f = Some info \<and> arg_matches a info \<and> reached a seen (siName info))"
proof -
  have "map_tracks a (seen @ [f]) m' \<and>
    (b \<longleftrightarrow> (\<exists>info. query_info f = Some info \<and> arg_matches a info \<and> reached a seen (siName info)))"
  proof (cases "query_info f")
    case None
    then show ?thesis using assms by (auto simp: IsContainQueryArg_restricts map_tracks_def reached_def)
  next
    case (Some info)
    have tr: "(\<exists>sq. m nm = Some sq \<and> sq \<le> qaFromSeq a) \<longleftrightarrow> \<not> reached a seen nm" for nm
      using assms(2) by (simp add: map_tracks_def)
    have snoc: "reached a (seen @ [f]) nm \<longleftrightarrow> reached a seen nm \<and> (siName info = nm \<longrightarrow> siSeq info > qaFromSeq a)" for nm
      using Some by (auto simp: reached_def)
    show ?thesis
    proof (cases "reached a seen (siName info)")
      case True
      then have "\<not> (case m (siName info) of None \<Rightarrow> False | Some sq \<Rightarrow> sq \<le> qaFromSeq a)"
        using tr [of "siName info"] by (auto split: option.split)
      then have "b = arg_matches a info" "m' = m(siName info \<mapsto> siSeq info)"
        using assms(3) Some by (simp_all add: IsContainQueryArg_restricts [OF assms(1)])
      then show ?thesis using Some True tr snoc by (auto simp: map_tracks_def)
    next
      case False
      then have "case m (siName info) of None \<Rightarrow> False | Some sq \<Rightarrow> sq \<le> qaFromSeq a"
        using tr [of "siName info"] by (auto split: option.split)
      then have "\<not> b" "m' = m" using assms(3) Some by (simp_all add: IsContainQueryArg_restricts [OF assms(1)])
      then show ?thesis using Some False tr snoc by (auto simp: map_tracks_def)
    qed
  qed
  then show "map_tracks a (seen @ [f]) m'"
    "b \<longleftrightarrow> (\<exists>info. query_info f = Some info \<and> arg_matches a info \<and> reached a seen (siName info))" by auto
qed

text \<open>The loop over the files with its map chooses what the restrictions say.\<close>

fun chosen :: "query_arg \<Rightarrow> string list \<Rightarrow> string list \<Rightarrow> string list" where
  "chosen a newer [] = []"
| "chosen a newer (f # fl) =
     (if \<exists>info. query_info f = Some info \<and> arg_matches a info \<and> reached a newer (siName info) then [f] else []) @
     chosen a (newer @ [f]) fl"

lemma query_files_chosen:
  assumes "restricts a"
  shows "map_tracks a seen m \<Longrightarrow> query_files_of a fl m = chosen a seen fl"
proof (induction fl arbitrary: seen m)
  case (Cons f fl)
  obtain b m' where r: "IsContainQueryArg f a m = (b, m')" by (cases "IsContainQueryArg f a m")
  note st = map_tracks_step [OF assms Cons.prems r]
  show ?case using Cons.IH [OF st(1)] st(2) r by simp
qed simp

lemma query_files_of_spec: "restricts a \<Longrightarrow> query_files_of a fl Map.empty = chosen a [] fl"
  by (rule query_files_chosen) (simp_all add: map_tracks_def reached_def)

section \<open>Results\<close>

lemma take_results_take: "take_results ens n = take (nat (n + 1)) ens"
  by (induction ens n rule: take_results.induct) (auto simp: nat_add_distrib take_Cons' nat_diff_distrib)

definition entry_key :: "sys_event_query \<Rightarrow> entry \<Rightarrow> int" where
  "entry_key q en =
     (let k = (if fst (sqOrderCol q) = ''time_'' then sint (enTs en) else sint (enId en)) in
      if snd (sqOrderCol q) then k else - k)"

interpretation answers: key_order "CreateCompareFunc q" "\<lambda>en. - entry_key q en" for q
  by unfold_locales (auto simp: CreateCompareFunc_def entry_key_def CompareTimestampFuncGreater_def CompareTimestampFuncLess_def
      CompareSeqFuncGreater_def CompareSeqFuncLess_def)

text \<open>The records are the first ones of the order that was asked for.\<close>

lemma results_sorted: "sorted_wrt (\<lambda>a b. entry_key q a \<le> entry_key q b) (pq_pops (CreateCompareFunc q) ens)"
  using answers.pops_sorted [of q ens] by simp

lemma Execute_outcome:
  assumes "Query_db c fs (q\<lparr>sqLimit := limit\<rparr>) [] = Some (Inr (ens, q2))"
  shows "\<exists>rs. Execute c fs limit inner q = Some (Inr (rs, q2)) \<and> rsCode rs = DOC_STORE_SUCCESS \<and>
    (rsHas rs \<longleftrightarrow> ens \<noteq> []) \<and> rsIter rs = 0 \<and>
    rsRecords rs = take (if inner \<and> limit < int (length ens) then nat (limit + 1) else length ens)
      (pq_pops (CreateCompareFunc q) ens)"
proof -
  have cmp: "CreateCompareFunc (q\<lparr>sqLimit := limit\<rparr>) = CreateCompareFunc q" by (simp add: CreateCompareFunc_def)
  show ?thesis
  proof (cases "ens = []")
    case True
    then show ?thesis using assms by (simp add: Execute_def ResultSet_def ResultSet_Set_def pq_pops_def)
  next
    case False
    then show ?thesis
      using assms by (auto simp: Execute_def ResultSet_def ResultSet_Set_def take_results_take cmp Let_def)
  qed
qed

text \<open>Handing out records: as many calls of \<open>Next\<close> as there are records go through all of them.\<close>

fun next_all :: "nat \<Rightarrow> result_set \<Rightarrow> nat list \<times> result_set" where
  "next_all 0 rs = ([], rs)"
| "next_all (Suc n) rs =
     (case ResultSet_Next rs of (i, rs1) \<Rightarrow> (case next_all n rs1 of (is, rs2) \<Rightarrow> (i # is, rs2)))"

lemma next_all_from:
  assumes "rsHas rs" "rsIter rs + n = length (rsRecords rs)" "0 < n"
  shows "fst (next_all n rs) = [rsIter rs ..< rsIter rs + n] \<and> \<not> rsHas (snd (next_all n rs))"
  using assms
proof (induction n arbitrary: rs)
  case (Suc n)
  define rs1 where "rs1 = snd (ResultSet_Next rs)"
  have r: "ResultSet_Next rs = (rsIter rs, rs1)" "rsIter rs1 = rsIter rs + 1" "rsRecords rs1 = rsRecords rs"
    "rsHas rs1 \<longleftrightarrow> n \<noteq> 0"
    using Suc.prems by (auto simp: ResultSet_Next_def rs1_def)
  show ?case
  proof (cases "n = 0")
    case True
    then show ?thesis using r by simp
  next
    case False
    with Suc.prems have "fst (next_all n rs1) = [rsIter rs1 ..< rsIter rs1 + n] \<and> \<not> rsHas (snd (next_all n rs1))"
      using Suc.IH [of rs1] Suc.prems r by (simp del: upt_Suc)
    moreover have "[rsIter rs ..< rsIter rs + Suc n] = rsIter rs # [rsIter rs1 ..< rsIter rs1 + n]"
      using r(2) by (simp add: upt_conv_Cons del: upt_Suc)
    ultimately show ?thesis using r(1) by (simp del: upt_Suc add: case_prod_beta)
  qed
qed simp

end
