(* ===== verification/Store_Samples.thy ===== *)
theory Store_Samples
  imports Doc_Sizes Query_Results
begin

text \<open>A small store for concrete evaluations: one event definition, an empty database directory.\<close>

definition sample_def :: event_def where
  "sample_def = \<lparr>edType = 1, edLevel = ''CRITICAL'', edTag = ''t'', edInterval = 0\<rparr>"

definition sample_config :: "int \<rightharpoonup> store_config" where
  "sample_config = EventStoreConfig_Init (Some [(''FAULT'',
     JsonObject [(''StoreDay'', JsonUInt 1), (''PageSize'', JsonUInt 8), (''MaxFileSize'', JsonUInt 100),
       (''MaxFileNum'', JsonUInt 10), (''MaxSize'', JsonUInt 1)])])"

definition sample_ctx :: store_ctx where
  "sample_ctx = \<lparr>scAlloc = zero_alloc, scStack = (\<lambda>n. replicate n 0),
     scJunk = \<lparr>chSeq = 0, chTimestamp = 0, chTimeZone = 0, chUid = 0, chPid = 0, chTid = 0, chId = 0, chType = 0,
       chIsTraceOpened = 0, chUnused = 0, chLog = 0\<rparr>,
     scSysVersion = ''1'', scPatchVersion = ''2'', scConfig = sample_config, scOps = free_ops, scDbDir = ''/log/db/''\<rparr>"

definition sample_fs :: file_system where
  "sample_fs = \<lparr>fsFiles = [], fsDirs = [''/log/db'', ''/log'']\<rparr>"

definition sample_view :: "i64 \<Rightarrow> event_view" where
  "sample_view sq = \<lparr>evSeq = sq,
     evHeader = \<lparr>hdDomain = padded MAX_DOMAIN_LEN ''KERNEL'', hdName = padded MAX_EVENT_NAME_LEN ''PANIC'', hdTimestamp = 5,
       hdTimeZone = 0, hdUid = 1, hdPid = 2, hdTid = 3, hdId = 4, hdType = 0, hdIsTraceOpened = 0, hdLog = 0\<rparr>,
     evTrace = \<lparr>tiTraceFlag = 0, tiTraceId = 0, tiSpanId = 0, tiPSpanId = 0\<rparr>, evParams = []\<rparr>"

definition sample_event :: "i64 \<Rightarrow> stored_event" where
  "sample_event sq = \<lparr>seDomain = ''KERNEL'', seName = ''PANIC'', seType = 1, seLevel = ''CRITICAL'', seTag = ''t'', seSeq = sq,
     seReportInterval = 0,
     seRaw = Some (block_bytes (evHeader (sample_view sq)) (evTrace (sample_view sq)) (evParams (sample_view sq)))\<rparr>"

lemma sample_page_size: "GetPageSize sample_config ty = (if ty = 1 then 8 else 0)"
  by (simp add: sample_config_def EventStoreConfig_Init_def add_config_def EVENT_TYPE_MAP_def config_of_def
      ParseUint32_def GetPageSize_def)

lemma sample_ctx_ok: "ctx_ok sample_ctx"
proof -
  have "scDbDir sample_ctx = db_dir [''log'', ''db'']" by (simp add: sample_ctx_def db_dir_def)
  moreover have "\<forall>p \<in> set [''log'', ''db'']. path_part p" by (simp add: path_part_def plain_part_def)
  moreover have "env_ok (ctx_env sample_ctx)"
    by (simp add: env_ok_def ctx_env_def sample_ctx_def sample_page_size version_ok_def MAX_VERSION_LENG_def)
  ultimately show ?thesis
    unfolding ctx_ok_def by (auto simp: sample_ctx_def alloc_sized_def alloc_total_def zero_alloc_def)
qed

lemma sample_fs_works: "fs_works sample_ctx"
  by (simp add: fs_works_def sample_ctx_def free_ops_def)

lemma sample_insert_ok:
  assumes "0 < sint sq"
  shows "insert_ok (\<lambda>domain nm. sample_def) (sample_event sq) (sample_view sq)"
proof -
  have "IsValidDomainName ''KERNEL'' MAX_DOMAIN_LEN" "IsValidDomainName ''PANIC'' MAX_EVENT_NAME_LEN" "IsValidType 1"
    by code_simp+
  moreover have h: "header_ok (evHeader (sample_view sq))"
    by (simp add: sample_view_def header_ok_def length_padded MAX_DOMAIN_LEN_def MAX_EVENT_NAME_LEN_def
        MAX_DOMAIN_LENGTH_def MAX_EVENT_NAME_LENGTH_def)
  moreover have "length (block_bytes (evHeader (sample_view sq)) (evTrace (sample_view sq)) (evParams (sample_view sq))) = 89"
    using length_header_bytes [OF h]
    by (simp add: length_block_bytes block_tail_def SIZEOF_HEADER_def) (simp add: sample_view_def params_bytes_def)
  ultimately show ?thesis
    using assms by (simp add: insert_ok_def names_ok_def def_ok_def sample_def_def sample_event_def view_ok_def
        view_names_def MAX_NEW_SIZE_def) (simp add: sample_view_def)
qed

lemma sample_dir_possible: "dir_possible sample_ctx sample_fs ''KERNEL''"
  by code_simp

definition sample_query :: sys_event_query where
  "sample_query = \<lparr>sqLimit = 5, sqOrderCol = ([], False), sqCond = Cond [] OP_NONE (FieldNum (NumInt 0)) [], sqArg = SysEventQueryArg\<rparr>"

lemma sample_fs_empty: "fsFiles sample_fs = []" "distinct (fsDirs sample_fs)" "IsDirectory sample_fs (scDbDir sample_ctx)"
  by code_simp+

lemma sample_events:
  "list_all2 (insert_ok (\<lambda>domain nm. sample_def)) [sample_event 1, sample_event 2] [sample_view 1, sample_view 2]"
  "\<forall>ev \<in> set [sample_event 1, sample_event 2]. has_page sample_ctx ev \<and> dir_possible sample_ctx sample_fs (seDomain ev)"
  "sorted_wrt (<) (map (\<lambda>ev. sint (seSeq ev)) [sample_event 1, sample_event 2])"
  "for_all sample_query" "int (length [sample_event 1, sample_event 2]) < sqLimit sample_query"
  using sample_insert_ok sample_dir_possible
  by (simp_all add: has_page_def sample_event_def sample_ctx_def sample_page_size for_all_def sample_query_def)

text \<open>The run that inserts two events.\<close>

lemma sample_run:
  obtains rets cache' fs' ws ens where
    "insert_all sample_ctx [sample_event 1, sample_event 2] SysEventDatabase sample_fs = (rets, cache', fs')"
    "fs_bounded fs'" "rets = [DOC_STORE_SUCCESS, DOC_STORE_SUCCESS]"
    "Query_db sample_ctx fs' sample_query [] = Some (Inr (ens, sample_query))" "length ens = 2"
proof -
  obtain rets cache' fs' where
    i: "insert_all sample_ctx [sample_event 1, sample_event 2] SysEventDatabase sample_fs = (rets, cache', fs')"
    by (cases "insert_all sample_ctx [sample_event 1, sample_event 2] SysEventDatabase sample_fs")
  have "env_ok (ctx_env sample_ctx)" using sample_ctx_ok by (simp add: ctx_ok_def)
  from insert_all_bounded [OF this i sample_fs_empty(1)] have b: "fs_bounded fs'" by simp
  note r = events_stored_and_found [OF sample_ctx_ok sample_fs_works sample_fs_empty sample_events(1-3) i b sample_events(4,5)]
  then obtain ws ens where q: "Query_db sample_ctx fs' sample_query [] = Some (Inr (ens, sample_query))"
    and l: "list_all2 (found sample_ctx (\<lambda>domain nm. sample_def)) ws ens" "mset ws = mset [sample_view 1, sample_view 2]"
    by blast
  have "length ens = 2" using list_all2_lengthD [OF l(1)] mset_eq_length [OF l(2)] by simp
  then show thesis using that [OF i b _ q] r by (simp add: numeral_2_eq_2)
qed

end
