(* ===== verification/Backup_Samples.thy ===== *)
theory Backup_Samples
  imports Backup_Restore Sequence_Facts Store_Samples
begin

text \<open>A simple archive format that satisfies the laws of the library, and files for concrete evaluations.\<close>

definition escaped :: "byte list \<Rightarrow> byte list" where
  "escaped bs = concat (map (\<lambda>b. [1, b]) bs)"

definition sample_pack :: "(string \<times> byte list) list \<Rightarrow> byte list" where
  "sample_pack es = concat (map (\<lambda>(n, f). escaped (bytes_of_string n) @ [0] @ escaped f @ [2]) es)"

text \<open>Bytes of the current text backwards, the name once it is complete, and the entries backwards.\<close>

function sample_unpack_from :: "byte list \<Rightarrow> byte list \<Rightarrow> byte list option \<Rightarrow> (string \<times> byte list) list \<Rightarrow> (string \<times> byte list) list option" where
  "sample_unpack_from [] acc nm es = (if acc = [] \<and> nm = None then Some (rev es) else None)"
| "sample_unpack_from (x # bs) acc nm es =
     (if x = 1 then (if bs = [] then None else sample_unpack_from (tl bs) (hd bs # acc) nm es)
      else case nm of
             None \<Rightarrow> if x = 0 then sample_unpack_from bs [] (Some (rev acc)) es else None
           | Some n \<Rightarrow> if x = 2 then sample_unpack_from bs [] None ((string_of_bytes n, rev acc) # es) else None)"
  by pat_completeness auto
termination by (relation "measure (\<lambda>(bs, acc, nm, es). length bs)") auto

definition sample_unpack :: "byte list \<Rightarrow> (string \<times> byte list) list option" where
  "sample_unpack bs = sample_unpack_from bs [] None []"

lemma unpack_escaped: "sample_unpack_from (escaped bs @ rest) acc nm es = sample_unpack_from rest (rev bs @ acc) nm es"
  by (induction bs arbitrary: acc) (simp_all add: escaped_def)

lemma sample_unpack_pack: "sample_unpack (sample_pack es) = Some es"
proof -
  have "sample_unpack_from (sample_pack es) [] None ds = Some (rev ds @ es)" for ds
  proof (induction es arbitrary: ds)
    case (Cons e es)
    then show ?case by (cases e) (simp add: sample_pack_def unpack_escaped)
  qed (simp add: sample_pack_def)
  then show ?thesis by (simp add: sample_unpack_def)
qed

definition sample_lib :: backup_lib where
  "sample_lib = \<lparr>blPack = sample_pack, blUnpack = sample_unpack, blPartial = (\<lambda>es. []), blNewEntry = (\<lambda>n. True),
     blRealPath = (\<lambda>p. Some p), blExtractFilePath = (\<lambda>p. rev (dropWhile (\<lambda>x. x \<noteq> CHR ''/'') (rev p))), blRename = (\<lambda>a b. True)\<rparr>"

lemma sample_lib_ok: "backup_lib_ok sample_lib"
proof -
  have "rev (dropWhile (\<lambda>x. x \<noteq> CHR ''/'') (rev (d @ CHR ''/'' # n))) = d @ ''/''" if "CHR ''/'' \<notin> set n" for d n
  proof -
    have "dropWhile (\<lambda>x. x \<noteq> CHR ''/'') (rev n @ CHR ''/'' # rev d) = CHR ''/'' # rev d"
      using that by (subst dropWhile_append2) auto
    then show ?thesis by simp
  qed
  then show ?thesis by (simp add: backup_lib_ok_def canonical_def sample_lib_def sample_unpack_pack)
qed

definition backup_fs :: file_system where
  "backup_fs = \<lparr>fsFiles = [(''/log/db/event_sequence'', bytes_of_string ''200'' @ [0]),
       (''/log/db/event_sequence_backup'', bytes_of_string ''200'' @ [0]),
       (''/log/db/KERNEL/PANIC-1-CRITICAL-7-0.db'', [1, 2, 3]), (''/log/db/KERNEL/BOOT-4-MINOR-8-0.db'', [4]),
       (''/log/backup/sysevent.zip'', [9])],
     fsDirs = [''/log'', ''/log/db'', ''/log/db/KERNEL'', ''/log/backup'']\<rparr>"

definition fresh_fs :: file_system where
  "fresh_fs = \<lparr>fsFiles = [(''/log/backup/sysevent.zip'', sample_pack (archive_entries sample_ctx backup_fs))],
     fsDirs = [''/log'', ''/log/db'', ''/log/backup'']\<rparr>"

definition sample_load :: file_loader where
  "sample_load fs p = map_option string_of_bytes (fs_file fs p)"

lemma sample_load_ok: "load_ok sample_load"
  by (simp add: load_ok_def sample_load_def)

end
