(* ===== verification/Rdb_Store.thy ===== *)
theory Rdb_Store
  imports File_System "HOL-Library.Multiset"
begin

text \<open>
  \<open>RestorableDbStore\<close> (base/utility/restorable_db_store.cpp), the wrapper of the relational database that
  replaces a corrupt database by an empty one, and the JSON and SQL helpers of the storages
  (cjson_util.cpp, sql_util.cpp). The relational database \<open>NativeRdb\<close> and the parser \<open>cJSON\<close> are libraries
  outside of this repository and parameters here; \<open>rdb_works\<close> states what is documented of the database
  while no call fails.
\<close>

section \<open>Libraries\<close>

datatype rdb_code = E_OK | E_ERROR | E_SQLITE_CORRUPT | E_OTHER int

datatype rdb_value = RInt int | RText string | RDouble u64

datatype rdb_pred = EqualTo string rdb_value | LessThan string rdb_value

type_synonym rdb_row = "string \<rightharpoonup> rdb_value"

type_synonym bucket = "(string \<times> rdb_value) list"

text \<open>
  A result set is the list of its rows, a row the list of its selected columns. \<open>rdbRows\<close> and
  \<open>rdbVersion\<close> say what a database holds; no program text calls them.
\<close>

record 'd rdb =
  rdbOpen :: "string \<Rightarrow> int \<Rightarrow> ('d \<Rightarrow> rdb_code \<times> 'd) \<Rightarrow> (int \<Rightarrow> int \<Rightarrow> 'd \<Rightarrow> rdb_code \<times> 'd) \<Rightarrow> 'd \<Rightarrow> rdb_code \<times> bool \<times> 'd"
  rdbDeleteStore :: "string \<Rightarrow> 'd \<Rightarrow> rdb_code \<times> 'd"
  rdbExecuteSql :: "string \<Rightarrow> 'd \<Rightarrow> rdb_code \<times> 'd"
  rdbQuery :: "string \<Rightarrow> rdb_pred list \<Rightarrow> string list \<Rightarrow> 'd \<Rightarrow> rdb_value option list list option"
  rdbInsert :: "string \<Rightarrow> bucket \<Rightarrow> 'd \<Rightarrow> rdb_code \<times> int \<times> 'd"
  rdbBatchInsert :: "string \<Rightarrow> bucket list \<Rightarrow> 'd \<Rightarrow> rdb_code \<times> 'd"
  rdbUpdate :: "string \<Rightarrow> bucket \<Rightarrow> rdb_pred list \<Rightarrow> 'd \<Rightarrow> rdb_code \<times> 'd"
  rdbDelete :: "string \<Rightarrow> rdb_pred list \<Rightarrow> 'd \<Rightarrow> rdb_code \<times> 'd"
  rdbCreateTransaction :: "'d \<Rightarrow> rdb_code \<times> bool \<times> 'd"
  rdbCommit :: "'d \<Rightarrow> 'd"
  rdbRollback :: "'d \<Rightarrow> 'd"
  rdbRows :: "'d \<Rightarrow> string \<Rightarrow> rdb_row multiset"
  rdbVersion :: "'d \<Rightarrow> string \<Rightarrow> int option"

record 'j cjson =
  cjParse :: "string \<Rightarrow> 'j option"
  cjIsObject :: "'j \<Rightarrow> bool"
  cjIsNumber :: "'j \<Rightarrow> bool"
  cjGetObjectItem :: "'j \<Rightarrow> string \<Rightarrow> 'j option"
  cjNumber :: "'j \<Rightarrow> int"

section \<open>Helpers\<close>

definition ParseJsonRoot :: "'j cjson \<Rightarrow> file_system \<Rightarrow> string \<Rightarrow> 'j option" where
  "ParseJsonRoot js fs configFile =
     (case fs_file fs configFile of None \<Rightarrow> None | Some f \<Rightarrow> cjParse js (takeWhile (\<lambda>c. c \<noteq> CHR 0x00) (string_of_bytes f)))"

definition GetIntValue :: "'j cjson \<Rightarrow> 'j \<Rightarrow> string \<Rightarrow> int \<Rightarrow> int" where
  "GetIntValue js json key defaultValue =
     (if \<not> cjIsObject js json then defaultValue
      else case cjGetObjectItem js json key of
             None \<Rightarrow> defaultValue
           | Some intJson \<Rightarrow> if \<not> cjIsNumber js intJson then defaultValue else cjNumber js intJson)"

definition GetObjectValue :: "'j cjson \<Rightarrow> 'j \<Rightarrow> string \<Rightarrow> 'j option" where
  "GetObjectValue js json key =
     (if \<not> cjIsObject js json then None
      else case cjGetObjectItem js json key of
             None \<Rightarrow> None
           | Some obj \<Rightarrow> if \<not> cjIsObject js obj then None else Some obj)"

definition GenerateCreateSql :: "string \<Rightarrow> (string \<times> string) list \<Rightarrow> string" where
  "GenerateCreateSql table cols =
     ''CREATE TABLE IF NOT EXISTS '' @ table @ ''('' @ ''id INTEGER PRIMARY KEY AUTOINCREMENT'' @
     concat (map (\<lambda>(name, ty). '', '' @ name @ '' '' @ ty) cols) @ '')''"

definition GenerateDropSql :: "string \<Rightarrow> string" where
  "GenerateDropSql table = ''DROP TABLE IF EXISTS '' @ table"

text \<open>Reading a column leaves the variable as it was when there is no value of the type.\<close>

definition get_long :: "rdb_value option list \<Rightarrow> nat \<Rightarrow> int \<Rightarrow> int" where
  "get_long row i old = (if i < length row then (case row ! i of Some (RInt n) \<Rightarrow> n | x \<Rightarrow> old) else old)"

definition get_string :: "rdb_value option list \<Rightarrow> nat \<Rightarrow> string \<Rightarrow> string" where
  "get_string row i old = (if i < length row then (case row ! i of Some (RText s) \<Rightarrow> s | x \<Rightarrow> old) else old)"

section \<open>The store\<close>

record 'd restorable_db =
  rsVersion :: int
  rsDir :: string
  rsName :: string
  rsOpen :: bool
  rsOnCreate :: "('d \<Rightarrow> rdb_code \<times> 'd) option"
  rsOnUpgrade :: "(int \<Rightarrow> int \<Rightarrow> 'd \<Rightarrow> rdb_code \<times> 'd) option"
  rsOnRestoreEnd :: "('d \<Rightarrow> rdb_code \<times> 'd) option"

text \<open>The files, the databases, and the store that a controller shares with its storages.\<close>

record 'd db_world =
  dwFs :: file_system
  dwDb :: 'd
  dwStore :: "'d restorable_db option"

definition RestorableDbStore :: "file_ops \<Rightarrow> string \<Rightarrow> string \<Rightarrow> int \<Rightarrow> 'd restorable_db" where
  "RestorableDbStore fo dbDir dbName dbVersion =
     \<lparr>rsVersion = dbVersion, rsDir = foIncludeTrailing fo dbDir, rsName = dbName, rsOpen = False,
      rsOnCreate = None, rsOnUpgrade = None, rsOnRestoreEnd = None\<rparr>"

definition OnCreate_callback :: "'d restorable_db \<Rightarrow> 'd \<Rightarrow> rdb_code \<times> 'd" where
  "OnCreate_callback s d = (case rsOnCreate s of None \<Rightarrow> (E_OK, d) | Some f \<Rightarrow> f d)"

definition OnUpgrade_callback :: "'d restorable_db \<Rightarrow> int \<Rightarrow> int \<Rightarrow> 'd \<Rightarrow> rdb_code \<times> 'd" where
  "OnUpgrade_callback s oldVersion newVersion d =
     (case rsOnUpgrade s of None \<Rightarrow> (E_OK, d) | Some f \<Rightarrow> f oldVersion newVersion d)"

definition GetRdbStore :: "'d rdb \<Rightarrow> 'd restorable_db \<Rightarrow> 'd db_world \<Rightarrow> rdb_code \<times> 'd db_world" where
  "GetRdbStore rd s w =
     (case rdbOpen rd (rsDir s @ rsName s) (rsVersion s) (OnCreate_callback s) (OnUpgrade_callback s) (dwDb w) of
        (ret, opened, d) \<Rightarrow> (ret, w\<lparr>dwDb := d, dwStore := Some (s\<lparr>rsOpen := opened\<rparr>)\<rparr>))"

definition InitializeRdb :: "file_ops \<Rightarrow> 'd rdb \<Rightarrow> ('d \<Rightarrow> rdb_code \<times> 'd) option \<Rightarrow>
    (int \<Rightarrow> int \<Rightarrow> 'd \<Rightarrow> rdb_code \<times> 'd) option \<Rightarrow> ('d \<Rightarrow> rdb_code \<times> 'd) option \<Rightarrow>
    'd restorable_db \<Rightarrow> 'd db_world \<Rightarrow> rdb_code \<times> 'd db_world" where
  "InitializeRdb fo rd created upgraded restored s w =
     (let made = (if IsDirectory (dwFs w) (rsDir s) then (True, dwFs w) else ForceCreateDirectory fo (rsDir s) (dwFs w));
          w1 = w\<lparr>dwFs := snd made\<rparr>;
          s1 = s\<lparr>rsOnCreate := created, rsOnUpgrade := upgraded, rsOnRestoreEnd := restored\<rparr>
      in if \<not> fst made then (E_ERROR, w1\<lparr>dwStore := Some s\<rparr>)
         else case GetRdbStore rd s1 w1 of
           (ret, w2) \<Rightarrow>
             if ret = E_SQLITE_CORRUPT
             then GetRdbStore rd s1 (w2\<lparr>dwDb := snd (rdbDeleteStore rd (rsDir s @ rsName s) (dwDb w2))\<rparr>)
             else (ret, w2))"

definition Initialize :: "file_ops \<Rightarrow> 'd rdb \<Rightarrow> ('d \<Rightarrow> rdb_code \<times> 'd) option \<Rightarrow>
    (int \<Rightarrow> int \<Rightarrow> 'd \<Rightarrow> rdb_code \<times> 'd) option \<Rightarrow> ('d \<Rightarrow> rdb_code \<times> 'd) option \<Rightarrow>
    'd restorable_db \<Rightarrow> 'd db_world \<Rightarrow> rdb_code \<times> 'd db_world" where
  "Initialize fo rd created upgraded restored s w = InitializeRdb fo rd created upgraded restored s w"

definition RestoreRdb :: "file_ops \<Rightarrow> 'd rdb \<Rightarrow> 'd restorable_db \<Rightarrow> 'd db_world \<Rightarrow> rdb_code \<times> 'd db_world" where
  "RestoreRdb fo rd s w =
     (if \<not> rsOpen s then (E_ERROR, w)
      else case rdbDeleteStore rd (rsDir s @ rsName s) (dwDb w) of
        (ret, d) \<Rightarrow>
          if ret \<noteq> E_OK then (ret, w\<lparr>dwDb := d\<rparr>)
          else case InitializeRdb fo rd (rsOnCreate s) (rsOnUpgrade s) (rsOnRestoreEnd s) s (w\<lparr>dwDb := d\<rparr>) of
            (ret1, w1) \<Rightarrow>
              if ret1 \<noteq> E_OK then (ret1, w1)
              else case rsOnRestoreEnd s of
                     None \<Rightarrow> (ret1, w1)
                   | Some f \<Rightarrow> (case f (dwDb w1) of (ret2, d2) \<Rightarrow> (ret2, w1\<lparr>dwDb := d2\<rparr>)))"

text \<open>\<open>out\<close> is what the variables of the caller hold when the operation does not set them.\<close>

definition AdaptRdbOpt :: "file_ops \<Rightarrow> 'd rdb \<Rightarrow> ('d \<Rightarrow> rdb_code \<times> 'a \<times> 'd) \<Rightarrow> 'a \<Rightarrow> 'd restorable_db \<Rightarrow> 'd db_world \<Rightarrow>
    rdb_code \<times> 'a \<times> 'd db_world" where
  "AdaptRdbOpt fo rd f out s w =
     (if \<not> rsOpen s then (E_ERROR, out, w)
      else case f (dwDb w) of
        (ret, out1, d) \<Rightarrow>
          (let w1 = w\<lparr>dwDb := d\<rparr> in
           if ret = E_OK then (ret, out1, w1)
           else if ret \<noteq> E_SQLITE_CORRUPT then (ret, out1, w1)
           else case RestoreRdb fo rd s w1 of (ret1, w2) \<Rightarrow> (ret1, out1, w2)))"

definition no_out :: "('d \<Rightarrow> rdb_code \<times> 'd) \<Rightarrow> 'd \<Rightarrow> rdb_code \<times> unit \<times> 'd" where
  "no_out f d = (case f d of (ret, d1) \<Rightarrow> (ret, (), d1))"

definition db_Update :: "file_ops \<Rightarrow> 'd rdb \<Rightarrow> string \<Rightarrow> bucket \<Rightarrow> rdb_pred list \<Rightarrow> 'd restorable_db \<Rightarrow> 'd db_world \<Rightarrow>
    rdb_code \<times> 'd db_world" where
  "db_Update fo rd table b preds s w =
     (case AdaptRdbOpt fo rd (no_out (rdbUpdate rd table b preds)) () s w of (ret, u, w1) \<Rightarrow> (ret, w1))"

definition db_Insert :: "file_ops \<Rightarrow> 'd rdb \<Rightarrow> int \<Rightarrow> string \<Rightarrow> bucket \<Rightarrow> 'd restorable_db \<Rightarrow> 'd db_world \<Rightarrow>
    rdb_code \<times> int \<times> 'd db_world" where
  "db_Insert fo rd outRowId table b s w = AdaptRdbOpt fo rd (rdbInsert rd table b) outRowId s w"

definition db_BatchInsert :: "file_ops \<Rightarrow> 'd rdb \<Rightarrow> string \<Rightarrow> bucket list \<Rightarrow> 'd restorable_db \<Rightarrow> 'd db_world \<Rightarrow>
    rdb_code \<times> 'd db_world" where
  "db_BatchInsert fo rd table bs s w =
     (case AdaptRdbOpt fo rd (no_out (rdbBatchInsert rd table bs)) () s w of (ret, u, w1) \<Rightarrow> (ret, w1))"

text \<open>A query that fails has no other code than \<open>E_ERROR\<close>, so that it never restores the database.\<close>

definition db_Query :: "file_ops \<Rightarrow> 'd rdb \<Rightarrow> string \<Rightarrow> rdb_pred list \<Rightarrow> string list \<Rightarrow> 'd restorable_db \<Rightarrow> 'd db_world \<Rightarrow>
    rdb_value option list list option \<times> 'd db_world" where
  "db_Query fo rd table preds columns s w =
     (case AdaptRdbOpt fo rd
        (\<lambda>d. let ret = rdbQuery rd table preds columns d in (if ret = None then E_ERROR else E_OK, ret, d)) None s w of
        (code, ret, w1) \<Rightarrow> (ret, w1))"

definition db_Delete :: "file_ops \<Rightarrow> 'd rdb \<Rightarrow> string \<Rightarrow> rdb_pred list \<Rightarrow> 'd restorable_db \<Rightarrow> 'd db_world \<Rightarrow>
    rdb_code \<times> 'd db_world" where
  "db_Delete fo rd table preds s w =
     (case AdaptRdbOpt fo rd (no_out (rdbDelete rd table preds)) () s w of (ret, u, w1) \<Rightarrow> (ret, w1))"

text \<open>The pair of the code and the transaction, which is \<open>E_OK\<close> and null when there is no database.\<close>

definition db_CreateTransaction :: "file_ops \<Rightarrow> 'd rdb \<Rightarrow> 'd restorable_db \<Rightarrow> 'd db_world \<Rightarrow>
    (rdb_code \<times> bool) \<times> 'd db_world" where
  "db_CreateTransaction fo rd s w =
     (case AdaptRdbOpt fo rd
        (\<lambda>d. case rdbCreateTransaction rd d of (ret, made, d1) \<Rightarrow> (ret, (ret, made), d1)) (E_OK, False) s w of
        (code, ret, w1) \<Rightarrow> (ret, w1))"

section \<open>Laws\<close>

fun pred_holds :: "rdb_pred \<Rightarrow> rdb_row \<Rightarrow> bool" where
  "pred_holds (EqualTo c v) r = (r c = Some v)"
| "pred_holds (LessThan c v) r = (case (r c, v) of (Some (RInt a), RInt b) \<Rightarrow> a < b | x \<Rightarrow> False)"

definition row_matches :: "rdb_pred list \<Rightarrow> rdb_row \<Rightarrow> bool" where
  "row_matches ps r \<longleftrightarrow> (\<forall>p \<in> set ps. pred_holds p r)"

definition inserts :: "'d rdb \<Rightarrow> string \<Rightarrow> bucket \<Rightarrow> 'd \<Rightarrow> 'd \<Rightarrow> int \<Rightarrow> bool" where
  "inserts rd t b d d' i \<longleftrightarrow> 0 < i \<and> rdbVersion rd d' = rdbVersion rd d \<and>
     rdbRows rd d' = (rdbRows rd d)(t := add_mset ((map_of b)(''id'' \<mapsto> RInt i)) (rdbRows rd d t))"

definition rdb_works :: "'d rdb \<Rightarrow> bool" where
  "rdb_works rd \<longleftrightarrow>
     (\<forall>path ver oc ou d. rdbVersion rd d path = Some ver \<longrightarrow> rdbOpen rd path ver oc ou d = (E_OK, True, d)) \<and>
     (\<forall>t ps cols d. \<exists>rs. rdbQuery rd t ps cols d = Some rs \<and>
        mset rs = image_mset (\<lambda>r. map r cols) (filter_mset (row_matches ps) (rdbRows rd d t))) \<and>
     (\<forall>t b d. \<exists>i d'. rdbInsert rd t b d = (E_OK, i, d') \<and> inserts rd t b d d' i) \<and>
     (\<forall>t bs d. \<exists>rs d'. rdbBatchInsert rd t bs d = (E_OK, d') \<and> rdbVersion rd d' = rdbVersion rd d \<and>
        rdbRows rd d' = (rdbRows rd d)(t := mset rs + rdbRows rd d t) \<and>
        list_all2 (\<lambda>b r. \<exists>i > 0. r = (map_of b)(''id'' \<mapsto> RInt i)) bs rs) \<and>
     (\<forall>t b ps d. \<exists>d'. rdbUpdate rd t b ps d = (E_OK, d') \<and> rdbVersion rd d' = rdbVersion rd d \<and>
        rdbRows rd d' = (rdbRows rd d)(t := image_mset (\<lambda>r. if row_matches ps r then r ++ map_of b else r) (rdbRows rd d t))) \<and>
     (\<forall>t ps d. \<exists>d'. rdbDelete rd t ps d = (E_OK, d') \<and> rdbVersion rd d' = rdbVersion rd d \<and>
        rdbRows rd d' = (rdbRows rd d)(t := filter_mset (\<lambda>r. \<not> row_matches ps r) (rdbRows rd d t))) \<and>
     (\<forall>d. rdbCreateTransaction rd d = (E_OK, True, d) \<and> rdbCommit rd d = d \<and> rdbRollback rd d = d)"

section \<open>Lemmas\<close>

lemmas rdb_works_conj = rdb_works_def [THEN iffD1]
lemmas rdb_works_open = rdb_works_conj [THEN conjunct1, rule_format]
lemmas rdb_works_query = rdb_works_conj [THEN conjunct2, THEN conjunct1, rule_format]
lemmas rdb_works_insert = rdb_works_conj [THEN conjunct2, THEN conjunct2, THEN conjunct1, rule_format]
lemmas rdb_works_batch = rdb_works_conj [THEN conjunct2, THEN conjunct2, THEN conjunct2, THEN conjunct1, rule_format]
lemmas rdb_works_update = rdb_works_conj [THEN conjunct2, THEN conjunct2, THEN conjunct2, THEN conjunct2, THEN conjunct1, rule_format]
lemmas rdb_works_delete = rdb_works_conj [THEN conjunct2, THEN conjunct2, THEN conjunct2, THEN conjunct2, THEN conjunct2, THEN conjunct1, rule_format]
lemmas rdb_works_transaction = rdb_works_conj [THEN conjunct2, THEN conjunct2, THEN conjunct2, THEN conjunct2, THEN conjunct2, THEN conjunct2, rule_format]

definition db_ready :: "'d db_world \<Rightarrow> 'd restorable_db \<Rightarrow> bool" where
  "db_ready w s \<longleftrightarrow> dwStore w = Some s \<and> rsOpen s"

lemma db_ready_db [simp]: "db_ready (w\<lparr>dwDb := d\<rparr>) s = db_ready w s"
  by (simp add: db_ready_def)

lemma db_Query_works:
  assumes "rdb_works rd" "rsOpen s"
  obtains rs where "db_Query fo rd t ps cols s w = (Some rs, w)"
    "mset rs = image_mset (\<lambda>r. map r cols) (filter_mset (row_matches ps) (rdbRows rd (dwDb w) t))"
proof -
  from rdb_works_query [OF assms(1)] obtain rs where rs: "rdbQuery rd t ps cols (dwDb w) = Some rs"
      "mset rs = image_mset (\<lambda>r. map r cols) (filter_mset (row_matches ps) (rdbRows rd (dwDb w) t))"
    by blast
  show thesis
    by (rule that [OF _ rs(2)]) (simp add: db_Query_def AdaptRdbOpt_def assms(2) rs(1))
qed

lemma db_Insert_works:
  assumes "rdb_works rd" "rsOpen s"
  obtains i d where "db_Insert fo rd out t b s w = (E_OK, i, w\<lparr>dwDb := d\<rparr>)" "inserts rd t b (dwDb w) d i"
proof -
  from rdb_works_insert [OF assms(1)] obtain i d where *: "rdbInsert rd t b (dwDb w) = (E_OK, i, d)" "inserts rd t b (dwDb w) d i"
    by blast
  show thesis by (rule that [OF _ *(2)]) (simp add: db_Insert_def AdaptRdbOpt_def assms(2) *(1))
qed

lemma db_Update_works:
  assumes "rdb_works rd" "rsOpen s"
  obtains d where "db_Update fo rd t b ps s w = (E_OK, w\<lparr>dwDb := d\<rparr>)"
    "rdbVersion rd d = rdbVersion rd (dwDb w)"
    "rdbRows rd d = (rdbRows rd (dwDb w))
       (t := image_mset (\<lambda>r. if row_matches ps r then r ++ map_of b else r) (rdbRows rd (dwDb w) t))"
proof -
  from rdb_works_update [OF assms(1)] obtain d where *: "rdbUpdate rd t b ps (dwDb w) = (E_OK, d)" "rdbVersion rd d = rdbVersion rd (dwDb w)"
      "rdbRows rd d = (rdbRows rd (dwDb w))
         (t := image_mset (\<lambda>r. if row_matches ps r then r ++ map_of b else r) (rdbRows rd (dwDb w) t))"
    by blast
  show thesis by (rule that [OF _ *(2,3)]) (simp add: db_Update_def AdaptRdbOpt_def assms(2) no_out_def *(1))
qed

lemma db_Delete_works:
  assumes "rdb_works rd" "rsOpen s"
  obtains d where "db_Delete fo rd t ps s w = (E_OK, w\<lparr>dwDb := d\<rparr>)"
    "rdbVersion rd d = rdbVersion rd (dwDb w)"
    "rdbRows rd d = (rdbRows rd (dwDb w))(t := filter_mset (\<lambda>r. \<not> row_matches ps r) (rdbRows rd (dwDb w) t))"
proof -
  from rdb_works_delete [OF assms(1)] obtain d where *: "rdbDelete rd t ps (dwDb w) = (E_OK, d)" "rdbVersion rd d = rdbVersion rd (dwDb w)"
      "rdbRows rd d = (rdbRows rd (dwDb w))(t := filter_mset (\<lambda>r. \<not> row_matches ps r) (rdbRows rd (dwDb w) t))"
    by blast
  show thesis by (rule that [OF _ *(2,3)]) (simp add: db_Delete_def AdaptRdbOpt_def assms(2) no_out_def *(1))
qed

lemma db_transaction_works:
  assumes "rdb_works rd" "rsOpen s"
  shows "db_CreateTransaction fo rd s w = ((E_OK, True), w)" "rdbCommit rd d = d" "rdbRollback rd d = d"
  using assms(2) rdb_works_transaction [OF assms(1)] by (simp_all add: db_CreateTransaction_def AdaptRdbOpt_def)

text \<open>A database at the version asked for is opened as it is.\<close>

lemma Initialize_works:
  assumes "rdb_works rd" "IsDirectory (dwFs w) (rsDir s)" "rdbVersion rd (dwDb w) (rsDir s @ rsName s) = Some (rsVersion s)"
  shows "Initialize fo rd created upgraded restored s w =
    (E_OK, w\<lparr>dwStore := Some (s\<lparr>rsOnCreate := created, rsOnUpgrade := upgraded, rsOnRestoreEnd := restored, rsOpen := True\<rparr>)\<rparr>)"
  using assms(2,3) rdb_works_open [OF assms(1)]
  by (simp add: Initialize_def InitializeRdb_def GetRdbStore_def)

text \<open>
  An operation on a corrupt database restores the database, is not repeated, and reports what restoring
  reported.
\<close>

lemma AdaptRdbOpt_corrupt:
  assumes "rsOpen s" "f (dwDb w) = (E_SQLITE_CORRUPT, out1, d)"
  shows "AdaptRdbOpt fo rd f out s w = (fst (RestoreRdb fo rd s (w\<lparr>dwDb := d\<rparr>)), out1, snd (RestoreRdb fo rd s (w\<lparr>dwDb := d\<rparr>)))"
  using assms by (simp add: AdaptRdbOpt_def Let_def split: prod.splits)

section \<open>A database of lists\<close>

record list_db =
  ldTables :: "(string \<times> bucket list) list"
  ldNext :: nat
  ldVersions :: "(string \<times> int) list"

definition ld_rows :: "list_db \<Rightarrow> string \<Rightarrow> bucket list" where
  "ld_rows d t = (case map_of (ldTables d) t of None \<Rightarrow> [] | Some rs \<Rightarrow> rs)"

definition ld_put :: "string \<Rightarrow> bucket list \<Rightarrow> list_db \<Rightarrow> list_db" where
  "ld_put t rs d = d\<lparr>ldTables := AList.update t rs (ldTables d)\<rparr>"

fun ld_insert :: "string \<Rightarrow> bucket list \<Rightarrow> list_db \<Rightarrow> list_db" where
  "ld_insert t [] d = d"
| "ld_insert t (b # bs) d =
     ld_insert t bs ((ld_put t (((''id'', RInt (int (ldNext d) + 1)) # b) # ld_rows d t) d)\<lparr>ldNext := ldNext d + 1\<rparr>)"

definition list_rdb :: "list_db rdb" where
  "list_rdb = \<lparr>
     rdbOpen = (\<lambda>path ver oc ou d.
       case map_of (ldVersions d) path of
         None \<Rightarrow> (E_OK, True, snd (oc (d\<lparr>ldVersions := AList.update path ver (ldVersions d)\<rparr>)))
       | Some v \<Rightarrow> if v = ver then (E_OK, True, d)
                   else (E_OK, True, snd (ou v ver (d\<lparr>ldVersions := AList.update path ver (ldVersions d)\<rparr>)))),
     rdbDeleteStore = (\<lambda>path d. (E_OK, \<lparr>ldTables = [], ldNext = 0, ldVersions = AList.delete path (ldVersions d)\<rparr>)),
     rdbExecuteSql = (\<lambda>sql d. (E_OK, d)),
     rdbQuery = (\<lambda>t ps cols d. Some (map (\<lambda>r. map (map_of r) cols) (filter (\<lambda>r. row_matches ps (map_of r)) (ld_rows d t)))),
     rdbInsert = (\<lambda>t b d. (E_OK, int (ldNext d) + 1, ld_insert t [b] d)),
     rdbBatchInsert = (\<lambda>t bs d. (E_OK, ld_insert t bs d)),
     rdbUpdate = (\<lambda>t b ps d. (E_OK, ld_put t (map (\<lambda>r. if row_matches ps (map_of r) then b @ r else r) (ld_rows d t)) d)),
     rdbDelete = (\<lambda>t ps d. (E_OK, ld_put t (filter (\<lambda>r. \<not> row_matches ps (map_of r)) (ld_rows d t)) d)),
     rdbCreateTransaction = (\<lambda>d. (E_OK, True, d)),
     rdbCommit = (\<lambda>d. d),
     rdbRollback = (\<lambda>d. d),
     rdbRows = (\<lambda>d t. image_mset map_of (mset (ld_rows d t))),
     rdbVersion = (\<lambda>d path. map_of (ldVersions d) path)\<rparr>"

lemma ld_rows_put [simp]: "ld_rows (ld_put t rs d) t' = (if t' = t then rs else ld_rows d t')"
  by (simp add: ld_rows_def ld_put_def update_conv')

lemma ld_put_keeps [simp]: "ldVersions (ld_put t rs d) = ldVersions d" "ldNext (ld_put t rs d) = ldNext d"
  by (simp_all add: ld_put_def)

lemma ld_rows_next [simp]: "ld_rows (d\<lparr>ldNext := n\<rparr>) t = ld_rows d t"
  by (simp add: ld_rows_def)

lemma ld_insert_rows:
  "\<exists>rs. ldVersions (ld_insert t bs d) = ldVersions d \<and>
     (\<forall>t'. ld_rows (ld_insert t bs d) t' = (if t' = t then rev rs @ ld_rows d t else ld_rows d t')) \<and>
     list_all2 (\<lambda>b r. \<exists>i > 0. r = (''id'', RInt i) # b) bs rs"
proof (induction bs arbitrary: d)
  case Nil
  show ?case by (auto intro: exI [of _ "[]"])
next
  case (Cons b bs)
  let ?r = "(''id'', RInt (int (ldNext d) + 1)) # b"
  obtain rs where "ldVersions (ld_insert t (b # bs) d) = ldVersions d"
      "\<forall>t'. ld_rows (ld_insert t (b # bs) d) t' = (if t' = t then rev rs @ ?r # ld_rows d t else ld_rows d t')"
      "list_all2 (\<lambda>b r. \<exists>i > 0. r = (''id'', RInt i) # b) bs rs"
    using Cons [of "(ld_put t (?r # ld_rows d t) d)\<lparr>ldNext := ldNext d + 1\<rparr>"] by auto
  then show ?case by (intro exI [of _ "?r # rs"]) auto
qed

lemma list_rdb_works [simp]: "rdb_works list_rdb"
proof -
  have ins: "inserts list_rdb t b d (ld_insert t [b] d) (int (ldNext d) + 1)" for t b d
    by (auto simp: inserts_def list_rdb_def fun_eq_iff)
  have batch: "\<exists>rs d'. rdbBatchInsert list_rdb t bs d = (E_OK, d') \<and> rdbVersion list_rdb d' = rdbVersion list_rdb d \<and>
        rdbRows list_rdb d' = (rdbRows list_rdb d)(t := mset rs + rdbRows list_rdb d t) \<and>
        list_all2 (\<lambda>b r. \<exists>i > 0. r = (map_of b)(''id'' \<mapsto> RInt i)) bs rs" for t bs d
  proof -
    obtain rs where rs: "ldVersions (ld_insert t bs d) = ldVersions d"
        "\<forall>t'. ld_rows (ld_insert t bs d) t' = (if t' = t then rev rs @ ld_rows d t else ld_rows d t')"
        "list_all2 (\<lambda>b r. \<exists>i > 0. r = (''id'', RInt i) # b) bs rs"
      using ld_insert_rows by blast
    have "list_all2 (\<lambda>b r. \<exists>i > 0. r = (map_of b)(''id'' \<mapsto> RInt i)) bs (map map_of rs)"
      unfolding list.rel_map by (rule list.rel_mono_strong [OF rs(3)]) auto
    moreover have "rdbRows list_rdb (ld_insert t bs d) = (rdbRows list_rdb d)(t := mset (map map_of rs) + rdbRows list_rdb d t)"
      using rs(2) by (auto simp: list_rdb_def fun_eq_iff)
    moreover have "rdbVersion list_rdb (ld_insert t bs d) = rdbVersion list_rdb d"
      using rs(1) by (simp add: list_rdb_def fun_eq_iff)
    moreover have "rdbBatchInsert list_rdb t bs d = (E_OK, ld_insert t bs d)" by (simp add: list_rdb_def)
    ultimately show ?thesis by blast
  qed
  have upd: "image_mset map_of (mset (map (\<lambda>r. if row_matches ps (map_of r) then b @ r else r) rs)) =
      image_mset (\<lambda>r. if row_matches ps r then r ++ map_of b else r) (image_mset map_of (mset rs))" for ps b rs
    by (induction rs) simp_all
  have del: "image_mset map_of (mset (filter (\<lambda>r. \<not> row_matches ps (map_of r)) rs)) =
      filter_mset (\<lambda>r. \<not> row_matches ps r) (image_mset map_of (mset rs))" for ps and rs :: "bucket list"
    by (induction rs) simp_all
  have qry: "mset (map (\<lambda>r. map (map_of r) cols) (filter (\<lambda>r. row_matches ps (map_of r)) rs)) =
      image_mset (\<lambda>r. map r cols) (filter_mset (row_matches ps) (image_mset map_of (mset rs)))" for ps cols and rs :: "bucket list"
    by (induction rs) simp_all
  show ?thesis
    unfolding rdb_works_def
  proof (intro conjI allI impI)
    fix t b d
    show "\<exists>i d'. rdbInsert list_rdb t b d = (E_OK, i, d') \<and> inserts list_rdb t b d d' i"
      using ins [of t b d] by (auto simp: list_rdb_def)
  next
    fix t bs d
    show "\<exists>rs d'. rdbBatchInsert list_rdb t bs d = (E_OK, d') \<and> rdbVersion list_rdb d' = rdbVersion list_rdb d \<and>
        rdbRows list_rdb d' = (rdbRows list_rdb d)(t := mset rs + rdbRows list_rdb d t) \<and>
        list_all2 (\<lambda>b r. \<exists>i > 0. r = (map_of b)(''id'' \<mapsto> RInt i)) bs rs" by (rule batch)
  qed (simp_all add: list_rdb_def fun_eq_iff upd [simplified] del [simplified] qry [simplified])
qed

end
