(* ===== verification/Trace_Storage.thy ===== *)
theory Trace_Storage
  imports Rdb_Store Cpp_Text
begin

text \<open>
  The storages behind the quotas of the trace manager (trace_manager/storage): what each caller used
  today, what each app used, telemetry quotas, the time the cache was on, and the captures of apps. All
  are tables of one relational database, which is created by \<open>TraceDbStoreCallback\<close>
  (src/trace_db_callback.cpp). Sizes are 64-bit numbers of bytes, far from their limits; dates are
  texts that the caller of an operation reads off the clock.
\<close>

section \<open>Environment\<close>

text \<open>
  \<open>qeDay\<close> and \<open>qeDate\<close> are \<open>TimestampFormatToDate\<close> with the formats \<open>%Y%m%d\<close> and \<open>%Y-%m-%d\<close>, which depend on the
  time zone of the device.
\<close>

record ('d, 'j) quota_env =
  qeOps :: file_ops
  qeRdb :: "'d rdb"
  qeJson :: "'j cjson"
  qeDay :: "int \<Rightarrow> string"
  qeDate :: "int \<Rightarrow> string"

section \<open>Tables\<close>

definition FLOW_TABLE_NAME :: string where "FLOW_TABLE_NAME = ''trace_flow_control''"
definition TABLE_NAME_TASK :: string where "TABLE_NAME_TASK = ''unified_collection_task''"
definition TABLE_NAME_BEHAVIOR :: string where "TABLE_NAME_BEHAVIOR = ''trace_behavior_db_helper''"
definition TABLE_TELEMETRY_CONTROL :: string where "TABLE_TELEMETRY_CONTROL = ''telemetry_control''"
definition APP_SYSTEM_CONTROL :: string where "APP_SYSTEM_CONTROL = ''app_system_control''"

lemmas table_names = FLOW_TABLE_NAME_def TABLE_NAME_TASK_def TABLE_NAME_BEHAVIOR_def
  TABLE_TELEMETRY_CONTROL_def APP_SYSTEM_CONTROL_def

definition create_table :: "'d rdb \<Rightarrow> string \<Rightarrow> (string \<times> string) list \<Rightarrow> 'd \<Rightarrow> int \<times> 'd" where
  "create_table rd table cols d =
     (case rdbExecuteSql rd (GenerateCreateSql table cols) d of (ret, d1) \<Rightarrow> (if ret \<noteq> E_OK then - 1 else 0, d1))"

definition CreateTraceFlowControlTable :: "'d rdb \<Rightarrow> 'd \<Rightarrow> int \<times> 'd" where
  "CreateTraceFlowControlTable rd = create_table rd FLOW_TABLE_NAME
     [(''system_time'', ''TEXT''), (''caller_name'', ''TEXT''), (''io_used_size'', ''INTEGER''),
      (''zip_used_size'', ''INTEGER''), (''dynamic_decrease'', ''INTEGER'')]"

definition CreateAppTaskTable :: "'d rdb \<Rightarrow> 'd \<Rightarrow> int \<times> 'd" where
  "CreateAppTaskTable rd = create_table rd TABLE_NAME_TASK
     [(''task_date'', ''INTEGER''), (''task_type'', ''INTEGER''), (''uid'', ''INTEGER''), (''pid'', ''INTEGER''),
      (''bundle_name'', ''TEXT''), (''bundle_version'', ''TEXT''), (''start_time'', ''INTEGER''),
      (''finish_time'', ''INTEGER''), (''resource_path'', ''TEXT''), (''resource_size'', ''INTEGER''),
      (''cost_cpu'', ''REAL''), (''state'', ''INTEGER'')]"

definition CreateTraceBehaviorDbHelperTable :: "'d rdb \<Rightarrow> 'd \<Rightarrow> int \<times> 'd" where
  "CreateTraceBehaviorDbHelperTable rd = create_table rd TABLE_NAME_BEHAVIOR
     [(''behavior_id '', ''INTEGER''), (''task_date'', ''INTEGER''), (''used_quota'', ''INTEGER'')]"

definition CreateTelemetryControlTable :: "'d rdb \<Rightarrow> 'd \<Rightarrow> int \<times> 'd" where
  "CreateTelemetryControlTable rd = create_table rd TABLE_TELEMETRY_CONTROL
     [(''telemetry_id'', ''TEXT''), (''module'', ''TEXT''), (''used_size'', ''INTEGER''), (''quota'', ''INTEGER''),
      (''running_time'', ''INTEGER'')]"

definition CreateAppSystemTable :: "'d rdb \<Rightarrow> 'd \<Rightarrow> int \<times> 'd" where
  "CreateAppSystemTable rd = create_table rd APP_SYSTEM_CONTROL
     [(''uid'', ''INTEGER''), (''package_name'', ''TEXT''), (''system_time'', ''TEXT''),
      (''trace_duration'', ''INTEGER''), (''used_size'', ''INTEGER'')]"

text \<open>Failures are logged only.\<close>

definition OnCreate :: "'d rdb \<Rightarrow> 'd \<Rightarrow> rdb_code \<times> 'd" where
  "OnCreate rd d =
     (E_OK, fold (\<lambda>f d. snd (f d))
        [CreateTraceFlowControlTable rd, CreateAppTaskTable rd, CreateTraceBehaviorDbHelperTable rd,
         CreateTelemetryControlTable rd, CreateAppSystemTable rd] d)"

definition OnUpgrade :: "'d rdb \<Rightarrow> int \<Rightarrow> int \<Rightarrow> 'd \<Rightarrow> rdb_code \<times> 'd" where
  "OnUpgrade rd oldVersion newVersion d =
     OnCreate rd (fold (\<lambda>table d. snd (rdbExecuteSql rd (GenerateDropSql table) d))
       [FLOW_TABLE_NAME, TABLE_NAME_TASK, TABLE_NAME_BEHAVIOR, TABLE_TELEMETRY_CONTROL, APP_SYSTEM_CONTROL] d)"

section \<open>Flow of a caller\<close>

record trace_flow_record =
  frSystemTime :: string
  frCallerName :: string
  frUsedIoSize :: int
  frUsedZipSize :: int
  frDynamicDecrease :: int

record trace_storage =
  tsRecord :: trace_flow_record
  tsName :: string
  tsIoQuota :: int
  tsZipQuota :: int
  tsDecreaseUnit :: int

definition new_flow_record :: "string \<Rightarrow> trace_flow_record" where
  "new_flow_record callerName = \<lparr>frSystemTime = [], frCallerName = callerName, frUsedIoSize = 0,
     frUsedZipSize = 0, frDynamicDecrease = 0\<rparr>"

definition flow_bucket :: "trace_flow_record \<Rightarrow> bucket" where
  "flow_bucket r = [(''system_time'', RText (frSystemTime r)), (''caller_name'', RText (frCallerName r)),
     (''io_used_size'', RInt (frUsedIoSize r)), (''zip_used_size'', RInt (frUsedZipSize r)),
     (''dynamic_decrease'', RInt (frDynamicDecrease r))]"

definition TraceStorage_Query :: "('d, 'j) quota_env \<Rightarrow> trace_flow_record \<Rightarrow> 'd db_world \<Rightarrow> trace_flow_record \<times> 'd db_world" where
  "TraceStorage_Query env r w =
     (case dwStore w of
        None \<Rightarrow> (r, w)
      | Some s \<Rightarrow>
          (case db_Query (qeOps env) (qeRdb env) FLOW_TABLE_NAME [EqualTo ''caller_name'' (RText (frCallerName r))]
                  [''system_time'', ''io_used_size'', ''zip_used_size'', ''dynamic_decrease''] s w of
             (Some (row # rows), w1) \<Rightarrow>
               (r\<lparr>frSystemTime := get_string row 0 (frSystemTime r), frUsedIoSize := get_long row 1 (frUsedIoSize r),
                  frUsedZipSize := get_long row 2 (frUsedZipSize r),
                  frDynamicDecrease := get_long row 3 (frDynamicDecrease r)\<rparr>, w1)
           | (x, w1) \<Rightarrow> (r, w1)))"

definition TraceStorage_UpdateTable :: "('d, 'j) quota_env \<Rightarrow> trace_flow_record \<Rightarrow> 'd restorable_db \<Rightarrow> 'd db_world \<Rightarrow> 'd db_world" where
  "TraceStorage_UpdateTable env r s w =
     snd (db_Update (qeOps env) (qeRdb env) FLOW_TABLE_NAME (flow_bucket r)
       [EqualTo ''caller_name'' (RText (frCallerName r))] s w)"

definition TraceStorage_InsertTable :: "('d, 'j) quota_env \<Rightarrow> trace_flow_record \<Rightarrow> 'd restorable_db \<Rightarrow> 'd db_world \<Rightarrow> 'd db_world" where
  "TraceStorage_InsertTable env r s w =
     snd (snd (db_Insert (qeOps env) (qeRdb env) 0 FLOW_TABLE_NAME (flow_bucket r) s w))"

text \<open>A record without a date does not exist yet.\<close>

definition TraceStorage_Store :: "('d, 'j) quota_env \<Rightarrow> trace_flow_record \<Rightarrow> 'd db_world \<Rightarrow> 'd db_world" where
  "TraceStorage_Store env r w =
     (case dwStore w of
        None \<Rightarrow> w
      | Some s \<Rightarrow>
          (case TraceStorage_Query env (new_flow_record (frCallerName r)) w of
             (tmp, w1) \<Rightarrow>
               if frSystemTime tmp \<noteq> [] then TraceStorage_UpdateTable env r s w1
               else TraceStorage_InsertTable env r s w1))"

definition InitTraceQuota :: "('d, 'j) quota_env \<Rightarrow> string \<Rightarrow> file_system \<Rightarrow> trace_storage \<Rightarrow> trace_storage" where
  "InitTraceQuota env configFile fs ts =
     (let js = qeJson env in
      case ParseJsonRoot js fs configFile of
        None \<Rightarrow> ts
      | Some root \<Rightarrow>
          (case (cjGetObjectItem js root ''ioQuota'', cjGetObjectItem js root ''zipQuota'') of
             (Some ioObj, Some zipObj) \<Rightarrow>
               if \<not> cjIsObject js ioObj \<or> \<not> cjIsObject js zipObj then ts
               else ts\<lparr>tsIoQuota := GetIntValue js ioObj (tsName ts) 0, tsZipQuota := GetIntValue js zipObj (tsName ts) 0,
                       tsDecreaseUnit := GetIntValue js zipObj ''DecreaseUnit'' 0\<rparr>
           | x \<Rightarrow> ts))"

definition TraceStorage :: "('d, 'j) quota_env \<Rightarrow> string \<Rightarrow> string \<Rightarrow> 'd db_world \<Rightarrow> trace_storage \<times> 'd db_world" where
  "TraceStorage env name configPath w =
     (let ts = InitTraceQuota env (configPath @ ''trace_quota_config.json'') (dwFs w)
                 \<lparr>tsRecord = new_flow_record [], tsName = name, tsIoQuota = 0, tsZipQuota = 0, tsDecreaseUnit = 0\<rparr>
      in case TraceStorage_Query env ((tsRecord ts)\<lparr>frCallerName := name\<rparr>) w of
           (r, w1) \<Rightarrow> (ts\<lparr>tsRecord := r\<rparr>, w1))"

definition IsDateChange :: "string \<Rightarrow> trace_storage \<Rightarrow> bool \<times> trace_storage" where
  "IsDateChange nowDays ts =
     (if nowDays \<noteq> frSystemTime (tsRecord ts)
      then (True, ts\<lparr>tsRecord := (tsRecord ts)\<lparr>frSystemTime := nowDays, frUsedIoSize := 0, frUsedZipSize := 0,
                        frDynamicDecrease := 0\<rparr>\<rparr>)
      else (False, ts))"

text \<open>
  \<open>TEN_PERCENT_LIMIT\<close> is a \<open>float\<close>, so that the sums are \<open>float\<close> too: every integer and every result is
  rounded to 24 bits, ties to even. The values are counted in units of \<open>2 ^ -27\<close>, of which
  \<open>0.1f\<close> is a multiple.
\<close>

fun bit_count :: "nat \<Rightarrow> nat" where
  "bit_count n = (if n = 0 then 0 else Suc (bit_count (n div 2)))"

declare bit_count.simps [simp del]

definition round_float :: "nat \<Rightarrow> nat" where
  "round_float m =
     (let k = bit_count m - 24; q = m div 2 ^ k; r = m mod 2 ^ k
      in (if 2 * r > 2 ^ k \<or> 2 * r = 2 ^ k \<and> odd q then q + 1 else q) * 2 ^ k)"

definition TEN_PERCENT_LIMIT :: nat where "TEN_PERCENT_LIMIT = 13421773"

definition add_ten_percent :: "int \<Rightarrow> int \<Rightarrow> int" where
  "add_ten_percent a quota =
     int (round_float (round_float (nat a) * 2 ^ 27 + round_float (round_float (nat quota) * TEN_PERCENT_LIMIT)) div 2 ^ 27)"

definition GetRemainingTraceSize :: "string \<Rightarrow> trace_storage \<Rightarrow> int \<times> trace_storage" where
  "GetRemainingTraceSize today ts =
     (if tsZipQuota ts \<le> 0 then (0, ts)
      else case IsDateChange today ts of
        (changed, ts1) \<Rightarrow>
          if changed then (add_ten_percent (tsZipQuota ts1) (tsZipQuota ts1), ts1)
          else if tsZipQuota ts1 \<le> frUsedZipSize (tsRecord ts1) then (0, ts1)
          else (add_ten_percent (tsZipQuota ts1 - frUsedZipSize (tsRecord ts1)) (tsZipQuota ts1), ts1))"

definition IsZipOverFlow :: "string \<Rightarrow> trace_storage \<Rightarrow> bool \<times> trace_storage" where
  "IsZipOverFlow today ts =
     (if tsZipQuota ts \<le> 0 then (True, ts)
      else case IsDateChange today ts of
        (changed, ts1) \<Rightarrow>
          if changed then (False, ts1)
          else (tsZipQuota ts1 - frDynamicDecrease (tsRecord ts1) < frUsedZipSize (tsRecord ts1), ts1))"

definition DecreaseDynamicThreshold :: "('d, 'j) quota_env \<Rightarrow> trace_storage \<Rightarrow> 'd db_world \<Rightarrow> trace_storage \<times> 'd db_world" where
  "DecreaseDynamicThreshold env ts w =
     (if tsZipQuota ts \<le> 0 then (ts, w)
      else let r = (tsRecord ts)\<lparr>frDynamicDecrease := frDynamicDecrease (tsRecord ts) + tsDecreaseUnit ts\<rparr>
           in (ts\<lparr>tsRecord := r\<rparr>, TraceStorage_Store env r w))"

definition StoreTraceSize :: "('d, 'j) quota_env \<Rightarrow> int \<Rightarrow> trace_storage \<Rightarrow> 'd db_world \<Rightarrow> trace_storage \<times> 'd db_world" where
  "StoreTraceSize env traceSize ts w =
     (let r = tsRecord ts;
          r1 = (if tsIoQuota ts > 0 then r\<lparr>frUsedIoSize := frUsedIoSize r + traceSize\<rparr> else r);
          r2 = (if tsZipQuota ts > 0 then r1\<lparr>frUsedZipSize := frUsedZipSize r1 + traceSize\<rparr> else r1)
      in (ts\<lparr>tsRecord := r2\<rparr>, TraceStorage_Store env r2 w))"

definition IsIoOverFlow :: "string \<Rightarrow> trace_storage \<Rightarrow> bool \<times> trace_storage" where
  "IsIoOverFlow today ts =
     (if tsIoQuota ts \<le> 0 then (True, ts)
      else case IsDateChange today ts of
        (changed, ts1) \<Rightarrow>
          if changed then (False, ts1) else (tsIoQuota ts1 < frUsedIoSize (tsRecord ts1), ts1))"

definition StoreIoSize :: "('d, 'j) quota_env \<Rightarrow> int \<Rightarrow> trace_storage \<Rightarrow> 'd db_world \<Rightarrow> trace_storage \<times> 'd db_world" where
  "StoreIoSize env traceSize ts w =
     (if tsIoQuota ts \<le> 0 then (ts, w)
      else let r = (tsRecord ts)\<lparr>frUsedIoSize := frUsedIoSize (tsRecord ts) + traceSize\<rparr>
           in (ts\<lparr>tsRecord := r\<rparr>, TraceStorage_Store env r w))"

section \<open>Flow of an app\<close>

record app_table_record =
  arSystemTime :: string
  arPackageName :: string
  arDuration :: int
  arUsedSize :: int

record app_storage =
  asUid :: int
  asConfigPath :: string
  asTotalUsedSize :: int
  asTotalDuration :: int
  asAppDuration :: int
  asAppUsedSize :: int
  asAppDurationLimits :: int
  asTotalDurationLimits :: int
  asAppFlowLimits :: int
  asTotalFlowLimits :: int

definition AppTraceStorage :: "string \<Rightarrow> int \<Rightarrow> app_storage" where
  "AppTraceStorage configPath uid = \<lparr>asUid = uid, asConfigPath = configPath, asTotalUsedSize = 0, asTotalDuration = 0,
     asAppDuration = 0, asAppUsedSize = 0, asAppDurationLimits = 0, asTotalDurationLimits = 0, asAppFlowLimits = 0,
     asTotalFlowLimits = 0\<rparr>"

definition app_bucket :: "int \<Rightarrow> app_table_record \<Rightarrow> bucket" where
  "app_bucket uid r = [(''uid'', RInt uid), (''package_name'', RText (arPackageName r)),
     (''system_time'', RText (arSystemTime r)), (''trace_duration'', RInt (arDuration r)), (''used_size'', RInt (arUsedSize r))]"

text \<open>The rows are added up until one of another day is met, which removes all rows.\<close>

fun app_rows_loop :: "('d, 'j) quota_env \<Rightarrow> string \<Rightarrow> 'd restorable_db \<Rightarrow> rdb_value option list list \<Rightarrow> app_storage \<Rightarrow>
    'd db_world \<Rightarrow> app_storage \<times> 'd db_world" where
  "app_rows_loop env todayStr s [] st w = (st, w)"
| "app_rows_loop env todayStr s (row # rows) st w =
     (if get_string row 1 [] \<noteq> todayStr
      then (st, snd (db_Delete (qeOps env) (qeRdb env) APP_SYSTEM_CONTROL [] s w))
      else let appDuration = get_long row 2 0; appUsedSize = get_long row 3 0;
               st1 = (if get_long row 0 0 = asUid st
                      then st\<lparr>asAppDuration := appDuration, asAppUsedSize := appUsedSize\<rparr> else st)
           in app_rows_loop env todayStr s rows
                (st1\<lparr>asTotalDuration := asTotalDuration st1 + appDuration, asTotalUsedSize := asTotalUsedSize st1 + appUsedSize\<rparr>) w)"

text \<open>\<open>None\<close> when the null pointer to the database is used.\<close>

definition InitTableAppData :: "('d, 'j) quota_env \<Rightarrow> string \<Rightarrow> app_storage \<Rightarrow> 'd db_world \<Rightarrow>
    (bool \<times> app_storage \<times> 'd db_world) option" where
  "InitTableAppData env todayStr st w =
     (case dwStore w of
        None \<Rightarrow> None
      | Some s \<Rightarrow>
          (case db_CreateTransaction (qeOps env) (qeRdb env) s w of
             ((code, made), w1) \<Rightarrow>
               if code \<noteq> E_OK \<or> \<not> made then Some (False, st, w1)
               else case db_Query (qeOps env) (qeRdb env) APP_SYSTEM_CONTROL []
                           [''uid'', ''system_time'', ''trace_duration'', ''used_size''] s w1 of
                 (None, w2) \<Rightarrow> Some (False, st, w2\<lparr>dwDb := rdbCommit (qeRdb env) (dwDb w2)\<rparr>)
               | (Some rows, w2) \<Rightarrow>
                   (case app_rows_loop env todayStr s rows st w2 of
                      (st1, w3) \<Rightarrow> Some (True, st1, w3\<lparr>dwDb := rdbCommit (qeRdb env) (dwDb w3)\<rparr>))))"

definition InitQuotaConfig :: "('d, 'j) quota_env \<Rightarrow> file_system \<Rightarrow> app_storage \<Rightarrow> bool \<times> app_storage" where
  "InitQuotaConfig env fs st =
     (let js = qeJson env in
      case ParseJsonRoot js fs (asConfigPath st @ ''trace_quota_config.json'') of
        None \<Rightarrow> (False, st)
      | Some root \<Rightarrow>
          (case GetObjectValue js root ''appSystemQuota'' of
             None \<Rightarrow> (False, st)
           | Some q \<Rightarrow>
               (True, st\<lparr>asAppDurationLimits := GetIntValue js q ''AppDurationLimits'' 0,
                         asTotalDurationLimits := GetIntValue js q ''TotalDurationLimits'' 0,
                         asAppFlowLimits := GetIntValue js q ''AppFlowLimits'' 0,
                         asTotalFlowLimits := GetIntValue js q ''TotalFlowLimits'' 0\<rparr>)))"

definition IsAppOverFlow :: "('d, 'j) quota_env \<Rightarrow> string \<Rightarrow> app_storage \<Rightarrow> 'd db_world \<Rightarrow> (bool \<times> app_storage \<times> 'd db_world) option" where
  "IsAppOverFlow env todayStr st w =
     (case InitTableAppData env todayStr st w of
        None \<Rightarrow> None
      | Some (False, st1, w1) \<Rightarrow> Some (True, st1, w1)
      | Some (True, st1, w1) \<Rightarrow>
          (case InitQuotaConfig env (dwFs w1) st1 of
             (ok, st2) \<Rightarrow>
               if \<not> ok then Some (True, st2, w1)
               else Some (asAppDuration st2 > asAppDurationLimits st2 \<or> asAppUsedSize st2 > asAppFlowLimits st2 \<or>
                          asTotalDuration st2 > asTotalDurationLimits st2 \<or> asTotalUsedSize st2 > asTotalFlowLimits st2,
                          st2, w1)))"

definition QueryExistInfo :: "('d, 'j) quota_env \<Rightarrow> int \<Rightarrow> 'd restorable_db \<Rightarrow> 'd db_world \<Rightarrow> app_table_record option \<times> 'd db_world" where
  "QueryExistInfo env uid s w =
     (case db_Query (qeOps env) (qeRdb env) APP_SYSTEM_CONTROL [EqualTo ''uid'' (RInt uid)]
             [''package_name'', ''system_time'', ''trace_duration'', ''used_size''] s w of
        (Some (row # rows), w1) \<Rightarrow>
          (Some \<lparr>arSystemTime = get_string row 1 [], arPackageName = get_string row 0 [], arDuration = get_long row 2 0,
                 arUsedSize = get_long row 3 0\<rparr>, w1)
      | (x, w1) \<Rightarrow> (None, w1))"

definition StoreAppTraceInfo :: "('d, 'j) quota_env \<Rightarrow> string \<Rightarrow> string \<Rightarrow> int \<Rightarrow> int \<Rightarrow> app_storage \<Rightarrow> 'd db_world \<Rightarrow> 'd db_world" where
  "StoreAppTraceInfo env todayStr packageName traceDuration fileSize st w =
     (case dwStore w of
        None \<Rightarrow> w
      | Some s \<Rightarrow>
          (case QueryExistInfo env (asUid st) s w of
             (Some r, w1) \<Rightarrow>
               snd (db_Update (qeOps env) (qeRdb env) APP_SYSTEM_CONTROL
                 (app_bucket (asUid st) (r\<lparr>arDuration := arDuration r + traceDuration, arUsedSize := arUsedSize r + fileSize\<rparr>))
                 [EqualTo ''uid'' (RInt (asUid st))] s w1)
           | (None, w1) \<Rightarrow>
               snd (snd (db_Insert (qeOps env) (qeRdb env) 0 APP_SYSTEM_CONTROL
                 (app_bucket (asUid st) \<lparr>arSystemTime = todayStr, arPackageName = packageName, arDuration = traceDuration,
                    arUsedSize = fileSize\<rparr>) s w1))))"

section \<open>Telemetry\<close>

datatype telemetry_ret = TELEMETRY_SUCCESS | TELEMETRY_OVER_FLOW | TELEMETRY_EMPTY_DATA | TELEMETRY_FAILED

record telemetry_flow_record =
  tfUsedSize :: int
  tfQuotaSize :: int
  tfTotalUsedSize :: int
  tfTotalQuotaSize :: int

text \<open>The used size and the quota of a module.\<close>

definition Telemetry_QueryTable :: "('d, 'j) quota_env \<Rightarrow> string \<Rightarrow> 'd restorable_db \<Rightarrow> 'd db_world \<Rightarrow> (int \<times> int) option \<times> 'd db_world" where
  "Telemetry_QueryTable env module s w =
     (case db_Query (qeOps env) (qeRdb env) TABLE_TELEMETRY_CONTROL [EqualTo ''module'' (RText module)]
             [''used_size'', ''quota''] s w of
        (Some (row # rows), w1) \<Rightarrow> (Some (get_long row 0 0, get_long row 1 0), w1)
      | (x, w1) \<Rightarrow> (None, w1))"

definition Telemetry_UpdateTable :: "('d, 'j) quota_env \<Rightarrow> string \<Rightarrow> int \<Rightarrow> 'd restorable_db \<Rightarrow> 'd db_world \<Rightarrow> bool \<times> 'd db_world" where
  "Telemetry_UpdateTable env module newSize s w =
     (case db_Update (qeOps env) (qeRdb env) TABLE_TELEMETRY_CONTROL [(''used_size'', RInt newSize)]
             [EqualTo ''module'' (RText module)] s w of
        (ret, w1) \<Rightarrow> (ret = E_OK, w1))"

definition GetFlowRecord :: "('d, 'j) quota_env \<Rightarrow> string \<Rightarrow> 'd restorable_db \<Rightarrow> 'd db_world \<Rightarrow> telemetry_flow_record option \<times> 'd db_world" where
  "GetFlowRecord env module s w =
     (case Telemetry_QueryTable env module s w of
        (None, w1) \<Rightarrow> (None, w1)
      | (Some (used, quota), w1) \<Rightarrow>
          (case Telemetry_QueryTable env ''Total'' s w1 of
             (None, w2) \<Rightarrow> (None, w2)
           | (Some (totalUsed, totalQuota), w2) \<Rightarrow>
               (Some \<lparr>tfUsedSize = used, tfQuotaSize = quota, tfTotalUsedSize = totalUsed, tfTotalQuotaSize = totalQuota\<rparr>, w2)))"

definition telemetry_bucket :: "string \<Rightarrow> string \<times> int \<Rightarrow> bucket" where
  "telemetry_bucket telemetryId quotaPair =
     [(''telemetry_id'', RText telemetryId), (''module'', RText (fst quotaPair)), (''used_size'', RInt 0),
      (''quota'', RInt (snd quotaPair))] @ (if fst quotaPair = ''Total'' then [(''running_time'', RInt 0)] else [])"

definition Storage_InitTelemetryQuota :: "('d, 'j) quota_env \<Rightarrow> string \<Rightarrow> (string \<times> int) list \<Rightarrow> 'd db_world \<Rightarrow> telemetry_ret \<times> 'd db_world" where
  "Storage_InitTelemetryQuota env telemetryId flowControlQuotas w =
     (case dwStore w of
        None \<Rightarrow> (TELEMETRY_FAILED, w)
      | Some s \<Rightarrow>
          (case db_BatchInsert (qeOps env) (qeRdb env) TABLE_TELEMETRY_CONTROL
                  (map (telemetry_bucket telemetryId) flowControlQuotas) s w of
             (ret, w1) \<Rightarrow> (if ret \<noteq> E_OK then TELEMETRY_FAILED else TELEMETRY_SUCCESS, w1)))"

definition Storage_NeedTelemetryDump :: "('d, 'j) quota_env \<Rightarrow> string \<Rightarrow> 'd db_world \<Rightarrow> telemetry_ret \<times> 'd db_world" where
  "Storage_NeedTelemetryDump env module w =
     (case dwStore w of
        None \<Rightarrow> (TELEMETRY_FAILED, w)
      | Some s \<Rightarrow>
          (case GetFlowRecord env module s w of
             (None, w1) \<Rightarrow> (TELEMETRY_FAILED, w1)
           | (Some r, w1) \<Rightarrow>
               (if tfUsedSize r > tfQuotaSize r \<or> tfTotalUsedSize r > tfTotalQuotaSize r then TELEMETRY_OVER_FLOW
                else TELEMETRY_SUCCESS, w1)))"

definition Storage_ClearTelemetryData :: "('d, 'j) quota_env \<Rightarrow> 'd db_world \<Rightarrow> 'd db_world" where
  "Storage_ClearTelemetryData env w =
     (case dwStore w of
        None \<Rightarrow> w
      | Some s \<Rightarrow> snd (db_Delete (qeOps env) (qeRdb env) TABLE_TELEMETRY_CONTROL [] s w))"

definition Storage_QueryRunningTime :: "('d, 'j) quota_env \<Rightarrow> string \<Rightarrow> int \<Rightarrow> 'd db_world \<Rightarrow> (telemetry_ret \<times> int) \<times> 'd db_world" where
  "Storage_QueryRunningTime env telemetryId runningTime w =
     (case dwStore w of
        None \<Rightarrow> ((TELEMETRY_FAILED, runningTime), w)
      | Some s \<Rightarrow>
          (case db_Query (qeOps env) (qeRdb env) TABLE_TELEMETRY_CONTROL
                  [EqualTo ''module'' (RText ''Total''), EqualTo ''telemetry_id'' (RText telemetryId)] [''running_time''] s w of
             (None, w1) \<Rightarrow> ((TELEMETRY_FAILED, runningTime), w1)
           | (Some [], w1) \<Rightarrow> ((TELEMETRY_EMPTY_DATA, runningTime), w1)
           | (Some (row # rows), w1) \<Rightarrow> ((TELEMETRY_SUCCESS, get_long row 0 runningTime), w1)))"

definition Storage_UpdateRunningTime :: "('d, 'j) quota_env \<Rightarrow> string \<Rightarrow> int \<Rightarrow> 'd db_world \<Rightarrow> telemetry_ret \<times> 'd db_world" where
  "Storage_UpdateRunningTime env telemetryId runningTime w =
     (case dwStore w of
        None \<Rightarrow> (TELEMETRY_FAILED, w)
      | Some s \<Rightarrow>
          (case db_Update (qeOps env) (qeRdb env) TABLE_TELEMETRY_CONTROL [(''running_time'', RInt runningTime)]
                  [EqualTo ''module'' (RText ''Total''), EqualTo ''telemetry_id'' (RText telemetryId)] s w of
             (ret, w1) \<Rightarrow> (if ret \<noteq> E_OK then TELEMETRY_FAILED else TELEMETRY_SUCCESS, w1)))"

text \<open>The updates go through the store and not through the transaction.\<close>

definition Storage_TelemetryStore :: "('d, 'j) quota_env \<Rightarrow> string \<Rightarrow> int \<Rightarrow> 'd db_world \<Rightarrow> 'd db_world" where
  "Storage_TelemetryStore env module traceSize w =
     (case dwStore w of
        None \<Rightarrow> w
      | Some s \<Rightarrow>
          (case db_CreateTransaction (qeOps env) (qeRdb env) s w of
             ((code, made), w1) \<Rightarrow>
               if code \<noteq> E_OK \<or> \<not> made then w1
               else case GetFlowRecord env module s w1 of
                 (None, w2) \<Rightarrow> w2\<lparr>dwDb := rdbCommit (qeRdb env) (dwDb w2)\<rparr>
               | (Some r, w2) \<Rightarrow>
                   (case Telemetry_UpdateTable env module (tfUsedSize r + traceSize) s w2 of
                      (ok, w3) \<Rightarrow>
                        if \<not> ok then w3\<lparr>dwDb := rdbRollback (qeRdb env) (dwDb w3)\<rparr>
                        else case Telemetry_UpdateTable env ''Total'' (tfTotalUsedSize r + traceSize) s w3 of
                          (ok, w4) \<Rightarrow>
                            if \<not> ok then w4\<lparr>dwDb := rdbRollback (qeRdb env) (dwDb w4)\<rparr>
                            else w4\<lparr>dwDb := rdbCommit (qeRdb env) (dwDb w4)\<rparr>)))"

section \<open>Time of the cache\<close>

definition CACHE_LOW_MEM :: int where "CACHE_LOW_MEM = 0"

record behavior_record =
  brBehaviorId :: int
  brDateNum :: string
  brUsedQuota :: int

definition behavior_bucket :: "behavior_record \<Rightarrow> bucket" where
  "behavior_bucket r = [(''behavior_id '', RInt (brBehaviorId r)), (''task_date'', RText (brDateNum r)),
     (''used_quota'', RInt (brUsedQuota r))]"

definition behavior_key :: "behavior_record \<Rightarrow> rdb_pred list" where
  "behavior_key r = [EqualTo ''behavior_id '' (RInt (brBehaviorId r)), EqualTo ''task_date'' (RText (brDateNum r))]"

definition GetRecord :: "('d, 'j) quota_env \<Rightarrow> behavior_record \<Rightarrow> 'd db_world \<Rightarrow> bool \<times> behavior_record \<times> 'd db_world" where
  "GetRecord env r w =
     (case dwStore w of
        None \<Rightarrow> (False, r, w)
      | Some s \<Rightarrow>
          (case db_Query (qeOps env) (qeRdb env) TABLE_NAME_BEHAVIOR (behavior_key r) [''used_quota''] s w of
             (None, w1) \<Rightarrow> (False, r, w1)
           | (Some [], w1) \<Rightarrow> (False, r\<lparr>brUsedQuota := 0\<rparr>, w1)
           | (Some (row # rows), w1) \<Rightarrow> (True, r\<lparr>brUsedQuota := get_long row 0 (brUsedQuota r)\<rparr>, w1)))"

definition InsertRecord :: "('d, 'j) quota_env \<Rightarrow> behavior_record \<Rightarrow> 'd db_world \<Rightarrow> bool \<times> 'd db_world" where
  "InsertRecord env r w =
     (case dwStore w of
        None \<Rightarrow> (False, w)
      | Some s \<Rightarrow>
          (case db_Insert (qeOps env) (qeRdb env) 0 TABLE_NAME_BEHAVIOR (behavior_bucket r) s w of
             (ret, i, w1) \<Rightarrow> (ret = E_OK, w1)))"

definition UpdateRecord :: "('d, 'j) quota_env \<Rightarrow> behavior_record \<Rightarrow> 'd db_world \<Rightarrow> bool \<times> 'd db_world" where
  "UpdateRecord env r w =
     (case dwStore w of
        None \<Rightarrow> (False, w)
      | Some s \<Rightarrow>
          (case db_Update (qeOps env) (qeRdb env) TABLE_NAME_BEHAVIOR (behavior_bucket r) (behavior_key r) s w of
             (ret, w1) \<Rightarrow> (ret = E_OK, w1)))"

section \<open>Captures of apps\<close>

record app_event_task =
  atId :: int
  atTaskDate :: int
  atTaskType :: int
  atUid :: int
  atPid :: int
  atBundleName :: string
  atBundleVersion :: string
  atStartTime :: int
  atFinishTime :: int
  atResourcePath :: string
  atResourceSize :: int
  atCostCpu :: u64
  atState :: int

definition new_app_event_task :: app_event_task where
  "new_app_event_task = \<lparr>atId = 0, atTaskDate = 0, atTaskType = 0, atUid = 0, atPid = 0, atBundleName = [],
     atBundleVersion = [], atStartTime = 0, atFinishTime = 0, atResourcePath = [], atResourceSize = 0, atCostCpu = 0,
     atState = 0\<rparr>"

definition get_double :: "rdb_value option list \<Rightarrow> nat \<Rightarrow> u64 \<Rightarrow> u64" where
  "get_double row i old = (if i < length row then (case row ! i of Some (RDouble x) \<Rightarrow> x | y \<Rightarrow> old) else old)"

definition InnerGetAppTask :: "rdb_value option list list \<Rightarrow> app_event_task \<Rightarrow> app_event_task" where
  "InnerGetAppTask rows t =
     (case rows of
        [] \<Rightarrow> t
      | row # rest \<Rightarrow>
          t\<lparr>atId := get_long row 0 (atId t), atTaskDate := get_long row 1 (atTaskDate t),
            atTaskType := get_long row 2 (atTaskType t), atUid := get_long row 3 (atUid t), atPid := get_long row 4 (atPid t),
            atBundleName := get_string row 5 (atBundleName t), atBundleVersion := get_string row 6 (atBundleVersion t),
            atStartTime := get_long row 7 (atStartTime t), atFinishTime := get_long row 8 (atFinishTime t),
            atResourcePath := get_string row 9 (atResourcePath t), atResourceSize := get_long row 10 (atResourceSize t),
            atCostCpu := get_double row 11 (atCostCpu t), atState := get_long row 12 (atState t)\<rparr>)"

definition GetAppEventTask :: "('d, 'j) quota_env \<Rightarrow> int \<Rightarrow> int \<Rightarrow> app_event_task \<Rightarrow> 'd db_world \<Rightarrow> bool \<times> app_event_task \<times> 'd db_world" where
  "GetAppEventTask env uid eventDate t w =
     (case dwStore w of
        None \<Rightarrow> (False, t, w)
      | Some s \<Rightarrow>
          (let t0 = t\<lparr>atId := 0\<rparr> in
           case db_Query (qeOps env) (qeRdb env) TABLE_NAME_TASK
                  [EqualTo ''uid'' (RInt uid), EqualTo ''task_date'' (RInt eventDate)]
                  [''id'', ''task_date'', ''task_type'', ''uid'', ''pid'', ''bundle_name'', ''bundle_version'', ''start_time'',
                   ''finish_time'', ''resource_path'', ''resource_size'', ''cost_cpu'', ''state''] s w of
             (None, w1) \<Rightarrow> (False, t0, w1)
           | (Some rows, w1) \<Rightarrow> (True, InnerGetAppTask rows t0, w1)))"

definition task_bucket :: "app_event_task \<Rightarrow> bucket" where
  "task_bucket t = [(''task_date'', RInt (atTaskDate t)), (''task_type'', RInt (atTaskType t)), (''uid'', RInt (atUid t)),
     (''pid'', RInt (atPid t)), (''bundle_name'', RText (atBundleName t)), (''bundle_version'', RText (atBundleVersion t)),
     (''start_time'', RInt (atStartTime t)), (''finish_time'', RInt (atFinishTime t)),
     (''resource_path'', RText (atResourcePath t)), (''resource_size'', RInt (atResourceSize t)),
     (''cost_cpu'', RDouble (atCostCpu t)), (''state'', RInt (atState t))]"

definition InsertAppEventTask :: "('d, 'j) quota_env \<Rightarrow> app_event_task \<Rightarrow> 'd db_world \<Rightarrow> bool \<times> app_event_task \<times> 'd db_world" where
  "InsertAppEventTask env t w =
     (case dwStore w of
        None \<Rightarrow> (False, t, w)
      | Some s \<Rightarrow>
          (case db_Insert (qeOps env) (qeRdb env) (atId t) TABLE_NAME_TASK (task_bucket t) s w of
             (ret, i, w1) \<Rightarrow> (ret = E_OK, t\<lparr>atId := i\<rparr>, w1)))"

definition RemoveAppEventTask :: "('d, 'j) quota_env \<Rightarrow> int \<Rightarrow> 'd db_world \<Rightarrow> 'd db_world" where
  "RemoveAppEventTask env eventDate w =
     (case dwStore w of
        None \<Rightarrow> w
      | Some s \<Rightarrow> snd (db_Delete (qeOps env) (qeRdb env) TABLE_NAME_TASK [LessThan ''task_date'' (RInt eventDate)] s w))"

end
