(* ===== verification/Trace_Strategy.thy ===== *)
theory Trace_Strategy
  imports Trace_Storage Trace_State_Machine
begin

text \<open>
  \<open>TraceFlowController\<close> (trace_manager/src/trace_flow_controller.cpp) and the strategies that dump a trace
  for a caller within its quota (collector/impl/trace/strategy). A strategy is made for each dump by
  \<open>TraceStrategyFactory\<close>, with a controller of its own that reads the database; the collector holds a
  mutex during a dump, so that dumps follow each other. The clock is read where the code reads it: each
  operation gets the times as arguments. The handlers, which link or pack the files of a trace, are
  called through a virtual function and are arguments here. Reports of a dump to the event log are left
  out.
\<close>

section \<open>Controller\<close>

definition HITRACE_CACHE_DURATION_LIMIT_DAILY_TOTAL :: int where
  "HITRACE_CACHE_DURATION_LIMIT_DAILY_TOTAL = 10 * 60"

datatype cache_flow = CACHE_SUCCESS | CACHE_OVER_FLOW | CACHE_EXIT

record trace_flow_controller =
  fcTrace :: "trace_storage option"
  fcAppTask :: bool
  fcApp :: "app_storage option"
  fcBehavior :: bool
  fcTelemetry :: bool

definition no_controller :: trace_flow_controller where
  "no_controller = \<lparr>fcTrace = None, fcAppTask = False, fcApp = None, fcBehavior = False, fcTelemetry = False\<rparr>"

definition DB_NAME :: string where "DB_NAME = ''trace_flow_control.db''"

definition DB_VERSION :: int where "DB_VERSION = 8"

definition InitTraceDb :: "('d, 'j) quota_env \<Rightarrow> string \<Rightarrow> 'd db_world \<Rightarrow> 'd db_world" where
  "InitTraceDb env dbPath w =
     (case Initialize (qeOps env) (qeRdb env) (Some (OnCreate (qeRdb env))) (Some (OnUpgrade (qeRdb env))) None
             (RestorableDbStore (qeOps env) dbPath DB_NAME DB_VERSION) w of
        (ret, w1) \<Rightarrow> if ret \<noteq> E_OK then w1\<lparr>dwStore := None\<rparr> else w1)"

definition InitTraceStorage :: "('d, 'j) quota_env \<Rightarrow> string \<Rightarrow> string \<Rightarrow> 'd db_world \<Rightarrow> trace_flow_controller \<times> 'd db_world" where
  "InitTraceStorage env name configPath w =
     (if dwStore w = None then (no_controller, w)
      else if name = ''APP'' then (no_controller\<lparr>fcAppTask := True\<rparr>, w)
      else if name = ''behavior'' then (no_controller\<lparr>fcBehavior := True\<rparr>, w)
      else if name = ''Telemetry'' then (no_controller\<lparr>fcTelemetry := True\<rparr>, w)
      else case TraceStorage env name configPath w of (ts, w1) \<Rightarrow> (no_controller\<lparr>fcTrace := Some ts\<rparr>, w1))"

definition TraceFlowController :: "('d, 'j) quota_env \<Rightarrow> string \<Rightarrow> string \<Rightarrow> string \<Rightarrow> 'd db_world \<Rightarrow> trace_flow_controller \<times> 'd db_world" where
  "TraceFlowController env name dbPath configPath w = InitTraceStorage env name configPath (InitTraceDb env dbPath w)"

definition TraceFlowController_uid :: "('d, 'j) quota_env \<Rightarrow> int \<Rightarrow> string \<Rightarrow> string \<Rightarrow> 'd db_world \<Rightarrow> trace_flow_controller \<times> 'd db_world" where
  "TraceFlowController_uid env uid dbPath configPath w =
     (no_controller\<lparr>fcApp := Some (AppTraceStorage configPath uid)\<rparr>, InitTraceDb env dbPath w)"

definition fc_GetRemainingTraceSize :: "string \<Rightarrow> trace_flow_controller \<Rightarrow> int \<times> trace_flow_controller" where
  "fc_GetRemainingTraceSize today c =
     (case fcTrace c of
        None \<Rightarrow> (0, c)
      | Some ts \<Rightarrow> (case GetRemainingTraceSize today ts of (n, ts1) \<Rightarrow> (n, c\<lparr>fcTrace := Some ts1\<rparr>)))"

definition fc_StoreIoSize :: "('d, 'j) quota_env \<Rightarrow> int \<Rightarrow> trace_flow_controller \<Rightarrow> 'd db_world \<Rightarrow> trace_flow_controller \<times> 'd db_world" where
  "fc_StoreIoSize env traceSize c w =
     (case fcTrace c of
        None \<Rightarrow> (c, w)
      | Some ts \<Rightarrow> (case StoreIoSize env traceSize ts w of (ts1, w1) \<Rightarrow> (c\<lparr>fcTrace := Some ts1\<rparr>, w1)))"

definition fc_StoreTraceSize :: "('d, 'j) quota_env \<Rightarrow> int \<Rightarrow> trace_flow_controller \<Rightarrow> 'd db_world \<Rightarrow> trace_flow_controller \<times> 'd db_world" where
  "fc_StoreTraceSize env traceSize c w =
     (case fcTrace c of
        None \<Rightarrow> (c, w)
      | Some ts \<Rightarrow> (case StoreTraceSize env traceSize ts w of (ts1, w1) \<Rightarrow> (c\<lparr>fcTrace := Some ts1\<rparr>, w1)))"

definition fc_IsZipOverFlow :: "string \<Rightarrow> trace_flow_controller \<Rightarrow> bool \<times> trace_flow_controller" where
  "fc_IsZipOverFlow today c =
     (case fcTrace c of
        None \<Rightarrow> (True, c)
      | Some ts \<Rightarrow> (case IsZipOverFlow today ts of (b, ts1) \<Rightarrow> (b, c\<lparr>fcTrace := Some ts1\<rparr>)))"

definition fc_IsIoOverFlow :: "string \<Rightarrow> trace_flow_controller \<Rightarrow> bool \<times> trace_flow_controller" where
  "fc_IsIoOverFlow today c =
     (case fcTrace c of
        None \<Rightarrow> (True, c)
      | Some ts \<Rightarrow> (case IsIoOverFlow today ts of (b, ts1) \<Rightarrow> (b, c\<lparr>fcTrace := Some ts1\<rparr>)))"

definition fc_DecreaseDynamicThreshold :: "('d, 'j) quota_env \<Rightarrow> trace_flow_controller \<Rightarrow> 'd db_world \<Rightarrow> trace_flow_controller \<times> 'd db_world" where
  "fc_DecreaseDynamicThreshold env c w =
     (case fcTrace c of
        None \<Rightarrow> (c, w)
      | Some ts \<Rightarrow> (case DecreaseDynamicThreshold env ts w of (ts1, w1) \<Rightarrow> (c\<lparr>fcTrace := Some ts1\<rparr>, w1)))"

text \<open>\<open>None\<close> when the null pointer to the database is used.\<close>

definition fc_IsAppOverFlow :: "('d, 'j) quota_env \<Rightarrow> string \<Rightarrow> trace_flow_controller \<Rightarrow> 'd db_world \<Rightarrow> (bool \<times> 'd db_world) option" where
  "fc_IsAppOverFlow env today c w =
     (case fcApp c of
        None \<Rightarrow> Some (True, w)
      | Some st \<Rightarrow> map_option (\<lambda>(over, st1, w1). (over, w1)) (IsAppOverFlow env today st w))"

definition fc_StoreAppTraceInfo :: "('d, 'j) quota_env \<Rightarrow> string \<Rightarrow> string \<Rightarrow> int \<Rightarrow> int \<Rightarrow> trace_flow_controller \<Rightarrow> 'd db_world \<Rightarrow> 'd db_world" where
  "fc_StoreAppTraceInfo env today packageName traceDuration fileSize c w =
     (case fcApp c of
        None \<Rightarrow> w
      | Some st \<Rightarrow> StoreAppTraceInfo env today packageName traceDuration fileSize st w)"

text \<open>\<open>std::from_chars\<close> for decimal numbers below a limit.\<close>

definition from_chars :: "int \<Rightarrow> string \<Rightarrow> int option" where
  "from_chars limit str =
     (let neg = (str \<noteq> [] \<and> hd str = CHR ''-'');
          ds = takeWhile is_digit (if neg then tl str else str);
          n = (if neg then - 1 else 1) * int (read_digits 10 0 ds)
      in if ds = [] \<or> n \<ge> limit \<or> n < - limit then None else Some n)"

definition HasCallOnceToday :: "('d, 'j) quota_env \<Rightarrow> int \<Rightarrow> int \<Rightarrow> trace_flow_controller \<Rightarrow> 'd db_world \<Rightarrow> bool \<times> 'd db_world" where
  "HasCallOnceToday env uid happenTime c w =
     (if \<not> fcAppTask c then (True, w)
      else case from_chars (2 ^ 31) (qeDay env (happenTime div 1000)) of
             None \<Rightarrow> (True, w)
           | Some dateNum \<Rightarrow>
               (case GetAppEventTask env uid dateNum new_app_event_task w of (ok, t, w1) \<Rightarrow> (atId t > 0, w1)))"

definition RecordCaller :: "('d, 'j) quota_env \<Rightarrow> app_event_task \<Rightarrow> trace_flow_controller \<Rightarrow> 'd db_world \<Rightarrow> bool \<times> 'd db_world" where
  "RecordCaller env t c w =
     (if \<not> fcAppTask c then (False, w)
      else case InsertAppEventTask env t w of (ok, t1, w1) \<Rightarrow> (ok, w1))"

definition fc_CleanOldAppTrace :: "('d, 'j) quota_env \<Rightarrow> int \<Rightarrow> trace_flow_controller \<Rightarrow> 'd db_world \<Rightarrow> 'd db_world" where
  "fc_CleanOldAppTrace env dateNum c w = (if \<not> fcAppTask c then w else RemoveAppEventTask env dateNum w)"

definition UseCacheTimeQuota :: "('d, 'j) quota_env \<Rightarrow> int \<Rightarrow> int \<Rightarrow> trace_flow_controller \<Rightarrow> 'd db_world \<Rightarrow> cache_flow \<times> 'd db_world" where
  "UseCacheTimeQuota env now interval c w =
     (if \<not> fcBehavior c then (CACHE_EXIT, w)
      else case GetRecord env \<lparr>brBehaviorId = CACHE_LOW_MEM, brDateNum = qeDay env now, brUsedQuota = 0\<rparr> w of
        (got, r, w1) \<Rightarrow>
          (case (if got then (True, w1) else InsertRecord env r w1) of
             (ok, w2) \<Rightarrow>
               if \<not> ok then (CACHE_EXIT, w2)
               else if brUsedQuota r \<ge> HITRACE_CACHE_DURATION_LIMIT_DAILY_TOTAL then (CACHE_OVER_FLOW, w2)
               else (CACHE_SUCCESS, snd (UpdateRecord env (r\<lparr>brUsedQuota := brUsedQuota r + interval\<rparr>) w2))))"

definition fc_InitTelemetryQuota :: "('d, 'j) quota_env \<Rightarrow> string \<Rightarrow> (string \<times> int) list \<Rightarrow> trace_flow_controller \<Rightarrow> 'd db_world \<Rightarrow> telemetry_ret \<times> 'd db_world" where
  "fc_InitTelemetryQuota env telemetryId quotas c w =
     (if \<not> fcTelemetry c then (TELEMETRY_FAILED, w) else Storage_InitTelemetryQuota env telemetryId quotas w)"

definition fc_NeedTelemetryDump :: "('d, 'j) quota_env \<Rightarrow> string \<Rightarrow> trace_flow_controller \<Rightarrow> 'd db_world \<Rightarrow> telemetry_ret \<times> 'd db_world" where
  "fc_NeedTelemetryDump env module c w =
     (if \<not> fcTelemetry c then (TELEMETRY_FAILED, w) else Storage_NeedTelemetryDump env module w)"

definition fc_TelemetryStore :: "('d, 'j) quota_env \<Rightarrow> string \<Rightarrow> int \<Rightarrow> trace_flow_controller \<Rightarrow> 'd db_world \<Rightarrow> 'd db_world" where
  "fc_TelemetryStore env module zipTraceSize c w =
     (if \<not> fcTelemetry c then w else Storage_TelemetryStore env module zipTraceSize w)"

definition fc_ClearTelemetryData :: "('d, 'j) quota_env \<Rightarrow> trace_flow_controller \<Rightarrow> 'd db_world \<Rightarrow> 'd db_world" where
  "fc_ClearTelemetryData env c w = (if \<not> fcTelemetry c then w else Storage_ClearTelemetryData env w)"

definition fc_QueryRunningTime :: "('d, 'j) quota_env \<Rightarrow> string \<Rightarrow> int \<Rightarrow> trace_flow_controller \<Rightarrow> 'd db_world \<Rightarrow> (telemetry_ret \<times> int) \<times> 'd db_world" where
  "fc_QueryRunningTime env telemetryId runningTime c w =
     (if \<not> fcTelemetry c then ((TELEMETRY_FAILED, runningTime), w)
      else Storage_QueryRunningTime env telemetryId runningTime w)"

definition fc_UpdateRunningTime :: "('d, 'j) quota_env \<Rightarrow> string \<Rightarrow> int \<Rightarrow> trace_flow_controller \<Rightarrow> 'd db_world \<Rightarrow> telemetry_ret \<times> 'd db_world" where
  "fc_UpdateRunningTime env telemetryId runningTime c w =
     (if \<not> fcTelemetry c then (TELEMETRY_FAILED, w) else Storage_UpdateRunningTime env telemetryId runningTime w)"

section \<open>Handlers and strategies\<close>

text \<open>Link handlers with path, prefix, number of files kept and caller; zip handlers without a prefix.\<close>

datatype handler = TraceLinkHandler string string nat string | TraceZipHandler string nat string

type_synonym run_handlers = "handler \<Rightarrow> string list \<Rightarrow> file_system \<Rightarrow> string list \<times> file_system"

definition AddVersionInfoToZipName :: "string \<Rightarrow> string \<Rightarrow> string" where
  "AddVersionInfoToZipName displayVersion srcZipPath =
     (let versionStr = ReplaceStr (ReplaceStr displayVersion ''_'' ''-'') '' '' ''_''
      in ReplaceStr srcZipPath ''.zip'' (''@'' @ versionStr @ ''.zip''))"

fun GetTraceFinalPath :: "file_ops \<Rightarrow> string \<Rightarrow> handler \<Rightarrow> string \<Rightarrow> string \<Rightarrow> string" where
  "GetTraceFinalPath fo version (TraceLinkHandler path pre n caller) trace pf = path @ pf @ ''_'' @ foExtractFileName fo trace"
| "GetTraceFinalPath fo version (TraceZipHandler path n caller) trace pf =
     AddVersionInfoToZipName version (path @ ReplaceStr (foExtractFileName fo trace) ''.sys'' ''.zip'')"

record strategy_param =
  spMaxDuration :: u32
  spHappenTime :: u64
  spCaller :: string
  spDbPath :: string
  spConfigPath :: string
  spOutputPath :: string

text \<open>The classes of strategies: what follows the parameters is the name of the quota, the handler and the zip handler.\<close>

datatype strategy =
    TraceStrategy strategy_param "handler option" string
  | TraceFlowControlStrategy strategy_param string "handler option"
  | TraceDevStrategy strategy_param string "handler option" "handler option"
  | TraceAsyncStrategy strategy_param string "handler option" "handler option"

text \<open>What a dump leaves: the result, the files, the report of the dump, files and database, the trace machine.\<close>

record ('d, 'x) dump_outcome =
  doRet :: trace_ret
  doFiles :: "string list"
  doInfo :: trace_ret_info
  doDb :: "'d db_world"
  doMachine :: "'x machine"

definition outcome :: "trace_ret \<Rightarrow> string list \<Rightarrow> trace_ret_info \<Rightarrow> 'd db_world \<Rightarrow> 'x machine \<Rightarrow> ('d, 'x) dump_outcome" where
  "outcome ret files info w m = \<lparr>doRet = ret, doFiles = files, doInfo = info, doDb = w, doMachine = m\<rparr>"

definition run_handler :: "run_handlers \<Rightarrow> handler \<Rightarrow> string list \<Rightarrow> 'd db_world \<Rightarrow> string list \<times> 'd db_world" where
  "run_handler hs h files w = (case hs h files (dwFs w) of (out, fs) \<Rightarrow> (out, w\<lparr>dwFs := fs\<rparr>))"

text \<open>The report is written by the dump, or keeps what the caller passed in.\<close>

definition strategy_DumpTrace :: "'x hitrace \<Rightarrow> strategy_param \<Rightarrow> string \<Rightarrow> trace_ret_info \<Rightarrow> 'x machine \<Rightarrow> trace_ret \<times> trace_ret_info \<times> 'x machine" where
  "strategy_DumpTrace ht p scenarioName info m =
     (case DumpTrace ht scenarioName (spMaxDuration p) (spHappenTime p) (spOutputPath p) m of
        (ret, i, m1) \<Rightarrow> (ret, case i of None \<Rightarrow> info | Some i1 \<Rightarrow> i1, m1))"

definition TraceStrategy_DoDump :: "'x hitrace \<Rightarrow> run_handlers \<Rightarrow> trace_ret_info \<Rightarrow> strategy_param \<Rightarrow> handler option \<Rightarrow> string \<Rightarrow>
    'd db_world \<Rightarrow> 'x machine \<Rightarrow> ('d, 'x) dump_outcome" where
  "TraceStrategy_DoDump ht hs info0 p traceHandler scenarioName w m =
     (case strategy_DumpTrace ht p scenarioName info0 m of
        (ret, info, m1) \<Rightarrow>
          (case traceHandler of
             None \<Rightarrow> outcome ret (riOutputFiles info) info w m1
           | Some h \<Rightarrow> (case run_handler hs h (riOutputFiles info) w of (out, w1) \<Rightarrow> outcome ret out info w1 m1)))"

definition TraceDevStrategy_DoDump :: "('d, 'j) quota_env \<Rightarrow> 'x hitrace \<Rightarrow> run_handlers \<Rightarrow> trace_ret_info \<Rightarrow> int \<times> int \<Rightarrow> strategy_param \<Rightarrow>
    string \<Rightarrow> handler option \<Rightarrow> handler option \<Rightarrow> 'd db_world \<Rightarrow> 'x machine \<Rightarrow> ('d, 'x) dump_outcome" where
  "TraceDevStrategy_DoDump env ht hs info0 now p flowControlName traceHandler zipHandler w m =
     (case TraceFlowController env flowControlName (spDbPath p) (spConfigPath p) w of
        (c0, w0) \<Rightarrow>
      case fc_IsIoOverFlow (qeDate env (fst now)) c0 of
        (over, c1) \<Rightarrow>
      if over then outcome (TraceRet_flow TRACE_DUMP_DENY) [] info0 w0 m
      else case strategy_DumpTrace ht p SN_COMMON_BETA info0 m of
        (ret, info, m1) \<Rightarrow>
      if \<not> IsSuccess ret then outcome ret [] info w0 m1
      else if riOutputFiles info = [] then outcome (TraceRet_state STATE_FAIL) [] info w0 m1
      else let traceSize = riFileSize info in
      case traceHandler of
        None \<Rightarrow> outcome (TraceRet_state STATE_FAIL) (riOutputFiles info) info w0 m1
      | Some h \<Rightarrow>
          (case run_handler hs h (riOutputFiles info) w0 of
             (out, w1) \<Rightarrow>
           case zipHandler of
             None \<Rightarrow> outcome ret out info (snd (fc_StoreIoSize env traceSize c1 w1)) m1
           | Some z \<Rightarrow>
               (case fc_GetRemainingTraceSize (qeDate env (snd now)) c1 of
                  (traceRemainingSize, c2) \<Rightarrow>
                    if traceRemainingSize \<le> traceSize
                    then outcome (TraceRet_flow TRACE_UPLOAD_DENY) out info (snd (fc_StoreIoSize env traceSize c2 w1)) m1
                    else case run_handler hs z (riOutputFiles info) w1 of
                      (out2, w2) \<Rightarrow> outcome ret out2 info (snd (fc_StoreTraceSize env traceSize c2 w2)) m1)))"

definition TraceFlowControlStrategy_DoDump :: "('d, 'j) quota_env \<Rightarrow> 'x hitrace \<Rightarrow> run_handlers \<Rightarrow> trace_ret_info \<Rightarrow> int \<times> int \<Rightarrow> strategy_param \<Rightarrow>
    string \<Rightarrow> handler option \<Rightarrow> 'd db_world \<Rightarrow> 'x machine \<Rightarrow> ('d, 'x) dump_outcome" where
  "TraceFlowControlStrategy_DoDump env ht hs info0 now p flowControlName traceHandler w m =
     (case TraceFlowController env flowControlName (spDbPath p) (spConfigPath p) w of
        (c0, w0) \<Rightarrow>
      case traceHandler of
        None \<Rightarrow> outcome (TraceRet_state STATE_FAIL) [] info0 w0 m
      | Some h \<Rightarrow>
          (case fc_IsZipOverFlow (qeDate env (fst now)) c0 of
             (over, c1) \<Rightarrow>
           if over then outcome (TraceRet_flow TRACE_DUMP_DENY) [] info0 w0 m
           else case strategy_DumpTrace ht p SN_COMMON_BETA info0 m of
             (ret, info, m1) \<Rightarrow>
           if \<not> IsSuccess ret then outcome ret [] info w0 m1
           else if riOutputFiles info = [] then outcome (TraceRet_state STATE_FAIL) [] info w0 m1
           else let traceSize = riFileSize info in
           case fc_GetRemainingTraceSize (qeDate env (snd now)) c1 of
             (traceRemainingSize, c2) \<Rightarrow>
               if traceSize > traceRemainingSize
               then outcome (TraceRet_flow TRACE_UPLOAD_DENY) [] info (snd (fc_DecreaseDynamicThreshold env c2 w0)) m1
               else case run_handler hs h (riOutputFiles info) w0 of
                 (out, w1) \<Rightarrow> outcome ret out info (snd (fc_StoreTraceSize env traceSize c2 w1)) m1))"

text \<open>The asynchronous dump tells Hitrace how much room is left; Hitrace says whether the trace fits.\<close>

definition async_DumpTrace :: "('d, 'j) quota_env \<Rightarrow> 'x hitrace \<Rightarrow> int \<Rightarrow> strategy_param \<Rightarrow> string \<Rightarrow> trace_ret_info \<Rightarrow> trace_flow_controller \<Rightarrow> 'x machine \<Rightarrow>
    trace_ret \<times> trace_ret_info \<times> trace_flow_controller \<times> 'x machine" where
  "async_DumpTrace env ht now p scenarioName info c m =
     (case fc_GetRemainingTraceSize (qeDate env now) c of
        (traceRemainingSize, c1) \<Rightarrow>
          (case DumpTraceAsync ht \<lparr>daScenarioName = scenarioName, daMaxDuration = spMaxDuration p, daHappenTime = spHappenTime p\<rparr>
                  (word_of_int traceRemainingSize) m of
             (ret, i, m1) \<Rightarrow> (ret, case i of None \<Rightarrow> info | Some i1 \<Rightarrow> i1, c1, m1)))"

definition TraceAsyncStrategy_DoDump :: "('d, 'j) quota_env \<Rightarrow> 'x hitrace \<Rightarrow> string \<Rightarrow> trace_ret_info \<Rightarrow> int \<times> int \<Rightarrow> strategy_param \<Rightarrow>
    string \<Rightarrow> handler option \<Rightarrow> handler option \<Rightarrow> 'd db_world \<Rightarrow> 'x machine \<Rightarrow> ('d, 'x) dump_outcome" where
  "TraceAsyncStrategy_DoDump env ht version info0 now p flowControlName traceHandler zipHandler w m =
     (case TraceFlowController env flowControlName (spDbPath p) (spConfigPath p) w of
        (c0, w0) \<Rightarrow>
      case fc_IsIoOverFlow (qeDate env (fst now)) c0 of
        (over, c1) \<Rightarrow>
      if over then outcome (TraceRet_flow TRACE_DUMP_DENY) [] info0 w0 m
      else case async_DumpTrace env ht (snd now) p SN_COMMON_BETA info0 c1 m of
        (ret, info, c2, m1) \<Rightarrow>
      if \<not> IsSuccess ret then outcome ret [] info w0 m1
      else if riOutputFiles info = [] then outcome (TraceRet_state STATE_FAIL) [] info w0 m1
      else let traceSize = riFileSize info in
      case traceHandler of
        None \<Rightarrow> outcome ret (riOutputFiles info) info w0 m1
      | Some h \<Rightarrow>
          (let out = map (\<lambda>f. GetTraceFinalPath (qeOps env) version h f []) (riOutputFiles info) in
           case zipHandler of
             None \<Rightarrow> outcome ret out info (snd (fc_StoreIoSize env traceSize c2 w0)) m1
           | Some z \<Rightarrow>
               if riIsOverflowControl info
               then outcome (TraceRet_flow TRACE_UPLOAD_DENY) out info (snd (fc_StoreIoSize env traceSize c2 w0)) m1
               else outcome ret (map (\<lambda>f. GetTraceFinalPath (qeOps env) version z f []) (riOutputFiles info)) info
                      (snd (fc_StoreTraceSize env traceSize c2 w0)) m1))"

text \<open>What Hitrace calls when the asynchronous dump is done.\<close>

definition async_callback :: "run_handlers \<Rightarrow> trace_ret_info \<Rightarrow> handler option \<Rightarrow> handler option \<Rightarrow> 'd db_world \<Rightarrow> 'd db_world" where
  "async_callback hs info traceHandler zipHandler w =
     (if riErrorCode info \<noteq> CODE_SUCCESS \<or> riOutputFiles info = [] then w
      else let w1 = (case traceHandler of None \<Rightarrow> w | Some h \<Rightarrow> snd (run_handler hs h (riOutputFiles info) w)) in
           if riIsOverflowControl info then w1
           else case zipHandler of None \<Rightarrow> w1 | Some z \<Rightarrow> snd (run_handler hs z (riOutputFiles info) w1))"

fun DoDump :: "('d, 'j) quota_env \<Rightarrow> 'x hitrace \<Rightarrow> run_handlers \<Rightarrow> string \<Rightarrow> trace_ret_info \<Rightarrow> int \<times> int \<Rightarrow> strategy \<Rightarrow>
    'd db_world \<Rightarrow> 'x machine \<Rightarrow> ('d, 'x) dump_outcome" where
  "DoDump env ht hs version info0 now (TraceStrategy p h scenarioName) w m = TraceStrategy_DoDump ht hs info0 p h scenarioName w m"
| "DoDump env ht hs version info0 now (TraceFlowControlStrategy p flow h) w m =
     TraceFlowControlStrategy_DoDump env ht hs info0 now p flow h w m"
| "DoDump env ht hs version info0 now (TraceDevStrategy p flow h z) w m = TraceDevStrategy_DoDump env ht hs info0 now p flow h z w m"
| "DoDump env ht hs version info0 now (TraceAsyncStrategy p flow h z) w m =
     TraceAsyncStrategy_DoDump env ht version info0 now p flow h z w m"

section \<open>Telemetry and apps\<close>

text \<open>
  The zip handler reports the size of the archive later, through the callback \<open>telemetry_stored\<close>. \<open>None\<close> when the
  inner machine of the trace state has no state.
\<close>

definition TelemetryStrategy_DoDump :: "('d, 'j) quota_env \<Rightarrow> 'x hitrace \<Rightarrow> run_handlers \<Rightarrow> trace_ret_info \<Rightarrow> strategy_param \<Rightarrow> handler option \<Rightarrow>
    'd db_world \<Rightarrow> 'x machine \<Rightarrow> ('d, 'x) dump_outcome option" where
  "TelemetryStrategy_DoDump env ht hs info0 p traceHandler w m =
     (case TraceFlowController env ''Telemetry'' (spDbPath p) (spConfigPath p) w of
        (c, w0) \<Rightarrow>
      case traceHandler of
        None \<Rightarrow> Some (outcome (TraceRet_state STATE_FAIL) [] info0 w0 m)
      | Some h \<Rightarrow>
          (case DumpTraceWithFilter ht (spMaxDuration p) (spHappenTime p) (spOutputPath p) m of
             None \<Rightarrow> None
           | Some (ret, i, m1) \<Rightarrow>
               (let info = (case i of None \<Rightarrow> info0 | Some i1 \<Rightarrow> i1) in
                if \<not> IsSuccess ret then Some (outcome ret [] info w0 m1)
                else case fc_NeedTelemetryDump env (spCaller p) c w0 of
                  (flowRet, w1) \<Rightarrow>
                    if flowRet \<noteq> TELEMETRY_SUCCESS then Some (outcome (TraceRet_flow TRACE_DUMP_DENY) [] info w1 m1)
                    else if riOutputFiles info = [] then Some (outcome (TraceRet_state STATE_FAIL) [] info w1 m1)
                    else case run_handler hs h (riOutputFiles info) w1 of
                      (out, w2) \<Rightarrow> Some (outcome TraceRet out info w2 m1))))"

definition telemetry_stored :: "('d, 'j) quota_env \<Rightarrow> strategy_param \<Rightarrow> int \<Rightarrow> trace_flow_controller \<Rightarrow> 'd db_world \<Rightarrow> 'd db_world" where
  "telemetry_stored env p zipTraffic c w = fc_TelemetryStore env (spCaller p) zipTraffic c w"

record app_caller =
  acUid :: int
  acPid :: i32
  acBundleName :: string
  acBundleVersion :: string
  acHappenTime :: int

type_synonym app_handler = "string \<Rightarrow> app_caller \<Rightarrow> int \<Rightarrow> int \<Rightarrow> file_system \<Rightarrow> string \<times> file_system"

definition MakeAppEventTask :: "('d, 'j) quota_env \<Rightarrow> app_caller \<Rightarrow> int \<Rightarrow> int \<Rightarrow> string \<Rightarrow> file_system \<Rightarrow> app_event_task option" where
  "MakeAppEventTask env caller traceOpenTime traceDumpTime resourcePath fs =
     (case from_chars (2 ^ 63) (qeDay env (acHappenTime caller div 1000)) of
        None \<Rightarrow> None
      | Some dateNum \<Rightarrow>
          Some (new_app_event_task\<lparr>atTaskDate := dateNum, atTaskType := 1, atUid := acUid caller, atPid := sint (acPid caller),
                  atBundleName := acBundleName caller, atBundleVersion := acBundleVersion caller, atStartTime := traceOpenTime,
                  atFinishTime := traceDumpTime, atResourcePath := resourcePath,
                  atResourceSize := sint (word_of_nat (GetFileSize fs resourcePath) :: i32), atState := 2\<rparr>))"

definition CleanOldAppTrace :: "('d, 'j) quota_env \<Rightarrow> int \<Rightarrow> trace_flow_controller \<Rightarrow> 'd db_world \<Rightarrow> 'd db_world" where
  "CleanOldAppTrace env nowMs c w =
     (let timeNow = nowMs div 1000; secondsOfThreeDays = 3 * 86400 in
      if timeNow < secondsOfThreeDays then w
      else case from_chars (2 ^ 31) (qeDay env (timeNow - secondsOfThreeDays)) of
             None \<Rightarrow> w
           | Some dateNum \<Rightarrow> fc_CleanOldAppTrace env dateNum c w)"

text \<open>\<open>nowMs\<close> are the two readings of the clock.\<close>

definition TraceAppStrategy_DoDump :: "('d, 'j) quota_env \<Rightarrow> 'x hitrace \<Rightarrow> app_handler option \<Rightarrow> trace_ret_info \<Rightarrow> int \<times> int \<Rightarrow> string \<Rightarrow> app_caller \<Rightarrow>
    'd db_world \<Rightarrow> 'x machine \<Rightarrow> (trace_ret \<times> string) \<times> 'd db_world \<times> 'x machine" where
  "TraceAppStrategy_DoDump env ht handle info0 nowMs dbPath caller w m =
     (case TraceFlowController env ''APP'' dbPath [] w of
        (c, w0) \<Rightarrow>
      (let appPid = fst (GetCurrentAppInfo (mState m)); traceOpenTime = sint (snd (GetCurrentAppInfo (mState m))) in
       if appPid \<noteq> acPid caller \<or> traceOpenTime = 0 then ((TraceRet_state STATE_FAIL, []), w0, m)
       else case HasCallOnceToday env (acUid caller) (fst nowMs) c w0 of
         (called, w1) \<Rightarrow>
           if called then ((TraceRet_flow TRACE_HAS_CAPTURED_TRACE, []), w1, m)
           else case DumpTrace ht SN_APP_DYNAMIC 0 0 [] m of
             (ret, i, m1) \<Rightarrow>
               (let info = (case i of None \<Rightarrow> info0 | Some i1 \<Rightarrow> i1) in
                if \<not> IsSuccess ret then ((ret, []), w1, m1)
                else if riOutputFiles info = [] \<or> last (riOutputFiles info) = [] then ((TraceRet_state STATE_FAIL, []), w1, m1)
                else let handled = (case handle of
                                      None \<Rightarrow> ([], dwFs w1)
                                    | Some f \<Rightarrow> f (last (riOutputFiles info)) caller traceOpenTime (fst nowMs) (dwFs w1));
                         w2 = w1\<lparr>dwFs := snd handled\<rparr>;
                         w3 = (case MakeAppEventTask env caller traceOpenTime (fst nowMs) (fst handled) (dwFs w2) of
                                 None \<Rightarrow> w2
                               | Some t \<Rightarrow> snd (RecordCaller env t c w2))
                     in ((ret, fst handled), CleanOldAppTrace env (snd nowMs) c w3, m1))))"

section \<open>Factory\<close>

definition DB_PATH :: string where "DB_PATH = ''/data/log/hiview/unified_collection/trace/''"
definition CONFIG_PATH :: string where "CONFIG_PATH = ''/system/etc/hiview/''"
definition UNIFIED_SHARE_PATH :: string where "UNIFIED_SHARE_PATH = ''/data/log/hiview/unified_collection/trace/share/''"
definition UNIFIED_SPECIAL_PATH :: string where "UNIFIED_SPECIAL_PATH = ''/data/log/hiview/unified_collection/trace/special/''"
definition UNIFIED_TELEMETRY_PATH :: string where "UNIFIED_TELEMETRY_PATH = ''/data/log/hiview/unified_collection/trace/telemetry/''"

text \<open>\<open>CALLER_UNKNOWN\<close> stands for the values without an enumerator.\<close>

datatype trace_caller = CALLER_RELIABILITY | CALLER_XPERF | CALLER_XPERF_EX | CALLER_XPOWER | CALLER_HIVIEW | CALLER_SCREEN
  | CALLER_UNKNOWN

fun EnumToString :: "trace_caller \<Rightarrow> string" where
  "EnumToString CALLER_RELIABILITY = ''Reliability''"
| "EnumToString CALLER_XPERF = ''Xperf''"
| "EnumToString CALLER_XPOWER = ''Xpower''"
| "EnumToString CALLER_HIVIEW = ''Hiview''"
| "EnumToString CALLER_XPERF_EX = ''XperfEx''"
| "EnumToString CALLER_SCREEN = ''Screen''"
| "EnumToString CALLER_UNKNOWN = ''UNKNOWN''"

definition CreateTraceStrategy :: "trace_caller \<Rightarrow> u32 \<Rightarrow> u64 \<Rightarrow> strategy option" where
  "CreateTraceStrategy caller maxDuration happenTime =
     (let name = EnumToString caller;
          p = \<lparr>spMaxDuration = maxDuration, spHappenTime = happenTime, spCaller = name, spDbPath = DB_PATH,
               spConfigPath = CONFIG_PATH, spOutputPath = []\<rparr>;
          link = (\<lambda>pre n. Some (TraceLinkHandler UNIFIED_SPECIAL_PATH pre n name));
          pack = Some (TraceZipHandler UNIFIED_SHARE_PATH 20 name)
      in case caller of
           CALLER_XPERF \<Rightarrow> Some (TraceDevStrategy p ''Xperf'' (link ''Xperf'' 6) pack)
         | CALLER_RELIABILITY \<Rightarrow> Some (TraceAsyncStrategy p ''Reliability'' (link ''Reliability'' 3) pack)
         | CALLER_XPOWER \<Rightarrow> Some (TraceFlowControlStrategy p ''Xpower'' pack)
         | CALLER_HIVIEW \<Rightarrow> Some (TraceFlowControlStrategy p ''Hiview'' pack)
         | CALLER_XPERF_EX \<Rightarrow> Some (TraceDevStrategy p ''Xperf'' (link ''Xperf'' 6) None)
         | CALLER_SCREEN \<Rightarrow> Some (TraceStrategy p (link ''Screen'' 2) SN_COMMON_BETA)
         | CALLER_UNKNOWN \<Rightarrow> None)"

definition CreateTraceStrategy_name :: "string \<Rightarrow> u32 \<Rightarrow> u64 \<Rightarrow> bool \<Rightarrow> string \<Rightarrow> strategy" where
  "CreateTraceStrategy_name callName maxDuration happenTime isNeedFlowControl outputPath =
     (let p = \<lparr>spMaxDuration = maxDuration, spHappenTime = happenTime, spCaller = callName, spDbPath = DB_PATH,
               spConfigPath = CONFIG_PATH, spOutputPath = outputPath\<rparr>;
          link = Some (TraceLinkHandler UNIFIED_SPECIAL_PATH ''Other'' 5 callName)
      in if callName = ''traceCommand'' then TraceStrategy p None SN_COMMAND
         else if isNeedFlowControl then TraceDevStrategy p ''Other'' link None
         else TraceStrategy p link SN_COMMON_BETA)"

datatype tele_module = MODULE_XPERF | MODULE_XPOWER | MODULE_RELIABILITY

fun ModuleToString :: "tele_module \<Rightarrow> string" where
  "ModuleToString MODULE_XPERF = ''Xperf''"
| "ModuleToString MODULE_XPOWER = ''Xpower''"
| "ModuleToString MODULE_RELIABILITY = ''Reliability''"

definition CreateStrategy :: "tele_module \<Rightarrow> u32 \<Rightarrow> u64 \<Rightarrow> strategy_param \<times> handler option" where
  "CreateStrategy module maxDuration happenTime =
     (\<lparr>spMaxDuration = maxDuration, spHappenTime = happenTime, spCaller = ModuleToString module, spDbPath = DB_PATH,
       spConfigPath = CONFIG_PATH, spOutputPath = []\<rparr>,
      Some (TraceZipHandler UNIFIED_TELEMETRY_PATH 20 []))"

end
