(* ===== verification/Quota_Facts.thy ===== *)
theory Quota_Facts
  imports Trace_Strategy
begin

text \<open>
  What the quotas of the trace manager guarantee: rounding of the remaining size, the record of a caller in
  the database, and the run of all dumps of a day.
\<close>

section \<open>Rounding\<close>

lemma bit_count_bounds: "m < 2 ^ bit_count m \<and> (0 < m \<longrightarrow> 2 ^ bit_count m \<le> 2 * m)"
proof (induction m rule: bit_count.induct)
  case (1 m)
  show ?case
  proof (cases "m = 0")
    case False
    define b where "b = bit_count (m div 2)"
    have c: "bit_count m = Suc b" using False by (subst bit_count.simps) (simp add: b_def)
    have i: "m div 2 < 2 ^ b" "0 < m div 2 \<longrightarrow> 2 ^ b \<le> 2 * (m div 2)" using 1 False by (auto simp: b_def)
    have "m < 2 * 2 ^ b" using i(1) by simp
    moreover have "2 ^ b \<le> m"
    proof (cases "m div 2 = 0")
      case True
      then have "b = 0" unfolding b_def by (subst bit_count.simps) simp
      then show ?thesis using False by simp
    next
      case False
      then have "2 ^ b \<le> 2 * (m div 2)" using i(2) by simp
      then show ?thesis using order_trans [of _ "2 * (m div 2)" m] by simp
    qed
    ultimately show ?thesis by (simp add: c)
  qed (simp add: bit_count.simps)
qed

text \<open>Rounding to 24 bits adds at most one part in \<open>2 ^ 24\<close>.\<close>

lemma round_float_le: "2 ^ 24 * round_float m \<le> (2 ^ 24 + 1) * m"
proof -
  define k where "k = bit_count m - 24"
  define q where "q = m div 2 ^ k"
  define r where "r = m mod 2 ^ k"
  have m: "m = q * 2 ^ k + r" by (simp only: q_def r_def div_mult_mod_eq)
  have rf: "round_float m = (if 2 * r > 2 ^ k \<or> 2 * r = 2 ^ k \<and> odd q then q + 1 else q) * 2 ^ k"
    by (simp add: round_float_def Let_def k_def q_def r_def)
  show ?thesis
  proof (cases "2 * r \<ge> 2 ^ k \<and> 0 < r")
    case False
    then have "round_float m = q * 2 ^ k" unfolding rf by auto
    then have "round_float m \<le> m" using m by linarith
    then show ?thesis by simp
  next
    case True
    have "k > 0"
    proof (rule ccontr)
      assume "\<not> k > 0"
      then have "r = 0" by (simp add: r_def)
      with True show False by simp
    qed
    then have "bit_count m = k + 24" by (simp add: k_def)
    moreover have "0 < m" using True m by linarith
    ultimately have big: "2 ^ 23 * 2 ^ k \<le> m" using bit_count_bounds [of m] by (simp add: power_add)
    have "round_float m \<le> (q + 1) * 2 ^ k" by (simp add: rf)
    then have "2 * round_float m \<le> 2 * (q * 2 ^ k + r) + 2 ^ k" using True by (simp add: algebra_simps)
    then have "2 * round_float m \<le> 2 * m + 2 ^ k" using m by (simp only: )
    then have "2 ^ 24 * round_float m \<le> 2 ^ 24 * m + 2 ^ 23 * 2 ^ k" by simp
    then show ?thesis using big by simp
  qed
qed

lemma add_ten_percent_le:
  assumes "0 \<le> a" "a \<le> q"
  shows "10 * 2 ^ 22 * add_ten_percent a q \<le> 10 * 2 ^ 22 * a + (2 ^ 22 + 10) * q"
proof -
  define A where "A = int (round_float (nat a))"
  define Q where "Q = int (round_float (nat q))"
  define P where "P = int (round_float (round_float (nat q) * TEN_PERCENT_LIMIT))"
  define S where "S = int (round_float (round_float (nat a) * 2 ^ 27 + round_float (round_float (nat q) * TEN_PERCENT_LIMIT)))"
  have r: "2 ^ 24 * int (round_float m) \<le> (2 ^ 24 + 1) * int m" for m
    using round_float_le [of m] by (metis (mono_tags, opaque_lifting) of_nat_le_iff of_nat_mult of_nat_add of_nat_power of_nat_numeral of_nat_1)
  have A: "2 ^ 24 * A \<le> (2 ^ 24 + 1) * a" using r [of "nat a"] assms by (simp add: A_def)
  have Q: "2 ^ 24 * Q \<le> (2 ^ 24 + 1) * q" using r [of "nat q"] assms by (simp add: Q_def)
  have P: "2 ^ 24 * P \<le> (2 ^ 24 + 1) * (13421773 * Q)"
    using r [of "round_float (nat q) * TEN_PERCENT_LIMIT"] by (simp add: P_def Q_def TEN_PERCENT_LIMIT_def)
  have S: "2 ^ 24 * S \<le> (2 ^ 24 + 1) * (2 ^ 27 * A + P)"
    using r [of "round_float (nat a) * 2 ^ 27 + round_float (round_float (nat q) * TEN_PERCENT_LIMIT)"]
    by (simp add: S_def A_def P_def)
  have "add_ten_percent a q = S div 2 ^ 27" by (simp add: add_ten_percent_def S_def zdiv_int)
  then have "2 ^ 27 * add_ten_percent a q \<le> S" by simp
  then show ?thesis using A Q P S assms by simp
qed

section \<open>The record of a caller\<close>

definition flow_row :: "trace_flow_record \<Rightarrow> int \<Rightarrow> rdb_row" where
  "flow_row r i = (map_of (flow_bucket r))(''id'' \<mapsto> RInt i)"

abbreviation of_caller :: "string \<Rightarrow> rdb_row \<Rightarrow> bool" where
  "of_caller n \<equiv> row_matches [EqualTo ''caller_name'' (RText n)]"

text \<open>The database holds no record of a caller, or exactly one, with a date.\<close>

definition holds_flow :: "'d rdb \<Rightarrow> 'd \<Rightarrow> string \<Rightarrow> trace_flow_record option \<Rightarrow> bool" where
  "holds_flow rd d n ro \<longleftrightarrow>
     (case ro of
        None \<Rightarrow> filter_mset (of_caller n) (rdbRows rd d FLOW_TABLE_NAME) = {#}
      | Some r \<Rightarrow> frCallerName r = n \<and> frSystemTime r \<noteq> [] \<and>
          (\<exists>i. filter_mset (of_caller n) (rdbRows rd d FLOW_TABLE_NAME) = {#flow_row r i#}))"

definition loaded :: "string \<Rightarrow> trace_flow_record option \<Rightarrow> trace_flow_record" where
  "loaded n ro = (case ro of None \<Rightarrow> new_flow_record n | Some r \<Rightarrow> r)"

lemma of_caller_iff: "of_caller n r \<longleftrightarrow> r ''caller_name'' = Some (RText n)"
  by (simp add: row_matches_def)

lemma flow_row_caller [simp]: "of_caller n (flow_row r i) \<longleftrightarrow> frCallerName r = n"
  by (auto simp: of_caller_iff flow_row_def flow_bucket_def)

lemma flow_row_update: "flow_row r i ++ map_of (flow_bucket r') = flow_row r' i"
  by (auto simp: flow_row_def flow_bucket_def fun_eq_iff map_add_def)

lemma TraceStorage_Query_loads:
  assumes "rdb_works (qeRdb env)" "dwStore w = Some s" "rsOpen s" "holds_flow (qeRdb env) (dwDb w) n ro"
  shows "TraceStorage_Query env (new_flow_record n) w = (loaded n ro, w)"
proof -
  obtain rs where q: "db_Query (qeOps env) (qeRdb env) FLOW_TABLE_NAME [EqualTo ''caller_name'' (RText n)]
       [''system_time'', ''io_used_size'', ''zip_used_size'', ''dynamic_decrease''] s w = (Some rs, w)"
      and rs: "mset rs = image_mset (\<lambda>r. map r [''system_time'', ''io_used_size'', ''zip_used_size'', ''dynamic_decrease''])
        (filter_mset (of_caller n) (rdbRows (qeRdb env) (dwDb w) FLOW_TABLE_NAME))"
    using db_Query_works [OF assms(1,3)] by blast
  show ?thesis
  proof (cases ro)
    case None
    with assms(4) have "filter_mset (of_caller n) (rdbRows (qeRdb env) (dwDb w) FLOW_TABLE_NAME) = {#}"
      unfolding holds_flow_def by (simp only: option.case)
    then have "rs = []" using rs by (simp only: image_mset_empty mset_zero_iff)
    then show ?thesis using q None assms(2) by (simp add: TraceStorage_Query_def loaded_def new_flow_record_def)
  next
    case (Some r)
    with assms(4) obtain i where "frCallerName r = n"
        "filter_mset (of_caller n) (rdbRows (qeRdb env) (dwDb w) FLOW_TABLE_NAME) = {#flow_row r i#}"
      by (auto simp: holds_flow_def)
    with rs have "rs = [map (flow_row r i) [''system_time'', ''io_used_size'', ''zip_used_size'', ''dynamic_decrease'']]"
      by simp
    then show ?thesis using q Some assms(2) \<open>frCallerName r = n\<close>
      by (simp add: TraceStorage_Query_def loaded_def new_flow_record_def get_long_def get_string_def flow_row_def flow_bucket_def)
  qed
qed

lemma filter_update_other:
  assumes "n' \<noteq> n" "map_of b ''caller_name'' = Some (RText n)"
  shows "filter_mset (of_caller n') (image_mset (\<lambda>r. if of_caller n r then r ++ map_of b else r) M) = filter_mset (of_caller n') M"
  using assms by (induction M) (auto simp: of_caller_iff map_add_def)

lemma filter_update_same:
  assumes "map_of b ''caller_name'' = Some (RText n)"
  shows "filter_mset (of_caller n) (image_mset (\<lambda>r. if of_caller n r then r ++ map_of b else r) M) =
    image_mset (\<lambda>r. r ++ map_of b) (filter_mset (of_caller n) M)"
  using assms by (induction M) (auto simp: of_caller_iff map_add_def)

text \<open>Storing a record replaces the record of its caller and keeps those of the others.\<close>

lemma TraceStorage_Store_holds:
  assumes "rdb_works (qeRdb env)" "dwStore w = Some s" "rsOpen s" "holds_flow (qeRdb env) (dwDb w) (frCallerName r) ro"
    "frSystemTime r \<noteq> []"
  obtains d where "TraceStorage_Store env r w = w\<lparr>dwDb := d\<rparr>" "rdbVersion (qeRdb env) d = rdbVersion (qeRdb env) (dwDb w)"
    "holds_flow (qeRdb env) d (frCallerName r) (Some r)"
    "\<And>n ro'. n \<noteq> frCallerName r \<Longrightarrow> holds_flow (qeRdb env) (dwDb w) n ro' \<Longrightarrow> holds_flow (qeRdb env) d n ro'"
proof -
  let ?n = "frCallerName r" and ?rd = "qeRdb env"
  have q: "TraceStorage_Query env (new_flow_record ?n) w = (loaded ?n ro, w)"
    by (rule TraceStorage_Query_loads [OF assms(1-4)])
  have b: "map_of (flow_bucket r) ''caller_name'' = Some (RText ?n)" by (simp add: flow_bucket_def)
  show thesis
  proof (cases ro)
    case None
    obtain i d where i: "db_Insert (qeOps env) ?rd 0 FLOW_TABLE_NAME (flow_bucket r) s w = (E_OK, i, w\<lparr>dwDb := d\<rparr>)"
        "inserts ?rd FLOW_TABLE_NAME (flow_bucket r) (dwDb w) d i"
      using db_Insert_works [OF assms(1,3)] by blast
    from i(2) have rows: "rdbVersion ?rd d = rdbVersion ?rd (dwDb w)"
        "rdbRows ?rd d FLOW_TABLE_NAME = add_mset (flow_row r i) (rdbRows ?rd (dwDb w) FLOW_TABLE_NAME)"
      by (simp_all add: inserts_def flow_row_def)
    have "TraceStorage_Store env r w = w\<lparr>dwDb := d\<rparr>"
      using q None assms(2) i(1)
      by (simp add: TraceStorage_Store_def loaded_def new_flow_record_def TraceStorage_InsertTable_def)
    moreover have "holds_flow ?rd d ?n (Some r)"
      using assms(4,5) None rows(2) by (auto simp: holds_flow_def)
    moreover have "holds_flow ?rd d n ro'" if "n \<noteq> ?n" "holds_flow ?rd (dwDb w) n ro'" for n ro'
    proof -
      have "filter_mset (of_caller n) (rdbRows ?rd d FLOW_TABLE_NAME) = filter_mset (of_caller n) (rdbRows ?rd (dwDb w) FLOW_TABLE_NAME)"
        using that(1) rows(2) by simp
      then show ?thesis using that(2) by (simp add: holds_flow_def split: option.splits)
    qed
    ultimately show thesis using that rows(1) by blast
  next
    case (Some r0)
    obtain d where u: "db_Update (qeOps env) ?rd FLOW_TABLE_NAME (flow_bucket r) [EqualTo ''caller_name'' (RText ?n)] s w = (E_OK, w\<lparr>dwDb := d\<rparr>)"
        "rdbVersion ?rd d = rdbVersion ?rd (dwDb w)"
        "rdbRows ?rd d = (rdbRows ?rd (dwDb w))(FLOW_TABLE_NAME :=
           image_mset (\<lambda>x. if of_caller ?n x then x ++ map_of (flow_bucket r) else x) (rdbRows ?rd (dwDb w) FLOW_TABLE_NAME))"
      using db_Update_works [OF assms(1,3)] by blast
    from assms(4) Some obtain i where r0: "frSystemTime r0 \<noteq> []"
        "filter_mset (of_caller ?n) (rdbRows ?rd (dwDb w) FLOW_TABLE_NAME) = {#flow_row r0 i#}"
      by (auto simp: holds_flow_def)
    have "TraceStorage_Store env r w = w\<lparr>dwDb := d\<rparr>"
      using q Some assms(2) u(1) r0(1) by (simp add: TraceStorage_Store_def loaded_def TraceStorage_UpdateTable_def)
    moreover have "holds_flow ?rd d ?n (Some r)"
      using assms(5) u(3) r0(2) filter_update_same [OF b, of "rdbRows ?rd (dwDb w) FLOW_TABLE_NAME"]
      by (auto simp: holds_flow_def flow_row_update)
    moreover have "holds_flow ?rd d n ro'" if "n \<noteq> ?n" "holds_flow ?rd (dwDb w) n ro'" for n ro'
    proof -
      have "filter_mset (of_caller n) (rdbRows ?rd d FLOW_TABLE_NAME) = filter_mset (of_caller n) (rdbRows ?rd (dwDb w) FLOW_TABLE_NAME)"
        using u(3) filter_update_other [OF that(1) b] by simp
      then show ?thesis using that(2) by (simp add: holds_flow_def split: option.splits)
    qed
    ultimately show thesis using that u(2) by blast
  qed
qed

section \<open>The controller of a dump\<close>

definition quota_file :: string where "quota_file = CONFIG_PATH @ ''trace_quota_config.json''"

definition db_prepared :: "('d, 'j) quota_env \<Rightarrow> 'd db_world \<Rightarrow> bool" where
  "db_prepared env w \<longleftrightarrow>
     (let dir = foIncludeTrailing (qeOps env) DB_PATH
      in IsDirectory (dwFs w) dir \<and> rdbVersion (qeRdb env) (dwDb w) (dir @ DB_NAME) = Some DB_VERSION)"

text \<open>The quotas of a name, as the configuration has them.\<close>

definition configured :: "('d, 'j) quota_env \<Rightarrow> file_system \<Rightarrow> string \<Rightarrow> trace_storage" where
  "configured env fs n = InitTraceQuota env quota_file fs
     \<lparr>tsRecord = new_flow_record [], tsName = n, tsIoQuota = 0, tsZipQuota = 0, tsDecreaseUnit = 0\<rparr>"

definition flow_names :: "string list" where
  "flow_names = [''Xperf'', ''Reliability'', ''Xpower'', ''Hiview'', ''Other'']"

text \<open>Changes that leave the record of every caller, the configuration and the place of the database.\<close>

definition same_flow :: "('d, 'j) quota_env \<Rightarrow> 'd db_world \<Rightarrow> 'd db_world \<Rightarrow> bool" where
  "same_flow env w w' \<longleftrightarrow> dwDb w' = dwDb w \<and> (db_prepared env w \<longrightarrow> db_prepared env w') \<and>
     fs_file (dwFs w') quota_file = fs_file (dwFs w) quota_file"

definition handlers_keep :: "('d, 'j) quota_env \<Rightarrow> run_handlers \<Rightarrow> bool" where
  "handlers_keep env hs \<longleftrightarrow>
     (\<forall>h files fs. fs_file (snd (hs h files fs)) quota_file = fs_file fs quota_file \<and>
        (IsDirectory fs (foIncludeTrailing (qeOps env) DB_PATH) \<longrightarrow>
         IsDirectory (snd (hs h files fs)) (foIncludeTrailing (qeOps env) DB_PATH)))"

lemma same_flow_refl [simp]: "same_flow env w w"
  by (simp add: same_flow_def)

lemma same_flow_trans [trans]: "same_flow env w w1 \<Longrightarrow> same_flow env w1 w2 \<Longrightarrow> same_flow env w w2"
  by (simp add: same_flow_def)

lemma same_flow_store [simp]: "same_flow env w (w\<lparr>dwStore := s\<rparr>)"
  by (simp add: same_flow_def db_prepared_def Let_def)

lemma same_flow_handler:
  assumes "handlers_keep env hs" "run_handler hs h files w = (out, w1)"
  shows "same_flow env w w1" "dwStore w1 = dwStore w"
proof -
  obtain fs where "hs h files (dwFs w) = (out, fs)" "w1 = w\<lparr>dwFs := fs\<rparr>"
    using assms(2) by (auto simp: run_handler_def split: prod.splits)
  then show "same_flow env w w1" "dwStore w1 = dwStore w"
    using assms(1) [unfolded handlers_keep_def, rule_format, of h files "dwFs w"]
    by (simp_all add: same_flow_def db_prepared_def Let_def)
qed

lemma InitTraceDb_works:
  assumes "rdb_works (qeRdb env)" "db_prepared env w"
  obtains s where "InitTraceDb env DB_PATH w = w\<lparr>dwStore := Some s\<rparr>" "rsOpen s"
  using assms(2) Initialize_works [OF assms(1), of w "RestorableDbStore (qeOps env) DB_PATH DB_NAME DB_VERSION" "qeOps env"
    "Some (OnCreate (qeRdb env))" "Some (OnUpgrade (qeRdb env))" None]
  by (simp add: InitTraceDb_def db_prepared_def RestorableDbStore_def Let_def)

lemma InitTraceQuota_keeps [simp]:
  "tsRecord (InitTraceQuota env f fs ts) = tsRecord ts" "tsName (InitTraceQuota env f fs ts) = tsName ts"
  by (simp_all add: InitTraceQuota_def Let_def split: option.splits)

lemma configured_cong: "fs_file fs quota_file = fs_file fs' quota_file \<Longrightarrow> configured env fs n = configured env fs' n"
  by (simp add: configured_def InitTraceQuota_def ParseJsonRoot_def)

lemma flow_names_plain: "n \<in> set flow_names \<Longrightarrow> n \<noteq> ''APP'' \<and> n \<noteq> ''behavior'' \<and> n \<noteq> ''Telemetry''"
  by (auto simp: flow_names_def)

lemma TraceFlowController_works:
  assumes "rdb_works (qeRdb env)" "db_prepared env w" "holds_flow (qeRdb env) (dwDb w) n ro" "n \<in> set flow_names"
  obtains s where "rsOpen s" "TraceFlowController env n DB_PATH CONFIG_PATH w =
    (no_controller\<lparr>fcTrace := Some ((configured env (dwFs w) n)\<lparr>tsRecord := loaded n ro\<rparr>)\<rparr>, w\<lparr>dwStore := Some s\<rparr>)"
proof -
  obtain s where s: "InitTraceDb env DB_PATH w = w\<lparr>dwStore := Some s\<rparr>" "rsOpen s"
    using InitTraceDb_works [OF assms(1,2)] .
  have "TraceStorage_Query env (new_flow_record n) (w\<lparr>dwStore := Some s\<rparr>) = (loaded n ro, w\<lparr>dwStore := Some s\<rparr>)"
    by (rule TraceStorage_Query_loads [OF assms(1) _ s(2)]) (simp_all add: assms(3))
  moreover have "(tsRecord (configured env fs n))\<lparr>frCallerName := n\<rparr> = new_flow_record n" for fs
    by (simp add: configured_def new_flow_record_def)
  ultimately have "TraceStorage env n CONFIG_PATH (w\<lparr>dwStore := Some s\<rparr>) =
      ((configured env (dwFs w) n)\<lparr>tsRecord := loaded n ro\<rparr>, w\<lparr>dwStore := Some s\<rparr>)"
    by (simp add: TraceStorage_def configured_def [symmetric] quota_file_def [symmetric] Let_def)
  then show thesis
    using that [OF s(2)] flow_names_plain [OF assms(4)] s(1) by (simp add: TraceFlowController_def InitTraceStorage_def)
qed

section \<open>What a dump stores\<close>

definition day_used :: "string \<Rightarrow> trace_flow_record option \<Rightarrow> int" where
  "day_used D ro = (case ro of None \<Rightarrow> 0 | Some r \<Rightarrow> if frSystemTime r = D then frUsedZipSize r else 0)"

text \<open>A storage whose record is of the day, with what was used.\<close>

definition at_day :: "string \<Rightarrow> string \<Rightarrow> int \<Rightarrow> int \<Rightarrow> trace_storage \<Rightarrow> bool" where
  "at_day D n q used ts \<longleftrightarrow> tsZipQuota ts = q \<and> frCallerName (tsRecord ts) = n \<and> frSystemTime (tsRecord ts) = D \<and>
     frUsedZipSize (tsRecord ts) = used"

definition remaining :: "int \<Rightarrow> int \<Rightarrow> int" where
  "remaining q used = (if q \<le> 0 \<or> q \<le> used then 0 else add_ten_percent (q - used) q)"

definition flow_stored :: "('d, 'j) quota_env \<Rightarrow> string \<Rightarrow> string \<Rightarrow> int \<Rightarrow> 'd db_world \<Rightarrow> 'd db_world \<Rightarrow> bool" where
  "flow_stored env D n used w w' \<longleftrightarrow>
     (\<exists>d ro. w' = w\<lparr>dwDb := d\<rparr> \<and> rdbVersion (qeRdb env) d = rdbVersion (qeRdb env) (dwDb w) \<and>
        holds_flow (qeRdb env) d n ro \<and> day_used D ro = used \<and>
        (\<forall>k ro'. k \<noteq> n \<longrightarrow> holds_flow (qeRdb env) (dwDb w) k ro' \<longrightarrow> holds_flow (qeRdb env) d k ro'))"

lemma loaded_caller: "holds_flow rd d n ro \<Longrightarrow> frCallerName (loaded n ro) = n"
  by (auto simp: loaded_def holds_flow_def new_flow_record_def split: option.splits)

lemma IsDateChange_day:
  assumes "D \<noteq> []" "holds_flow rd d n ro" "tsRecord ts = loaded n ro"
  shows "at_day D n (tsZipQuota ts) (day_used D ro) (snd (IsDateChange D ts))"
  using assms loaded_caller [OF assms(2)]
  by (auto simp: at_day_def IsDateChange_def day_used_def loaded_def new_flow_record_def split: option.splits)

lemma overflow_checks_day:
  assumes "D \<noteq> []" "holds_flow rd d n ro" "tsRecord ts = loaded n ro"
  shows "IsIoOverFlow D ts = (False, ts1) \<Longrightarrow> at_day D n (tsZipQuota ts) (day_used D ro) ts1"
    and "IsZipOverFlow D ts = (False, ts1) \<Longrightarrow> at_day D n (tsZipQuota ts) (day_used D ro) ts1"
  using IsDateChange_day [OF assms]
  by (auto simp: IsIoOverFlow_def IsZipOverFlow_def split: if_splits prod.splits)

lemma GetRemaining_day: "at_day D n q used ts \<Longrightarrow> GetRemainingTraceSize D ts = (remaining q used, ts)"
  by (auto simp: GetRemainingTraceSize_def at_day_def remaining_def IsDateChange_def)

text \<open>Storing a record of the day.\<close>

lemma store_day:
  assumes "rdb_works (qeRdb env)" "dwStore w = Some s" "rsOpen s" "holds_flow (qeRdb env) (dwDb w) n ro"
    "frCallerName r = n" "frSystemTime r = D" "D \<noteq> []"
  shows "flow_stored env D n (frUsedZipSize r) w (TraceStorage_Store env r w)"
proof -
  obtain d where d: "TraceStorage_Store env r w = w\<lparr>dwDb := d\<rparr>" "rdbVersion (qeRdb env) d = rdbVersion (qeRdb env) (dwDb w)"
      "holds_flow (qeRdb env) d n (Some r)"
      "\<And>k ro'. k \<noteq> n \<Longrightarrow> holds_flow (qeRdb env) (dwDb w) k ro' \<Longrightarrow> holds_flow (qeRdb env) d k ro'"
    using TraceStorage_Store_holds [OF assms(1-3), of r ro] assms(4-7) by blast
  then show ?thesis unfolding flow_stored_def
    using assms(6) by (intro exI [of _ d] exI [of _ "Some r"]) (simp add: day_used_def)
qed

lemma stores_day:
  assumes "rdb_works (qeRdb env)" "dwStore w = Some s" "rsOpen s" "holds_flow (qeRdb env) (dwDb w) n ro"
    "at_day D n q used ts" "D \<noteq> []" "used = day_used D ro"
  shows "same_flow env w (snd (StoreIoSize env sz ts w)) \<or> flow_stored env D n used w (snd (StoreIoSize env sz ts w))"
    and "same_flow env w (snd (DecreaseDynamicThreshold env ts w)) \<or> flow_stored env D n used w (snd (DecreaseDynamicThreshold env ts w))"
    and "flow_stored env D n (if q > 0 then used + sz else used) w (snd (StoreTraceSize env sz ts w))"
proof -
  have store: "flow_stored env D n (frUsedZipSize r) w (TraceStorage_Store env r w)"
    if "frCallerName r = n" "frSystemTime r = D" for r
    using store_day [OF assms(1-4) that assms(6)] .
  show "same_flow env w (snd (StoreIoSize env sz ts w)) \<or> flow_stored env D n used w (snd (StoreIoSize env sz ts w))"
    using store [of "(tsRecord ts)\<lparr>frUsedIoSize := frUsedIoSize (tsRecord ts) + sz\<rparr>"] assms(5)
    by (simp add: StoreIoSize_def at_day_def Let_def)
  show "same_flow env w (snd (DecreaseDynamicThreshold env ts w)) \<or> flow_stored env D n used w (snd (DecreaseDynamicThreshold env ts w))"
    using store [of "(tsRecord ts)\<lparr>frDynamicDecrease := frDynamicDecrease (tsRecord ts) + tsDecreaseUnit ts\<rparr>"] assms(5)
    by (simp add: DecreaseDynamicThreshold_def at_day_def Let_def)
  define r where "r = (if tsIoQuota ts > 0 then (tsRecord ts)\<lparr>frUsedIoSize := frUsedIoSize (tsRecord ts) + sz\<rparr> else tsRecord ts)"
  have r: "frCallerName r = n" "frSystemTime r = D" "frUsedZipSize r = used" "tsZipQuota ts = q"
    using assms(5) by (simp_all add: at_day_def r_def)
  have "snd (StoreTraceSize env sz ts w) = TraceStorage_Store env (if q > 0 then r\<lparr>frUsedZipSize := used + sz\<rparr> else r) w"
    using r(3,4) by (simp add: StoreTraceSize_def Let_def r_def)
  then show "flow_stored env D n (if q > 0 then used + sz else used) w (snd (StoreTraceSize env sz ts w))"
    using store [of r] store [of "r\<lparr>frUsedZipSize := used + sz\<rparr>"] r by simp
qed

end
