(* ===== verification/Quota_Runs.thy ===== *)
theory Quota_Runs
  imports Quota_Facts
begin

text \<open>
  Runs of dumps: on one day, dumps of all callers follow each other in any order, each by a strategy of
  the factory and at any state of the trace machine, and Hitrace finishes asynchronous dumps between
  them.
\<close>

section \<open>Dumps\<close>

text \<open>
  Hitrace reports the size of a trace, and of an asynchronous dump whether it is larger than the room that
  was left.
\<close>

definition sizes_ok :: "'x hitrace \<Rightarrow> bool" where
  "sizes_ok ht \<longleftrightarrow>
     (\<forall>dur t p x. 0 \<le> riFileSize (fst (htDumpTrace ht dur t p x))) \<and>
     (\<forall>dur t l x. 0 \<le> riFileSize (fst (htDumpTraceAsync ht dur t l x)) \<and>
        (riIsOverflowControl (fst (htDumpTraceAsync ht dur t l x)) \<or> riFileSize (fst (htDumpTraceAsync ht dur t l x)) \<le> sint l))"

lemma do_dump_info: "do_dump f m = (ret, i, m1) \<Longrightarrow> \<exists>x. i = Some (fst (f x))"
  by (rule exI [of _ "wHitrace (mWorld m)"]) (auto simp: do_dump_def hcall_def call_def split: prod.splits)

lemma DumpTrace_info:
  assumes "DumpTrace ht name dur t p m = (ret, i, m1)" "IsSuccess ret"
  shows "\<exists>x. i = Some (fst (htDumpTrace ht dur t p x))"
proof -
  from assms(1) obtain m2 where d: "state_DumpTrace ht name dur t p m = (ret, i, m2)"
    by (auto simp: DumpTrace_def refresh_after_dump_def split: prod.splits)
  have "i = None \<Longrightarrow> False" using d assms(2)
    by (auto simp: state_DumpTrace_def CommandState_DumpTrace_def CommonState_DumpTrace_def AppSystemState_DumpTrace_def
      DynamicState_DumpTrace_def no_dump_def do_dump_def split: trace_state.splits if_splits prod.splits)
  moreover have "i = None \<or> (\<exists>x. i = Some (fst (htDumpTrace ht dur t p x)))" using d
    by (auto simp: state_DumpTrace_def CommandState_DumpTrace_def CommonState_DumpTrace_def AppSystemState_DumpTrace_def
      DynamicState_DumpTrace_def no_dump_def dest: do_dump_info split: trace_state.splits if_splits)
  ultimately show ?thesis by blast
qed

lemma DumpTraceAsync_info:
  assumes "DumpTraceAsync ht args l m = (ret, i, m1)" "IsSuccess ret"
  shows "\<exists>dur t x. i = Some (fst (htDumpTraceAsync ht dur t l x))"
proof -
  from assms(1) obtain m2 where d: "state_DumpTraceAsync ht args l m = (ret, i, m2)"
    by (auto simp: DumpTraceAsync_def refresh_after_dump_def split: prod.splits)
  have "i = None \<Longrightarrow> False" using d assms(2)
    by (auto simp: state_DumpTraceAsync_def CommonState_DumpTraceAsync_def no_dump_def do_dump_def
      split: trace_state.splits if_splits prod.splits)
  moreover have "i = None \<or> (\<exists>dur t x. i = Some (fst (htDumpTraceAsync ht dur t l x)))" using d
    by (auto simp: state_DumpTraceAsync_def CommonState_DumpTraceAsync_def no_dump_def
      dest!: do_dump_info split: trace_state.splits if_splits)
  ultimately show ?thesis by blast
qed

lemma strategy_size:
  assumes "sizes_ok ht" "strategy_DumpTrace ht p name info0 m = (ret, info, m1)" "IsSuccess ret"
  shows "0 \<le> riFileSize info"
proof -
  obtain i where "DumpTrace ht name (spMaxDuration p) (spHappenTime p) (spOutputPath p) m = (ret, i, m1)"
      "info = (case i of None \<Rightarrow> info0 | Some i1 \<Rightarrow> i1)"
    using assms(2) by (auto simp: strategy_DumpTrace_def split: prod.splits)
  with DumpTrace_info [OF this(1) assms(3)] assms(1) show ?thesis by (auto simp: sizes_ok_def)
qed

section \<open>What each strategy does to the quota\<close>

fun packs :: "strategy \<Rightarrow> bool" where
  "packs (TraceStrategy p h sc) = False"
| "packs (TraceFlowControlStrategy p n h) = True"
| "packs (TraceDevStrategy p n h z) = (z \<noteq> None)"
| "packs (TraceAsyncStrategy p n h z) = (h \<noteq> None \<and> z \<noteq> None)"

text \<open>The bytes that a dump hands on for the upload.\<close>

definition uploaded :: "strategy \<Rightarrow> ('d, 'x) dump_outcome \<Rightarrow> int" where
  "uploaded s out = (if packs s \<and> IsSuccess (doRet out) then riFileSize (doInfo out) else 0)"

definition outcome_ok :: "('d, 'j) quota_env \<Rightarrow> string \<Rightarrow> string \<Rightarrow> int \<Rightarrow> int \<Rightarrow> 'd db_world \<Rightarrow> 'd db_world \<Rightarrow> int \<Rightarrow> bool" where
  "outcome_ok env D n q used w w' up \<longleftrightarrow>
     0 \<le> up \<and> (up = 0 \<or> up \<le> remaining q used) \<and>
     (up = 0 \<and> same_flow env w w' \<or> (\<exists>w1. same_flow env w w1 \<and> flow_stored env D n (used + up) w1 w'))"

lemma outcome_same: "same_flow env w w' \<Longrightarrow> outcome_ok env D n q used w w' 0"
  by (simp add: outcome_ok_def)

lemma outcome_kept:
  assumes "same_flow env w w1" "same_flow env w1 w' \<or> flow_stored env D n used w1 w'"
  shows "outcome_ok env D n q used w w' 0"
  using assms same_flow_trans by (auto simp: outcome_ok_def)

lemma outcome_added:
  assumes "same_flow env w w1" "flow_stored env D n (if q > 0 then used + up else used) w1 w'" "0 \<le> up" "up \<le> remaining q used"
  shows "outcome_ok env D n q used w w' up"
proof (cases "q > 0")
  case False
  then have "up = 0" using assms(3,4) by (simp add: remaining_def)
  with assms False show ?thesis by (auto simp: outcome_ok_def)
qed (use assms in \<open>auto simp: outcome_ok_def\<close>)

text \<open>What a dump of the factory on the day meets.\<close>

definition setting :: "('d, 'j) quota_env \<Rightarrow> 'x hitrace \<Rightarrow> run_handlers \<Rightarrow> string \<Rightarrow> int \<times> int \<Rightarrow> strategy_param \<Rightarrow> 'd db_world \<Rightarrow> bool" where
  "setting env ht hs D now p w \<longleftrightarrow>
     rdb_works (qeRdb env) \<and> db_prepared env w \<and> handlers_keep env hs \<and> sizes_ok ht \<and> D \<noteq> [] \<and>
     qeDate env (fst now) = D \<and> qeDate env (snd now) = D \<and> spDbPath p = DB_PATH \<and> spConfigPath p = CONFIG_PATH"

lemma same_flow_holds: "same_flow env w w' \<Longrightarrow> holds_flow rd (dwDb w') k ro = holds_flow rd (dwDb w) k ro"
  by (simp add: same_flow_def)

lemma settingD:
  assumes "setting env ht hs D now p w"
  shows "rdb_works (qeRdb env)" "db_prepared env w" "handlers_keep env hs" "sizes_ok ht" "D \<noteq> []"
    "qeDate env (fst now) = D" "qeDate env (snd now) = D" "spDbPath p = DB_PATH" "spConfigPath p = CONFIG_PATH"
  using assms by (auto simp: setting_def)

lemma dev_outcome:
  fixes out :: "('d, 'x) dump_outcome"
  assumes "setting env ht hs D now p w" "holds_flow (qeRdb env) (dwDb w) n ro" "n \<in> set flow_names"
    and out: "out = TraceDevStrategy_DoDump env ht hs info0 now p n h z w m"
    and q: "q = tsZipQuota (configured env (dwFs w) n)"
  shows "outcome_ok env D n q (day_used D ro) w (doDb out) (uploaded (TraceDevStrategy p n h z) out)"
proof -
  note st = settingD [OF assms(1)]
  obtain s where s: "rsOpen s" "TraceFlowController env n DB_PATH CONFIG_PATH w =
      (no_controller\<lparr>fcTrace := Some ((configured env (dwFs w) n)\<lparr>tsRecord := loaded n ro\<rparr>)\<rparr>, w\<lparr>dwStore := Some s\<rparr>)"
    using TraceFlowController_works [OF st(1,2) assms(2,3)] .
  obtain over ts1 where io: "IsIoOverFlow D ((configured env (dwFs w) n)\<lparr>tsRecord := loaded n ro\<rparr>) = (over, ts1)" by fastforce
  obtain ret info m1 where du: "strategy_DumpTrace ht p SN_COMMON_BETA info0 m = (ret, info, m1)" by (metis prod_cases3)
  have c1: "fc_IsIoOverFlow D (no_controller\<lparr>fcTrace := Some ((configured env (dwFs w) n)\<lparr>tsRecord := loaded n ro\<rparr>)\<rparr>) =
      (over, no_controller\<lparr>fcTrace := Some ts1\<rparr>)" using io by (simp add: fc_IsIoOverFlow_def)
  note run = out [unfolded TraceDevStrategy_DoDump_def st(6-9) s(2) prod.case c1 du]
  show ?thesis
  proof (cases "over \<or> \<not> IsSuccess ret \<or> riOutputFiles info = [] \<or> h = None")
    case True
    then have "doDb out = w\<lparr>dwStore := Some s\<rparr>" "uploaded (TraceDevStrategy p n h z) out = 0"
      using run by (auto simp: outcome_def uploaded_def Let_def)
    then show ?thesis by (simp add: outcome_same)
  next
    case False
    then obtain hd1 where h: "h = Some hd1" "\<not> over" "IsSuccess ret" "riOutputFiles info \<noteq> []" by blast
    have at: "at_day D n q (day_used D ro) ts1"
      using overflow_checks_day(1) [OF st(5) assms(2), of "(configured env (dwFs w) n)\<lparr>tsRecord := loaded n ro\<rparr>" ts1] io h(2) q by simp
    have sz: "0 \<le> riFileSize info" by (rule strategy_size [OF st(4) du h(3)])
    obtain f1 w1 where r1: "run_handler hs hd1 (riOutputFiles info) (w\<lparr>dwStore := Some s\<rparr>) = (f1, w1)" by fastforce
    have s1: "same_flow env w w1" "dwStore w1 = Some s"
      using same_flow_handler [OF st(3) r1] same_flow_trans [OF same_flow_store] by auto
    note d1 = stores_day [OF st(1) s1(2) s(1) _ at st(5) refl, unfolded same_flow_holds [OF s1(1)], OF assms(2)]
    show ?thesis
    proof (cases z)
      case None
      then have "doDb out = snd (StoreIoSize env (riFileSize info) ts1 w1)" "uploaded (TraceDevStrategy p n h z) out = 0"
        using run h r1 by (simp_all add: outcome_def uploaded_def Let_def fc_StoreIoSize_def split: prod.splits)
      then show ?thesis using outcome_kept [OF s1(1) d1(1)] by simp
    next
      case (Some zh)
      show ?thesis
      proof (cases "remaining q (day_used D ro) \<le> riFileSize info")
        case True
        then have "doDb out = snd (StoreIoSize env (riFileSize info) ts1 w1)" "uploaded (TraceDevStrategy p n h z) out = 0"
          using run h r1 Some GetRemaining_day [OF at]
          by (simp_all add: outcome_def uploaded_def Let_def fc_StoreIoSize_def fc_GetRemainingTraceSize_def split: prod.splits)
        then show ?thesis using outcome_kept [OF s1(1) d1(1)] by simp
      next
        case False
        obtain f2 w2 where r2: "run_handler hs zh (riOutputFiles info) w1 = (f2, w2)" by fastforce
        have s2: "same_flow env w w2" "dwStore w2 = Some s"
          using same_flow_handler [OF st(3) r2] s1 same_flow_trans by metis+
        have "doDb out = snd (StoreTraceSize env (riFileSize info) ts1 w2)"
            "uploaded (TraceDevStrategy p n h z) out = riFileSize info"
          using run h r1 r2 Some False GetRemaining_day [OF at]
          by (simp_all add: outcome_def uploaded_def Let_def fc_StoreTraceSize_def fc_GetRemainingTraceSize_def split: prod.splits)
        then show ?thesis
          using outcome_added [OF s2(1) stores_day(3) [OF st(1) s2(2) s(1) _ at st(5) refl, unfolded same_flow_holds [OF s2(1)], OF assms(2)] sz]
            False by simp
      qed
    qed
  qed
qed

lemma flow_control_outcome:
  fixes out :: "('d, 'x) dump_outcome"
  assumes "setting env ht hs D now p w" "holds_flow (qeRdb env) (dwDb w) n ro" "n \<in> set flow_names"
    and out: "out = TraceFlowControlStrategy_DoDump env ht hs info0 now p n h w m"
    and q: "q = tsZipQuota (configured env (dwFs w) n)"
  shows "outcome_ok env D n q (day_used D ro) w (doDb out) (uploaded (TraceFlowControlStrategy p n h) out)"
proof -
  note st = settingD [OF assms(1)]
  obtain s where s: "rsOpen s" "TraceFlowController env n DB_PATH CONFIG_PATH w =
      (no_controller\<lparr>fcTrace := Some ((configured env (dwFs w) n)\<lparr>tsRecord := loaded n ro\<rparr>)\<rparr>, w\<lparr>dwStore := Some s\<rparr>)"
    using TraceFlowController_works [OF st(1,2) assms(2,3)] .
  obtain over ts1 where io: "IsZipOverFlow D ((configured env (dwFs w) n)\<lparr>tsRecord := loaded n ro\<rparr>) = (over, ts1)" by fastforce
  obtain ret info m1 where du: "strategy_DumpTrace ht p SN_COMMON_BETA info0 m = (ret, info, m1)" by (metis prod_cases3)
  have c1: "fc_IsZipOverFlow D (no_controller\<lparr>fcTrace := Some ((configured env (dwFs w) n)\<lparr>tsRecord := loaded n ro\<rparr>)\<rparr>) =
      (over, no_controller\<lparr>fcTrace := Some ts1\<rparr>)" using io by (simp add: fc_IsZipOverFlow_def)
  note run = out [unfolded TraceFlowControlStrategy_DoDump_def st(6-9) s(2) prod.case c1 du]
  show ?thesis
  proof (cases "over \<or> \<not> IsSuccess ret \<or> riOutputFiles info = [] \<or> h = None")
    case True
    then have "doDb out = w\<lparr>dwStore := Some s\<rparr>" "uploaded (TraceFlowControlStrategy p n h) out = 0"
      using run by (auto simp: outcome_def uploaded_def Let_def split: option.splits)
    then show ?thesis by (simp add: outcome_same)
  next
    case False
    then obtain hd1 where h: "h = Some hd1" "\<not> over" "IsSuccess ret" "riOutputFiles info \<noteq> []" by blast
    have at: "at_day D n q (day_used D ro) ts1"
      using overflow_checks_day(2) [OF st(5) assms(2), of "(configured env (dwFs w) n)\<lparr>tsRecord := loaded n ro\<rparr>" ts1] io h(2) q by simp
    have sz: "0 \<le> riFileSize info" by (rule strategy_size [OF st(4) du h(3)])
    let ?w0 = "w\<lparr>dwStore := Some s\<rparr>"
    show ?thesis
    proof (cases "riFileSize info > remaining q (day_used D ro)")
      case True
      then have "doDb out = snd (DecreaseDynamicThreshold env ts1 ?w0)" "uploaded (TraceFlowControlStrategy p n h) out = 0"
        using run h GetRemaining_day [OF at]
        by (simp_all add: outcome_def uploaded_def Let_def fc_DecreaseDynamicThreshold_def fc_GetRemainingTraceSize_def split: prod.splits)
      then show ?thesis
        using outcome_kept [OF same_flow_store stores_day(2) [OF st(1) _ s(1) _ at st(5) refl, of ?w0]] assms(2) by simp
    next
      case False
      obtain f1 w1 where r1: "run_handler hs hd1 (riOutputFiles info) ?w0 = (f1, w1)" by fastforce
      have s1: "same_flow env w w1" "dwStore w1 = Some s"
        using same_flow_handler [OF st(3) r1] same_flow_trans [OF same_flow_store] by auto
      have "doDb out = snd (StoreTraceSize env (riFileSize info) ts1 w1)"
          "uploaded (TraceFlowControlStrategy p n h) out = riFileSize info"
        using run h r1 False GetRemaining_day [OF at]
        by (simp_all add: outcome_def uploaded_def Let_def fc_StoreTraceSize_def fc_GetRemainingTraceSize_def split: prod.splits)
      then show ?thesis
        using outcome_added [OF s1(1) stores_day(3) [OF st(1) s1(2) s(1) _ at st(5) refl, unfolded same_flow_holds [OF s1(1)], OF assms(2)] sz]
          False by simp
    qed
  qed
qed

text \<open>The room that is left is a 64-bit number.\<close>

lemma remaining_word:
  assumes "q \<le> 2 ^ 60" "0 \<le> used"
  shows "sint (word_of_int (remaining q used) :: i64) = remaining q used"
proof -
  have "remaining q used < 2 ^ 63 \<and> 0 \<le> remaining q used"
  proof (cases "q \<le> 0 \<or> q \<le> used")
    case False
    then have "10 * 2 ^ 22 * add_ten_percent (q - used) q \<le> 10 * 2 ^ 22 * (q - used) + (2 ^ 22 + 10) * q"
      using assms(2) by (intro add_ten_percent_le) auto
    then show ?thesis using False assms by (simp add: remaining_def add_ten_percent_def)
  qed (simp add: remaining_def)
  then show ?thesis by (simp add: signed_of_int signed_take_bit_int_eq_self)
qed

lemma async_outcome:
  fixes out :: "('d, 'x) dump_outcome"
  assumes "setting env ht hs D now p w" "holds_flow (qeRdb env) (dwDb w) n ro" "n \<in> set flow_names"
    and out: "out = TraceAsyncStrategy_DoDump env ht version info0 now p n h z w m"
    and q: "q = tsZipQuota (configured env (dwFs w) n)" "q \<le> 2 ^ 60" "0 \<le> day_used D ro"
  shows "outcome_ok env D n q (day_used D ro) w (doDb out) (uploaded (TraceAsyncStrategy p n h z) out)"
proof -
  note st = settingD [OF assms(1)]
  let ?R = "remaining q (day_used D ro)"
  obtain s where s: "rsOpen s" "TraceFlowController env n DB_PATH CONFIG_PATH w =
      (no_controller\<lparr>fcTrace := Some ((configured env (dwFs w) n)\<lparr>tsRecord := loaded n ro\<rparr>)\<rparr>, w\<lparr>dwStore := Some s\<rparr>)"
    using TraceFlowController_works [OF st(1,2) assms(2,3)] .
  obtain over ts1 where io: "IsIoOverFlow D ((configured env (dwFs w) n)\<lparr>tsRecord := loaded n ro\<rparr>) = (over, ts1)" by fastforce
  have c1: "fc_IsIoOverFlow D (no_controller\<lparr>fcTrace := Some ((configured env (dwFs w) n)\<lparr>tsRecord := loaded n ro\<rparr>)\<rparr>) =
      (over, no_controller\<lparr>fcTrace := Some ts1\<rparr>)" using io by (simp add: fc_IsIoOverFlow_def)
  note run0 = out [unfolded TraceAsyncStrategy_DoDump_def st(6-9) s(2) prod.case c1]
  let ?w0 = "w\<lparr>dwStore := Some s\<rparr>"
  show ?thesis
  proof (cases over)
    case True
    then have "doDb out = ?w0" "uploaded (TraceAsyncStrategy p n h z) out = 0"
      using run0 by (auto simp: outcome_def uploaded_def)
    then show ?thesis by (simp add: outcome_same)
  next
    case False
    have at: "at_day D n q (day_used D ro) ts1"
      using overflow_checks_day(1) [OF st(5) assms(2), of "(configured env (dwFs w) n)\<lparr>tsRecord := loaded n ro\<rparr>" ts1] io False q(1) by simp
    obtain ret i m1 where du: "DumpTraceAsync ht \<lparr>daScenarioName = SN_COMMON_BETA, daMaxDuration = spMaxDuration p,
        daHappenTime = spHappenTime p\<rparr> (word_of_int ?R) m = (ret, i, m1)" by (metis prod_cases3)
    define info where "info = (case i of None \<Rightarrow> info0 | Some i1 \<Rightarrow> i1)"
    have as: "async_DumpTrace env ht (snd now) p SN_COMMON_BETA info0 (no_controller\<lparr>fcTrace := Some ts1\<rparr>) m =
        (ret, info, no_controller\<lparr>fcTrace := Some ts1\<rparr>, m1)"
      using du GetRemaining_day [OF at] st(7)
      by (simp add: async_DumpTrace_def fc_GetRemainingTraceSize_def info_def)
    note run = run0 [unfolded as prod.case if_not_P [OF False]]
    note d0 = stores_day [OF st(1) _ s(1) _ at st(5) refl, of ?w0, simplified, OF assms(2)]
    show ?thesis
    proof (cases "\<not> IsSuccess ret \<or> riOutputFiles info = [] \<or> h = None")
      case True
      then have "doDb out = ?w0" "uploaded (TraceAsyncStrategy p n h z) out = 0"
        using run by (auto simp: outcome_def uploaded_def Let_def)
      then show ?thesis by (simp add: outcome_same)
    next
      case False
      then obtain h1 where h: "h = Some h1" "IsSuccess ret" "riOutputFiles info \<noteq> []" by blast
      have sz: "0 \<le> riFileSize info" "riIsOverflowControl info \<or> riFileSize info \<le> ?R"
      proof -
        obtain dur t x where i: "i = Some (fst (htDumpTraceAsync ht dur t (word_of_int ?R) x))"
          using DumpTraceAsync_info [OF du h(2)] by blast
        show "0 \<le> riFileSize info" "riIsOverflowControl info \<or> riFileSize info \<le> ?R"
          using st(4) [unfolded sizes_ok_def, THEN conjunct2, rule_format, of dur t "word_of_int ?R" x]
          by (simp_all add: i info_def remaining_word [OF q(2,3)])
      qed
      show ?thesis
      proof (cases "z = None \<or> riIsOverflowControl info")
        case True
        then have "doDb out = snd (StoreIoSize env (riFileSize info) ts1 ?w0)" "uploaded (TraceAsyncStrategy p n h z) out = 0"
          using run h by (auto simp: outcome_def uploaded_def Let_def fc_StoreIoSize_def split: prod.splits option.splits)
        then show ?thesis using outcome_kept [OF same_flow_store d0(1)] by simp
      next
        case False
        then have "doDb out = snd (StoreTraceSize env (riFileSize info) ts1 ?w0)"
            "uploaded (TraceAsyncStrategy p n h z) out = riFileSize info"
          using run h by (auto simp: outcome_def uploaded_def Let_def fc_StoreTraceSize_def split: prod.splits option.splits)
        then show ?thesis using outcome_added [OF same_flow_store d0(3) sz(1)] sz(2) False by simp
      qed
    qed
  qed
qed

section \<open>Runs\<close>

fun flow_of :: "strategy \<Rightarrow> string option" where
  "flow_of (TraceStrategy p h sc) = None"
| "flow_of (TraceFlowControlStrategy p n h) = Some n"
| "flow_of (TraceDevStrategy p n h z) = Some n"
| "flow_of (TraceAsyncStrategy p n h z) = Some n"

definition made :: "strategy \<Rightarrow> bool" where
  "made s \<longleftrightarrow> (\<exists>caller dur t. CreateTraceStrategy caller dur t = Some s) \<or>
     (\<exists>name dur t flow path. s = CreateTraceStrategy_name name dur t flow path)"

text \<open>A step of the day, with the bytes that each name has uploaded so far.\<close>

inductive dump_step :: "('d, 'j) quota_env \<Rightarrow> 'x hitrace \<Rightarrow> run_handlers \<Rightarrow> string \<Rightarrow> string \<Rightarrow>
    'd db_world \<times> (string \<Rightarrow> int) \<Rightarrow> 'd db_world \<times> (string \<Rightarrow> int) \<Rightarrow> bool"
  for env ht hs version D where
  dump: "\<lbrakk>made s; qeDate env (fst now) = D; qeDate env (snd now) = D; out = DoDump env ht hs version info0 now s w m\<rbrakk> \<Longrightarrow>
    dump_step env ht hs version D (w, u)
      (doDb out, case flow_of s of None \<Rightarrow> u | Some n \<Rightarrow> u(n := u n + uploaded s out))"
| finished: "dump_step env ht hs version D (w, u) (async_callback hs info h z w, u)"

definition within_quota :: "int \<Rightarrow> int \<Rightarrow> bool" where
  "within_quota q used \<longleftrightarrow> 10 * 2 ^ 22 * used \<le> (11 * 2 ^ 22 + 10) * max 0 q"

definition flows_ok :: "('d, 'j) quota_env \<Rightarrow> string \<Rightarrow> (string \<Rightarrow> int) \<Rightarrow> 'd db_world \<times> (string \<Rightarrow> int) \<Rightarrow> bool" where
  "flows_ok env D q st \<longleftrightarrow>
     db_prepared env (fst st) \<and>
     (\<forall>k \<in> set flow_names. tsZipQuota (configured env (dwFs (fst st)) k) = q k \<and> q k \<le> 2 ^ 60 \<and> 0 \<le> snd st k \<and>
        within_quota (q k) (snd st k) \<and>
        (\<exists>ro. holds_flow (qeRdb env) (dwDb (fst st)) k ro \<and> day_used D ro = snd st k))"

lemma within_quota_add:
  assumes "0 \<le> used" "within_quota q used" "0 \<le> up" "up = 0 \<or> up \<le> remaining q used"
  shows "within_quota q (used + up)"
proof (cases "up = 0 \<or> q \<le> 0 \<or> q \<le> used")
  case True
  then have "up = 0" using assms(3,4) by (auto simp: remaining_def)
  then show ?thesis using assms(2) by simp
next
  case False
  then have "up \<le> add_ten_percent (q - used) q" using assms(4) by (simp add: remaining_def)
  moreover have "10 * 2 ^ 22 * add_ten_percent (q - used) q \<le> 10 * 2 ^ 22 * (q - used) + (2 ^ 22 + 10) * q"
    using assms(1) False by (intro add_ten_percent_le) auto
  ultimately show ?thesis using False by (simp add: within_quota_def)
qed

text \<open>Changes that keep all records keep the invariant.\<close>

lemma flows_ok_same: "flows_ok env D q (w, u) \<Longrightarrow> same_flow env w w' \<Longrightarrow> flows_ok env D q (w', u)"
  using configured_cong [of "dwFs w'" "dwFs w" env] by (simp add: flows_ok_def same_flow_def)

lemma flows_ok_outcome:
  assumes "flows_ok env D q (w, u)" "n \<in> set flow_names" "outcome_ok env D n (q n) (u n) w w' up"
  shows "flows_ok env D q (w', u(n := u n + up))"
proof -
  have n: "0 \<le> u n" "within_quota (q n) (u n)" using assms(1,2) by (auto simp: flows_ok_def)
  have up: "0 \<le> up" "up = 0 \<or> up \<le> remaining (q n) (u n)" using assms(3) by (auto simp: outcome_ok_def)
  from assms(3) consider "up = 0" "same_flow env w w'"
    | w1 where "same_flow env w w1" "flow_stored env D n (u n + up) w1 w'" by (auto simp: outcome_ok_def)
  then show ?thesis
  proof cases
    case 1
    then show ?thesis using flows_ok_same [OF assms(1)] by simp
  next
    case (2 w1)
    then obtain d ro where w': "w' = w1\<lparr>dwDb := d\<rparr>" "rdbVersion (qeRdb env) d = rdbVersion (qeRdb env) (dwDb w1)"
        "holds_flow (qeRdb env) d n ro" "day_used D ro = u n + up"
        "\<And>k ro'. k \<noteq> n \<Longrightarrow> holds_flow (qeRdb env) (dwDb w1) k ro' \<Longrightarrow> holds_flow (qeRdb env) d k ro'"
      by (auto simp: flow_stored_def)
    have f1: "flows_ok env D q (w1, u)" by (rule flows_ok_same [OF assms(1) 2(1)])
    have "db_prepared env w'" using f1 w'(1,2) by (simp add: flows_ok_def db_prepared_def Let_def)
    moreover have "\<exists>ro. holds_flow (qeRdb env) d k ro \<and> day_used D ro = (u(n := u n + up)) k" if kn: "k \<in> set flow_names" for k
    proof (cases "k = n")
      case True
      then show ?thesis using w'(3,4) by auto
    next
      case False
      then obtain ro' where "holds_flow (qeRdb env) (dwDb w1) k ro'" "day_used D ro' = u k"
        using f1 kn by (auto simp: flows_ok_def)
      then show ?thesis using w'(5) [OF False] False by auto
    qed
    ultimately show ?thesis
      using f1 within_quota_add [OF n up] n(1) up(1) w'(1) by (auto simp: flows_ok_def)
  qed
qed

fun param_of :: "strategy \<Rightarrow> strategy_param" where
  "param_of (TraceStrategy p h sc) = p"
| "param_of (TraceFlowControlStrategy p n h) = p"
| "param_of (TraceDevStrategy p n h z) = p"
| "param_of (TraceAsyncStrategy p n h z) = p"

lemma made_param:
  assumes "made s"
  shows "spDbPath (param_of s) = DB_PATH" "spConfigPath (param_of s) = CONFIG_PATH"
    "flow_of s = Some n \<Longrightarrow> n \<in> set flow_names"
proof -
  have "spDbPath (param_of s) = DB_PATH \<and> spConfigPath (param_of s) = CONFIG_PATH \<and> (flow_of s = Some n \<longrightarrow> n \<in> set flow_names)"
    using assms unfolding made_def
  proof (elim disjE exE)
    fix caller dur t assume "CreateTraceStrategy caller dur t = Some s"
    then show ?thesis by (cases caller) (auto simp: CreateTraceStrategy_def Let_def flow_names_def)
  qed (auto simp: CreateTraceStrategy_name_def Let_def flow_names_def)
  then show "spDbPath (param_of s) = DB_PATH" "spConfigPath (param_of s) = CONFIG_PATH"
    "flow_of s = Some n \<Longrightarrow> n \<in> set flow_names" by auto
qed

lemma flows_ok_step:
  assumes "rdb_works (qeRdb env)" "handlers_keep env hs" "sizes_ok ht" "D \<noteq> []"
    "dump_step env ht hs version D st st'" "flows_ok env D q st"
  shows "flows_ok env D q st'"
  using assms(5)
proof cases
  case (dump s now out info0 w m u)
  show ?thesis
  proof (cases "flow_of s")
    case None
    then obtain p h sc where "s = TraceStrategy p h sc" by (cases s) auto
    then have "same_flow env w (doDb out)"
      using dump(6) same_flow_handler(1) [OF assms(2)]
      by (auto simp: TraceStrategy_DoDump_def outcome_def split: prod.splits option.splits)
    then show ?thesis using flows_ok_same [of env D q w u] assms(6) dump(1,2) None by simp
  next
    case (Some n)
    note s = made_param(3) [OF dump(3) Some] made_param(1,2) [OF dump(3)]
    have inv: "flows_ok env D q (w, u)" using assms(6) dump(1) by simp
    then obtain ro where ro: "holds_flow (qeRdb env) (dwDb w) n ro" "day_used D ro = u n"
        "q n = tsZipQuota (configured env (dwFs w) n)" "q n \<le> 2 ^ 60" "0 \<le> u n"
      using s(1) by (auto simp: flows_ok_def)
    have set: "setting env ht hs D now (param_of s) w"
      using assms(1-4) inv s(2,3) dump(4,5) by (simp add: setting_def flows_ok_def)
    have "outcome_ok env D n (q n) (day_used D ro) w (doDb out) (uploaded s out)"
    proof (cases s)
      case (TraceFlowControlStrategy p n' h)
      then show ?thesis using flow_control_outcome [OF set ro(1) s(1) _ ro(3)] dump(6) Some by simp
    next
      case (TraceDevStrategy p n' h z)
      then show ?thesis using dev_outcome [OF set ro(1) s(1) _ ro(3)] dump(6) Some by simp
    next
      case (TraceAsyncStrategy p n' h z)
      then show ?thesis using async_outcome [OF set ro(1) s(1) _ ro(3,4)] ro(2,5) dump(6) Some by simp
    qed (use Some in simp)
    then show ?thesis using flows_ok_outcome [OF inv s(1)] ro(2) dump(2) Some by simp
  qed
next
  case (finished w u info h z)
  have k: "same_flow env v (snd (run_handler hs x files v))" for v x files
    using same_flow_handler(1) [OF assms(2), of x files v] by (cases "run_handler hs x files v") auto
  have "same_flow env w (async_callback hs info h z w)"
    by (auto simp: async_callback_def Let_def intro: k same_flow_trans [OF k k] split: option.splits)
  then show ?thesis using flows_ok_same assms(6) finished by blast
qed

lemma flows_ok_run:
  assumes "rdb_works (qeRdb env)" "handlers_keep env hs" "sizes_ok ht" "D \<noteq> []"
    "(dump_step env ht hs version D)\<^sup>*\<^sup>* st st'" "flows_ok env D q st"
  shows "flows_ok env D q st'"
  using assms(5,6) by (induction rule: rtranclp_induct) (auto intro: flows_ok_step [OF assms(1-4)])

end
