(* ===== verification/Quota_Samples.thy ===== *)
theory Quota_Samples
  imports Quota_Runs
begin

text \<open>
  A concrete device: the table-based database, a configuration that grants each name 1000 bytes a day, and a
  Hitrace whose traces have 700 bytes.
\<close>

definition sample_json :: "bool cjson" where
  "sample_json = \<lparr>cjParse = (\<lambda>t. Some True), cjIsObject = (\<lambda>j. j), cjIsNumber = (\<lambda>j. \<not> j),
     cjGetObjectItem = (\<lambda>j k. Some (k \<in> {''ioQuota'', ''zipQuota''})), cjNumber = (\<lambda>j. 1000)\<rparr>"

definition sample_quota_env :: "(list_db, bool) quota_env" where
  "sample_quota_env = \<lparr>qeOps = free_ops, qeRdb = list_rdb, qeJson = sample_json,
     qeDay = (\<lambda>t. if t < 86400 then ''20250101'' else ''20250102''), qeDate = (\<lambda>t. ''2025-01-01'')\<rparr>"

definition sample_quota_world :: "list_db db_world" where
  "sample_quota_world = \<lparr>dwFs = \<lparr>fsFiles = [(quota_file, [])], fsDirs = [dir_name DB_PATH]\<rparr>,
     dwDb = \<lparr>ldTables = [], ldNext = 0, ldVersions = [(DB_PATH @ DB_NAME, DB_VERSION)]\<rparr>, dwStore = None\<rparr>"

definition sized_hitrace :: "(string list) option hitrace" where
  "sized_hitrace = tag_hitrace\<lparr>
     htDumpTrace := (\<lambda>d t p x. (\<lparr>riErrorCode = CODE_SUCCESS, riOutputFiles = [''t.sys''], riFileSize = 700, riIsOverflowControl = False\<rparr>, x)),
     htDumpTraceAsync := (\<lambda>d t l x. (\<lparr>riErrorCode = CODE_SUCCESS, riOutputFiles = [''t.sys''], riFileSize = 700,
       riIsOverflowControl = (sint l < 700)\<rparr>, x))\<rparr>"

definition no_info :: trace_ret_info where
  "no_info = \<lparr>riErrorCode = CODE_SUCCESS, riOutputFiles = [], riFileSize = 0, riIsOverflowControl = False\<rparr>"

definition keeping_handlers :: run_handlers where
  "keeping_handlers = (\<lambda>h files fs. (files, fs))"

definition sample_machine :: "(string list) option machine" where
  "sample_machine = \<lparr>mState = CommonState 0 0, mCacheSizeLimit = 0, mCacheSliceSpan = 0, mTraceSwitchState = 0,
     mIsCommandState = False, mIsCachSwitchOn = False, mWorld = \<lparr>wHitrace = Some [], wBootTimeMs = 0, wMilliseconds = 0,
     wScreenOn = True, wDeveloperMode = True, wLog = []\<rparr>\<rparr>"

definition xpower :: strategy where
  "xpower = the (CreateTraceStrategy CALLER_XPOWER 0 0)"

definition sample_dump :: "list_db db_world \<Rightarrow> (list_db, (string list) option) dump_outcome" where
  "sample_dump w = DoDump sample_quota_env sized_hitrace keeping_handlers ''v'' no_info (0, 0) xpower w sample_machine"

text \<open>The device is as the quota needs it.\<close>

lemma sample_prepared: "db_prepared sample_quota_env sample_quota_world"
  by (simp add: db_prepared_def sample_quota_env_def sample_quota_world_def IsDirectory_def free_ops_def DB_PATH_def list_rdb_def Let_def)

lemma sample_holds: "holds_flow (qeRdb sample_quota_env) (dwDb sample_quota_world) n None"
  by (simp add: holds_flow_def sample_quota_env_def sample_quota_world_def list_rdb_def ld_rows_def)

lemma sample_configured:
  assumes "n \<in> set flow_names"
  shows "configured sample_quota_env (dwFs sample_quota_world) n =
    \<lparr>tsRecord = new_flow_record [], tsName = n, tsIoQuota = 1000, tsZipQuota = 1000, tsDecreaseUnit = 1000\<rparr>"
  using assms by (auto simp: configured_def InitTraceQuota_def ParseJsonRoot_def sample_quota_env_def sample_quota_world_def
    sample_json_def fs_file_def GetIntValue_def flow_names_def)

lemma sample_works: "rdb_works (qeRdb sample_quota_env)" "handlers_keep sample_quota_env keeping_handlers" "sizes_ok sized_hitrace"
  by (simp_all add: sample_quota_env_def handlers_keep_def keeping_handlers_def sizes_ok_def sized_hitrace_def linorder_not_less [symmetric])

lemma sample_flows: "flows_ok sample_quota_env ''2025-01-01'' (\<lambda>n. 1000) (sample_quota_world, \<lambda>n. 0)"
  using sample_prepared sample_holds
  by (auto simp: flows_ok_def sample_configured within_quota_def day_used_def intro!: exI [of _ None])

lemma xpower_flow: "xpower = TraceFlowControlStrategy \<lparr>spMaxDuration = 0, spHappenTime = 0, spCaller = ''Xpower'', spDbPath = DB_PATH,
    spConfigPath = CONFIG_PATH, spOutputPath = []\<rparr> ''Xpower'' (Some (TraceZipHandler UNIFIED_SHARE_PATH 20 ''Xpower''))"
  by (simp add: xpower_def CreateTraceStrategy_def Let_def)

lemma xpower_made: "made xpower"
proof -
  have "CreateTraceStrategy CALLER_XPOWER 0 0 = Some xpower" by (simp add: xpower_flow CreateTraceStrategy_def Let_def)
  then show ?thesis unfolding made_def by blast
qed

text \<open>The first dump of the day is uploaded.\<close>

lemma sample_remaining: "add_ten_percent 1000 1000 = 1100"
  by (simp add: add_ten_percent_def round_float_def bit_count.simps TEN_PERCENT_LIMIT_def Let_def)

definition sample_info :: trace_ret_info where
  "sample_info = \<lparr>riErrorCode = CODE_SUCCESS, riOutputFiles = [''t.sys''], riFileSize = 700, riIsOverflowControl = False\<rparr>"

lemma sample_DumpTrace: "\<exists>m. DumpTrace sized_hitrace SN_COMMON_BETA d t [] sample_machine = (TraceRet_code CODE_SUCCESS, Some sample_info, m)"
  by (simp add: DumpTrace_def refresh_after_dump_def state_DumpTrace_def sample_machine_def CommonState_DumpTrace_def do_dump_def
    hcall_def call_def sized_hitrace_def sample_info_def)

lemma sample_uploaded: "uploaded xpower (sample_dump sample_quota_world) = 700"
proof -
  obtain s where s: "rsOpen s" "TraceFlowController sample_quota_env ''Xpower'' DB_PATH CONFIG_PATH sample_quota_world =
      (no_controller\<lparr>fcTrace := Some ((configured sample_quota_env (dwFs sample_quota_world) ''Xpower'')\<lparr>tsRecord := loaded ''Xpower'' None\<rparr>)\<rparr>,
       sample_quota_world\<lparr>dwStore := Some s\<rparr>)"
    using TraceFlowController_works [OF sample_works(1) sample_prepared sample_holds, of "''Xpower''"] by (auto simp: flow_names_def)
  obtain m where m: "DumpTrace sized_hitrace SN_COMMON_BETA 0 0 [] sample_machine = (TraceRet_code CODE_SUCCESS, Some sample_info, m)"
    using sample_DumpTrace by blast
  have day: "qeDate sample_quota_env t = ''2025-01-01''" for t by (simp add: sample_quota_env_def)
  show ?thesis
    by (simp add: sample_dump_def xpower_flow TraceFlowControlStrategy_DoDump_def s(2) sample_configured flow_names_def loaded_def
      new_flow_record_def fc_IsZipOverFlow_def IsZipOverFlow_def IsDateChange_def strategy_DumpTrace_def m day sample_info_def
      fc_GetRemainingTraceSize_def GetRemainingTraceSize_def sample_remaining uploaded_def outcome_def Let_def split: prod.splits)
qed

lemma sample_quota_run: "dump_step sample_quota_env sized_hitrace keeping_handlers ''v'' ''2025-01-01'' (sample_quota_world, u)
    (doDb (sample_dump sample_quota_world), u(''Xpower'' := u ''Xpower'' + 700))"
  using dump_step.dump [OF xpower_made, of sample_quota_env "(0, 0)" "''2025-01-01''" "sample_dump sample_quota_world"]
  by (simp add: sample_uploaded [symmetric] sample_dump_def sample_quota_env_def xpower_flow)

end
