(* ===== verification/App_Capture.thy ===== *)
theory App_Capture
  imports Quota_Samples
begin

text \<open>
  Captures of apps (\<open>TraceAppStrategy\<close>): one a day for each app, counted by the rows of the task table.
\<close>

definition day_num :: "('d, 'j) quota_env \<Rightarrow> int \<Rightarrow> int option" where
  "day_num env ms = from_chars (2 ^ 31) (qeDay env (ms div 1000))"

definition app_task :: "int \<Rightarrow> int \<Rightarrow> rdb_row \<Rightarrow> bool" where
  "app_task uid X = row_matches [EqualTo ''uid'' (RInt uid), EqualTo ''task_date'' (RInt X)]"

definition has_task :: "('d, 'j) quota_env \<Rightarrow> int \<Rightarrow> int \<Rightarrow> 'd db_world \<Rightarrow> bool" where
  "has_task env uid X w \<longleftrightarrow> (\<exists>r \<in># rdbRows (qeRdb env) (dwDb w) TABLE_NAME_TASK. app_task uid X r)"

text \<open>The database is there, and each row of the table has a positive number, as an insertion gives it.\<close>

definition task_db :: "('d, 'j) quota_env \<Rightarrow> 'd db_world \<Rightarrow> bool" where
  "task_db env w \<longleftrightarrow> db_prepared env w \<and>
     (\<forall>r \<in># rdbRows (qeRdb env) (dwDb w) TABLE_NAME_TASK. \<exists>i > 0. r ''id'' = Some (RInt i))"

lemma from_chars_mono: "from_chars a str = Some n \<Longrightarrow> a \<le> b \<Longrightarrow> from_chars b str = Some n"
  by (auto simp: from_chars_def Let_def split: if_splits)

lemma App_controller:
  assumes "rdb_works (qeRdb env)" "db_prepared env w"
  obtains s where "rsOpen s"
    "TraceFlowController env ''APP'' DB_PATH cfg w = (no_controller\<lparr>fcAppTask := True\<rparr>, w\<lparr>dwStore := Some s\<rparr>)"
proof -
  obtain s where "InitTraceDb env DB_PATH w = w\<lparr>dwStore := Some s\<rparr>" "rsOpen s" using InitTraceDb_works [OF assms] .
  then show thesis using that by (simp add: TraceFlowController_def InitTraceStorage_def)
qed

text \<open>An app is refused exactly when the table has a row for it and the day.\<close>

lemma HasCallOnceToday_iff:
  assumes "rdb_works (qeRdb env)" "task_db env w" "dwStore w = Some s" "rsOpen s" "day_num env t = Some X"
  shows "HasCallOnceToday env uid t (no_controller\<lparr>fcAppTask := True\<rparr>) w = (has_task env uid X w, w)"
proof -
  let ?cols = "[''id'', ''task_date'', ''task_type'', ''uid'', ''pid'', ''bundle_name'', ''bundle_version'', ''start_time'',
    ''finish_time'', ''resource_path'', ''resource_size'', ''cost_cpu'', ''state'']"
  let ?T = "filter_mset (app_task uid X) (rdbRows (qeRdb env) (dwDb w) TABLE_NAME_TASK)"
  obtain rs where rs: "db_Query (qeOps env) (qeRdb env) TABLE_NAME_TASK
        [EqualTo ''uid'' (RInt uid), EqualTo ''task_date'' (RInt X)] ?cols s w = (Some rs, w)"
      "mset rs = image_mset (\<lambda>r. map r ?cols) ?T"
    using db_Query_works [OF assms(1,4)] unfolding app_task_def by blast
  have found: "has_task env uid X w \<longleftrightarrow> ?T \<noteq> {#}" by (auto simp: has_task_def filter_mset_eq_conv)
  show ?thesis
  proof (cases rs)
    case Nil
    then have "?T = {#}" using rs(2) by (simp add: image_mset_is_empty_iff)
    then show ?thesis using Nil found assms(3,5) rs(1)
      by (simp add: HasCallOnceToday_def day_num_def GetAppEventTask_def InnerGetAppTask_def no_controller_def new_app_event_task_def)
  next
    case (Cons row rest)
    then have "row \<in># image_mset (\<lambda>r. map r ?cols) ?T" by (simp only: rs(2) [symmetric]) simp
    then obtain r where r: "row = map r ?cols" "r \<in># rdbRows (qeRdb env) (dwDb w) TABLE_NAME_TASK" "?T \<noteq> {#}" by auto
    then obtain i where "0 < i" "r ''id'' = Some (RInt i)" using assms(2) by (auto simp: task_db_def)
    then have "0 < get_long row 0 j" for j using r(1) by (simp add: get_long_def)
    then show ?thesis using Cons found r(3) assms(3,5) rs(1)
      by (simp add: HasCallOnceToday_def day_num_def GetAppEventTask_def InnerGetAppTask_def no_controller_def)
  qed
qed

lemma RecordCaller_task:
  assumes "rdb_works (qeRdb env)" "task_db env w" "dwStore w = Some s" "rsOpen s"
    "RecordCaller env t (no_controller\<lparr>fcAppTask := True\<rparr>) w = (ok, w1)"
  shows "task_db env w1" "dwStore w1 = Some s"
    "has_task env u Z w1 \<longleftrightarrow> has_task env u Z w \<or> u = atUid t \<and> Z = atTaskDate t"
proof -
  obtain i d where i: "db_Insert (qeOps env) (qeRdb env) (atId t) TABLE_NAME_TASK (task_bucket t) s w = (E_OK, i, w\<lparr>dwDb := d\<rparr>)"
      "inserts (qeRdb env) TABLE_NAME_TASK (task_bucket t) (dwDb w) d i"
    using db_Insert_works [OF assms(1,4)] by blast
  then have w1: "w1 = w\<lparr>dwDb := d\<rparr>"
    using assms(3,5) by (simp add: RecordCaller_def InsertAppEventTask_def no_controller_def)
  have "app_task u Z ((map_of (task_bucket t))(''id'' \<mapsto> RInt i)) \<longleftrightarrow> u = atUid t \<and> Z = atTaskDate t"
    by (auto simp: app_task_def row_matches_def task_bucket_def)
  then show "task_db env w1" "dwStore w1 = Some s"
    "has_task env u Z w1 \<longleftrightarrow> has_task env u Z w \<or> u = atUid t \<and> Z = atTaskDate t"
    using i(2) w1 assms(2,3) by (auto simp: task_db_def has_task_def inserts_def db_prepared_def Let_def)
qed

text \<open>The rows of the last three days stay.\<close>

definition kept_day :: "('d, 'j) quota_env \<Rightarrow> int \<Rightarrow> int \<Rightarrow> bool" where
  "kept_day env t Z \<longleftrightarrow> t div 1000 < 3 * 86400 \<or>
     (case from_chars (2 ^ 31) (qeDay env (t div 1000 - 3 * 86400)) of None \<Rightarrow> True | Some n \<Rightarrow> n \<le> Z)"

lemma CleanOldAppTrace_task:
  assumes "rdb_works (qeRdb env)" "task_db env w" "dwStore w = Some s" "rsOpen s"
    "w1 = CleanOldAppTrace env t (no_controller\<lparr>fcAppTask := True\<rparr>) w"
  shows "task_db env w1" "has_task env u Z w1 \<longleftrightarrow> has_task env u Z w \<and> kept_day env t Z"
proof -
  have "task_db env w1 \<and> (has_task env u Z w1 \<longleftrightarrow> has_task env u Z w \<and> kept_day env t Z)"
  proof (cases "t div 1000 < 3 * 86400 \<or> from_chars (2 ^ 31) (qeDay env (t div 1000 - 3 * 86400)) = None")
    case True
    then show ?thesis using assms(2,5) by (auto simp: CleanOldAppTrace_def Let_def kept_day_def)
  next
    case False
    then obtain n where n: "from_chars (2 ^ 31) (qeDay env (t div 1000 - 3 * 86400)) = Some n" "\<not> t div 1000 < 3 * 86400"
      by blast
    obtain d where d: "db_Delete (qeOps env) (qeRdb env) TABLE_NAME_TASK [LessThan ''task_date'' (RInt n)] s w = (E_OK, w\<lparr>dwDb := d\<rparr>)"
        "rdbVersion (qeRdb env) d = rdbVersion (qeRdb env) (dwDb w)"
        "rdbRows (qeRdb env) d = (rdbRows (qeRdb env) (dwDb w))(TABLE_NAME_TASK :=
           filter_mset (\<lambda>r. \<not> row_matches [LessThan ''task_date'' (RInt n)] r) (rdbRows (qeRdb env) (dwDb w) TABLE_NAME_TASK))"
      using db_Delete_works [OF assms(1,4)] by blast
    have w1: "w1 = w\<lparr>dwDb := d\<rparr>"
      using n d(1) assms(3,5) by (simp add: CleanOldAppTrace_def fc_CleanOldAppTrace_def RemoveAppEventTask_def no_controller_def)
    have "app_task u Z r \<Longrightarrow> row_matches [LessThan ''task_date'' (RInt n)] r \<longleftrightarrow> Z < n" for r
      by (auto simp: app_task_def row_matches_def)
    then show ?thesis using w1 d(2,3) n assms(2) by (auto simp: task_db_def has_task_def db_prepared_def Let_def kept_day_def)
  qed
  then show "task_db env w1" "has_task env u Z w1 \<longleftrightarrow> has_task env u Z w \<and> kept_day env t Z" by auto
qed

section \<open>Dumps for apps\<close>

definition app_handler_keeps :: "('d, 'j) quota_env \<Rightarrow> app_handler option \<Rightarrow> bool" where
  "app_handler_keeps env handle \<longleftrightarrow>
     (\<forall>f trace caller t1 t2 fs. handle = Some f \<longrightarrow> IsDirectory fs (foIncludeTrailing (qeOps env) DB_PATH) \<longrightarrow>
        IsDirectory (snd (f trace caller t1 t2 fs)) (foIncludeTrailing (qeOps env) DB_PATH))"

lemma task_db_same:
  assumes "task_db env w" "dwDb w' = dwDb w" "dwFs w' = dwFs w \<or> IsDirectory (dwFs w') (foIncludeTrailing (qeOps env) DB_PATH)"
  shows "task_db env w'" "has_task env u X w' = has_task env u X w"
  using assms by (auto simp: task_db_def has_task_def db_prepared_def Let_def)

text \<open>
  A capture succeeds only when the table has no row for the app and the day of the dump, and adds the row of the
  app and the day on which the event happened.
\<close>

lemma TraceAppStrategy_outcome:
  assumes "rdb_works (qeRdb env)" "app_handler_keeps env handle" "task_db env w"
    "day_num env (fst now) = Some X" "day_num env (acHappenTime caller) = Some Y"
    "TraceAppStrategy_DoDump env ht handle info0 now DB_PATH caller w m = ((ret, path), w', m')"
  shows "task_db env w'" "IsSuccess ret \<Longrightarrow> \<not> has_task env (acUid caller) X w"
    "has_task env u Z w' \<longleftrightarrow> (if IsSuccess ret
       then (has_task env u Z w \<or> u = acUid caller \<and> Z = Y) \<and> kept_day env (snd now) Z else has_task env u Z w)"
proof -
  let ?c = "no_controller\<lparr>fcAppTask := True\<rparr>"
  obtain s where s: "rsOpen s" "TraceFlowController env ''APP'' DB_PATH [] w = (?c, w\<lparr>dwStore := Some s\<rparr>)"
    using App_controller [OF assms(1), of w] assms(3) by (auto simp: task_db_def)
  let ?w0 = "w\<lparr>dwStore := Some s\<rparr>"
  have db0: "task_db env ?w0" "has_task env u X ?w0 = has_task env u X w" for u X by (rule task_db_same [OF assms(3)]; simp)+
  have hc: "HasCallOnceToday env (acUid caller) (fst now) ?c ?w0 = (has_task env (acUid caller) X w, ?w0)"
    using HasCallOnceToday_iff [OF assms(1) db0(1) _ s(1) assms(4)] db0(2) by simp
  obtain r i m1 where du: "DumpTrace ht SN_APP_DYNAMIC 0 0 [] m = (r, i, m1)" by (metis prod_cases3)
  note run = assms(6) [unfolded TraceAppStrategy_DoDump_def s(2) prod.case hc du]
  have "task_db env w' \<and> (IsSuccess ret \<longrightarrow> \<not> has_task env (acUid caller) X w) \<and> (has_task env u Z w' \<longleftrightarrow> (if IsSuccess ret
       then (has_task env u Z w \<or> u = acUid caller \<and> Z = Y) \<and> kept_day env (snd now) Z else has_task env u Z w))"
  proof (cases "IsSuccess ret")
    case False
    then have "w' = ?w0" using run by (auto simp: Let_def split: if_splits)
    then show ?thesis using db0 False by simp
  next
    case True
    then have new: "\<not> has_task env (acUid caller) X w" using run by (auto simp: Let_def split: if_splits)
    define x where "x = (case handle of None \<Rightarrow> ([], dwFs ?w0)
      | Some f \<Rightarrow> f (last (riOutputFiles (case i of None \<Rightarrow> info0 | Some i1 \<Rightarrow> i1))) caller
          (sint (snd (GetCurrentAppInfo (mState m)))) (fst now) (dwFs ?w0))"
    let ?w2 = "?w0\<lparr>dwFs := snd x\<rparr>"
    obtain t where t: "MakeAppEventTask env caller (sint (snd (GetCurrentAppInfo (mState m)))) (fst now) (fst x) (snd x) = Some t"
        "atUid t = acUid caller" "atTaskDate t = Y"
      using from_chars_mono [of "2 ^ 31" _ Y "2 ^ 63"] assms(5) by (auto simp: day_num_def MakeAppEventTask_def)
    obtain ok w3 where r: "RecordCaller env t ?c ?w2 = (ok, w3)" by fastforce
    have w': "w' = CleanOldAppTrace env (snd now) ?c w3"
      using run True t(1) r unfolding x_def Let_def by (auto split: if_split_asm)
    have "IsDirectory (dwFs w) (foIncludeTrailing (qeOps env) DB_PATH)"
      using assms(3) by (simp add: task_db_def db_prepared_def Let_def)
    then have db2: "task_db env ?w2" "has_task env u Z ?w2 = has_task env u Z w" for u Z
      using task_db_same [OF assms(3), of ?w2] assms(2) by (auto simp: app_handler_keeps_def x_def split: option.split)
    note rec = RecordCaller_task [OF assms(1) db2(1) _ s(1) r, simplified, unfolded t(2,3)]
    note clean = CleanOldAppTrace_task [OF assms(1) rec(1,2) s(1) w']
    show ?thesis using clean rec(3) db2(2) new True by simp
  qed
  then show "task_db env w'" "IsSuccess ret \<Longrightarrow> \<not> has_task env (acUid caller) X w"
    "has_task env u Z w' \<longleftrightarrow> (if IsSuccess ret
       then (has_task env u Z w \<or> u = acUid caller \<and> Z = Y) \<and> kept_day env (snd now) Z else has_task env u Z w)" by auto
qed

text \<open>A dump for an app, on the day \<open>X\<close>: the app names a time of that day, and the dump takes less than two days.\<close>

definition dates_grow :: "('d, 'j) quota_env \<Rightarrow> bool" where
  "dates_grow env \<longleftrightarrow> (\<forall>s t a b. s \<le> t \<longrightarrow> from_chars (2 ^ 31) (qeDay env s) = Some a \<longrightarrow>
     from_chars (2 ^ 31) (qeDay env t) = Some b \<longrightarrow> a \<le> b)"

definition at_dump :: "('d, 'j) quota_env \<Rightarrow> int \<Rightarrow> int \<times> int \<Rightarrow> app_caller \<Rightarrow> bool" where
  "at_dump env X now caller \<longleftrightarrow> day_num env (fst now) = Some X \<and> day_num env (acHappenTime caller) = Some X \<and>
     snd now \<le> fst now + 2 * 86400000"

inductive app_step :: "('d, 'j) quota_env \<Rightarrow> 'x hitrace \<Rightarrow> app_handler option \<Rightarrow> int \<Rightarrow>
    'd db_world \<times> (int \<Rightarrow> nat) \<Rightarrow> 'd db_world \<times> (int \<Rightarrow> nat) \<Rightarrow> bool"
  for env ht handle X where
  app_dump: "\<lbrakk>at_dump env X now caller;
     TraceAppStrategy_DoDump env ht handle info0 now DB_PATH caller w m = ((ret, path), w', m')\<rbrakk> \<Longrightarrow>
     app_step env ht handle X (w, c) (w', if IsSuccess ret then c(acUid caller := Suc (c (acUid caller))) else c)"

definition captures_ok :: "('d, 'j) quota_env \<Rightarrow> int \<Rightarrow> 'd db_world \<times> (int \<Rightarrow> nat) \<Rightarrow> bool" where
  "captures_ok env X st \<longleftrightarrow> task_db env (fst st) \<and>
     (\<forall>u. snd st u \<le> 1 \<and> (snd st u > 0 \<longrightarrow> has_task env u X (fst st)))"

text \<open>The dump removes no row of its own day.\<close>

lemma kept_own_day:
  assumes "dates_grow env" "at_dump env X now caller"
  shows "kept_day env (snd now) X"
proof -
  have "n \<le> X" if n: "from_chars (2 ^ 31) (qeDay env (snd now div 1000 - 3 * 86400)) = Some n" for n
  proof -
    have "snd now div 1000 \<le> (fst now + 172800 * 1000) div 1000" using assms(2) by (intro zdiv_mono1) (auto simp: at_dump_def)
    then have "snd now div 1000 - 3 * 86400 \<le> fst now div 1000" by simp
    moreover have "from_chars (2 ^ 31) (qeDay env (fst now div 1000)) = Some X" using assms(2) by (simp add: at_dump_def day_num_def)
    ultimately show ?thesis using assms(1) [unfolded dates_grow_def, rule_format] n by blast
  qed
  then show ?thesis by (simp add: kept_day_def split: option.split)
qed

lemma captures_ok_step:
  assumes "rdb_works (qeRdb env)" "app_handler_keeps env handle" "dates_grow env" "app_step env ht handle X st st'" "captures_ok env X st"
  shows "captures_ok env X st'"
  using assms(4)
proof cases
  case (app_dump now caller info0 w m ret path w' m' c)
  have inv: "captures_ok env X (w, c)" and db: "task_db env w" using assms(5) app_dump(1) by (auto simp: captures_ok_def)
  note out = TraceAppStrategy_outcome [OF assms(1,2) db _ _ app_dump(4), of X X]
  have days: "day_num env (fst now) = Some X" "day_num env (acHappenTime caller) = Some X"
    using app_dump(3) by (auto simp: at_dump_def)
  show ?thesis
    using inv out(1,2) [OF days] out(3) [OF days, of _ X] kept_own_day [OF assms(3) app_dump(3)] app_dump(2)
    by (auto simp: captures_ok_def)
qed

lemma captures_ok_run:
  assumes "rdb_works (qeRdb env)" "app_handler_keeps env handle" "dates_grow env"
    "(app_step env ht handle X)\<^sup>*\<^sup>* st st'" "captures_ok env X st"
  shows "captures_ok env X st'"
  using assms(4,5) by (induction rule: rtranclp_induct) (auto intro: captures_ok_step [OF assms(1-3)])

section \<open>A capture on the sample device\<close>

definition sample_caller :: app_caller where
  "sample_caller = \<lparr>acUid = 20010044, acPid = 7, acBundleName = ''app'', acBundleVersion = ''1'', acHappenTime = 0\<rparr>"

definition dynamic_machine :: "(string list) option machine" where
  "dynamic_machine = sample_machine\<lparr>mState := DynamicState 7 5\<rparr>"

definition sample_capture :: "int \<Rightarrow> (trace_ret \<times> string) \<times> list_db db_world \<times> (string list) option machine" where
  "sample_capture t = TraceAppStrategy_DoDump sample_quota_env sized_hitrace None no_info (t, t) DB_PATH sample_caller
     sample_quota_world dynamic_machine"

lemma sample_day: "day_num sample_quota_env t = Some (if t div 1000 < 86400 then 20250101 else 20250102)"
proof -
  have "from_chars (2 ^ 31) ''20250101'' = Some 20250101" "from_chars (2 ^ 31) ''20250102'' = Some 20250102"
    by (simp_all add: from_chars_def is_digit_def digit_value_def Let_def)
  then show ?thesis by (simp add: day_num_def sample_quota_env_def)
qed

lemma sample_task_db: "task_db sample_quota_env sample_quota_world"
  using sample_prepared by (simp add: task_db_def sample_quota_env_def sample_quota_world_def list_rdb_def ld_rows_def)

lemma sample_dates_grow: "dates_grow sample_quota_env"
proof -
  have "from_chars (2 ^ 31) (qeDay sample_quota_env s) = Some (if s < 86400 then 20250101 else 20250102)" for s
    using sample_day [of "s * 1000"] by (simp add: day_num_def)
  then show ?thesis by (simp add: dates_grow_def)
qed

lemma sample_captured: "IsSuccess (fst (fst (sample_capture t)))"
proof -
  let ?c = "no_controller\<lparr>fcAppTask := True\<rparr>"
  obtain s where s: "rsOpen s" "TraceFlowController sample_quota_env ''APP'' DB_PATH [] sample_quota_world = (?c, sample_quota_world\<lparr>dwStore := Some s\<rparr>)"
    using App_controller [OF sample_works(1) sample_prepared] by blast
  have "task_db sample_quota_env (sample_quota_world\<lparr>dwStore := Some s\<rparr>)"
    by (rule task_db_same [OF sample_task_db]) simp_all
  from HasCallOnceToday_iff [OF sample_works(1) this _ s(1) sample_day]
  have hc: "HasCallOnceToday sample_quota_env 20010044 t ?c (sample_quota_world\<lparr>dwStore := Some s\<rparr>) = (False, sample_quota_world\<lparr>dwStore := Some s\<rparr>)"
    by (simp add: has_task_def sample_quota_env_def sample_quota_world_def list_rdb_def ld_rows_def)
  show ?thesis
    by (simp add: sample_capture_def TraceAppStrategy_DoDump_def s(2) sample_caller_def dynamic_machine_def hc DumpTrace_def
      refresh_after_dump_def state_DumpTrace_def DynamicState_DumpTrace_def do_dump_def hcall_def call_def sized_hitrace_def
      sample_machine_def Let_def split: prod.splits)
qed

lemma sample_app_step: "app_step sample_quota_env sized_hitrace None 20250101 (sample_quota_world, \<lambda>u. 0)
    (fst (snd (sample_capture 0)), (\<lambda>u. 0)(20010044 := 1))"
proof -
  obtain ret path w' m' where o: "sample_capture 0 = ((ret, path), w', m')" by (metis prod_cases3 surj_pair)
  then have r: "IsSuccess ret" using sample_captured [of 0] by simp
  have "at_dump sample_quota_env 20250101 (0, 0) sample_caller" by (simp add: at_dump_def sample_day sample_caller_def)
  from app_step.app_dump [OF this o [unfolded sample_capture_def], of "\<lambda>u. 0"] r o show ?thesis
    by (simp add: sample_caller_def)
qed

end
