(* ===== verification/Pipeline.thy ===== *)
theory Pipeline
  imports Hiview_Prelude "HOL-Library.Multiset"
begin

text \<open>
  Pipelines of plugins (base/pipeline.cpp, include/pipeline.h) and the part of \<open>Plugin::OnEventProxy\<close>
  (base/plugin.cpp) that hands an event on. A plugin is known by its address; \<open>plLock\<close> says whether a weak
  pointer to it can be locked. What a plugin answers is virtual and may change: the record \<open>plugins\<close> holds the
  answers at the time of a call. Calls of the event producer and of plugins are logged; statistics are left out.
\<close>

section \<open>Events\<close>

type_synonym plugin = nat

record plugins =
  plLock :: "plugin \<Rightarrow> bool"
  plName :: "plugin \<Rightarrow> string"
  plCanProcessMoreEvents :: "plugin \<Rightarrow> bool"
  plIsInterestedPipelineEvent :: "plugin \<Rightarrow> bool"
  plCanProcessEvent :: "plugin \<Rightarrow> bool"
  plWorkLoop :: "plugin \<Rightarrow> bool"

record pipeline_event =
  peHandler :: bool
  peStartDeliver :: bool
  pePipelineName :: string
  peProcessors :: "plugin list"
  peHasFinish :: bool
  peHasPending :: bool
  peCreateTime :: u64
  peProcessTime :: u64

definition PipelineEvent :: "bool \<Rightarrow> u64 \<Rightarrow> pipeline_event" where
  "PipelineEvent handler now = \<lparr>peHandler = handler, peStartDeliver = False, pePipelineName = [], peProcessors = [],
     peHasFinish = False, peHasPending = False, peCreateTime = now, peProcessTime = 0\<rparr>"

text \<open>What a plugin does with an event in \<open>OnEvent\<close>, as far as the pipeline is concerned.\<close>

datatype reaction = Returns | Finishes | Pends | Drops

datatype pipe_act = Paused plugin | Queued plugin | Called plugin | Ran plugin reaction | Recycled

definition OnRepack :: "u64 \<Rightarrow> pipeline_event \<Rightarrow> pipeline_event" where
  "OnRepack now e = e\<lparr>peStartDeliver := False, peCreateTime := now\<rparr>"

definition OnPending :: "pipeline_event \<Rightarrow> pipeline_event" where
  "OnPending e = e\<lparr>peHasPending := True\<rparr>"

definition ResetPendingStatus :: "pipeline_event \<Rightarrow> pipeline_event" where
  "ResetPendingStatus e = e\<lparr>peHasPending := False\<rparr>"

definition OnFinish :: "u64 \<Rightarrow> pipeline_event \<Rightarrow> pipeline_event \<times> pipe_act list" where
  "OnFinish now e =
     (e\<lparr>peProcessTime := (if now > peCreateTime e then now - peCreateTime e else 0), peHasFinish := True\<rparr>,
      if peHandler e then [Recycled] else [])"

text \<open>\<open>None\<close> when the front of an empty list is read.\<close>

function OnContinue :: "plugins \<Rightarrow> u64 \<Rightarrow> pipeline_event \<Rightarrow> (pipeline_event \<times> pipe_act list) option" where
  "OnContinue pl now e =
     (if \<not> peHasFinish e \<and> peProcessors e = [] then Some (OnFinish now e)
      else case peProcessors e of
        [] \<Rightarrow> None
      | p # ps \<Rightarrow>
          (let e1 = e\<lparr>peStartDeliver := True, peProcessors := ps\<rparr> in
           if \<not> plLock pl p then OnContinue pl now e1
           else let paused = (if \<not> plCanProcessMoreEvents pl p \<and> peHandler e then [Paused p] else []) in
                if \<not> plIsInterestedPipelineEvent pl p
                then if \<not> peHasFinish e1 \<and> \<not> peHasPending e1
                     then map_option (\<lambda>(e2, acts). (e2, paused @ acts)) (OnContinue pl now e1)
                     else Some (e1, paused)
                else Some (e1, paused @ [if plWorkLoop pl p then Queued p else Called p])))"
  by pat_completeness auto

termination by (relation "measure (\<lambda>(pl, now, e). length (peProcessors e))") auto

declare OnContinue.simps [simp del]

definition GetPendingProcessorSize :: "pipeline_event \<Rightarrow> nat" where
  "GetPendingProcessorSize e = length (peProcessors e)"

definition SetPipelineInfo :: "string \<Rightarrow> plugin list \<Rightarrow> pipeline_event \<Rightarrow> pipeline_event" where
  "SetPipelineInfo pipelineName processors e = e\<lparr>pePipelineName := pipelineName, peProcessors := processors\<rparr>"

text \<open>The caller is found by its name; \<open>seq\<close> is the sequence of the pipeline. The caller itself stays in front.\<close>

fun drop_until :: "plugins \<Rightarrow> string \<Rightarrow> plugin list \<Rightarrow> plugin list" where
  "drop_until pl name [] = []"
| "drop_until pl name (p # ps) = (if plLock pl p \<and> plName pl p = name then p # ps else drop_until pl name ps)"

definition FillPipelineInfo :: "plugins \<Rightarrow> plugin option \<Rightarrow> bool \<Rightarrow> string \<Rightarrow> plugin list \<Rightarrow> bool \<Rightarrow> pipeline_event option \<Rightarrow> pipeline_event option" where
  "FillPipelineInfo pl caller hasContext pipelineName seq deliverFromCurrent event =
     (case (caller, event) of
        (Some c, Some e) \<Rightarrow>
          if \<not> hasContext then event
          else Some (SetPipelineInfo pipelineName (if deliverFromCurrent then drop_until pl (plName pl c) seq else seq) e)
      | x \<Rightarrow> event)"

section \<open>Pipelines\<close>

record pipeline =
  piName :: string
  piProcessors :: "plugin list"

definition CanProcessEvent :: "plugins \<Rightarrow> pipeline \<Rightarrow> bool" where
  "CanProcessEvent pl pi = (case piProcessors pi of [] \<Rightarrow> False | p # ps \<Rightarrow> plLock pl p \<and> plCanProcessEvent pl p)"

definition AppendProcessor :: "plugin \<Rightarrow> pipeline \<Rightarrow> pipeline" where
  "AppendProcessor p pi = pi\<lparr>piProcessors := piProcessors pi @ [p]\<rparr>"

definition RemoveProcessor :: "plugins \<Rightarrow> plugin \<Rightarrow> pipeline \<Rightarrow> pipeline" where
  "RemoveProcessor pl p pi = pi\<lparr>piProcessors := filter (\<lambda>q. \<not> (plLock pl p \<and> plLock pl q \<and> p = q)) (piProcessors pi)\<rparr>"

section \<open>Delivery\<close>

text \<open>
  What is still to be done for an event: a call of \<open>OnEventProxy\<close> of a plugin (in its work loop, or at once),
  the check at the end of \<open>OnEventProxy\<close> with the number of processors read at its beginning, and the two
  steps by which a plugin resumes a pended event, \<open>ResetPendingStatus\<close> and \<open>OnContinue\<close>
  (\<open>EventLogger::CheckEventOnContinue\<close>). They may run on different threads, so each is a step of its own.
\<close>

datatype task = Proxy plugin | Check nat | Reset | Resume

record pipe_state =
  psEvent :: pipeline_event
  psTasks :: "task multiset"
  psLog :: "pipe_act list"
  psBad :: bool

fun task_of :: "pipe_act \<Rightarrow> task list" where
  "task_of (Queued p) = [Proxy p]"
| "task_of (Called p) = [Proxy p]"
| "task_of a = []"

definition continue_event :: "plugins \<Rightarrow> u64 \<Rightarrow> pipe_state \<Rightarrow> pipe_state" where
  "continue_event pl now st =
     (case OnContinue pl now (psEvent st) of
        None \<Rightarrow> st\<lparr>psBad := True\<rparr>
      | Some (e, acts) \<Rightarrow>
          st\<lparr>psEvent := e, psTasks := psTasks st + mset (concat (map task_of acts)), psLog := psLog st @ acts\<rparr>)"

fun react :: "reaction \<Rightarrow> u64 \<Rightarrow> pipeline_event \<Rightarrow> pipeline_event \<times> pipe_act list \<times> task list" where
  "react Returns now e = (e, [], [])"
| "react Finishes now e = (case OnFinish now e of (e1, acts) \<Rightarrow> (e1, acts, []))"
| "react Pends now e = (OnPending e, [], [Reset])"
| "react Drops now e = (OnPending e, [], [])"

definition OnEventProxy :: "u64 \<Rightarrow> reaction \<Rightarrow> plugin \<Rightarrow> pipe_state \<Rightarrow> pipe_state" where
  "OnEventProxy now r p st =
     (case react r now (ResetPendingStatus (psEvent st)) of
        (e, acts, ts) \<Rightarrow>
          st\<lparr>psEvent := e, psTasks := psTasks st + {#Check (GetPendingProcessorSize (psEvent st))#} + mset ts,
             psLog := psLog st @ [Ran p r] @ acts\<rparr>)"

definition OnEventProxy_check :: "plugins \<Rightarrow> u64 \<Rightarrow> nat \<Rightarrow> pipe_state \<Rightarrow> pipe_state" where
  "OnEventProxy_check pl now processorSize st =
     (if \<not> peHasFinish (psEvent st) \<and> \<not> peHasPending (psEvent st) \<and> processorSize = GetPendingProcessorSize (psEvent st)
      then continue_event pl now st else st)"

definition ProcessEvent :: "plugins \<Rightarrow> u64 \<Rightarrow> pipeline \<Rightarrow> pipeline_event \<Rightarrow> pipe_state" where
  "ProcessEvent pl now pi e =
     continue_event pl now
       \<lparr>psEvent = SetPipelineInfo (piName pi) (piProcessors pi) e, psTasks = {#}, psLog = [], psBad = False\<rparr>"

text \<open>
  The steps of an event; \<open>ok\<close> restricts the answers of the plugins. With \<open>late\<close>, the check of the call of
  \<open>OnEventProxy\<close> in which a plugin pended the event never comes between the two steps by which the plugin resumes it.
\<close>

inductive pipe_step :: "(plugins \<Rightarrow> bool) \<Rightarrow> bool \<Rightarrow> pipe_state \<Rightarrow> pipe_state \<Rightarrow> bool" for ok late where
  proxy: "Proxy p \<in># psTasks st \<Longrightarrow> pipe_step ok late st (OnEventProxy now r p (st\<lparr>psTasks := psTasks st - {#Proxy p#}\<rparr>))"
| check: "Check n \<in># psTasks st \<Longrightarrow> ok pl \<Longrightarrow>
    pipe_step ok late st (OnEventProxy_check pl now n (st\<lparr>psTasks := psTasks st - {#Check n#}\<rparr>))"
| reset: "Reset \<in># psTasks st \<Longrightarrow> (late \<longrightarrow> Check (GetPendingProcessorSize (psEvent st)) \<notin># psTasks st) \<Longrightarrow>
    pipe_step ok late st (st\<lparr>psEvent := ResetPendingStatus (psEvent st), psTasks := psTasks st - {#Reset#} + {#Resume#}\<rparr>)"
| resume_at_once: "Reset \<in># psTasks st \<Longrightarrow> ok pl \<Longrightarrow>
    pipe_step ok late st (continue_event pl now (st\<lparr>psEvent := ResetPendingStatus (psEvent st), psTasks := psTasks st - {#Reset#}\<rparr>))"
| resume: "Resume \<in># psTasks st \<Longrightarrow> ok pl \<Longrightarrow>
    pipe_step ok late st (continue_event pl now (st\<lparr>psTasks := psTasks st - {#Resume#}\<rparr>))"

end
