(* ===== verification/Pipeline_Runs.thy ===== *)
theory Pipeline_Runs
  imports Pipeline
begin

text \<open>
  What runs of an event through its pipeline guarantee, and the race between a plugin that resumes an event and the
  check of the call in which it pended the event.
\<close>

section \<open>Continuing\<close>

text \<open>The processors passed over are dead or not interested.\<close>

definition always :: "(plugins \<Rightarrow> bool) \<Rightarrow> plugin \<Rightarrow> bool" where
  "always ok p \<longleftrightarrow> (\<forall>pl. ok pl \<longrightarrow> plLock pl p \<and> plIsInterestedPipelineEvent pl p)"

fun hands_on :: "plugin \<Rightarrow> pipe_act \<Rightarrow> bool" where
  "hands_on p (Queued q) = (q = p)"
| "hands_on p (Called q) = (q = p)"
| "hands_on p a = False"

fun is_pause :: "pipe_act \<Rightarrow> bool" where
  "is_pause (Paused p) = True"
| "is_pause a = False"

definition exhausted :: "(plugins \<Rightarrow> bool) \<Rightarrow> pipeline_event \<Rightarrow> pipeline_event \<Rightarrow> pipe_act list \<Rightarrow> bool" where
  "exhausted ok e e' acts \<longleftrightarrow> peProcessors e' = [] \<and> peHasFinish e' \<and> (\<forall>q \<in> set (peProcessors e). \<not> always ok q) \<and>
     (\<exists>pauses. list_all is_pause pauses \<and> acts = pauses @ (if peHandler e then [Recycled] else []))"

definition handed_on :: "(plugins \<Rightarrow> bool) \<Rightarrow> plugin \<Rightarrow> pipeline_event \<Rightarrow> pipeline_event \<Rightarrow> pipe_act list \<Rightarrow> bool" where
  "handed_on ok p e e' acts \<longleftrightarrow> \<not> peHasFinish e' \<and>
     (\<exists>qs. peProcessors e = qs @ p # peProcessors e' \<and> (\<forall>q \<in> set qs. \<not> always ok q)) \<and>
     (\<exists>pauses a. list_all is_pause pauses \<and> acts = pauses @ [a] \<and> hands_on p a)"

lemma exhausted_skip:
  assumes "exhausted ok (e\<lparr>peStartDeliver := True, peProcessors := ps\<rparr>) e' acts" "peProcessors e = p # ps" "\<not> always ok p"
    "list_all is_pause pauses"
  shows "exhausted ok e e' (pauses @ acts)"
  using assms unfolding exhausted_def by (auto intro: exI [of _ "pauses @ _"])

lemma handed_on_skip:
  assumes "handed_on ok q (e\<lparr>peStartDeliver := True, peProcessors := ps\<rparr>) e' acts" "peProcessors e = p # ps" "\<not> always ok p"
    "list_all is_pause pauses"
  shows "handed_on ok q e e' (pauses @ acts)"
proof -
  from assms(1) obtain qs pauses' a where *: "\<not> peHasFinish e'" "ps = qs @ q # peProcessors e'" "\<forall>q \<in> set qs. \<not> always ok q"
      "list_all is_pause pauses'" "acts = pauses' @ [a]" "hands_on q a"
    unfolding handed_on_def by auto
  have "peProcessors e = (p # qs) @ q # peProcessors e'" "\<forall>q \<in> set (p # qs). \<not> always ok q" using * assms(2,3) by auto
  moreover have "list_all is_pause (pauses @ pauses')" "pauses @ acts = (pauses @ pauses') @ [a]" using * assms(4) by auto
  ultimately show ?thesis using *(1,6) unfolding handed_on_def by blast
qed

lemma OnContinue_cases:
  assumes "\<not> peHasFinish e" "\<not> peHasPending e" "ok pl"
  shows "\<exists>e' acts. OnContinue pl now e = Some (e', acts) \<and> peHandler e' = peHandler e \<and>
    (exhausted ok e e' acts \<or> \<not> peHasPending e' \<and> (\<exists>p. handed_on ok p e e' acts))"
  using assms
proof (induction pl now e rule: OnContinue.induct)
  case (1 pl now e)
  show ?case
  proof (cases "peProcessors e")
    case Nil
    then have "OnContinue pl now e = Some (OnFinish now e)" using 1 by (subst OnContinue.simps) simp
    then show ?thesis using Nil by (auto simp: OnFinish_def exhausted_def intro: exI [of _ "[]"])
  next
    case (Cons p ps)
    let ?e1 = "e\<lparr>peStartDeliver := True, peProcessors := ps\<rparr>"
    let ?paused = "if \<not> plCanProcessMoreEvents pl p \<and> peHandler e then [Paused p] else []"
    note eq = OnContinue.simps [of pl now e, simplified Cons Let_def, simplified]
    consider (dead) "\<not> plLock pl p" | (bored) "plLock pl p" "\<not> plIsInterestedPipelineEvent pl p"
      | (live) "plLock pl p" "plIsInterestedPipelineEvent pl p" by blast
    then show ?thesis
    proof cases
      case dead
      then have na: "\<not> always ok p" using 1(5) by (auto simp: always_def)
      have "OnContinue pl now e = OnContinue pl now ?e1" using dead eq 1(3) by simp
      moreover from 1(1) [OF _ Cons refl dead] 1(3-5) Cons obtain e' acts where
        "OnContinue pl now ?e1 = Some (e', acts)" "peHandler e' = peHandler e"
        "exhausted ok ?e1 e' acts \<or> \<not> peHasPending e' \<and> (\<exists>q. handed_on ok q ?e1 e' acts)" by auto
      ultimately show ?thesis
        using exhausted_skip [OF _ Cons na, of e' acts "[]"] handed_on_skip [OF _ Cons na, of _ e' acts "[]"] by auto
    next
      case bored
      then have na: "\<not> always ok p" using 1(5) by (auto simp: always_def)
      have pa: "list_all is_pause ?paused" by simp
      have "OnContinue pl now e = map_option (\<lambda>(e2, acts). (e2, ?paused @ acts)) (OnContinue pl now ?e1)"
        using bored eq 1(3,4) by simp
      moreover from 1(2) [OF _ Cons refl _ refl] bored 1(3-5) Cons obtain e' acts where
        "OnContinue pl now ?e1 = Some (e', acts)" "peHandler e' = peHandler e"
        "exhausted ok ?e1 e' acts \<or> \<not> peHasPending e' \<and> (\<exists>q. handed_on ok q ?e1 e' acts)" by auto
      ultimately have "OnContinue pl now e = Some (e', ?paused @ acts)" "peHandler e' = peHandler e"
          "exhausted ok ?e1 e' acts \<or> \<not> peHasPending e' \<and> (\<exists>q. handed_on ok q ?e1 e' acts)" by simp_all
      then show ?thesis
        using exhausted_skip [OF _ Cons na pa, of e' acts] handed_on_skip [OF _ Cons na pa, of _ e' acts] by blast
    next
      case live
      then have "OnContinue pl now e = Some (?e1, ?paused @ [if plWorkLoop pl p then Queued p else Called p])"
        using eq 1(3) by simp
      moreover have "handed_on ok p e ?e1 (?paused @ [if plWorkLoop pl p then Queued p else Called p])"
        unfolding handed_on_def using Cons 1(3) by (auto intro!: exI [of _ ?paused])
      ultimately show ?thesis using 1(4) by auto
    qed
  qed
qed


section \<open>Invariant\<close>

definition is_check :: "task \<Rightarrow> bool" where
  "is_check t = (case t of Check n \<Rightarrow> True | x \<Rightarrow> False)"

abbreviation movers :: "pipe_state \<Rightarrow> task multiset" where
  "movers st \<equiv> filter_mset (\<lambda>t. \<not> is_check t) (psTasks st)"

abbreviation hot :: "pipe_state \<Rightarrow> nat" where
  "hot st \<equiv> count (psTasks st) (Check (length (peProcessors (psEvent st))))"

fun run_of :: "pipe_act \<Rightarrow> plugin list" where
  "run_of (Ran p r) = [p]"
| "run_of a = []"

definition run_list :: "pipe_act list \<Rightarrow> plugin list" where
  "run_list acts = concat (map run_of acts)"

lemma run_list_simps [simp]: "run_list [] = []" "run_list (a # l) = run_of a @ run_list l" "run_list (l @ l') = run_list l @ run_list l'"
  by (simp_all add: run_list_def)

text \<open>Where an event is: with a plugin, between two plugins, pended, resumed, dropped, or at its end.\<close>

definition phase :: "pipe_state \<Rightarrow> plugin list \<Rightarrow> bool" where
  "phase st cur \<longleftrightarrow>
     (if peHasFinish (psEvent st) then movers st = {#} \<and> cur = []
      else (\<exists>p. movers st = {#Proxy p#} \<and> cur = [p]) \<and> hot st = 0 \<or>
           cur = [] \<and>
            (movers st = {#} \<and> hot st = 1 \<and> \<not> peHasPending (psEvent st) \<or>
             movers st = {#} \<and> peHasPending (psEvent st) \<and> (\<exists>p. Ran p Drops \<in> set (psLog st)) \<or>
             movers st = {#Reset#} \<and> hot st \<le> 1 \<and> peHasPending (psEvent st) \<or>
             movers st = {#Resume#} \<and> hot st = 0 \<and> \<not> peHasPending (psEvent st)))"

text \<open>What was delivered, and that the producer is told of the end, once and last.\<close>

definition delivered :: "(plugins \<Rightarrow> bool) \<Rightarrow> plugin list \<Rightarrow> pipe_state \<Rightarrow> plugin list \<Rightarrow> bool" where
  "delivered ok procs st cur \<longleftrightarrow>
     (\<exists>popped. procs = popped @ peProcessors (psEvent st) \<and> subseq (run_list (psLog st) @ cur) popped \<and>
        (\<forall>q \<in> set popped. always ok q \<longrightarrow> q \<in> set (run_list (psLog st) @ cur)))"

definition told :: "pipe_state \<Rightarrow> bool" where
  "told st \<longleftrightarrow>
     (if peHasFinish (psEvent st) \<and> peHandler (psEvent st) then \<exists>l. psLog st = l @ [Recycled] \<and> Recycled \<notin> set l
      else Recycled \<notin> set (psLog st)) \<and>
     (peHasFinish (psEvent st) \<longrightarrow> (\<exists>p. Ran p Finishes \<in> set (psLog st)) \<or> peProcessors (psEvent st) = [])"

definition old_checks :: "pipe_state \<Rightarrow> bool" where
  "old_checks st \<longleftrightarrow> (\<forall>n. Check n \<in># psTasks st \<longrightarrow> length (peProcessors (psEvent st)) \<le> n)"

definition pipe_inv :: "(plugins \<Rightarrow> bool) \<Rightarrow> plugin list \<Rightarrow> pipe_state \<Rightarrow> bool" where
  "pipe_inv ok procs st \<longleftrightarrow> \<not> psBad st \<and> told st \<and> old_checks st \<and> (\<exists>cur. phase st cur \<and> delivered ok procs st cur)"

lemma delivered_subseq:
  assumes "delivered ok procs st cur"
  shows "subseq (run_list (psLog st)) procs"
proof -
  obtain popped where p: "procs = popped @ peProcessors (psEvent st)" "subseq (run_list (psLog st) @ cur) popped"
    using assms by (auto simp: delivered_def)
  have "subseq (run_list (psLog st)) (run_list (psLog st) @ cur)"
    by (metis list_emb_prefix subseq_order.refl)
  then have "subseq (run_list (psLog st)) popped" using p(2) by (rule subseq_order.trans)
  then show ?thesis using p(1) by (simp add: list_emb_prefix)
qed

lemma is_check_simps [simp]: "is_check (Check n)" "\<not> is_check (Proxy p)" "\<not> is_check Reset" "\<not> is_check Resume"
  by (simp_all add: is_check_def)

lemma pauses_simps:
  assumes "list_all is_pause l"
  shows "concat (map task_of l) = []" "run_list l = []" "Recycled \<notin> set l"
proof -
  have a: "task_of a = [] \<and> run_of a = [] \<and> a \<noteq> Recycled" if "is_pause a" for a using that by (cases a) auto
  show "concat (map task_of l) = []" "run_list l = []" "Recycled \<notin> set l"
    using assms a by (auto simp: list_all_iff run_list_def)
qed

lemma continue_inv:
  assumes "\<not> psBad st" "told st" "old_checks st" "delivered ok procs st []" "\<not> peHasFinish (psEvent st)" "\<not> peHasPending (psEvent st)"
    "movers st = {#}" "ok pl"
  shows "pipe_inv ok procs (continue_event pl now st)"
proof -
  obtain e acts where e: "OnContinue pl now (psEvent st) = Some (e, acts)" "peHandler e = peHandler (psEvent st)"
      "exhausted ok (psEvent st) e acts \<or> \<not> peHasPending e \<and> (\<exists>p. handed_on ok p (psEvent st) e acts)"
    using OnContinue_cases [of "psEvent st" ok pl now] assms(5,6,8) by auto
  let ?st = "st\<lparr>psEvent := e, psTasks := psTasks st + mset (concat (map task_of acts)), psLog := psLog st @ acts\<rparr>"
  have st: "continue_event pl now st = ?st" using e(1) by (simp add: continue_event_def)
  obtain popped where p: "procs = popped @ peProcessors (psEvent st)" "subseq (run_list (psLog st)) popped"
      "\<forall>q \<in> set popped. always ok q \<longrightarrow> q \<in> set (run_list (psLog st))"
    using assms(4) by (auto simp: delivered_def)
  have nr: "Recycled \<notin> set (psLog st)" using assms(2,5) by (simp add: told_def)
  show ?thesis
  proof (cases "exhausted ok (psEvent st) e acts")
    case True
    then obtain pauses where x: "peProcessors e = []" "peHasFinish e" "\<forall>q \<in> set (peProcessors (psEvent st)). \<not> always ok q"
        "list_all is_pause pauses" "acts = pauses @ (if peHandler e then [Recycled] else [])"
      using e(2) by (auto simp: exhausted_def)
    have a: "concat (map task_of acts) = []" "run_list acts = []" using x(5) pauses_simps [OF x(4)] by auto
    have "delivered ok procs ?st []"
      unfolding delivered_def using p x(1,3) a(2) by (intro exI [of _ procs]) (auto intro: subseq_append')
    moreover have "told ?st" using x nr pauses_simps(3) [OF x(4)] by (auto simp: told_def intro: exI [of _ "psLog st @ pauses"])
    moreover have "phase ?st []" using assms(7) x(2) by (simp add: phase_def a(1) del: concat_eq_Nil_conv)
    moreover have "old_checks ?st" "\<not> psBad ?st" using x(1) assms(1) by (simp_all add: old_checks_def)
    ultimately show ?thesis unfolding st pipe_inv_def by blast
  next
    case False
    then obtain q where q: "handed_on ok q (psEvent st) e acts" "\<not> peHasPending e" using e(3) by blast
    then obtain qs pauses a where h: "\<not> peHasFinish e" "peProcessors (psEvent st) = qs @ q # peProcessors e"
        "\<forall>x \<in> set qs. \<not> always ok x" "list_all is_pause pauses" "acts = pauses @ [a]" "hands_on q a"
      by (auto simp: handed_on_def)
    have a: "task_of a = [Proxy q]" "run_of a = []" "a \<noteq> Recycled" using h(6) by (cases a; simp)+
    have acts: "concat (map task_of acts) = [Proxy q]" "run_list acts = []" "Recycled \<notin> set acts"
      using h(5) a pauses_simps [OF h(4)] by auto
    have old: "length (peProcessors e) < n" if "Check n \<in># psTasks st" for n
      using assms(3) that h(2) by (fastforce simp: old_checks_def)
    have "delivered ok procs ?st [q]"
      unfolding delivered_def using p h(2,3) acts(2)
      by (intro exI [of _ "popped @ qs @ [q]"]) (auto intro: list_emb_append_mono)
    moreover have "hot ?st = 0" using old acts(1) by (auto simp: not_in_iff [symmetric])
    moreover have "told ?st" using nr acts(3) h(1) by (auto simp: told_def)
    moreover have "old_checks ?st" using old acts(1) by (auto simp: old_checks_def intro: less_imp_le)
    moreover have "movers ?st = {#Proxy q#}" "\<not> psBad ?st" using assms(1,7) acts(1) by simp_all
    ultimately show ?thesis unfolding st pipe_inv_def using h(1) by (auto simp: phase_def)
  qed
qed


text \<open>There is at most one task that moves the event on, and it says where the event is.\<close>

lemma phase_mover:
  assumes "phase st cur" "t \<in># psTasks st" "\<not> is_check t"
  shows "\<not> peHasFinish (psEvent st)" "movers st = {#t#}"
    "case t of Proxy p \<Rightarrow> cur = [p] \<and> hot st = 0 | Reset \<Rightarrow> cur = [] \<and> hot st \<le> 1 \<and> peHasPending (psEvent st)
      | Resume \<Rightarrow> cur = [] \<and> hot st = 0 \<and> \<not> peHasPending (psEvent st) | Check n \<Rightarrow> True"
proof -
  define M where "M = movers st"
  have "t \<in># M" using assms(2,3) by (simp add: M_def)
  with assms(1) have "\<not> peHasFinish (psEvent st) \<and> M = {#t#} \<and> (case t of Proxy p \<Rightarrow> cur = [p] \<and> hot st = 0
      | Reset \<Rightarrow> cur = [] \<and> hot st \<le> 1 \<and> peHasPending (psEvent st)
      | Resume \<Rightarrow> cur = [] \<and> hot st = 0 \<and> \<not> peHasPending (psEvent st) | Check n \<Rightarrow> True)"
    unfolding phase_def M_def [symmetric] by (auto split: if_splits)
  then show "\<not> peHasFinish (psEvent st)" "movers st = {#t#}"
    "case t of Proxy p \<Rightarrow> cur = [p] \<and> hot st = 0 | Reset \<Rightarrow> cur = [] \<and> hot st \<le> 1 \<and> peHasPending (psEvent st)
      | Resume \<Rightarrow> cur = [] \<and> hot st = 0 \<and> \<not> peHasPending (psEvent st) | Check n \<Rightarrow> True"
    by (auto simp: M_def)
qed

lemma phase_hot:
  assumes "phase st cur" "\<not> peHasFinish (psEvent st)" "\<not> peHasPending (psEvent st)" "hot st \<noteq> 0"
  shows "movers st = {#}" "hot st = 1" "cur = []"
proof -
  define M where "M = movers st"
  define H where "H = hot st"
  have "M = {#} \<and> H = 1 \<and> cur = []"
    using assms unfolding phase_def M_def [symmetric] H_def [symmetric] by auto
  then show "movers st = {#}" "hot st = 1" "cur = []" by (auto simp: M_def H_def)
qed

lemma proxy_inv:
  assumes "pipe_inv ok procs st" "Proxy p \<in># psTasks st"
  shows "pipe_inv ok procs (OnEventProxy now r p (st\<lparr>psTasks := psTasks st - {#Proxy p#}\<rparr>))"
proof -
  obtain cur where c: "phase st cur" "delivered ok procs st cur" "\<not> psBad st" "told st" "old_checks st"
    using assms(1) by (auto simp: pipe_inv_def)
  have m: "\<not> peHasFinish (psEvent st)" "movers st = {#Proxy p#}" "cur = [p]" "hot st = 0"
    using phase_mover [OF c(1) assms(2)] by auto
  have nr: "Recycled \<notin> set (psLog st)" using c(4) m(1) by (simp add: told_def)
  let ?st = "OnEventProxy now r p (st\<lparr>psTasks := psTasks st - {#Proxy p#}\<rparr>)"
  have "old_checks ?st \<and> \<not> psBad ?st" using c(3,5) by (cases r) (auto simp: OnEventProxy_def old_checks_def
      GetPendingProcessorSize_def ResetPendingStatus_def OnPending_def OnFinish_def dest: in_diffD split: if_splits)
  moreover have "told ?st" using nr m(1) by (cases r) (auto simp: OnEventProxy_def told_def ResetPendingStatus_def OnPending_def OnFinish_def)
  moreover have "delivered ok procs ?st []" using c(2) m(3)
    by (cases r) (auto simp: OnEventProxy_def delivered_def ResetPendingStatus_def OnPending_def OnFinish_def)
  moreover have "phase ?st []" using m
    by (cases r) (auto simp: OnEventProxy_def phase_def ResetPendingStatus_def OnPending_def OnFinish_def GetPendingProcessorSize_def)
  ultimately show ?thesis unfolding pipe_inv_def by blast
qed

lemma check_inv:
  assumes "pipe_inv ok procs st" "Check n \<in># psTasks st" "ok pl"
  shows "pipe_inv ok procs (OnEventProxy_check pl now n (st\<lparr>psTasks := psTasks st - {#Check n#}\<rparr>))"
proof -
  obtain cur where c: "phase st cur" "delivered ok procs st cur" "\<not> psBad st" "told st" "old_checks st"
    using assms(1) by (auto simp: pipe_inv_def)
  let ?st = "st\<lparr>psTasks := psTasks st - {#Check n#}\<rparr>"
  have old: "old_checks ?st" using c(5) by (auto simp: old_checks_def dest: in_diffD)
  show ?thesis
  proof (cases "\<not> peHasFinish (psEvent st) \<and> \<not> peHasPending (psEvent st) \<and> n = length (peProcessors (psEvent st))")
    case True
    then have "hot st \<noteq> 0" using assms(2) by (simp add: count_eq_zero_iff)
    then have m: "movers st = {#}" "hot st = 1" "cur = []" using phase_hot [OF c(1)] True by blast+
    have "pipe_inv ok procs (continue_event pl now ?st)"
      by (rule continue_inv) (use c m True old assms(3) in \<open>auto simp: told_def delivered_def\<close>)
    then show ?thesis using True by (simp add: OnEventProxy_check_def GetPendingProcessorSize_def)
  next
    case False
    then have "OnEventProxy_check pl now n ?st = ?st" by (auto simp: OnEventProxy_check_def GetPendingProcessorSize_def)
    moreover have "phase ?st cur" using c(1) False assms(2) by (auto simp: phase_def)
    moreover have "delivered ok procs ?st cur" "told ?st" using c(2,4) by (simp_all add: delivered_def told_def)
    ultimately show ?thesis using old c(3) by (auto simp: pipe_inv_def)
  qed
qed

lemma pipe_inv_step:
  assumes "pipe_step ok True st st'" "pipe_inv ok procs st"
  shows "pipe_inv ok procs st'"
  using assms(1)
proof cases
  case (proxy p now r)
  then show ?thesis using proxy_inv [OF assms(2)] by simp
next
  case (check n pl now)
  then show ?thesis using check_inv [OF assms(2)] by simp
next
  case reset
  obtain cur where c: "phase st cur" "delivered ok procs st cur" "\<not> psBad st" "told st" "old_checks st"
    using assms(2) by (auto simp: pipe_inv_def)
  have m: "\<not> peHasFinish (psEvent st)" "movers st = {#Reset#}" "cur = []" using phase_mover [OF c(1) reset(2)] by auto
  have h: "hot st = 0" using reset(3) by (simp add: GetPendingProcessorSize_def not_in_iff)
  have "phase st' []" using m h reset(1) by (simp add: phase_def ResetPendingStatus_def)
  moreover have "delivered ok procs st' []" "told st'" "old_checks st'" "\<not> psBad st'"
    using c m reset(1) by (auto simp: delivered_def told_def old_checks_def ResetPendingStatus_def dest: in_diffD)
  ultimately show ?thesis unfolding pipe_inv_def by blast
next
  case (resume_at_once pl now)
  obtain cur where c: "phase st cur" "delivered ok procs st cur" "\<not> psBad st" "told st" "old_checks st"
    using assms(2) by (auto simp: pipe_inv_def)
  have m: "movers st = {#Reset#}" "\<not> peHasFinish (psEvent st)" "cur = []"
    using phase_mover [OF c(1) resume_at_once(2)] by auto
  show ?thesis unfolding resume_at_once(1)
    by (rule continue_inv) (use c m resume_at_once(3) in \<open>auto simp: told_def delivered_def old_checks_def ResetPendingStatus_def dest: in_diffD\<close>)
next
  case (resume pl now)
  obtain cur where c: "phase st cur" "delivered ok procs st cur" "\<not> psBad st" "told st" "old_checks st"
    using assms(2) by (auto simp: pipe_inv_def)
  have m: "movers st = {#Resume#}" "hot st = 0" "\<not> peHasPending (psEvent st)" "\<not> peHasFinish (psEvent st)" "cur = []"
    using phase_mover [OF c(1) resume(2)] by auto
  show ?thesis unfolding resume(1)
    by (rule continue_inv) (use c m resume(3) in \<open>auto simp: told_def delivered_def old_checks_def dest: in_diffD\<close>)
qed

lemma ProcessEvent_inv:
  assumes "ok pl" "\<not> peHasFinish e" "\<not> peHasPending e"
  shows "pipe_inv ok (piProcessors pi) (ProcessEvent pl now pi e)"
  unfolding ProcessEvent_def
  by (rule continue_inv) (use assms in \<open>auto simp: told_def old_checks_def delivered_def SetPipelineInfo_def\<close>)

lemma pipe_inv_run:
  assumes "(pipe_step ok True)\<^sup>*\<^sup>* st st'" "pipe_inv ok procs st"
  shows "pipe_inv ok procs st'"
  using assms by (induction rule: rtranclp_induct) (auto intro: pipe_inv_step)

section \<open>Runs end\<close>

fun task_weight :: "task \<Rightarrow> nat" where
  "task_weight (Proxy p) = 6"
| "task_weight (Check n) = 1"
| "task_weight Reset = 3"
| "task_weight Resume = 2"

definition weight :: "pipe_state \<Rightarrow> nat" where
  "weight st = 7 * length (peProcessors (psEvent st)) + sum_mset (image_mset task_weight (psTasks st))"

lemma OnContinue_weight:
  "OnContinue pl now e = Some (e', acts) \<Longrightarrow>
    7 * length (peProcessors e') + sum_list (map task_weight (concat (map task_of acts))) \<le> 7 * length (peProcessors e)"
proof (induction pl now e arbitrary: e' acts rule: OnContinue.induct)
  case (1 pl now e)
  show ?case
  proof (cases "peProcessors e")
    case Nil
    then show ?thesis using 1(3) by (subst (asm) OnContinue.simps) (auto simp: OnFinish_def split: if_splits)
  next
    case (Cons p ps)
    note eq = 1(3) [unfolded OnContinue.simps [of pl now e], simplified Cons Let_def, simplified]
    show ?thesis
      using 1(1) [OF _ Cons refl, of e' acts] 1(2) [OF _ Cons refl _ refl, of e'] eq Cons
      by (auto split: if_splits)
  qed
qed

lemma continue_weight: "weight (continue_event pl now st) \<le> weight st"
proof (cases "OnContinue pl now (psEvent st)")
  case (Some r)
  obtain e acts where r: "r = (e, acts)" by fastforce
  have "sum_mset (image_mset task_weight (mset l)) = sum_list (map task_weight l)" for l
    by (simp flip: sum_mset_sum_list)
  then show ?thesis using OnContinue_weight [OF Some [unfolded r]] Some r by (simp add: continue_event_def weight_def)
qed (simp add: continue_event_def weight_def)

lemma take_task:
  assumes "t \<in># psTasks st"
  shows "weight (st\<lparr>psTasks := psTasks st - {#t#}\<rparr>) + task_weight t = weight st"
proof -
  obtain T where "psTasks st = add_mset t T" using assms by (blast dest: multi_member_split)
  then show ?thesis by (simp add: weight_def)
qed

lemma step_weight: "pipe_step ok late st st' \<Longrightarrow> weight st' < weight st"
proof (induction rule: pipe_step.induct)
  case (proxy p st now r)
  show ?case using take_task [OF proxy]
    by (cases r) (auto simp: OnEventProxy_def weight_def ResetPendingStatus_def OnPending_def OnFinish_def)
next
  case (check n st pl now)
  show ?case using take_task [OF check(1)] continue_weight [of pl now "st\<lparr>psTasks := psTasks st - {#Check n#}\<rparr>"]
    by (auto simp: OnEventProxy_check_def)
next
  case (reset st)
  show ?case using take_task [OF reset(1)] by (simp add: weight_def ResetPendingStatus_def)
next
  case (resume_at_once st pl now)
  let ?st = "st\<lparr>psTasks := psTasks st - {#Reset#}\<rparr>"
  have "weight (st\<lparr>psEvent := ResetPendingStatus (psEvent st), psTasks := psTasks st - {#Reset#}\<rparr>) = weight ?st"
    by (simp add: weight_def ResetPendingStatus_def)
  then show ?case using take_task [OF resume_at_once(1)]
      continue_weight [of pl now "st\<lparr>psEvent := ResetPendingStatus (psEvent st), psTasks := psTasks st - {#Reset#}\<rparr>"] by simp
next
  case (resume st pl now)
  show ?case using take_task [OF resume(1)] continue_weight [of pl now "st\<lparr>psTasks := psTasks st - {#Resume#}\<rparr>"] by simp
qed

lemma pipe_runs_end: "wfP (\<lambda>st' st. pipe_step ok late st st')"
  by (rule wfp_if_convertible_to_nat [of _ weight]) (rule step_weight)

text \<open>As long as something is left to do, a step can be made.\<close>

lemma step_possible:
  assumes "psTasks st \<noteq> {#}" "ok pl"
  shows "\<exists>st'. pipe_step ok late st st'"
proof -
  obtain t where t: "t \<in># psTasks st" using assms(1) by (meson multiset_nonemptyE)
  show ?thesis
  proof (cases "Check (GetPendingProcessorSize (psEvent st)) \<in># psTasks st")
    case True
    then show ?thesis using assms(2) by (blast intro: pipe_step.check)
  next
    case False
    then show ?thesis using t assms(2) by (cases t) (blast intro: pipe_step.intros)+
  qed
qed

lemma comes_to_rest:
  assumes "ok pl"
  shows "\<exists>st'. (pipe_step ok late)\<^sup>*\<^sup>* st st' \<and> psTasks st' = {#}"
proof (induction st rule: wfp_induct [OF pipe_runs_end [of ok late]])
  case (1 st)
  show ?case
  proof (cases "psTasks st = {#}")
    case False
    then obtain st1 where "pipe_step ok late st st1" using step_possible [of st ok pl late] assms by blast
    with 1 show ?thesis by (meson converse_rtranclp_into_rtranclp)
  qed blast
qed

section \<open>The race of a resumed event\<close>

definition all_live :: plugins where
  "all_live = \<lparr>plLock = (\<lambda>p. True), plName = (\<lambda>p. []), plCanProcessMoreEvents = (\<lambda>p. True),
     plIsInterestedPipelineEvent = (\<lambda>p. True), plCanProcessEvent = (\<lambda>p. True), plWorkLoop = (\<lambda>p. True)\<rparr>"

definition two_plugins :: pipeline where
  "two_plugins = \<lparr>piName = ''pipeline'', piProcessors = [1, 2]\<rparr>"

text \<open>
  The first plugin pends the event; the other thread resets the pending status; the check of the first call then continues
  the event to the second plugin, which ends it; the other thread continues it once more.
\<close>

definition race_event :: "plugin list \<Rightarrow> bool \<Rightarrow> bool \<Rightarrow> pipeline_event" where
  "race_event ps pending finish = \<lparr>peHandler = True, peStartDeliver = True, pePipelineName = ''pipeline'', peProcessors = ps,
     peHasFinish = finish, peHasPending = pending, peCreateTime = 0, peProcessTime = 0\<rparr>"

abbreviation race_state :: "pipeline_event \<Rightarrow> task list \<Rightarrow> pipe_act list \<Rightarrow> pipe_state" where
  "race_state e ts l \<equiv> \<lparr>psEvent = e, psTasks = mset ts, psLog = l, psBad = False\<rparr>"

abbreviation race_step :: "pipe_state \<Rightarrow> pipe_state \<Rightarrow> bool" where
  "race_step \<equiv> pipe_step (\<lambda>pl. True) False"

lemma race_start: "ProcessEvent all_live 0 two_plugins (PipelineEvent True 0) = race_state (race_event [2] False False) [Proxy 1] [Queued 1]"
  by (simp add: ProcessEvent_def continue_event_def two_plugins_def PipelineEvent_def SetPipelineInfo_def
    OnContinue.simps all_live_def race_event_def)

lemma race_pend: "race_step (race_state (race_event [2] False False) [Proxy 1] l)
    (race_state (race_event [2] True False) [Check 1, Reset] (l @ [Ran 1 Pends]))"
  using pipe_step.proxy [of 1 "race_state (race_event [2] False False) [Proxy 1] l" "\<lambda>pl. True" False 0 Pends]
  by (simp add: OnEventProxy_def race_event_def ResetPendingStatus_def OnPending_def GetPendingProcessorSize_def add_mset_commute)

lemma race_reset: "race_step (race_state (race_event [2] True False) [Check 1, Reset] l)
    (race_state (race_event [2] False False) [Check 1, Resume] l)"
  using pipe_step.reset [of "race_state (race_event [2] True False) [Check 1, Reset] l" False "\<lambda>pl. True"]
  by (simp add: race_event_def ResetPendingStatus_def add_mset_commute)

lemma run_first: "pipe_step ok late (race_state (race_event [2] False False) [Proxy 1] l)
    (race_state (race_event [2] False False) [Check 1] (l @ [Ran 1 Returns]))"
  using pipe_step.proxy [of 1 "race_state (race_event [2] False False) [Proxy 1] l" ok late 0 Returns]
  by (simp add: OnEventProxy_def race_event_def ResetPendingStatus_def GetPendingProcessorSize_def)

lemma run_check: "ok all_live \<Longrightarrow> pipe_step ok late (race_state (race_event [2] False False) (Check 1 # ts) l)
    (race_state (race_event [] False False) (Proxy 2 # ts) (l @ [Queued 2]))"
  using pipe_step.check [of 1 "race_state (race_event [2] False False) (Check 1 # ts) l" ok all_live late 0]
  by (simp add: OnEventProxy_check_def continue_event_def GetPendingProcessorSize_def OnContinue.simps all_live_def race_event_def)

lemma run_second: "pipe_step ok late (race_state (race_event [] False False) (Proxy 2 # ts) l)
    (race_state (race_event [] False False) (Check 0 # ts) (l @ [Ran 2 Returns]))"
  using pipe_step.proxy [of 2 "race_state (race_event [] False False) (Proxy 2 # ts) l" ok late 0 Returns]
  by (simp add: OnEventProxy_def race_event_def ResetPendingStatus_def GetPendingProcessorSize_def)

lemma run_end: "ok all_live \<Longrightarrow> pipe_step ok late (race_state (race_event [] False False) (Check 0 # ts) l)
    (race_state (race_event [] False True) ts (l @ [Recycled]))"
  using pipe_step.check [of 0 "race_state (race_event [] False False) (Check 0 # ts) l" ok all_live late 0]
  by (simp add: OnEventProxy_check_def continue_event_def GetPendingProcessorSize_def OnContinue.simps race_event_def OnFinish_def)

lemma plain_run: "(pipe_step (\<lambda>pl. pl = all_live) True)\<^sup>*\<^sup>* (ProcessEvent all_live 0 two_plugins (PipelineEvent True 0))
    (race_state (race_event [] False True) [] [Queued 1, Ran 1 Returns, Queued 2, Ran 2 Returns, Recycled])"
  unfolding race_start
  using run_first [of "\<lambda>pl. pl = all_live" True "[Queued 1]"] run_check [of "\<lambda>pl. pl = all_live" True "[]" "[Queued 1, Ran 1 Returns]"]
    run_second [of "\<lambda>pl. pl = all_live" True "[]" "[Queued 1, Ran 1 Returns, Queued 2]"]
    run_end [of "\<lambda>pl. pl = all_live" True "[]" "[Queued 1, Ran 1 Returns, Queued 2, Ran 2 Returns]"]
  by (auto elim!: converse_rtranclp_into_rtranclp)

lemma race_bad: "race_step (race_state (race_event [] False True) [Resume] l) ((race_state (race_event [] False True) [] l)\<lparr>psBad := True\<rparr>)"
  using pipe_step.resume [of "race_state (race_event [] False True) [Resume] l" "\<lambda>pl. True" all_live False 0]
  by (simp add: continue_event_def OnContinue.simps race_event_def)

lemmas race_steps = race_pend [of "[Queued 1]"] race_reset
  run_check [of "\<lambda>pl. True" False "[Resume]", OF TrueI] run_second [of "\<lambda>pl. True" False "[Resume]"] run_end [of "\<lambda>pl. True" False "[Resume]", OF TrueI]

lemma race_run: "\<exists>st. race_step\<^sup>*\<^sup>* (ProcessEvent all_live 0 two_plugins (PipelineEvent True 0)) st \<and> psBad st"
proof -
  obtain l where "race_step\<^sup>*\<^sup>* (ProcessEvent all_live 0 two_plugins (PipelineEvent True 0)) (race_state (race_event [] False True) [Resume] l)"
    unfolding race_start using race_steps by (meson converse_rtranclp_into_rtranclp rtranclp.rtrancl_refl)
  from rtranclp.rtrancl_into_rtrancl [OF this race_bad] show ?thesis by (metis pipe_state.select_convs(4) pipe_state.update_convs(4))
qed

end
