(* ===== verification/Plugin_Platform.thy ===== *)
theory Plugin_Platform
  imports Pipeline File_System Doc_Query
begin

text \<open>
  How the platform finds who gets an event (core/hiview_platform.cpp, core/include/hiview_platform.h): dispatch
  rules and their files (base/dispatch_rule_parser.cpp, include/defines.h), pipelines and the routing of events of the
  event source (plugins/sysevent_source/sysevent_source.cpp, base/event_source.cpp), listeners, and the queue of broadcast events
  (base/event_dispatch_queue.cpp). The JSON library is a parameter, as are the plugins. Loading
  plugins from libraries, timers and work loops are not modelled.
\<close>

section \<open>Dispatch rules\<close>

definition INCLUDE :: u8 where "INCLUDE = 0"
definition EXCLUDE :: u8 where "EXCLUDE = 1"

record domain_rule =
  ruFilterType :: u8
  ruEventlist :: "string set"

record dispatch_rule =
  drTypeList :: "u8 set"
  drTagList :: "string set"
  drEventList :: "string set"
  drDomainRuleMap :: "string \<rightharpoonup> domain_rule"

definition DomainRule_FindEvent :: "string \<Rightarrow> domain_rule \<Rightarrow> bool" where
  "DomainRule_FindEvent eventName r =
     (if ruFilterType r = INCLUDE then eventName \<in> ruEventlist r else eventName \<notin> ruEventlist r)"

definition DispatchRule_FindEvent :: "string \<Rightarrow> string \<Rightarrow> dispatch_rule \<Rightarrow> bool" where
  "DispatchRule_FindEvent domain eventName r =
     (if eventName \<in> drEventList r then True
      else case drDomainRuleMap r domain of
             Some dr \<Rightarrow> DomainRule_FindEvent eventName dr
           | None \<Rightarrow> False)"

text \<open>
  The JSON library: \<open>jcMember\<close> is \<open>isMember\<close> with the member, \<open>jcElems\<close> the elements by index.
\<close>

record 'j jsoncpp =
  jcParse :: "byte list \<Rightarrow> 'j option"
  jcIsNull :: "'j \<Rightarrow> bool"
  jcMember :: "'j \<Rightarrow> string \<Rightarrow> 'j option"
  jcIsArray :: "'j \<Rightarrow> bool"
  jcElems :: "'j \<Rightarrow> 'j list"
  jcSize :: "'j \<Rightarrow> nat"
  jcIsString :: "'j \<Rightarrow> bool"
  jcAsString :: "'j \<Rightarrow> string"

definition RULE_TYPE_MAP :: "(string \<times> u8) list" where
  "RULE_TYPE_MAP = [(''FAULT'', 1), (''STATISTIC'', 2), (''SECURITY'', 3), (''BEHAVIOR'', 4)]"

definition array_of :: "'j jsoncpp \<Rightarrow> 'j \<Rightarrow> string \<Rightarrow> 'j option" where
  "array_of jc json key =
     (case jcMember jc json key of None \<Rightarrow> None | Some a \<Rightarrow> if jcIsArray jc a then Some a else None)"

definition array_member :: "'j jsoncpp \<Rightarrow> 'j \<Rightarrow> string \<Rightarrow> 'j option" where
  "array_member jc root key = (if jcIsNull jc root then None else array_of jc root key)"

definition strings_of :: "'j jsoncpp \<Rightarrow> 'j \<Rightarrow> string list" where
  "strings_of jc j = map (jcAsString jc) (filter (jcIsString jc) (jcElems jc j))"

definition ParseEventTypes :: "'j jsoncpp \<Rightarrow> 'j \<Rightarrow> dispatch_rule \<Rightarrow> dispatch_rule" where
  "ParseEventTypes jc root r =
     (case array_member jc root ''types'' of
        None \<Rightarrow> r
      | Some j \<Rightarrow> r\<lparr>drTypeList := drTypeList r \<union> set (List.map_filter (map_of RULE_TYPE_MAP) (strings_of jc j))\<rparr>)"

definition ParseEvents :: "'j jsoncpp \<Rightarrow> 'j \<Rightarrow> dispatch_rule \<Rightarrow> dispatch_rule" where
  "ParseEvents jc root r =
     (case array_member jc root ''events'' of
        None \<Rightarrow> r
      | Some j \<Rightarrow> r\<lparr>drEventList := drEventList r \<union> set (strings_of jc j)\<rparr>)"

definition ParseTagEvents :: "'j jsoncpp \<Rightarrow> 'j \<Rightarrow> dispatch_rule \<Rightarrow> dispatch_rule" where
  "ParseTagEvents jc root r =
     (case array_member jc root ''tags'' of
        None \<Rightarrow> r
      | Some j \<Rightarrow> r\<lparr>drTagList := drTagList r \<union> set (strings_of jc j)\<rparr>)"

text \<open>\<open>uninit\<close> is the value of the filter type that nothing has set.\<close>

definition ParseDomains :: "'j jsoncpp \<Rightarrow> u8 \<Rightarrow> 'j \<Rightarrow> domain_rule" where
  "ParseDomains jc uninit json =
     (case array_of jc json ''include'' of
        Some a \<Rightarrow> \<lparr>ruFilterType = INCLUDE, ruEventlist = set (strings_of jc a)\<rparr>
      | None \<Rightarrow>
          (case array_of jc json ''exclude'' of
             Some a \<Rightarrow> \<lparr>ruFilterType = EXCLUDE, ruEventlist = set (strings_of jc a)\<rparr>
           | None \<Rightarrow>
               if jcSize jc json = 1 then \<lparr>ruFilterType = EXCLUDE, ruEventlist = {}\<rparr>
               else \<lparr>ruFilterType = uninit, ruEventlist = {}\<rparr>))"

definition domain_entry :: "'j jsoncpp \<Rightarrow> u8 \<Rightarrow> 'j \<Rightarrow> (string \<rightharpoonup> domain_rule) \<Rightarrow> (string \<rightharpoonup> domain_rule)" where
  "domain_entry jc uninit j m =
     (if jcIsNull jc j then m
      else case jcMember jc j ''domain'' of
             None \<Rightarrow> m
           | Some d \<Rightarrow> if jcIsString jc d then m(jcAsString jc d \<mapsto> ParseDomains jc uninit j) else m)"

definition ParseDomainRule :: "'j jsoncpp \<Rightarrow> u8 \<Rightarrow> 'j \<Rightarrow> dispatch_rule \<Rightarrow> dispatch_rule" where
  "ParseDomainRule jc uninit root r =
     (case array_member jc root ''domains'' of
        None \<Rightarrow> r
      | Some j \<Rightarrow> r\<lparr>drDomainRuleMap := fold (domain_entry jc uninit) (jcElems jc j) (drDomainRuleMap r)\<rparr>)"

definition new_dispatch_rule :: dispatch_rule where
  "new_dispatch_rule = \<lparr>drTypeList = {}, drTagList = {}, drEventList = {}, drDomainRuleMap = Map.empty\<rparr>"

definition DispatchRuleParser :: "'j jsoncpp \<Rightarrow> u8 \<Rightarrow> file_system \<Rightarrow> string \<Rightarrow> dispatch_rule option" where
  "DispatchRuleParser jc uninit fs filePath =
     (case fs_file fs filePath of
        None \<Rightarrow> None
      | Some f \<Rightarrow>
          map_option (\<lambda>root. ParseDomainRule jc uninit root (ParseTagEvents jc root (ParseEvents jc root (ParseEventTypes jc root new_dispatch_rule))))
            (jcParse jc f))"

section \<open>Listeners and dispatchers\<close>

type_synonym listener = nat

record listener_info =
  liListener :: "listener option"
  liMessageTypes :: "u32 list"
  liEventsInfo :: "u32 \<rightharpoonup> string set"
  liDomainsInfo :: "u32 \<rightharpoonup> (string \<rightharpoonup> domain_rule)"

record dispatch_info =
  diPlugin :: plugin
  diTypesInfo :: "u8 set"
  diEventsInfo :: "string set"
  diTagsInfo :: "string set"
  diDomainsInfo :: "string \<rightharpoonup> domain_rule"

definition new_listener_info :: listener_info where
  "new_listener_info = \<lparr>liListener = None, liMessageTypes = [], liEventsInfo = Map.empty, liDomainsInfo = Map.empty\<rparr>"

definition ListenerInfo_Match :: "u32 \<Rightarrow> string \<Rightarrow> string \<Rightarrow> listener_info \<Rightarrow> bool" where
  "ListenerInfo_Match ty eventName domain i =
     (if ty \<in> set (liMessageTypes i) then True
      else if (case liEventsInfo i ty of Some l \<Rightarrow> eventName \<in> l | None \<Rightarrow> False) then True
      else case liDomainsInfo i ty of
             Some m \<Rightarrow> (case m domain of Some r \<Rightarrow> DomainRule_FindEvent eventName r | None \<Rightarrow> False)
           | None \<Rightarrow> False)"

definition DispatchInfo_Match :: "u8 \<Rightarrow> string \<Rightarrow> string \<Rightarrow> string \<Rightarrow> dispatch_info \<Rightarrow> bool" where
  "DispatchInfo_Match ty eventName tag domain i =
     (if ty \<in> diTypesInfo i then True
      else if tag \<in> diTagsInfo i then True
      else if eventName \<in> diEventsInfo i then True
      else case diDomainsInfo i domain of Some r \<Rightarrow> DomainRule_FindEvent eventName r | None \<Rightarrow> False)"

text \<open>Hash maps are association lists without the order of their elements; inserting a range keeps the keys that are there.\<close>

definition insert_range :: "('k \<rightharpoonup> 'v) \<Rightarrow> ('k \<rightharpoonup> 'v) \<Rightarrow> ('k \<rightharpoonup> 'v)" where
  "insert_range old new = new ++ old"

definition info_of :: "string \<Rightarrow> (string \<times> listener_info) list \<Rightarrow> listener_info" where
  "info_of name ls = (case map_of ls name of None \<Rightarrow> new_listener_info | Some i \<Rightarrow> i)"

definition RegisterUnorderedEventListener :: "string \<Rightarrow> listener \<Rightarrow> (string \<times> listener_info) list \<Rightarrow> (string \<times> listener_info) list" where
  "RegisterUnorderedEventListener name l ls = AList.update name ((info_of name ls)\<lparr>liListener := Some l\<rparr>) ls"

definition AddListenerInfo :: "u32 \<Rightarrow> string \<Rightarrow> string set \<Rightarrow> (string \<rightharpoonup> domain_rule) \<Rightarrow> (string \<times> listener_info) list \<Rightarrow>
    (string \<times> listener_info) list" where
  "AddListenerInfo ty name eventNames domainRulesMap ls =
     (let i = info_of name ls;
          i1 = (if eventNames = {} then i
                else i\<lparr>liEventsInfo := (liEventsInfo i)(ty \<mapsto>
                       (case liEventsInfo i ty of Some old \<Rightarrow> old \<union> eventNames | None \<Rightarrow> eventNames))\<rparr>);
          i2 = (if domainRulesMap = Map.empty then i1
                else i1\<lparr>liDomainsInfo := (liDomainsInfo i1)(ty \<mapsto>
                       (case liDomainsInfo i1 ty of Some old \<Rightarrow> insert_range old domainRulesMap | None \<Rightarrow> domainRulesMap))\<rparr>)
      in AList.update name i2 ls)"

definition AddListenerInfo_type :: "u32 \<Rightarrow> string \<Rightarrow> (string \<times> listener_info) list \<Rightarrow> (string \<times> listener_info) list" where
  "AddListenerInfo_type ty name ls =
     (let i = info_of name ls in AList.update name (i\<lparr>liMessageTypes := liMessageTypes i @ [ty]\<rparr>) ls)"

definition GetListenerInfo :: "u32 \<Rightarrow> string \<Rightarrow> string \<Rightarrow> (string \<times> listener_info) list \<Rightarrow> listener option list" where
  "GetListenerInfo ty eventName domain ls =
     map (\<lambda>(n, i). liListener i) (filter (\<lambda>(n, i). ListenerInfo_Match ty eventName domain i) ls)"

definition AddDispatchInfo :: "plugins \<Rightarrow> plugin \<Rightarrow> u8 set \<Rightarrow> string set \<Rightarrow> string set \<Rightarrow> (string \<rightharpoonup> domain_rule) \<Rightarrow>
    (string \<times> dispatch_info) list \<Rightarrow> (string \<times> dispatch_info) list" where
  "AddDispatchInfo pl p types eventNames tags domainRulesMap ds =
     (if \<not> plLock pl p then ds
      else let name = plName pl p;
               i = (case map_of ds name of
                      None \<Rightarrow> \<lparr>diPlugin = p, diTypesInfo = {}, diEventsInfo = {}, diTagsInfo = {}, diDomainsInfo = Map.empty\<rparr>
                    | Some i \<Rightarrow> i)
           in AList.update name
                (i\<lparr>diTypesInfo := diTypesInfo i \<union> types, diTagsInfo := diTagsInfo i \<union> tags,
                   diEventsInfo := diEventsInfo i \<union> eventNames, diDomainsInfo := insert_range (diDomainsInfo i) domainRulesMap\<rparr>) ds)"

definition GetDisPatcherInfo :: "u32 \<Rightarrow> string \<Rightarrow> string \<Rightarrow> string \<Rightarrow> (string \<times> dispatch_info) list \<Rightarrow> plugin list" where
  "GetDisPatcherInfo ty eventName tag domain ds =
     map (\<lambda>(n, i). diPlugin i) (filter (\<lambda>(n, i). DispatchInfo_Match (ucast ty) eventName tag domain i) ds)"

text \<open>\<open>SysEventDispatcher::DispatchEvent\<close>: the plugins whose callback is called.\<close>

definition DispatchEvent :: "plugins \<Rightarrow> u32 \<Rightarrow> string \<Rightarrow> string \<Rightarrow> string \<Rightarrow> (string \<times> dispatch_info) list \<Rightarrow> plugin list" where
  "DispatchEvent pl eventType eventName tag domain ds = filter (plLock pl) (GetDisPatcherInfo eventType eventName tag domain ds)"

section \<open>Broadcast\<close>

record broadcast =
  brMessageType :: u32
  brEventName :: string
  brDomain :: string

record dispatch_queue =
  dqIsRunning :: bool
  dqUnordered :: bool
  dqHasContext :: bool
  dqTasks :: "broadcast list"

definition queue_Start :: "dispatch_queue \<Rightarrow> dispatch_queue" where
  "queue_Start q = (if dqIsRunning q then q else q\<lparr>dqIsRunning := True, dqTasks := []\<rparr>)"

definition queue_Stop :: "dispatch_queue \<Rightarrow> dispatch_queue" where
  "queue_Stop q = q\<lparr>dqIsRunning := False, dqTasks := []\<rparr>"

definition queue_Enqueue :: "broadcast option \<Rightarrow> dispatch_queue \<Rightarrow> dispatch_queue" where
  "queue_Enqueue event q =
     (case event of
        None \<Rightarrow> q
      | Some e \<Rightarrow> if \<not> dqIsRunning q then q else if \<not> dqHasContext q then q else q\<lparr>dqTasks := dqTasks q @ [e]\<rparr>)"

text \<open>The listeners whose \<open>OnUnorderedEvent\<close> is called; \<open>live\<close> are those whose weak pointer can be locked.\<close>

definition ProcessUnorderedEvent :: "(listener \<Rightarrow> bool) \<Rightarrow> broadcast \<Rightarrow> (string \<times> listener_info) list \<Rightarrow> listener list" where
  "ProcessUnorderedEvent live event ls =
     filter live (List.map_filter id (GetListenerInfo (brMessageType event) (brEventName event) (brDomain event) ls))"

definition queue_run :: "(listener \<Rightarrow> bool) \<Rightarrow> (string \<times> listener_info) list \<Rightarrow> dispatch_queue \<Rightarrow> listener list \<times> dispatch_queue" where
  "queue_run live ls q =
     (case dqTasks q of
        [] \<Rightarrow> ([], q)
      | e # es \<Rightarrow> (if dqUnordered q then ProcessUnorderedEvent live e ls else [], q\<lparr>dqTasks := es\<rparr>))"

section \<open>Pipelines of the platform\<close>

text \<open>Ordered maps are lists sorted by the names.\<close>

fun map_put :: "string \<Rightarrow> 'a \<Rightarrow> (string \<times> 'a) list \<Rightarrow> (string \<times> 'a) list" where
  "map_put k v [] = [(k, v)]"
| "map_put k v ((k', v') # m) =
     (if str_less k k' then (k, v) # (k', v') # m else if k = k' then (k, v) # m else (k', v') # map_put k v m)"

record platform =
  pfIsReady :: bool
  pfPluginMap :: "string \<rightharpoonup> plugin"
  pfPipelines :: "(string \<times> pipeline) list"
  pfPipelineRules :: "(string \<times> dispatch_rule) list"
  pfListeners :: "(string \<times> listener_info) list"
  pfDispatchers :: "(string \<times> dispatch_info) list"
  pfUnorderQueue :: "dispatch_queue option"

definition PIPELINE_RULE_CONFIG_DIR :: string where "PIPELINE_RULE_CONFIG_DIR = ''/system/etc/hiview/dispatch_rule/''"

definition CreatePipeline :: "'j jsoncpp \<Rightarrow> u8 \<Rightarrow> file_system \<Rightarrow> string \<times> string list \<Rightarrow> platform \<Rightarrow> platform" where
  "CreatePipeline jc uninit fs info pf =
     (case info of (name, pluginNameList) \<Rightarrow>
        if map_of (pfPipelines pf) name \<noteq> None then pf
        else let pf1 = pf\<lparr>pfPipelines := map_put name \<lparr>piName = name, piProcessors = List.map_filter (pfPluginMap pf) pluginNameList\<rparr> (pfPipelines pf)\<rparr>;
                 configPath = PIPELINE_RULE_CONFIG_DIR @ name
             in if \<not> FileExists fs configPath then pf1
                else case DispatchRuleParser jc uninit fs configPath of
                       None \<Rightarrow> pf1
                     | Some rule \<Rightarrow> pf1\<lparr>pfPipelineRules := map_put name rule (pfPipelineRules pf1)\<rparr>)"

text \<open>What \<open>InitPlugin\<close> does for the listening rules of a plugin.\<close>

definition DISPATCH_RULE_CONFIG_DIR :: string where "DISPATCH_RULE_CONFIG_DIR = ''/system/etc/hiview/listener_rule/''"

definition InitPlugin_rules :: "'j jsoncpp \<Rightarrow> u8 \<Rightarrow> file_system \<Rightarrow> plugins \<Rightarrow> string \<Rightarrow> platform \<Rightarrow> platform" where
  "InitPlugin_rules jc uninit fs pl name pf =
     (case pfPluginMap pf name of
        None \<Rightarrow> pf
      | Some p \<Rightarrow>
          (let configPath = DISPATCH_RULE_CONFIG_DIR @ name
           in if \<not> FileExists fs configPath then pf
              else case DispatchRuleParser jc uninit fs configPath of
                     None \<Rightarrow> pf
                   | Some rule \<Rightarrow>
                       pf\<lparr>pfDispatchers := AddDispatchInfo pl p (drTypeList rule) (drEventList rule) (drTagList rule)
                            (drDomainRuleMap rule) (pfDispatchers pf)\<rparr>))"

definition AppendPluginToPipeline :: "string \<Rightarrow> string \<Rightarrow> platform \<Rightarrow> platform" where
  "AppendPluginToPipeline pluginName pipelineName pf =
     (case (map_of (pfPipelines pf) pipelineName, pfPluginMap pf pluginName) of
        (Some pi, Some p) \<Rightarrow> pf\<lparr>pfPipelines := map_put pipelineName (AppendProcessor p pi) (pfPipelines pf)\<rparr>
      | x \<Rightarrow> pf)"

definition GetPipelineSequenceByName :: "string \<Rightarrow> platform \<Rightarrow> plugin list" where
  "GetPipelineSequenceByName name pf =
     (if \<not> pfIsReady pf then []
      else case map_of (pfPipelines pf) name of Some pi \<Rightarrow> piProcessors pi | None \<Rightarrow> [])"

definition PostUnorderedEvent :: "broadcast option \<Rightarrow> platform \<Rightarrow> platform" where
  "PostUnorderedEvent event pf =
     (if \<not> pfIsReady pf then pf
      else case (pfUnorderQueue pf, event) of
             (Some q, Some e) \<Rightarrow> pf\<lparr>pfUnorderQueue := Some (queue_Enqueue (Some e) q)\<rparr>
           | x \<Rightarrow> pf)"

text \<open>
  The pipeline that an event of the system event source goes to: \<open>Inl ()\<close> when \<open>at\<close> throws, \<open>None\<close> when
  there is no default pipeline.
\<close>

fun first_rule :: "string \<Rightarrow> string \<Rightarrow> (string \<times> dispatch_rule) list \<Rightarrow> string option" where
  "first_rule domain eventName [] = None"
| "first_rule domain eventName ((n, r) # rs) =
     (if DispatchRule_FindEvent domain eventName r then Some n else first_rule domain eventName rs)"

definition SysEventSource_PublishPipelineEvent :: "string \<Rightarrow> string \<Rightarrow> platform \<Rightarrow> unit + pipeline option" where
  "SysEventSource_PublishPipelineEvent domain eventName pf =
     (case first_rule domain eventName (pfPipelineRules pf) of
        Some n \<Rightarrow> (case map_of (pfPipelines pf) n of Some pi \<Rightarrow> Inr (Some pi) | None \<Rightarrow> Inl ())
      | None \<Rightarrow> Inr (map_of (pfPipelines pf) ''SysEventPipeline''))"

text \<open>\<open>EventSource::PublishPipelineEvent\<close>: the first pipeline whose first plugin can process the event.\<close>

definition EventSource_PublishPipelineEvent :: "plugins \<Rightarrow> pipeline option list \<Rightarrow> pipeline option" where
  "EventSource_PublishPipelineEvent pl sources = List.find (CanProcessEvent pl) (List.map_filter id sources)"

definition AddPipeline :: "pipeline option \<Rightarrow> pipeline option list \<Rightarrow> pipeline option list" where
  "AddPipeline p sources = (case p of None \<Rightarrow> sources | Some x \<Rightarrow> sources @ [p])"

end
