(* ===== verification/Platform_Facts.thy ===== *)
theory Platform_Facts
  imports Plugin_Platform
begin

text \<open>
  What registrations and configurations of the platform mean: the listeners of a broadcast event, and the pipeline of an
  event of the system event source.
\<close>

section \<open>Listeners\<close>

datatype registration = RegType u32 string | RegRule u32 string "string set" "string \<rightharpoonup> domain_rule" | RegListener string listener

fun register :: "registration \<Rightarrow> (string \<times> listener_info) list \<Rightarrow> (string \<times> listener_info) list" where
  "register (RegType ty n) ls = AddListenerInfo_type ty n ls"
| "register (RegRule ty n es ds) ls = AddListenerInfo ty n es ds ls"
| "register (RegListener n l) ls = RegisterUnorderedEventListener n l ls"

text \<open>The rule for a domain is that of the first registration that has one.\<close>

fun domain_of :: "u32 \<Rightarrow> string \<Rightarrow> string \<Rightarrow> registration \<Rightarrow> domain_rule option" where
  "domain_of ty n d (RegRule ty' n' es ds) = (if ty' = ty \<and> n' = n then ds d else None)"
| "domain_of ty n d r = None"

definition first_domain :: "u32 \<Rightarrow> string \<Rightarrow> string \<Rightarrow> registration list \<Rightarrow> domain_rule option" where
  "first_domain ty n d regs = (case List.map_filter (domain_of ty n d) regs of [] \<Rightarrow> None | r # rs \<Rightarrow> Some r)"

definition wants :: "registration list \<Rightarrow> string \<Rightarrow> broadcast \<Rightarrow> bool" where
  "wants regs n e \<longleftrightarrow>
     RegType (brMessageType e) n \<in> set regs \<or>
     (\<exists>es ds. RegRule (brMessageType e) n es ds \<in> set regs \<and> brEventName e \<in> es) \<or>
     (\<exists>r. first_domain (brMessageType e) n (brDomain e) regs = Some r \<and> DomainRule_FindEvent (brEventName e) r)"

fun listener_of :: "string \<Rightarrow> registration list \<Rightarrow> listener option" where
  "listener_of n [] = None"
| "listener_of n (RegListener n' l # rs) = (if n' = n \<and> listener_of n rs = None then Some l else listener_of n rs)"
| "listener_of n (r # rs) = listener_of n rs"

lemma map_filter_snoc: "List.map_filter f (xs @ [x]) = List.map_filter f xs @ (case f x of None \<Rightarrow> [] | Some y \<Rightarrow> [y])"
  by (induction xs) (auto simp: List.map_filter_simps split: option.splits)

lemma first_domain_snoc:
  "first_domain ty n d (regs @ [r]) = (case first_domain ty n d regs of None \<Rightarrow> domain_of ty n d r | Some x \<Rightarrow> Some x)"
  by (auto simp: first_domain_def map_filter_snoc split: list.splits option.splits)

lemma listener_of_snoc: "listener_of n (regs @ [r]) = (case r of RegListener n' l \<Rightarrow> if n' = n then Some l else listener_of n regs
    | x \<Rightarrow> listener_of n regs)"
proof (induction regs)
  case (Cons a regs)
  then show ?case by (cases a; cases r) auto
qed (cases r; simp)

lemma info_of_update: "info_of n (AList.update m i ls) = (if n = m then i else info_of n ls)"
  by (simp add: info_of_def update_conv')

definition listed :: "u32 \<Rightarrow> string \<Rightarrow> listener_info \<Rightarrow> bool" where
  "listed ty e i = (case liEventsInfo i ty of Some l \<Rightarrow> e \<in> l | None \<Rightarrow> False)"

definition domain_rule_of :: "u32 \<Rightarrow> string \<Rightarrow> listener_info \<Rightarrow> domain_rule option" where
  "domain_rule_of ty d i = (case liDomainsInfo i ty of Some m \<Rightarrow> m d | None \<Rightarrow> None)"

lemma AddListenerInfo_info:
  "n \<noteq> n' \<Longrightarrow> info_of n (AddListenerInfo ty' n' es ds ls) = info_of n ls"
  "liListener (info_of n (AddListenerInfo ty' n es ds ls)) = liListener (info_of n ls)"
  "liMessageTypes (info_of n (AddListenerInfo ty' n es ds ls)) = liMessageTypes (info_of n ls)"
  "listed ty e (info_of n (AddListenerInfo ty' n es ds ls)) \<longleftrightarrow> listed ty e (info_of n ls) \<or> ty = ty' \<and> e \<in> es"
  "domain_rule_of ty d (info_of n (AddListenerInfo ty' n es ds ls)) =
     (case domain_rule_of ty d (info_of n ls) of Some r \<Rightarrow> Some r | None \<Rightarrow> if ty = ty' then ds d else None)"
  by (auto simp: AddListenerInfo_def info_of_update Let_def listed_def split: option.splits)
    (auto simp: AddListenerInfo_def info_of_update Let_def domain_rule_of_def insert_range_def map_add_def split: option.splits)

text \<open>The information of a name after all registrations.\<close>

lemma info_registered:
  fixes regs :: "registration list"
  defines "ls \<equiv> fold register regs []"
  shows "liListener (info_of n ls) = listener_of n regs"
    "ty \<in> set (liMessageTypes (info_of n ls)) \<longleftrightarrow> RegType ty n \<in> set regs"
    "listed ty e (info_of n ls) \<longleftrightarrow> (\<exists>es ds. RegRule ty n es ds \<in> set regs \<and> e \<in> es)"
    "domain_rule_of ty d (info_of n ls) = first_domain ty n d regs"
proof -
  have "liListener (info_of n ls) = listener_of n regs \<and>
    (ty \<in> set (liMessageTypes (info_of n ls)) \<longleftrightarrow> RegType ty n \<in> set regs) \<and>
    (listed ty e (info_of n ls) \<longleftrightarrow> (\<exists>es ds. RegRule ty n es ds \<in> set regs \<and> e \<in> es)) \<and>
    domain_rule_of ty d (info_of n ls) = first_domain ty n d regs"
    unfolding ls_def
  proof (induction regs rule: rev_induct)
    case Nil
    then show ?case
      by (simp add: info_of_def new_listener_info_def first_domain_def List.map_filter_simps listed_def domain_rule_of_def)
  next
    case (snoc r regs)
    show ?case
    proof (cases r)
      case (RegType ty' n')
      then show ?thesis using snoc
        by (auto simp: AddListenerInfo_type_def info_of_update Let_def listener_of_snoc first_domain_snoc listed_def domain_rule_of_def
          split: option.splits)
    next
      case (RegRule ty' n' es ds)
      show ?thesis
      proof (cases "n' = n")
        case True
        then show ?thesis using snoc RegRule
          by (auto simp: AddListenerInfo_info listener_of_snoc first_domain_snoc split: option.splits)
      next
        case False
        then show ?thesis using snoc RegRule
          by (simp add: AddListenerInfo_info(1) listener_of_snoc first_domain_snoc option.case_eq_if)
      qed
    next
      case (RegListener n' l)
      then show ?thesis using snoc
        by (auto simp: RegisterUnorderedEventListener_def info_of_update listener_of_snoc first_domain_snoc listed_def domain_rule_of_def
          split: option.splits)
    qed
  qed
  then show "liListener (info_of n ls) = listener_of n regs"
    "ty \<in> set (liMessageTypes (info_of n ls)) \<longleftrightarrow> RegType ty n \<in> set regs"
    "listed ty e (info_of n ls) \<longleftrightarrow> (\<exists>es ds. RegRule ty n es ds \<in> set regs \<and> e \<in> es)"
    "domain_rule_of ty d (info_of n ls) = first_domain ty n d regs" by auto
qed

lemma ListenerInfo_Match_iff:
  "ListenerInfo_Match ty e d i \<longleftrightarrow> ty \<in> set (liMessageTypes i) \<or> listed ty e i \<or>
     (\<exists>r. domain_rule_of ty d i = Some r \<and> DomainRule_FindEvent e r)"
  by (auto simp: ListenerInfo_Match_def listed_def domain_rule_of_def split: option.splits)

lemma registered_match:
  "ListenerInfo_Match (brMessageType e) (brEventName e) (brDomain e) (info_of n (fold register regs [])) \<longleftrightarrow> wants regs n e"
  by (simp add: ListenerInfo_Match_iff info_registered wants_def)

lemma registered_distinct: "distinct (map fst (fold register regs []))"
proof (induction regs rule: rev_induct)
  case (snoc r regs)
  then show ?case
    by (cases r) (simp_all add: AddListenerInfo_type_def AddListenerInfo_def RegisterUnorderedEventListener_def Let_def distinct_update)
qed simp

text \<open>Exactly the live listeners that want an event get it.\<close>

lemma broadcast_reaches:
  "set (ProcessUnorderedEvent live e (fold register regs [])) = {l. live l \<and> (\<exists>n. listener_of n regs = Some l \<and> wants regs n e)}"
proof -
  let ?ls = "fold register regs []"
  have dist: "distinct (map fst ?ls)" by (rule registered_distinct)
  have i: "info_of n ?ls = i" if "(n, i) \<in> set ?ls" for n i
    using map_of_is_SomeI [OF dist that] by (simp add: info_of_def)
  have "l \<in> set (List.map_filter id (GetListenerInfo (brMessageType e) (brEventName e) (brDomain e) ?ls)) \<longleftrightarrow>
      (\<exists>n. listener_of n regs = Some l \<and> wants regs n e)" (is "?L \<longleftrightarrow> ?R") for l
  proof
    assume ?L
    then obtain n j where "(n, j) \<in> set ?ls" "ListenerInfo_Match (brMessageType e) (brEventName e) (brDomain e) j" "liListener j = Some l"
      by (auto simp: GetListenerInfo_def List.map_filter_def)
    then show ?R using i registered_match [of e n regs] info_registered(1) [of n regs] by auto
  next
    assume ?R
    then obtain n where n: "listener_of n regs = Some l" "wants regs n e" by blast
    then have l: "liListener (info_of n ?ls) = Some l" by (simp add: info_registered)
    then have "map_of ?ls n = Some (info_of n ?ls)" by (auto simp: info_of_def new_listener_info_def split: option.splits)
    then have "(n, info_of n ?ls) \<in> set ?ls" by (rule map_of_SomeD)
    then show ?L using l n(2) registered_match [of e n regs] by (force simp: GetListenerInfo_def List.map_filter_def)
  qed
  then show ?thesis by (auto simp: ProcessUnorderedEvent_def)
qed

section \<open>Routing\<close>

inductive configured_platform :: "'j jsoncpp \<Rightarrow> platform \<Rightarrow> bool" for jc where
  start: "pfPipelines pf = [] \<Longrightarrow> pfPipelineRules pf = [] \<Longrightarrow> configured_platform jc pf"
| create: "configured_platform jc pf \<Longrightarrow> configured_platform jc (CreatePipeline jc uninit fs info pf)"
| append: "configured_platform jc pf \<Longrightarrow> configured_platform jc (AppendPluginToPipeline a b pf)"
| other: "configured_platform jc pf \<Longrightarrow> pfPipelines pf' = pfPipelines pf \<Longrightarrow> pfPipelineRules pf' = pfPipelineRules pf \<Longrightarrow>
    configured_platform jc pf'"

lemma str_less_irrefl [simp]: "\<not> str_less s s"
  by (induction s) auto

lemma str_less_trans: "str_less a b \<Longrightarrow> str_less b c \<Longrightarrow> str_less a c"
proof (induction a b arbitrary: c rule: str_less.induct)
  case (4 x xs y ys)
  then show ?case by (cases c) auto
qed (auto elim: str_less.elims)

lemma str_less_total: "str_less a b \<or> a = b \<or> str_less b a"
proof (induction a b rule: str_less.induct)
  case (4 x xs y ys)
  have "x = y" if "(of_char x :: nat) = of_char y" using that by simp
  then show ?case using 4 by (auto simp: not_less_iff_gr_or_eq)
qed auto

abbreviation name_sorted :: "(string \<times> 'a) list \<Rightarrow> bool" where
  "name_sorted m \<equiv> sorted_wrt str_less (map fst m)"

lemma map_put_keys: "fst ` set (map_put k v m) = insert k (fst ` set m)"
  by (induction k v m rule: map_put.induct) auto

lemma map_put_sorted: "name_sorted m \<Longrightarrow> name_sorted (map_put k v m)"
proof (induction k v m rule: map_put.induct)
  case (2 k v k' v' m)
  show ?case
  proof (cases "str_less k k' \<or> k = k'")
    case True
    then show ?thesis using 2(2) by (auto intro: str_less_trans)
  next
    case False
    then have lt: "str_less k' k" using str_less_total [of k k'] by blast
    have "\<forall>x \<in> set (map fst (map_put k v m)). str_less k' x"
      using map_put_keys [of k v m] lt 2(2) by (auto simp: image_iff)
    then show ?thesis using False 2 by auto
  qed
qed simp

lemma map_put_lookup: "name_sorted m \<Longrightarrow> map_of (map_put k v m) = (map_of m)(k \<mapsto> v)"
proof (induction k v m rule: map_put.induct)
  case (2 k v k' v' m)
  then show ?case by (auto simp: fun_eq_iff)
qed simp

lemma configured_platform_ok:
  assumes "configured_platform jc pf"
  shows "name_sorted (pfPipelines pf) \<and> name_sorted (pfPipelineRules pf) \<and> dom (map_of (pfPipelineRules pf)) \<subseteq> dom (map_of (pfPipelines pf))"
  using assms
proof induction
  case (create pf uninit fs info)
  then show ?case
    by (cases info) (auto simp: CreatePipeline_def Let_def map_put_sorted map_put_lookup split: option.splits)
next
  case (append pf a b)
  then show ?case by (auto simp: AppendPluginToPipeline_def map_put_sorted map_put_lookup split: option.splits)
qed auto

lemma first_rule_spec:
  assumes "name_sorted rs"
  shows "first_rule d e rs = None \<longleftrightarrow> (\<forall>(n, r) \<in> set rs. \<not> DispatchRule_FindEvent d e r)"
    "first_rule d e rs = Some n \<longleftrightarrow> (\<exists>r. map_of rs n = Some r \<and> DispatchRule_FindEvent d e r \<and>
       (\<forall>(n', r') \<in> set rs. str_less n' n \<longrightarrow> \<not> DispatchRule_FindEvent d e r'))"
proof -
  show "first_rule d e rs = None \<longleftrightarrow> (\<forall>(n, r) \<in> set rs. \<not> DispatchRule_FindEvent d e r)"
    by (induction d e rs rule: first_rule.induct) auto
  show "first_rule d e rs = Some n \<longleftrightarrow> (\<exists>r. map_of rs n = Some r \<and> DispatchRule_FindEvent d e r \<and>
       (\<forall>(n', r') \<in> set rs. str_less n' n \<longrightarrow> \<not> DispatchRule_FindEvent d e r'))"
    using assms
  proof (induction d e rs rule: first_rule.induct)
    case (2 d e k r rs)
    have lt: "str_less k n" if "map_of rs n = Some x" for x
      using 2(2) that by (auto dest!: map_of_SomeD)
    have "\<not> str_less x k" if "(x, y) \<in> set rs" for x y
      using 2(2) that str_less_trans [of x k x] by auto
    then show ?case using 2 lt by (auto split: if_splits)
  qed simp
qed

section \<open>A sample platform\<close>

definition silent_json :: "unit jsoncpp" where
  "silent_json = \<lparr>jcParse = (\<lambda>f. None), jcIsNull = (\<lambda>j. True), jcMember = (\<lambda>j k. None), jcIsArray = (\<lambda>j. False),
     jcElems = (\<lambda>j. []), jcSize = (\<lambda>j. 0), jcIsString = (\<lambda>j. False), jcAsString = (\<lambda>j. [])\<rparr>"

definition empty_platform :: platform where
  "empty_platform = \<lparr>pfIsReady = True, pfPluginMap = [''Dispatcher'' \<mapsto> 5], pfPipelines = [], pfPipelineRules = [], pfListeners = [],
     pfDispatchers = [], pfUnorderQueue = None\<rparr>"

end
