(* ===== verification/Repeat_Guard.thy ===== *)
theory Repeat_Guard
  imports Rdb_Store Decoded_Event
begin

text \<open>
  The guard against repeated fault events (base/event_store/store/sys_event_repeat_guard.cpp) and its database of
  hashes (sys_event_repeat_db.cpp). The relational database is a parameter, with the calls that only the guard makes in
  \<open>repeat_lib\<close>: a query whose result set is moved to its first row, a count, and a deletion by a clause. The clock is
  read twice by a check; both times are arguments.
\<close>

section \<open>Database of hashes\<close>

record 'd repeat_lib =
  rlRdb :: "'d rdb"
  rlQuery :: "string \<Rightarrow> rdb_pred list \<Rightarrow> string list \<Rightarrow> 'd \<Rightarrow> (rdb_code + rdb_value option list) option"
  rlCount :: "string \<Rightarrow> 'd \<Rightarrow> (rdb_code + rdb_value option list) option"
  rlDelete :: "string \<Rightarrow> string \<Rightarrow> 'd \<Rightarrow> rdb_code \<times> 'd"
  rlDbDir :: string

record hash_record =
  hrDomain :: string
  hrName :: string
  hrEventHash :: string
  hrHappentime :: int

record 'd repeat_db =
  rpDb :: 'd
  rpStore :: bool
  rpDbCount :: int

definition REPEAT_DB_FILE :: string where "REPEAT_DB_FILE = ''sys_event_history.db''"
definition REPEAT_TABLE :: string where "REPEAT_TABLE = ''sys_event_history''"
definition REPEAT_DB_VERSION :: int where "REPEAT_DB_VERSION = 1"
definition MAX_DB_COUNT :: int where "MAX_DB_COUNT = 10000"

definition repeat_fields :: "(string \<times> string) list" where
  "repeat_fields = [(''domain'', ''TEXT''), (''name'', ''TEXT''), (''eventHash'', ''TEXT''), (''happentime'', ''INTEGER'')]"

definition repeat_OnCreate :: "'d rdb \<Rightarrow> 'd \<Rightarrow> rdb_code \<times> 'd" where
  "repeat_OnCreate rd d =
     (case rdbExecuteSql rd (GenerateCreateSql REPEAT_TABLE repeat_fields) d of
        (ret, d1) \<Rightarrow>
      if ret \<noteq> E_OK then (ret, d1)
      else case rdbExecuteSql rd (''create index sys_event_his_index1 on '' @ REPEAT_TABLE @ ''(domain, name,eventHash);'') d1 of
        (ret, d2) \<Rightarrow>
      if ret \<noteq> E_OK then (ret, d2)
      else case rdbExecuteSql rd (''create index sys_event_his_index2 on '' @ REPEAT_TABLE @ ''(happentime);'') d2 of
        (ret, d3) \<Rightarrow> if ret \<noteq> E_OK then (ret, d3) else (E_OK, d3))"

definition repeat_OnUpgrade :: "int \<Rightarrow> int \<Rightarrow> 'd \<Rightarrow> rdb_code \<times> 'd" where
  "repeat_OnUpgrade old new d = (E_OK, d)"

definition repeat_path :: "'d repeat_lib \<Rightarrow> string" where
  "repeat_path rl = rlDbDir rl @ REPEAT_DB_FILE"

definition CheckAndRepairDbFile :: "'d repeat_lib \<Rightarrow> rdb_code \<Rightarrow> 'd repeat_db \<Rightarrow> 'd repeat_db" where
  "CheckAndRepairDbFile rl errCode s =
     (if errCode \<noteq> E_SQLITE_CORRUPT then s
      else s\<lparr>rpStore := False, rpDb := snd (rdbDeleteStore (rlRdb rl) (repeat_path rl) (rpDb s))\<rparr>)"

definition InitDbStore :: "'d repeat_lib \<Rightarrow> 'd repeat_db \<Rightarrow> 'd repeat_db" where
  "InitDbStore rl s =
     (case rdbOpen (rlRdb rl) (repeat_path rl) REPEAT_DB_VERSION (repeat_OnCreate (rlRdb rl)) repeat_OnUpgrade (rpDb s) of
        (ret, opened, d) \<Rightarrow>
          (let s1 = s\<lparr>rpDb := d, rpStore := opened\<rparr> in if \<not> opened then CheckAndRepairDbFile rl ret s1 else s1))"

definition repeat_count_sql :: string where "repeat_count_sql = ''SELECT count(*) from '' @ REPEAT_TABLE @ '';''"

definition RefreshDbCount :: "'d repeat_lib \<Rightarrow> 'd repeat_db \<Rightarrow> 'd repeat_db" where
  "RefreshDbCount rl s =
     (if \<not> rpStore s then s
      else case rlCount rl repeat_count_sql (rpDb s) of
             None \<Rightarrow> s
           | Some (Inl ret) \<Rightarrow> CheckAndRepairDbFile rl ret s
           | Some (Inr row) \<Rightarrow> s\<lparr>rpDbCount := get_long row 0 (rpDbCount s)\<rparr>)"

definition SysEventRepeatDb :: "'d repeat_lib \<Rightarrow> 'd \<Rightarrow> 'd repeat_db" where
  "SysEventRepeatDb rl d = RefreshDbCount rl (InitDbStore rl \<lparr>rpDb = d, rpStore = False, rpDbCount = 0\<rparr>)"

definition CheckDbStoreValid :: "'d repeat_lib \<Rightarrow> 'd repeat_db \<Rightarrow> bool \<times> 'd repeat_db" where
  "CheckDbStoreValid rl s =
     (if rpStore s then (True, s)
      else let s1 = RefreshDbCount rl (InitDbStore rl s) in (rpStore s1, s1))"

definition repeat_Release :: "'d repeat_db \<Rightarrow> 'd repeat_db" where
  "repeat_Release s = s\<lparr>rpStore := False\<rparr>"

definition older_clause :: "int \<Rightarrow> string" where "older_clause happentime = ''happentime'' @ '' < '' @ show_int happentime"

definition ClearHistory :: "'d repeat_lib \<Rightarrow> int \<Rightarrow> 'd repeat_db \<Rightarrow> 'd repeat_db" where
  "ClearHistory rl happentime s =
     (case CheckDbStoreValid rl s of
        (valid, s1) \<Rightarrow>
          if \<not> valid then s1
          else case rlDelete rl REPEAT_TABLE (older_clause happentime) (rpDb s1) of
                 (ret, d) \<Rightarrow>
                   (let s2 = s1\<lparr>rpDb := d\<rparr> in if ret \<noteq> E_OK then CheckAndRepairDbFile rl ret s2 else s2))"

definition CheckAndClearDb :: "'d repeat_lib \<Rightarrow> int \<Rightarrow> 'd repeat_db \<Rightarrow> 'd repeat_db" where
  "CheckAndClearDb rl happentime s =
     (if rpDbCount s \<le> MAX_DB_COUNT then s else RefreshDbCount rl (ClearHistory rl happentime s))"

definition repeat_Clear :: "'d repeat_lib \<Rightarrow> int \<Rightarrow> 'd repeat_db \<Rightarrow> 'd repeat_db" where
  "repeat_Clear rl happentime s = RefreshDbCount rl (ClearHistory rl happentime s)"

definition hash_key :: "hash_record \<Rightarrow> rdb_pred list" where
  "hash_key r = [EqualTo ''domain'' (RText (hrDomain r)), EqualTo ''name'' (RText (hrName r)), EqualTo ''eventHash'' (RText (hrEventHash r))]"

definition repeat_Insert :: "'d repeat_lib \<Rightarrow> hash_record \<Rightarrow> 'd repeat_db \<Rightarrow> bool \<times> 'd repeat_db" where
  "repeat_Insert rl r s =
     (case CheckDbStoreValid rl s of
        (valid, s1) \<Rightarrow>
          if \<not> valid then (False, s1)
          else case rdbInsert (rlRdb rl) REPEAT_TABLE
                      [(''domain'', RText (hrDomain r)), (''name'', RText (hrName r)), (''eventHash'', RText (hrEventHash r)),
                       (''happentime'', RInt (hrHappentime r))] (rpDb s1) of
                 (ret, i, d) \<Rightarrow>
                   (let s2 = s1\<lparr>rpDb := d\<rparr> in
                    if ret \<noteq> E_OK then (False, CheckAndRepairDbFile rl ret s2)
                    else (True, s2\<lparr>rpDbCount := rpDbCount s2 + 1\<rparr>)))"

definition repeat_Update :: "'d repeat_lib \<Rightarrow> hash_record \<Rightarrow> 'd repeat_db \<Rightarrow> bool \<times> 'd repeat_db" where
  "repeat_Update rl r s =
     (case CheckDbStoreValid rl s of
        (valid, s1) \<Rightarrow>
          if \<not> valid then (False, s1)
          else case rdbUpdate (rlRdb rl) REPEAT_TABLE [(''happentime'', RInt (hrHappentime r))] (hash_key r) (rpDb s1) of
                 (ret, d) \<Rightarrow>
                   (let s2 = s1\<lparr>rpDb := d\<rparr> in
                    if ret \<noteq> E_OK then (False, CheckAndRepairDbFile rl ret s2) else (True, s2)))"

definition QueryHappentime :: "'d repeat_lib \<Rightarrow> hash_record \<Rightarrow> 'd repeat_db \<Rightarrow> int \<times> 'd repeat_db" where
  "QueryHappentime rl r s =
     (case CheckDbStoreValid rl s of
        (valid, s1) \<Rightarrow>
          if \<not> valid then (0, s1)
          else case rlQuery rl REPEAT_TABLE (hash_key r) [''happentime''] (rpDb s1) of
                 None \<Rightarrow> (0, s1)
               | Some (Inl ret) \<Rightarrow> (0, CheckAndRepairDbFile rl ret s1)
               | Some (Inr row) \<Rightarrow> (get_long row 0 0, s1))"

section \<open>Guard\<close>

definition TIME_RANGE_COMMERCIAL :: int where "TIME_RANGE_COMMERCIAL = 24 * 60 * 60"
definition TIME_RANGE_BETA :: int where "TIME_RANGE_BETA = 1 * 60 * 60"

definition LOG_ALLOW_PACK :: u8 where "LOG_ALLOW_PACK = 0"
definition LOG_NOT_ALLOW_PACK :: u8 where "LOG_NOT_ALLOW_PACK = 32"
definition LOG_PACKED :: u8 where "LOG_PACKED = 1"
definition LOG_REPEAT :: u8 where "LOG_REPEAT = 1"

record fault_event =
  feDomain :: string
  feName :: string
  feType :: int
  feFingerprint :: string
  feRaw :: "byte list option"
  feLog :: u8

text \<open>\<open>EventRawDataInfo\<close>: size and position of the parameters of a block; \<open>None\<close> when it reads behind the block.\<close>

definition EventRawDataInfo :: "byte list \<Rightarrow> (int \<times> nat) option" where
  "EventRawDataInfo raw =
     (if length raw < 4 + SIZEOF_HEADER then None
      else let h = header_of_bytes (drop 4 raw)
           in Some (sint (u32_of_bytes (take 4 raw)),
                    4 + SIZEOF_HEADER + (if hdIsTraceOpened h = 1 then SIZEOF_TRACE_INFO else 0) + 4))"

text \<open>Two hexadecimal digits for each byte of the digest; SHA-256 itself is a parameter.\<close>

definition ConvertToString :: "byte list \<Rightarrow> string" where
  "ConvertToString hash = concat (map (\<lambda>b. [digit_char (unat b div 16), digit_char (unat b mod 16)]) hash)"

definition CalcBufferSha :: "(byte list \<Rightarrow> byte list) \<Rightarrow> byte list \<Rightarrow> string option" where
  "CalcBufferSha sha source = (if source = [] then None else Some (ConvertToString (sha source)))"

text \<open>The outer \<open>None\<close> is a read behind the block, the inner one a failure.\<close>

definition GetShaStr :: "(byte list \<Rightarrow> byte list) \<Rightarrow> byte list \<Rightarrow> string option option" where
  "GetShaStr sha raw =
     (case EventRawDataInfo raw of
        None \<Rightarrow> None
      | Some (dataSize, dataPos) \<Rightarrow>
          if dataSize \<le> int dataPos then Some None
          else if length raw < nat dataSize then None
          else Some (CalcBufferSha sha (drop dataPos (take (nat dataSize) raw))))"

definition GetMinValidTime :: "bool \<Rightarrow> int \<Rightarrow> int" where
  "GetMinValidTime beta timeNow =
     (let timeRange = (if beta then TIME_RANGE_BETA else TIME_RANGE_COMMERCIAL)
      in if timeNow > timeRange then timeNow - timeRange else 0)"

definition GetEventUniqueId :: "(byte list \<Rightarrow> byte list) \<Rightarrow> fault_event \<Rightarrow> string option option" where
  "GetEventUniqueId sha e =
     (if feFingerprint e \<noteq> [] then Some (Some (feFingerprint e))
      else case feRaw e of
             None \<Rightarrow> Some None
           | Some raw \<Rightarrow>
               (case GetShaStr sha raw of
                  None \<Rightarrow> None
                | Some None \<Rightarrow> Some None
                | Some (Some h) \<Rightarrow> Some (if h = [] then None else Some h)))"

definition IsEventRepeat :: "'d repeat_lib \<Rightarrow> (byte list \<Rightarrow> byte list) \<Rightarrow> bool \<Rightarrow> int \<times> int \<Rightarrow> fault_event \<Rightarrow> 'd repeat_db \<Rightarrow>
    (bool \<times> 'd repeat_db) option" where
  "IsEventRepeat rl sha beta now e s =
     (case GetEventUniqueId sha e of
        None \<Rightarrow> None
      | Some None \<Rightarrow> Some (False, s)
      | Some (Some h) \<Rightarrow>
          (let r = \<lparr>hrDomain = feDomain e, hrName = feName e, hrEventHash = h, hrHappentime = 0\<rparr> in
           case QueryHappentime rl r s of
             (happentime, s1) \<Rightarrow>
               (let minValidTime = GetMinValidTime beta (fst now) in
                if happentime > minValidTime then Some (True, repeat_Release s1)
                else let r1 = r\<lparr>hrHappentime := snd now\<rparr> in
                     if happentime > 0 then Some (False, repeat_Release (snd (repeat_Update rl r1 s1)))
                     else Some (False, repeat_Release (CheckAndClearDb rl minValidTime (snd (repeat_Insert rl r1 s1)))))))"

definition Check_event :: "'d repeat_lib \<Rightarrow> (byte list \<Rightarrow> byte list) \<Rightarrow> bool \<Rightarrow> int \<times> int \<Rightarrow> fault_event \<Rightarrow> 'd repeat_db \<Rightarrow>
    (fault_event \<times> 'd repeat_db) option" where
  "Check_event rl sha beta now e s =
     (if feType e \<noteq> 1 then Some (e, s)
      else map_option (\<lambda>(rep, s1). (if rep then e\<lparr>feLog := LOG_NOT_ALLOW_PACK OR LOG_REPEAT\<rparr>
                                    else e\<lparr>feLog := LOG_ALLOW_PACK OR LOG_PACKED\<rparr>, s1))
             (IsEventRepeat rl sha beta now e s))"

text \<open>What the observer of the user experience switch does.\<close>

definition UeSwitch_callback :: "'d repeat_lib \<Rightarrow> int \<Rightarrow> string \<Rightarrow> 'd repeat_db \<Rightarrow> 'd repeat_db" where
  "UeSwitch_callback rl curTime val s = (if val = ''1'' then repeat_Release (repeat_Clear rl curTime s) else s)"

section \<open>Laws of the database\<close>

definition row_time :: "rdb_row \<Rightarrow> int \<Rightarrow> bool" where
  "row_time r t \<longleftrightarrow> r ''happentime'' = Some (RInt t)"

definition repeat_lib_works :: "'d repeat_lib \<Rightarrow> bool" where
  "repeat_lib_works rl \<longleftrightarrow> rdb_works (rlRdb rl) \<and>
     (\<forall>t ps cols d. let m = filter_mset (row_matches ps) (rdbRows (rlRdb rl) d t) in
        (m = {#} \<longrightarrow> rlQuery rl t ps cols d = Some (Inl E_ERROR)) \<and>
        (m \<noteq> {#} \<longrightarrow> (\<exists>r \<in># m. rlQuery rl t ps cols d = Some (Inr (map r cols))))) \<and>
     (\<forall>d. rlCount rl repeat_count_sql d = Some (Inr [Some (RInt (int (size (rdbRows (rlRdb rl) d REPEAT_TABLE))))])) \<and>
     (\<forall>n d. \<exists>d'. rlDelete rl REPEAT_TABLE (older_clause n) d = (E_OK, d') \<and>
        rdbVersion (rlRdb rl) d' = rdbVersion (rlRdb rl) d \<and>
        rdbRows (rlRdb rl) d' = (rdbRows (rlRdb rl) d)(REPEAT_TABLE :=
          filter_mset (\<lambda>r. \<not> row_matches [LessThan ''happentime'' (RInt n)] r) (rdbRows (rlRdb rl) d REPEAT_TABLE)))"

end
