(* ===== verification/Repeat_Facts.thy ===== *)
theory Repeat_Facts
  imports Repeat_Guard
begin

text \<open>
  The guard as a map from events to the time of their last packing: the database, its reopening at each check and the
  clearing of old hashes cannot be seen from outside.
\<close>

section \<open>Operations on a working database\<close>

type_synonym event_key = "string \<times> string \<times> string"

definition key_row :: "event_key \<Rightarrow> rdb_row \<Rightarrow> bool" where
  "key_row k r \<longleftrightarrow> r ''domain'' = Some (RText (fst k)) \<and> r ''name'' = Some (RText (fst (snd k))) \<and>
     r ''eventHash'' = Some (RText (snd (snd k)))"

definition key_of :: "hash_record \<Rightarrow> event_key" where
  "key_of r = (hrDomain r, hrName r, hrEventHash r)"

abbreviation hash_rows :: "'d repeat_lib \<Rightarrow> 'd \<Rightarrow> rdb_row multiset" where
  "hash_rows rl d \<equiv> rdbRows (rlRdb rl) d REPEAT_TABLE"

definition has_db :: "'d repeat_lib \<Rightarrow> 'd \<Rightarrow> bool" where
  "has_db rl d \<longleftrightarrow> rdbVersion (rlRdb rl) d (repeat_path rl) = Some REPEAT_DB_VERSION"

lemma hash_key_matches: "row_matches (hash_key r) = key_row (key_of r)"
  by (auto simp: fun_eq_iff row_matches_def hash_key_def key_row_def key_of_def)

lemma key_row_unique: "key_row k r \<Longrightarrow> key_row k' r \<Longrightarrow> k = k'"
  by (cases k; cases k') (auto simp: key_row_def)

lemma repeat_lib_worksD:
  assumes "repeat_lib_works rl"
  shows "rdb_works (rlRdb rl)"
    "rlCount rl repeat_count_sql d = Some (Inr [Some (RInt (int (size (hash_rows rl d))))])"
    "filter_mset (row_matches ps) (rdbRows (rlRdb rl) d t) = {#} \<Longrightarrow> rlQuery rl t ps cols d = Some (Inl E_ERROR)"
    "filter_mset (row_matches ps) (rdbRows (rlRdb rl) d t) \<noteq> {#} \<Longrightarrow>
       \<exists>r \<in># filter_mset (row_matches ps) (rdbRows (rlRdb rl) d t). rlQuery rl t ps cols d = Some (Inr (map r cols))"
    "\<exists>d'. rlDelete rl REPEAT_TABLE (older_clause n) d = (E_OK, d') \<and> rdbVersion (rlRdb rl) d' = rdbVersion (rlRdb rl) d \<and>
       rdbRows (rlRdb rl) d' = (rdbRows (rlRdb rl) d)(REPEAT_TABLE :=
         filter_mset (\<lambda>r. \<not> row_matches [LessThan ''happentime'' (RInt n)] r) (hash_rows rl d))"
  using assms unfolding repeat_lib_works_def Let_def by blast+

lemma open_db:
  assumes "repeat_lib_works rl" "has_db rl d"
  shows "rdbOpen (rlRdb rl) (repeat_path rl) REPEAT_DB_VERSION oc ou d = (E_OK, True, d)"
  using repeat_lib_worksD(1) [OF assms(1)] assms(2) by (auto simp: rdb_works_def has_db_def)

lemma RefreshDbCount_db:
  assumes "repeat_lib_works rl"
  shows "rpDb (RefreshDbCount rl s) = rpDb s" "rpStore (RefreshDbCount rl s) = rpStore s"
  by (simp_all add: RefreshDbCount_def repeat_lib_worksD(2) [OF assms])

lemma CheckDbStoreValid_works:
  assumes "repeat_lib_works rl" "has_db rl (rpDb s)"
  obtains s' where "CheckDbStoreValid rl s = (True, s')" "rpDb s' = rpDb s" "rpStore s'"
proof (cases "rpStore s")
  case False
  have "CheckDbStoreValid rl s = (True, RefreshDbCount rl (s\<lparr>rpDb := rpDb s, rpStore := True\<rparr>))"
    using False open_db [OF assms] RefreshDbCount_db [OF assms(1)] by (simp add: CheckDbStoreValid_def InitDbStore_def Let_def)
  then show thesis by (rule that) (simp_all add: RefreshDbCount_db [OF assms(1)])
qed (simp add: CheckDbStoreValid_def that)

text \<open>Each operation by its effect on the rows.\<close>

lemma QueryHappentime_works:
  assumes "repeat_lib_works rl" "has_db rl (rpDb s)" "QueryHappentime rl r s = (t, s')"
  shows "rpDb s' = rpDb s"
    "filter_mset (key_row (key_of r)) (hash_rows rl (rpDb s)) = {#} \<Longrightarrow> t = 0"
    "filter_mset (key_row (key_of r)) (hash_rows rl (rpDb s)) = {#x#} \<Longrightarrow> row_time x u \<Longrightarrow> t = u"
proof -
  obtain s1 where s1: "CheckDbStoreValid rl s = (True, s1)" "rpDb s1 = rpDb s" by (rule CheckDbStoreValid_works [OF assms(1,2)])
  let ?m = "filter_mset (key_row (key_of r)) (hash_rows rl (rpDb s))"
  have q: "?m = {#} \<longrightarrow> rlQuery rl REPEAT_TABLE (hash_key r) [''happentime''] (rpDb s) = Some (Inl E_ERROR)"
      "?m \<noteq> {#} \<longrightarrow> (\<exists>x \<in># ?m. rlQuery rl REPEAT_TABLE (hash_key r) [''happentime''] (rpDb s) = Some (Inr [x ''happentime'']))"
    using repeat_lib_worksD(3,4) [OF assms(1), of "hash_key r" "rpDb s" REPEAT_TABLE "[''happentime'']"]
    by (simp_all only: hash_key_matches list.map) blast+
  have "rpDb s' = rpDb s \<and> (?m = {#} \<longrightarrow> t = 0) \<and> (\<forall>x u. ?m = {#x#} \<longrightarrow> row_time x u \<longrightarrow> t = u)"
  proof (cases "?m = {#}")
    case True
    then have "rpDb s' = rpDb s" "t = 0" using q(1) assms(3) s1 by (auto simp: QueryHappentime_def CheckAndRepairDbFile_def)
    then show ?thesis unfolding True by simp
  next
    case False
    then obtain x where x: "x \<in># ?m" "rlQuery rl REPEAT_TABLE (hash_key r) [''happentime''] (rpDb s) = Some (Inr [x ''happentime''])"
      using q(2) by blast
    define M where "M = ?m"
    have M: "x \<in># M" "M \<noteq> {#}" using x(1) False unfolding M_def by blast+
    have "rpDb s' = rpDb s" "\<And>u. row_time x u \<Longrightarrow> t = u"
      using x(2) assms(3) s1 by (auto simp: QueryHappentime_def get_long_def row_time_def)
    then show ?thesis using M unfolding M_def [symmetric] by auto
  qed
  then show "rpDb s' = rpDb s" "?m = {#} \<Longrightarrow> t = 0" "?m = {#x#} \<Longrightarrow> row_time x u \<Longrightarrow> t = u" by blast+
qed

lemma repeat_Insert_works:
  assumes "repeat_lib_works rl" "has_db rl (rpDb s)"
  obtains i where "has_db rl (rpDb (snd (repeat_Insert rl r s)))"
    "hash_rows rl (rpDb (snd (repeat_Insert rl r s))) = add_mset ([''domain'' \<mapsto> RText (hrDomain r), ''name'' \<mapsto> RText (hrName r),
       ''eventHash'' \<mapsto> RText (hrEventHash r), ''happentime'' \<mapsto> RInt (hrHappentime r), ''id'' \<mapsto> RInt i]) (hash_rows rl (rpDb s))"
proof -
  obtain s1 where s1: "CheckDbStoreValid rl s = (True, s1)" "rpDb s1 = rpDb s" by (rule CheckDbStoreValid_works [OF assms])
  let ?b = "[(''domain'', RText (hrDomain r)), (''name'', RText (hrName r)), (''eventHash'', RText (hrEventHash r)), (''happentime'', RInt (hrHappentime r))]"
  obtain i d where i: "rdbInsert (rlRdb rl) REPEAT_TABLE ?b (rpDb s) = (E_OK, i, d)" "inserts (rlRdb rl) REPEAT_TABLE ?b (rpDb s) d i"
    using rdb_works_insert [OF repeat_lib_worksD(1) [OF assms(1)]] by blast
  then have "rpDb (snd (repeat_Insert rl r s)) = d" using s1 by (simp add: repeat_Insert_def Let_def)
  moreover have "(map_of ?b)(''id'' \<mapsto> RInt i) = [''domain'' \<mapsto> RText (hrDomain r), ''name'' \<mapsto> RText (hrName r),
       ''eventHash'' \<mapsto> RText (hrEventHash r), ''happentime'' \<mapsto> RInt (hrHappentime r), ''id'' \<mapsto> RInt i]"
    by (auto simp: fun_eq_iff)
  ultimately show thesis using that i(2) assms(2) by (simp add: inserts_def has_db_def)
qed

lemma repeat_Update_works:
  assumes "repeat_lib_works rl" "has_db rl (rpDb s)"
  shows "has_db rl (rpDb (snd (repeat_Update rl r s)))"
    "hash_rows rl (rpDb (snd (repeat_Update rl r s))) =
       image_mset (\<lambda>x. if key_row (key_of r) x then x(''happentime'' \<mapsto> RInt (hrHappentime r)) else x) (hash_rows rl (rpDb s))"
proof -
  obtain s1 where s1: "CheckDbStoreValid rl s = (True, s1)" "rpDb s1 = rpDb s" by (rule CheckDbStoreValid_works [OF assms])
  obtain d where d: "rdbUpdate (rlRdb rl) REPEAT_TABLE [(''happentime'', RInt (hrHappentime r))] (hash_key r) (rpDb s) = (E_OK, d)"
      "rdbVersion (rlRdb rl) d = rdbVersion (rlRdb rl) (rpDb s)"
      "rdbRows (rlRdb rl) d = (rdbRows (rlRdb rl) (rpDb s))(REPEAT_TABLE :=
         image_mset (\<lambda>x. if row_matches (hash_key r) x then x ++ map_of [(''happentime'', RInt (hrHappentime r))] else x) (hash_rows rl (rpDb s)))"
    using rdb_works_update [OF repeat_lib_worksD(1) [OF assms(1)]] by blast
  then have "rpDb (snd (repeat_Update rl r s)) = d" using s1 by (simp add: repeat_Update_def Let_def)
  then show "has_db rl (rpDb (snd (repeat_Update rl r s)))"
    "hash_rows rl (rpDb (snd (repeat_Update rl r s))) =
       image_mset (\<lambda>x. if key_row (key_of r) x then x(''happentime'' \<mapsto> RInt (hrHappentime r)) else x) (hash_rows rl (rpDb s))"
    using d(2,3) assms(2) by (simp_all add: has_db_def hash_key_matches cong: if_cong)
qed

lemma ClearHistory_works:
  assumes "repeat_lib_works rl" "has_db rl (rpDb s)"
  shows "has_db rl (rpDb (ClearHistory rl n s))"
    "hash_rows rl (rpDb (ClearHistory rl n s)) = filter_mset (\<lambda>x. \<not> row_matches [LessThan ''happentime'' (RInt n)] x) (hash_rows rl (rpDb s))"
proof -
  obtain s1 where s1: "CheckDbStoreValid rl s = (True, s1)" "rpDb s1 = rpDb s" by (rule CheckDbStoreValid_works [OF assms])
  obtain d where d: "rlDelete rl REPEAT_TABLE (older_clause n) (rpDb s) = (E_OK, d)"
      "rdbVersion (rlRdb rl) d = rdbVersion (rlRdb rl) (rpDb s)"
      "rdbRows (rlRdb rl) d = (rdbRows (rlRdb rl) (rpDb s))(REPEAT_TABLE :=
         filter_mset (\<lambda>r. \<not> row_matches [LessThan ''happentime'' (RInt n)] r) (hash_rows rl (rpDb s)))"
    using repeat_lib_worksD(5) [OF assms(1)] by blast
  then have "rpDb (ClearHistory rl n s) = d" using s1 by (simp add: ClearHistory_def Let_def)
  then show "has_db rl (rpDb (ClearHistory rl n s))"
    "hash_rows rl (rpDb (ClearHistory rl n s)) = filter_mset (\<lambda>x. \<not> row_matches [LessThan ''happentime'' (RInt n)] x) (hash_rows rl (rpDb s))"
    using d(2,3) assms(2) by (simp_all add: has_db_def)
qed

section \<open>The guard as a map\<close>

definition repeated :: "bool \<Rightarrow> int \<Rightarrow> event_key \<Rightarrow> (event_key \<rightharpoonup> int) \<Rightarrow> bool" where
  "repeated beta now k packed = (case packed k of None \<Rightarrow> False | Some t \<Rightarrow> t > GetMinValidTime beta now)"

text \<open>
  Each event has the row of its last packing, except for events whose time is before \<open>b\<close>, whose row may have been cleared.
\<close>

definition key_tracked :: "'d repeat_lib \<Rightarrow> int \<Rightarrow> (event_key \<rightharpoonup> int) \<Rightarrow> 'd \<Rightarrow> event_key \<Rightarrow> bool" where
  "key_tracked rl b packed d k \<longleftrightarrow>
     (\<exists>t r. packed k = Some t \<and> 0 < t \<and> filter_mset (key_row k) (hash_rows rl d) = {#r#} \<and> row_time r t) \<or>
     filter_mset (key_row k) (hash_rows rl d) = {#} \<and> (\<forall>t. packed k = Some t \<longrightarrow> t < b)"

definition tracked :: "'d repeat_lib \<Rightarrow> int \<Rightarrow> (event_key \<rightharpoonup> int) \<Rightarrow> 'd repeat_db \<Rightarrow> bool" where
  "tracked rl b packed s \<longleftrightarrow> has_db rl (rpDb s) \<and> (\<forall>k. key_tracked rl b packed (rpDb s) k)"

lemma GetMinValidTime_mono: "a \<le> c \<Longrightarrow> GetMinValidTime beta a \<le> GetMinValidTime beta c"
  by (auto simp: GetMinValidTime_def Let_def)

lemma GetMinValidTime_less: "0 < a \<Longrightarrow> GetMinValidTime beta a < a"
  by (auto simp: GetMinValidTime_def Let_def TIME_RANGE_BETA_def TIME_RANGE_COMMERCIAL_def)

lemma tracked_mono: "tracked rl b packed s \<Longrightarrow> b \<le> b' \<Longrightarrow> tracked rl b' packed s"
  unfolding tracked_def key_tracked_def by (meson order_less_le_trans)

lemma tracked_db: "tracked rl b packed s \<Longrightarrow> rpDb s' = rpDb s \<Longrightarrow> tracked rl b packed s'"
  by (simp add: tracked_def)

lemma tracked_clear:
  assumes "repeat_lib_works rl" "tracked rl b packed s" "b \<le> n"
  shows "tracked rl n packed (ClearHistory rl n s)"
    "tracked rl b (\<lambda>k. case packed k of None \<Rightarrow> None | Some t \<Rightarrow> if t < n then None else Some t) (ClearHistory rl n s)"
proof -
  have db: "has_db rl (rpDb s)" using assms(2) by (simp add: tracked_def)
  note cl = ClearHistory_works [OF assms(1) db, of n]
  have f: "filter_mset (key_row k) (hash_rows rl (rpDb (ClearHistory rl n s))) =
      filter_mset (\<lambda>x. \<not> row_matches [LessThan ''happentime'' (RInt n)] x) (filter_mset (key_row k) (hash_rows rl (rpDb s)))" for k
    by (simp add: cl(2) filter_filter_mset conj_commute)
  have t: "row_matches [LessThan ''happentime'' (RInt n)] r \<longleftrightarrow> t < n" if "row_time r t" for r t
    using that by (simp add: row_matches_def row_time_def)
  have "key_tracked rl n packed (rpDb (ClearHistory rl n s)) k \<and>
      key_tracked rl b (\<lambda>k. case packed k of None \<Rightarrow> None | Some t \<Rightarrow> if t < n then None else Some t) (rpDb (ClearHistory rl n s)) k" for k
  proof -
    have "key_tracked rl b packed (rpDb s) k" using assms(2) unfolding tracked_def by blast
    then consider (row) u r where "packed k = Some u" "0 < u" "filter_mset (key_row k) (hash_rows rl (rpDb s)) = {#r#}" "row_time r u"
      | (gone) "filter_mset (key_row k) (hash_rows rl (rpDb s)) = {#}" "\<forall>t. packed k = Some t \<longrightarrow> t < b"
      unfolding key_tracked_def by blast
    then show ?thesis
    proof cases
      case row
      then show ?thesis using t [OF row(4)] by (cases "u < n") (simp_all add: key_tracked_def f)
    next
      case gone
      then show ?thesis using assms(3) unfolding key_tracked_def f gone(1) by (auto split: option.splits)
    qed
  qed
  then show "tracked rl n packed (ClearHistory rl n s)"
    "tracked rl b (\<lambda>k. case packed k of None \<Rightarrow> None | Some t \<Rightarrow> if t < n then None else Some t) (ClearHistory rl n s)"
    using cl(1) unfolding tracked_def by blast+
qed


lemma tracked_count: "tracked rl b packed (RefreshDbCount rl s) \<longleftrightarrow> tracked rl b packed s" if "repeat_lib_works rl"
  using RefreshDbCount_db(1) [OF that, of s] by (simp add: tracked_def)

lemma tracked_release [simp]: "tracked rl b packed (repeat_Release s) \<longleftrightarrow> tracked rl b packed s"
  by (simp add: tracked_def repeat_Release_def)

lemma tracked_insert:
  assumes "repeat_lib_works rl" "tracked rl b packed s" "filter_mset (key_row (key_of r)) (hash_rows rl (rpDb s)) = {#}" "0 < hrHappentime r"
  shows "tracked rl b (packed(key_of r \<mapsto> hrHappentime r)) (snd (repeat_Insert rl r s))"
proof -
  have db: "has_db rl (rpDb s)" using assms(2) by (simp add: tracked_def)
  obtain i where i: "has_db rl (rpDb (snd (repeat_Insert rl r s)))"
      "hash_rows rl (rpDb (snd (repeat_Insert rl r s))) = add_mset ([''domain'' \<mapsto> RText (hrDomain r), ''name'' \<mapsto> RText (hrName r),
       ''eventHash'' \<mapsto> RText (hrEventHash r), ''happentime'' \<mapsto> RInt (hrHappentime r), ''id'' \<mapsto> RInt i]) (hash_rows rl (rpDb s))"
    by (rule repeat_Insert_works [OF assms(1) db])
  define x where "x = [''domain'' \<mapsto> RText (hrDomain r), ''name'' \<mapsto> RText (hrName r),
       ''eventHash'' \<mapsto> RText (hrEventHash r), ''happentime'' \<mapsto> RInt (hrHappentime r), ''id'' \<mapsto> RInt i]"
  have x: "key_row (key_of r) x" "row_time x (hrHappentime r)"
    by (simp_all add: x_def key_row_def key_of_def row_time_def)
  have "key_tracked rl b (packed(key_of r \<mapsto> hrHappentime r)) (rpDb (snd (repeat_Insert rl r s))) k" for k
  proof (cases "k = key_of r")
    case True
    have "filter_mset (key_row (key_of r)) (hash_rows rl (rpDb (snd (repeat_Insert rl r s)))) = {#x#}"
      unfolding i(2) x_def [symmetric] by (subst filter_mset_add_mset) (simp only: x(1) assms(3) if_True)
    then show ?thesis unfolding key_tracked_def True using x(2) assms(4) by (intro disjI1 exI conjI) simp_all
  next
    case False
    then have "\<not> key_row k x" using key_row_unique x(1) by blast
    then have "filter_mset (key_row k) (hash_rows rl (rpDb (snd (repeat_Insert rl r s)))) = filter_mset (key_row k) (hash_rows rl (rpDb s))"
      unfolding i(2) x_def [symmetric] by (subst filter_mset_add_mset) (simp only: if_False)
    moreover have "key_tracked rl b packed (rpDb s) k" using assms(2) unfolding tracked_def by blast
    ultimately show ?thesis unfolding key_tracked_def using False by simp
  qed
  then show ?thesis using i(1) unfolding tracked_def by blast
qed

lemma tracked_update:
  assumes "repeat_lib_works rl" "tracked rl b packed s" "filter_mset (key_row (key_of r)) (hash_rows rl (rpDb s)) = {#x#}" "0 < hrHappentime r"
  shows "tracked rl b (packed(key_of r \<mapsto> hrHappentime r)) (snd (repeat_Update rl r s))"
proof -
  have db: "has_db rl (rpDb s)" using assms(2) by (simp add: tracked_def)
  note up = repeat_Update_works [OF assms(1) db, of r]
  define g where "g x = (if key_row (key_of r) x then x(''happentime'' \<mapsto> RInt (hrHappentime r)) else x)" for x
  have kg: "key_row k (g x) = key_row k x" for k x by (simp add: g_def key_row_def)
  have f: "filter_mset (key_row k) (hash_rows rl (rpDb (snd (repeat_Update rl r s)))) =
      image_mset g (filter_mset (key_row k) (hash_rows rl (rpDb s)))" for k
    unfolding up(2) g_def [abs_def, symmetric] by (simp add: filter_mset_image_mset kg)
  have "key_tracked rl b (packed(key_of r \<mapsto> hrHappentime r)) (rpDb (snd (repeat_Update rl r s))) k" for k
  proof (cases "k = key_of r")
    case True
    have "x \<in># filter_mset (key_row (key_of r)) (hash_rows rl (rpDb s))" unfolding assms(3) by simp
    then have "row_time (g x) (hrHappentime r)" by (simp add: g_def row_time_def)
    moreover have "filter_mset (key_row k) (hash_rows rl (rpDb (snd (repeat_Update rl r s)))) = {#g x#}"
      unfolding f True assms(3) by simp
    ultimately show ?thesis unfolding key_tracked_def using True assms(4) by (intro disjI1 exI conjI) simp_all
  next
    case False
    have "image_mset g (filter_mset (key_row k) M) = filter_mset (key_row k) M" for M
      by (rule image_mset_cong [of _ g id, simplified]) (use False key_row_unique [of k _ "key_of r"] in \<open>auto simp: g_def\<close>)
    moreover have "key_tracked rl b packed (rpDb s) k" using assms(2) unfolding tracked_def by blast
    ultimately show ?thesis unfolding key_tracked_def f using False by simp
  qed
  then show ?thesis using up(1) unfolding tracked_def by blast
qed

text \<open>One check of an event with an identifier.\<close>

lemma IsEventRepeat_refines:
  assumes "repeat_lib_works rl" "tracked rl b packed s" "b \<le> GetMinValidTime beta (fst now)" "0 < fst now" "fst now \<le> snd now"
    "GetEventUniqueId sha e = Some (Some h)"
  defines "k \<equiv> (feDomain e, feName e, h)"
  obtains s' where "IsEventRepeat rl sha beta now e s = Some (repeated beta (fst now) k packed, s')"
    "tracked rl (GetMinValidTime beta (fst now)) (if repeated beta (fst now) k packed then packed else packed(k \<mapsto> snd now)) s'"
proof -
  let ?m = "GetMinValidTime beta (fst now)"
  define r where "r = \<lparr>hrDomain = feDomain e, hrName = feName e, hrEventHash = h, hrHappentime = 0\<rparr>"
  define r1 where "r1 = r\<lparr>hrHappentime := snd now\<rparr>"
  have k: "key_of r = k" "key_of r1 = k" and pos: "0 < hrHappentime r1"
    using assms(4,5) by (simp_all add: r_def r1_def k_def key_of_def)
  have m0: "0 \<le> ?m" by (simp add: GetMinValidTime_def Let_def)
  obtain t s1 where q: "QueryHappentime rl r s = (t, s1)" by fastforce
  have db: "has_db rl (rpDb s)" using assms(2) by (simp add: tracked_def)
  note qw = QueryHappentime_works [OF assms(1) db q, unfolded k]
  have t1: "tracked rl ?m packed s1" using tracked_db [OF tracked_mono [OF assms(2,3)] qw(1)] .
  have ev: "IsEventRepeat rl sha beta now e s =
      (if t > ?m then Some (True, repeat_Release s1)
       else if t > 0 then Some (False, repeat_Release (snd (repeat_Update rl r1 s1)))
       else Some (False, repeat_Release (CheckAndClearDb rl ?m (snd (repeat_Insert rl r1 s1)))))"
    using assms(6) q by (simp add: IsEventRepeat_def Let_def r_def r1_def)
  have "key_tracked rl b packed (rpDb s) k" using assms(2) unfolding tracked_def by blast
  then consider (row) u x where "packed k = Some u" "0 < u" "filter_mset (key_row k) (hash_rows rl (rpDb s)) = {#x#}" "row_time x u"
    | (gone) "filter_mset (key_row k) (hash_rows rl (rpDb s)) = {#}" "\<forall>t. packed k = Some t \<longrightarrow> t < b"
    unfolding key_tracked_def by blast
  then show thesis
  proof cases
    case row
    have t: "t = u" by (rule qw(3) [OF row(3,4)])
    have up: "tracked rl ?m (packed(k \<mapsto> snd now)) (snd (repeat_Update rl r1 s1))"
      using tracked_update [OF assms(1) t1 _ pos, unfolded k, OF row(3) [folded qw(1)]] by (simp add: r1_def)
    show thesis using that row(1,2) t t1 up unfolding ev by (cases "?m < u") (simp_all add: repeated_def)
  next
    case gone
    have t: "t = 0" by (rule qw(2) [OF gone(1)])
    have rep: "\<not> repeated beta (fst now) k packed"
      using gone(2) assms(3) by (auto simp: repeated_def split: option.splits)
    have ins: "tracked rl ?m (packed(k \<mapsto> snd now)) (snd (repeat_Insert rl r1 s1))"
      using tracked_insert [OF assms(1) t1 _ pos, unfolded k, OF gone(1) [folded qw(1)]] by (simp add: r1_def)
    have "tracked rl ?m (packed(k \<mapsto> snd now)) (CheckAndClearDb rl ?m (snd (repeat_Insert rl r1 s1)))"
      using ins tracked_clear(1) [OF assms(1) ins order_refl] by (simp add: CheckAndClearDb_def tracked_count [OF assms(1)])
    then show thesis using that rep t m0 unfolding ev by simp
  qed
qed

section \<open>Runs\<close>

text \<open>What happens to the guard: a check of an event, with the two readings of the clock, and a change of the switch.\<close>

datatype repeat_op = CheckOp "int \<times> int" fault_event | SwitchOp int string

fun guard_step :: "'d repeat_lib \<Rightarrow> (byte list \<Rightarrow> byte list) \<Rightarrow> bool \<Rightarrow> repeat_op \<Rightarrow> 'd repeat_db \<Rightarrow> (u8 list \<times> 'd repeat_db) option" where
  "guard_step rl sha beta (CheckOp now e) s = map_option (\<lambda>(e', s'). ([feLog e'], s')) (Check_event rl sha beta now e s)"
| "guard_step rl sha beta (SwitchOp n val) s = Some ([], UeSwitch_callback rl n val s)"

fun guard_run :: "'d repeat_lib \<Rightarrow> (byte list \<Rightarrow> byte list) \<Rightarrow> bool \<Rightarrow> repeat_op list \<Rightarrow> 'd repeat_db \<Rightarrow> (u8 list \<times> 'd repeat_db) option" where
  "guard_run rl sha beta [] s = Some ([], s)"
| "guard_run rl sha beta (op # ops) s =
     (case guard_step rl sha beta op s of
        None \<Rightarrow> None
      | Some (logs, s1) \<Rightarrow> map_option (\<lambda>(logs', s2). (logs @ logs', s2)) (guard_run rl sha beta ops s1))"

text \<open>The same on the map.\<close>

fun packed_step :: "(byte list \<Rightarrow> byte list) \<Rightarrow> bool \<Rightarrow> repeat_op \<Rightarrow> (event_key \<rightharpoonup> int) \<Rightarrow> u8 list \<times> (event_key \<rightharpoonup> int)" where
  "packed_step sha beta (CheckOp now e) packed =
     (if feType e \<noteq> 1 then ([feLog e], packed)
      else case GetEventUniqueId sha e of
             Some (Some h) \<Rightarrow>
               (let k = (feDomain e, feName e, h) in
                if repeated beta (fst now) k packed then ([33], packed) else ([1], packed(k \<mapsto> snd now)))
           | x \<Rightarrow> ([1], packed))"
| "packed_step sha beta (SwitchOp n val) packed =
     ([], if val = ''1'' then (\<lambda>k. case packed k of None \<Rightarrow> None | Some t \<Rightarrow> if t < n then None else Some t) else packed)"

fun packed_run :: "(byte list \<Rightarrow> byte list) \<Rightarrow> bool \<Rightarrow> repeat_op list \<Rightarrow> (event_key \<rightharpoonup> int) \<Rightarrow> u8 list \<times> (event_key \<rightharpoonup> int)" where
  "packed_run sha beta [] packed = ([], packed)"
| "packed_run sha beta (op # ops) packed =
     (case packed_step sha beta op packed of
        (logs, packed1) \<Rightarrow> (case packed_run sha beta ops packed1 of (logs', packed2) \<Rightarrow> (logs @ logs', packed2)))"

text \<open>The clock does not go back, and no event has a block that ends before the size it names.\<close>

fun repeat_ops_ok :: "(byte list \<Rightarrow> byte list) \<Rightarrow> int \<Rightarrow> repeat_op list \<Rightarrow> bool" where
  "repeat_ops_ok sha c [] \<longleftrightarrow> True"
| "repeat_ops_ok sha c (CheckOp now e # ops) \<longleftrightarrow> 0 < fst now \<and> c \<le> fst now \<and> fst now \<le> snd now \<and>
     GetEventUniqueId sha e \<noteq> None \<and> repeat_ops_ok sha (snd now) ops"
| "repeat_ops_ok sha c (SwitchOp n val # ops) \<longleftrightarrow> c \<le> n \<and> repeat_ops_ok sha n ops"

lemma Check_event_refines:
  assumes "repeat_lib_works rl" "tracked rl (GetMinValidTime beta c) packed s" "repeat_ops_ok sha c [CheckOp now e]"
  obtains s' where "guard_step rl sha beta (CheckOp now e) s = Some (fst (packed_step sha beta (CheckOp now e) packed), s')"
    "tracked rl (GetMinValidTime beta (snd now)) (snd (packed_step sha beta (CheckOp now e) packed)) s'"
proof -
  have le: "GetMinValidTime beta c \<le> GetMinValidTime beta (fst now)" "GetMinValidTime beta (fst now) \<le> GetMinValidTime beta (snd now)"
    using assms(3) by (auto intro: GetMinValidTime_mono)
  have tr: "tracked rl (GetMinValidTime beta (snd now)) packed s" by (rule tracked_mono [OF assms(2) order_trans [OF le]])
  consider (other) "feType e \<noteq> 1 \<or> GetEventUniqueId sha e = Some None" | (known) h where "feType e = 1" "GetEventUniqueId sha e = Some (Some h)"
    using assms(3) by (cases "GetEventUniqueId sha e") force+
  then show thesis
  proof cases
    case other
    then show thesis using that [of s] tr by (auto simp: Check_event_def IsEventRepeat_def LOG_ALLOW_PACK_def LOG_PACKED_def)
  next
    case known
    let ?k = "(feDomain e, feName e, h)"
    obtain s' where s': "IsEventRepeat rl sha beta now e s = Some (repeated beta (fst now) ?k packed, s')"
        "tracked rl (GetMinValidTime beta (fst now)) (if repeated beta (fst now) ?k packed then packed else packed(?k \<mapsto> snd now)) s'"
      using IsEventRepeat_refines [OF assms(1,2) le(1) _ _ known(2)] assms(3) by (metis repeat_ops_ok.simps(2))
    show thesis
      using that [of s'] known s'(1) tracked_mono [OF s'(2) le(2)]
      by (cases "repeated beta (fst now) ?k packed")
        (simp_all add: Check_event_def LOG_ALLOW_PACK_def LOG_PACKED_def LOG_NOT_ALLOW_PACK_def LOG_REPEAT_def)
  qed
qed

lemma UeSwitch_refines:
  assumes "repeat_lib_works rl" "tracked rl (GetMinValidTime beta c) packed s" "0 \<le> c" "c \<le> n"
  shows "tracked rl (GetMinValidTime beta n) (snd (packed_step sha beta (SwitchOp n val) packed)) (UeSwitch_callback rl n val s)"
proof -
  have "GetMinValidTime beta c \<le> n" using GetMinValidTime_less [of c beta] assms(3,4) by (cases "c = 0") (auto simp: GetMinValidTime_def Let_def TIME_RANGE_BETA_def TIME_RANGE_COMMERCIAL_def)
  from tracked_clear(2) [OF assms(1,2) this]
  have "tracked rl (GetMinValidTime beta c) (snd (packed_step sha beta (SwitchOp n val) packed)) (UeSwitch_callback rl n val s)"
    using assms(2) by (simp add: UeSwitch_callback_def repeat_Clear_def tracked_count [OF assms(1)])
  then show ?thesis using GetMinValidTime_mono [OF assms(4)] by (rule tracked_mono)
qed

lemma guard_run_refines:
  assumes "repeat_lib_works rl" "tracked rl (GetMinValidTime beta c) packed s" "0 \<le> c" "repeat_ops_ok sha c (ops @ ops')"
  shows "\<exists>s' c'. guard_run rl sha beta ops s = Some (fst (packed_run sha beta ops packed), s') \<and>
    tracked rl (GetMinValidTime beta c') (snd (packed_run sha beta ops packed)) s' \<and> 0 \<le> c' \<and> repeat_ops_ok sha c' ops'"
  using assms(2-)
proof (induction ops arbitrary: c packed s)
  case (Cons op ops)
  show ?case
  proof (cases op)
    case (CheckOp now e)
    obtain s' where s': "guard_step rl sha beta op s = Some (fst (packed_step sha beta op packed), s')"
        "tracked rl (GetMinValidTime beta (snd now)) (snd (packed_step sha beta op packed)) s'"
      using Check_event_refines [OF assms(1) Cons.prems(1), of sha now e] Cons.prems(3) unfolding CheckOp by auto
    have "0 \<le> snd now" "repeat_ops_ok sha (snd now) (ops @ ops')" using Cons.prems(3) CheckOp by auto
    from Cons.IH [OF s'(2) this] show ?thesis using s'(1) by (auto simp: case_prod_beta)
  next
    case (SwitchOp n val)
    note t = UeSwitch_refines [OF assms(1) Cons.prems(1,2), of n sha val]
    have "c \<le> n" "0 \<le> n" "repeat_ops_ok sha n (ops @ ops')" using Cons.prems(2,3) SwitchOp by auto
    from Cons.IH [OF t [OF this(1)] this(2,3)] show ?thesis using SwitchOp by (auto simp: case_prod_beta)
  qed
qed auto

text \<open>An empty database holds no packed event.\<close>

lemma tracked_empty: "has_db rl (rpDb s) \<Longrightarrow> hash_rows rl (rpDb s) = {#} \<Longrightarrow> tracked rl b Map.empty s"
  by (simp add: tracked_def key_tracked_def)

lemma packed_run_append:
  "packed_run sha beta (ops @ ops') packed =
     (fst (packed_run sha beta ops packed) @ fst (packed_run sha beta ops' (snd (packed_run sha beta ops packed))),
      snd (packed_run sha beta ops' (snd (packed_run sha beta ops packed))))"
  by (induction ops arbitrary: packed) (simp_all add: case_prod_beta)

lemma repeat_ops_ok_pos: "repeat_ops_ok sha c (xs @ CheckOp now e # ys) \<Longrightarrow> 0 < fst now \<and> 0 < snd now"
  by (induction sha c xs rule: repeat_ops_ok.induct) auto

section \<open>Packed events\<close>

definition no_switch :: "repeat_op \<Rightarrow> bool" where
  "no_switch op \<longleftrightarrow> (case op of CheckOp now e \<Rightarrow> True | SwitchOp n val \<Rightarrow> val \<noteq> ''1'')"

text \<open>Until its time is over, an event stays packed at the same time.\<close>

lemma packed_kept:
  assumes "packed k = Some t" "GetMinValidTime beta (fst now) < t" "repeat_ops_ok sha c (ops @ [CheckOp now e])" "list_all no_switch ops"
  shows "snd (packed_run sha beta ops packed) k = Some t"
  using assms
proof (induction ops arbitrary: c packed)
  case (Cons op ops)
  have le: "GetMinValidTime beta (fst n) \<le> GetMinValidTime beta (fst now)" if "op = CheckOp n x" for n x
  proof (rule GetMinValidTime_mono)
    have "c' \<le> fst now" if "repeat_ops_ok sha c' (os @ [CheckOp now e])" for c' os
      using that by (induction sha c' os rule: repeat_ops_ok.induct) auto
    from this [of "snd n" ops] show "fst n \<le> fst now" using Cons.prems(3) that by auto
  qed
  have "snd (packed_step sha beta op packed) k = Some t"
    using Cons.prems(1,2,4) le by (cases op) (fastforce simp: no_switch_def repeated_def Let_def split: option.splits)+
  moreover obtain c' where "repeat_ops_ok sha c' (ops @ [CheckOp now e])" using Cons.prems(3) by (cases op) auto
  ultimately show ?case using Cons.IH Cons.prems(2,4) by (auto simp: case_prod_beta)
qed simp

section \<open>Identifier of a block\<close>

lemma sint_small: "n < 2 ^ 31 \<Longrightarrow> sint (word_of_nat n :: 32 word) = int n"
  by (simp add: sint_uint signed_take_bit_eq_if_positive bit_iff_odd uint_nat unat_of_nat take_bit_eq_mod)

text \<open>What is hashed of a block are its parameters; a block with none has no hash.\<close>

lemma GetShaStr_block:
  assumes "header_ok h" "4 + length (block_tail h tr ps) < 2 ^ 31"
  shows "GetShaStr sha (block_bytes h tr ps @ rest) =
    Some (if params_bytes ps = [] then None else Some (ConvertToString (sha (params_bytes ps))))"
proof -
  let ?n = "4 + length (block_tail h tr ps)"
  define ht where "ht = u32_bytes (word_of_nat ?n) @ header_bytes h @ (if hdIsTraceOpened h = 1 then trace_bytes tr else []) @
    u32_bytes (word_of_nat (length ps))"
  have raw: "block_bytes h tr ps = ht @ params_bytes ps" by (simp add: ht_def block_bytes_def block_tail_def)
  have n: "length ht + length (params_bytes ps) = ?n" using length_block_bytes [of h tr ps] raw by simp
  have sz: "sint (u32_of_bytes (take 4 (block_bytes h tr ps @ rest))) = int ?n"
  proof -
    have "u32_of_bytes (take 4 (block_bytes h tr ps @ rest)) = word_of_nat ?n" by (simp add: block_bytes_def)
    then show ?thesis using assms(2) sint_small [of ?n] by simp
  qed
  have hd: "header_of_bytes (drop 4 (block_bytes h tr ps @ rest)) = h"
    using header_of_header_bytes [OF assms(1)] by (simp add: block_bytes_def block_tail_def)
  have pos: "length ht = 4 + SIZEOF_HEADER + (if hdIsTraceOpened h = 1 then SIZEOF_TRACE_INFO else 0) + 4"
    using length_header_bytes [OF assms(1)] by (simp add: ht_def)
  have "EventRawDataInfo (block_bytes h tr ps @ rest) = Some (int ?n, length ht)"
    using n unfolding EventRawDataInfo_def Let_def sz hd pos by (simp add: length_block_bytes)
  moreover have "drop (length ht) (take ?n (block_bytes h tr ps @ rest)) = params_bytes ps"
    unfolding raw n [symmetric] by simp
  moreover have "int ?n \<le> int (length ht) \<longleftrightarrow> params_bytes ps = []" unfolding n [symmetric] by simp
  moreover have "\<not> length (block_bytes h tr ps @ rest) < ?n" by (simp add: length_block_bytes)
  ultimately show ?thesis unfolding GetShaStr_def CalcBufferSha_def by (simp del: drop_take of_nat_add)
qed

end
