(* ===== verification/Repeat_Samples.thy ===== *)
theory Repeat_Samples
  imports Repeat_Facts Event_Db_File
begin

text \<open>A database of lists for the guard, and events for it.\<close>

section \<open>Database of lists\<close>

definition clause_bound :: "string \<Rightarrow> int" where
  "clause_bound s =
     (let t = drop 13 s in if t \<noteq> [] \<and> hd t = CHR ''-'' then - int (read_digits 10 0 (tl t)) else int (read_digits 10 0 t))"

definition list_repeat_lib :: "list_db repeat_lib" where
  "list_repeat_lib = \<lparr>
     rlRdb = list_rdb,
     rlQuery = (\<lambda>t ps cols d.
       case filter (\<lambda>r. row_matches ps (map_of r)) (ld_rows d t) of
         [] \<Rightarrow> Some (Inl E_ERROR)
       | r # rs \<Rightarrow> Some (Inr (map (map_of r) cols))),
     rlCount = (\<lambda>sql d. Some (Inr [Some (RInt (int (length (ld_rows d REPEAT_TABLE))))])),
     rlDelete = (\<lambda>t clause d. (E_OK,
       ld_put t (filter (\<lambda>r. \<not> row_matches [LessThan ''happentime'' (RInt (clause_bound clause))] (map_of r)) (ld_rows d t)) d)),
     rlDbDir = ''/data/log/hiview/sys_event_db/''\<rparr>"

lemma clause_bound_older [simp]: "clause_bound (older_clause n) = n"
proof -
  have d: "drop 13 (older_clause n) = show_int n" by (simp add: older_clause_def)
  have r: "read_digits 10 0 (show_nat m) = m" for m by (simp add: show_nat_def read_digits_show_base)
  have "hd (show_nat m) \<noteq> CHR ''-''" for m
  proof -
    have "show_nat m \<noteq> []" unfolding show_nat_def by (subst show_base.simps) simp
    then have "is_digit (hd (show_nat m))" using show_nat_no_space by (meson hd_in_set)
    then show ?thesis by (auto simp: is_digit_def)
  qed
  then show ?thesis unfolding clause_bound_def d by (auto simp: show_int_def r)
qed

lemma list_repeat_lib_works: "repeat_lib_works list_repeat_lib"
proof -
  have f: "filter_mset P (image_mset map_of (mset rs)) = image_mset map_of (mset (filter (\<lambda>r. P (map_of r)) rs))"
    for P and rs :: "bucket list"
    by (induction rs) simp_all
  have q: "let m = filter_mset (row_matches ps) (rdbRows list_rdb d t) in
        (m = {#} \<longrightarrow> rlQuery list_repeat_lib t ps cols d = Some (Inl E_ERROR)) \<and>
        (m \<noteq> {#} \<longrightarrow> (\<exists>r \<in># m. rlQuery list_repeat_lib t ps cols d = Some (Inr (map r cols))))" for t ps cols d
  proof -
    have m: "filter_mset (row_matches ps) (rdbRows list_rdb d t) = image_mset map_of (mset (filter (\<lambda>r. row_matches ps (map_of r)) (ld_rows d t)))"
      unfolding f [symmetric] by (simp add: list_rdb_def)
    show ?thesis
      unfolding Let_def m by (cases "filter (\<lambda>r. row_matches ps (map_of r)) (ld_rows d t)") (simp_all add: list_repeat_lib_def)
  qed
  show ?thesis
    unfolding repeat_lib_works_def
  proof (intro conjI allI)
    fix t ps cols d
    show "let m = filter_mset (row_matches ps) (rdbRows (rlRdb list_repeat_lib) d t) in
        (m = {#} \<longrightarrow> rlQuery list_repeat_lib t ps cols d = Some (Inl E_ERROR)) \<and>
        (m \<noteq> {#} \<longrightarrow> (\<exists>r \<in># m. rlQuery list_repeat_lib t ps cols d = Some (Inr (map r cols))))"
      using q [of ps d t cols] by (simp add: list_repeat_lib_def)
  next
    show "rdb_works (rlRdb list_repeat_lib)" by (simp add: list_repeat_lib_def)
  next
    fix n d
    have "rlDelete list_repeat_lib REPEAT_TABLE (older_clause n) d =
        rdbDelete list_rdb REPEAT_TABLE [LessThan ''happentime'' (RInt n)] d"
      by (simp add: list_repeat_lib_def list_rdb_def)
    then show "\<exists>d'. rlDelete list_repeat_lib REPEAT_TABLE (older_clause n) d = (E_OK, d') \<and>
        rdbVersion (rlRdb list_repeat_lib) d' = rdbVersion (rlRdb list_repeat_lib) d \<and>
        rdbRows (rlRdb list_repeat_lib) d' = (rdbRows (rlRdb list_repeat_lib) d)(REPEAT_TABLE :=
          filter_mset (\<lambda>r. \<not> row_matches [LessThan ''happentime'' (RInt n)] r) (rdbRows (rlRdb list_repeat_lib) d REPEAT_TABLE))"
      using rdb_works_delete [OF list_rdb_works] by (simp add: list_repeat_lib_def)
  qed (simp_all add: list_repeat_lib_def list_rdb_def)
qed

section \<open>Samples\<close>

definition repeat_db_sample :: "list_db repeat_db" where
  "repeat_db_sample = SysEventRepeatDb list_repeat_lib \<lparr>ldTables = [], ldNext = 0, ldVersions = []\<rparr>"

definition crash_sample :: "fault_event" where
  "crash_sample = \<lparr>feDomain = ''AAFWK'', feName = ''JS_ERROR'', feType = 1, feFingerprint = ''a1b2'', feRaw = None, feLog = 0\<rparr>"

lemma repeat_db_sample_ok:
  "has_db list_repeat_lib (rpDb repeat_db_sample)" "hash_rows list_repeat_lib (rpDb repeat_db_sample) = {#}"
  by (simp_all add: repeat_db_sample_def SysEventRepeatDb_def InitDbStore_def RefreshDbCount_def list_repeat_lib_def list_rdb_def
      repeat_OnCreate_def repeat_path_def has_db_def ld_rows_def)

end
