(* ===== verification/Spec2Isabelle.thy ===== *)
theory Spec2Isabelle
  imports Event_Raw_Facts Json_Builder_Parser Trace_Runs Doc_Events Backup_Samples App_Capture Pipeline_Runs Platform_Facts Repeat_Samples
begin

text \<open>
  \<^bold>\<open>Verification of Hiview.\<close>

  Hiview is the maintenance service of OpenHarmony. Processes report system events; Hiview decodes
  them, dispatches them to plugins, stores them, and collects traces and logs. This
  development models its cores: the codec of system events (src/base/event_raw), through which
  every event enters, is changed and leaves, the pipelines and the dispatch to plugins and listeners (src/base, src/core), the event
  store (src/base/event_store), and the trace manager (src/framework/native/unified_collection), the state machine and the quotas
  by which every component of Hiview opens, dumps and closes kernel traces.

  \<^bold>\<open>The event codec.\<close> An event is a block of bytes: its length, a packed header, an optional trace
  record, a parameter count and the parameters.
  \<^item> \<open>Hiview_Prelude\<close>: words, bytes, the allocator as a parameter, number printing.
  \<^item> \<open>Raw_Data\<close>: \<open>RawData\<close> (base/raw_data.cpp), a growing buffer whose allocation can fail; live
    buffers, all-or-nothing updates.
  \<^item> \<open>Raw_Base_Def\<close>: the packed header and trace record as their byte images, type codes and
    time zones (base/raw_data_base_def.cpp, include/base/raw_data_base_def.h).
  \<^item> \<open>Raw_Codec\<close>: the encoders and decoders of single values (raw_data_encoder, raw_data_decoder). A
    decoder returns a value and a position, a failure, or the undefined behaviour it runs into (a read outside
    of the buffer, a shift by 64 or more).
  \<^item> \<open>Value_Codec\<close>: the locale \<open>value_codec\<close> of a value class that is encoded and decoded, its
    arrays, and its interpretations for unsigned, signed, floating point and string values.
  \<^item> \<open>Cpp_Text\<close>: the conversions of the C++ library between numbers and text that the sources use.
  \<^item> \<open>Encoded_Param\<close>, \<open>Decoded_Event\<close>: parameters, parsing of a block, and its JSON text.
  \<^item> \<open>Raw_Data_Builder\<close>: \<open>RawDataBuilder\<close>, with the locale \<open>keyed_store\<close> for its parameters;
    \<open>Builder_Runs\<close>: builders reachable by its operations; \<open>Event_Raw_Facts\<close>: facts over both directions.
  \<^item> \<open>Json_Builder_Parser\<close>: \<open>RawDataBuilderJsonParser\<close>, the automaton that fills a builder from JSON.

  \<^bold>\<open>The trace manager.\<close>
  \<^item> \<open>Trace_Common\<close>: scenarios, levels, results (trace_common.h), and the world outside: the Hitrace
    library as a record of functions over its state, clocks, and the log of callback calls.
  \<^item> \<open>Telemetry_Machine\<close>: the inner machine of a telemetry task (telemetry_state_machine.cpp), a
    count of holders and a deadline; runs over lists of requests and passing time.
  \<^item> \<open>Trace_States\<close>: the states and their methods (state/*.cpp) and the transitions they make.
  \<^item> \<open>Trace_State_Machine\<close>: \<open>TraceStateMachine\<close> with its switches and \<open>RefreshState\<close>;
    \<open>Trace_Runs\<close>: the step relation over all public operations, reachable states, invariants.

  \<^bold>\<open>The event store.\<close> Stored events are documents: binary files with a header, pages of content
  blocks, and a name that says which events are inside.
  \<^item> \<open>String_Util\<close>: the text utilities (base/utility/string_util.cpp).
  \<^item> \<open>File_Stream\<close>: what the sources use of \<open>std::ifstream\<close>, and integers at their widths.
  \<^item> \<open>Doc_Format\<close>: the packed structures of a document (include/base_def.h); \<open>Content_Reader\<close>: the
    readers of the four versions of the format (utility/reader/content_reader*.cpp).
  \<^item> \<open>Event_Db_File\<close>: names of documents and what is parsed from them (utility/base).
  \<^item> \<open>Doc_Query\<close>: numbers, doubles, values and conditions of queries (dao/sys_event_query.cpp,
    dao/doc_query.cpp).
  \<^item> \<open>Doc_Reader\<close>, \<open>Doc_Writer\<close>: \<open>SysEventDocReader\<close> and \<open>SysEventDocWriter\<close>; the page loop is a
    \<open>partial_function\<close>, and it is proved to return.
  \<^item> \<open>Doc_Layout\<close>, \<open>Doc_Events\<close>: the layout that runs of writes leave, that reading delivers each
    written block once and in order, and what a query makes of each.
  \<^item> \<open>File_System\<close>: a file system of files and directories with permissions as parameters, and what the
    store uses of base/utility/file_util.cpp; c_utils is a parameter with its documented laws.
  \<^item> \<open>Doc_Store\<close>: the store configuration and \<open>SysEventDoc\<close> (store/sys_event_doc.cpp), which chooses or
    makes the current file of an event; \<open>Lru_Cache\<close>: the cache of open documents, with the contract
    \<open>keyed_cache\<close> that insertion relies on.
  \<^item> \<open>Event_Database\<close>: insertion, choice of files and queries of \<open>SysEventDatabase\<close>, and
    \<open>SysEventQuery::Execute\<close>; \<open>Db_Clear\<close>: quotas and clearing, and priority queues by the contract
    \<open>key_order\<close> of their comparison.
  \<^item> \<open>Doc_Store_Facts\<close>, \<open>Database_Facts\<close>, \<open>Database_Runs\<close>, \<open>Database_Query\<close>: the invariant of the store
    over all its files, that each operation keeps it, and what a query over all files delivers;
    \<open>Doc_Store_Live\<close>, \<open>Doc_Sizes\<close>: that insertions succeed and how far files grow; \<open>Query_Results\<close>:
    the chosen files and the result set; \<open>Store_Samples\<close>: a small store for evaluations.
  \<^item> \<open>Sequence_Manager\<close>: the numbering of events and its two files; \<open>Event_Backup\<close>: backup, restore and
    archives. Both return every state of the file system on their way. \<open>Sequence_Facts\<close>,
    \<open>Backup_Facts\<close>, \<open>Backup_Restore\<close>: what holds in all of these states; \<open>Backup_Samples\<close>: a library
    of archives for evaluations.

  \<^bold>\<open>Trace quotas.\<close> A dump for a caller is limited by the day.
  \<^item> \<open>Rdb_Store\<close>: the relational database as a record of functions with the laws \<open>rdb_works\<close>, the store that
    restores a corrupt one (base/utility/restorable_db_store.cpp), the JSON and SQL helpers, and a database of
    lists that obeys the laws.
  \<^item> \<open>Trace_Storage\<close>: the tables of the trace manager and the classes over them (trace_manager/storage);
    \<open>float\<close> arithmetic is rounding to 24 bits.
  \<^item> \<open>Trace_Strategy\<close>: \<open>TraceFlowController\<close>, the strategies of a dump and their factory
    (collector/impl/trace/strategy), over the trace machine and the storages.
  \<^item> \<open>Quota_Facts\<close>: the record of a caller in the table, and what storing and loading do to it; \<open>Quota_Runs\<close>: runs
    of dumps of all callers on a day and the invariant on what was uploaded; \<open>App_Capture\<close>: the captures of
    apps; \<open>Quota_Samples\<close>: a device for evaluations.

  \<^bold>\<open>Repeated faults.\<close> A fault event that was packed a short time ago is not packed again.
  \<^item> \<open>Repeat_Guard\<close>: \<open>SysEventRepeatGuard\<close> and its database of hashes \<open>SysEventRepeatDb\<close> (base/event_store/store); the
    relational database and SHA-256 are parameters, the readings of the clock are arguments. \<open>Repeat_Facts\<close>: the database
    as a map from events to the time of their last packing, over all runs; \<open>Repeat_Samples\<close>: a database of lists.

  \<^bold>\<open>Pipelines and the platform.\<close> Events pass through pipelines of plugins or are broadcast to listeners.
  \<^item> \<open>Pipeline\<close>: events, pipelines (base/pipeline.cpp) and \<open>Plugin::OnEventProxy\<close>; the calls that different threads make
    for one event are tasks of a step relation. \<open>OnContinue\<close> itself is one step: its accesses to the list of processors
    are not protected by a lock. \<open>Pipeline_Runs\<close>: the invariant of a run, its end, and the race of a resumed event.
  \<^item> \<open>Plugin_Platform\<close>: dispatch rules and their files (base/dispatch_rule_parser.cpp), the listeners, dispatchers and
    pipelines of \<open>HiviewPlatform\<close> (core/hiview_platform.cpp), the queue of broadcast events and the routing of the
    event source; \<open>Platform_Facts\<close>: what a list of registrations means, sorted maps, the invariant of the pipelines.
  \<^bold>\<open>Parameters and hypotheses.\<close> The allocator (\<open>alloc_sized\<close>: a block has the size asked for;
  \<open>alloc_total\<close>: memory does not run out) and Hitrace (\<open>hitrace_works\<close>: closing, opening and recording succeed;
  \<open>status_works\<close>: the trace can be switched) are arguments. The theorems name the hypotheses they
  use; the theorems on failures use none. Every public operation of the trace manager holds one
  mutex, so runs are sequences of whole operations.

  \<^bold>\<open>Bounds.\<close> Sizes are natural numbers where the code cannot reach 64 bits (blocks are at most
  \<open>MAX_BLOCK_SIZE\<close>), and words where wrap-around is possible (the holder count, deadlines, additions of
  decoded lengths). The decoding loops terminate by measures; \<open>EXPONENT_FUEL\<close> (400) exceeds
  the decimal exponents of doubles (from -324 to 308).

  \<^bold>\<open>Not modelled.\<close> Logging; threads and the mutexes themselves; the event loop, plugin loading, the
  collectors, detectors and reporters of the plugins directory, which mostly read and write files,
  databases and other processes. The manifest lists them one by one.
\<close>

section \<open>The event codec\<close>

text \<open>C1. Whatever a builder went through, \<open>Build\<close> writes a block that \<open>DecodedEvent\<close> accepts and
  that gives back the header, the trace record when one was set, and every parameter with its
  key, its class and its value, in order; the builder itself is unchanged.\<close>

theorem build_decode_roundtrip:
  assumes "alloc_sized al" "alloc_total al" "reachable_builder al b"
    and "length (builder_block b) \<le> MAX_BLOCK_SIZE" "GetParamCnt b \<le> MAX_PARAM_CNT"
  shows "\<exists>rd ev. Build al b = (Some rd, b) \<and>
    DecodedEvent al (RawData_GetData rd) (RawData_GetDataLength rd) = Inr ev \<and>
    DecodedEvent_IsValid ev \<and> deHeader ev = rbHeader b \<and>
    deTrace ev = (if hdIsTraceOpened (rbHeader b) = 1 then rbTrace b else zero_trace) \<and>
    map entry_of (deParams ev) = map (\<lambda>(k, v). (k, view_value v)) (entries_of b)"
  using Build_decode [OF assms(1,2) reachable_builder_ok [OF assms(1,3)] assms(4,5)]
  by (metis DecodedEvent_IsValid_def)

theorem build_decode_roundtrip_witness:
  "\<exists>rd ev. Build zero_alloc (append_new zero_alloc ''K'' (UnsignedVal 7) (RawDataBuilder_named ''D'' ''N'' 1)) =
      (Some rd, append_new zero_alloc ''K'' (UnsignedVal 7) (RawDataBuilder_named ''D'' ''N'' 1)) \<and>
    DecodedEvent zero_alloc (RawData_GetData rd) (RawData_GetDataLength rd) = Inr ev \<and>
    DecodedEvent_IsValid ev"
proof -
  let ?b = "append_new zero_alloc ''K'' (UnsignedVal 7) (RawDataBuilder_named ''D'' ''N'' 1)"
  have "length (builder_block ?b) = 93" "GetParamCnt ?b = 1" by code_simp+
  then show ?thesis
    using build_decode_roundtrip [of zero_alloc ?b]
      reachable_builder.set_param [OF reachable_builder.made_named [of zero_alloc "''D''" "''N''" 1]]
    by (auto simp: MAX_BLOCK_SIZE_def MAX_PARAM_CNT_def)
qed

text \<open>C2. Memory safety of the decoder on arbitrary bytes: decoding a buffer that holds at least the
  claimed number of bytes never reads outside of it, and whatever comes out has its position
  inside the block, at most \<open>MAX_PARAM_CNT\<close> parameters and at most \<open>MAX_ARRAY_SIZE\<close> elements in
  every array.\<close>

theorem decoder_stays_in_block:
  assumes "alloc_sized al" "len \<le> length src"
  shows "case DecodedEvent al (Some src) len of
      Inl u \<Rightarrow> u \<noteq> OutOfBoundsRead
    | Inr ev \<Rightarrow> dePos ev \<le> len \<and> length (deParams ev) \<le> MAX_PARAM_CNT \<and>
        list_all (\<lambda>p. decoded_bounded (dpVal p)) (deParams ev)"
  using DecodedEvent_inside [OF assms]
  by (auto simp: event_inside_def empty_event_def list_all_iff split: sum.splits)

theorem decoder_stays_in_block_witness:
  "DecodedEvent zero_alloc (Some (replicate 100 255)) 90 \<noteq> Inl OutOfBoundsRead"
  using decoder_stays_in_block [of zero_alloc 90 "replicate 100 255"] by (auto split: sum.splits)

text \<open>The decoder does not bound the number of continuation bytes: ten bytes with their
  continuation flag set, followed by another byte of the block, make it shift a 64-bit value
  by 68, which C++ leaves undefined.\<close>

theorem overlong_varint_shifts_too_far:
  assumes "maxLen \<le> length raw" "pos + 10 < maxLen" "bit (raw ! pos) 5"
    and "\<And>i. 1 \<le> i \<Longrightarrow> i \<le> 9 \<Longrightarrow> bit (raw ! (pos + i)) 7"
  shows "UnsignedVarintDecoded (Some raw) maxLen pos = Undef ShiftTooLarge"
  using UnsignedVarintDecoded_overlong [OF assms] .

theorem overlong_varint_shifts_too_far_witness:
  "UnsignedVarintDecoded (Some (replicate 11 (mask 8))) 11 0 = Undef ShiftTooLarge"
  by (rule overlong_varint_shifts_too_far) (simp_all add: bit_mask_iff)

text \<open>Each of the eight kinds of values, appended to any live buffer, is read back at its
  position by the decoder of its class, which ends exactly at the end of the buffer.\<close>

theorem value_roundtrip:
  assumes "alloc_sized al" "raw_live rd" "value_bounded v"
    and "EncodeValue al v rd = (True, rd')" "rdLen rd' < 2 ^ 63"
  shows "DecodeValue (EncodedParam_GetDataCodedType v) (Some (rd_bytes rd')) (rdLen rd') (rdLen rd) =
    Done (view_value v) (rdLen rd')"
  using value_in_place [OF assms] .

theorem value_roundtrip_witness:
  "DecodeValue SIGNED_VARINT
     (Some (rd_bytes (snd (EncodeValue zero_alloc (SignedVal (- 300)) (RawData_new zero_alloc))))) 2 0 =
   Done (DSigned (- 300)) 2"
proof -
  let ?r = "EncodeValue zero_alloc (SignedVal (- 300)) (RawData_new zero_alloc)"
  have ev: "fst ?r" "rdLen (snd ?r) = 2" "rdLen (RawData_new zero_alloc) = 0" by code_simp+
  then have "?r = (True, snd ?r)" by (metis prod.collapse)
  with ev show ?thesis
    using value_roundtrip [of zero_alloc "RawData_new zero_alloc" "SignedVal (- 300)" "snd ?r"]
      RawData_new_live [of zero_alloc] by simp
qed

text \<open>Varints: a 64-bit number takes between one and ten bytes in a buffer and is read back
  from them whatever encoding tag was used.\<close>

theorem varint_roundtrip:
  assumes "alloc_sized al" "raw_live rd" "UnsignedVarintEncoded al ty v rd = (True, rd')"
  shows "UnsignedVarintDecoded (Some (rd_bytes rd')) (rdLen rd') (rdLen rd) = Done v (rdLen rd') \<and>
    rdLen rd < rdLen rd' \<and> rdLen rd' \<le> rdLen rd + 10"
  using varint_in_place [OF assms] by simp

theorem varint_roundtrip_witness:
  "UnsignedVarintDecoded
     (Some (rd_bytes (snd (UnsignedVarintEncoded zero_alloc INVALID (- 1) (RawData_new zero_alloc))))) 10 0 =
   Done (- 1) 10"
proof -
  let ?r = "UnsignedVarintEncoded zero_alloc INVALID (- 1) (RawData_new zero_alloc)"
  have ev: "fst ?r" "rdLen (snd ?r) = 10" "rdLen (RawData_new zero_alloc) = 0" by code_simp+
  then have "?r = (True, snd ?r)" by (metis prod.collapse)
  with ev show ?thesis
    using varint_roundtrip [of zero_alloc "RawData_new zero_alloc" INVALID "- 1" "snd ?r"]
      RawData_new_live [of zero_alloc] by simp
qed

text \<open>C20. A builder made from a built block has the domain, the name, every other header field, the
  trace record and the parameters of the first builder; its parameters hold the single values
  first and the arrays after them, floating point numbers as doubles.\<close>

theorem rebuild_from_raw:
  assumes "alloc_sized al" "alloc_total al" "reachable_builder al b"
    and "length (builder_block b) \<le> MAX_BLOCK_SIZE" "GetParamCnt b \<le> MAX_PARAM_CNT"
  shows "\<exists>rd b'. Build al b = (Some rd, b) \<and> RawDataBuilder_raw al (Some rd) = Inr b' \<and>
    GetDomain b' = GetDomain b \<and> GetName b' = GetName b \<and>
    rbHeader b' = (rbHeader b)\<lparr>hdDomain := hdDomain (rbHeader b'), hdName := hdName (rbHeader b')\<rparr> \<and>
    rbTrace b' = (if hdIsTraceOpened (rbHeader b) = 1 then rbTrace b else zero_trace) \<and>
    entries_of b' = reordered (entries_of b)"
proof -
  have ok: "builder_ok b" by (rule reachable_builder_ok [OF assms(1,3)])
  obtain rd where rd: "Build al b = (Some rd, b)" "raw_live rd" "rd_bytes rd = builder_block b"
    using Build_bytes [OF assms(1,2) ok] .
  from RawDataBuilder_raw_block [OF assms(1,2) ok rd(2,3) assms(4,5)] rd(1)
  show ?thesis by metis
qed

theorem rebuild_from_raw_witness:
  "\<exists>rd b'. Build zero_alloc (RawDataBuilder_named ''D'' ''N'' 3) =
      (Some rd, RawDataBuilder_named ''D'' ''N'' 3) \<and>
    RawDataBuilder_raw zero_alloc (Some rd) = Inr b' \<and>
    GetDomain b' = GetDomain (RawDataBuilder_named ''D'' ''N'' 3)"
proof -
  let ?b = "RawDataBuilder_named ''D'' ''N'' 3"
  have "length (builder_block ?b) = 89" "GetParamCnt ?b = 0" by code_simp+
  then show ?thesis
    using rebuild_from_raw [of zero_alloc ?b] reachable_builder.made_named [of zero_alloc "''D''" "''N''" 3]
    by (auto simp: MAX_BLOCK_SIZE_def)
qed

text \<open>C24. The raw buffer: an update of a live buffer, of which an append is the case at the end, either reports failure and leaves
  the buffer untouched, which only an exhausted allocator causes, or replaces exactly the
  addressed bytes and keeps all others.\<close>

theorem update_all_or_nothing:
  assumes "alloc_sized al" "raw_live rd" "pos \<le> rdLen rd"
  shows "(RawData_Update al rd (Some src) (length src) pos = (False, rd) \<and> \<not> alloc_total al) \<or>
    (\<exists>rd'. RawData_Update al rd (Some src) (length src) pos = (True, rd') \<and> raw_live rd' \<and>
       rd_bytes rd' = take pos (rd_bytes rd) @ src @ drop (pos + length src) (rd_bytes rd))"
  using RawData_Update_cases [OF assms(1,2) refl assms(3)] .

theorem update_all_or_nothing_witness:
  "\<exists>rd'. RawData_Update zero_alloc (RawData_new zero_alloc) (Some [1, 2]) 2 0 = (True, rd') \<and>
    rd_bytes rd' = [1, 2]"
  using update_all_or_nothing [of zero_alloc "RawData_new zero_alloc" 0 "[1, 2]"]
    RawData_new_live [of zero_alloc] by (auto simp: numeral_2_eq_2)

text \<open>When encoding a parameter fails half way, its buffer has grown by a leading part of the
  parameter's bytes: it is not rolled back.\<close>

theorem failed_encode_leaves_prefix:
  assumes "alloc_sized al" "raw_live (epRaw p)" "EncodedParam_Encode al p = (ok, p')"
  shows "raw_live (epRaw p') \<and> epHasEncoded p' = ok \<and>
    (\<exists>ys. prefix ys (param_bytes (epKey p) (epVal p)) \<and> rd_bytes (epRaw p') = rd_bytes (epRaw p) @ ys \<and>
      (ok \<longrightarrow> ys = param_bytes (epKey p) (epVal p)))"
  using Encode_appends [OF assms] Encode_keeps(3) [of al p] assms(3) by (cases ok) auto

theorem failed_encode_leaves_prefix_witness:
  "raw_live (epRaw (snd (EncodedParam_Encode zero_alloc (EncodedParam zero_alloc ''k'' (StringVal ''v'')))))"
  using failed_encode_leaves_prefix [of zero_alloc "EncodedParam zero_alloc ''k'' (StringVal ''v'')", OF _ _ prod.collapse [symmetric]]
    RawData_new_live [of zero_alloc] by (simp add: EncodedParam_def)

text \<open>Encoding an encoded parameter again appends its bytes a second time, so that a parameter
  taken from one builder with \<open>GetValue\<close> and appended to another doubles in the block while
  the parameter count grows by one.\<close>

theorem encoding_twice_duplicates:
  assumes "alloc_sized al" "alloc_total al" "reachable_builder al b" "GetValue key b = Some p"
  shows "\<exists>p'. EncodedParam_Encode al p = (True, p') \<and>
    rd_bytes (epRaw p') = rd_bytes (epRaw p) @ rd_bytes (epRaw p) \<and> rd_bytes (epRaw p) \<noteq> []"
proof -
  have "p \<in> set (rbParams b)" using assms(4) find_param_in unfolding GetValue_def by metis
  then have ok: "param_ok p"
    using reachable_builder_ok [OF assms(1,3)] by (auto simp: builder_ok_def list_all_iff)
  then show ?thesis
    using Encode_again [OF assms(1,2) ok] by (metis param_ok_def param_bytes_nonempty)
qed

theorem encoding_twice_duplicates_witness:
  "\<exists>p p'. GetValue ''K'' (append_new zero_alloc ''K'' (UnsignedVal 7) RawDataBuilder_empty) = Some p \<and>
    EncodedParam_Encode zero_alloc p = (True, p') \<and>
    rd_bytes (epRaw p') = rd_bytes (epRaw p) @ rd_bytes (epRaw p)"
proof -
  let ?b = "append_new zero_alloc ''K'' (UnsignedVal 7) RawDataBuilder_empty"
  obtain p where "GetValue ''K'' ?b = Some p"
    using GetValue_append_new [of zero_alloc RawDataBuilder_empty "''K''" "''K''" "UnsignedVal 7"] by auto
  with encoding_twice_duplicates [of zero_alloc ?b "''K''" p]
    reachable_builder.set_param [OF reachable_builder.made_empty [of zero_alloc]]
  show ?thesis by auto
qed

text \<open>C17. The parameters of a builder are a keyed store: a lookup after an append returns the
  appended value, cut to \<open>MAX_ARRAY_SIZE\<close> elements, for its key and the old value for any
  other key; after a removal the key is unknown and the others are unchanged; keys stay
  pairwise different.\<close>

theorem params_are_keyed_store:
  assumes "alloc_sized al" "alloc_total al" "reachable_builder al b"
  shows "map_option epVal (GetValue k (append_new al key val b)) =
      (if k = key then Some (bound_value val) else map_option epVal (GetValue k b)) \<and>
    GetValue k (RemoveParam key b) = (if k = key then None else GetValue k b) \<and>
    distinct (map fst (entries_of b))"
  using GetValue_append_new [OF assms(1,2)] GetValue_RemoveParam reachable_builder_ok [OF assms(1,3)]
  by (auto simp: builder_ok_def entries_of_def comp_def)

theorem params_are_keyed_store_witness:
  "map_option epVal (GetValue ''a'' (append_new zero_alloc ''a'' (StringVal ''x'') RawDataBuilder_empty)) =
    Some (StringVal ''x'')"
  using params_are_keyed_store [of zero_alloc RawDataBuilder_empty "''a''" "''a''" "StringVal ''x''"]
    reachable_builder.made_empty [of zero_alloc] by simp

text \<open>Header texts: a domain of at most \<open>MAX_DOMAIN_LENGTH\<close> characters is kept, one character
  more is cut off, and anything longer leaves an empty domain because the copy fails and clears
  the array; the same holds for names.\<close>

theorem domain_text:
  assumes "alloc_sized al" "reachable_builder al b" "CHR 0x00 \<notin> set s"
  shows "GetDomain (AppendDomain s b) =
      (if length s \<le> MAX_DOMAIN_LENGTH then s
       else if length s = MAX_DOMAIN_LENGTH + 1 then take MAX_DOMAIN_LENGTH s else []) \<and>
    GetName (AppendName s b) =
      (if length s \<le> MAX_EVENT_NAME_LENGTH then s
       else if length s = MAX_EVENT_NAME_LENGTH + 1 then take MAX_EVENT_NAME_LENGTH s else [])"
proof -
  have ok: "builder_ok b" by (rule reachable_builder_ok [OF assms(1,2)])
  then have len: "length (hdDomain (rbHeader b)) = MAX_DOMAIN_LENGTH + 1"
    "length (hdName (rbHeader b)) = MAX_EVENT_NAME_LENGTH + 1"
    by (simp_all add: builder_ok_def text_ok_def)
  show ?thesis
    using c_str_put_text [OF len(1) assms(3)] c_str_put_text [OF len(2) assms(3)] len
    by (simp add: GetDomain_def AppendDomain_def GetName_def AppendName_def header_bytes_def)
qed

theorem domain_text_witness:
  "GetDomain (AppendDomain ''ABCDEFGHIJKLMNOPQR'' RawDataBuilder_empty) = []"
  using domain_text [of zero_alloc RawDataBuilder_empty "''ABCDEFGHIJKLMNOPQR''"]
    reachable_builder.made_empty [of zero_alloc] by (simp add: MAX_DOMAIN_LENGTH_def)

text \<open>A block whose domain fills all 17 bytes of its array is decoded, but a builder made from
  it reads the domain on into the name, finds it too long and is left with an empty domain.\<close>

theorem unterminated_domain_is_lost:
  assumes "alloc_sized al" "alloc_total al" "header_ok h" "0 \<notin> set (hdDomain h)"
    and "text_ok MAX_EVENT_NAME_LENGTH (hdName h)" "c_str (hdName h) \<noteq> []"
    and "length (block_bytes h tr []) \<le> MAX_BLOCK_SIZE"
  shows "\<exists>b. RawDataBuilder_raw al (Some (RawData_from al (Some (block_bytes h tr []))
      (length (block_bytes h tr [])))) = Inr b \<and> GetDomain b = [] \<and> GetName b = c_str (hdName h)"
  using unterminated_domain_lost [OF assms] by metis

theorem unterminated_domain_is_lost_witness:
  "\<exists>b. RawDataBuilder_raw zero_alloc (Some (RawData_from zero_alloc
      (Some (block_bytes (zero_header\<lparr>hdDomain := replicate 17 65, hdName := 66 # replicate 32 0\<rparr>) zero_trace []))
      89)) = Inr b \<and> GetDomain b = []"
proof -
  let ?h = "zero_header\<lparr>hdDomain := replicate 17 65, hdName := 66 # replicate 32 0\<rparr>"
  have len: "length (block_bytes ?h zero_trace []) = 89"
    and h: "header_ok ?h" "text_ok MAX_EVENT_NAME_LENGTH (hdName ?h)" "c_str (hdName ?h) \<noteq> []"
    by code_simp+
  have "0 \<notin> set (hdDomain ?h)" by simp
  from unterminated_domain_is_lost [OF zero_alloc_sized zero_alloc_total h(1) this h(2,3), of zero_trace]
  show ?thesis by (auto simp: len MAX_BLOCK_SIZE_def)
qed

text \<open>C22. The JSON text of an event is one object: the base fields in their fixed order, then one
  member per parameter, separated by single commas with none left before a bracket, also
  for empty arrays.\<close>

theorem json_text:
  assumes "alloc_total al"
  shows "AsJsonStr al ev =
    ''{'' @ comma_join (base_entries (deHeader ev) (deTrace ev) @
      map (\<lambda>p. value_entry (dpKey p) (dpVal p)) (deParams ev)) @ ''}''"
  using AsJsonStr_entries [OF assms] .

theorem json_text_witness:
  "last (AsJsonStr zero_alloc empty_event) = CHR ''}''"
  using json_text [OF zero_alloc_total, of empty_event] by simp

text \<open>Texts of identifiers: the decimal id text of an event and the hexadecimal texts of its
  trace id, span id and parent span id, appended to a builder, set the very numbers they were
  printed from.\<close>

theorem texts_of_ids:
  "hdId (rbHeader (AppendValue al ''id_'' (ArgString (TransUInt64ToFixedLengthStr w)) b)) = w \<and>
    tiTraceId (rbTrace (AppendValue al ''traceid_'' (ArgString (TransNumToHexStr w)) b)) = w \<and>
    tiSpanId (rbTrace (AppendValue al ''spanid_'' (ArgString (TransNumToHexStr v)) b)) = v \<and>
    tiPSpanId (rbTrace (AppendValue al ''pspanid_'' (ArgString (TransNumToHexStr v)) b)) = v"
  using id_roundtrip [of w b]
  by (simp_all add: AppendValue_def AppendBaseInfoValue_def IsBaseInfo_def BASE_INFO_KEYS_def
      AppendTraceId_def AppendSpanId_def AppendPSpanId_def hex_roundtrip)

text \<open>Time zones: a known zone text survives being stored as its index, any other text becomes
  the zone \<open>+0000\<close>.\<close>

theorem time_zone_roundtrip:
  "ParseTimeZone_val (hdTimeZone (rbHeader (AppendTimeZone_str s b))) =
    (if s \<in> set ALL_TIME_ZONES then s else ''+0000'')"
  by (rule zone_text_roundtrip)

section \<open>Events given as JSON text\<close>



text \<open>A comma inside a string of an array ends the item there, and the closing quote then opens
  a new one: a member that ends the object with such a string is never appended, while the
  members before it are.\<close>

theorem json_comma_in_item:
  assumes "list_all member_ok ms" "CHR 0x22 \<notin> set k" "plain s" "CHR '','' \<notin> set s" "skipped t"
  shows "JsonParser_Parse False al ([CHR 0x7B] @ concat (map (\<lambda>m. member_text m @ '','') ms) @
      quoted k @ '':'' @ [CHR 0x5B] @ quoted (s @ '','' @ t) @ [CHR 0x5D, CHR 0x7D]) =
    Inr (fold (append_member al) ms RawDataBuilder_empty)"
  unfolding JsonParser_run JsonParser_comma_item [OF assms] ..

theorem json_comma_in_item_witness:
  "JsonParser_Parse False zero_alloc ([CHR 0x7B] @ quoted ''K'' @ '':'' @ [CHR 0x5B] @ quoted ''a,b'' @
    [CHR 0x5D, CHR 0x7D]) = Inr RawDataBuilder_empty"
  using json_comma_in_item [of "[]" "''K''" "''a''" "''b''" zero_alloc]
  by (simp add: plain_def skipped_def is_digit_def)

text \<open>A number followed by a character other than a digit, a point or a comma ends the parse:
  every member after it is lost. An exponent is such a character, and the text the decoder
  prints for the double one million, \<open>1e+06\<close>, has one: it comes back as the integer one.\<close>

theorem json_exponent_lost:
  assumes "list_all member_ok ms" "k \<noteq> []" "CHR 0x22 \<notin> set k" "\<not> IsBaseInfo k" "n < 2 ^ 64"
    and "\<not> is_digit c" "c \<noteq> CHR ''.''" "c \<noteq> CHR '',''" "CHR 0x7B \<notin> set t"
  shows "JsonParser_Parse False al ([CHR 0x7B] @ concat (map (\<lambda>m. member_text m @ '','') ms) @
      quoted k @ '':'' @ show_nat n @ [c] @ t) =
    Inr (append_member al (k, JNat n) (fold (append_member al) ms RawDataBuilder_empty))"
  unfolding JsonParser_run JsonParser_number_stops [OF assms] ..

theorem json_exponent_lost_witness:
  "JsonParser_Parse False zero_alloc ([CHR 0x7B] @ quoted ''a'' @ '':'' @
      stream_double 0x412E848000000000 @ '','' @ member_text (''b'', JNat 2) @ [CHR 0x7D]) =
    Inr (append_member zero_alloc (''a'', JNat 1) RawDataBuilder_empty)"
proof -
  have "stream_double 0x412E848000000000 = ''1'' @ ''e'' @ ''+06''"
    by (simp add: stream_double_def double_text_eval)
  moreover have "show_nat 1 = ''1''" "show_nat 2 = ''2''"
    by (simp_all add: show_nat_def show_base.simps digit_char_def)
  ultimately show ?thesis
    using json_exponent_lost [of "[]" "''a''" 1 "CHR ''e''" "''+06,'' @ member_text (''b'', JNat 2) @ [CHR 0x7D]" zero_alloc]
    by (simp add: is_digit_def IsBaseInfo_def BASE_INFO_KEYS_def member_text_def quoted_def)
qed

text \<open>The parser indexes its table with a plain character: where characters are signed, a text
  reads outside of the table exactly when one of its bytes is above 127.\<close>

theorem json_signed_char:
  "JsonParser_Parse True al s = Inl OutOfBoundsRead \<longleftrightarrow> (\<exists>c\<in>set s. (of_char c :: nat) > 127)"
  by (rule JsonParser_signed)

section \<open>The trace manager\<close>

text \<open>C4. In every reachable state of the trace manager, while Hitrace works, either a command holds
  the trace, or the running scenario agrees with the switches: a set switch is traced as the
  switches ask (recording when the lowest one is set, the common trace otherwise), and a common
  trace runs only because a switch asks for it.\<close>

theorem switches_decide:
  assumes "hitrace_works ht" "reachable ht m"
  shows "command_held (mState m) \<or>
    (mTraceSwitchState m \<noteq> 0 \<or> is_common (mState m) \<longrightarrow>
      GetStateScenario (mState m) = wanted_scenario (mTraceSwitchState m))"
  using switch_ok_reachable [OF assms] by (simp add: switch_ok_def)

theorem switches_decide_witness:
  "let w = \<lparr>wHitrace = None, wBootTimeMs = 0, wMilliseconds = 0, wScreenOn = True, wDeveloperMode = False, wLog = []\<rparr>;
       m = SetTraceSwitchDevOn tag_hitrace (TraceStateMachine w)
   in mTraceSwitchState m = 1 \<and> GetStateScenario (mState m) = SN_COMMON_DROP"
proof -
  let ?w = "\<lparr>wHitrace = None, wBootTimeMs = 0, wMilliseconds = 0, wScreenOn = True, wDeveloperMode = False, wLog = []\<rparr>"
  let ?m = "SetTraceSwitchDevOn tag_hitrace (TraceStateMachine ?w)"
  have "reachable tag_hitrace ?m"
    by (rule reachable.step [OF reachable.start machine_step.dev_on]) simp
  from switches_decide [OF tag_hitrace_works this]
  have "command_held (mState ?m) \<or>
    (mTraceSwitchState ?m \<noteq> 0 \<or> is_common (mState ?m) \<longrightarrow>
      GetStateScenario (mState ?m) = wanted_scenario (mTraceSwitchState ?m))" .
  moreover have "mTraceSwitchState ?m = 1" "\<not> command_held (mState ?m)" by code_simp+
  ultimately show ?thesis by (simp add: Let_def wanted_scenario_def)
qed

text \<open>C23. Opening a scenario: one that is not above the level of the current state is denied and
  nothing changes; otherwise, while Hitrace works, the state becomes the one of the scenario,
  a telemetry task that is pushed aside is told once that it is finished, and the switches are
  untouched.\<close>

theorem open_trace_outcome:
  assumes "hitrace_works ht" "scName sc \<in> set openable"
  shows "if scLevel sc \<le> GetStateLevel (mState m) then OpenTrace ht sc m = (TraceRet_state STATE_DENY, m)
    else fst (OpenTrace ht sc m) = TraceRet \<and>
      GetStateScenario (mState (snd (OpenTrace ht sc m))) = scName sc \<and>
      wLog (mWorld (snd (OpenTrace ht sc m))) = wLog (mWorld m) @ farewell (mState m) \<and>
      mTraceSwitchState (snd (OpenTrace ht sc m)) = mTraceSwitchState m \<and>
      mIsCommandState (snd (OpenTrace ht sc m)) = (mIsCommandState m \<or> scName sc = SN_COMMAND)"
  using OpenTrace_outcome [OF assms] .

theorem open_trace_outcome_witness:
  "\<forall>w. GetStateScenario (mState (snd (OpenTrace tag_hitrace (SCENARIO_COMMON_INFO tag_hitrace) (TraceStateMachine w)))) =
    SN_COMMON_BETA"
proof
  fix w :: "string list option world"
  show "GetStateScenario (mState (snd (OpenTrace tag_hitrace (SCENARIO_COMMON_INFO tag_hitrace) (TraceStateMachine w)))) =
    SN_COMMON_BETA"
    using open_trace_outcome [OF tag_hitrace_works, of "SCENARIO_COMMON_INFO tag_hitrace" "TraceStateMachine w"]
    by (simp add: SCENARIO_COMMON_INFO_def openable_def TraceStateMachine_def scenario_levels word_le_nat_alt)
qed

text \<open>An open that does not succeed, for whatever reason Hitrace gives, keeps the state, the
  switches and the flags, and no callback hears of it; only the state of Hitrace may have
  changed.\<close>

theorem failed_open_keeps_state:
  assumes "\<not> IsSuccess (fst (OpenTrace ht sc m))"
  shows "(snd (OpenTrace ht sc m))\<lparr>mWorld := mWorld m\<rparr> = m \<and>
    wLog (mWorld (snd (OpenTrace ht sc m))) = wLog (mWorld m)"
  using OpenTrace_fails [OF assms] .

theorem failed_open_keeps_state_witness:
  "\<forall>w. let ht = tag_hitrace\<lparr>htOpenTrace := \<lambda>a x. (TRACE_IS_OCCUPIED, x)\<rparr> in
    mState (snd (OpenTrace ht (SCENARIO_COMMON_INFO ht) (TraceStateMachine w))) = CloseState"
proof
  fix w :: "string list option world"
  let ?ht = "tag_hitrace\<lparr>htOpenTrace := \<lambda>a x. (TRACE_IS_OCCUPIED, x)\<rparr>"
  let ?r = "OpenTrace ?ht (SCENARIO_COMMON_INFO ?ht) (TraceStateMachine w)"
  have "\<not> IsSuccess (fst ?r)"
    by (simp add: OpenTrace_def SCENARIO_COMMON_INFO_def TraceStateMachine_def scenario_levels word_le_nat_alt
        hcall_def call_def tag_hitrace_def)
  from failed_open_keeps_state [OF this] have "mState ((snd ?r)\<lparr>mWorld := w\<rparr>) = mState (TraceStateMachine w)"
    by (simp add: TraceStateMachine_def)
  then show "let ht = tag_hitrace\<lparr>htOpenTrace := \<lambda>a x. (TRACE_IS_OCCUPIED, x)\<rparr> in
    mState (snd (OpenTrace ht (SCENARIO_COMMON_INFO ht) (TraceStateMachine w))) = CloseState"
    by (simp add: Let_def TraceStateMachine_def)
qed

text \<open>A refresh, while Hitrace works, brings about what the switches ask for: it is denied only
  under a command, it ends in the wanted scenario unless a command holds the trace or a
  scenario of a caller runs with all switches off, and a telemetry task is told that it is
  finished exactly when a switch pushes it aside.\<close>

theorem refresh_outcome:
  assumes "hitrace_works ht"
  shows "fst (RefreshState ht m) =
      (if command_held (mState m) \<and> mTraceSwitchState m \<noteq> 0 then TraceRet_state STATE_DENY else TraceRet) \<and>
    GetStateScenario (mState (snd (RefreshState ht m))) =
      (if command_held (mState m) \<or> mTraceSwitchState m = 0 \<and> \<not> is_common (mState m)
       then GetStateScenario (mState m) else wanted_scenario (mTraceSwitchState m)) \<and>
    wLog (mWorld (snd (RefreshState ht m))) =
      wLog (mWorld m) @ (if mTraceSwitchState m = 0 then [] else farewell (mState m)) \<and>
    mTraceSwitchState (snd (RefreshState ht m)) = mTraceSwitchState m \<and>
    mIsCommandState (snd (RefreshState ht m)) = mIsCommandState m"
  using RefreshState_works [OF assms] .

theorem refresh_outcome_witness:
  "\<forall>w. GetStateScenario (mState (snd (RefreshState tag_hitrace (TraceStateMachine w)))) = SN_CLOSE"
  using refresh_outcome [OF tag_hitrace_works]
  by (simp add: TraceStateMachine_def is_common_def)

text \<open>On a beta version the trace command closes the common trace: the version switch is
  cleared first, so that the trace stays closed unless another switch asks for it.\<close>

theorem beta_closed_by_command:
  assumes "hitrace_works ht" "mState m = CommonState fsize span" "\<not> mIsCommandState m"
  shows "fst (CloseTrace ht SN_COMMAND m) = TraceRet \<and>
    mTraceSwitchState (snd (CloseTrace ht SN_COMMAND m)) = mTraceSwitchState m AND NOT (push_bit 3 1) \<and>
    GetStateScenario (mState (snd (CloseTrace ht SN_COMMAND m))) =
      wanted_scenario (mTraceSwitchState m AND NOT (push_bit 3 1))"
  using CloseTrace_beta [OF assms] .

theorem beta_closed_by_command_witness:
  "\<forall>w. GetStateScenario (mState (snd (CloseTrace tag_hitrace SN_COMMAND
    ((TraceStateMachine w)\<lparr>mState := CommonState 800 10, mTraceSwitchState := 8\<rparr>)))) = SN_CLOSE"
proof
  fix w :: "string list option world"
  have "(8 :: u8) AND NOT (push_bit 3 1) = 0" by code_simp
  then show "GetStateScenario (mState (snd (CloseTrace tag_hitrace SN_COMMAND
    ((TraceStateMachine w)\<lparr>mState := CommonState 800 10, mTraceSwitchState := 8\<rparr>)))) = SN_CLOSE"
    using beta_closed_by_command [OF tag_hitrace_works,
        of "(TraceStateMachine w)\<lparr>mState := CommonState 800 10, mTraceSwitchState := 8\<rparr>" 800 10]
    by (simp add: TraceStateMachine_def wanted_scenario_def)
qed

text \<open>Closing a recording command leaves the command flag set, unlike closing a command that
  does not record. When a switch then starts the common trace again, the trace command is denied
  to close it.\<close>

theorem drop_close_keeps_flag:
  assumes "hitrace_works ht" "scName sc = SN_COMMAND" "scLevel sc = SL_COMMAND" "\<not> command_held (mState m)"
    and "mTraceSwitchState m \<noteq> 0" "mTraceSwitchState m AND 1 \<noteq> 1"
    and "m' = snd (CloseTrace ht SN_COMMAND (snd (state_TraceDropOn ht SN_COMMAND path (snd (OpenTrace ht sc m)))))"
  shows "mIsCommandState m' \<and> GetStateScenario (mState m') = SN_COMMON_BETA \<and>
    CloseTrace ht SN_COMMAND m' = (TraceRet_state STATE_DENY, m')"
  using drop_close_flag [OF assms] .

theorem drop_close_keeps_flag_witness:
  "\<forall>w. let m = (TraceStateMachine w)\<lparr>mTraceSwitchState := 8\<rparr>;
      sc = (SCENARIO_COMMON_INFO tag_hitrace)\<lparr>scName := SN_COMMAND, scLevel := SL_COMMAND\<rparr>
    in mIsCommandState (snd (CloseTrace tag_hitrace SN_COMMAND (snd (state_TraceDropOn tag_hitrace SN_COMMAND []
      (snd (OpenTrace tag_hitrace sc m))))))"
proof
  fix w :: "string list option world"
  let ?sc = "(SCENARIO_COMMON_INFO tag_hitrace)\<lparr>scName := SN_COMMAND, scLevel := SL_COMMAND\<rparr>"
  have "(8 :: u8) AND 1 \<noteq> 1" by code_simp
  then show "let m = (TraceStateMachine w)\<lparr>mTraceSwitchState := 8\<rparr>;
      sc = (SCENARIO_COMMON_INFO tag_hitrace)\<lparr>scName := SN_COMMAND, scLevel := SL_COMMAND\<rparr>
    in mIsCommandState (snd (CloseTrace tag_hitrace SN_COMMAND (snd (state_TraceDropOn tag_hitrace SN_COMMAND []
      (snd (OpenTrace tag_hitrace sc m))))))"
    using drop_close_keeps_flag [OF tag_hitrace_works _ _ _ _ _ refl, of ?sc "(TraceStateMachine w)\<lparr>mTraceSwitchState := 8\<rparr>" "[]"]
    by (simp add: TraceStateMachine_def command_held_def Let_def)
qed

text \<open>In every reachable state, whatever Hitrace answers, a state that a command holds has the
  command flag set.\<close>

theorem command_states_flagged:
  assumes "reachable ht m" "command_held (mState m)"
  shows "mIsCommandState m"
  using flag_ok_reachable [OF assms(1)] assms(2) by (simp add: flag_ok_def)

theorem command_states_flagged_witness:
  "let w = \<lparr>wHitrace = None, wBootTimeMs = 0, wMilliseconds = 0, wScreenOn = True, wDeveloperMode = False, wLog = []\<rparr>;
       sc = (SCENARIO_COMMON_INFO tag_hitrace)\<lparr>scName := SN_COMMAND, scLevel := SL_COMMAND\<rparr>
   in mIsCommandState (snd (OpenTrace tag_hitrace sc (TraceStateMachine w)))"
proof -
  let ?w = "\<lparr>wHitrace = None, wBootTimeMs = 0, wMilliseconds = 0, wScreenOn = True, wDeveloperMode = False, wLog = []\<rparr>"
  let ?sc = "(SCENARIO_COMMON_INFO tag_hitrace)\<lparr>scName := SN_COMMAND, scLevel := SL_COMMAND\<rparr>"
  have "reachable tag_hitrace (snd (OpenTrace tag_hitrace ?sc (TraceStateMachine ?w)))"
    by (rule reachable.step [OF reachable.start machine_step.open_trace]) (simp_all add: caller_scenario_def)
  moreover have "command_held (mState (snd (OpenTrace tag_hitrace ?sc (TraceStateMachine ?w))))" by code_simp
  ultimately show ?thesis using command_states_flagged by (simp add: Let_def)
qed

section \<open>Telemetry tasks\<close>

text \<open>C21. While Hitrace can switch the trace on and off, no operation on a reachable state uses the
  null pointer that the state of a telemetry task starts with.\<close>

theorem telemetry_no_null:
  assumes "status_works ht" "reachable ht m"
  shows "PowerTelemetryOn ht m \<noteq> None \<and> PowerTelemetryOff ht m \<noteq> None \<and> TraceTelemetryOn ht m \<noteq> None \<and>
    TraceTelemetryOff ht m \<noteq> None \<and> PostTelemetryOn ht t m \<noteq> None \<and> PostTelemetryTimeOut ht m \<noteq> None \<and>
    DumpTraceWithFilter ht dur time path m \<noteq> None"
  using telemetry_total [OF tele_ok_reachable [OF assms], of ht] dump_filter_total [OF tele_ok_reachable [OF assms]]
  by fastforce

theorem telemetry_no_null_witness:
  "PowerTelemetryOn tag_hitrace (TraceStateMachine
    \<lparr>wHitrace = None, wBootTimeMs = 0, wMilliseconds = 0, wScreenOn = True, wDeveloperMode = False, wLog = []\<rparr>) \<noteq> None"
  using telemetry_no_null [OF tag_hitrace_status reachable.start] by simp

text \<open>When the trace cannot be switched while a telemetry task is initialised, the task is left
  with the null pointer: the next request of its policy uses it.\<close>

theorem failed_init_is_null:
  assumes "\<And>b x. fst (htSetTraceStatus ht b x) \<noteq> CODE_SUCCESS" "mState m = TelemetryState ts"
    and "m' = InitTelemetryStatus ht isStatusOn m"
  shows "(tsPolicy ts = POLICY_POWER \<longrightarrow> PowerTelemetryOn ht m' = None \<and> PowerTelemetryOff ht m' = None) \<and>
    (tsPolicy ts = POLICY_MANUAL \<longrightarrow> TraceTelemetryOn ht m' = None \<and> TraceTelemetryOff ht m' = None)"
  using failed_init [OF assms] .

theorem failed_init_is_null_witness:
  "\<forall>w. let ht = tag_hitrace\<lparr>htSetTraceStatus := \<lambda>b x. (CODE_OTHER 1, x)\<rparr>;
      m = (TraceStateMachine w)\<lparr>mState := TelemetryState \<lparr>tsPolicy = POLICY_POWER, tsCallback = None, tsInner = None\<rparr>\<rparr>
    in PowerTelemetryOn ht (InitTelemetryStatus ht True m) = None"
proof
  fix w :: "string list option world"
  let ?ht = "tag_hitrace\<lparr>htSetTraceStatus := \<lambda>b x. (CODE_OTHER 1, x)\<rparr>"
  let ?ts = "\<lparr>tsPolicy = POLICY_POWER, tsCallback = None, tsInner = None\<rparr>"
  show "let ht = tag_hitrace\<lparr>htSetTraceStatus := \<lambda>b x. (CODE_OTHER 1, x)\<rparr>;
      m = (TraceStateMachine w)\<lparr>mState := TelemetryState \<lparr>tsPolicy = POLICY_POWER, tsCallback = None, tsInner = None\<rparr>\<rparr>
    in PowerTelemetryOn ht (InitTelemetryStatus ht True m) = None"
    using failed_init_is_null [of ?ht "(TraceStateMachine w)\<lparr>mState := TelemetryState ?ts\<rparr>" ?ts _ True, OF _ _ refl]
    by (simp add: Let_def)
qed

text \<open>C18. Without deadlines a telemetry task refines a counter of holders: any sequence of requests
  gives the number of holders that plain counting gives, and the trace is on exactly while
  somebody holds it, as long as the 32-bit count does not wrap.\<close>

theorem holders_counted:
  assumes "status_works ht" "counting (fst s)" "set ops \<subseteq> {OpTraceOn, OpTraceOff}"
    and "holders (fst s) + length ops < 2 ^ 32"
  shows "\<exists>s'. tele_run ht ops s = Some s' \<and> holders (fst s') = fold count_op ops (holders (fst s)) \<and>
    (is_on (fst s') \<longleftrightarrow> holders (fst s') > 0)"
proof -
  obtain s' where "tele_run ht ops s = Some s'" "holders (fst s') = fold count_op ops (holders (fst s))"
    "is_on (fst s') \<longleftrightarrow> holders (fst s') > 0"
    using counting_run [OF assms] by (elim exE conjE)
  then show ?thesis by (intro exI [of _ s'] conjI)
qed

theorem holders_counted_witness:
  "\<forall>w. \<exists>s'. tele_run tag_hitrace [OpTraceOn, OpTraceOn, OpTraceOff]
    (new_tele_machine\<lparr>tmCurrent := Some InitState\<rparr>, w) = Some s' \<and> holders (fst s') = 1"
proof
  fix w :: "string list option world"
  show "\<exists>s'. tele_run tag_hitrace [OpTraceOn, OpTraceOn, OpTraceOff]
    (new_tele_machine\<lparr>tmCurrent := Some InitState\<rparr>, w) = Some s' \<and> holders (fst s') = 1"
    using holders_counted [OF tag_hitrace_status, of "(new_tele_machine\<lparr>tmCurrent := Some InitState\<rparr>, w)"
        "[OpTraceOn, OpTraceOn, OpTraceOff]"]
    by (auto simp: counting_def holders_def [of "new_tele_machine\<lparr>tmCurrent := Some InitState\<rparr>"] is_on_def simp del: tele_run.simps)
qed

text \<open>C25. The callback of a telemetry task hears of every change between off and on, in order, and
  of nothing else.\<close>

theorem notifications_alternate:
  assumes "tele_run ht ops s = Some s'" "tmCallback (fst s) = Some cb" "tmCurrent (fst s) \<noteq> None"
  shows "\<exists>es. wLog (snd s') = wLog (snd s) @ map (Pair cb) es \<and>
    alternates (is_on (fst s)) es (is_on (fst s'))"
  using tele_run_notifies [OF assms] .

theorem notifications_alternate_witness:
  "\<exists>s' es. tele_run tag_hitrace [OpTraceOn, OpTraceOff] (\<lparr>tmCurrent = Some InitState, tmTraceOnCount = 0,
      tmPostEndTime = 0, tmCallback = Some (7, ManualCallback)\<rparr>, \<lparr>wHitrace = None, wBootTimeMs = 0,
      wMilliseconds = 0, wScreenOn = True, wDeveloperMode = False, wLog = []\<rparr>) = Some s' \<and>
    wLog (snd s') = map (Pair (7, ManualCallback)) es \<and> alternates False es (is_on (fst s'))"
proof -
  let ?s = "(\<lparr>tmCurrent = Some InitState, tmTraceOnCount = 0,
      tmPostEndTime = 0, tmCallback = Some (7, ManualCallback)\<rparr>, \<lparr>wHitrace = None, wBootTimeMs = 0,
      wMilliseconds = 0, wScreenOn = True, wDeveloperMode = False, wLog = []\<rparr>) :: string list option tele"
  obtain s' where "tele_run tag_hitrace [OpTraceOn, OpTraceOff] ?s = Some s'"
    using tele_run_total [of ?s tag_hitrace "[OpTraceOn, OpTraceOff]"] by (auto simp del: tele_run.simps)
  with notifications_alternate [OF this, of "(7, ManualCallback)"] show ?thesis
    by (auto simp: is_on_def simp del: tele_run.simps)
qed



text \<open>A holder that takes and releases the trace while a deadline is running stays counted:
  after the deadline has passed the trace is still on, with nobody holding it, and no number
  of time-outs ends it.\<close>

theorem deadline_hides_holder:
  assumes "status_works ht" "tmCurrent (fst s) = Some InitState"
    and "0 < wBootTimeMs (snd s) + t" "wBootTimeMs (snd s) + t \<le> T" "wBootTimeMs (snd s) \<le> T"
  shows "\<exists>s'. tele_run ht ([OpPostOn t, OpTraceOn, OpTraceOff, OpTick T] @ replicate (Suc n) OpTimeOut) s = Some s' \<and>
    is_on (fst s') \<and> tmTraceOnCount (fst s') = 1 \<and> tmPostEndTime (fst s') = 0"
  using post_hides_holder [OF assms] .

theorem deadline_hides_holder_witness:
  "\<exists>s'. tele_run tag_hitrace ([OpPostOn 5, OpTraceOn, OpTraceOff, OpTick 9] @ replicate (Suc 3) OpTimeOut)
      (new_tele_machine\<lparr>tmCurrent := Some InitState\<rparr>,
      \<lparr>wHitrace = None, wBootTimeMs = 2, wMilliseconds = 0, wScreenOn = True, wDeveloperMode = False, wLog = []\<rparr>) = Some s' \<and>
    is_on (fst s') \<and> tmTraceOnCount (fst s') = 1 \<and> tmPostEndTime (fst s') = 0"
  by (rule deadline_hides_holder) (simp_all add: word_le_nat_alt word_less_nat_alt)

section \<open>The event store\<close>



text \<open>Conditions compare integers by their value, whether they are signed or unsigned: a
  negative number is below every unsigned one.\<close>

theorem integer_conditions_by_value:
  assumes "\<not> is_double a" "\<not> is_double b"
  shows "(num_eq a b \<longleftrightarrow> num_value a = num_value b) \<and> (num_ne a b \<longleftrightarrow> num_value a \<noteq> num_value b) \<and>
    (num_lt a b \<longleftrightarrow> num_value a < num_value b) \<and> (num_le a b \<longleftrightarrow> num_value a \<le> num_value b) \<and>
    (num_gt a b \<longleftrightarrow> num_value a > num_value b) \<and> (num_ge a b \<longleftrightarrow> num_value a \<ge> num_value b)"
  using num_compare [OF assms] by blast

theorem integer_conditions_by_value_witness:
  "num_lt (NumInt (- 1)) (NumUint 3) \<and> \<not> num_eq (NumUint (2 ^ 64 - 1)) (NumInt (- 1))"
  using integer_conditions_by_value [of "NumInt (- 1)" "NumUint 3"]
    integer_conditions_by_value [of "NumUint (2 ^ 64 - 1)" "NumInt (- 1)"]
  by simp

text \<open>C28. A nested condition is the conjunction of the simple ones in it: the document query
  made from it accepts a stored event exactly when every simple condition holds, those on fixed
  fields on the stored bytes and the others on the decoded parameters.\<close>

theorem query_is_conjunction:
  assumes "DecodedEvent al raw len = Inr ev"
  shows "IsContainInnerConds (Traval c new_doc_query) content \<and>
      IsContainExtraConds al (Traval c new_doc_query) raw len = Inr True \<longleftrightarrow>
    (\<forall>d \<in> set (all_conds c). \<not> ignored_cond d \<longrightarrow>
      (if IsInnerCond d then IsContainInnerCond (inner_field_of_bytes (drop HIVIEW_BLOCK_SIZE content)) d
       else extra_cond_holds (deParams ev) d))"
  unfolding Traval_inner Traval_extra [OF assms] by auto

theorem query_is_conjunction_witness:
  "IsContainExtraConds zero_alloc
     (Traval (Cond [] OP_NONE (FieldNum (NumInt 0)) [Cond ''PID'' OP_EQ (FieldNum (NumInt 42)) []]) new_doc_query) None 0 \<noteq> Inr True"
proof -
  have "DecodedEvent zero_alloc None 0 = Inr empty_event" by (simp add: DecodedEvent_def)
  from query_is_conjunction [OF this,
    of "Cond [] OP_NONE (FieldNum (NumInt 0)) [Cond ''PID'' OP_EQ (FieldNum (NumInt 42)) []]" "[]"]
  show ?thesis
    by (simp add: ignored_cond_def IsInnerCond_def innerFields_def extra_cond_holds_def empty_event_def
        IsContainInnerConds_def DocQuery_And_def new_doc_query_def)
qed

text \<open>C39. The name of a document says what is in it: from the name that the store makes for an event,
  its name, type, level, sequence number and reporting interval are read back, each when it is
  asked for.\<close>

theorem file_names_roundtrip:
  assumes "IsValidDomainName nm MAX_EVENT_NAME_LEN" "nm \<noteq> []" "level = ''CRITICAL'' \<or> level = ''MINOR''"
    and "IsValidType ty" "0 < sq" "sq < 2 ^ 63" "0 \<le> interval" "interval < 2 ^ 15"
  shows "ParseEventInfoFromDbFileName (db_file_name nm ty level sq interval) info parseType =
    Some \<lparr>siName = picked parseType NAME_ONLY nm (siName info),
      siType = picked parseType TYPE_ONLY (word_of_int ty) (siType info),
      siLevel = picked parseType LEVEL_ONLY level (siLevel info),
      siSeq = picked parseType SEQ_ONLY sq (siSeq info),
      siReportInterval = picked parseType REPORT_INTERVAL_ONLY interval (siReportInterval info)\<rparr>"
  using parse_db_file_name [OF assms] .

theorem file_names_roundtrip_witness:
  "\<exists>info. ParseEventInfoFromDbFileName (db_file_name ''PANIC'' 1 ''CRITICAL'' 7 0) new_splited_info ALL_INFO = Some info \<and>
    siName info = ''PANIC'' \<and> siSeq info = 7"
proof -
  have "IsValidDomainName ''PANIC'' MAX_EVENT_NAME_LEN" "IsValidType 1" by code_simp+
  from file_names_roundtrip [OF this(1) _ _ this(2), of "''CRITICAL''" 7 0 new_splited_info ALL_INFO] show ?thesis
    by (simp add: picked_def parse_type_defs)
qed




text \<open>C3. Nothing is lost between writing and reading: on a file system that permits it, every
  insertion of events with increasing sequence numbers into an empty database succeeds, and a query
  for everything returns each of them exactly once, with its content, and nothing else.\<close>

theorem stored_events_are_found:
  assumes "ctx_ok c" "fs_works c" "fsFiles fs = []" "distinct (fsDirs fs)" "IsDirectory fs (scDbDir c)"
    and "list_all2 (insert_ok defs) evs vs" "\<forall>ev \<in> set evs. has_page c ev \<and> dir_possible c fs (seDomain ev)"
    and "sorted_wrt (<) (map (\<lambda>ev. sint (seSeq ev)) evs)" "length evs \<le> 1000"
    and "for_all q" "int (length evs) < sqLimit q"
  shows "\<exists>cache' fs' ws ens.
    insert_all c evs SysEventDatabase fs = (replicate (length evs) DOC_STORE_SUCCESS, cache', fs') \<and>
    Query_db c fs' q [] = Some (Inr (ens, q)) \<and> list_all2 (found c defs) ws ens \<and> mset ws = mset vs"
proof -
  obtain rets cache' fs' where i: "insert_all c evs SysEventDatabase fs = (rets, cache', fs')"
    by (cases "insert_all c evs SysEventDatabase fs")
  have "env_ok (ctx_env c)" using assms(1) by (simp add: ctx_ok_def)
  from insert_all_bounded [OF this i assms(3,9)] have b: "fs_bounded fs'" .
  show ?thesis using events_stored_and_found [OF assms(1-8) i b assms(10,11)] i by blast
qed

theorem stored_events_are_found_witness:
  "\<exists>cache' fs' ws ens.
    insert_all sample_ctx [sample_event 1, sample_event 2] SysEventDatabase sample_fs =
      ([DOC_STORE_SUCCESS, DOC_STORE_SUCCESS], cache', fs') \<and>
    Query_db sample_ctx fs' sample_query [] = Some (Inr (ens, sample_query)) \<and>
    list_all2 (found sample_ctx (\<lambda>domain nm. sample_def)) ws ens \<and> mset ws = {#sample_view 1, sample_view 2#}"
  using stored_events_are_found [OF sample_ctx_ok sample_fs_works sample_fs_empty sample_events(1-3) _ sample_events(4,5)]
  by (simp add: numeral_2_eq_2)





text \<open>C32. The quota of a type is computed with 32 bits: configured as 4096 megabytes it becomes zero, and
  clearing removes every file of the type.\<close>

theorem quota_wraps:
  assumes "ctx_ok c" "fs_ok fs" "IsDirectory fs (scDbDir c)" "\<forall>p. foRemove (scOps c) p"
    and "GetMaxSize_config (scConfig c) (int ty) = 4096" "p \<in> set (typed_files c fs ty)"
  shows "fs_file (snd (Clear_db c cache fs)) p = None"
proof -
  have z: "GetMaxSize c ty = 0" using assms(5) by (simp add: GetMaxSize_def u32_mul_def NUM_OF_BYTES_IN_MB_def)
  obtain q k where q: "clears c fs ty (q ty) (k ty)"
    "removed (\<Union>ty. set (take (k ty) (q ty))) fs (snd (Clear_db c cache fs))"
    using Clear_db_works [OF assms(1-3), of cache] assms(4) by blast
  then have "k ty = length (q ty)" "set (q ty) = set (typed_files c fs ty)"
    using z no_size_below_zero by (auto simp: clears_def dest: mset_eq_setD)
  then have "p \<in> set (take (k ty) (q ty))" using assms(6) by simp
  then have "p \<in> (\<Union>ty. set (take (k ty) (q ty)))" by blast
  then show ?thesis using q(2) by (simp add: removed_def)
qed

definition big_ctx :: store_ctx where
  "big_ctx = sample_ctx\<lparr>scConfig := EventStoreConfig_Init (Some [(''FAULT'', JsonObject [(''MaxSize'', JsonUInt 4096)])])\<rparr>"

definition one_file :: file_system where
  "one_file = \<lparr>fsFiles = [(''/log/db/KERNEL/PANIC-1-CRITICAL-7-0.db'', [1, 2, 3])],
     fsDirs = [''/log'', ''/log/db'', ''/log/db/KERNEL'']\<rparr>"

theorem quota_wraps_witness:
  "fs_file (snd (Clear_db big_ctx SysEventDatabase one_file)) ''/log/db/KERNEL/PANIC-1-CRITICAL-7-0.db'' = None"
proof (rule quota_wraps [where ty = 1])
  have "GetPageSize (scConfig big_ctx) ty = 0" for ty
    by (simp add: big_ctx_def EventStoreConfig_Init_def add_config_def EVENT_TYPE_MAP_def config_of_def
      ParseUint32_def GetPageSize_def)
  then show "ctx_ok big_ctx"
    using sample_ctx_ok unfolding ctx_ok_def env_ok_def ctx_env_def by (simp add: big_ctx_def)
  show "fs_ok one_file" by (simp add: fs_ok_def one_file_def)
  show "IsDirectory one_file (scDbDir big_ctx)" by code_simp
  show "\<forall>p. foRemove (scOps big_ctx) p" by (simp add: big_ctx_def sample_ctx_def free_ops_def)
  show "GetMaxSize_config (scConfig big_ctx) (int 1) = 4096"
    by (simp add: big_ctx_def EventStoreConfig_Init_def add_config_def EVENT_TYPE_MAP_def config_of_def
        ParseUint32_def GetMaxSize_config_def)
  show "''/log/db/KERNEL/PANIC-1-CRITICAL-7-0.db'' \<in> set (typed_files big_ctx one_file 1)" by code_simp
qed

text \<open>C29. The cache of open documents refines a bounded list of keys and values in the order of their last
  use: looking a key up moves it to the front, adding a new key may push the last one out, adding a
  known key changes nothing.\<close>

theorem cache_by_recency:
  assumes "lru_ok c"
  shows "fst (lru_Get key c) = map_of (recency c) key \<and> recency (snd (lru_Get key c)) = used key (recency c) \<and>
    (map_of (recency c) key = None \<longrightarrow>
      recency (snd (lru_Add key value c)) = take (lruCapacity c) ((key, value) # recency c)) \<and>
    (map_of (recency c) key \<noteq> None \<longrightarrow> lru_Add key value c = (False, c)) \<and>
    recency (lru_Clear c) = [] \<and> lru_ok (snd (lru_Get key c)) \<and> lru_ok (snd (lru_Add key value c))"
proof -
  have "lru_Add key value c = (False, c)" if "map_of (recency c) key \<noteq> None"
    using that recency_lookup [OF assms] by (simp add: lru_Add_def lru_Contain_def)
  then show ?thesis
    using recency_Get [OF assms] recency_Add [OF assms] recency_Clear lru_ok_Get [OF assms] lru_ok_Add [OF assms] by blast
qed

theorem cache_by_recency_witness:
  "map fst (recency (snd (lru_Add ''c'' 3 (snd (lru_Get ''a'' (snd (lru_Add ''b'' 2 (snd (lru_Add ''a'' (1 :: nat) (new_lru 2)))))))))) =
    [''c'', ''a'']"
proof -
  let ?c0 = "new_lru 2 :: (string, nat) lru_cache"
  let ?c1 = "snd (lru_Add ''a'' 1 ?c0)"
  let ?c2 = "snd (lru_Add ''b'' 2 ?c1)"
  let ?c3 = "snd (lru_Get ''a'' ?c2)"
  note c1 = cache_by_recency [OF lru_ok_new [of 2], of "''a''" "1 :: nat"]
  have r0: "recency ?c0 = []" "lruCapacity ?c0 = 2" by (simp_all add: recency_def new_lru_def)
  then have r1: "recency ?c1 = [(''a'', 1)]" "lru_ok ?c1" using c1 by simp_all
  then have r2: "recency ?c2 = [(''b'', 2), (''a'', 1)]" "lru_ok ?c2"
    using cache_by_recency [of ?c1 "''b''" 2] r0 by simp_all
  then have r3: "recency ?c3 = [(''a'', 1), (''b'', 2)]" "lru_ok ?c3"
    using cache_by_recency [of ?c2 "''a''" 0] by (simp_all add: used_def)
  then show ?thesis using cache_by_recency [of ?c3 "''c''" 3] r0 by simp
qed



text \<open>C31. \<open>Execute\<close> returns what the query found, in the order asked for, without an error. An inner query
  whose answer exceeds its limit gets one record more than the limit.\<close>

theorem execute_outcome:
  assumes "Query_db c fs (q\<lparr>sqLimit := limit\<rparr>) [] = Some (Inr (ens, q2))"
  shows "\<exists>rs. Execute c fs limit inner q = Some (Inr (rs, q2)) \<and> rsCode rs = DOC_STORE_SUCCESS \<and>
    (rsHas rs \<longleftrightarrow> ens \<noteq> []) \<and>
    (\<exists>rest. mset (rsRecords rs @ rest) = mset ens \<and>
      sorted_wrt (\<lambda>a b. entry_key q a \<le> entry_key q b) (rsRecords rs @ rest)) \<and>
    (if inner \<and> limit < int (length ens) then length (rsRecords rs) = min (nat (limit + 1)) (length ens)
     else length (rsRecords rs) = length ens)"
proof -
  let ?n = "if inner \<and> limit < int (length ens) then nat (limit + 1) else length ens"
  let ?all = "pq_pops (CreateCompareFunc q) ens"
  obtain rs where rs: "Execute c fs limit inner q = Some (Inr (rs, q2))" "rsCode rs = DOC_STORE_SUCCESS"
    "rsHas rs \<longleftrightarrow> ens \<noteq> []" "rsRecords rs = take ?n ?all"
    using Execute_outcome [OF assms, of inner] by blast
  have "rsRecords rs @ drop ?n ?all = ?all" using rs(4) by simp
  then have "mset (rsRecords rs @ drop ?n ?all) = mset ens \<and>
      sorted_wrt (\<lambda>a b. entry_key q a \<le> entry_key q b) (rsRecords rs @ drop ?n ?all)"
    using results_sorted [of q ens] by simp
  moreover have "length (rsRecords rs) = min ?n (length ens)" using rs(4) by simp
  ultimately show ?thesis using rs(1-3) by (intro exI [of _ rs]) auto
qed

theorem execute_outcome_witness:
  "\<exists>cache' fs' rs q2. insert_all sample_ctx [sample_event 1, sample_event 2] SysEventDatabase sample_fs =
      ([DOC_STORE_SUCCESS, DOC_STORE_SUCCESS], cache', fs') \<and>
    Execute sample_ctx fs' 5 True sample_query = Some (Inr (rs, q2)) \<and> length (rsRecords rs) = 2"
proof -
  obtain rets cache' fs' ens where
    i: "insert_all sample_ctx [sample_event 1, sample_event 2] SysEventDatabase sample_fs = (rets, cache', fs')"
      "rets = [DOC_STORE_SUCCESS, DOC_STORE_SUCCESS]"
    and q: "Query_db sample_ctx fs' sample_query [] = Some (Inr (ens, sample_query))" "length ens = 2"
    using sample_run by metis
  have "Query_db sample_ctx fs' (sample_query\<lparr>sqLimit := 5\<rparr>) [] = Some (Inr (ens, sample_query))"
    using q(1) by (simp add: sample_query_def)
  from execute_outcome [OF this, of True] show ?thesis using i q(2) by auto
qed





text \<open>C8. An interrupted backup loses nothing: at any moment between the writes of a backup the next
  check of the backup settles on a complete archive, the old one or the new one, and a successful
  backup has the new one in place.\<close>

theorem backup_survives_interruption:
  assumes "ctx_ok c" "canonical bl" "\<forall>a b. blRename bl a b" "\<not> prefix (scDbDir c) (backupTmpFile d)"
    and "FileExists fs d" "fs_file fs (backupFile d) = Some X" "\<not> IsDirectory fs (backupFile d)"
    and "SysEventBackup_Backup c bl d [fs] = (ok, h)"
  shows "\<exists>fs0. same_but {backupTmpFile d} fs fs0 \<and>
    (\<forall>fs' \<in> set h. \<exists>Z. fs_file (hd (snd (CheckBackupFile c bl d [fs']))) (backupFile d) = Some Z \<and>
      (Z = X \<or> Z = blPack bl (archive_entries c fs0))) \<and>
    (ok \<longrightarrow> fs_file (hd h) (backupFile d) = Some (blPack bl (archive_entries c fs0)))"
proof -
  obtain fs0 where fs0: "same_but {backupTmpFile d} fs fs0"
    "\<forall>fs' \<in> set h. fsDirs fs' = fsDirs fs \<and> (available d fs' = Some X \<or> available d fs' = Some (blPack bl (archive_entries c fs0)))"
    "ok \<longrightarrow> fs_file (hd h) (backupFile d) = Some (blPack bl (archive_entries c fs0))"
    using backup_states [OF assms(1,2,4,6,5,8)] by blast
  have "\<exists>Z. fs_file (hd (snd (CheckBackupFile c bl d [fs']))) (backupFile d) = Some Z \<and> (Z = X \<or> Z = blPack bl (archive_entries c fs0))"
    if "fs' \<in> set h" for fs'
  proof -
    have "\<not> IsDirectory fs' (backupFile d)" using fs0(2) that assms(7) by (simp add: IsDirectory_def)
    then show ?thesis using check_settles [of d fs' _ bl c] fs0(2) that assms(3) by blast
  qed
  then show ?thesis using fs0(1,3) by blast
qed

theorem backup_survives_interruption_witness:
  "\<exists>ok h. SysEventBackup_Backup sample_ctx sample_lib ''/log/backup/'' [backup_fs] = (ok, h) \<and> ok \<and>
    (\<forall>fs' \<in> set h. fs_file (hd (snd (CheckBackupFile sample_ctx sample_lib ''/log/backup/'' [fs']))) ''/log/backup/sysevent.zip'' \<noteq> None)"
proof -
  obtain ok h where b: "SysEventBackup_Backup sample_ctx sample_lib ''/log/backup/'' [backup_fs] = (ok, h)"
    by (cases "SysEventBackup_Backup sample_ctx sample_lib ''/log/backup/'' [backup_fs]")
  have ok: "fst (SysEventBackup_Backup sample_ctx sample_lib ''/log/backup/'' [backup_fs])" by code_simp
  have "canonical sample_lib" "\<forall>a b. blRename sample_lib a b" using sample_lib_ok by (simp_all add: backup_lib_ok_def sample_lib_def)
  moreover have "\<not> prefix (scDbDir sample_ctx) (backupTmpFile ''/log/backup/'')" "FileExists backup_fs ''/log/backup/''"
    "fs_file backup_fs (backupFile ''/log/backup/'') = Some [9]" "\<not> IsDirectory backup_fs (backupFile ''/log/backup/'')"
    by code_simp+
  ultimately have "\<forall>fs' \<in> set h. fs_file (hd (snd (CheckBackupFile sample_ctx sample_lib ''/log/backup/'' [fs']))) (backupFile ''/log/backup/'') \<noteq> None"
    using backup_survives_interruption [OF sample_ctx_ok _ _ _ _ _ _ b] by fastforce
  then show ?thesis using b ok by (auto simp: backupFile_def)
qed



text \<open>C33. A backup that starts when an earlier one was interrupted after renaming the old archive removes that
  archive before its own is in place: at that moment no archive is available.\<close>

theorem second_interruption_loses_backup:
  assumes "ctx_ok c" "canonical bl" "\<not> prefix (scDbDir c) (backupTmpFile d)" "FileExists fs d"
    and "fs_file fs (backupFile d) = None" "\<not> IsDirectory fs (backupFile d)" "foRemove (scOps c) (backupBakFile d)"
    and "SysEventBackup_Backup c bl d [fs] = (True, h)"
  shows "\<exists>fs' \<in> set h. fs_file fs' (backupFile d) = None \<and> fs_file fs' (backupBakFile d) = None"
  using backup_gap [OF assms] by (auto simp: available_def split: option.splits)

definition interrupted_fs :: file_system where
  "interrupted_fs = backup_fs\<lparr>fsFiles := butlast (fsFiles backup_fs) @ [(''/log/backup/sysevent.zip.bak'', [9])]\<rparr>"

theorem second_interruption_loses_backup_witness:
  "\<exists>h. SysEventBackup_Backup sample_ctx sample_lib ''/log/backup/'' [interrupted_fs] = (True, h) \<and>
    (\<exists>fs' \<in> set h. fs_file fs' ''/log/backup/sysevent.zip'' = None \<and> fs_file fs' ''/log/backup/sysevent.zip.bak'' = None)"
proof -
  have "fst (SysEventBackup_Backup sample_ctx sample_lib ''/log/backup/'' [interrupted_fs])" by code_simp
  then obtain h where b: "SysEventBackup_Backup sample_ctx sample_lib ''/log/backup/'' [interrupted_fs] = (True, h)"
    by (metis prod.collapse)
  have "canonical sample_lib" using sample_lib_ok by (simp add: backup_lib_ok_def)
  moreover have "\<not> prefix (scDbDir sample_ctx) (backupTmpFile ''/log/backup/'')" "FileExists interrupted_fs ''/log/backup/''"
    "fs_file interrupted_fs (backupFile ''/log/backup/'') = None" "\<not> IsDirectory interrupted_fs (backupFile ''/log/backup/'')"
    "foRemove (scOps sample_ctx) (backupBakFile ''/log/backup/'')" by code_simp+
  ultimately show ?thesis
    using second_interruption_loses_backup [OF sample_ctx_ok _ _ _ _ _ _ b] b by (auto simp: backupFile_def backupBakFile_def)
qed

section \<open>Trace quotas\<close>



text \<open>C10. An app gets one capture a day: in every run of dumps for apps on one day, in which the events happened on that day and each
  dump takes less than two days, no app is captured twice, whatever Hitrace answers and whatever is in the task table.\<close>

theorem app_captured_once_a_day:
  assumes "rdb_works (qeRdb env)" "app_handler_keeps env handle" "dates_grow env" "task_db env w"
    and "(app_step env ht handle X)\<^sup>*\<^sup>* (w, \<lambda>u. 0) (w', c)"
  shows "c uid \<le> 1"
proof -
  have "captures_ok env X (w, \<lambda>u. 0)" using assms(4) by (simp add: captures_ok_def)
  from captures_ok_run [OF assms(1-3,5) this] show ?thesis by (simp add: captures_ok_def)
qed

theorem app_captured_once_a_day_witness:
  "\<exists>w' c. (app_step sample_quota_env sized_hitrace None 20250101)\<^sup>*\<^sup>* (sample_quota_world, \<lambda>u. 0) (w', c) \<and>
     c 20010044 = 1 \<and> (\<forall>uid. c uid \<le> 1)"
proof -
  have k: "app_handler_keeps sample_quota_env None" by (simp add: app_handler_keeps_def)
  have "(app_step sample_quota_env sized_hitrace None 20250101)\<^sup>*\<^sup>* (sample_quota_world, \<lambda>u. 0)
      (fst (snd (sample_capture 0)), (\<lambda>u. 0)(20010044 := 1))"
    using sample_app_step by (rule r_into_rtranclp)
  with app_captured_once_a_day [OF sample_works(1) k sample_dates_grow sample_task_db this] show ?thesis
    by (intro exI [of _ "fst (snd (sample_capture 0))"] exI [of _ "(\<lambda>u. 0)(20010044 := 1)"]) auto
qed

text \<open>C38. A capture is recorded under the day of the event, but looked for under the day of the dump: after a
  capture for an event of another day, the app is not refused on the day of the capture.\<close>

theorem late_event_captured_again:
  assumes "rdb_works (qeRdb env)" "app_handler_keeps env handle" "task_db env w"
    and "day_num env (fst now) = Some X" "day_num env (acHappenTime caller) = Some Y" "Y \<noteq> X"
    and "TraceAppStrategy_DoDump env ht handle info0 now DB_PATH caller w m = ((ret, path), w', m')" "IsSuccess ret"
    and "TraceFlowController env ''APP'' DB_PATH [] w' = (c, w'')" "day_num env t = Some X"
  shows "\<not> fst (HasCallOnceToday env (acUid caller) t c w'')"
proof -
  note out = TraceAppStrategy_outcome [OF assms(1-5,7)]
  obtain s where s: "rsOpen s" "TraceFlowController env ''APP'' DB_PATH [] w' = (no_controller\<lparr>fcAppTask := True\<rparr>, w'\<lparr>dwStore := Some s\<rparr>)"
    using App_controller [OF assms(1), of w'] out(1) by (auto simp: task_db_def)
  have db: "task_db env (w'\<lparr>dwStore := Some s\<rparr>)" "has_task env u Z (w'\<lparr>dwStore := Some s\<rparr>) = has_task env u Z w'" for u Z
    using task_db_same [OF out(1), of "w'\<lparr>dwStore := Some s\<rparr>"] by simp_all
  have "\<not> has_task env (acUid caller) X w'" using out(2) out(3) [of "acUid caller" X] assms(6,8) by simp
  then show ?thesis using HasCallOnceToday_iff [OF assms(1) db(1) _ s(1) assms(10)] assms(9) s(2) db(2) by simp
qed

theorem late_event_captured_again_witness:
  "\<exists>c w''. TraceFlowController sample_quota_env ''APP'' DB_PATH [] (fst (snd (sample_capture 90000000))) = (c, w'') \<and>
     \<not> fst (HasCallOnceToday sample_quota_env 20010044 90000001 c w'')"
proof -
  have k: "app_handler_keeps sample_quota_env None" by (simp add: app_handler_keeps_def)
  obtain ret path w' m' where o: "sample_capture 90000000 = ((ret, path), w', m')" by (metis prod_cases3 surj_pair)
  then have r: "IsSuccess ret" using sample_captured [of 90000000] by simp
  obtain c w'' where c: "TraceFlowController sample_quota_env ''APP'' DB_PATH [] w' = (c, w'')" by fastforce
  from late_event_captured_again [OF sample_works(1) k sample_task_db _ _ _ o [unfolded sample_capture_def] r c, of 20250102 20250101 90000001]
  have "\<not> fst (HasCallOnceToday sample_quota_env 20010044 90000001 c w'')" by (simp add: sample_day sample_caller_def)
  with o c show ?thesis by simp
qed

section \<open>Pipelines and the platform\<close>

text \<open>C11. An event passes through its pipeline in order: whatever the plugins answer and however the calls of
  different threads interleave, as long as the check of the call that pended an event does not come between the two steps that resume it,
  the plugins that get the event are a subsequence of the pipeline, so that none gets it twice or out of turn, the front of an empty list is never
  read, and the producer is told of the end at most once and after everything else.\<close>

theorem pipeline_delivers:
  assumes "ok pl" "\<not> peHasFinish e" "\<not> peHasPending e"
    and "(pipe_step ok True)\<^sup>*\<^sup>* (ProcessEvent pl now pi e) st"
  shows "\<not> psBad st \<and> subseq (run_list (psLog st)) (piProcessors pi) \<and>
    (Recycled \<in> set (psLog st) \<longrightarrow> (\<exists>l. psLog st = l @ [Recycled] \<and> Recycled \<notin> set l))"
proof -
  have "pipe_inv ok (piProcessors pi) st"
    by (rule pipe_inv_run [OF assms(4) ProcessEvent_inv]) (use assms in auto)
  then show ?thesis unfolding pipe_inv_def
    using delivered_subseq by (fastforce simp: told_def split: if_splits)
qed

theorem pipeline_delivers_witness:
  "\<exists>st. (pipe_step (\<lambda>pl. True) True)\<^sup>*\<^sup>* (ProcessEvent all_live 0 two_plugins (PipelineEvent True 0)) st \<and> psTasks st = {#} \<and>
     \<not> psBad st \<and> subseq (run_list (psLog st)) [1, 2]"
proof -
  obtain st where st: "(pipe_step (\<lambda>pl. True) True)\<^sup>*\<^sup>* (ProcessEvent all_live 0 two_plugins (PipelineEvent True 0)) st" "psTasks st = {#}"
    using comes_to_rest [of "\<lambda>pl. True" all_live] by blast
  with pipeline_delivers [OF _ _ _ st(1)] show ?thesis by (auto simp: PipelineEvent_def two_plugins_def)
qed



text \<open>C37. A plugin that resumes an event clears its pending status before it continues it. When this happens before the call in which
  the event was pended makes its check, both threads continue the event: a pipeline of two plugins reaches a call that reads the
  front of an empty list.\<close>

theorem resumed_event_races:
  "\<exists>st. (pipe_step (\<lambda>pl. True) False)\<^sup>*\<^sup>* (ProcessEvent all_live 0 two_plugins (PipelineEvent True 0)) st \<and> psBad st"
  by (rule race_run)


text \<open>C34. A broadcast event reaches exactly the listeners that asked for it: when the platform is ready and its queue runs, posting an event and
  running its task calls, of all names under which something was registered, the live listeners registered last under a name that
  registered the type, or the event under the type, or whose first rule for the type and the domain lets the event through.\<close>

theorem broadcast_reaches_listeners:
  assumes "pfIsReady pf" "pfUnorderQueue pf = Some q" "dqIsRunning q" "dqHasContext q" "dqUnordered q" "dqTasks q = []"
    and "pfListeners pf = fold register regs []"
  shows "\<exists>q'. pfUnorderQueue (PostUnorderedEvent (Some e) pf) = Some q' \<and>
    set (fst (queue_run live (pfListeners pf) q')) = {l. live l \<and> (\<exists>n. listener_of n regs = Some l \<and> wants regs n e)}"
  using assms by (simp add: PostUnorderedEvent_def queue_Enqueue_def queue_run_def broadcast_reaches)

theorem broadcast_reaches_listeners_witness:
  "wants [RegType 2 ''a'', RegListener ''a'' 7] ''a'' \<lparr>brMessageType = 2, brEventName = ''E'', brDomain = ''D''\<rparr> \<and>
   (\<exists>q' pf. pfUnorderQueue (PostUnorderedEvent (Some \<lparr>brMessageType = 2, brEventName = ''E'', brDomain = ''D''\<rparr>) pf) = Some q' \<and>
      7 \<in> set (fst (queue_run (\<lambda>l. True) (pfListeners pf) q')))"
proof -
  let ?regs = "[RegType 2 ''a'', RegListener ''a'' 7]"
  let ?e = "\<lparr>brMessageType = 2, brEventName = ''E'', brDomain = ''D''\<rparr>"
  let ?q = "\<lparr>dqIsRunning = True, dqUnordered = True, dqHasContext = True, dqTasks = []\<rparr>"
  let ?pf = "\<lparr>pfIsReady = True, pfPluginMap = Map.empty, pfPipelines = [], pfPipelineRules = [], pfListeners = fold register ?regs [],
    pfDispatchers = [], pfUnorderQueue = Some ?q\<rparr>"
  have w: "wants ?regs ''a'' ?e" by (simp add: wants_def)
  obtain q' where "pfUnorderQueue (PostUnorderedEvent (Some ?e) ?pf) = Some q'"
      "set (fst (queue_run (\<lambda>l. True) (pfListeners ?pf) q')) = {l. True \<and> (\<exists>n. listener_of n ?regs = Some l \<and> wants ?regs n ?e)}"
    using broadcast_reaches_listeners [of ?pf ?q ?regs ?e "\<lambda>l. True"] by auto
  moreover have "listener_of ''a'' ?regs = Some 7" by simp
  ultimately show ?thesis using w by blast
qed



section \<open>Repeated fault events\<close>

text \<open>C13. On an empty database that works, every run of checks and changes of the user experience
  switch, on a clock that does not go back, marks events exactly as a map would that remembers the last packing of each
  event: opening and releasing the database at each check, the update or insertion of rows and the removal of old rows
  above the limit cannot be seen.\<close>

theorem repeat_guard_refines:
  assumes "repeat_lib_works rl" "has_db rl (rpDb s)" "hash_rows rl (rpDb s) = {#}" "repeat_ops_ok sha 0 ops"
  shows "\<exists>s'. guard_run rl sha beta ops s = Some (fst (packed_run sha beta ops Map.empty), s')"
  using guard_run_refines [OF assms(1) tracked_empty [OF assms(2,3)] order_refl, of sha ops "[]"] assms(4) by auto

theorem repeat_guard_refines_witness:
  "\<exists>s'. guard_run list_repeat_lib (\<lambda>bs. bs) False
     [CheckOp (100000, 100000) crash_sample, CheckOp (186399, 186399) crash_sample, CheckOp (186400, 186401) crash_sample,
      CheckOp (186402, 186402) crash_sample, SwitchOp 186403 ''1'', CheckOp (186403, 186403) crash_sample] repeat_db_sample =
     Some ([1, 33, 1, 33, 1], s')"
  using repeat_guard_refines [OF list_repeat_lib_works repeat_db_sample_ok, of "\<lambda>bs. bs"
      "[CheckOp (100000, 100000) crash_sample, CheckOp (186399, 186399) crash_sample, CheckOp (186400, 186401) crash_sample,
        CheckOp (186402, 186402) crash_sample, SwitchOp 186403 ''1'', CheckOp (186403, 186403) crash_sample]" False]
  by (simp add: crash_sample_def GetEventUniqueId_def repeated_def GetMinValidTime_def TIME_RANGE_COMMERCIAL_def Let_def)

text \<open>C14. After a fault event was marked as packed, the same event is marked as a repetition at every
  check less than the period later, a day or on beta versions an hour, whatever other events were checked between,
  as long as the user does not turn the user experience switch on.\<close>

theorem fault_packed_once:
  assumes "repeat_lib_works rl" "has_db rl (rpDb s)" "hash_rows rl (rpDb s) = {#}"
    and "repeat_ops_ok sha 0 (xs @ CheckOp n1 e1 # ys @ [CheckOp n2 e2])" "list_all no_switch ys"
    and "feType e1 = 1" "feType e2 = 1" "feDomain e2 = feDomain e1" "feName e2 = feName e1"
    and "GetEventUniqueId sha e1 = Some (Some h)" "GetEventUniqueId sha e2 = Some (Some h)"
    and "guard_run rl sha beta (xs @ [CheckOp n1 e1]) s = Some (logs, s1)" "last logs = LOG_ALLOW_PACK OR LOG_PACKED"
    and "fst n2 < snd n1 + (if beta then TIME_RANGE_BETA else TIME_RANGE_COMMERCIAL)"
  shows "\<exists>logs2 s2. guard_run rl sha beta (ys @ [CheckOp n2 e2]) s1 = Some (logs2, s2) \<and> last logs2 = LOG_NOT_ALLOW_PACK OR LOG_REPEAT"
proof -
  let ?k = "(feDomain e1, feName e1, h)"
  let ?px = "snd (packed_run sha beta xs Map.empty)"
  have px: "packed_run sha beta (xs @ ops) p = (fst (packed_run sha beta xs p) @ fst (packed_run sha beta ops (snd (packed_run sha beta xs p))),
      snd (packed_run sha beta ops (snd (packed_run sha beta xs p))))" for xs ops p
    by (rule packed_run_append)
  obtain c where c: "logs = fst (packed_run sha beta (xs @ [CheckOp n1 e1]) Map.empty)" "0 \<le> c"
      "tracked rl (GetMinValidTime beta c) (snd (packed_run sha beta (xs @ [CheckOp n1 e1]) Map.empty)) s1"
      "repeat_ops_ok sha c (ys @ [CheckOp n2 e2])"
    using guard_run_refines [OF assms(1) tracked_empty [OF assms(2,3)] order_refl, of sha "xs @ [CheckOp n1 e1]" "ys @ [CheckOp n2 e2]" beta]
      assms(4,12) by auto
  have "\<not> repeated beta (fst n1) ?k ?px"
    using c(1) assms(6,10,13) by (auto simp: px Let_def LOG_ALLOW_PACK_def LOG_PACKED_def)
  then have k: "snd (packed_run sha beta (xs @ [CheckOp n1 e1]) Map.empty) ?k = Some (snd n1)"
    using assms(6,10) by (simp add: px Let_def)
  have pos: "0 < snd n1" using repeat_ops_ok_pos [of sha 0 xs n1 e1] assms(4) by simp
  then have m: "GetMinValidTime beta (fst n2) < snd n1" using assms(14) by (simp add: GetMinValidTime_def Let_def split: if_splits)
  from packed_kept [of "snd (packed_run sha beta (xs @ [CheckOp n1 e1]) Map.empty)" ?k, OF k m c(4) assms(5)]
  have "packed_run sha beta (ys @ [CheckOp n2 e2]) (snd (packed_run sha beta (xs @ [CheckOp n1 e1]) Map.empty)) =
      (fst (packed_run sha beta ys (snd (packed_run sha beta (xs @ [CheckOp n1 e1]) Map.empty))) @ [33],
       snd (packed_run sha beta ys (snd (packed_run sha beta (xs @ [CheckOp n1 e1]) Map.empty))))"
    using assms(7-9,11) m unfolding px [of ys] by (simp add: Let_def repeated_def)
  then show ?thesis
    using guard_run_refines [OF assms(1) c(3,2), of sha "ys @ [CheckOp n2 e2]" "[]"] c(4)
    by (auto simp: LOG_NOT_ALLOW_PACK_def LOG_REPEAT_def)
qed

theorem fault_packed_once_witness:
  "\<exists>logs s1 logs2 s2. guard_run list_repeat_lib (\<lambda>bs. bs) False [CheckOp (100000, 100000) crash_sample] repeat_db_sample = Some (logs, s1) \<and>
     guard_run list_repeat_lib (\<lambda>bs. bs) False
       ([CheckOp (150000, 150000) (crash_sample\<lparr>feName := ''CPP_CRASH''\<rparr>)] @ [CheckOp (186399, 186399) crash_sample]) s1 = Some (logs2, s2) \<and>
     last logs2 = LOG_NOT_ALLOW_PACK OR LOG_REPEAT"
proof -
  let ?ops = "[] @ CheckOp (100000, 100000) crash_sample # [CheckOp (150000, 150000) (crash_sample\<lparr>feName := ''CPP_CRASH''\<rparr>)] @
    [CheckOp (186399, 186399) crash_sample]"
  have ok: "repeat_ops_ok (\<lambda>bs. bs) 0 ?ops" by (simp add: crash_sample_def GetEventUniqueId_def)
  obtain s1 where s1: "guard_run list_repeat_lib (\<lambda>bs. bs) False ([] @ [CheckOp (100000, 100000) crash_sample]) repeat_db_sample = Some ([1], s1)"
    using guard_run_refines [OF list_repeat_lib_works tracked_empty [OF repeat_db_sample_ok] order_refl, of "\<lambda>bs. bs"
      "[CheckOp (100000, 100000) crash_sample]" "[]" False]
    by (auto simp: crash_sample_def GetEventUniqueId_def repeated_def)
  from fault_packed_once [OF list_repeat_lib_works repeat_db_sample_ok ok _ _ _ _ _ _ _ this, of "''a1b2''"]
  show ?thesis using s1
    by (simp add: no_switch_def crash_sample_def GetEventUniqueId_def TIME_RANGE_COMMERCIAL_def LOG_ALLOW_PACK_def LOG_PACKED_def)
qed

text \<open>C15. The identifier of a fault event without a fingerprint is the hash of the bytes of its
  parameters and of nothing else of the block: events of different times, processes or traces with the same parameters
  have the same identifier, and an event without parameters has none and is never a repetition.\<close>

theorem hash_of_params:
  assumes "alloc_sized al" "alloc_total al" "reachable_builder al b" "length (builder_block b) < 2 ^ 31"
    and "feFingerprint e = []"
  shows "\<exists>rd. Build al b = (Some rd, b) \<and>
    (\<forall>buf sha. rdData rd = Some buf \<and> feRaw e = Some buf \<longrightarrow>
       (entries_of b = [] \<longrightarrow> GetEventUniqueId sha e = Some None) \<and>
       (entries_of b \<noteq> [] \<and> sha (params_bytes (entries_of b)) \<noteq> [] \<longrightarrow>
          GetEventUniqueId sha e = Some (Some (ConvertToString (sha (params_bytes (entries_of b)))))))"
proof -
  have b: "builder_ok b" by (rule reachable_builder_ok [OF assms(1,3)])
  obtain rd where rd: "Build al b = (Some rd, b)" "raw_live rd" "rd_bytes rd = builder_block b" by (rule Build_bytes [OF assms(1,2) b])
  have len: "4 + length (block_tail (rbHeader b) (rbTrace b) (entries_of b)) < 2 ^ 31"
    using assms(4) by (simp add: builder_block_def length_block_bytes)
  have ne: "params_bytes (entries_of b) = [] \<longleftrightarrow> entries_of b = []"
    by (cases "entries_of b") (auto simp: params_bytes_def param_bytes_nonempty)
  have h: "GetShaStr sha buf = Some (if entries_of b = [] then None else Some (ConvertToString (sha (params_bytes (entries_of b)))))"
    if "rdData rd = Some buf" for sha buf
  proof -
    have "take (rdLen rd) buf = builder_block b" using rd(2,3) that by (auto simp: raw_live_def rd_bytes_def)
    then have "block_bytes (rbHeader b) (rbTrace b) (entries_of b) @ drop (rdLen rd) buf = buf"
      using append_take_drop_id [of "rdLen rd" buf] by (simp add: builder_block_def)
    from GetShaStr_block [OF builder_ok_header [OF b] len, of sha "drop (rdLen rd) buf", unfolded this ne] show ?thesis .
  qed
  have c: "ConvertToString bs \<noteq> []" if "bs \<noteq> []" for bs using that by (cases bs) (simp_all add: ConvertToString_def)
  show ?thesis using rd(1) h c assms(5) by (auto simp: GetEventUniqueId_def)
qed

theorem hash_of_params_witness:
  "\<exists>rd buf. Build zero_alloc (append_new zero_alloc ''K'' (UnsignedVal 7) (RawDataBuilder_named ''D'' ''N'' 1)) =
      (Some rd, append_new zero_alloc ''K'' (UnsignedVal 7) (RawDataBuilder_named ''D'' ''N'' 1)) \<and> rdData rd = Some buf \<and>
    GetEventUniqueId (\<lambda>bs. bs) (crash_sample\<lparr>feFingerprint := [], feRaw := Some buf\<rparr>) =
      Some (Some (ConvertToString (param_bytes ''K'' (UnsignedVal 7))))"
proof -
  let ?b = "append_new zero_alloc ''K'' (UnsignedVal 7) (RawDataBuilder_named ''D'' ''N'' 1)"
  have r: "reachable_builder zero_alloc ?b"
    by (rule reachable_builder.set_param [OF reachable_builder.made_named [of zero_alloc "''D''" "''N''" 1]])
  have "length (builder_block ?b) = 93" and e: "entries_of ?b = [(''K'', UnsignedVal 7)]" by code_simp+
  then have len: "length (builder_block ?b) < 2 ^ 31" by simp
  obtain rd where rd: "Build zero_alloc ?b = (Some rd, ?b)" "raw_live rd"
    using Build_bytes [OF zero_alloc_sized zero_alloc_total reachable_builder_ok [OF zero_alloc_sized r]] by blast
  then obtain buf where buf: "rdData rd = Some buf" by (auto simp: raw_live_def)
  have "params_bytes (entries_of ?b) = param_bytes ''K'' (UnsignedVal 7)" unfolding e by (simp add: params_bytes_def)
  with hash_of_params [OF zero_alloc_sized zero_alloc_total r len, of "crash_sample\<lparr>feFingerprint := [], feRaw := Some buf\<rparr>"]
  show ?thesis using rd(1) buf param_bytes_nonempty [of "''K''" "UnsignedVal 7"] unfolding e by auto
qed

end
